(* ===== verification/Prelude.thy ===== *)
theory Prelude
  imports Main "HOL-Library.Char_ord" "HOL-Library.List_Lexorder" "HOL-Library.Product_Lexorder"
begin

text \<open>
  Shared vocabulary of the development: the types the Rust sources use everywhere (UUIDs,
  instants, durations, JSON values, hash maps), the few operations on them the code calls,
  the lemmas about those operations that every component's automation relies on, and the two
  locales about labelled transition systems that the stateful components instantiate.

  Conventions.
  \<^item> A \<^verbatim>\<open>Uuid\<close> is a \<open>nat\<close>; its textual form is a parameter of the definitions that print or
    parse one, because the \<^verbatim>\<open>uuid\<close> crate is not part of the repository.
  \<^item> A \<^verbatim>\<open>DateTime<Utc>\<close> and an \<^verbatim>\<open>Instant\<close> are an \<open>int\<close> count of nanoseconds, a \<^verbatim>\<open>Duration\<close> the
    same; \<^verbatim>\<open>chrono\<close>'s range panics are not modelled.
  \<^item> A \<^verbatim>\<open>HashMap\<close> is a map \<open>'k \<rightharpoonup> 'v\<close>, a \<^verbatim>\<open>HashSet\<close> or \<^verbatim>\<open>BTreeSet\<close> a set, a \<^verbatim>\<open>Vec\<close> a list, a
    \<^verbatim>\<open>String\<close> a \<open>string\<close> compared as Rust compares it, byte by byte.
\<close>

section \<open>Collections of facts\<close>

named_theorems frame_simps \<open>fields an operation leaves alone\<close>
named_theorems op_defs \<open>definitions that component proofs unfold\<close>

section \<open>Types\<close>

type_synonym uuid = nat
type_synonym instant = int
type_synonym duration = int
type_synonym ('e, 'a) result = "'e + 'a"

text \<open>A \<^verbatim>\<open>serde_json::Value\<close>. Object keys are unique in \<^verbatim>\<open>serde_json\<close>; \<open>json_get\<close> reads the first.\<close>

datatype json =
    JNull
  | JBool bool
  | JNum int
  | JStr string
  | JArr "json list"
  | JObj "(string \<times> json) list"

fun json_get :: "json \<Rightarrow> string \<Rightarrow> json option" where
  "json_get (JObj kvs) k = map_of kvs k"
| "json_get _ k = None"

fun json_as_str :: "json \<Rightarrow> string option" where
  "json_as_str (JStr s) = Some s"
| "json_as_str _ = None"

section \<open>Durations\<close>

definition milliseconds :: "int \<Rightarrow> duration" where
  "milliseconds n = n * 1000000"

definition seconds :: "int \<Rightarrow> duration" where
  "seconds n = n * 1000000000"

definition minutes :: "int \<Rightarrow> duration" where
  "minutes n = seconds (60 * n)"

definition days :: "int \<Rightarrow> duration" where
  "days n = seconds (86400 * n)"

text \<open>Whole milliseconds and seconds of a duration, truncated towards zero.\<close>

definition num_milliseconds :: "duration \<Rightarrow> int" where
  "num_milliseconds d = sgn d * (\<bar>d\<bar> div 1000000)"

definition num_seconds :: "duration \<Rightarrow> int" where
  "num_seconds d = sgn d * (\<bar>d\<bar> div 1000000000)"

lemmas duration_defs = milliseconds_def seconds_def minutes_def days_def

lemma milliseconds_mono [simp]: "milliseconds a \<le> milliseconds b \<longleftrightarrow> a \<le> b"
  by (simp add: milliseconds_def)

lemma milliseconds_nonneg [simp]: "0 \<le> milliseconds a \<longleftrightarrow> 0 \<le> a"
  by (simp add: milliseconds_def)

lemma num_milliseconds_pos: "0 \<le> d \<Longrightarrow> num_milliseconds d = d div 1000000"
  by (cases "d = 0") (auto simp: num_milliseconds_def)

section \<open>Casts\<close>

text \<open>The \<^verbatim>\<open>as i32\<close> and \<^verbatim>\<open>as u32\<close> casts of a wider integer keep the low 32 bits.\<close>

definition as_i32 :: "int \<Rightarrow> int" where
  "as_i32 x = (x + 2147483648) mod 4294967296 - 2147483648"

definition as_u32 :: "int \<Rightarrow> int" where
  "as_u32 x = x mod 4294967296"

lemma as_i32_id: "- 2147483648 \<le> x \<Longrightarrow> x < 2147483648 \<Longrightarrow> as_i32 x = x"
  by (simp add: as_i32_def)

lemma as_u32_id: "0 \<le> x \<Longrightarrow> x < 4294967296 \<Longrightarrow> as_u32 x = x"
  by (simp add: as_u32_def)

section \<open>Hash maps\<close>

text \<open>\<^verbatim>\<open>HashMap::remove\<close> and \<^verbatim>\<open>HashMap::retain\<close>.\<close>

definition map_remove :: "'k \<Rightarrow> ('k \<rightharpoonup> 'v) \<Rightarrow> ('k \<rightharpoonup> 'v)" where
  "map_remove k m = m(k := None)"

definition map_retain :: "('k \<Rightarrow> 'v \<Rightarrow> bool) \<Rightarrow> ('k \<rightharpoonup> 'v) \<Rightarrow> ('k \<rightharpoonup> 'v)" where
  "map_retain P m = (\<lambda>k. case m k of None \<Rightarrow> None | Some v \<Rightarrow> if P k v then Some v else None)"

lemma map_remove_apply [simp]: "map_remove k m j = (if j = k then None else m j)"
  by (simp add: map_remove_def)

lemma map_retain_eq_Some [simp]: "map_retain P m k = Some v \<longleftrightarrow> m k = Some v \<and> P k v"
  by (auto simp: map_retain_def split: option.splits)

lemma map_retain_eq_None: "map_retain P m k = None \<longleftrightarrow> (\<forall>v. m k = Some v \<longrightarrow> \<not> P k v)"
  by (auto simp: map_retain_def split: option.splits)

text \<open>\<^verbatim>\<open>Option::is_some_and\<close> and \<^verbatim>\<open>Option::is_none_or\<close>.\<close>

fun is_some_and :: "'a option \<Rightarrow> ('a \<Rightarrow> bool) \<Rightarrow> bool" where
  "is_some_and None P = False"
| "is_some_and (Some x) P = P x"

fun is_none_or :: "'a option \<Rightarrow> ('a \<Rightarrow> bool) \<Rightarrow> bool" where
  "is_none_or None P = True"
| "is_none_or (Some x) P = P x"

fun unwrap_or :: "'a option \<Rightarrow> 'a \<Rightarrow> 'a" where
  "unwrap_or None d = d"
| "unwrap_or (Some x) d = x"

lemma is_some_and_iff: "is_some_and v P \<longleftrightarrow> (\<exists>x. v = Some x \<and> P x)"
  by (cases v) auto

lemma is_none_or_iff: "is_none_or v P \<longleftrightarrow> (\<forall>x. v = Some x \<longrightarrow> P x)"
  by (cases v) auto

section \<open>Strings\<close>

text \<open>\<^verbatim>\<open>str::strip_prefix\<close> and \<^verbatim>\<open>str::contains\<close>.\<close>

fun strip_prefix :: "string \<Rightarrow> string \<Rightarrow> string option" where
  "strip_prefix [] s = Some s"
| "strip_prefix (p # ps) (c # cs) = (if p = c then strip_prefix ps cs else None)"
| "strip_prefix (p # ps) [] = None"

fun str_contains :: "string \<Rightarrow> string \<Rightarrow> bool" where
  "str_contains [] p \<longleftrightarrow> p = []"
| "str_contains (c # cs) p \<longleftrightarrow> strip_prefix p (c # cs) \<noteq> None \<or> str_contains cs p"

lemma strip_prefix_append [simp]: "strip_prefix p (p @ s) = Some s"
  by (induction p) auto

lemma strip_prefix_eq_Some: "strip_prefix p s = Some t \<longleftrightarrow> s = p @ t"
  by (induction p s rule: strip_prefix.induct) auto

section \<open>First match in a list\<close>

lemma find_SomeD: "find P xs = Some x \<Longrightarrow> x \<in> set xs \<and> P x"
  by (auto simp: find_Some_iff in_set_conv_nth)

lemma find_ex: "(\<exists>x \<in> set xs. P x) \<longleftrightarrow> find P xs \<noteq> None"
  by (auto simp: find_None_iff)

lemma find_unique:
  assumes "x \<in> set xs" "P x" "\<And>y. y \<in> set xs \<Longrightarrow> P y \<Longrightarrow> y = x"
  shows "find P xs = Some x"
proof (cases "find P xs")
  case None
  with assms(1,2) show ?thesis by (auto simp: find_None_iff)
next
  case (Some y)
  then have "y = x" using find_SomeD [OF Some] assms(3) by blast
  with Some show ?thesis by simp
qed

lemma find_map: "find P (map f xs) = map_option f (find (\<lambda>x. P (f x)) xs)"
  by (induction xs) auto

lemma find_append: "find P (xs @ ys) = (case find P xs of Some x \<Rightarrow> Some x | None \<Rightarrow> find P ys)"
  by (induction xs) auto

lemma find_append_swap:
  assumes "\<And>x y. x \<in> set xs \<Longrightarrow> y \<in> set ys \<Longrightarrow> P x \<Longrightarrow> P y \<Longrightarrow> False"
  shows "find P (xs @ ys) = find P (ys @ xs)"
proof (cases "find P xs")
  case None
  then show ?thesis by (simp add: find_append split: option.split)
next
  case (Some z)
  then have "find P ys = None"
    using assms find_SomeD [OF Some] by (auto simp: find_None_iff)
  with Some show ?thesis by (simp add: find_append)
qed

section \<open>Rows of a table\<close>

text \<open>Pairs collected into a hash map: the last pair of a key stays.\<close>

definition collect_map :: "('k \<times> 'v) list \<Rightarrow> ('k \<rightharpoonup> 'v)" where
  "collect_map kvs = map_of (rev kvs)"

lemma collect_map_distinct: "distinct (map fst kvs) \<Longrightarrow> collect_map kvs = map_of kvs"
  unfolding collect_map_def
  by (subst map_of_inject_set) (auto simp: rev_map [symmetric])

lemma map_of_rows: "map_of (map (\<lambda>r. (f r, g r)) rs) k = map_option g (find (\<lambda>r. f r = k) rs)"
  by (induction rs) auto

lemma collect_map_rows:
  "distinct (map f rs) \<Longrightarrow> collect_map (map (\<lambda>r. (f r, g r)) rs) k = map_option g (find (\<lambda>r. f r = k) rs)"
  by (subst collect_map_distinct) (simp_all add: comp_def map_of_rows)

lemma map_of_filtered_rows:
  "distinct (map f rs) \<Longrightarrow>
   map_of (List.map_filter (\<lambda>r. map_option (\<lambda>v. (f r, v)) (g r)) rs) k =
     Option.bind (find (\<lambda>r. f r = k) rs) g"
proof (induction rs)
  case (Cons r rs)
  then have "find (\<lambda>y. f y = f r) rs = None"
    by (simp add: find_None_iff) (metis image_eqI)
  with Cons show ?case by (cases "g r") (auto simp: List.map_filter_simps)
qed (simp add: List.map_filter_simps)

lemma collect_filtered_rows:
  assumes "distinct (map f rs)"
  shows "collect_map (List.map_filter (\<lambda>r. map_option (\<lambda>v. (f r, v)) (g r)) rs) k =
     Option.bind (find (\<lambda>r. f r = k) rs) g"
proof -
  have "set (map fst (List.map_filter (\<lambda>r. map_option (\<lambda>v. (f r, v)) (g r)) rs)) \<subseteq> f ` set rs" for rs
    by (induction rs) (auto simp: List.map_filter_simps split: option.splits)
  moreover have "distinct (map fst (List.map_filter (\<lambda>r. map_option (\<lambda>v. (f r, v)) (g r)) rs))"
    using assms
  proof (induction rs)
    case (Cons r rs)
    with calculation [of rs] show ?case by (cases "g r") (auto simp: List.map_filter_simps)
  qed (simp add: List.map_filter_simps)
  ultimately show ?thesis by (simp add: collect_map_distinct map_of_filtered_rows assms)
qed

lemma find_row_iff:
  "distinct (map f rs) \<Longrightarrow> find (\<lambda>r. f r = k) rs = Some r \<longleftrightarrow> r \<in> set rs \<and> f r = k"
  by (induction rs) auto

lemma find_update_row:
  "(\<And>r. f (g r) = f r) \<Longrightarrow>
   find (\<lambda>r. f r = k) (map (\<lambda>r. if f r = c then g r else r) rs) =
     map_option (\<lambda>r. if k = c then g r else r) (find (\<lambda>r. f r = k) rs)"
  by (induction rs) auto

lemma find_filter_row:
  "find (\<lambda>r. f r = k) (filter (\<lambda>r. f r \<noteq> c) rs) = (if k = c then None else find (\<lambda>r. f r = k) rs)"
  by (induction rs) auto

lemma find_pair: "find (\<lambda>(k, _). k = c) kvs = map_option (\<lambda>v. (c, v)) (map_of kvs c)"
  by (induction kvs) auto

section \<open>Labelled transition systems\<close>

text \<open>
  A stateful component is a function from events to state updates. \<open>run_events\<close> folds it over
  the events in the order they arrive. The locale \<open>preserved\<close> is the contract "every operation
  keeps \<open>I\<close>"; \<open>guarded_fact\<close> is the contract "every operation but the ones in \<open>clears\<close> keeps the
  fact \<open>F\<close>", which is how sticky safety state is specified.
\<close>

fun run_events :: "('e \<Rightarrow> 's \<Rightarrow> 's) \<Rightarrow> 'e list \<Rightarrow> 's \<Rightarrow> 's" where
  "run_events step [] s = s"
| "run_events step (e # es) s = run_events step es (step e s)"

lemma run_events_append [simp]:
  "run_events step (es @ fs) s = run_events step fs (run_events step es s)"
  by (induction es arbitrary: s) auto

locale preserved =
  fixes step :: "'e \<Rightarrow> 's \<Rightarrow> 's"
    and I :: "'s \<Rightarrow> bool"
  assumes step_keeps: "I s \<Longrightarrow> I (step e s)"
begin

lemma run_keeps: "I s \<Longrightarrow> I (run_events step es s)"
  by (induction es arbitrary: s) (auto intro: step_keeps)

end

locale guarded_fact =
  fixes step :: "'e \<Rightarrow> 's \<Rightarrow> 's"
    and F :: "'k \<Rightarrow> 's \<Rightarrow> bool"
    and clears :: "'k \<Rightarrow> 'e \<Rightarrow> bool"
  assumes step_guarded: "F k s \<Longrightarrow> \<not> clears k e \<Longrightarrow> F k (step e s)"
begin

lemma run_guarded: "F k s \<Longrightarrow> \<forall>e \<in> set es. \<not> clears k e \<Longrightarrow> F k (run_events step es s)"
  by (induction es arbitrary: s) (auto intro: step_guarded)

lemma cleared_by_event:
  assumes "F k s" "\<not> F k (run_events step es s)"
  obtains e where "e \<in> set es" "clears k e"
  using run_guarded assms by blast

end

end
