(* ===== verification/Wire.thy ===== *)
theory Wire
  imports Prelude
begin

text \<open>
  The payloads of \<^verbatim>\<open>css_lib/src/wire.rs\<close> that the server sends to a coordinator: the wiring
  snapshot (\<^verbatim>\<open>module/state\<close>), the one resource policy (\<^verbatim>\<open>resource/policy\<close>), the power snapshot
  (\<^verbatim>\<open>power/state\<close>), and the lease and scan reply the coordinator sends to hardware. Each struct is
  a record with the source's fields, prefixed by the struct's initials. Serialization itself is
  \<^verbatim>\<open>serde\<close>'s and is not modelled: a payload arrives as the record.
\<close>

record device_binding =
  db_id :: string
  db_device_id :: string
  db_role :: string
  db_name :: string
  db_params :: json
  db_on_disconnect :: string
  db_start_stage :: int
  db_start_delay_ms :: int
  db_run_on_ms :: int
  db_pulse_ms :: int
  db_hold_open_access :: bool

record tool_interlock_rule =
  ir_id :: string
  ir_kind :: string
  ir_condition :: string
  ir_source_module_id :: "string option"
  ir_debounce_ms :: int
  ir_latch :: bool
  ir_reset :: string
  ir_enforcement :: string

record tool_module_tool =
  tmt_tool_id :: string
  tmt_external_id :: "string option"
  tmt_kind :: string
  tmt_session_profile :: string
  tmt_in_use :: bool
  tmt_modules :: "device_binding list"
  tmt_interlocks :: "tool_interlock_rule list"
  tmt_power_fails_safe :: bool

record tool_module_state_payload =
  tms_as_of :: string
  tms_tools :: "tool_module_tool list"

record resource_policy =
  rp_id :: string
  rp_external_id :: "string option"
  rp_name :: string
  rp_kind :: string
  rp_session_profile :: string
  rp_status :: string
  rp_requires_online :: bool
  rp_in_use :: bool
  rp_enabled :: bool
  rp_pulse_ms :: "int option"
  rp_allow :: "string list"
  rp_deny :: "string list"
  rp_hold_until :: "string option"

record wire_principal =
  wp_digest :: string
  wp_full_name :: string
  wp_is_active :: bool
  wp_authorized :: "string list"

record resource_policy_payload =
  rpp_device_id :: string
  rpp_as_of :: string
  rpp_profile_field :: string
  rpp_resources :: "resource_policy list"
  rpp_principals :: "wire_principal list"

record power_state_circuit =
  psc_id :: string
  psc_amperage_limit :: string

record power_state_tool =
  pst_id :: string
  pst_external_id :: "string option"
  pst_circuit_id :: "string option"

record power_state_payload =
  psp_as_of :: string
  psp_locked_tool_ids :: "string list"
  psp_circuits :: "power_state_circuit list"
  psp_tools :: "power_state_tool list"

text \<open>The reply to a badge: a strike pulse is sent with a yes and never with a no.\<close>

record local_strike =
  ls_pulse_ms :: int

record local_scan_reply =
  lsr_resource :: string
  lsr_authorized :: bool
  lsr_reason :: string
  lsr_strike :: "local_strike option"

definition local_scan_reply_new :: "string \<Rightarrow> bool \<Rightarrow> string \<Rightarrow> int option \<Rightarrow> local_scan_reply" where
  "local_scan_reply_new resource authorized reason pulse_ms =
     \<lparr>lsr_resource = resource, lsr_authorized = authorized, lsr_reason = reason,
      lsr_strike = (if authorized
                    then map_option (\<lambda>p. \<lparr>ls_pulse_ms = p\<rparr>) pulse_ms
                    else None)\<rparr>"

lemma local_scan_reply_strike_only_when_authorized:
  "lsr_strike (local_scan_reply_new r a why p) = Some st \<Longrightarrow> a \<and> p = Some (ls_pulse_ms st)"
  by (cases p) (auto simp: local_scan_reply_new_def split: if_splits)

end
