(* ===== verification/Leases.thy ===== *)
theory Leases
  imports Wire
begin

text \<open>
  The coordinator's lease engine, \<^verbatim>\<open>edge/src/modules.rs\<close>. The state behind the \<^verbatim>\<open>RwLock\<close> is the
  record \<open>inner\<close>; each method of \<^verbatim>\<open>ModuleState\<close> is a function on it, taking the instant the caller
  passes. A method that takes the lock twice (\<^verbatim>\<open>renew\<close> reads, then writes) is one function: the
  coordinator runs one lease loop, and the ingest paths are separate events of \<open>engine_step\<close>.
  A refusal carries the denial itself; its rendering for the log line (\<^verbatim>\<open>{denial:?}\<close>) is left out.
\<close>

section \<open>State\<close>

datatype denial =
    Gate string
  | Latched string
  | Tripped string
  | Unobserved string
  | ModuleOffline string
  | NotInUse
  | Unknown

datatype lease_decision = LAllow | LDeny denial

record lease_action =
  la_tool_id :: string
  la_device_id :: string
  la_grant :: bool
  la_ttl_ms :: int
  la_reason :: "denial option"

record session =
  s_opened :: instant
  s_ends_at :: "instant option"

record resource_wiring =
  rw_id :: string
  rw_kind :: string
  rw_session_profile :: string
  rw_strike_pulse_ms :: "int option"

record reading =
  r_asserted :: bool
  r_since :: instant

record inner =
  snapshot :: "tool_module_state_payload option"
  readings :: "string \<times> string \<rightharpoonup> reading"
  latched :: "string \<rightharpoonup> string"
  leases :: "string \<rightharpoonup> instant"
  module_seen :: "string \<rightharpoonup> instant"
  local_sessions :: "string \<rightharpoonup> session"
  synced_in_use :: "string set"
  local_session_grace :: duration
  local_stops :: "string \<rightharpoonup> instant"
  allowed_since :: "string \<rightharpoonup> instant"
  relay_state :: "string \<rightharpoonup> bool \<times> instant"
  granted_since :: "string \<rightharpoonup> instant"
  run_on_until :: "string \<rightharpoonup> instant"

definition is_hazard :: "string \<Rightarrow> bool" where
  "is_hazard condition \<longleftrightarrow> \<not> (condition = ''flow_ok'' \<or> condition = ''authorized'')"

definition new_inner :: inner where
  "new_inner = \<lparr>snapshot = None, readings = Map.empty, latched = Map.empty, leases = Map.empty,
     module_seen = Map.empty, local_sessions = Map.empty, synced_in_use = {},
     local_session_grace = seconds 30, local_stops = Map.empty, allowed_since = Map.empty,
     relay_state = Map.empty, granted_since = Map.empty, run_on_until = Map.empty\<rparr>"

section \<open>Names\<close>

text \<open>A tool is found by its id first and by its external id second.\<close>

definition lm_resolve :: "tool_module_state_payload \<Rightarrow> string \<Rightarrow> tool_module_tool option" where
  "lm_resolve s tool =
     (case find (\<lambda>t. tmt_tool_id t = tool) (tms_tools s) of
        Some t \<Rightarrow> Some t
      | None \<Rightarrow> find (\<lambda>t. tmt_external_id t = Some tool) (tms_tools s))"

definition wiring_of :: "inner \<Rightarrow> string \<Rightarrow> tool_module_tool option" where
  "wiring_of i tool = (case snapshot i of None \<Rightarrow> None | Some s \<Rightarrow> lm_resolve s tool)"

definition tool_key :: "inner \<Rightarrow> string \<Rightarrow> string" where
  "tool_key i tool = (case wiring_of i tool of None \<Rightarrow> tool | Some t \<Rightarrow> tmt_tool_id t)"

section \<open>Sessions\<close>

definition set_local_session_grace :: "inner \<Rightarrow> duration \<Rightarrow> inner" where
  "set_local_session_grace i grace = i\<lparr>local_session_grace := grace\<rparr>"

definition open_session :: "inner \<Rightarrow> string \<Rightarrow> instant \<Rightarrow> instant option \<Rightarrow> inner" where
  "open_session i resource now ends_at =
     (let key = tool_key i resource
      in i\<lparr>local_stops := map_remove key (local_stops i),
           local_sessions := (local_sessions i)(key \<mapsto> \<lparr>s_opened = now, s_ends_at = ends_at\<rparr>)\<rparr>)"

definition close_session :: "inner \<Rightarrow> string \<Rightarrow> instant \<Rightarrow> inner" where
  "close_session i resource now =
     (let key = tool_key i resource
      in i\<lparr>local_sessions := map_remove key (local_sessions i),
           synced_in_use := synced_in_use i - {key},
           local_stops := (local_stops i)(key \<mapsto> now)\<rparr>)"

definition note_session :: "inner \<Rightarrow> string \<Rightarrow> bool \<Rightarrow> instant \<Rightarrow> inner" where
  "note_session i tool opn now =
     (if opn then open_session i tool now None else close_session i tool now)"

definition session_kept :: "string set \<Rightarrow> string set \<Rightarrow> instant \<Rightarrow> duration \<Rightarrow> string \<Rightarrow> session \<Rightarrow> bool" where
  "session_kept tracked synced now grace key s =
     (if is_some_and (s_ends_at s) (\<lambda>e. e \<le> now) then False
      else key \<notin> tracked \<or> key \<in> synced \<or> now - s_opened s < grace)"

definition reconcile_tracked ::
  "inner \<Rightarrow> string list \<Rightarrow> string list \<Rightarrow> instant \<Rightarrow> instant \<Rightarrow> inner" where
  "reconcile_tracked i in_use_ids tracked_ids now as_of =
     (let grace = local_session_grace i;
          i1 = i\<lparr>local_stops := map_retain (\<lambda>_ at. now - at < grace) (local_stops i)\<rparr>;
          synced = set (filter (\<lambda>key. \<not> is_some_and (local_stops i1 key) (\<lambda>at. as_of < at))
                          (map (tool_key i1) in_use_ids));
          tracked = set (map (tool_key i1) tracked_ids)
      in i1\<lparr>local_sessions := map_retain (session_kept tracked synced now grace) (local_sessions i1),
            synced_in_use := (synced_in_use i1 - tracked) \<union> synced\<rparr>)"

definition reconcile_sessions ::
  "inner \<Rightarrow> string list \<Rightarrow> string list \<Rightarrow> instant \<Rightarrow> instant \<Rightarrow> inner" where
  "reconcile_sessions i in_use_tool_ids tracked_tool_ids now as_of =
     reconcile_tracked i in_use_tool_ids tracked_tool_ids now as_of"

definition in_use :: "inner \<Rightarrow> string \<Rightarrow> instant \<Rightarrow> bool" where
  "in_use i key now \<longleftrightarrow>
     key \<in> synced_in_use i \<or>
     is_some_and (local_sessions i key) (\<lambda>s. is_none_or (s_ends_at s) (\<lambda>e. now < e))"

section \<open>Ingest\<close>

definition snapshot_rooms :: "tool_module_state_payload \<Rightarrow> bool \<Rightarrow> string list" where
  "snapshot_rooms payload only_in_use =
     map tmt_tool_id
       (filter (\<lambda>t. \<not> only_in_use \<or> tmt_in_use t)
         (filter (\<lambda>t. tmt_kind t = ''door'' \<and> tmt_session_profile t = ''until_stopped'')
           (tms_tools payload)))"

definition apply_state_at ::
  "inner \<Rightarrow> tool_module_state_payload \<Rightarrow> instant option \<Rightarrow> instant \<Rightarrow> inner" where
  "apply_state_at i payload requested_at now =
     (let as_of = unwrap_or requested_at now;
          tracked = snapshot_rooms payload False;
          in_use_ids = snapshot_rooms payload True
      in reconcile_tracked (i\<lparr>snapshot := Some payload\<rparr>) in_use_ids tracked now as_of)"

definition has_state :: "inner \<Rightarrow> bool" where
  "has_state i \<longleftrightarrow> snapshot i \<noteq> None"

definition observe :: "inner \<Rightarrow> string \<Rightarrow> string \<Rightarrow> bool \<Rightarrow> instant \<Rightarrow> inner" where
  "observe i tool condition asserted now =
     (let key = (tool, condition);
          updated = i\<lparr>readings := (readings i)(key \<mapsto> \<lparr>r_asserted = asserted, r_since = now\<rparr>)\<rparr>
      in case readings i key of
           Some prev \<Rightarrow> if r_asserted prev = asserted then i else updated
         | None \<Rightarrow> updated)"

definition note_relay_state :: "inner \<Rightarrow> string \<Rightarrow> bool \<Rightarrow> instant \<Rightarrow> inner" where
  "note_relay_state i device relay_on now =
     i\<lparr>relay_state := (relay_state i)(device \<mapsto> (relay_on, now))\<rparr>"

definition note_module_seen :: "inner \<Rightarrow> string \<Rightarrow> instant \<Rightarrow> inner" where
  "note_module_seen i module_id now = i\<lparr>module_seen := (module_seen i)(module_id \<mapsto> now)\<rparr>"

fun note_all_seen :: "string list \<Rightarrow> instant \<Rightarrow> inner \<Rightarrow> inner" where
  "note_all_seen [] now i = i"
| "note_all_seen (x # xs) now i = note_all_seen xs now (note_module_seen i x now)"

definition bindings_of_device :: "inner \<Rightarrow> string \<Rightarrow> string list" where
  "bindings_of_device i device =
     (case snapshot i of
        None \<Rightarrow> []
      | Some s \<Rightarrow> map db_id (filter (\<lambda>m. db_device_id m = device)
                              (concat (map tmt_modules (tms_tools s)))))"

definition note_device_seen :: "inner \<Rightarrow> string \<Rightarrow> instant \<Rightarrow> nat \<times> inner" where
  "note_device_seen i device now =
     (let ids = bindings_of_device i device in (length ids, note_all_seen ids now i))"

definition reset_latch :: "inner \<Rightarrow> string \<Rightarrow> inner" where
  "reset_latch i tool = i\<lparr>latched := map_remove tool (latched i)\<rparr>"

definition is_latched :: "inner \<Rightarrow> string \<Rightarrow> bool" where
  "is_latched i tool \<longleftrightarrow> latched i tool \<noteq> None"

section \<open>The interlock engine\<close>

text \<open>\<open>None\<close>: the condition has never been observed.\<close>

definition satisfied :: "inner \<Rightarrow> string \<Rightarrow> tool_interlock_rule \<Rightarrow> instant \<Rightarrow> bool option" where
  "satisfied i key rule now =
     (case readings i (key, ir_condition rule) of
        None \<Rightarrow> None
      | Some rd \<Rightarrow>
          (let settled = milliseconds (max (ir_debounce_ms rule) 0) \<le> now - r_since rd;
               effective = (if settled then r_asserted rd else \<not> r_asserted rd)
           in Some (if is_hazard (ir_condition rule) then \<not> effective else effective)))"

definition silent_fail_off :: "inner \<Rightarrow> instant \<Rightarrow> duration \<Rightarrow> device_binding \<Rightarrow> bool" where
  "silent_fail_off i now timeout m =
     (if db_role m = ''edge'' then False
      else if db_on_disconnect m \<noteq> ''fail_off'' then False
      else case module_seen i (db_id m) of
             None \<Rightarrow> True
           | Some seen \<Rightarrow> timeout < now - seen)"

definition offline_fail_off :: "inner \<Rightarrow> tool_module_tool \<Rightarrow> instant \<Rightarrow> duration \<Rightarrow> string option" where
  "offline_fail_off i tool now timeout =
     map_option db_name (find (silent_fail_off i now timeout) (tmt_modules tool))"

text \<open>The loop over the interlocks: the first one that does not hold decides the denial.\<close>

fun check_interlocks ::
  "inner \<Rightarrow> string \<Rightarrow> instant \<Rightarrow> tool_interlock_rule list \<Rightarrow> denial option" where
  "check_interlocks i key now [] = None"
| "check_interlocks i key now (rule # rules) =
     (case satisfied i key rule now of
        None \<Rightarrow> Some (Unobserved (ir_condition rule))
      | Some True \<Rightarrow> check_interlocks i key now rules
      | Some False \<Rightarrow>
          Some (if ir_kind rule = ''trip'' then Tripped (ir_condition rule)
                else if ir_kind rule = ''start_gate'' then Gate (ir_condition rule)
                else Gate (ir_condition rule)))"

definition evaluate_wiring :: "inner \<Rightarrow> tool_module_tool \<Rightarrow> instant \<Rightarrow> duration \<Rightarrow> lease_decision" where
  "evaluate_wiring i wiring now module_timeout =
     (let key = tmt_tool_id wiring
      in case latched i key of
           Some condition \<Rightarrow> LDeny (Latched condition)
         | None \<Rightarrow>
             (case offline_fail_off i wiring now module_timeout of
                Some name \<Rightarrow> LDeny (ModuleOffline name)
              | None \<Rightarrow>
                  (case check_interlocks i key now (tmt_interlocks wiring) of
                     Some d \<Rightarrow> LDeny d
                   | None \<Rightarrow> if \<not> in_use i key now then LDeny NotInUse else LAllow)))"

definition evaluate :: "inner \<Rightarrow> string \<Rightarrow> instant \<Rightarrow> duration \<Rightarrow> lease_decision" where
  "evaluate i tool now module_timeout =
     (case snapshot i of
        None \<Rightarrow> LDeny Unknown
      | Some s \<Rightarrow>
          (case lm_resolve s tool of
             None \<Rightarrow> LAllow
           | Some wiring \<Rightarrow> evaluate_wiring i wiring now module_timeout))"

definition trip_latches :: "inner \<Rightarrow> string \<Rightarrow> string \<Rightarrow> bool" where
  "trip_latches i tool condition =
     (case wiring_of i tool of
        None \<Rightarrow> False
      | Some t \<Rightarrow> list_ex (\<lambda>r. ir_kind r = ''trip'' \<and> ir_condition r = condition \<and> ir_latch r)
                    (tmt_interlocks t))"

definition renew :: "inner \<Rightarrow> string \<Rightarrow> instant \<Rightarrow> duration \<Rightarrow> duration \<Rightarrow> lease_decision \<times> inner" where
  "renew i tool now ttl module_timeout =
     (let decision = evaluate i tool now module_timeout;
          key = tool_key i tool
      in (decision,
          case decision of
            LAllow \<Rightarrow> i\<lparr>leases := (leases i)(key \<mapsto> now + ttl)\<rparr>
          | LDeny denial \<Rightarrow>
              (let i1 = i\<lparr>leases := map_remove key (leases i)\<rparr>
               in case denial of
                    Tripped condition \<Rightarrow>
                      if trip_latches i1 tool condition
                      then i1\<lparr>latched := (latched i1)(key \<mapsto> condition)\<rparr>
                      else i1
                  | _ \<Rightarrow> i1)))"

definition lease_valid :: "inner \<Rightarrow> string \<Rightarrow> instant \<Rightarrow> bool" where
  "lease_valid i tool now \<longleftrightarrow> is_some_and (leases i (tool_key i tool)) (\<lambda>until. now < until)"

definition power_modules :: "inner \<Rightarrow> string \<Rightarrow> string list" where
  "power_modules i tool =
     (case wiring_of i tool of
        None \<Rightarrow> []
      | Some t \<Rightarrow> map db_device_id (filter (\<lambda>m. db_role m = ''power'') (tmt_modules t)))"

section \<open>The watchdog pass\<close>

definition confirmed_on_at :: "inner \<Rightarrow> device_binding \<Rightarrow> instant \<Rightarrow> instant option" where
  "confirmed_on_at i binding since =
     (case relay_state i (db_device_id binding) of
        Some (True, at) \<Rightarrow> if since \<le> at then Some at else None
      | _ \<Rightarrow> None)"

definition make_lease :: "string \<Rightarrow> int \<Rightarrow> string \<Rightarrow> bool \<Rightarrow> denial option \<Rightarrow> lease_action" where
  "make_lease tool ttl_ms device grant reason =
     \<lparr>la_tool_id = tool, la_device_id = device, la_grant = grant, la_ttl_ms = ttl_ms,
      la_reason = reason\<rparr>"

definition power_bindings :: "tool_module_tool \<Rightarrow> device_binding list" where
  "power_bindings w =
     sort_key (\<lambda>b. (db_start_stage b, db_name b)) (filter (\<lambda>m. db_role m = ''power'') (tmt_modules w))"

definition sensor_bindings :: "tool_module_tool \<Rightarrow> device_binding list" where
  "sensor_bindings w = sort_key db_name (filter (\<lambda>m. db_role m = ''sensor'') (tmt_modules w))"

text \<open>The latest confirmation of the bindings of lower stages, \<open>None\<close> when one has not confirmed.\<close>

fun confirm_all :: "inner \<Rightarrow> instant \<Rightarrow> instant \<Rightarrow> device_binding list \<Rightarrow> instant option" where
  "confirm_all i since base [] = Some base"
| "confirm_all i since base (e # es) =
     (case confirmed_on_at i e since of
        Some at \<Rightarrow> confirm_all i since (max base at) es
      | None \<Rightarrow> None)"

definition first_stage :: "device_binding list \<Rightarrow> int" where
  "first_stage pws = (case pws of [] \<Rightarrow> 0 | _ \<Rightarrow> Min (db_start_stage ` set pws))"

definition stage_base :: "inner \<Rightarrow> device_binding list \<Rightarrow> instant \<Rightarrow> device_binding \<Rightarrow> instant option" where
  "stage_base i pws allowed b =
     (if db_start_stage b \<le> first_stage pws then Some allowed
      else confirm_all i allowed allowed (filter (\<lambda>e. db_start_stage e < db_start_stage b) pws))"

fun grant_power ::
  "instant \<Rightarrow> string \<Rightarrow> int \<Rightarrow> instant \<Rightarrow> device_binding list \<Rightarrow> device_binding list \<Rightarrow> inner
     \<Rightarrow> lease_action list \<times> inner" where
  "grant_power now tool ttl_ms allowed pws [] i = ([], i)"
| "grant_power now tool ttl_ms allowed pws (b # bs) i =
     (case stage_base i pws allowed b of
        None \<Rightarrow> grant_power now tool ttl_ms allowed pws bs i
      | Some base \<Rightarrow>
          if now < base + milliseconds (max (db_start_delay_ms b) 0)
          then grant_power now tool ttl_ms allowed pws bs i
          else
            (let i1 = i\<lparr>granted_since :=
                          (granted_since i)(db_id b \<mapsto> unwrap_or (granted_since i (db_id b)) now)\<rparr>;
                 (acts, i2) = grant_power now tool ttl_ms allowed pws bs i1
             in (make_lease tool ttl_ms (db_device_id b) True None # acts, i2)))"

fun clear_run_on :: "device_binding list \<Rightarrow> inner \<Rightarrow> inner" where
  "clear_run_on [] i = i"
| "clear_run_on (b # bs) i =
     clear_run_on bs (i\<lparr>run_on_until := map_remove (db_id b) (run_on_until i)\<rparr>)"

definition tick_allow ::
  "instant \<Rightarrow> string \<Rightarrow> int \<Rightarrow> tool_module_tool \<Rightarrow> inner \<Rightarrow> lease_action list \<times> inner" where
  "tick_allow now tool ttl_ms wiring i =
     (let key = tmt_tool_id wiring;
          pws = power_bindings wiring;
          allowed = unwrap_or (allowed_since i key) now;
          i1 = i\<lparr>allowed_since := (allowed_since i)(key \<mapsto> allowed)\<rparr>;
          i2 = clear_run_on pws i1;
          (acts, i3) = grant_power now tool ttl_ms allowed pws pws i2
      in (acts @ map (\<lambda>b. make_lease tool ttl_ms (db_device_id b) True None) (sensor_bindings wiring), i3))"

fun start_run_on :: "instant \<Rightarrow> device_binding list \<Rightarrow> inner \<Rightarrow> inner" where
  "start_run_on now [] i = i"
| "start_run_on now (b # bs) i =
     start_run_on now bs
       (if 0 < db_run_on_ms b \<and> granted_since i (db_id b) \<noteq> None
        then i\<lparr>run_on_until := (run_on_until i)(db_id b \<mapsto> now + milliseconds (db_run_on_ms b))\<rparr>
        else i)"

fun refuse_power ::
  "instant \<Rightarrow> string \<Rightarrow> int \<Rightarrow> denial \<Rightarrow> device_binding list \<Rightarrow> inner \<Rightarrow> lease_action list \<times> inner" where
  "refuse_power now tool ttl_ms d [] i = ([], i)"
| "refuse_power now tool ttl_ms d (b # bs) i =
     (if is_some_and (run_on_until i (db_id b)) (\<lambda>until. now < until)
      then (let (acts, i1) = refuse_power now tool ttl_ms d bs i
            in (make_lease tool ttl_ms (db_device_id b) True None # acts, i1))
      else (let (acts, i1) = refuse_power now tool ttl_ms d bs
                  (i\<lparr>run_on_until := map_remove (db_id b) (run_on_until i),
                     granted_since := map_remove (db_id b) (granted_since i)\<rparr>)
            in (make_lease tool ttl_ms (db_device_id b) False (Some d) # acts, i1)))"

definition tick_deny ::
  "instant \<Rightarrow> string \<Rightarrow> int \<Rightarrow> denial \<Rightarrow> tool_module_tool \<Rightarrow> inner \<Rightarrow> lease_action list \<times> inner" where
  "tick_deny now tool ttl_ms d wiring i =
     (let key = tmt_tool_id wiring;
          pws = power_bindings wiring;
          i1 = (if allowed_since i key \<noteq> None
                then start_run_on now pws (i\<lparr>allowed_since := map_remove key (allowed_since i)\<rparr>)
                else i);
          (acts, i2) = refuse_power now tool ttl_ms d pws i1
      in (acts @ map (\<lambda>b. make_lease tool ttl_ms (db_device_id b) False (Some d)) (sensor_bindings wiring), i2))"

definition tick_tool ::
  "instant \<Rightarrow> duration \<Rightarrow> duration \<Rightarrow> string \<Rightarrow> inner \<Rightarrow> lease_action list \<times> inner" where
  "tick_tool now ttl module_timeout tool i =
     (let (decision, i1) = renew i tool now ttl module_timeout
      in case wiring_of i1 tool of
           None \<Rightarrow> ([], i1)
         | Some wiring \<Rightarrow>
             (let ttl_ms = max (num_milliseconds ttl) 0
              in case decision of
                   LAllow \<Rightarrow> tick_allow now tool ttl_ms wiring i1
                 | LDeny d \<Rightarrow> tick_deny now tool ttl_ms d wiring i1))"

fun tick_tools ::
  "instant \<Rightarrow> duration \<Rightarrow> duration \<Rightarrow> string list \<Rightarrow> inner \<Rightarrow> lease_action list \<times> inner" where
  "tick_tools now ttl module_timeout [] i = ([], i)"
| "tick_tools now ttl module_timeout (t # ts) i =
     (let (acts, i1) = tick_tool now ttl module_timeout t i;
          (acts', i2) = tick_tools now ttl module_timeout ts i1
      in (acts @ acts', i2))"

definition wired_tools :: "inner \<Rightarrow> string list" where
  "wired_tools i = (case snapshot i of None \<Rightarrow> [] | Some s \<Rightarrow> map tmt_tool_id (tms_tools s))"

definition tick :: "instant \<Rightarrow> duration \<Rightarrow> duration \<Rightarrow> inner \<Rightarrow> lease_action list \<times> inner" where
  "tick now ttl module_timeout i = tick_tools now ttl module_timeout (wired_tools i) i"

definition wiring_resource :: "inner \<Rightarrow> string \<Rightarrow> resource_wiring option" where
  "wiring_resource i name =
     (case wiring_of i name of
        None \<Rightarrow> None
      | Some w \<Rightarrow>
          Some \<lparr>rw_id = tmt_tool_id w, rw_kind = tmt_kind w,
                rw_session_profile = tmt_session_profile w,
                rw_strike_pulse_ms =
                  map_option db_pulse_ms
                    (find (\<lambda>m. db_role m = ''strike'' \<and> 0 < db_pulse_ms m) (tmt_modules w))\<rparr>)"

section \<open>Events\<close>

text \<open>Every way the engine's state changes, and the state after it.\<close>

datatype engine_event =
    EvSetGrace duration
  | EvOpen string instant "instant option"
  | EvClose string instant
  | EvReconcile "string list" "string list" instant instant
  | EvApplyState tool_module_state_payload "instant option" instant
  | EvObserve string string bool instant
  | EvRelay string bool instant
  | EvModuleSeen string instant
  | EvDeviceSeen string instant
  | EvResetLatch string
  | EvRenew string instant duration duration
  | EvTick instant duration duration

fun engine_step :: "engine_event \<Rightarrow> inner \<Rightarrow> inner" where
  "engine_step (EvSetGrace g) i = set_local_session_grace i g"
| "engine_step (EvOpen r now e) i = open_session i r now e"
| "engine_step (EvClose r now) i = close_session i r now"
| "engine_step (EvReconcile us ts now as_of) i = reconcile_sessions i us ts now as_of"
| "engine_step (EvApplyState p r now) i = apply_state_at i p r now"
| "engine_step (EvObserve t c a now) i = observe i t c a now"
| "engine_step (EvRelay d on now) i = note_relay_state i d on now"
| "engine_step (EvModuleSeen m now) i = note_module_seen i m now"
| "engine_step (EvDeviceSeen d now) i = snd (note_device_seen i d now)"
| "engine_step (EvResetLatch t) i = reset_latch i t"
| "engine_step (EvRenew t now ttl mt) i = snd (renew i t now ttl mt)"
| "engine_step (EvTick now ttl mt) i = snd (tick now ttl mt i)"

end
