(* ===== verification/Power_Lockout.thy ===== *)
theory Power_Lockout
  imports Wire "HOL-Library.AList" Complex_Main
begin

text \<open>
  The coordinator's power lockout and local fast-trip, \<^verbatim>\<open>edge/src/power.rs\<close>. The state behind the
  lock is the record \<open>power_inner\<close>. Draw is an \<^verbatim>\<open>f64\<close> in the source and a \<open>rat\<close> here: rounding of the
  sums is not modelled. \<open>latest_draw\<close> is iterated, so it is an association list; its order is the
  hash map's, and no result depends on it. \<^verbatim>\<open>str::parse::<f64>\<close> is the parameter \<open>parse_f64\<close>.
\<close>

record power_inner =
  p_snapshot :: "power_state_payload option"
  latest_draw :: "(string \<times> (rat \<times> instant)) list"
  local_tripped :: "string set"

definition power_new :: power_inner where
  "power_new = \<lparr>p_snapshot = None, latest_draw = [], local_tripped = {}\<rparr>"

fun circuit_locked_loop :: "string set \<Rightarrow> bool \<Rightarrow> power_state_tool list \<Rightarrow> bool" where
  "circuit_locked_loop locked any [] = any"
| "circuit_locked_loop locked any (t # ts) =
     (if pst_id t \<notin> locked then False else circuit_locked_loop locked True ts)"

definition circuit_locked :: "power_state_payload \<Rightarrow> string \<Rightarrow> bool" where
  "circuit_locked s circuit_id =
     circuit_locked_loop (set (psp_locked_tool_ids s)) False
       (filter (\<lambda>t. pst_circuit_id t = Some circuit_id) (psp_tools s))"

definition power_apply_state :: "power_inner \<Rightarrow> power_state_payload \<Rightarrow> power_inner" where
  "power_apply_state p payload =
     p\<lparr>local_tripped := {c \<in> local_tripped p. circuit_locked payload c}, p_snapshot := Some payload\<rparr>"

definition power_resolve :: "power_state_payload \<Rightarrow> string \<Rightarrow> power_state_tool option" where
  "power_resolve s tool_id =
     find (\<lambda>t. pst_external_id t = Some tool_id \<or> pst_id t = tool_id) (psp_tools s)"

definition is_locked :: "power_inner \<Rightarrow> string \<Rightarrow> bool" where
  "is_locked p tool_id =
     (case p_snapshot p of
        None \<Rightarrow> False
      | Some snap \<Rightarrow>
          (case power_resolve snap tool_id of
             Some tool \<Rightarrow>
               if pst_id tool \<in> set (psp_locked_tool_ids snap) then True
               else (case pst_circuit_id tool of Some c \<Rightarrow> c \<in> local_tripped p | None \<Rightarrow> False)
           | None \<Rightarrow> tool_id \<in> set (psp_locked_tool_ids snap)))"

definition record_draw :: "power_inner \<Rightarrow> string \<Rightarrow> rat \<Rightarrow> instant \<Rightarrow> power_inner" where
  "record_draw p tool_id amps now =
     (let key = unwrap_or (Option.bind (p_snapshot p)
                             (\<lambda>s. map_option pst_id (power_resolve s tool_id))) tool_id
      in p\<lparr>latest_draw := AList.update key (amps, now) (latest_draw p)\<rparr>)"

text \<open>Collecting pairs into a hash map: a later pair replaces an earlier one.\<close>

fun tool_circuits :: "power_state_tool list \<Rightarrow> (string \<rightharpoonup> string) \<Rightarrow> (string \<rightharpoonup> string)" where
  "tool_circuits [] m = m"
| "tool_circuits (t # ts) m =
     tool_circuits ts (case pst_circuit_id t of Some c \<Rightarrow> m(pst_id t \<mapsto> c) | None \<Rightarrow> m)"

fun circuit_totals ::
  "(string \<rightharpoonup> string) \<Rightarrow> (string \<times> (rat \<times> instant)) list \<Rightarrow> (string \<rightharpoonup> rat) \<Rightarrow> (string \<rightharpoonup> rat)" where
  "circuit_totals tc [] totals = totals"
| "circuit_totals tc ((tid, (amps, _)) # ds) totals =
     circuit_totals tc ds
       (case tc tid of
          Some c \<Rightarrow> totals(c \<mapsto> unwrap_or (totals c) 0 + amps)
        | None \<Rightarrow> totals)"

fun over_circuits ::
  "(string \<Rightarrow> rat option) \<Rightarrow> (string \<rightharpoonup> rat) \<Rightarrow> string set \<Rightarrow> power_state_circuit list \<Rightarrow> string list" where
  "over_circuits parse_f64 totals tripped [] = []"
| "over_circuits parse_f64 totals tripped (c # cs) =
     (case parse_f64 (psc_amperage_limit c) of
        None \<Rightarrow> over_circuits parse_f64 totals tripped cs
      | Some limit \<Rightarrow>
          (if unwrap_or (totals (psc_id c)) 0 > limit \<and> psc_id c \<notin> tripped
           then psc_id c # over_circuits parse_f64 totals tripped cs
           else over_circuits parse_f64 totals tripped cs))"

definition evaluate_overages :: "(string \<Rightarrow> rat option) \<Rightarrow> power_inner \<Rightarrow> string list" where
  "evaluate_overages parse_f64 p =
     (case p_snapshot p of
        None \<Rightarrow> []
      | Some snap \<Rightarrow>
          (let tc = tool_circuits (psp_tools snap) Map.empty;
               totals = circuit_totals tc (latest_draw p) Map.empty
           in sort (over_circuits parse_f64 totals (local_tripped p) (psp_circuits snap))))"

definition mark_tripped :: "power_inner \<Rightarrow> string \<Rightarrow> power_inner" where
  "mark_tripped p circuit_id = p\<lparr>local_tripped := insert circuit_id (local_tripped p)\<rparr>"

text \<open>
  The fast-trip loop of \<^verbatim>\<open>handle_power\<close>: every circuit over its limit is tripped in turn (and
  reported upstream, in the order of the returned list).
\<close>

fun trip_all :: "string list \<Rightarrow> power_inner \<Rightarrow> power_inner" where
  "trip_all [] p = p"
| "trip_all (c # cs) p = trip_all cs (mark_tripped p c)"

definition fast_trip :: "(string \<Rightarrow> rat option) \<Rightarrow> power_inner \<Rightarrow> string list \<times> power_inner" where
  "fast_trip parse_f64 p =
     (let over = evaluate_overages parse_f64 p in (over, trip_all over p))"

section \<open>Lockout\<close>

text \<open>What a snapshot alone says about a tool.\<close>

definition snapshot_locks :: "power_state_payload \<Rightarrow> string \<Rightarrow> bool" where
  "snapshot_locks snap tool_id \<longleftrightarrow>
     (case power_resolve snap tool_id of
        Some tool \<Rightarrow> pst_id tool \<in> set (psp_locked_tool_ids snap)
      | None \<Rightarrow> tool_id \<in> set (psp_locked_tool_ids snap))"

lemma circuit_locked_loop_iff:
  "circuit_locked_loop locked any ts \<longleftrightarrow> (any \<or> ts \<noteq> []) \<and> pst_id ` set ts \<subseteq> locked"
  by (induction locked any ts rule: circuit_locked_loop.induct) auto

lemma circuit_locked_iff:
  "circuit_locked s c \<longleftrightarrow>
     (\<exists>t \<in> set (psp_tools s). pst_circuit_id t = Some c) \<and>
     (\<forall>t \<in> set (psp_tools s). pst_circuit_id t = Some c \<longrightarrow> pst_id t \<in> set (psp_locked_tool_ids s))"
  by (auto simp: circuit_locked_def circuit_locked_loop_iff filter_empty_conv)

lemma power_resolve_in: "power_resolve s n = Some t \<Longrightarrow> t \<in> set (psp_tools s)"
  by (auto simp: power_resolve_def dest: find_SomeD)

lemma is_locked_iff:
  "is_locked p n \<longleftrightarrow>
     (\<exists>snap. p_snapshot p = Some snap \<and>
        (snapshot_locks snap n \<or>
         (\<exists>t c. power_resolve snap n = Some t \<and> pst_circuit_id t = Some c \<and> c \<in> local_tripped p)))"
  by (auto simp: is_locked_def snapshot_locks_def split: option.splits)

lemma local_trip_locks:
  "p_snapshot p = Some snap \<Longrightarrow> power_resolve snap n = Some t \<Longrightarrow> pst_circuit_id t = Some c \<Longrightarrow>
   c \<in> local_tripped p \<Longrightarrow> is_locked p n"
  by (auto simp: is_locked_iff)

text \<open>Sticky state: only a snapshot can unlock, and only one that does not report the tool.\<close>

datatype power_event =
    PApply power_state_payload
  | PDraw string rat instant
  | PTrip string

fun power_step :: "power_event \<Rightarrow> power_inner \<Rightarrow> power_inner" where
  "power_step (PApply payload) p = power_apply_state p payload"
| "power_step (PDraw tool amps now) p = record_draw p tool amps now"
| "power_step (PTrip c) p = mark_tripped p c"

definition unlocks :: "string \<Rightarrow> power_event \<Rightarrow> bool" where
  "unlocks n e \<longleftrightarrow> (case e of PApply payload \<Rightarrow> \<not> snapshot_locks payload n | _ \<Rightarrow> False)"

lemma apply_state_locks: "is_locked (power_apply_state p payload) n \<longleftrightarrow> snapshot_locks payload n"
proof
  assume "is_locked (power_apply_state p payload) n"
  then consider "snapshot_locks payload n"
    | t c where "power_resolve payload n = Some t" "pst_circuit_id t = Some c" "circuit_locked payload c"
    by (auto simp: is_locked_iff power_apply_state_def)
  then show "snapshot_locks payload n"
  proof cases
    case 2
    then have "pst_id t \<in> set (psp_locked_tool_ids payload)"
      by (auto simp: circuit_locked_iff dest: power_resolve_in)
    with 2 show ?thesis by (simp add: snapshot_locks_def)
  qed
qed (simp add: is_locked_iff power_apply_state_def)

interpretation lockout: guarded_fact power_step "\<lambda>n p. is_locked p n" unlocks
proof
  fix n :: string and p :: power_inner and e :: power_event
  assume "is_locked p n" "\<not> unlocks n e"
  then show "is_locked (power_step e p) n"
    by (cases e)
       (auto simp: unlocks_def is_locked_iff power_apply_state_def record_draw_def mark_tripped_def Let_def)
qed

text \<open>
  Lockout is sticky and deny-biased: a locked tool stays locked through any sequence of draws,
  local trips and snapshots that all still report it; only a snapshot that no longer reports the
  tool unlocks it.
\<close>

lemma lockout_is_sticky:
  assumes "is_locked p tool" "\<forall>payload. PApply payload \<in> set es \<longrightarrow> snapshot_locks payload tool"
  shows "is_locked (run_events power_step es p) tool"
proof -
  have "\<forall>e \<in> set es. \<not> unlocks tool e"
    using assms(2) by (auto simp: unlocks_def split: power_event.splits)
  then show ?thesis using lockout.run_guarded assms(1) by blast
qed

text \<open>
  A snapshot discards the coordinator's own trip unless the snapshot itself already locks the
  tool, whatever its age: \<^verbatim>\<open>as_of\<close> is not compared with the time of the trip. A snapshot composed
  before the server heard of a fast-trip, and arriving after it, re-enables the circuit.
\<close>

lemma any_snapshot_overrides_local_trip:
  "is_locked (power_apply_state (mark_tripped p c) payload) tool \<longleftrightarrow> snapshot_locks payload tool"
  by (rule apply_state_locks)

section \<open>Fast-trip\<close>

text \<open>The draw of a circuit: the sum of the latest draws of the tools on it.\<close>

definition circuit_draw :: "power_state_payload \<Rightarrow> power_inner \<Rightarrow> string \<Rightarrow> rat" where
  "circuit_draw snap p c =
     (\<Sum>(tid, (amps, _)) \<leftarrow> latest_draw p.
        if tool_circuits (psp_tools snap) Map.empty tid = Some c then amps else 0)"

lemma circuit_totals_sum:
  "unwrap_or (circuit_totals tc ds totals c) 0 =
     unwrap_or (totals c) 0 + (\<Sum>(tid, (amps, _)) \<leftarrow> ds. if tc tid = Some c then amps else 0)"
  by (induction tc ds totals rule: circuit_totals.induct) (auto split: option.splits)

lemma set_over_circuits:
  "c \<in> set (over_circuits parse totals tripped cs) \<longleftrightarrow>
     c \<notin> tripped \<and>
     (\<exists>ci \<in> set cs. \<exists>limit. psc_id ci = c \<and> parse (psc_amperage_limit ci) = Some limit \<and>
        limit < unwrap_or (totals c) 0)"
  by (induction cs) (auto split: option.splits)

definition over_limit :: "(string \<Rightarrow> rat option) \<Rightarrow> power_inner \<Rightarrow> string \<Rightarrow> bool" where
  "over_limit parse_f64 p c \<longleftrightarrow>
     (\<exists>snap ci limit. p_snapshot p = Some snap \<and> ci \<in> set (psp_circuits snap) \<and> psc_id ci = c \<and>
        parse_f64 (psc_amperage_limit ci) = Some limit \<and> limit < circuit_draw snap p c)"

lemma set_evaluate_overages:
  "c \<in> set (evaluate_overages parse p) \<longleftrightarrow> over_limit parse p c \<and> c \<notin> local_tripped p"
  by (cases "p_snapshot p")
     (auto simp: evaluate_overages_def over_limit_def set_over_circuits circuit_totals_sum
        circuit_draw_def Let_def)

lemma trip_all_simps [simp]:
  "p_snapshot (trip_all cs p) = p_snapshot p"
  "latest_draw (trip_all cs p) = latest_draw p"
  "local_tripped (trip_all cs p) = local_tripped p \<union> set cs"
  by (induction cs arbitrary: p) (auto simp: mark_tripped_def)

lemma over_limit_trip_all [simp]: "over_limit parse (trip_all cs p) c \<longleftrightarrow> over_limit parse p c"
  by (simp add: over_limit_def circuit_draw_def)

text \<open>
  The fast-trip reports exactly the circuits whose summed latest draw strictly exceeds a
  parseable limit and that were not tripped already; afterwards every tool the snapshot puts on an
  over-limit circuit is locked, and a second pass with the same readings reports nothing.
\<close>

lemma fast_trip_locks_overloaded_circuits:
  "(\<forall>c. c \<in> set (fst (fast_trip parse_f64 p)) = (over_limit parse_f64 p c \<and> c \<notin> local_tripped p)) \<and>
   (p_snapshot p = Some snap \<and> power_resolve snap n = Some t \<and> pst_circuit_id t = Some c \<and>
    over_limit parse_f64 p c \<longrightarrow> is_locked (snd (fast_trip parse_f64 p)) n) \<and>
   fst (fast_trip parse_f64 (snd (fast_trip parse_f64 p))) = []"
proof (intro conjI impI allI)
  let ?q = "snd (fast_trip parse_f64 p)"
  have "c \<notin> set (fst (fast_trip parse_f64 ?q))" for c
    by (auto simp: fast_trip_def Let_def set_evaluate_overages)
  then show "fst (fast_trip parse_f64 ?q) = []"
    by (cases "fst (fast_trip parse_f64 ?q)") auto
  show "is_locked ?q n"
    if "p_snapshot p = Some snap \<and> power_resolve snap n = Some t \<and> pst_circuit_id t = Some c \<and>
        over_limit parse_f64 p c"
    using that by (intro local_trip_locks [of _ snap n t c])
      (auto simp: fast_trip_def Let_def set_evaluate_overages)
qed (simp add: fast_trip_def Let_def set_evaluate_overages)

section \<open>Witnesses\<close>

definition demo_power :: power_inner where
  "demo_power = \<lparr>p_snapshot = Some \<lparr>psp_as_of = [], psp_locked_tool_ids = [],
       psp_circuits = [\<lparr>psc_id = ''c1'', psc_amperage_limit = ''10''\<rparr>],
       psp_tools = [\<lparr>pst_id = ''a'', pst_external_id = Some ''saw'', pst_circuit_id = Some ''c1''\<rparr>]\<rparr>,
     latest_draw = [(''a'', (12, 0))], local_tripped = {''c1''}\<rparr>"

end
