(* ===== verification/Secrets.thy ===== *)
theory Secrets
  imports Prelude "HOL-Library.Word"
begin

unbundle bit_operations_syntax

text \<open>
  Comparison of secrets and message authentication, \<^verbatim>\<open>css_lib/src/ct.rs\<close> and \<^verbatim>\<open>css_lib/src/sig.rs\<close>.
  The comparison folds the exclusive ors of the bytes into one 8-bit accumulator; the messages are
  the canonical strings both ends build before they sign or verify. The hex-encoded HMAC-SHA256
  is a parameter \<open>hmac\<close> of the definitions that use it: the crate is not part of the repository.
\<close>

section \<open>Bytes and decimals\<close>

definition as_bytes :: "string \<Rightarrow> 8 word list" where
  "as_bytes s = map (\<lambda>c. word_of_nat (of_char c)) s"

lemma byte_of_char_inj: "(word_of_nat (of_char c) :: 8 word) = word_of_nat (of_char d) \<Longrightarrow> c = d"
proof -
  assume "(word_of_nat (of_char c) :: 8 word) = word_of_nat (of_char d)"
  then have "unat (word_of_nat (of_char c) :: 8 word) = unat (word_of_nat (of_char d) :: 8 word)"
    by simp
  then have "(of_char c :: nat) = of_char d"
    by (simp add: unat_of_nat take_bit_eq_mod of_char_mod_256)
  then show "c = d" by (simp add: of_char_eq_iff)
qed

lemma as_bytes_inj: "as_bytes s = as_bytes t \<longleftrightarrow> s = t"
proof
  assume "as_bytes s = as_bytes t"
  moreover have "inj (\<lambda>c. word_of_nat (of_char c) :: 8 word)"
    by (rule injI) (rule byte_of_char_inj)
  ultimately show "s = t" by (simp add: as_bytes_def inj_map_eq_map)
qed simp

text \<open>\<^verbatim>\<open>Display\<close> of an integer: decimal digits after an optional minus sign.\<close>

definition digit_char :: "nat \<Rightarrow> char" where
  "digit_char d = char_of (48 + d)"

fun show_nat :: "nat \<Rightarrow> string" where
  "show_nat n = (if n < 10 then [digit_char n] else show_nat (n div 10) @ [digit_char (n mod 10)])"

declare show_nat.simps [simp del]

definition show_int :: "int \<Rightarrow> string" where
  "show_int i = (if i < 0 then ''-'' @ show_nat (nat (- i)) else show_nat (nat i))"

definition read_nat :: "string \<Rightarrow> nat" where
  "read_nat s = foldl (\<lambda>a c. 10 * a + (of_char c - 48)) 0 s"

lemma of_char_digit: "d < 10 \<Longrightarrow> (of_char (digit_char d) :: nat) = 48 + d"
  by (simp add: digit_char_def)

lemma read_show_nat [simp]: "read_nat (show_nat n) = n"
proof (induction n rule: show_nat.induct)
  case (1 n)
  then show ?case
    by (subst show_nat.simps) (simp add: read_nat_def of_char_digit)
qed

lemma digit_char_in: "d < 10 \<Longrightarrow> digit_char d \<noteq> CHR ''|'' \<and> digit_char d \<noteq> CHR ''-''"
  using of_char_digit [of d] by auto

lemma show_nat_clean: "CHR ''|'' \<notin> set (show_nat n) \<and> CHR ''-'' \<notin> set (show_nat n)"
proof (induction n rule: show_nat.induct)
  case (1 n)
  show ?case
  proof (cases "n < 10")
    case True
    then show ?thesis
      using digit_char_in [of n] by (subst (1 2) show_nat.simps) auto
  next
    case False
    then show ?thesis
      using 1 digit_char_in [of "n mod 10"] by (subst (1 2) show_nat.simps) auto
  qed
qed

lemma show_nat_inj: "show_nat m = show_nat n \<longleftrightarrow> m = n"
  by (metis read_show_nat)

lemma show_int_clean: "CHR ''|'' \<notin> set (show_int i)"
  by (simp add: show_int_def show_nat_clean)

lemma show_nat_no_minus: "show_nat m \<noteq> CHR ''-'' # s"
proof
  assume "show_nat m = CHR ''-'' # s"
  then have "CHR ''-'' \<in> set (show_nat m)" by simp
  then show False by (simp add: show_nat_clean)
qed

lemma show_int_inj: "show_int i = show_int j \<longleftrightarrow> i = j"
proof
  assume eq: "show_int i = show_int j"
  show "i = j"
  proof (cases "i < 0 \<longleftrightarrow> j < 0")
    case True
    then show ?thesis using eq by (auto simp: show_int_def show_nat_inj split: if_splits)
  next
    case False
    then show ?thesis
      using eq show_nat_no_minus by (auto simp: show_int_def split: if_splits) metis
  qed
qed simp

lemma split_at_bar:
  "CHR ''|'' \<notin> set a \<Longrightarrow> CHR ''|'' \<notin> set b \<Longrightarrow>
   a @ CHR ''|'' # x = b @ CHR ''|'' # y \<longleftrightarrow> a = b \<and> x = y"
proof (induction a arbitrary: b)
  case Nil
  then show ?case by (cases b) auto
next
  case (Cons c a)
  then show ?case by (cases b) auto
qed

section \<open>Constant-time comparison\<close>

definition constant_time_eq :: "8 word list \<Rightarrow> 8 word list \<Rightarrow> bool" where
  "constant_time_eq a b =
     (if length a \<noteq> length b then False
      else fold (\<lambda>(x, y) diff. diff OR (x XOR y)) (zip a b) 0 = 0)"

definition constant_time_str_eq :: "string \<Rightarrow> string \<Rightarrow> bool" where
  "constant_time_str_eq a b = constant_time_eq (as_bytes a) (as_bytes b)"

lemma word_or_eq_0: "(x :: 'a::len word) OR y = 0 \<longleftrightarrow> x = 0 \<and> y = 0"
  by (auto simp: bit_eq_iff bit_simps)

lemma word_xor_eq_0: "(x :: 'a::len word) XOR y = 0 \<longleftrightarrow> x = y"
  by (auto simp: bit_eq_iff bit_simps)

lemma fold_or_xor_eq_0:
  "fold (\<lambda>(x, y) diff. diff OR (x XOR y)) ps (acc :: 8 word) = 0 \<longleftrightarrow>
     acc = 0 \<and> (\<forall>(x, y) \<in> set ps. x = y)"
  by (induction ps arbitrary: acc) (auto simp: word_or_eq_0 word_xor_eq_0)

lemma constant_time_eq_iff: "constant_time_eq a b \<longleftrightarrow> a = b"
proof (cases "length a = length b")
  case True
  with list_eq_iff_zip_eq [of a b] have "(\<forall>(x, y) \<in> set (zip a b). x = y) \<longleftrightarrow> a = b"
    by simp
  with True show ?thesis by (simp add: constant_time_eq_def fold_or_xor_eq_0)
qed (auto simp: constant_time_eq_def)

text \<open>The constant-time comparison of two strings, which never exits early, decides equality.\<close>

lemma constant_time_str_eq_iff: "constant_time_str_eq a b \<longleftrightarrow> a = b"
  by (simp add: constant_time_str_eq_def constant_time_eq_iff as_bytes_inj)

lemma ct_str_eq [simp]: "constant_time_str_eq a b \<longleftrightarrow> a = b"
  by (simp add: constant_time_str_eq_def constant_time_eq_iff as_bytes_inj)

section \<open>Signatures\<close>

definition sign :: "('k \<Rightarrow> string \<Rightarrow> string) \<Rightarrow> 'k \<Rightarrow> string \<Rightarrow> string" where
  "sign hmac key message = hmac key message"

definition verify :: "('k \<Rightarrow> string \<Rightarrow> string) \<Rightarrow> 'k \<Rightarrow> string \<Rightarrow> string \<Rightarrow> bool" where
  "verify hmac key message mac_hex =
     (let expected = sign hmac key message in constant_time_str_eq expected mac_hex)"

definition doors_unlock_message :: "string \<Rightarrow> int \<Rightarrow> string \<Rightarrow> string" where
  "doors_unlock_message door_id duration_ms reason =
     ''doors/unlock|'' @ door_id @ ''|'' @ show_int duration_ms @ ''|'' @ reason"

definition show_bool :: "bool \<Rightarrow> string" where
  "show_bool b = (if b then ''true'' else ''false'')"

definition doors_event_message :: "string \<Rightarrow> string \<Rightarrow> bool \<Rightarrow> string \<Rightarrow> string" where
  "doors_event_message door_id card_id granted source =
     ''doors/event|'' @ door_id @ ''|'' @ card_id @ ''|'' @ show_bool granted @ ''|'' @ source"

lemma verify_iff: "verify hmac key m h \<longleftrightarrow> h = hmac key m"
  by (auto simp: verify_def sign_def)

text \<open>
  The message signed for an unlock command determines the command: two commands whose door ids
  contain no bar (a UUID never does) and whose canonical strings agree are the same command, and
  no event's canonical string is a command's. A valid signature on one command can therefore not
  be presented with another door, duration or reason, nor with a captured event.
\<close>

lemma doors_unlock_message_inj:
  assumes "CHR ''|'' \<notin> set d" "CHR ''|'' \<notin> set d'"
  shows "(doors_unlock_message d ms r = doors_unlock_message d' ms' r' \<longleftrightarrow>
           d = d' \<and> ms = ms' \<and> r = r') \<and>
         doors_unlock_message d ms r \<noteq> doors_event_message d' c g s"
proof
  show "doors_unlock_message d ms r = doors_unlock_message d' ms' r' \<longleftrightarrow> d = d' \<and> ms = ms' \<and> r = r'"
    using assms by (simp add: doors_unlock_message_def split_at_bar show_int_clean show_int_inj)
  show "doors_unlock_message d ms r \<noteq> doors_event_message d' c g s"
    by (simp add: doors_unlock_message_def doors_event_message_def)
qed

text \<open>
  The message signed for an event does not determine the event. The signature a coordinator
  makes for a refused scan of a card whose code contains a bar verifies as a granted scan of
  another card: the fields after the door id are joined by bars without escaping.
\<close>

lemma refused_scan_signature_verifies_as_granted:
  "verify hmac key (doors_event_message d code True (s @ ''|false|'' @ source))
     (sign hmac key (doors_event_message d (code @ ''|true|'' @ s) False source))"
  by (simp add: verify_iff sign_def doors_event_message_def show_bool_def)

end
