(* ===== verification/Toolguard.thy ===== *)
theory Toolguard
  imports Secrets
begin

text \<open>
  The member allow-list mirror, \<^verbatim>\<open>edge/src/toolguard.rs\<close>: the sync payload, the cache that hands each
  new one to the lease engine over a bounded channel, and the legacy access check. The record
  \<open>text_ops\<close> carries the textual forms that crates outside the repository define (\<^verbatim>\<open>uuid\<close>,
  \<^verbatim>\<open>chrono\<close>); the card digester (\<^verbatim>\<open>argon2\<close> over the device pepper, hex-encoded) is a function that
  may fail. Serialized copies for the kiosk's WebSocket are the payloads themselves, in order.
\<close>

record text_ops =
  uuid_show :: "uuid \<Rightarrow> string"
  uuid_parse :: "string \<Rightarrow> uuid option"
  parse_rfc3339 :: "string \<Rightarrow> instant option"

definition text_ok :: "text_ops \<Rightarrow> bool" where
  "text_ok x \<longleftrightarrow> (\<forall>u. uuid_parse x (uuid_show x u) = Some u)"

lemma uuid_show_inj: "text_ok x \<Longrightarrow> uuid_show x u = uuid_show x v \<longleftrightarrow> u = v"
  by (metis text_ok_def option.inject)

datatype tool_status = Idle | InUse | Maintenance | Broken | Repair | Retired

record sync_tool =
  st_id :: uuid
  st_external_id :: "string option"
  st_name :: string
  st_status :: tool_status
  st_requires_online :: bool

record sync_user =
  su_profile_field_digest :: string
  su_full_name :: string
  su_is_active :: bool
  su_authorized_tool_ids :: "uuid list"

record sync_payload =
  sp_device_id :: uuid
  sp_profile_field :: string
  sp_tools :: "sync_tool list"
  sp_users :: "sync_user list"

record sync_arrival =
  sa_payload :: sync_payload
  sa_requested_at :: "instant option"

datatype access_result =
    Authorized
  | UnknownCard
  | UserInactive
  | ToolNotAuthorized
  | ToolUnavailable string

record toolguard_state =
  tg_inner :: "sync_payload option"
  notify_queue :: "sync_arrival list option"
  ws_sent :: "sync_payload list"
  card_digester :: "(string \<Rightarrow> string option) option"

definition with_digester :: "(string \<Rightarrow> string option) option \<Rightarrow> toolguard_state" where
  "with_digester d = \<lparr>tg_inner = None, notify_queue = None, ws_sent = [], card_digester = d\<rparr>"

definition new_with_notify :: "(string \<Rightarrow> string option) option \<Rightarrow> toolguard_state" where
  "new_with_notify d = \<lparr>tg_inner = None, notify_queue = Some [], ws_sent = [], card_digester = d\<rparr>"

text \<open>\<^verbatim>\<open>SyncSender::try_send\<close> on a channel of capacity four: a full channel drops the message.\<close>

definition try_send :: "nat \<Rightarrow> 'a \<Rightarrow> 'a list \<Rightarrow> 'a list" where
  "try_send cap x q = (if length q < cap then q @ [x] else q)"

definition apply_sync_at :: "toolguard_state \<Rightarrow> sync_payload \<Rightarrow> instant option \<Rightarrow> toolguard_state" where
  "apply_sync_at g payload requested_at =
     g\<lparr>tg_inner := Some payload,
       notify_queue := map_option
         (try_send 4 \<lparr>sa_payload = payload, sa_requested_at = requested_at\<rparr>) (notify_queue g),
       ws_sent := ws_sent g @ [payload]\<rparr>"

definition wire_digest_hex :: "toolguard_state \<Rightarrow> string \<Rightarrow> string option" where
  "wire_digest_hex g card_value = Option.bind (card_digester g) (\<lambda>d. d card_value)"

definition sync_tool_named :: "text_ops \<Rightarrow> string \<Rightarrow> sync_tool \<Rightarrow> bool" where
  "sync_tool_named x n t \<longleftrightarrow> st_external_id t = Some n \<or> uuid_show x (st_id t) = n"

fun status_debug_lower :: "tool_status \<Rightarrow> string" where
  "status_debug_lower Idle = ''idle''"
| "status_debug_lower InUse = ''inuse''"
| "status_debug_lower Maintenance = ''maintenance''"
| "status_debug_lower Broken = ''broken''"
| "status_debug_lower Repair = ''repair''"
| "status_debug_lower Retired = ''retired''"

definition check_access :: "text_ops \<Rightarrow> toolguard_state \<Rightarrow> string \<Rightarrow> string \<Rightarrow> access_result" where
  "check_access x g card_value tool_id_str =
     (case tg_inner g of
        None \<Rightarrow> UnknownCard
      | Some state \<Rightarrow>
          (case card_digester g of
             None \<Rightarrow> UnknownCard
           | Some d \<Rightarrow>
               (case d card_value of
                  None \<Rightarrow> UnknownCard
                | Some presented \<Rightarrow>
                    (case find (\<lambda>u. constant_time_str_eq (su_profile_field_digest u) presented)
                            (sp_users state) of
                       None \<Rightarrow> UnknownCard
                     | Some user \<Rightarrow>
                         if \<not> su_is_active user then UserInactive
                         else
                           (case find (sync_tool_named x tool_id_str) (sp_tools state) of
                              None \<Rightarrow> ToolNotAuthorized
                            | Some tool \<Rightarrow>
                                if st_id tool \<notin> set (su_authorized_tool_ids user)
                                then ToolNotAuthorized
                                else if st_status tool \<noteq> Idle
                                then ToolUnavailable (status_debug_lower (st_status tool))
                                else Authorized)))))"

definition tool_uuid :: "text_ops \<Rightarrow> toolguard_state \<Rightarrow> string \<Rightarrow> uuid option" where
  "tool_uuid x g tool_id_str =
     Option.bind (tg_inner g)
       (\<lambda>state. map_option st_id (find (sync_tool_named x tool_id_str) (sp_tools state)))"

definition tool_requires_online :: "text_ops \<Rightarrow> toolguard_state \<Rightarrow> string \<Rightarrow> bool" where
  "tool_requires_online x g tool_id_str =
     unwrap_or (Option.bind (tg_inner g)
       (\<lambda>state. map_option st_requires_online
                  (find (sync_tool_named x tool_id_str) (sp_tools state)))) False"

lemma apply_sync_at_simps [simp]:
  "tg_inner (apply_sync_at g p r) = Some p"
  "card_digester (apply_sync_at g p r) = card_digester g"
  by (simp_all add: apply_sync_at_def)

lemma wire_digest_apply [simp]: "wire_digest_hex (apply_sync_at g p r) c = wire_digest_hex g c"
  by (simp add: wire_digest_hex_def)

lemma check_access_Authorized_iff:
  "check_access x g c n = Authorized \<longleftrightarrow>
     (\<exists>s d u t. tg_inner g = Some s \<and> wire_digest_hex g c = Some d \<and>
        find (\<lambda>u. su_profile_field_digest u = d) (sp_users s) = Some u \<and> su_is_active u \<and>
        find (sync_tool_named x n) (sp_tools s) = Some t \<and>
        st_id t \<in> set (su_authorized_tool_ids u) \<and> st_status t = Idle)"
  by (auto simp: check_access_def wire_digest_hex_def split: option.splits if_splits)

section \<open>A concrete text form, for witnesses\<close>

definition demo_text :: text_ops where
  "demo_text = \<lparr>uuid_show = show_nat, uuid_parse = (\<lambda>s. Some (read_nat s)),
     parse_rfc3339 = (\<lambda>s. Some (int (read_nat s)))\<rparr>"

lemma demo_text_ok: "text_ok demo_text"
  by (simp add: text_ok_def demo_text_def)

end
