(* ===== verification/Resources.thy ===== *)
theory Resources
  imports Leases Power_Lockout Toolguard
begin

text \<open>
  The one cache of every resource a coordinator answers for, \<^verbatim>\<open>edge/src/resources.rs\<close>, with the door
  wire types and the hold arithmetic of \<^verbatim>\<open>edge/src/doors.rs\<close>. \<open>resource_cache\<close> holds the lease
  engine, the allow-list mirror and the power lockout by value: every operation of the cache takes
  each of their locks at most once, so an operation is a function of the state it found.
  Textual forms come from the \<open>text_ops\<close> parameter \<open>x\<close>.
\<close>

section \<open>Wire types of doors\<close>

record compiled_door =
  cd_id :: uuid
  cd_name :: string
  cd_enabled :: bool
  cd_unlock_duration_ms :: int
  cd_allow_cards :: "string list"
  cd_deny_cards :: "string list"
  cd_hold_unlock_until :: "instant option"

record door_state_snapshot =
  dss_snapshot_at :: instant
  dss_doors :: "compiled_door list"

record unlock_command =
  uc_door_id :: uuid
  uc_duration_ms :: int
  uc_reason :: string
  uc_sig :: "string option"

record doors_event =
  de_door_id :: uuid
  de_card_id :: "string option"
  de_granted :: bool
  de_reason :: "string option"
  de_source :: string
  de_occurred_at :: instant
  de_sig :: "string option"

definition HOLD_REFRESH_SECS :: int where "HOLD_REFRESH_SECS = 30"
definition HOLD_PULSE_MARGIN_SECS :: int where "HOLD_PULSE_MARGIN_SECS = 15"

definition hold_pulse_ms :: "instant option \<Rightarrow> instant \<Rightarrow> duration \<Rightarrow> int option" where
  "hold_pulse_ms hold_unlock_until now refresh =
     (case hold_unlock_until of
        None \<Rightarrow> None
      | Some until \<Rightarrow>
          (let remaining = until - now
           in if remaining \<le> 0 then None
              else let pulse = min (refresh + seconds HOLD_PULSE_MARGIN_SECS) remaining
                   in Some (as_i32 (max (num_milliseconds pulse) 1))))"

section \<open>Types\<close>

datatype kind = Tool | Door

definition kind_parse :: "string \<Rightarrow> kind" where
  "kind_parse named = (if named = ''door'' then Door else Tool)"

datatype session_profile = Momentary | UntilStopped

definition session_profile_parse :: "string \<Rightarrow> kind \<Rightarrow> session_profile" where
  "session_profile_parse named k =
     (if named = ''momentary'' then Momentary
      else if named = ''until_stopped'' then UntilStopped
      else (case k of Door \<Rightarrow> Momentary | Tool \<Rightarrow> UntilStopped))"

record resolved =
  rv_id :: string
  rv_kind :: kind
  rv_profile :: session_profile
  rv_pulse_ms :: "int option"

datatype scan_decision = Allow "int option" | Deny string | AskServer

datatype tick_action = Lease lease_action | Hold uuid int

definition LOCKED_OUT :: string where "LOCKED_OUT = ''Tool is locked out (power)''"
definition DISABLED :: string where "DISABLED = ''Door is disabled''"
definition DENIED_BY_RULE :: string where "DENIED_BY_RULE = ''Denied by access rule''"
definition UNKNOWN_CARD :: string where "UNKNOWN_CARD = ''Unknown card''"
definition USER_INACTIVE :: string where "USER_INACTIVE = ''User is not active''"
definition NOT_AUTHORIZED :: string where "NOT_AUTHORIZED = ''Card not authorized''"
definition UNAVAILABLE_PREFIX :: string where "UNAVAILABLE_PREFIX = ''Tool unavailable: ''"

lemmas reason_defs = LOCKED_OUT_def DISABLED_def DENIED_BY_RULE_def UNKNOWN_CARD_def
  USER_INACTIVE_def NOT_AUTHORIZED_def UNAVAILABLE_PREFIX_def

record entry =
  e_id :: uuid
  e_external_id :: "string option"
  e_kind :: kind
  e_session_profile :: string
  e_status :: string
  e_requires_online :: bool
  e_enabled :: bool
  e_pulse_ms :: "int option"
  e_allow :: "string list"
  e_deny :: "string list"
  e_hold_until :: "instant option"

definition named :: "text_ops \<Rightarrow> string \<Rightarrow> entry \<Rightarrow> bool" where
  "named x n e \<longleftrightarrow> e_external_id e = Some n \<or> uuid_show x (e_id e) = n"

text \<open>A status as the wire spells it, and back; an unknown word is \<open>Retired\<close>.\<close>

fun status_word :: "tool_status \<Rightarrow> string" where
  "status_word Idle = ''idle''"
| "status_word InUse = ''in_use''"
| "status_word Maintenance = ''maintenance''"
| "status_word Broken = ''broken''"
| "status_word Repair = ''repair''"
| "status_word Retired = ''retired''"

definition parse_status :: "string \<Rightarrow> tool_status" where
  "parse_status w =
     (if w = ''idle'' then Idle else if w = ''in_use'' then InUse
      else if w = ''maintenance'' then Maintenance else if w = ''broken'' then Broken
      else if w = ''repair'' then Repair else Retired)"

lemma parse_status_word [simp]: "parse_status (status_word s) = s"
  by (cases s) (simp_all add: parse_status_def)

lemma status_word_idle [simp]: "status_word s = ''idle'' \<longleftrightarrow> s = Idle" "status_word s \<noteq> []"
  by (cases s; simp)+

definition from_policy :: "text_ops \<Rightarrow> resource_policy \<Rightarrow> entry option" where
  "from_policy x p =
     (case uuid_parse x (rp_id p) of
        None \<Rightarrow> None
      | Some u \<Rightarrow>
          Some \<lparr>e_id = u, e_external_id = rp_external_id p, e_kind = kind_parse (rp_kind p),
                e_session_profile = rp_session_profile p, e_status = rp_status p,
                e_requires_online = rp_requires_online p, e_enabled = rp_enabled p,
                e_pulse_ms = rp_pulse_ms p, e_allow = rp_allow p, e_deny = rp_deny p,
                e_hold_until = Option.bind (rp_hold_until p) (parse_rfc3339 x)\<rparr>)"

definition from_sync_tool :: "sync_tool \<Rightarrow> entry" where
  "from_sync_tool t =
     \<lparr>e_id = st_id t, e_external_id = st_external_id t, e_kind = Tool, e_session_profile = [],
      e_status = status_word (st_status t), e_requires_online = st_requires_online t,
      e_enabled = True, e_pulse_ms = None, e_allow = [], e_deny = [], e_hold_until = None\<rparr>"

definition from_compiled_door :: "compiled_door \<Rightarrow> entry" where
  "from_compiled_door d =
     \<lparr>e_id = cd_id d, e_external_id = None, e_kind = Door, e_session_profile = [],
      e_status = [], e_requires_online = False, e_enabled = cd_enabled d,
      e_pulse_ms = Some (cd_unlock_duration_ms d), e_allow = cd_allow_cards d,
      e_deny = cd_deny_cards d, e_hold_until = cd_hold_unlock_until d\<rparr>"

definition to_sync_tool :: "entry \<Rightarrow> string \<Rightarrow> sync_tool" where
  "to_sync_tool e nm =
     \<lparr>st_id = e_id e, st_external_id = e_external_id e, st_name = nm,
      st_status = parse_status (e_status e), st_requires_online = e_requires_online e\<rparr>"

record member =
  m_digest :: string
  m_full_name :: string
  m_is_active :: bool
  m_authorized :: "uuid list"

definition from_principal :: "text_ops \<Rightarrow> wire_principal \<Rightarrow> member" where
  "from_principal x p =
     \<lparr>m_digest = wp_digest p, m_full_name = wp_full_name p, m_is_active = wp_is_active p,
      m_authorized = List.map_filter (uuid_parse x) (wp_authorized p)\<rparr>"

definition from_sync_user :: "sync_user \<Rightarrow> member" where
  "from_sync_user u =
     \<lparr>m_digest = su_profile_field_digest u, m_full_name = su_full_name u,
      m_is_active = su_is_active u, m_authorized = su_authorized_tool_ids u\<rparr>"

definition to_sync_user :: "member \<Rightarrow> sync_user" where
  "to_sync_user m =
     \<lparr>su_profile_field_digest = m_digest m, su_full_name = m_full_name m,
      su_is_active = m_is_active m, su_authorized_tool_ids = m_authorized m\<rparr>"

section \<open>The policy store\<close>

record policy =
  entries :: "entry list"
  pnames :: "uuid \<rightharpoonup> string"
  members :: "member list"
  applied_at :: "instant option"

definition policy_default :: policy where
  "policy_default = \<lparr>entries = [], pnames = Map.empty, members = [], applied_at = None\<rparr>"

definition is_stale :: "policy \<Rightarrow> instant \<Rightarrow> bool" where
  "is_stale w stamp \<longleftrightarrow> is_some_and (applied_at w) (\<lambda>applied. stamp < applied)"

definition replace_kind :: "policy \<Rightarrow> kind \<Rightarrow> entry list \<Rightarrow> policy" where
  "replace_kind w k es = w\<lparr>entries := filter (\<lambda>e. e_kind e \<noteq> k) (entries w) @ es\<rparr>"

definition policy_find :: "text_ops \<Rightarrow> policy \<Rightarrow> string \<Rightarrow> entry option" where
  "policy_find x w n = find (named x n) (entries w)"

definition to_sync :: "policy \<Rightarrow> uuid \<Rightarrow> string \<Rightarrow> sync_payload" where
  "to_sync w device_id profile_field =
     \<lparr>sp_device_id = device_id, sp_profile_field = profile_field,
      sp_tools = map (\<lambda>e. to_sync_tool e (unwrap_or (pnames w (e_id e)) []))
                   (filter (\<lambda>e. e_kind e = Tool) (entries w)),
      sp_users = map to_sync_user (members w)\<rparr>"

section \<open>The cache\<close>

record resource_cache =
  wiring :: inner
  allow_list :: toolguard_state
  lockouts :: power_inner
  policy_of :: policy
  hold_sent :: "uuid \<rightharpoonup> instant"

definition cache_new :: "inner \<Rightarrow> toolguard_state \<Rightarrow> power_inner \<Rightarrow> resource_cache" where
  "cache_new wi al pw =
     \<lparr>wiring = wi, allow_list = al, lockouts = pw, policy_of = policy_default, hold_sent = Map.empty\<rparr>"

text \<open>The loop over the resources of a policy payload: an id that is no UUID is skipped.\<close>

fun ingest_resources ::
  "text_ops \<Rightarrow> resource_policy list \<Rightarrow> entry list \<times> (uuid \<rightharpoonup> string) \<Rightarrow> entry list \<times> (uuid \<rightharpoonup> string)" where
  "ingest_resources x [] (es, ns) = (es, ns)"
| "ingest_resources x (r # rs) (es, ns) =
     (case from_policy x r of
        Some e \<Rightarrow> ingest_resources x rs (es @ [e], ns(e_id e \<mapsto> rp_name r))
      | None \<Rightarrow> ingest_resources x rs (es, ns))"

definition policy_replace :: "text_ops \<Rightarrow> resource_policy_payload \<Rightarrow> policy \<Rightarrow> policy" where
  "policy_replace x payload w =
     (case ingest_resources x (rpp_resources payload) ([], Map.empty) of
        (es, ns) \<Rightarrow> w\<lparr>entries := es, pnames := ns,
                       members := map (from_principal x) (rpp_principals payload)\<rparr>)"

definition apply_policy ::
  "text_ops \<Rightarrow> resource_cache \<Rightarrow> resource_policy_payload \<Rightarrow> instant option \<Rightarrow> resource_cache" where
  "apply_policy x c payload requested_at =
     (let stamp = parse_rfc3339 x (rpp_as_of payload);
          device_id = unwrap_or (uuid_parse x (rpp_device_id payload)) 0;
          w = policy_of c
      in if is_some_and stamp (is_stale w) then c
         else let w1 = (case stamp of Some t \<Rightarrow> w\<lparr>applied_at := Some t\<rparr> | None \<Rightarrow> w);
                  w2 = policy_replace x payload w1;
                  sync = to_sync w2 device_id (rpp_profile_field payload)
              in c\<lparr>policy_of := w2,
                   allow_list := apply_sync_at (allow_list c) sync requested_at\<rparr>)"

fun insert_names :: "(uuid \<times> string) list \<Rightarrow> (uuid \<rightharpoonup> string) \<Rightarrow> (uuid \<rightharpoonup> string)" where
  "insert_names [] m = m"
| "insert_names ((k, v) # kvs) m = insert_names kvs (m(k \<mapsto> v))"

definition apply_sync_alias ::
  "resource_cache \<Rightarrow> sync_payload \<Rightarrow> instant option \<Rightarrow> resource_cache" where
  "apply_sync_alias c payload requested_at =
     (let w = policy_of c;
          tools = map from_sync_tool (sp_tools payload);
          w1 = w\<lparr>pnames := insert_names (map (\<lambda>t. (st_id t, st_name t)) (sp_tools payload)) (pnames w)\<rparr>;
          w2 = replace_kind w1 Tool tools
      in c\<lparr>policy_of := w2\<lparr>members := map from_sync_user (sp_users payload)\<rparr>,
           allow_list := apply_sync_at (allow_list c) payload requested_at\<rparr>)"

definition apply_doors_alias :: "resource_cache \<Rightarrow> door_state_snapshot \<Rightarrow> resource_cache" where
  "apply_doors_alias c ss =
     (let w = policy_of c
      in if is_stale w (dss_snapshot_at ss) then c
         else let w1 = w\<lparr>applied_at := Some (dss_snapshot_at ss)\<rparr>;
                  doors = map from_compiled_door (dss_doors ss);
                  w2 = w1\<lparr>pnames := insert_names (map (\<lambda>d. (cd_id d, cd_name d)) (dss_doors ss)) (pnames w1)\<rparr>
              in c\<lparr>policy_of := replace_kind w2 Door doors\<rparr>)"

definition policy_len :: "resource_cache \<Rightarrow> nat" where
  "policy_len c = length (entries (policy_of c))"

section \<open>Reading\<close>

definition resolved_from :: "text_ops \<Rightarrow> policy \<Rightarrow> resource_wiring option \<Rightarrow> string \<Rightarrow> resolved option" where
  "resolved_from x w wo n =
     (case wo of
        Some rw \<Rightarrow>
          (let k = kind_parse (rw_kind rw);
               profile = session_profile_parse (rw_session_profile rw) k;
               pulse = (case Option.bind (policy_find x w n) e_pulse_ms of
                          Some p \<Rightarrow> Some p
                        | None \<Rightarrow> rw_strike_pulse_ms rw)
           in Some \<lparr>rv_id = rw_id rw, rv_kind = k, rv_profile = profile, rv_pulse_ms = pulse\<rparr>)
      | None \<Rightarrow>
          map_option
            (\<lambda>e. \<lparr>rv_id = uuid_show x (e_id e), rv_kind = e_kind e,
                  rv_profile = session_profile_parse (e_session_profile e) (e_kind e),
                  rv_pulse_ms = e_pulse_ms e\<rparr>)
            (policy_find x w n))"

definition resolve :: "text_ops \<Rightarrow> resource_cache \<Rightarrow> string \<Rightarrow> resolved option" where
  "resolve x c n = resolved_from x (policy_of c) (wiring_resource (wiring c) n) n"

definition requires_online :: "text_ops \<Rightarrow> resource_cache \<Rightarrow> string \<Rightarrow> bool" where
  "requires_online x c n = is_some_and (policy_find x (policy_of c) n) e_requires_online"

text \<open>The arms of \<^verbatim>\<open>decide\<close> that judge the principal, after the resource's own rules.\<close>

definition decide_member ::
  "policy \<Rightarrow> entry option \<Rightarrow> int option \<Rightarrow> string \<Rightarrow> scan_decision" where
  "decide_member w eo strike_ms token =
     (case find (\<lambda>m. constant_time_str_eq (m_digest m) token) (members w) of
        None \<Rightarrow> Deny UNKNOWN_CARD
      | Some m \<Rightarrow>
          if \<not> m_is_active m then Deny USER_INACTIVE
          else
            (case (case eo of Some e \<Rightarrow> if e_id e \<in> set (m_authorized m) then Some e else None
                            | None \<Rightarrow> None) of
               None \<Rightarrow> Deny NOT_AUTHORIZED
             | Some e \<Rightarrow>
                 if e_status e \<noteq> [] \<and> e_status e \<noteq> ''idle''
                 then Deny (UNAVAILABLE_PREFIX @ e_status e)
                 else Allow strike_ms))"

definition decide :: "text_ops \<Rightarrow> resource_cache \<Rightarrow> string \<Rightarrow> string \<Rightarrow> instant \<Rightarrow> scan_decision" where
  "decide x c n code now =
     (if is_locked (lockouts c) n then Deny LOCKED_OUT
      else
        (let wo = wiring_resource (wiring c) n;
             token = unwrap_or (wire_digest_hex (allow_list c) code) [];
             w = policy_of c;
             eo = policy_find x w n;
             strike_ms = Option.bind (resolved_from x w wo n) rv_pulse_ms
         in case eo of
              Some e \<Rightarrow>
                if \<not> e_enabled e then Deny DISABLED
                else if token \<in> set (e_deny e) then Deny DENIED_BY_RULE
                else if is_some_and (e_hold_until e) (\<lambda>until. now < until) then Allow strike_ms
                else if token \<in> set (e_allow e) then Allow strike_ms
                else if e_requires_online e then AskServer
                else decide_member w eo strike_ms token
            | None \<Rightarrow> decide_member w eo strike_ms token))"

section \<open>Sessions and the loop\<close>

definition session_end :: "resolved option \<Rightarrow> instant \<Rightarrow> instant option" where
  "session_end r now =
     (if map_option rv_profile r = Some Momentary
      then Some (now + milliseconds (max (unwrap_or (Option.bind r rv_pulse_ms) 0) 0))
      else None)"

definition cache_open_session :: "text_ops \<Rightarrow> resource_cache \<Rightarrow> string \<Rightarrow> instant \<Rightarrow> resource_cache" where
  "cache_open_session x c n now =
     c\<lparr>wiring := open_session (wiring c) n now (session_end (resolve x c n) now)\<rparr>"

definition cache_close_session :: "resource_cache \<Rightarrow> string \<Rightarrow> instant \<Rightarrow> resource_cache" where
  "cache_close_session c n now = c\<lparr>wiring := close_session (wiring c) n now\<rparr>"

definition cache_reconcile ::
  "text_ops \<Rightarrow> resource_cache \<Rightarrow> sync_payload \<Rightarrow> instant \<Rightarrow> instant option \<Rightarrow> resource_cache" where
  "cache_reconcile x c payload now requested_at =
     (let in_use_ids = map (\<lambda>t. uuid_show x (st_id t))
                         (filter (\<lambda>t. st_status t = InUse) (sp_tools payload));
          tracked = map (\<lambda>t. uuid_show x (st_id t)) (sp_tools payload);
          as_of = unwrap_or requested_at now
      in c\<lparr>wiring := reconcile_sessions (wiring c) in_use_ids tracked now as_of\<rparr>)"

definition hold_pulses_at :: "resource_cache \<Rightarrow> instant \<Rightarrow> duration \<Rightarrow> (uuid \<times> int) list" where
  "hold_pulses_at c now refresh =
     List.map_filter (\<lambda>e. map_option (\<lambda>ms. (e_id e, ms)) (hold_pulse_ms (e_hold_until e) now refresh))
       (filter e_enabled (entries (policy_of c)))"

fun send_holds ::
  "instant \<Rightarrow> duration \<Rightarrow> (uuid \<times> int) list \<Rightarrow> (uuid \<rightharpoonup> instant) \<Rightarrow> tick_action list \<times> (uuid \<rightharpoonup> instant)" where
  "send_holds now refresh [] sent = ([], sent)"
| "send_holds now refresh ((d, ms) # held) sent =
     (if is_none_or (sent d) (\<lambda>last. refresh \<le> now - last)
      then (let (out, sent') = send_holds now refresh held (sent(d \<mapsto> now)) in (Hold d ms # out, sent'))
      else send_holds now refresh held sent)"

definition cache_tick ::
  "resource_cache \<Rightarrow> instant \<Rightarrow> duration \<Rightarrow> duration \<Rightarrow> duration \<Rightarrow> tick_action list \<times> resource_cache" where
  "cache_tick c now ttl module_timeout hold_refresh =
     (let (acts, wi) = tick now ttl module_timeout (wiring c);
          held = hold_pulses_at c now hold_refresh;
          sent0 = map_retain (\<lambda>d _. d \<in> fst ` set held) (hold_sent c);
          (holds, sent) = send_holds now hold_refresh held sent0
      in (map Lease acts @ holds, c\<lparr>wiring := wi, hold_sent := sent\<rparr>))"

end
