(* ===== verification/Edge.thy ===== *)
theory Edge
  imports Resources
begin

text \<open>
  The coordinator's message handlers: \<^verbatim>\<open>edge/src/edge_inbound.rs\<close> (what the server pushes) and the
  local half of \<^verbatim>\<open>edge/src/mqtt.rs\<close> (what readers and plugs send). The shared state is \<open>edge_state\<close>;
  a handler returns the messages it sends, in order, and the state after it. Messages are the
  parsed payloads: a payload that does not parse is logged and changes nothing. The server's reply to
  a scan it is asked to decide is the parameter \<open>reply\<close>; the HMAC is the parameter \<open>hmac\<close>.
\<close>

section \<open>Local messages\<close>

record local_scan =
  lsc_resource :: string
  lsc_card :: string

record local_stop =
  lst_resource :: string
  lst_card :: "string option"

record local_usage =
  lu_resource :: string
  lu_card :: "string option"
  lu_seconds :: "rat option"
  lu_active_seconds :: "rat option"
  lu_temperature :: "rat option"

record local_power =
  lp_resource :: string
  lp_device_id :: "string option"
  lp_relay_on :: "bool option"
  lp_draw_now :: "rat option"
  lp_voltage_now :: "rat option"
  lp_max_voltage :: "rat option"
  lp_amperage_limit :: "rat option"
  lp_self_tripped :: "bool option"

datatype edge_out =
    ScanReply local_scan_reply
  | StopOk
  | UsageOk
  | PowerOk
  | PostScan string string
  | PostStop string "string option"
  | PostUsage local_usage rat
  | PostPowerTrip string
  | PostPowerReport local_power
  | PostAlive string

record 'k edge_state =
  cache :: resource_cache
  unlock_queue :: "unlock_command list"
  event_queue :: "doors_event list"
  command_key :: "'k option"
  edge_name :: string

section \<open>Scans\<close>

text \<open>
  What \<^verbatim>\<open>reqwest\<close> returns: a transport error, a body that is no JSON, or a JSON body. The status
  code is part of the reply; the handler does not read it.
\<close>

datatype http_reply = TransportError string | Unreadable nat string | Body nat json

fun json_as_bool :: "json \<Rightarrow> bool option" where
  "json_as_bool (JBool b) = Some b"
| "json_as_bool _ = None"

fun json_as_i64 :: "json \<Rightarrow> int option" where
  "json_as_i64 (JNum n) = (if - (2 ^ 63) \<le> n \<and> n < 2 ^ 63 then Some n else None)"
| "json_as_i64 _ = None"

definition or_else :: "'a option \<Rightarrow> 'a option \<Rightarrow> 'a option" where
  "or_else a b = (case a of Some v \<Rightarrow> Some v | None \<Rightarrow> b)"

fun remote_scan :: "http_reply \<Rightarrow> bool \<times> string \<times> int option" where
  "remote_scan (Body status body) =
     (let authorized = unwrap_or (Option.bind (or_else (json_get body ''authorized'')
                          (json_get body ''tool_on'')) json_as_bool) False;
          reason = unwrap_or (Option.bind (json_get body ''message'') json_as_str)
                     (if authorized then ''authorized'' else ''denied'');
          strike = map_option as_i32 (Option.bind (Option.bind (json_get body ''strike'')
                     (\<lambda>s. json_get s ''pulse_ms'')) json_as_i64)
      in (authorized, reason, strike))"
| "remote_scan (Unreadable status e) = (False, ''server response unreadable: '' @ e, None)"
| "remote_scan (TransportError e) = (False, ''server unreachable'', None)"

definition report_door_event ::
  "text_ops \<Rightarrow> ('k \<Rightarrow> string \<Rightarrow> string) \<Rightarrow> instant \<Rightarrow> 'k edge_state \<Rightarrow> uuid \<Rightarrow> string \<Rightarrow> bool \<Rightarrow>
   string option \<Rightarrow> 'k edge_state" where
  "report_door_event x hmac now s door_id code granted reason =
     (let event = \<lparr>de_door_id = door_id, de_card_id = Some code, de_granted = granted,
                   de_reason = reason, de_source = ''rfid'', de_occurred_at = now, de_sig = None\<rparr>;
          signed = (case command_key s of
                      Some key \<Rightarrow>
                        event\<lparr>de_sig := Some (sign hmac key
                          (doors_event_message (uuid_show x (de_door_id event))
                             (unwrap_or (de_card_id event) []) (de_granted event) (de_source event)))\<rparr>
                    | None \<Rightarrow> event)
      in s\<lparr>event_queue := event_queue s @ [signed]\<rparr>)"

definition scan_verdict :: "http_reply \<Rightarrow> scan_decision \<Rightarrow> bool \<times> string \<times> int option" where
  "scan_verdict reply d =
     (case d of
        Allow strike_ms \<Rightarrow> (True, ''authorized'', strike_ms)
      | Deny why \<Rightarrow> (False, why, None)
      | AskServer \<Rightarrow> remote_scan reply)"

definition handle_scan ::
  "text_ops \<Rightarrow> ('k \<Rightarrow> string \<Rightarrow> string) \<Rightarrow> http_reply \<Rightarrow> instant \<Rightarrow> local_scan \<Rightarrow> 'k edge_state \<Rightarrow>
   edge_out list \<times> 'k edge_state" where
  "handle_scan x hmac reply now req s =
     (let k = unwrap_or (map_option rv_kind (resolve x (cache s) (lsc_resource req))) Tool;
          (authorized, reason, strike_ms) =
            scan_verdict reply (decide x (cache s) (lsc_resource req) (lsc_card req) now);
          answer = ScanReply (local_scan_reply_new (lsc_resource req) authorized reason strike_ms);
          s1 = (if authorized
                then s\<lparr>cache := cache_open_session x (cache s) (lsc_resource req) now\<rparr> else s)
      in case k of
           Door \<Rightarrow>
             (case uuid_parse x (lsc_resource req) of
                Some door_id \<Rightarrow>
                  ([answer], report_door_event x hmac now s1 door_id (lsc_card req) authorized
                               (if authorized then None else Some reason))
              | None \<Rightarrow> ([answer], s1))
         | Tool \<Rightarrow>
             (if authorized \<and> \<not> requires_online x (cache s1) (lsc_resource req)
              then ([answer, PostScan (lsc_resource req) (lsc_card req)], s1)
              else ([answer], s1)))"

definition publish_doors_unlock_response :: "text_ops \<Rightarrow> unlock_command \<Rightarrow> edge_out" where
  "publish_doors_unlock_response x cmd =
     ScanReply (local_scan_reply_new (uuid_show x (uc_door_id cmd)) True (uc_reason cmd)
                 (Some (uc_duration_ms cmd)))"

definition publish_doors_hold :: "text_ops \<Rightarrow> uuid \<Rightarrow> int \<Rightarrow> edge_out" where
  "publish_doors_hold x door_id duration_ms =
     ScanReply (local_scan_reply_new (uuid_show x door_id) True ''open_access'' (Some duration_ms))"

section \<open>Stops, usage, liveness and power\<close>

definition handle_stop :: "instant \<Rightarrow> local_stop \<Rightarrow> 'k edge_state \<Rightarrow> edge_out list \<times> 'k edge_state" where
  "handle_stop now req s =
     ([StopOk, PostStop (lst_resource req) (lst_card req)],
      s\<lparr>cache := cache_close_session (cache s) (lst_resource req) now\<rparr>)"

definition handle_usage :: "local_usage \<Rightarrow> 'k edge_state \<Rightarrow> edge_out list \<times> 'k edge_state" where
  "handle_usage req s = ([UsageOk, PostUsage req (unwrap_or (lu_seconds req) 0)], s)"

definition handle_alive :: "instant \<Rightarrow> string \<Rightarrow> 'k edge_state \<Rightarrow> edge_out list \<times> 'k edge_state" where
  "handle_alive now device_id s =
     ([PostAlive device_id],
      s\<lparr>cache := (cache s)\<lparr>wiring := snd (note_device_seen (wiring (cache s)) device_id now)\<rparr>\<rparr>)"

definition note_power_liveness :: "instant \<Rightarrow> local_power \<Rightarrow> inner \<Rightarrow> inner" where
  "note_power_liveness now req i =
     (let i1 = (case lp_device_id req of
                  Some d \<Rightarrow> snd (note_device_seen i d now)
                | None \<Rightarrow> i)
      in case (lp_device_id req, lp_relay_on req) of
           (Some d, Some on) \<Rightarrow> note_relay_state i1 d on now
         | _ \<Rightarrow> i1)"

definition handle_power ::
  "(string \<Rightarrow> rat option) \<Rightarrow> instant \<Rightarrow> local_power \<Rightarrow> 'k edge_state \<Rightarrow> edge_out list \<times> 'k edge_state" where
  "handle_power parse_f64 now req s =
     (let c = cache s;
          wi = note_power_liveness now req (wiring c);
          pw = (case lp_draw_now req of
                  Some d \<Rightarrow> record_draw (lockouts c) (lp_resource req) d now
                | None \<Rightarrow> lockouts c);
          (over, pw2) = fast_trip parse_f64 pw
      in (map PostPowerTrip over @ [PostPowerReport req, PowerOk],
          s\<lparr>cache := c\<lparr>wiring := wi, lockouts := pw2\<rparr>\<rparr>))"

section \<open>The local loop\<close>

text \<open>
  \<^verbatim>\<open>run_local_mqtt_event_loop\<close> first drains the queue of arrived sync payloads, reconciling the lease
  engine with each; \<^verbatim>\<open>reconcile_sessions\<close> is the wrapper it calls.
\<close>

fun drain_arrivals :: "text_ops \<Rightarrow> instant \<Rightarrow> sync_arrival list \<Rightarrow> resource_cache \<Rightarrow> resource_cache" where
  "drain_arrivals x now [] c = c"
| "drain_arrivals x now (a # as) c =
     drain_arrivals x now as (cache_reconcile x c (sa_payload a) now (sa_requested_at a))"

definition local_loop_pass :: "text_ops \<Rightarrow> instant \<Rightarrow> 'k edge_state \<Rightarrow> 'k edge_state" where
  "local_loop_pass x now s =
     (case notify_queue (allow_list (cache s)) of
        None \<Rightarrow> s
      | Some q \<Rightarrow>
          s\<lparr>cache := drain_arrivals x now q
                       ((cache s)\<lparr>allow_list := (allow_list (cache s))\<lparr>notify_queue := Some []\<rparr>\<rparr>)\<rparr>)"

section \<open>Server messages\<close>

datatype inbound =
    InName string
  | InPolicy resource_policy_payload
  | InSync sync_payload
  | InPower power_state_payload
  | InModules tool_module_state_payload
  | InDoors door_state_snapshot
  | InUnlock unlock_command
  | InUnknown string

fun dispatch ::
  "text_ops \<Rightarrow> ('k \<Rightarrow> string \<Rightarrow> string) \<Rightarrow> instant \<Rightarrow> inbound \<Rightarrow> 'k edge_state \<Rightarrow> 'k edge_state" where
  "dispatch x hmac now (InName nm) s = s\<lparr>edge_name := nm\<rparr>"
| "dispatch x hmac now (InPolicy p) s = s\<lparr>cache := apply_policy x (cache s) p None\<rparr>"
| "dispatch x hmac now (InSync p) s = s\<lparr>cache := apply_sync_alias (cache s) p None\<rparr>"
| "dispatch x hmac now (InPower p) s =
     s\<lparr>cache := (cache s)\<lparr>lockouts := power_apply_state (lockouts (cache s)) p\<rparr>\<rparr>"
| "dispatch x hmac now (InModules p) s =
     s\<lparr>cache := (cache s)\<lparr>wiring := apply_state_at (wiring (cache s)) p None now\<rparr>\<rparr>"
| "dispatch x hmac now (InDoors d) s = s\<lparr>cache := apply_doors_alias (cache s) d\<rparr>"
| "dispatch x hmac now (InUnlock cmd) s =
     (case command_key s of
        Some key \<Rightarrow>
          (let msg = doors_unlock_message (uuid_show x (uc_door_id cmd)) (uc_duration_ms cmd) (uc_reason cmd)
           in if is_some_and (uc_sig cmd) (verify hmac key msg)
              then s\<lparr>unlock_queue := unlock_queue s @ [cmd]\<rparr>
              else s)
      | None \<Rightarrow> s\<lparr>unlock_queue := unlock_queue s @ [cmd]\<rparr>)"
| "dispatch x hmac now (InUnknown k) s = s"

text \<open>Topics of the remote broker: the kinds that are dispatched, and the ones subscribed to.\<close>

definition NAME :: string where "NAME = ''name''"
definition TOOLGUARD_STATE :: string where "TOOLGUARD_STATE = ''toolguard/state''"
definition DOORS_STATE :: string where "DOORS_STATE = ''doors/state''"
definition DOORS_UNLOCK :: string where "DOORS_UNLOCK = ''doors/unlock''"
definition POWER_STATE :: string where "POWER_STATE = ''power/state''"
definition MODULE_STATE :: string where "MODULE_STATE = ''module/state''"
definition RESOURCE_POLICY :: string where "RESOURCE_POLICY = ''resource/policy''"

lemmas kind_defs = NAME_def TOOLGUARD_STATE_def DOORS_STATE_def DOORS_UNLOCK_def POWER_STATE_def
  MODULE_STATE_def RESOURCE_POLICY_def

definition device_topic :: "string \<Rightarrow> string \<Rightarrow> string \<Rightarrow> string" where
  "device_topic namespace device_id suffix = namespace @ ''/devices/'' @ device_id @ ''/'' @ suffix"

definition subscribe_to_commands :: "string \<Rightarrow> string \<Rightarrow> string list" where
  "subscribe_to_commands namespace device_id =
     map (device_topic namespace device_id)
       [NAME, TOOLGUARD_STATE, DOORS_STATE, DOORS_UNLOCK, POWER_STATE]"

definition remote_suffix :: "string \<Rightarrow> string \<Rightarrow> string \<Rightarrow> string option" where
  "remote_suffix namespace device_id topic = strip_prefix (device_topic namespace device_id []) topic"

end
