(* ===== verification/Lease_Safety.thy ===== *)
theory Lease_Safety
  imports Leases
begin

text \<open>
  What the lease engine guarantees: the exact condition under which a tool may be energized, that
  a latch survives everything but a reset, that leases run out when nothing renews them, that a
  stale sync cannot reopen a session this coordinator closed, and what a watchdog pass may grant.
\<close>

section \<open>Frame lemmas\<close>

lemma session_op_frames [frame_simps, simp]:
  "snapshot (open_session i r now e) = snapshot i"
  "latched (open_session i r now e) = latched i"
  "leases (open_session i r now e) = leases i"
  "snapshot (close_session i r now) = snapshot i"
  "latched (close_session i r now) = latched i"
  "leases (close_session i r now) = leases i"
  by (simp_all add: open_session_def close_session_def Let_def)

lemma reconcile_frames [frame_simps, simp]:
  "snapshot (reconcile_tracked i us ts now as_of) = snapshot i"
  "latched (reconcile_tracked i us ts now as_of) = latched i"
  "leases (reconcile_tracked i us ts now as_of) = leases i"
  "latched (apply_state_at i p rq now) = latched i"
  "leases (apply_state_at i p rq now) = leases i"
  by (simp_all add: reconcile_tracked_def apply_state_at_def Let_def)

lemma observe_frames [frame_simps, simp]:
  "snapshot (observe i t c a now) = snapshot i"
  "latched (observe i t c a now) = latched i"
  "leases (observe i t c a now) = leases i"
  "local_sessions (observe i t c a now) = local_sessions i"
  "synced_in_use (observe i t c a now) = synced_in_use i"
  "local_stops (observe i t c a now) = local_stops i"
  "local_session_grace (observe i t c a now) = local_session_grace i"
  by (auto simp: observe_def Let_def split: option.splits)


text \<open>The fields the decision reads, and the leases: everything but the sequencing bookkeeping.\<close>

definition same_core :: "inner \<Rightarrow> inner \<Rightarrow> bool" where
  "same_core i j \<longleftrightarrow>
     snapshot j = snapshot i \<and> readings j = readings i \<and> latched j = latched i \<and>
     leases j = leases i \<and> module_seen j = module_seen i \<and> local_sessions j = local_sessions i \<and>
     synced_in_use j = synced_in_use i \<and> local_session_grace j = local_session_grace i \<and>
     local_stops j = local_stops i \<and> relay_state j = relay_state i"

lemma same_core_refl [simp]: "same_core i i"
  by (simp add: same_core_def)

lemma same_core_trans [trans]: "same_core i j \<Longrightarrow> same_core j k \<Longrightarrow> same_core i k"
  by (simp add: same_core_def)

lemma same_coreD:
  assumes "same_core i j"
  shows "snapshot j = snapshot i" "latched j = latched i" "leases j = leases i"
    "relay_state j = relay_state i" "local_stops j = local_stops i"
    "synced_in_use j = synced_in_use i" "local_sessions j = local_sessions i"
    "local_session_grace j = local_session_grace i"
  using assms by (simp_all add: same_core_def)

lemma same_core_upd [simp]:
  "same_core i (i\<lparr>allowed_since := a\<rparr>)"
  "same_core i (i\<lparr>granted_since := g\<rparr>)"
  "same_core i (i\<lparr>run_on_until := f\<rparr>)"
  "same_core i (i\<lparr>run_on_until := f, granted_since := g\<rparr>)"
  by (simp_all add: same_core_def)

lemma note_all_seen_frames [simp]:
  "snapshot (note_all_seen xs now i) = snapshot i"
  "latched (note_all_seen xs now i) = latched i"
  "leases (note_all_seen xs now i) = leases i"
  "local_sessions (note_all_seen xs now i) = local_sessions i"
  "synced_in_use (note_all_seen xs now i) = synced_in_use i"
  "local_stops (note_all_seen xs now i) = local_stops i"
  "local_session_grace (note_all_seen xs now i) = local_session_grace i"
  by (induction xs arbitrary: i) (simp_all add: note_module_seen_def)

lemma clear_run_on_frames [simp]:
  "same_core i (clear_run_on bs i)"
  "allowed_since (clear_run_on bs i) = allowed_since i"
  "granted_since (clear_run_on bs i) = granted_since i"
  by (induction bs arbitrary: i) (simp_all add: same_core_def)

lemma start_run_on_frames [simp]:
  "same_core i (start_run_on now bs i)"
  "allowed_since (start_run_on now bs i) = allowed_since i"
  "granted_since (start_run_on now bs i) = granted_since i"
  by (induction bs arbitrary: i) (simp_all add: same_core_def)

lemma grant_power_frames [simp]:
  "same_core i (snd (grant_power now tool ttl_ms allowed pws bs i))"
  "allowed_since (snd (grant_power now tool ttl_ms allowed pws bs i)) = allowed_since i"
  "run_on_until (snd (grant_power now tool ttl_ms allowed pws bs i)) = run_on_until i"
  by (induction bs arbitrary: i)
     (simp_all add: same_core_def Let_def split_beta split: option.splits)

lemma refuse_power_frames [simp]:
  "same_core i (snd (refuse_power now tool ttl_ms d bs i))"
  "allowed_since (snd (refuse_power now tool ttl_ms d bs i)) = allowed_since i"
  by (induction bs arbitrary: i) (simp_all add: same_core_def Let_def split_beta)

lemmas core_frames = clear_run_on_frames(1) [unfolded same_core_def]
  start_run_on_frames(1) [unfolded same_core_def] grant_power_frames(1) [unfolded same_core_def]
  refuse_power_frames(1) [unfolded same_core_def]

text \<open>A pass over one tool, after its renewal, touches the sequencing fields only.\<close>

lemma tick_allow_core [simp]: "same_core i (snd (tick_allow now tool ttl_ms w i))"
  by (simp add: tick_allow_def Let_def split_beta same_core_def core_frames)

lemma tick_deny_core [simp]: "same_core i (snd (tick_deny now tool ttl_ms d w i))"
  by (simp add: tick_deny_def Let_def split_beta same_core_def core_frames)

lemma tick_tool_core: "same_core (snd (renew i tool now ttl mt)) (snd (tick_tool now ttl mt tool i))"
  by (simp add: tick_tool_def Let_def split_beta split: option.splits lease_decision.splits)

lemma renew_snapshot [simp]: "snapshot (snd (renew i tool now ttl mt)) = snapshot i"
  by (simp add: renew_def Let_def split: lease_decision.splits denial.splits)

lemma tick_tool_frames [simp]:
  "snapshot (snd (tick_tool now ttl mt tool i)) = snapshot i"
  "latched (snd (tick_tool now ttl mt tool i)) = latched (snd (renew i tool now ttl mt))"
  "leases (snd (tick_tool now ttl mt tool i)) = leases (snd (renew i tool now ttl mt))"
  using same_coreD [OF tick_tool_core [of i tool now ttl mt]] by simp_all

section \<open>The decision\<close>

text \<open>
  The specification, on the state alone: a binding that must be heard has been, within the timeout; a
  condition has been reported, and once the report has stood for the debounce it says there is no
  hazard (or that there is the permission), while until then it is read the other way round.
\<close>

definition binding_heard :: "inner \<Rightarrow> instant \<Rightarrow> duration \<Rightarrow> device_binding \<Rightarrow> bool" where
  "binding_heard i now timeout m \<longleftrightarrow>
     db_role m = ''edge'' \<or> db_on_disconnect m \<noteq> ''fail_off'' \<or>
     (\<exists>seen. module_seen i (db_id m) = Some seen \<and> now - seen \<le> timeout)"

definition condition_clear :: "inner \<Rightarrow> string \<Rightarrow> instant \<Rightarrow> tool_interlock_rule \<Rightarrow> bool" where
  "condition_clear i key now r \<longleftrightarrow>
     (\<exists>rd. readings i (key, ir_condition r) = Some rd \<and>
        (if milliseconds (max (ir_debounce_ms r) 0) \<le> now - r_since rd
         then r_asserted rd \<longleftrightarrow> \<not> is_hazard (ir_condition r)
         else r_asserted rd \<longleftrightarrow> is_hazard (ir_condition r)))"

definition energizable :: "inner \<Rightarrow> tool_module_tool \<Rightarrow> instant \<Rightarrow> duration \<Rightarrow> bool" where
  "energizable i w now timeout \<longleftrightarrow>
     latched i (tmt_tool_id w) = None \<and>
     (\<forall>m \<in> set (tmt_modules w). binding_heard i now timeout m) \<and>
     (\<forall>r \<in> set (tmt_interlocks w). condition_clear i (tmt_tool_id w) now r) \<and>
     (tmt_tool_id w \<in> synced_in_use i \<or>
      (\<exists>s. local_sessions i (tmt_tool_id w) = Some s \<and> is_none_or (s_ends_at s) (\<lambda>e. now < e)))"

lemma binding_heard_iff: "binding_heard i now timeout m \<longleftrightarrow> \<not> silent_fail_off i now timeout m"
  by (auto simp: binding_heard_def silent_fail_off_def not_less split: option.splits)

lemma condition_clear_iff: "condition_clear i key now r \<longleftrightarrow> satisfied i key r now = Some True"
  by (auto simp: condition_clear_def satisfied_def Let_def split: option.splits)

lemma energizable_alt:
  "energizable i w now timeout \<longleftrightarrow>
     latched i (tmt_tool_id w) = None \<and>
     (\<forall>m \<in> set (tmt_modules w). \<not> silent_fail_off i now timeout m) \<and>
     (\<forall>r \<in> set (tmt_interlocks w). satisfied i (tmt_tool_id w) r now = Some True) \<and>
     in_use i (tmt_tool_id w) now"
  by (simp add: energizable_def binding_heard_iff condition_clear_iff in_use_def is_some_and_iff)

lemma check_interlocks_None:
  "check_interlocks i key now rs = None \<longleftrightarrow> (\<forall>r \<in> set rs. satisfied i key r now = Some True)"
  by (induction rs) (auto split: option.splits bool.splits)

lemma check_interlocks_Tripped:
  "check_interlocks i key now rs = Some (Tripped c) \<Longrightarrow>
     \<exists>r \<in> set rs. ir_kind r = ''trip'' \<and> ir_condition r = c \<and> satisfied i key r now = Some False"
  by (induction rs) (auto split: option.splits bool.splits if_splits)

lemma offline_fail_off_None:
  "offline_fail_off i w now timeout = None \<longleftrightarrow>
     (\<forall>m \<in> set (tmt_modules w). \<not> silent_fail_off i now timeout m)"
  by (auto simp: offline_fail_off_def find_None_iff)

lemma evaluate_wiring_allow:
  "evaluate_wiring i w now mt = LAllow \<longleftrightarrow> energizable i w now mt"
proof -
  have "evaluate_wiring i w now mt = LAllow \<longleftrightarrow>
      latched i (tmt_tool_id w) = None \<and> offline_fail_off i w now mt = None \<and>
      check_interlocks i (tmt_tool_id w) now (tmt_interlocks w) = None \<and>
      in_use i (tmt_tool_id w) now"
    by (auto simp: evaluate_wiring_def Let_def split: option.splits)
  then show ?thesis
    by (simp add: energizable_alt offline_fail_off_None check_interlocks_None)
qed

lemma evaluate_Some: "wiring_of i tool = Some w \<Longrightarrow> evaluate i tool now mt = evaluate_wiring i w now mt"
  by (auto simp: evaluate_def wiring_of_def split: option.splits)

lemma evaluate_latched:
  "wiring_of i tool = Some w \<Longrightarrow> latched i (tmt_tool_id w) = Some c \<Longrightarrow>
     evaluate i tool now mt = LDeny (Latched c)"
  by (simp add: evaluate_Some evaluate_wiring_def)

lemma lm_resolve_in: "lm_resolve s tool = Some w \<Longrightarrow> w \<in> set (tms_tools s)"
  by (auto simp: lm_resolve_def dest: find_SomeD split: option.splits)

lemma wired_tool_resolves:
  assumes "tool \<in> set (wired_tools i)"
  shows "\<exists>w. wiring_of i tool = Some w \<and> tmt_tool_id w = tool"
proof -
  obtain s where s: "snapshot i = Some s" "tool \<in> tmt_tool_id ` set (tms_tools s)"
    using assms by (cases "snapshot i") (auto simp: wired_tools_def)
  then have "find (\<lambda>t. tmt_tool_id t = tool) (tms_tools s) \<noteq> None"
    by (auto simp: find_None_iff)
  then obtain w where w: "find (\<lambda>t. tmt_tool_id t = tool) (tms_tools s) = Some w" by auto
  then have "tmt_tool_id w = tool" by (auto dest: find_SomeD)
  with w s(1) show ?thesis by (simp add: wiring_of_def lm_resolve_def)
qed

text \<open>C1. For a tool the coordinator holds wiring for, the engine says yes exactly when no trip is
  latched, every fail-off binding has been heard from within the timeout, every interlock rule's
  condition has been reported and is clear, and the tool is in use: synced as such, or in a local
  session that has not ended. With no wiring snapshot at all the answer is no; a tool
  the snapshot does not name is not this engine's to refuse.\<close>

theorem evaluate_allow_iff:
  "evaluate i tool now mt = LAllow \<longleftrightarrow>
     (case snapshot i of
        None \<Rightarrow> False
      | Some s \<Rightarrow> (case lm_resolve s tool of None \<Rightarrow> True | Some w \<Rightarrow> energizable i w now mt))"
  by (auto simp: evaluate_def evaluate_wiring_allow split: option.splits)

section \<open>Latches\<close>

lemma renew_latched:
  "latched (snd (renew i tool now ttl mt)) =
     (case evaluate i tool now mt of
        LDeny (Tripped c) \<Rightarrow>
          if trip_latches i tool c then (latched i)(tool_key i tool \<mapsto> c) else latched i
      | _ \<Rightarrow> latched i)"
  by (auto simp: renew_def Let_def trip_latches_def wiring_of_def
        split: lease_decision.splits denial.splits)

lemma renew_keeps_latch:
  assumes "latched i k = Some c"
  shows "latched (snd (renew i tool now ttl mt)) k \<noteq> None"
  using assms by (auto simp: renew_latched split: lease_decision.splits denial.splits)

lemma tick_tools_keeps_latch:
  "latched i k \<noteq> None \<Longrightarrow> latched (snd (tick_tools now ttl mt ts i)) k \<noteq> None"
proof (induction ts arbitrary: i)
  case Nil
  then show ?case by simp
next
  case (Cons t ts)
  then have "latched (snd (tick_tool now ttl mt t i)) k \<noteq> None"
    using renew_keeps_latch by auto
  with Cons.IH show ?case by (simp add: Let_def split_beta)
qed

fun resets :: "string \<Rightarrow> engine_event \<Rightarrow> bool" where
  "resets k (EvResetLatch t) = (t = k)"
| "resets k _ = False"

interpretation latch: guarded_fact engine_step "\<lambda>k i. latched i k \<noteq> None" resets
proof
  fix k e and i :: inner
  assume "latched i k \<noteq> None" "\<not> resets k e"
  then show "latched (engine_step e i) k \<noteq> None"
    by (cases e) (auto simp: set_local_session_grace_def reconcile_sessions_def reset_latch_def
        note_relay_state_def note_module_seen_def note_device_seen_def Let_def tick_def
        intro: tick_tools_keeps_latch [simplified] dest: renew_keeps_latch)
qed

text \<open>
  C13. A latched trip is sticky: whatever sequence of events the engine processes (new wiring, sessions,
  readings, renewals, watchdog passes), as long as nobody resets this tool's latch the tool is still
  latched afterwards; and if it is wired then, its evaluation is a refusal that names a latch. A snapshot
  that no longer wires the tool keeps the latch but leaves nothing to refuse: the engine allows an
  unwired tool.
\<close>

theorem latch_survives_until_reset:
  assumes "is_latched i k"
    and "\<forall>e \<in> set es. e \<noteq> EvResetLatch k"
    and "wiring_of (run_events engine_step es i) tool = Some w" and "tmt_tool_id w = k"
  shows "is_latched (run_events engine_step es i) k \<and>
         (\<exists>c. evaluate (run_events engine_step es i) tool now mt = LDeny (Latched c))"
proof -
  have "\<forall>e \<in> set es. \<not> resets k e"
    using assms(2) by (metis resets.elims(2))
  then have l: "latched (run_events engine_step es i) k \<noteq> None"
    using assms(1) latch.run_guarded by (simp add: is_latched_def)
  then obtain c where "latched (run_events engine_step es i) k = Some c" by auto
  with assms(3,4) have "evaluate (run_events engine_step es i) tool now mt = LDeny (Latched c)"
    by (simp add: evaluate_latched)
  with l show ?thesis by (auto simp: is_latched_def)
qed

text \<open>A trip that fires and is marked as latching is recorded by the renewal that sees it: the
  renewal refuses, drops the lease, and leaves the tool latched.\<close>

lemma renew_records_trip:
  assumes "evaluate i tool now mt = LDeny (Tripped c)"
    and "wiring_of i tool = Some w" and "r \<in> set (tmt_interlocks w)"
    and "ir_kind r = ''trip''" and "ir_condition r = c" and "ir_latch r"
  shows "fst (renew i tool now ttl mt) = LDeny (Tripped c) \<and>
         is_latched (snd (renew i tool now ttl mt)) (tmt_tool_id w) \<and>
         \<not> lease_valid (snd (renew i tool now ttl mt)) tool later"
proof -
  have "trip_latches i tool c"
    using assms(2-6) by (auto simp: trip_latches_def list_ex_iff)
  then have "latched (snd (renew i tool now ttl mt)) = (latched i)(tool_key i tool \<mapsto> c)"
    using assms(1) by (simp add: renew_latched)
  moreover have "leases (snd (renew i tool now ttl mt)) (tool_key i tool) = None"
    using assms(1) by (auto simp: renew_def Let_def split: denial.splits)
  moreover have "tool_key (snd (renew i tool now ttl mt)) tool = tool_key i tool"
    by (simp add: tool_key_def wiring_of_def)
  ultimately show ?thesis
    using assms(1,2) by (simp add: renew_def Let_def is_latched_def lease_valid_def tool_key_def)
qed

section \<open>Leases lapse without renewal\<close>

lemma renew_leases:
  "leases (snd (renew i tool now ttl mt)) =
     (case evaluate i tool now mt of
        LAllow \<Rightarrow> (leases i)(tool_key i tool \<mapsto> now + ttl)
      | LDeny _ \<Rightarrow> map_remove (tool_key i tool) (leases i))"
  by (simp add: renew_def Let_def split: lease_decision.splits denial.splits)

definition leases_by :: "instant \<Rightarrow> inner \<Rightarrow> bool" where
  "leases_by T i \<longleftrightarrow> (\<forall>k u. leases i k = Some u \<longrightarrow> u \<le> T)"

fun renews_past :: "instant \<Rightarrow> engine_event \<Rightarrow> bool" where
  "renews_past T (EvRenew t now ttl mt) = (T < now + ttl)"
| "renews_past T (EvTick now ttl mt) = (T < now + ttl)"
| "renews_past T _ = False"

lemma renew_leases_by:
  "leases_by T i \<Longrightarrow> now + ttl \<le> T \<Longrightarrow> leases_by T (snd (renew i tool now ttl mt))"
  by (auto simp: leases_by_def renew_leases split: lease_decision.splits if_splits)

lemma tick_tools_leases_by:
  "leases_by T i \<Longrightarrow> now + ttl \<le> T \<Longrightarrow> leases_by T (snd (tick_tools now ttl mt ts i))"
proof (induction ts arbitrary: i)
  case Nil
  then show ?case by simp
next
  case (Cons t ts)
  have "leases_by T (snd (tick_tool now ttl mt t i))"
    using renew_leases_by [OF Cons.prems] by (simp add: leases_by_def)
  with Cons show ?case by (simp add: Let_def split_beta)
qed

interpretation lapse: guarded_fact engine_step leases_by renews_past
proof
  fix T e and i :: inner
  assume "leases_by T i" "\<not> renews_past T e"
  then show "leases_by T (engine_step e i)"
  proof (cases e)
    case (EvRenew t now ttl mt)
    with \<open>leases_by T i\<close> \<open>\<not> renews_past T e\<close> show ?thesis by (simp add: renew_leases_by)
  next
    case (EvTick now ttl mt)
    with \<open>leases_by T i\<close> \<open>\<not> renews_past T e\<close> show ?thesis
      by (simp add: tick_def tick_tools_leases_by)
  qed (simp_all add: leases_by_def set_local_session_grace_def reconcile_sessions_def
      note_relay_state_def note_module_seen_def note_device_seen_def Let_def reset_latch_def)
qed

text \<open>C18. The absence of a renewal is the trip: if every renewal and every watchdog pass so far was
  made early enough that its lease runs out by instant \<open>T\<close>, then from \<open>T\<close> on no tool has a valid
  lease, whatever else the coordinator heard in the meantime.\<close>

theorem leases_lapse:
  assumes "\<forall>e \<in> set es. \<not> renews_past T e" and "T \<le> now"
  shows "\<not> lease_valid (run_events engine_step es new_inner) tool now"
proof -
  have "leases_by T new_inner" by (simp add: leases_by_def new_inner_def)
  then have "leases_by T (run_events engine_step es new_inner)"
    using assms(1) by (rule lapse.run_guarded)
  with assms(2) show ?thesis
    by (force simp: leases_by_def lease_valid_def is_some_and_iff)
qed

section \<open>A stale sync does not reopen a session\<close>

definition stopped_since :: "string \<times> instant \<times> duration \<Rightarrow> inner \<Rightarrow> bool" where
  "stopped_since = (\<lambda>(k, t, g) i.
     k \<notin> synced_in_use i \<and> local_sessions i k = None \<and> local_session_grace i = g \<and>
     (\<exists>at \<ge> t. local_stops i k = Some at))"

text \<open>The events that may legitimately put the resource back in use, or forget the stop.\<close>

fun may_reopen :: "string \<times> instant \<times> duration \<Rightarrow> engine_event \<Rightarrow> bool" where
  "may_reopen (k, t, g) (EvSetGrace g') = (g' \<noteq> g)"
| "may_reopen (k, t, g) (EvOpen r now e) = True"
| "may_reopen (k, t, g) (EvClose r now) = (now < t)"
| "may_reopen (k, t, g) (EvReconcile us ts now as_of) = (t \<le> as_of \<or> g \<le> now - t)"
| "may_reopen (k, t, g) (EvApplyState p rq now) = (t \<le> unwrap_or rq now \<or> g \<le> now - t)"
| "may_reopen _ _ = False"

lemma reconcile_stopped:
  assumes "stopped_since (k, t, g) i" "as_of < t" "now - t < g"
  shows "stopped_since (k, t, g) (reconcile_tracked i us ts now as_of)"
proof -
  from assms(1) obtain at where at: "t \<le> at" "local_stops i k = Some at"
    and i: "k \<notin> synced_in_use i" "local_sessions i k = None" "local_session_grace i = g"
    by (auto simp: stopped_since_def)
  have "map_retain (\<lambda>_ at. now - at < g) (local_stops i) k = Some at"
    using at assms(3) by simp
  moreover have "as_of < at" using at assms(2) by simp
  ultimately show ?thesis
    using at i by (auto simp: stopped_since_def reconcile_tracked_def Let_def map_retain_eq_None is_some_and_iff)
qed

lemma renew_session_frames [simp]:
  "synced_in_use (snd (renew i tool now ttl mt)) = synced_in_use i"
  "local_sessions (snd (renew i tool now ttl mt)) = local_sessions i"
  "local_stops (snd (renew i tool now ttl mt)) = local_stops i"
  "local_session_grace (snd (renew i tool now ttl mt)) = local_session_grace i"
  by (simp_all add: renew_def Let_def split: lease_decision.splits denial.splits)

lemma tick_tools_session_frames [simp]:
  "synced_in_use (snd (tick_tools now ttl mt ts i)) = synced_in_use i"
  "local_sessions (snd (tick_tools now ttl mt ts i)) = local_sessions i"
  "local_stops (snd (tick_tools now ttl mt ts i)) = local_stops i"
  "local_session_grace (snd (tick_tools now ttl mt ts i)) = local_session_grace i"
  by (induction ts arbitrary: i)
     (simp_all add: Let_def split_beta same_coreD [OF tick_tool_core])

interpretation stop: guarded_fact engine_step stopped_since may_reopen
proof
  fix kt :: "string \<times> instant \<times> duration" and e and i :: inner
  obtain k t g where kt: "kt = (k, t, g)" by (cases kt)
  assume "stopped_since kt i" "\<not> may_reopen kt e"
  then show "stopped_since kt (engine_step e i)"
  proof (cases e)
    case (EvReconcile us ts now as_of)
    with \<open>stopped_since kt i\<close> \<open>\<not> may_reopen kt e\<close> show ?thesis
      by (auto simp: kt reconcile_sessions_def intro: reconcile_stopped)
  next
    case (EvApplyState p rq now)
    have "stopped_since (k, t, g) (i\<lparr>snapshot := Some p\<rparr>)"
      using \<open>stopped_since kt i\<close> by (simp add: kt stopped_since_def)
    with EvApplyState \<open>\<not> may_reopen kt e\<close> show ?thesis
      by (auto simp: kt apply_state_at_def Let_def intro: reconcile_stopped)
  next
    case (EvClose r now)
    with \<open>stopped_since kt i\<close> \<open>\<not> may_reopen kt e\<close> show ?thesis
      by (auto simp: kt stopped_since_def close_session_def Let_def)
  qed (auto simp: kt stopped_since_def set_local_session_grace_def note_relay_state_def
      note_module_seen_def note_device_seen_def Let_def reset_latch_def tick_def)
qed

text \<open>After this coordinator stops a session at \<open>t\<close>, nothing that was already on its way can
  bring it back: however many syncs and wiring snapshots arrive, as long as each was asked for
  before the stop and arrives within the grace, and nobody opens a session, the resource stays
  out of use and the engine refuses to energize it.\<close>

lemma stale_sync_does_not_reopen:
  assumes "k = tool_key i r" and "g = local_session_grace i"
    and "\<forall>e \<in> set es. \<not> may_reopen (k, t, g) e"
    and "j = run_events engine_step es (close_session i r t)"
  shows "\<not> in_use j k now \<and>
         (\<forall>tool w. wiring_of j tool = Some w \<and> tmt_tool_id w = k \<longrightarrow> evaluate j tool now mt \<noteq> LAllow)"
proof -
  have "stopped_since (k, t, g) (close_session i r t)"
    using assms(1,2) by (simp add: stopped_since_def close_session_def Let_def)
  then have "stopped_since (k, t, g) j"
    unfolding assms(4) using assms(3) by (rule stop.run_guarded)
  then have "\<not> in_use j k now" by (simp add: stopped_since_def in_use_def)
  then show ?thesis by (auto simp: evaluate_Some evaluate_wiring_allow energizable_alt)
qed

section \<open>What a watchdog pass grants\<close>

lemma evaluate_core: "same_core i j \<Longrightarrow> evaluate j tool now mt = evaluate i tool now mt"
proof -
  assume core: "same_core i j"
  have sat: "satisfied j key r now = satisfied i key r now" for key r
    using core by (simp add: satisfied_def same_core_def)
  have chk: "check_interlocks j key now rs = check_interlocks i key now rs" for key rs
    by (induction rs) (simp_all add: sat split: option.splits bool.splits)
  have "silent_fail_off j now mt = silent_fail_off i now mt"
    using core by (simp add: silent_fail_off_def same_core_def fun_eq_iff)
  with core chk have "evaluate_wiring j w now mt = evaluate_wiring i w now mt" for w
    by (simp add: evaluate_wiring_def offline_fail_off_def in_use_def same_core_def Let_def
        cong: option.case_cong)
  with core show ?thesis
    by (simp add: evaluate_def same_core_def cong: option.case_cong)
qed

lemma wiring_of_snapshot: "snapshot j = snapshot i \<Longrightarrow> wiring_of j tool = wiring_of i tool"
  by (simp add: wiring_of_def)

lemma energizable_renew_other:
  assumes "tool_key i t' \<noteq> tmt_tool_id w"
  shows "energizable (snd (renew i t' now ttl mt)) w now mt = energizable i w now mt"
proof -
  let ?j = "snd (renew i t' now ttl mt)"
  have r: "readings ?j = readings i" "module_seen ?j = module_seen i"
    by (simp_all add: renew_def Let_def split: lease_decision.splits denial.splits)
  have "latched ?j (tmt_tool_id w) = latched i (tmt_tool_id w)"
    using assms by (simp add: renew_latched split: lease_decision.splits denial.splits)
  with r show ?thesis
    by (simp add: energizable_alt satisfied_def silent_fail_off_def in_use_def)
qed

text \<open>A pass over one tool does not change whether another wired tool may be energized.\<close>

lemma tick_tool_keeps_decisions:
  assumes "t \<in> set (wired_tools i)" "t' \<in> set (wired_tools i)" "t' \<noteq> t"
  shows "evaluate (snd (tick_tool now ttl mt t' i)) t now mt = LAllow \<longleftrightarrow>
         evaluate i t now mt = LAllow"
proof -
  obtain w w' where w: "wiring_of i t = Some w" "tmt_tool_id w = t"
    and w': "wiring_of i t' = Some w'" "tmt_tool_id w' = t'"
    using wired_tool_resolves assms(1,2) by blast
  let ?j = "snd (renew i t' now ttl mt)"
  have "wiring_of ?j t = Some w" using w(1) by (simp add: wiring_of_snapshot [of ?j i])
  moreover have "tool_key i t' \<noteq> tmt_tool_id w" using w w' assms(3) by (simp add: tool_key_def)
  ultimately have "evaluate ?j t now mt = LAllow \<longleftrightarrow> evaluate i t now mt = LAllow"
    using w(1) by (simp add: evaluate_Some evaluate_wiring_allow energizable_renew_other)
  then show ?thesis by (simp add: evaluate_core [OF tick_tool_core])
qed

text \<open>Where the granted leases of one pass come from.\<close>

lemma confirm_all_Some:
  "confirm_all i since base es = Some m \<Longrightarrow>
     base \<le> m \<and> (\<forall>e \<in> set es. \<exists>at. confirmed_on_at i e since = Some at \<and> at \<le> m)"
  by (induction es arbitrary: base) (fastforce split: option.splits)+

lemma stage_base_Some:
  assumes "stage_base i pws allowed b = Some base" "e \<in> set pws" "db_start_stage e < db_start_stage b"
  shows "\<exists>at. confirmed_on_at i e allowed = Some at \<and> at \<le> base"
proof -
  have "first_stage pws \<le> db_start_stage e"
    using assms(2) by (cases pws) (auto simp: first_stage_def)
  with assms(3) have "\<not> db_start_stage b \<le> first_stage pws" by simp
  with assms show ?thesis
    by (auto simp: stage_base_def dest: confirm_all_Some)
qed

lemma stage_base_ge: "stage_base i pws allowed b = Some base \<Longrightarrow> allowed \<le> base"
  by (auto simp: stage_base_def dest: confirm_all_Some split: if_splits)

lemma confirm_all_core: "relay_state j = relay_state i \<Longrightarrow> confirm_all j s b es = confirm_all i s b es"
  by (induction es arbitrary: b) (auto simp: confirmed_on_at_def split: option.splits)

lemma stage_base_core: "relay_state j = relay_state i \<Longrightarrow> stage_base j pws a b = stage_base i pws a b"
  by (simp add: stage_base_def confirm_all_core [of j i])

lemma grant_power_in:
  "a \<in> set (fst (grant_power now tool ttl_ms allowed pws bs i)) \<Longrightarrow>
     la_tool_id a = tool \<and> (\<exists>b \<in> set bs. la_device_id a = db_device_id b \<and>
       (\<exists>base. stage_base i pws allowed b = Some base \<and>
               base + milliseconds (max (db_start_delay_ms b) 0) \<le> now))"
proof (induction bs arbitrary: i)
  case Nil
  then show ?case by simp
next
  case (Cons b bs)
  let ?i1 = "i\<lparr>granted_since := (granted_since i)(db_id b \<mapsto> unwrap_or (granted_since i (db_id b)) now)\<rparr>"
  have "stage_base ?i1 pws allowed c = stage_base i pws allowed c" for c
    by (rule stage_base_core) simp
  then show ?case
    using Cons.IH [of ?i1] Cons.IH [of i] Cons.prems
    by (auto simp: Let_def split_beta make_lease_def split: option.splits if_splits)
qed

lemma refuse_power_granted:
  "a \<in> set (fst (refuse_power now tool ttl_ms d bs i)) \<Longrightarrow>
     la_tool_id a = tool \<and> (la_grant a \<longrightarrow>
       (\<exists>b \<in> set bs. la_device_id a = db_device_id b \<and>
          is_some_and (run_on_until i (db_id b)) (\<lambda>u. now < u)))"
proof (induction bs arbitrary: i)
  case Nil
  then show ?case by simp
next
  case (Cons b bs)
  let ?i1 = "i\<lparr>run_on_until := map_remove (db_id b) (run_on_until i),
               granted_since := map_remove (db_id b) (granted_since i)\<rparr>"
  show ?case
    using Cons.IH [of ?i1] Cons.IH [of i] Cons.prems
    by (auto simp: Let_def split_beta make_lease_def is_some_and_iff split: if_splits)
qed

lemma start_run_on_Some:
  "run_on_until (start_run_on now bs i) x = Some u \<Longrightarrow>
     run_on_until i x = Some u \<or>
     (granted_since i x \<noteq> None \<and> (\<exists>b \<in> set bs. db_id b = x \<and> 0 < db_run_on_ms b \<and>
        u = now + milliseconds (db_run_on_ms b)))"
proof (induction bs arbitrary: i)
  case Nil
  then show ?case by simp
next
  case (Cons b bs)
  let ?i1 = "if 0 < db_run_on_ms b \<and> granted_since i (db_id b) \<noteq> None
      then i\<lparr>run_on_until := (run_on_until i)(db_id b \<mapsto> now + milliseconds (db_run_on_ms b))\<rparr> else i"
  from Cons.prems have "run_on_until (start_run_on now bs ?i1) x = Some u" by simp
  from Cons.IH [OF this] show ?case by (auto split: if_splits)
qed

text \<open>A binding may keep its grant after a refusal only for its run-on: one already running, or one
  that starts with this refusal because the binding had been granted.\<close>

definition run_on_due :: "inner \<Rightarrow> tool_module_tool \<Rightarrow> instant \<Rightarrow> device_binding \<Rightarrow> bool" where
  "run_on_due i w now b \<longleftrightarrow>
     is_some_and (run_on_until i (db_id b)) (\<lambda>u. now < u) \<or>
     (allowed_since i (tmt_tool_id w) \<noteq> None \<and> granted_since i (db_id b) \<noteq> None \<and>
      (\<exists>b' \<in> set (power_bindings w). db_id b' = db_id b \<and> 0 < db_run_on_ms b'))"

lemma renew_seq_frames [simp]:
  "allowed_since (snd (renew i tool now ttl mt)) = allowed_since i"
  "granted_since (snd (renew i tool now ttl mt)) = granted_since i"
  "run_on_until (snd (renew i tool now ttl mt)) = run_on_until i"
  "relay_state (snd (renew i tool now ttl mt)) = relay_state i"
  by (simp_all add: renew_def Let_def split: lease_decision.splits denial.splits)

lemma tick_deny_granted:
  assumes "a \<in> set (fst (tick_deny now tool ttl_ms d w i))"
  shows "la_tool_id a = tool \<and> (la_grant a \<longrightarrow>
    (\<exists>b \<in> set (power_bindings w). la_device_id a = db_device_id b \<and> run_on_due i w now b))"
proof -
  let ?i0 = "i\<lparr>allowed_since := map_remove (tmt_tool_id w) (allowed_since i)\<rparr>"
  let ?i1 = "if allowed_since i (tmt_tool_id w) \<noteq> None
             then start_run_on now (power_bindings w) ?i0 else i"
  have due: "run_on_due i w now b" if "is_some_and (run_on_until ?i1 (db_id b)) (\<lambda>u. now < u)" for b
    using that by (auto simp: run_on_due_def is_some_and_iff dest!: start_run_on_Some split: if_splits)
  consider "a \<in> set (fst (refuse_power now tool ttl_ms d (power_bindings w) ?i1))"
    | b where "b \<in> set (sensor_bindings w)" "a = make_lease tool ttl_ms (db_device_id b) False (Some d)"
    using assms by (auto simp: tick_deny_def Let_def split_beta)
  then show ?thesis
  proof cases
    case 1
    from refuse_power_granted [OF this] due show ?thesis by blast
  qed (simp add: make_lease_def)
qed

definition staged_ok :: "inner \<Rightarrow> device_binding list \<Rightarrow> instant \<Rightarrow> instant \<Rightarrow> device_binding \<Rightarrow> bool" where
  "staged_ok i pws allowed now b \<longleftrightarrow>
     allowed + milliseconds (max (db_start_delay_ms b) 0) \<le> now \<and>
     (\<forall>e \<in> set pws. db_start_stage e < db_start_stage b \<longrightarrow>
        (\<exists>at. relay_state i (db_device_id e) = Some (True, at) \<and> allowed \<le> at \<and>
              at + milliseconds (max (db_start_delay_ms b) 0) \<le> now))"

lemma confirmed_on_at_Some:
  "confirmed_on_at i e since = Some at \<longleftrightarrow>
     relay_state i (db_device_id e) = Some (True, at) \<and> since \<le> at"
  by (auto simp: confirmed_on_at_def split: option.splits bool.splits)

lemma tick_allow_in:
  assumes "a \<in> set (fst (tick_allow now tool ttl_ms w i))"
  shows "la_tool_id a = tool \<and>
    ((\<exists>b \<in> set (sensor_bindings w). la_device_id a = db_device_id b) \<or>
     (\<exists>b \<in> set (power_bindings w). la_device_id a = db_device_id b \<and>
        staged_ok i (power_bindings w) (unwrap_or (allowed_since i (tmt_tool_id w)) now) now b))"
proof -
  let ?pws = "power_bindings w"
  let ?al = "unwrap_or (allowed_since i (tmt_tool_id w)) now"
  let ?i2 = "clear_run_on ?pws (i\<lparr>allowed_since := (allowed_since i)(tmt_tool_id w \<mapsto> ?al)\<rparr>)"
  have relay: "relay_state ?i2 = relay_state i" by (simp add: core_frames)
  have ok: "staged_ok i ?pws ?al now b"
    if base: "stage_base ?i2 ?pws ?al b = Some base" "base + milliseconds (max (db_start_delay_ms b) 0) \<le> now"
    for b base
    unfolding staged_ok_def
  proof (intro conjI ballI impI)
    show "?al + milliseconds (max (db_start_delay_ms b) 0) \<le> now"
      using stage_base_ge [OF base(1)] base(2) by simp
  next
    fix e assume "e \<in> set ?pws" "db_start_stage e < db_start_stage b"
    from stage_base_Some [OF base(1) this] obtain at
      where "confirmed_on_at ?i2 e ?al = Some at" "at \<le> base" by blast
    with base(2) relay show "\<exists>at. relay_state i (db_device_id e) = Some (True, at) \<and> ?al \<le> at \<and>
        at + milliseconds (max (db_start_delay_ms b) 0) \<le> now"
      by (auto simp: confirmed_on_at_Some)
  qed
  consider "a \<in> set (fst (grant_power now tool ttl_ms ?al ?pws ?pws ?i2))"
    | b where "b \<in> set (sensor_bindings w)" "a = make_lease tool ttl_ms (db_device_id b) True None"
    using assms by (auto simp: tick_allow_def Let_def split_beta)
  then show ?thesis
  proof cases
    case 1
    from grant_power_in [OF this] ok show ?thesis by blast
  qed (auto simp: make_lease_def)
qed

text \<open>Start sequencing: when a pass over an allowed tool grants a power binding, the binding's
  start delay has passed since the allow, and every power binding of a lower start stage has
  reported its relay closed since the allow, at least that delay ago. Sensors are granted with no
  such condition.\<close>

lemma tick_tool_respects_stages:
  assumes "wiring_of i tool = Some w" and "evaluate i tool now mt = LAllow"
    and "a \<in> set (fst (tick_tool now ttl mt tool i))"
  shows "(\<exists>b \<in> set (sensor_bindings w). la_device_id a = db_device_id b) \<or>
         (\<exists>b \<in> set (power_bindings w). la_device_id a = db_device_id b \<and>
            staged_ok i (power_bindings w) (unwrap_or (allowed_since i (tmt_tool_id w)) now) now b)"
proof -
  let ?j = "snd (renew i tool now ttl mt)"
  have "wiring_of ?j tool = Some w" using assms(1) by (simp add: wiring_of_snapshot [of ?j i])
  moreover have "fst (renew i tool now ttl mt) = LAllow" using assms(2) by (simp add: renew_def Let_def)
  ultimately have "a \<in> set (fst (tick_allow now tool (max (num_milliseconds ttl) 0) w ?j))"
    using assms(3) by (simp add: tick_tool_def Let_def split_beta)
  from tick_allow_in [OF this] show ?thesis by (auto simp: staged_ok_def)
qed

lemma tick_tool_in:
  assumes "wiring_of i tool = Some w" and "a \<in> set (fst (tick_tool now ttl mt tool i))"
  shows "la_tool_id a = tool \<and>
    (la_grant a \<longrightarrow> evaluate i tool now mt = LAllow \<or>
       (\<exists>b \<in> set (power_bindings w). la_device_id a = db_device_id b \<and> run_on_due i w now b))"
proof -
  let ?j = "snd (renew i tool now ttl mt)"
  have w: "wiring_of ?j tool = Some w" using assms(1) by (simp add: wiring_of_snapshot [of ?j i])
  have d: "fst (renew i tool now ttl mt) = evaluate i tool now mt" by (simp add: renew_def Let_def)
  show ?thesis
  proof (cases "evaluate i tool now mt")
    case LAllow
    then show ?thesis
      using assms(2) w d tick_allow_in [of a now tool "max (num_milliseconds ttl) 0" w ?j]
      by (simp add: tick_tool_def Let_def split_beta)
  next
    case (LDeny den)
    then have "a \<in> set (fst (tick_deny now tool (max (num_milliseconds ttl) 0) den w ?j))"
      using assms(2) w d by (simp add: tick_tool_def Let_def split_beta)
    from tick_deny_granted [OF this] show ?thesis by (simp add: run_on_due_def)
  qed
qed

text \<open>The bookkeeping of one tool's pass stays within that tool's bindings.\<close>

lemma clear_run_on_other: "x \<notin> db_id ` set bs \<Longrightarrow> run_on_until (clear_run_on bs i) x = run_on_until i x"
  by (induction bs arbitrary: i) auto

lemma start_run_on_other: "x \<notin> db_id ` set bs \<Longrightarrow> run_on_until (start_run_on now bs i) x = run_on_until i x"
  by (induction bs arbitrary: i) auto

lemma grant_power_other:
  "x \<notin> db_id ` set bs \<Longrightarrow>
     granted_since (snd (grant_power now tool ttl_ms allowed pws bs i)) x = granted_since i x"
  by (induction bs arbitrary: i) (auto simp: Let_def split_beta split: option.splits)

lemma refuse_power_other:
  "x \<notin> db_id ` set bs \<Longrightarrow>
     granted_since (snd (refuse_power now tool ttl_ms d bs i)) x = granted_since i x \<and>
     run_on_until (snd (refuse_power now tool ttl_ms d bs i)) x = run_on_until i x"
  by (induction bs arbitrary: i) (auto simp: Let_def split_beta)

lemma tick_tool_other:
  assumes "wiring_of i tool = Some w" "k \<noteq> tmt_tool_id w" "x \<notin> db_id ` set (power_bindings w)"
  shows "allowed_since (snd (tick_tool now ttl mt tool i)) k = allowed_since i k \<and>
         granted_since (snd (tick_tool now ttl mt tool i)) x = granted_since i x \<and>
         run_on_until (snd (tick_tool now ttl mt tool i)) x = run_on_until i x"
proof -
  let ?j = "snd (renew i tool now ttl mt)"
  have w: "wiring_of ?j tool = Some w" using assms(1) by (simp add: wiring_of_snapshot [of ?j i])
  show ?thesis
    using assms(2,3) w
    by (auto simp: tick_tool_def Let_def split_beta tick_allow_def tick_deny_def
          clear_run_on_other start_run_on_other grant_power_other refuse_power_other
        split: lease_decision.splits)
qed

definition wiring_ok :: "inner \<Rightarrow> bool" where
  "wiring_ok i \<longleftrightarrow>
     (case snapshot i of
        None \<Rightarrow> True
      | Some s \<Rightarrow> distinct (map tmt_tool_id (tms_tools s)) \<and>
          (\<forall>w \<in> set (tms_tools s). \<forall>w' \<in> set (tms_tools s). tmt_tool_id w \<noteq> tmt_tool_id w' \<longrightarrow>
             db_id ` set (tmt_modules w) \<inter> db_id ` set (tmt_modules w') = {}))"

lemma power_bindings_subset: "set (power_bindings w) \<subseteq> set (tmt_modules w)"
  by (auto simp: power_bindings_def)

lemma tick_tools_in:
  assumes "wiring_ok i" "set ts \<subseteq> set (wired_tools i)" "distinct ts"
    and "a \<in> set (fst (tick_tools now ttl mt ts i))" "la_grant a"
  shows "\<exists>w. la_tool_id a \<in> set ts \<and> wiring_of i (la_tool_id a) = Some w \<and>
     (evaluate i (la_tool_id a) now mt = LAllow \<or>
      (\<exists>b \<in> set (power_bindings w). la_device_id a = db_device_id b \<and> run_on_due i w now b))"
  using assms
proof (induction ts arbitrary: i)
  case Nil
  then show ?case by simp
next
  case (Cons t ts)
  let ?j = "snd (tick_tool now ttl mt t i)"
  obtain w0 where w0: "wiring_of i t = Some w0" "tmt_tool_id w0 = t"
    using wired_tool_resolves Cons.prems(2) by force
  have snap: "snapshot ?j = snapshot i" by simp
  consider "a \<in> set (fst (tick_tool now ttl mt t i))" | "a \<in> set (fst (tick_tools now ttl mt ts ?j))"
    using Cons.prems(4) by (auto simp: Let_def split_beta)
  then show ?case
  proof cases
    case 1
    from tick_tool_in [OF w0(1) 1] w0 Cons.prems(5) show ?thesis by auto
  next
    case 2
    have "wiring_ok ?j" "set ts \<subseteq> set (wired_tools ?j)"
      using Cons.prems(1,2) snap by (simp_all add: wiring_ok_def wired_tools_def)
    from Cons.IH [OF this _ 2 Cons.prems(5)] Cons.prems(3) obtain w where
      tool: "la_tool_id a \<in> set ts" and w: "wiring_of ?j (la_tool_id a) = Some w" and
      or: "evaluate ?j (la_tool_id a) now mt = LAllow \<or>
        (\<exists>b \<in> set (power_bindings w). la_device_id a = db_device_id b \<and> run_on_due ?j w now b)"
      by auto
    from tool Cons.prems(3) have ne: "t \<noteq> la_tool_id a" by auto
    have wired: "la_tool_id a \<in> set (wired_tools i)" "t \<in> set (wired_tools i)"
      using tool Cons.prems(2) by auto
    have wi: "wiring_of i (la_tool_id a) = Some w" using w wiring_of_snapshot [OF snap] by simp
    with wired_tool_resolves [OF wired(1)] have idw: "tmt_tool_id w = la_tool_id a" by auto
    have mem: "w \<in> set (tms_tools s) \<and> w0 \<in> set (tms_tools s)" if "snapshot i = Some s" for s
      using wi w0(1) that by (auto simp: wiring_of_def dest: lm_resolve_in)
    have disj: "db_id b \<notin> db_id ` set (power_bindings w0)" if "b \<in> set (power_bindings w)" for b
    proof -
      have "db_id ` set (tmt_modules w) \<inter> db_id ` set (tmt_modules w0) = {}"
        using Cons.prems(1) mem wi idw w0(2) ne
        by (auto simp: wiring_ok_def wiring_of_def split: option.splits)
      with that show ?thesis using power_bindings_subset by blast
    qed
    have due: "run_on_due i w now b" if "run_on_due ?j w now b" "b \<in> set (power_bindings w)" for b
      using that tick_tool_other [OF w0(1), of "tmt_tool_id w" "db_id b"] disj [OF that(2)] idw w0(2) ne
      by (simp add: run_on_due_def)
    have "evaluate ?j (la_tool_id a) now mt = LAllow \<longleftrightarrow> evaluate i (la_tool_id a) now mt = LAllow"
      using tick_tool_keeps_decisions [OF wired ne] .
    with or due tool wi show ?thesis by auto
  qed
qed

text \<open>C8. Soundness of a whole watchdog pass over any set of tools: a granted lease is addressed to
  a tool the engine allows at that instant, or it is the run-on of a power binding of that tool
  that had been granted before the refusal. A sensor, and a binding without a run-on, is never
  granted while its tool is refused. (Tool ids are unique in a snapshot and a binding belongs to
  one tool: they are primary keys of the server's tables.)\<close>

theorem tick_grants_are_sound:
  assumes "wiring_ok i"
    and "a \<in> set (fst (tick now ttl mt i))" and "la_grant a"
  shows "\<exists>w. wiring_of i (la_tool_id a) = Some w \<and>
     (evaluate i (la_tool_id a) now mt = LAllow \<or>
      (\<exists>b \<in> set (power_bindings w). la_device_id a = db_device_id b \<and> run_on_due i w now b))"
proof -
  have "distinct (wired_tools i)"
    using assms(1) by (auto simp: wiring_ok_def wired_tools_def split: option.splits)
  then show ?thesis
    using tick_tools_in [OF assms(1) subset_refl] assms(2,3) by (auto simp: tick_def)
qed

section \<open>Two ways a hazard is not seen\<close>

text \<open>The debounce of a condition that has never been observed runs the wrong way round: when
  the first report a hazard ever gets says that the hazard is present, then until the debounce
  has passed the rule counts as satisfied, although nothing has ever said the hazard was absent.\<close>

lemma first_hazard_report_reads_as_safe:
  assumes "readings i (tool, ir_condition rule) = None" and "is_hazard (ir_condition rule)"
    and "t \<le> now" and "now < t + milliseconds (ir_debounce_ms rule)"
  shows "satisfied i tool rule now = None \<and>
         satisfied (observe i tool (ir_condition rule) True t) tool rule now = Some True"
proof -
  have "0 < milliseconds (ir_debounce_ms rule)" using assms(3,4) by linarith
  then have "max (ir_debounce_ms rule) 0 = ir_debounce_ms rule" by (simp add: milliseconds_def)
  with assms show ?thesis by (simp add: satisfied_def observe_def Let_def)
qed

lemma check_interlocks_failing_gate:
  "satisfied i key g now = Some False \<Longrightarrow> ir_kind g \<noteq> ''trip'' \<Longrightarrow>
     check_interlocks i key now (g # rs) = Some (Gate (ir_condition g))"
  by simp

text \<open>A failing start gate hides a firing trip: the engine stops at the first rule that does not
  hold, so while a gate listed earlier is not satisfied a latching trip that is firing at the same
  time is not latched, and clearing both conditions lets the tool resume.\<close>

lemma failing_gate_masks_latching_trip:
  assumes "wiring_of i tool = Some w" and "tmt_interlocks w = g # rs"
    and "ir_kind g \<noteq> ''trip''" and "satisfied i (tmt_tool_id w) g now = Some False"
    and "r \<in> set rs" and "ir_kind r = ''trip''" and "ir_latch r"
    and "satisfied i (tmt_tool_id w) r now = Some False"
    and "\<not> is_latched i (tmt_tool_id w)"
  shows "\<not> is_latched (snd (renew i tool now ttl mt)) (tmt_tool_id w)"
proof -
  have gate: "check_interlocks i (tmt_tool_id w) now (tmt_interlocks w) = Some (Gate (ir_condition g))"
    using assms(2,3,4) by simp
  have "evaluate_wiring i w now mt \<in> {LDeny (Gate (ir_condition g))} \<union> range (\<lambda>n. LDeny (ModuleOffline n))"
    using assms(9) gate unfolding evaluate_wiring_def Let_def is_latched_def
    by (auto split: option.splits)
  then have "latched (snd (renew i tool now ttl mt)) = latched i"
    using assms(1) by (auto simp: renew_latched evaluate_Some)
  with assms(9) show ?thesis by (simp add: is_latched_def)
qed

section \<open>The session contract\<close>

text \<open>
  What a client of the engine may rely on about sessions: \<open>key\<close> is the name a session is kept
  under, \<open>forced\<close> that the server's own view has the resource in use. A session opened with an end
  is in use up to that end and not a moment longer; one opened without lasts until it is closed.
\<close>

locale session_wiring =
  fixes opn :: "'s \<Rightarrow> string \<Rightarrow> instant \<Rightarrow> instant option \<Rightarrow> 's"
    and cls :: "'s \<Rightarrow> string \<Rightarrow> instant \<Rightarrow> 's"
    and key :: "'s \<Rightarrow> string \<Rightarrow> string"
    and used :: "'s \<Rightarrow> string \<Rightarrow> instant \<Rightarrow> bool"
    and forced :: "'s \<Rightarrow> string \<Rightarrow> bool"
  assumes used_open: "used (opn s n now e) (key s n) t \<longleftrightarrow> forced s (key s n) \<or> is_none_or e (\<lambda>x. t < x)"
    and used_open_other: "k \<noteq> key s n \<Longrightarrow> used (opn s n now e) k t = used s k t"
    and used_close: "\<not> used (cls s n now) (key s n) t"
    and used_close_other: "k \<noteq> key s n \<Longrightarrow> used (cls s n now) k t = used s k t"
    and key_open: "key (opn s n now e) m = key s m"
    and key_close: "key (cls s n now) m = key s m"
    and forced_close: "\<not> forced (cls s n now) (key s n)"
begin

lemma open_close: "\<not> used (cls (opn s n now e) n now') (key s n) t"
  using used_close [of "opn s n now e" n now' t] by (simp add: key_open)

lemma close_open: "used (opn (cls s n now) n now' e) (key s n) t \<longleftrightarrow> is_none_or e (\<lambda>x. t < x)"
  using used_open [of "cls s n now" n now' e t] forced_close [of s n now] by (simp add: key_close)

lemma bounded_session_ends:
  "\<not> forced s (key s n) \<Longrightarrow> used (opn s n now (Some e)) (key s n) t \<longleftrightarrow> t < e"
  by (simp add: used_open)

end

interpretation ls: session_wiring open_session close_session tool_key in_use "\<lambda>i k. k \<in> synced_in_use i"
  by unfold_locales
     (auto simp: open_session_def close_session_def in_use_def tool_key_def wiring_of_def Let_def)

section \<open>Witnesses\<close>

definition demo_binding :: "string \<Rightarrow> string \<Rightarrow> int \<Rightarrow> int \<Rightarrow> device_binding" where
  "demo_binding name role stage run_on =
     \<lparr>db_id = name, db_device_id = name, db_role = role, db_name = name, db_params = JNull,
      db_on_disconnect = ''ignore'', db_start_stage = stage, db_start_delay_ms = 0,
      db_run_on_ms = run_on, db_pulse_ms = 0, db_hold_open_access = True\<rparr>"

definition demo_rule :: "string \<Rightarrow> string \<Rightarrow> tool_interlock_rule" where
  "demo_rule kind condition =
     \<lparr>ir_id = condition, ir_kind = kind, ir_condition = condition, ir_source_module_id = None,
      ir_debounce_ms = 100, ir_latch = True, ir_reset = ''re_auth'', ir_enforcement = ''edge''\<rparr>"

definition demo_tool :: tool_module_tool where
  "demo_tool = \<lparr>tmt_tool_id = ''laser'', tmt_external_id = Some ''L1'', tmt_kind = ''tool'',
     tmt_session_profile = [], tmt_in_use = False,
     tmt_modules = [demo_binding ''fan'' ''power'' 0 5000, demo_binding ''tube'' ''power'' 1 0],
     tmt_interlocks = [demo_rule ''start_gate'' ''flow_ok'', demo_rule ''trip'' ''lid_open''],
     tmt_power_fails_safe = True\<rparr>"

definition demo_inner :: inner where
  "demo_inner = new_inner\<lparr>snapshot := Some \<lparr>tms_as_of = [], tms_tools = [demo_tool]\<rparr>\<rparr>"

text \<open>The laser with a member signed on, its coolant flowing and its lid closed since long ago.\<close>

definition demo_ready :: inner where
  "demo_ready = demo_inner\<lparr>
     readings := [(''laser'', ''flow_ok'') \<mapsto> \<lparr>r_asserted = True, r_since = 0\<rparr>,
                  (''laser'', ''lid_open'') \<mapsto> \<lparr>r_asserted = False, r_since = 0\<rparr>],
     local_sessions := [''laser'' \<mapsto> \<lparr>s_opened = 0, s_ends_at = None\<rparr>]\<rparr>"

lemmas demo_defs = demo_binding_def demo_rule_def demo_tool_def demo_inner_def demo_ready_def
  new_inner_def

lemma demo_wiring [simp]:
  "snapshot demo_inner = Some \<lparr>tms_as_of = [], tms_tools = [demo_tool]\<rparr>"
  "snapshot demo_ready = Some \<lparr>tms_as_of = [], tms_tools = [demo_tool]\<rparr>"
  "tmt_tool_id demo_tool = ''laser''"
  "lm_resolve \<lparr>tms_as_of = [], tms_tools = [demo_tool]\<rparr> ''laser'' = Some demo_tool"
  by (simp_all add: demo_inner_def demo_ready_def demo_tool_def lm_resolve_def)

lemma demo_wiring_of [simp]:
  "snapshot i = Some \<lparr>tms_as_of = [], tms_tools = [demo_tool]\<rparr> \<Longrightarrow> wiring_of i ''laser'' = Some demo_tool"
  "snapshot i = Some \<lparr>tms_as_of = [], tms_tools = [demo_tool]\<rparr> \<Longrightarrow> tool_key i ''laser'' = ''laser''"
  by (simp_all add: wiring_of_def tool_key_def)

lemma demo_power: "power_bindings demo_tool = [demo_binding ''fan'' ''power'' 0 5000, demo_binding ''tube'' ''power'' 1 0]"
  by (simp add: power_bindings_def demo_tool_def demo_binding_def)

lemma demo_sensors: "sensor_bindings demo_tool = []" "allowed_since demo_ready = Map.empty"
  by (simp_all add: sensor_bindings_def demo_defs)

lemma demo_allowed: "evaluate demo_ready ''laser'' 1000000000 0 = LAllow"
  by (simp add: evaluate_Some evaluate_wiring_allow energizable_alt satisfied_def silent_fail_off_def
      in_use_def demo_defs Let_def is_hazard_def milliseconds_def)

theorem latch_survives_until_reset_witness:
  "\<exists>c. evaluate (run_events engine_step [EvObserve ''laser'' ''lid_open'' False 5, EvResetLatch ''mill'']
         (demo_inner\<lparr>latched := [''laser'' \<mapsto> ''lid_open'']\<rparr>)) ''laser'' 9 0 = LDeny (Latched c)"
  using latch_survives_until_reset [of "demo_inner\<lparr>latched := [''laser'' \<mapsto> ''lid_open'']\<rparr>" "''laser''"
      "[EvObserve ''laser'' ''lid_open'' False 5, EvResetLatch ''mill'']" "''laser''" demo_tool 9 0]
  by (simp add: is_latched_def reset_latch_def)

theorem leases_lapse_witness:
  "\<not> lease_valid (run_events engine_step [EvOpen ''laser'' 0 None, EvRenew ''laser'' 1 4 2] new_inner) ''laser'' 5"
  using leases_lapse [of "[EvOpen ''laser'' 0 None, EvRenew ''laser'' 1 4 2]" 5 5 "''laser''"] by simp

theorem tick_grants_are_sound_witness:
  "\<exists>a \<in> set (fst (tick 1000000000 5 0 demo_ready)). la_grant a \<and>
     evaluate demo_ready (la_tool_id a) 1000000000 0 = LAllow"
proof -
  let ?a = "make_lease ''laser'' 0 ''fan'' True None"
  have in_acts: "?a \<in> set (fst (tick 1000000000 5 0 demo_ready))"
    by (simp add: tick_def wired_tools_def tick_tool_def Let_def split_beta renew_def demo_allowed
        tick_allow_def demo_power stage_base_def first_stage_def demo_binding_def milliseconds_def
        num_milliseconds_def)
       (simp add: demo_defs)
  have "wiring_ok demo_ready" by (simp add: wiring_ok_def)
  from tick_grants_are_sound [OF this in_acts] in_acts show ?thesis
    by (intro bexI [of _ ?a]) (auto simp: make_lease_def demo_allowed)
qed

end
