(* ===== verification/Resource_Safety.thy ===== *)
theory Resource_Safety
  imports Resources Lease_Safety
begin

text \<open>
  What makes the resource cache correct: the exact condition under which a badge is let in, that a
  payload older than the one applied changes nothing, that the two alias payloads are decided as
  the one policy that carries the same content, that the allow-list mirror agrees with the cache,
  and the timing of momentary sessions and Open Access holds. The contract the cache needs of the
  lease engine's sessions is the locale \<open>session_wiring\<close>.
\<close>

section \<open>Decisions\<close>

definition token_of :: "resource_cache \<Rightarrow> string \<Rightarrow> string" where
  "token_of c code = unwrap_or (wire_digest_hex (allow_list c) code) []"

definition strike_of :: "text_ops \<Rightarrow> resource_cache \<Rightarrow> string \<Rightarrow> int option" where
  "strike_of x c n = Option.bind (resolve x c n) rv_pulse_ms"

text \<open>What the principal the card digests to may do at an entry.\<close>

definition member_admits :: "member list \<Rightarrow> entry \<Rightarrow> string \<Rightarrow> bool" where
  "member_admits ms e token \<longleftrightarrow>
     (\<exists>m. find (\<lambda>m. m_digest m = token) ms = Some m \<and> m_is_active m \<and>
          e_id e \<in> set (m_authorized m) \<and> e_status e \<in> {[], ''idle''})"

definition admits :: "resource_cache \<Rightarrow> entry \<Rightarrow> string \<Rightarrow> instant \<Rightarrow> bool" where
  "admits c e token now \<longleftrightarrow>
     e_enabled e \<and> token \<notin> set (e_deny e) \<and>
     (is_some_and (e_hold_until e) (\<lambda>until. now < until) \<or> token \<in> set (e_allow e) \<or>
      (\<not> e_requires_online e \<and> member_admits (members (policy_of c)) e token))"

lemma decide_member_Allow:
  "decide_member w eo strike token = Allow s \<longleftrightarrow>
     s = strike \<and> (\<exists>e. eo = Some e \<and> member_admits (members w) e token)"
  by (auto simp: decide_member_def member_admits_def split: option.splits if_splits)

lemma decide_member_not_ask [simp]: "decide_member w eo strike token \<noteq> AskServer"
  by (auto simp: decide_member_def split: option.splits)

text \<open>
  A badge is let in exactly when the resource is not locked out by power, the policy names it,
  it is enabled, the card's digest is not on its deny list, and its Open Access window is live, or
  its allow list has the digest, or the coordinator may decide for itself and the principal the
  digest names is active and authorized and the resource is available. A deny rule and a disabled
  resource beat every way in, the hold included; the strike released is the resolved pulse.
\<close>

lemma decide_allow_iff:
  "decide x c n code now = Allow s \<longleftrightarrow>
     s = strike_of x c n \<and> \<not> is_locked (lockouts c) n \<and>
     (\<exists>e. policy_find x (policy_of c) n = Some e \<and> admits c e (token_of c code) now)"
  by (auto simp: decide_def strike_of_def resolve_def token_of_def admits_def decide_member_Allow
      Let_def split: option.splits)

lemma decide_allowD:
  "decide x c n code now = Allow s \<Longrightarrow>
     \<not> is_locked (lockouts c) n \<and>
     (\<exists>e. policy_find x (policy_of c) n = Some e \<and> admits c e (token_of c code) now)"
  by (auto simp: decide_def token_of_def admits_def decide_member_Allow Let_def
      split: option.splits if_splits)

text \<open>
  Without a card digester a coordinator admits nobody by card: given that no compiled list and
  no principal carries an empty digest, the only way in is a live Open Access hold.
\<close>

lemma no_digester_fails_closed:
  assumes "card_digester (allow_list c) = None"
    and "\<forall>m \<in> set (members (policy_of c)). m_digest m \<noteq> []"
    and "\<forall>e \<in> set (entries (policy_of c)). [] \<notin> set (e_allow e) \<and> is_none_or (e_hold_until e) (\<lambda>u. u \<le> now)"
  shows "decide x c n code now \<noteq> Allow s"
proof
  assume "decide x c n code now = Allow s"
  then obtain e where e: "policy_find x (policy_of c) n = Some e" "admits c e (token_of c code) now"
    using decide_allowD by blast
  have t: "token_of c code = []"
    using assms(1) by (simp add: token_of_def wire_digest_hex_def)
  have "e \<in> set (entries (policy_of c))"
    using e(1) by (auto simp: policy_find_def dest: find_SomeD)
  with assms(3) have "[] \<notin> set (e_allow e)" "is_none_or (e_hold_until e) (\<lambda>u. u \<le> now)" by auto
  moreover have "\<not> member_admits (members (policy_of c)) e []"
    using assms(2) by (auto simp: member_admits_def dest: find_SomeD)
  ultimately show False
    using e(2) t by (cases "e_hold_until e") (auto simp: admits_def)
qed

section \<open>Ingest\<close>

lemma ingest_resources_eq:
  "fst (ingest_resources x rs (es, ns)) = es @ List.map_filter (from_policy x) rs"
  by (induction rs arbitrary: es ns) (auto simp: List.map_filter_simps split: option.splits)

lemma policy_replace_simps [simp]:
  "entries (policy_replace x payload w) = List.map_filter (from_policy x) (rpp_resources payload)"
  "members (policy_replace x payload w) = map (from_principal x) (rpp_principals payload)"
  "applied_at (policy_replace x payload w) = applied_at w"
  using ingest_resources_eq [of x "rpp_resources payload" "[]" Map.empty]
  by (simp_all add: policy_replace_def split_beta)

lemma replace_kind_simps [simp]:
  "applied_at (replace_kind w k es) = applied_at w"
  "members (replace_kind w k es) = members w"
  "entries (replace_kind w k es) = filter (\<lambda>e. e_kind e \<noteq> k) (entries w) @ es"
  by (simp_all add: replace_kind_def)

lemma from_kinds [simp]: "e_kind (from_sync_tool t) = Tool" "e_kind (from_compiled_door d) = Door"
  by (simp_all add: from_sync_tool_def from_compiled_door_def)

datatype cache_event =
    CPolicy resource_policy_payload "instant option"
  | CSync sync_payload "instant option"
  | CDoors door_state_snapshot
  | COpen string instant
  | CClose string instant
  | CReconcile sync_payload instant "instant option"
  | CTick instant duration duration duration

fun cache_step :: "text_ops \<Rightarrow> cache_event \<Rightarrow> resource_cache \<Rightarrow> resource_cache" where
  "cache_step x (CPolicy p r) c = apply_policy x c p r"
| "cache_step x (CSync p r) c = apply_sync_alias c p r"
| "cache_step x (CDoors d) c = apply_doors_alias c d"
| "cache_step x (COpen n now) c = cache_open_session x c n now"
| "cache_step x (CClose n now) c = cache_close_session c n now"
| "cache_step x (CReconcile p now r) c = cache_reconcile x c p now r"
| "cache_step x (CTick now ttl mt hr) c = snd (cache_tick c now ttl mt hr)"

definition applied_since :: "instant \<Rightarrow> resource_cache \<Rightarrow> bool" where
  "applied_since t c \<longleftrightarrow> is_some_and (applied_at (policy_of c)) (\<lambda>a. t \<le> a)"

lemma session_ops_policy [simp]:
  "policy_of (cache_open_session x c n now) = policy_of c"
  "policy_of (cache_close_session c n now) = policy_of c"
  "policy_of (cache_reconcile x c p now r) = policy_of c"
  "policy_of (snd (cache_tick c now ttl mt hr)) = policy_of c"
  by (simp_all add: cache_open_session_def cache_close_session_def cache_reconcile_def cache_tick_def
      Let_def split_beta)

interpretation stamps: guarded_fact "cache_step x" applied_since "\<lambda>_ _. False" for x
proof
  fix t :: instant and c :: resource_cache and e :: cache_event
  assume "applied_since t c"
  then show "applied_since t (cache_step x e c)"
    by (cases e)
       (auto simp: applied_since_def apply_policy_def apply_sync_alias_def apply_doors_alias_def
          Let_def is_stale_def is_some_and_iff split: option.splits)
qed

text \<open>
  A replayed door-bearing payload cannot roll the policy back: once a snapshot stamped \<open>t\<close> has
  been applied, then after any further events an older snapshot or an older policy is dropped and
  the cache is exactly what it was.
\<close>

lemma older_payload_is_ignored:
  assumes "\<not> is_stale (policy_of c0) (dss_snapshot_at ss)"
    and "c = run_events (cache_step x) es (apply_doors_alias c0 ss)"
  shows "(dss_snapshot_at old < dss_snapshot_at ss \<longrightarrow> apply_doors_alias c old = c) \<and>
         (parse_rfc3339 x (rpp_as_of p) = Some s \<and> s < dss_snapshot_at ss \<longrightarrow>
            apply_policy x c p r = c)"
proof -
  have "applied_since (dss_snapshot_at ss) (apply_doors_alias c0 ss)"
    using assms(1) by (simp add: applied_since_def apply_doors_alias_def Let_def)
  then have "applied_since (dss_snapshot_at ss) c"
    using assms(2) stamps.run_guarded by blast
  then obtain a where "applied_at (policy_of c) = Some a" "dss_snapshot_at ss \<le> a"
    by (auto simp: applied_since_def is_some_and_iff)
  then show ?thesis
    by (auto simp: apply_doors_alias_def apply_policy_def is_stale_def Let_def)
qed

text \<open>
  The one policy carries the same content as a tool alias and a door alias: the same entries, the
  tools first, and the same principals.
\<close>

definition carries :: "text_ops \<Rightarrow> resource_policy_payload \<Rightarrow> sync_payload \<Rightarrow> door_state_snapshot \<Rightarrow> bool" where
  "carries x p s ss \<longleftrightarrow>
     List.map_filter (from_policy x) (rpp_resources p) =
       map from_sync_tool (sp_tools s) @ map from_compiled_door (dss_doors ss) \<and>
     map (from_principal x) (rpp_principals p) = map from_sync_user (sp_users s) \<and>
     parse_rfc3339 x (rpp_as_of p) = Some (dss_snapshot_at ss)"

lemma decide_cong:
  assumes "wiring c = wiring c'" "lockouts c = lockouts c'"
    and "\<And>code. wire_digest_hex (allow_list c) code = wire_digest_hex (allow_list c') code"
    and "policy_find x (policy_of c) n = policy_find x (policy_of c') n"
    and "members (policy_of c) = members (policy_of c')"
  shows "decide x c n code now = decide x c' n code now"
proof -
  have "decide_member (policy_of c) = decide_member (policy_of c')"
    using assms(5) by (intro ext) (simp add: decide_member_def)
  moreover have "resolved_from x (policy_of c) wo n = resolved_from x (policy_of c') wo n" for wo
    using assms(4) by (cases wo) (simp_all add: resolved_from_def)
  ultimately show ?thesis
    using assms(1-4)
    by (cases "policy_find x (policy_of c') n") (simp_all add: decide_def Let_def)
qed

lemma filter_other_kinds:
  "filter (\<lambda>e. e_kind e \<noteq> Tool \<and> e_kind e \<noteq> Door) es = []"
  "filter (\<lambda>e. e_kind e \<noteq> Door \<and> e_kind e \<noteq> Tool) es = []"
  by (auto simp: filter_empty_conv) (metis kind.exhaust)+

text \<open>
  A server that still sends the two aliases is decided exactly as one that sends the policy
  carrying their content, in either order of arrival, for every name that does not denote both a
  tool and a door.
\<close>

lemma aliases_decide_as_policy:
  assumes "carries x p s ss" "\<not> is_stale (policy_of c) (dss_snapshot_at ss)"
    and "\<not> ((\<exists>t \<in> set (sp_tools s). named x n (from_sync_tool t)) \<and>
            (\<exists>d \<in> set (dss_doors ss). named x n (from_compiled_door d)))"
  shows "decide x (apply_doors_alias (apply_sync_alias c s r) ss) n code now =
           decide x (apply_policy x c p r') n code now \<and>
         decide x (apply_sync_alias (apply_doors_alias c ss) s r) n code now =
           decide x (apply_policy x c p r') n code now"
proof
  let ?ts = "map from_sync_tool (sp_tools s)" and ?ds = "map from_compiled_door (dss_doors ss)"
  have swap: "find (named x n) (?ds @ ?ts) = find (named x n) (?ts @ ?ds)"
    using assms(3) by (intro find_append_swap) auto
  have ne: "\<not> is_stale (policy_of (apply_sync_alias c s r)) (dss_snapshot_at ss)"
    using assms(2) by (simp add: apply_sync_alias_def Let_def is_stale_def)
  have cp: "entries (policy_of (apply_policy x c p r')) = ?ts @ ?ds"
      "members (policy_of (apply_policy x c p r')) = map from_sync_user (sp_users s)"
      "wiring (apply_policy x c p r') = wiring c" "lockouts (apply_policy x c p r') = lockouts c"
      "\<And>code. wire_digest_hex (allow_list (apply_policy x c p r')) code = wire_digest_hex (allow_list c) code"
    using assms(1,2) by (auto simp: apply_policy_def carries_def Let_def)
  show "decide x (apply_doors_alias (apply_sync_alias c s r) ss) n code now =
          decide x (apply_policy x c p r') n code now"
    using assms(1) ne
    by (intro decide_cong)
       (auto simp: cp policy_find_def apply_doors_alias_def apply_sync_alias_def Let_def
          filter_other_kinds comp_def)
  show "decide x (apply_sync_alias (apply_doors_alias c ss) s r) n code now =
          decide x (apply_policy x c p r') n code now"
    using assms(1,2)
    by (intro decide_cong)
       (auto simp: cp policy_find_def apply_doors_alias_def apply_sync_alias_def Let_def
          filter_other_kinds comp_def swap)
qed

section \<open>The allow-list mirror\<close>

lemma sync_tool_named_to_sync [simp]: "sync_tool_named x n (to_sync_tool e nm) \<longleftrightarrow> named x n e"
  by (simp add: sync_tool_named_def named_def to_sync_tool_def)

lemma find_tools_mirrored:
  assumes "find (named x n) es = Some e" "e_kind e = Tool"
  shows "find (sync_tool_named x n)
           (map (\<lambda>e. to_sync_tool e (unwrap_or (ns (e_id e)) [])) (filter (\<lambda>e. e_kind e = Tool) es)) =
         Some (to_sync_tool e (unwrap_or (ns (e_id e)) []))"
  using assms by (induction es) (auto split: if_splits)

lemma find_users_mirrored:
  "find (\<lambda>u. su_profile_field_digest u = d) (map to_sync_user ms) =
     map_option to_sync_user (find (\<lambda>m. m_digest m = d) ms)"
  by (induction ms) (auto simp: to_sync_user_def)

lemma parse_status_Idle: "parse_status w = Idle \<longleftrightarrow> w = ''idle''"
  by (auto simp: parse_status_def)

text \<open>
  The allow-list mirrored from a policy decides a tool as the cache does: for an entry of kind
  tool that has a status and only the rules a tool can have, the legacy check on the mirror
  authorizes a card the coordinator can digest exactly when the cache admits it.
\<close>

lemma mirror_agrees_with_cache:
  assumes c': "c' = apply_policy x c p r"
    and fresh: "\<not> is_some_and (parse_rfc3339 x (rpp_as_of p)) (is_stale (policy_of c))"
    and e: "policy_find x (policy_of c') n = Some e" "e_kind e = Tool" "e_status e \<noteq> []"
    and plain: "e_enabled e" "e_allow e = []" "e_deny e = []" "e_hold_until e = None"
      "\<not> e_requires_online e" "\<not> is_locked (lockouts c) n"
    and d: "wire_digest_hex (allow_list c) code = Some tok"
  shows "check_access x (allow_list c') code n = Authorized \<longleftrightarrow>
           (\<exists>s. decide x c' n code now = Allow s)"
proof -
  let ?w = "policy_of c'"
  have mirror: "tg_inner (allow_list c') =
      Some (to_sync ?w (unwrap_or (uuid_parse x (rpp_device_id p)) 0) (rpp_profile_field p))"
    and dig: "wire_digest_hex (allow_list c') code = Some tok"
    and pw: "lockouts c' = lockouts c"
    using fresh d by (simp_all add: c' apply_policy_def Let_def)
  have t: "find (sync_tool_named x n) (sp_tools (to_sync ?w u f)) =
      Some (to_sync_tool e (unwrap_or (pnames ?w (e_id e)) []))" for u f
    using e by (simp add: to_sync_def find_tools_mirrored policy_find_def)
  have us: "sp_users (to_sync ?w u f) = map to_sync_user (members ?w)" for u f
    by (simp add: to_sync_def)
  have tok: "token_of c' code = tok" using dig by (simp add: token_of_def)
  have "check_access x (allow_list c') code n = Authorized \<longleftrightarrow> member_admits (members ?w) e tok"
    using e(3) by (auto simp: check_access_Authorized_iff mirror dig t us find_users_mirrored
      member_admits_def to_sync_tool_def to_sync_user_def parse_status_Idle)
  also have "\<dots> \<longleftrightarrow> (\<exists>s. decide x c' n code now = Allow s)"
    using e plain pw tok
    by (auto simp: decide_def decide_member_Allow admits_def token_of_def Let_def)
  finally show ?thesis .
qed

section \<open>Sessions\<close>

text \<open>
  A session opened on a momentary resource is in use exactly for the strike pulse, unless the
  server's own view already has the resource in use; a negative or missing pulse gives a session of
  no length. A session on any other resource lasts until a stop, and a stop ends either at once.
\<close>

lemma session_lasts_as_its_profile_says:
  assumes "tool_key (wiring c) n \<notin> synced_in_use (wiring c)"
  shows "(map_option rv_profile (resolve x c n) = Some Momentary \<longrightarrow>
            in_use (wiring (cache_open_session x c n now)) (tool_key (wiring c) n) t =
              (t < now + milliseconds (max (unwrap_or (strike_of x c n) 0) 0))) \<and>
         (map_option rv_profile (resolve x c n) \<noteq> Some Momentary \<longrightarrow>
            in_use (wiring (cache_open_session x c n now)) (tool_key (wiring c) n) t) \<and>
         \<not> in_use (wiring (cache_close_session (cache_open_session x c n now) n stop))
            (tool_key (wiring c) n) t"
  using assms
  by (auto simp: cache_open_session_def cache_close_session_def session_end_def strike_of_def
      ls.used_open ls.open_close)

section \<open>Open Access holds\<close>

lemma num_milliseconds_bounds:
  "0 < d \<Longrightarrow> milliseconds (num_milliseconds d) \<le> d \<and> d < milliseconds (num_milliseconds d + 1)"
  by (simp add: num_milliseconds_pos milliseconds_def) (presburger)

lemma num_milliseconds_le: "0 < d \<Longrightarrow> d \<le> milliseconds k \<Longrightarrow> num_milliseconds d \<le> k"
  by (simp add: num_milliseconds_pos milliseconds_def)

lemma hold_pulse_live [simp]: "(\<exists>ms. hold_pulse_ms (Some until) now refresh = Some ms) \<longleftrightarrow> now < until"
  by (simp add: hold_pulse_ms_def Let_def)

lemma hold_pulse_range:
  assumes some: "hold_pulse_ms (Some until) now (seconds HOLD_REFRESH_SECS) = Some ms"
  shows "1 \<le> ms" "ms \<le> 45000" "now + milliseconds ms < until + milliseconds 1"
    "ms = 45000 \<or> until - milliseconds 1 < now + milliseconds ms"
proof -
  let ?p = "min (seconds 45) (until - now)"
  have s45: "seconds HOLD_REFRESH_SECS + seconds HOLD_PULSE_MARGIN_SECS = seconds 45"
    by (simp add: HOLD_REFRESH_SECS_def HOLD_PULSE_MARGIN_SECS_def seconds_def)
  have live: "now < until" and ms0: "ms = as_i32 (max (num_milliseconds ?p) 1)"
    using some by (simp_all add: hold_pulse_ms_def Let_def s45 split: if_splits)
  from live have p: "0 < ?p" by (simp add: seconds_def)
  have le: "num_milliseconds ?p \<le> 45000"
    using p by (intro num_milliseconds_le) (auto simp: seconds_def milliseconds_def)
  have ms: "ms = max (num_milliseconds ?p) 1"
    using le ms0 by (simp add: as_i32_id)
  then show "1 \<le> ms" "ms \<le> 45000" using le by auto
  note b = num_milliseconds_bounds [OF p]
  show "now + milliseconds ms < until + milliseconds 1"
    using b p ms by (auto simp: milliseconds_def max_def split: if_splits)
  show "ms = 45000 \<or> until - milliseconds 1 < now + milliseconds ms"
    using b p ms le by (auto simp: milliseconds_def seconds_def max_def min_def split: if_splits)
qed

text \<open>
  The hold pulse, at the designed refresh of 30 s: there is one exactly while the window is
  live, it lies between 1 ms and 45 s (so the \<^verbatim>\<open>i32\<close> cast loses nothing), it ends at the window's end
  or less than a millisecond after, and away from the end it outlasts the refresh by 15 s.
\<close>

lemma hold_pulse_bounds:
  "((\<exists>ms. hold_pulse_ms (Some until) now (seconds HOLD_REFRESH_SECS) = Some ms) \<longleftrightarrow> now < until) \<and>
   (hold_pulse_ms (Some until) now (seconds HOLD_REFRESH_SECS) = Some ms \<longrightarrow>
      1 \<le> ms \<and> ms \<le> 45000 \<and> now + milliseconds ms < until + milliseconds 1 \<and>
      (ms = 45000 \<or> until - milliseconds 1 < now + milliseconds ms))"
  using hold_pulse_range by simp

lemma send_holds_sent:
  assumes "\<forall>d t. sent d = Some t \<longrightarrow> t \<le> now" "0 < refresh"
  shows "(\<forall>d t. snd (send_holds now refresh held sent) d = Some t \<longrightarrow> t \<le> now) \<and>
         (\<forall>d. is_some_and (sent d) (\<lambda>t. now - t < refresh) \<longrightarrow>
            snd (send_holds now refresh held sent) d = sent d) \<and>
         (\<forall>d \<in> fst ` set held.
            is_some_and (snd (send_holds now refresh held sent) d) (\<lambda>t. now - t < refresh))"
  using assms
proof (induction now refresh held sent rule: send_holds.induct)
  case (2 now refresh d ms held sent)
  show ?case
  proof (cases "is_none_or (sent d) (\<lambda>last. refresh \<le> now - last)")
    case True
    define s2 where "s2 = sent(d \<mapsto> now)"
    have s2: "s2 d = Some now" "\<And>k. k \<noteq> d \<Longrightarrow> s2 k = sent k" by (simp_all add: s2_def)
    have "\<forall>k t. s2 k = Some t \<longrightarrow> t \<le> now"
      using "2.prems"(1) by (auto simp: s2_def)
    note IH = "2.IH"(1) [OF True, folded s2_def, OF this "2.prems"(2)]
    have hd: "snd (send_holds now refresh held s2) d = Some now"
      using IH s2(1) "2.prems"(2) by auto
    have eq: "snd (send_holds now refresh ((d, ms) # held) sent) = snd (send_holds now refresh held s2)"
      using True by (simp add: s2_def Let_def split_beta)
    have "snd (send_holds now refresh held s2) k = sent k"
      if "is_some_and (sent k) (\<lambda>t. now - t < refresh)" for k
    proof -
      have "k \<noteq> d" using True that by (auto simp: is_none_or_iff is_some_and_iff)
      with IH that s2(2) show ?thesis by simp
    qed
    then show ?thesis
      using IH hd "2.prems"(2) unfolding eq by (auto simp: is_some_and_iff)
  next
    case False
    note IH = "2.IH"(2) [OF False "2.prems"]
    then show ?thesis
      using False by (auto simp: is_none_or_iff is_some_and_iff)
  qed
qed auto

lemma hold_pulses_in:
  "e \<in> set (entries (policy_of c)) \<Longrightarrow> e_enabled e \<Longrightarrow> hold_pulse_ms (e_hold_until e) now refresh \<noteq> None \<Longrightarrow>
   e_id e \<in> fst ` set (hold_pulses_at c now refresh)"
  by (force simp: hold_pulses_at_def List.map_filter_def image_iff)

lemma hold_pulses_sound:
  "(d, ms) \<in> set (hold_pulses_at c now refresh) \<Longrightarrow>
   \<exists>e \<in> set (entries (policy_of c)). e_id e = d \<and> e_enabled e \<and>
      hold_pulse_ms (e_hold_until e) now refresh = Some ms"
  by (auto simp: hold_pulses_at_def List.map_filter_def)

lemma send_holds_in: "Hold d ms \<in> set (fst (send_holds now refresh held sent)) \<Longrightarrow> (d, ms) \<in> set held"
  by (induction now refresh held sent rule: send_holds.induct) (auto simp: Let_def split_beta split: if_splits)

text \<open>
  The loop keeps a held door open and no other. After every pass the last pulse sent to a door
  whose window is live, under the window it now has, lasts until 15 s after the pass or until the
  window ends (to the millisecond), so a pass every few seconds never lets the strike drop; and
  every hold a pass sends is for an enabled resource with a live window, with its hold pulse.
\<close>

lemma held_door_stays_open:
  assumes "\<forall>d t. hold_sent c d = Some t \<longrightarrow> t \<le> now"
    and e: "e \<in> set (entries (policy_of c))" "e_enabled e" "e_hold_until e = Some until" "now < until"
  shows "(\<exists>t ms. hold_sent (snd (cache_tick c now ttl mt (seconds HOLD_REFRESH_SECS))) (e_id e) = Some t \<and>
           t \<le> now \<and> hold_pulse_ms (Some until) t (seconds HOLD_REFRESH_SECS) = Some ms \<and>
           min until (now + seconds 15) < t + milliseconds ms + milliseconds 1) \<and>
         (Hold d p \<in> set (fst (cache_tick c now ttl mt (seconds HOLD_REFRESH_SECS))) \<longrightarrow>
            (\<exists>f \<in> set (entries (policy_of c)). e_id f = d \<and> e_enabled f \<and>
               hold_pulse_ms (e_hold_until f) now (seconds HOLD_REFRESH_SECS) = Some p))"
proof
  let ?r = "seconds HOLD_REFRESH_SECS"
  let ?held = "hold_pulses_at c now ?r"
  let ?sent = "map_retain (\<lambda>d _. d \<in> fst ` set ?held) (hold_sent c)"
  have r: "0 < ?r" "?r = 30000000000" by (simp_all add: HOLD_REFRESH_SECS_def seconds_def)
  have sent: "hold_sent (snd (cache_tick c now ttl mt ?r)) = snd (send_holds now ?r ?held ?sent)"
    by (simp add: cache_tick_def Let_def split_beta)
  have in_held: "e_id e \<in> fst ` set ?held"
    using e by (intro hold_pulses_in) (simp_all add: hold_pulse_ms_def Let_def)
  have pre: "\<forall>d t. ?sent d = Some t \<longrightarrow> t \<le> now" using assms(1) by auto
  note sh = send_holds_sent [OF pre r(1), of ?held]
  have "is_some_and (snd (send_holds now ?r ?held ?sent) (e_id e)) (\<lambda>t. now - t < ?r)"
    using sh in_held by blast
  then obtain t where t: "snd (send_holds now ?r ?held ?sent) (e_id e) = Some t" "now - t < ?r"
    unfolding is_some_and_iff by blast
  have t_le: "t \<le> now" using sh t(1) by blast
  with e(4) have "t < until" by simp
  then obtain ms where ms: "hold_pulse_ms (Some until) t ?r = Some ms"
    using hold_pulse_live by blast
  have "min until (now + seconds 15) < t + milliseconds ms + milliseconds 1"
    using hold_pulse_range(4) [OF ms] t(2) r(2) by (auto simp: milliseconds_def seconds_def)
  with t t_le ms sent show "\<exists>t ms. hold_sent (snd (cache_tick c now ttl mt ?r)) (e_id e) = Some t \<and>
      t \<le> now \<and> hold_pulse_ms (Some until) t ?r = Some ms \<and>
      min until (now + seconds 15) < t + milliseconds ms + milliseconds 1" by auto
next
  show "Hold d p \<in> set (fst (cache_tick c now ttl mt (seconds HOLD_REFRESH_SECS))) \<longrightarrow>
      (\<exists>f \<in> set (entries (policy_of c)). e_id f = d \<and> e_enabled f \<and>
         hold_pulse_ms (e_hold_until f) now (seconds HOLD_REFRESH_SECS) = Some p)"
    by (auto simp: cache_tick_def Let_def split_beta dest!: send_holds_in hold_pulses_sound)
qed

section \<open>Witnesses\<close>

definition demo_cache :: resource_cache where
  "demo_cache = cache_new new_inner (with_digester (Some (\<lambda>s. Some (''d'' @ s)))) power_new"

definition demo_door :: compiled_door where
  "demo_door = \<lparr>cd_id = 7, cd_name = ''front'', cd_enabled = True, cd_unlock_duration_ms = 3000,
     cd_allow_cards = [''dA''], cd_deny_cards = [''dB''], cd_hold_unlock_until = None\<rparr>"

definition demo_saw :: resource_policy where
  "demo_saw = \<lparr>rp_id = ''3'', rp_external_id = Some ''saw'', rp_name = ''Saw'', rp_kind = ''tool'',
     rp_session_profile = [], rp_status = ''idle'', rp_requires_online = False, rp_in_use = False,
     rp_enabled = True, rp_pulse_ms = None, rp_allow = [], rp_deny = [], rp_hold_until = None\<rparr>"

definition demo_front :: resource_policy where
  "demo_front = \<lparr>rp_id = ''7'', rp_external_id = None, rp_name = ''front'', rp_kind = ''door'',
     rp_session_profile = [], rp_status = [], rp_requires_online = False, rp_in_use = False,
     rp_enabled = True, rp_pulse_ms = Some 3000, rp_allow = [''dA''], rp_deny = [''dB''],
     rp_hold_until = None\<rparr>"

definition demo_policy :: resource_policy_payload where
  "demo_policy = \<lparr>rpp_device_id = ''1'', rpp_as_of = ''5'', rpp_profile_field = ''card'',
     rpp_resources = [demo_saw, demo_front],
     rpp_principals = [\<lparr>wp_digest = ''dA'', wp_full_name = ''Ann'', wp_is_active = True,
                        wp_authorized = [''3'']\<rparr>]\<rparr>"

definition demo_sync :: sync_payload where
  "demo_sync = \<lparr>sp_device_id = 1, sp_profile_field = ''card'',
     sp_tools = [\<lparr>st_id = 3, st_external_id = Some ''saw'', st_name = ''Saw'', st_status = Idle,
                  st_requires_online = False\<rparr>],
     sp_users = [\<lparr>su_profile_field_digest = ''dA'', su_full_name = ''Ann'', su_is_active = True,
                  su_authorized_tool_ids = [3]\<rparr>]\<rparr>"

definition demo_snapshot :: door_state_snapshot where
  "demo_snapshot = \<lparr>dss_snapshot_at = 5, dss_doors = [demo_door]\<rparr>"

lemmas demo_cache_defs = demo_text_def demo_cache_def demo_door_def demo_saw_def demo_front_def
  demo_policy_def demo_sync_def demo_snapshot_def cache_new_def policy_default_def

lemma demo_read: "read_nat ''3'' = 3" "read_nat ''5'' = 5" "read_nat ''7'' = 7" "read_nat ''1'' = 1"
  by (simp_all add: read_nat_def)

lemma demo_carries: "carries demo_text demo_policy demo_sync demo_snapshot"
  by (simp add: carries_def demo_cache_defs List.map_filter_simps from_policy_def from_sync_tool_def
      from_compiled_door_def from_principal_def from_sync_user_def kind_parse_def demo_read)

end
