(* ===== verification/Edge_Safety.thy ===== *)
theory Edge_Safety
  imports Edge Resource_Safety
begin

text \<open>
  Properties of the coordinator as a whole: what a scan's reply promises, that only signed unlock
  commands reach the strike, that an overload denies at once and stays denied, and which pushes of
  the server the coordinator can receive. \<open>edge_step\<close> is one event of any of its handlers.
\<close>

datatype edge_event =
    EvScan http_reply instant local_scan
  | EvStop instant local_stop
  | EvUsage local_usage
  | EvAlive instant string
  | EvPower instant local_power
  | EvDrain instant
  | EvTick instant duration duration duration
  | EvInbound instant inbound

fun edge_step ::
  "text_ops \<Rightarrow> ('k \<Rightarrow> string \<Rightarrow> string) \<Rightarrow> (string \<Rightarrow> rat option) \<Rightarrow> edge_event \<Rightarrow> 'k edge_state \<Rightarrow> 'k edge_state" where
  "edge_step x hmac pf (EvScan reply now req) s = snd (handle_scan x hmac reply now req s)"
| "edge_step x hmac pf (EvStop now req) s = snd (handle_stop now req s)"
| "edge_step x hmac pf (EvUsage req) s = snd (handle_usage req s)"
| "edge_step x hmac pf (EvAlive now d) s = snd (handle_alive now d s)"
| "edge_step x hmac pf (EvPower now req) s = snd (handle_power pf now req s)"
| "edge_step x hmac pf (EvDrain now) s = local_loop_pass x now s"
| "edge_step x hmac pf (EvTick now ttl mt hr) s =
     s\<lparr>cache := snd (cache_tick (cache s) now ttl mt hr)\<rparr>"
| "edge_step x hmac pf (EvInbound now m) s = dispatch x hmac now m s"

section \<open>Frames\<close>

lemma session_ops_lockouts [simp]:
  "lockouts (cache_open_session x c n now) = lockouts c"
  "lockouts (cache_close_session c n now) = lockouts c"
  "lockouts (cache_reconcile x c p now r) = lockouts c"
  "lockouts (snd (cache_tick c now ttl mt hr)) = lockouts c"
  by (simp_all add: cache_open_session_def cache_close_session_def cache_reconcile_def cache_tick_def
      Let_def split_beta)

lemma ingest_lockouts [simp]:
  "lockouts (apply_policy x c p r) = lockouts c"
  "lockouts (apply_sync_alias c sp r) = lockouts c"
  "lockouts (apply_doors_alias c d) = lockouts c"
  by (simp_all add: apply_policy_def apply_sync_alias_def apply_doors_alias_def Let_def)

lemma drain_lockouts [simp]: "lockouts (drain_arrivals x now as c) = lockouts c"
  by (induction as arbitrary: c) auto

lemma report_door_event_frames [simp]:
  "cache (report_door_event x hmac now s d code g r) = cache s"
  "unlock_queue (report_door_event x hmac now s d code g r) = unlock_queue s"
  "command_key (report_door_event x hmac now s d code g r) = command_key s"
  by (simp_all add: report_door_event_def Let_def)

lemma handle_scan_frames [simp]:
  "unlock_queue (snd (handle_scan x hmac reply now req s)) = unlock_queue s"
  "command_key (snd (handle_scan x hmac reply now req s)) = command_key s"
  by (simp_all add: handle_scan_def Let_def split_beta split: kind.splits option.splits)

lemma handle_scan_cache:
  "cache (snd (handle_scan x hmac reply now req s)) =
     (if fst (scan_verdict reply (decide x (cache s) (lsc_resource req) (lsc_card req) now))
      then cache_open_session x (cache s) (lsc_resource req) now else cache s)"
  by (simp add: handle_scan_def Let_def split_beta split: kind.splits option.splits)

lemma other_handler_frames [simp]:
  "unlock_queue (snd (handle_stop now stop s)) = unlock_queue s"
  "unlock_queue (snd (handle_usage usage s)) = unlock_queue s"
  "unlock_queue (snd (handle_alive now d s)) = unlock_queue s"
  "unlock_queue (snd (handle_power pf now req s)) = unlock_queue s"
  "unlock_queue (local_loop_pass x now s) = unlock_queue s"
  "command_key (snd (handle_stop now stop s)) = command_key s"
  "command_key (snd (handle_usage usage s)) = command_key s"
  "command_key (snd (handle_alive now d s)) = command_key s"
  "command_key (snd (handle_power pf now req s)) = command_key s"
  "command_key (local_loop_pass x now s) = command_key s"
  by (simp_all add: handle_stop_def handle_usage_def handle_alive_def handle_power_def
      local_loop_pass_def Let_def split_beta split: option.splits)

section \<open>Scans\<close>

text \<open>
  The reply to a badge is the decision: it echoes the resource, says yes exactly when the cache
  allows the card, or leaves it to the server and the server's reply says so, and carries a strike
  pulse only on a yes. A session is opened on a yes and nothing in the cache changes on a no; and a
  reply that never arrived or cannot be read is a no.
\<close>

lemma scan_reply_is_the_decision:
  "let d = decide x (cache s) (lsc_resource req) (lsc_card req) now;
       yes = ((\<exists>st. d = Allow st) \<or> d = AskServer \<and> fst (remote_scan reply));
       (outs, s') = handle_scan x hmac reply now req s
   in (\<exists>r rest. outs = ScanReply r # rest \<and> lsr_resource r = lsc_resource req \<and>
         lsr_authorized r = yes \<and> (lsr_strike r \<noteq> None \<longrightarrow> yes)) \<and>
      cache s' = (if yes then cache_open_session x (cache s) (lsc_resource req) now else cache s) \<and>
      ((\<exists>e. reply = TransportError e) \<or> (\<exists>st e. reply = Unreadable st e) \<longrightarrow> \<not> fst (remote_scan reply))"
proof -
  let ?d = "decide x (cache s) (lsc_resource req) (lsc_card req) now"
  have v: "fst (scan_verdict reply ?d) \<longleftrightarrow> (\<exists>st. ?d = Allow st) \<or> ?d = AskServer \<and> fst (remote_scan reply)"
    by (auto simp: scan_verdict_def split: scan_decision.splits)
  have r: "\<exists>rest. fst (handle_scan x hmac reply now req s) =
      ScanReply (local_scan_reply_new (lsc_resource req) (fst (scan_verdict reply ?d))
        (fst (snd (scan_verdict reply ?d))) (snd (snd (scan_verdict reply ?d)))) # rest"
    by (auto simp: handle_scan_def Let_def split_beta split: kind.splits option.splits)
  show ?thesis
    using r v handle_scan_cache [of x hmac reply now req s]
    by (auto simp: Let_def split_beta local_scan_reply_new_def)
qed

section \<open>Signed commands\<close>

definition cmd_message :: "text_ops \<Rightarrow> unlock_command \<Rightarrow> string" where
  "cmd_message x cmd =
     doors_unlock_message (uuid_show x (uc_door_id cmd)) (uc_duration_ms cmd) (uc_reason cmd)"

definition queue_signed :: "text_ops \<Rightarrow> ('k \<Rightarrow> string \<Rightarrow> string) \<Rightarrow> 'k \<Rightarrow> 'k edge_state \<Rightarrow> bool" where
  "queue_signed x hmac key s \<longleftrightarrow>
     command_key s = Some key \<and>
     (\<forall>cmd \<in> set (unlock_queue s). uc_sig cmd = Some (hmac key (cmd_message x cmd)))"

lemma dispatch_queue_signed:
  "queue_signed x hmac key s \<Longrightarrow> queue_signed x hmac key (dispatch x hmac now m s)"
  by (cases m) (auto simp: queue_signed_def cmd_message_def Let_def verify_iff is_some_and_iff)

interpretation signed: preserved "edge_step x hmac pf" "queue_signed x hmac key" for x hmac pf key
proof
  fix s e
  assume "queue_signed x hmac key s"
  then show "queue_signed x hmac key (edge_step x hmac pf e s)"
    by (cases e) (simp_all add: dispatch_queue_signed, auto simp: queue_signed_def)
qed

text \<open>
  C14. On a coordinator that holds a command key, every unlock command that ever reaches the strike
  bridge, whatever is scanned, reported or pushed, carries the HMAC of exactly its door, duration
  and reason under that key: an unsigned, altered or replayed-with-other-fields command is dropped.
\<close>

theorem only_signed_commands_reach_the_strike:
  assumes "command_key s = Some key" "unlock_queue s = []"
    and "cmd \<in> set (unlock_queue (run_events (edge_step x hmac pf) es s))"
  shows "uc_sig cmd = Some (hmac key (cmd_message x cmd))"
proof -
  have "queue_signed x hmac key s" using assms(1,2) by (simp add: queue_signed_def)
  then have "queue_signed x hmac key (run_events (edge_step x hmac pf) es s)"
    by (rule signed.run_keeps)
  with assms(3) show ?thesis by (auto simp: queue_signed_def)
qed

section \<open>Overload\<close>

definition edge_unlocks :: "string \<Rightarrow> edge_event \<Rightarrow> bool" where
  "edge_unlocks n e \<longleftrightarrow>
     (case e of
        EvInbound _ m \<Rightarrow> (case m of InPower p \<Rightarrow> \<not> snapshot_locks p n | _ \<Rightarrow> False)
      | _ \<Rightarrow> False)"

lemma is_locked_frames:
  "is_locked p n \<Longrightarrow> is_locked (record_draw p t a now) n"
  "is_locked p n \<Longrightarrow> is_locked (trip_all cs p) n"
  by (auto simp: is_locked_iff record_draw_def Let_def)

lemma handle_power_locks: "is_locked (lockouts (cache s)) n \<Longrightarrow>
    is_locked (lockouts (cache (snd (handle_power pf now req s)))) n"
  by (simp add: handle_power_def fast_trip_def Let_def is_locked_frames split: option.splits)

interpretation edge_lockout: guarded_fact "edge_step x hmac pf"
  "\<lambda>n s. is_locked (lockouts (cache s)) n" edge_unlocks for x hmac pf
proof
  fix n :: string and s :: "'a edge_state" and e :: edge_event
  assume l: "is_locked (lockouts (cache s)) n" and "\<not> edge_unlocks n e"
  then show "is_locked (lockouts (cache (edge_step x hmac pf e s))) n"
  proof (cases e)
    case (EvInbound now m)
    with l \<open>\<not> edge_unlocks n e\<close> show ?thesis
      by (cases m) (auto simp: edge_unlocks_def apply_state_locks Let_def split: option.splits)
  qed (auto simp: handle_scan_cache handle_stop_def handle_usage_def handle_alive_def
         local_loop_pass_def handle_power_locks split: option.splits)
qed

text \<open>
  An overload denies at once and stays denied: when a power report leaves a circuit's summed draw
  over its limit, every badge at a tool of that circuit is refused as locked out, and remains
  refused through any further events until the server pushes a power snapshot that does not lock the
  tool.
\<close>

lemma overload_denies_until_cleared:
  assumes "p_snapshot (lockouts (cache s)) = Some snap" "power_resolve snap n = Some t"
    and "pst_circuit_id t = Some ci"
    and "over_limit pf (record_draw (lockouts (cache s)) (lp_resource req) amps now) ci"
    and "lp_draw_now req = Some amps"
    and "\<forall>now' p. EvInbound now' (InPower p) \<in> set es \<longrightarrow> snapshot_locks p n"
  shows "decide x (cache (run_events (edge_step x hmac pf) es (snd (handle_power pf now req s)))) n code t'
           = Deny LOCKED_OUT"
proof -
  let ?s = "snd (handle_power pf now req s)"
  let ?p = "record_draw (lockouts (cache s)) (lp_resource req) amps now"
  have "is_locked (lockouts (cache ?s)) n"
    using assms(1-5)
    by (intro local_trip_locks [of _ snap n t ci])
       (auto simp: handle_power_def fast_trip_def Let_def set_evaluate_overages record_draw_def)
  moreover have "\<forall>e \<in> set es. \<not> edge_unlocks n e"
    using assms(6) by (auto simp: edge_unlocks_def split: edge_event.splits inbound.splits)
  ultimately have "is_locked (lockouts (cache (run_events (edge_step x hmac pf) es ?s))) n"
    using edge_lockout.run_guarded by blast
  then show ?thesis by (simp add: decide_def)
qed

section \<open>Pushes\<close>

text \<open>
  The coordinator's broker client dispatches a suffix it strips off any topic of its own device,
  but subscribes to five of the seven kinds it can handle: the wiring snapshot and the resource
  policy, which the server publishes on the broker, are on no topic it subscribes to, so they reach
  it by polling only.
\<close>

lemma policy_and_wiring_pushes_are_not_subscribed:
  "remote_suffix ns dev (device_topic ns dev k) = Some k \<and>
   set (subscribe_to_commands ns dev) =
     device_topic ns dev ` {NAME, TOOLGUARD_STATE, DOORS_STATE, DOORS_UNLOCK, POWER_STATE} \<and>
   device_topic ns dev MODULE_STATE \<notin> set (subscribe_to_commands ns dev) \<and>
   device_topic ns dev RESOURCE_POLICY \<notin> set (subscribe_to_commands ns dev)"
proof -
  have "device_topic ns dev k = device_topic ns dev [] @ k"
    by (simp add: device_topic_def)
  then have "remote_suffix ns dev (device_topic ns dev k) = Some k"
    by (metis remote_suffix_def strip_prefix_append)
  then show ?thesis
    by (auto simp: subscribe_to_commands_def device_topic_def kind_defs)
qed

section \<open>Witnesses\<close>

definition demo_cmd :: unlock_command where
  "demo_cmd = \<lparr>uc_door_id = 7, uc_duration_ms = 3000, uc_reason = ''visitor'',
     uc_sig = Some (''k'' @ doors_unlock_message (show_nat 7) 3000 ''visitor'')\<rparr>"

definition demo_edge :: "string edge_state" where
  "demo_edge = \<lparr>cache = demo_cache\<lparr>lockouts := demo_power\<lparr>local_tripped := {}\<rparr>\<rparr>, unlock_queue = [],
     event_queue = [], command_key = Some ''k'', edge_name = ''edge''\<rparr>"

theorem only_signed_commands_reach_the_strike_witness:
  "uc_sig demo_cmd = Some (''k'' @ cmd_message demo_text demo_cmd)"
  by (rule only_signed_commands_reach_the_strike [where hmac = "\<lambda>k m. k @ m" and s = demo_edge and
        pf = "\<lambda>_. None" and es = "[EvInbound 0 (InUnlock demo_cmd)]"])
     (simp_all add: demo_edge_def demo_cmd_def verify_iff demo_text_def)

definition demo_report :: local_power where
  "demo_report = \<lparr>lp_resource = ''saw'', lp_device_id = None, lp_relay_on = None, lp_draw_now = Some 11,
     lp_voltage_now = None, lp_max_voltage = None, lp_amperage_limit = None, lp_self_tripped = None\<rparr>"

end
