(* ===== verification/Schedules.thy ===== *)
theory Schedules
  imports Prelude
begin

text \<open>
  Weekly schedules, \<^verbatim>\<open>server/src/schedules.rs\<close>. A local date-time is an \<open>int\<close>: nanoseconds of the wall
  clock since 1970-01-01T00:00 local, so its date is the quotient and its time of day the remainder
  by a day. The IANA zone data (\<^verbatim>\<open>chrono_tz\<close>) is the record \<open>tz\<close>: the wall clock of an instant, and
  the instants a wall-clock reading denotes. Decoding the stored JSON (\<^verbatim>\<open>serde\<close>) is the parameter
  \<open>parse_intervals\<close> of the definitions that read a schedule row.
\<close>

datatype day_of_week = Mon | Tue | Wed | Thu | Fri | Sat | Sun

type_synonym naive = int

record schedule_interval =
  iv_day :: day_of_week
  iv_start :: int
  iv_end :: int

record schedule =
  sch_id :: uuid
  sch_intervals :: json

datatype local_result = Single instant | Ambiguous instant instant | NoLocal

record tz =
  tz_local :: "instant \<Rightarrow> naive"
  tz_from_local :: "naive \<Rightarrow> local_result"

definition day_ns :: int where "day_ns = seconds 86400"

text \<open>1970-01-01 was a Thursday.\<close>

definition from_chrono :: "naive \<Rightarrow> day_of_week" where
  "from_chrono n =
     (let d = n div day_ns mod 7
      in if d = 0 then Thu else if d = 1 then Fri else if d = 2 then Sat else if d = 3 then Sun
         else if d = 4 then Mon else if d = 5 then Tue else Wed)"

fun validate_from :: "nat \<Rightarrow> schedule_interval list \<Rightarrow> nat option" where
  "validate_from i [] = None"
| "validate_from i (iv # ivs) = (if iv_end iv \<le> iv_start iv then Some i else validate_from (Suc i) ivs)"

text \<open>The error carries the index of the first inverted interval.\<close>

definition validate :: "schedule_interval list \<Rightarrow> nat + unit" where
  "validate ivs = (case validate_from 0 ivs of Some i \<Rightarrow> Inl i | None \<Rightarrow> Inr ())"

definition matches_at :: "schedule_interval list \<Rightarrow> tz \<Rightarrow> instant \<Rightarrow> bool" where
  "matches_at ivs z ts =
     (let loc = tz_local z ts;
          dow = from_chrono loc;
          now = loc mod day_ns
      in list_ex (\<lambda>iv. iv_day iv = dow \<and> iv_start iv \<le> now \<and> now < iv_end iv) ivs)"

text \<open>
  The chaining loop: while some interval of the day starts at or before the running end and ends
  after it, the running end moves to that interval's end. It strictly grows, so fewer and fewer of
  the finitely many intervals end after it.
\<close>

function extend_end :: "schedule_interval list \<Rightarrow> int \<Rightarrow> int" where
  "extend_end ivs e =
     (case find (\<lambda>iv. iv_start iv \<le> e \<and> e < iv_end iv) ivs of
        Some iv \<Rightarrow> extend_end ivs (iv_end iv)
      | None \<Rightarrow> e)"
  by pat_completeness auto

termination
proof (relation "measure (\<lambda>(ivs, e). length (filter (\<lambda>iv. e < iv_end iv) ivs))")
  fix ivs e iv
  assume "find (\<lambda>iv. iv_start iv \<le> e \<and> e < iv_end iv) ivs = Some iv"
  then have iv: "iv \<in> set ivs" "e < iv_end iv" by (auto dest: find_SomeD)
  have "filter (\<lambda>v. iv_end iv < iv_end v) ivs =
        filter (\<lambda>v. iv_end iv < iv_end v) (filter (\<lambda>v. e < iv_end v) ivs)"
    using iv(2) by (simp add: filter_filter) (rule filter_cong, auto)
  moreover have "length (filter (\<lambda>v. iv_end iv < iv_end v) (filter (\<lambda>v. e < iv_end v) ivs))
      < length (filter (\<lambda>v. e < iv_end v) ivs)"
    by (rule length_filter_less [of iv]) (use iv in auto)
  ultimately show "((ivs, iv_end iv), ivs, e) \<in> measure (\<lambda>(ivs, e). length (filter (\<lambda>iv. e < iv_end iv) ivs))"
    by simp
qed auto

declare extend_end.simps [simp del]

definition day_intervals :: "schedule_interval list \<Rightarrow> day_of_week \<Rightarrow> schedule_interval list" where
  "day_intervals ivs dow = sort_key iv_start (filter (\<lambda>iv. iv_day iv = dow) ivs)"

definition local_end :: "schedule_interval list \<Rightarrow> naive \<Rightarrow> naive option" where
  "local_end ivs loc =
     (let now_t = loc mod day_ns;
          date = loc div day_ns;
          dys = day_intervals ivs (from_chrono loc)
      in case find (\<lambda>iv. iv_start iv \<le> now_t \<and> now_t < iv_end iv) dys of
           None \<Rightarrow> None
         | Some iv \<Rightarrow> Some (date * day_ns + extend_end dys (iv_end iv)))"

fun single :: "local_result \<Rightarrow> instant option" where
  "single (Single i) = Some i"
| "single _ = None"

definition active_until :: "schedule_interval list \<Rightarrow> tz \<Rightarrow> instant \<Rightarrow> instant option" where
  "active_until ivs z ts =
     (case local_end ivs (tz_local z ts) of
        None \<Rightarrow> None
      | Some naive_end \<Rightarrow>
          (case tz_from_local z naive_end of
             Single dt \<Rightarrow> Some dt
           | Ambiguous dt _ \<Rightarrow> Some dt
           | NoLocal \<Rightarrow> single (tz_from_local z (naive_end - minutes 1))))"

section \<open>What the loop computes\<close>

text \<open>The open times of day, as a set.\<close>

definition open_times :: "schedule_interval list \<Rightarrow> int set" where
  "open_times ivs = {t. \<exists>iv \<in> set ivs. iv_start iv \<le> t \<and> t < iv_end iv}"

lemma matches_at_open_times:
  "matches_at ivs z ts \<longleftrightarrow>
     tz_local z ts mod day_ns \<in> open_times (filter (\<lambda>iv. iv_day iv = from_chrono (tz_local z ts)) ivs)"
  by (auto simp: matches_at_def open_times_def list_ex_iff Let_def)

lemma open_times_set [simp]: "open_times (day_intervals ivs d) = open_times (filter (\<lambda>iv. iv_day iv = d) ivs)"
  by (simp add: open_times_def day_intervals_def)

lemma open_times_interval: "iv \<in> set ivs \<Longrightarrow> iv_start iv \<le> a \<Longrightarrow> {a..<iv_end iv} \<subseteq> open_times ivs"
  by (auto simp: open_times_def intro!: bexI [of _ iv])

lemma extend_end_spec:
  "e \<le> extend_end ivs e \<and> {e..<extend_end ivs e} \<subseteq> open_times ivs \<and> extend_end ivs e \<notin> open_times ivs"
proof (induction ivs e rule: extend_end.induct)
  case (1 ivs e)
  show ?case
  proof (cases "find (\<lambda>iv. iv_start iv \<le> e \<and> e < iv_end iv) ivs")
    case None
    then have "extend_end ivs e = e" by (subst extend_end.simps) simp
    moreover have "e \<notin> open_times ivs" using None by (auto simp: find_None_iff open_times_def)
    ultimately show ?thesis by simp
  next
    case (Some iv)
    then have step: "extend_end ivs e = extend_end ivs (iv_end iv)"
      by (subst extend_end.simps) simp
    have iv: "iv \<in> set ivs" "iv_start iv \<le> e" "e < iv_end iv" using find_SomeD [OF Some] by auto
    then have "{e..<iv_end iv} \<subseteq> open_times ivs" by (intro open_times_interval)
    moreover have "{e..<extend_end ivs e} \<subseteq> {e..<iv_end iv} \<union> {iv_end iv..<extend_end ivs (iv_end iv)}"
      by (auto simp: step)
    ultimately show ?thesis using "1.IH" [OF Some] step iv by auto
  qed
qed

lemma extend_end_bounded: "e \<le> b \<Longrightarrow> \<forall>iv \<in> set ivs. iv_end iv \<le> b \<Longrightarrow> extend_end ivs e \<le> b"
proof (induction ivs e rule: extend_end.induct)
  case (1 ivs e)
  then show ?case
    by (cases "find (\<lambda>iv. iv_start iv \<le> e \<and> e < iv_end iv) ivs")
       (subst extend_end.simps, auto dest: find_SomeD)+
qed

lemma local_end_spec:
  assumes "local_end ivs loc = Some n"
  defines "d \<equiv> loc div day_ns * day_ns"
  shows "loc < n \<and> {loc - d..<n - d} \<subseteq> open_times (filter (\<lambda>iv. iv_day iv = from_chrono loc) ivs) \<and>
         n - d \<notin> open_times (filter (\<lambda>iv. iv_day iv = from_chrono loc) ivs)"
proof -
  let ?ds = "day_intervals ivs (from_chrono loc)"
  have t: "loc - d = loc mod day_ns" by (simp add: d_def minus_div_mult_eq_mod)
  from assms(1) obtain iv where f: "find (\<lambda>iv. iv_start iv \<le> loc mod day_ns \<and> loc mod day_ns < iv_end iv) ?ds = Some iv"
    and n: "n - d = extend_end ?ds (iv_end iv)"
    by (auto simp: local_end_def d_def Let_def split: option.splits)
  have iv: "iv \<in> set ?ds" "iv_start iv \<le> loc - d" "loc - d < iv_end iv"
    using find_SomeD [OF f] t by auto
  then have "{loc - d..<iv_end iv} \<subseteq> open_times ?ds" by (intro open_times_interval)
  moreover note s = extend_end_spec [of "iv_end iv" ?ds]
  moreover have "{loc - d..<n - d} \<subseteq> {loc - d..<iv_end iv} \<union> {iv_end iv..<n - d}" by auto
  ultimately show ?thesis using iv n by auto
qed

lemma local_end_None: "local_end ivs loc = None \<longleftrightarrow>
    loc mod day_ns \<notin> open_times (filter (\<lambda>iv. iv_day iv = from_chrono loc) ivs)"
proof -
  have "loc mod day_ns \<notin> open_times (day_intervals ivs (from_chrono loc)) \<longleftrightarrow> local_end ivs loc = None"
    by (auto simp: local_end_def Let_def find_None_iff open_times_def split: option.splits dest: find_SomeD)
  then show ?thesis by simp
qed

lemma local_end_same_day:
  assumes "local_end ivs loc = Some n" "\<forall>iv \<in> set ivs. iv_end iv < day_ns" "loc \<le> m" "m \<le> n"
  shows "m div day_ns = loc div day_ns" "from_chrono m = from_chrono loc"
proof -
  let ?ds = "day_intervals ivs (from_chrono loc)"
  have pos: "0 < day_ns" by (simp add: day_ns_def seconds_def)
  from assms(1) obtain iv where f: "find (\<lambda>iv. iv_start iv \<le> loc mod day_ns \<and> loc mod day_ns < iv_end iv) ?ds = Some iv"
    and n: "n = loc div day_ns * day_ns + extend_end ?ds (iv_end iv)"
    by (auto simp: local_end_def Let_def split: option.splits)
  have "extend_end ?ds (iv_end iv) \<le> day_ns - 1"
    using assms(2) find_SomeD [OF f] by (intro extend_end_bounded) (auto simp: day_intervals_def)
  then have "m < loc div day_ns * day_ns + day_ns" using n assms(4) by simp
  moreover have "loc div day_ns * day_ns \<le> m"
    using assms(3) pos minus_mod_eq_div_mult [of loc day_ns] pos_mod_sign [of day_ns loc] by linarith
  ultimately show "m div day_ns = loc div day_ns"
    by (intro int_div_pos_eq [of m day_ns _ "m - loc div day_ns * day_ns"]) (auto simp: mult.commute)
  then show "from_chrono m = from_chrono loc" by (simp add: from_chrono_def)
qed

section \<open>Properties\<close>

text \<open>A zone without a transition over a span: the wall clock runs at a constant offset there.\<close>

definition steady :: "tz \<Rightarrow> duration \<Rightarrow> instant \<Rightarrow> instant \<Rightarrow> bool" where
  "steady z off a b \<longleftrightarrow>
     (\<forall>t. a \<le> t \<and> t \<le> b \<longrightarrow> tz_local z t = t + off \<and> tz_from_local z (t + off) = Single t)"

lemma matches_at_iff_local_end: "matches_at ivs z ts \<longleftrightarrow> local_end ivs (tz_local z ts) \<noteq> None"
  by (simp add: local_end_None matches_at_open_times)

text \<open>
  Away from clock changes the hold computed for a schedule is the open window: there is one
  exactly when the schedule matches now, the schedule then matches at every instant up to the
  returned end and not at the end itself, so the window is neither cut short nor overshot, however
  many intervals touch or overlap.
\<close>

lemma active_until_is_the_open_window:
  assumes "steady z off ts (ts + day_ns)" "\<forall>iv \<in> set ivs. iv_end iv < day_ns"
  shows "(active_until ivs z ts = None \<longleftrightarrow> \<not> matches_at ivs z ts) \<and>
         (active_until ivs z ts = Some e \<longrightarrow>
            ts < e \<and> (\<forall>t. ts \<le> t \<and> t < e \<longrightarrow> matches_at ivs z t) \<and> \<not> matches_at ivs z e)"
proof (cases "local_end ivs (ts + off)")
  case None
  moreover have "tz_local z ts = ts + off"
    using assms(1) by (simp add: steady_def day_ns_def seconds_def)
  ultimately show ?thesis by (simp add: active_until_def matches_at_iff_local_end)
next
  case (Some n)
  have loc: "tz_local z ts = ts + off"
    using assms(1) by (simp add: steady_def day_ns_def seconds_def)
  let ?d = "(ts + off) div day_ns * day_ns"
  note spec = local_end_spec [OF Some] and same = local_end_same_day [OF Some assms(2)]
  have day: "n div day_ns = (ts + off) div day_ns" using same(1) [of n] spec by simp
  have pos: "0 < day_ns" by (simp add: day_ns_def seconds_def)
  have "n div day_ns * day_ns = ?d" using day by simp
  then have "n < ts + off + day_ns"
    using pos div_mult_mod_eq [of n day_ns] div_mult_mod_eq [of "ts + off" day_ns]
      pos_mod_bound [OF pos, of n] pos_mod_sign [OF pos, of "ts + off"] by linarith
  then have within: "tz_local z t = t + off \<and> tz_from_local z (t + off) = Single t" if "ts \<le> t" "t \<le> n - off" for t
    using assms(1) that unfolding steady_def by auto
  have until: "active_until ivs z ts = Some (n - off)"
    using Some loc within [of "n - off"] spec by (simp add: active_until_def)
  have m: "matches_at ivs z t \<longleftrightarrow> t + off - ?d \<in> open_times (filter (\<lambda>iv. iv_day iv = from_chrono (ts + off)) ivs)"
    if "ts \<le> t" "t \<le> n - off" for t
  proof -
    have "(t + off) mod day_ns = t + off - ?d"
      using same(1) [of "t + off"] that by (simp add: minus_div_mult_eq_mod [symmetric])
    then show ?thesis
      using within [OF that] same(2) [of "t + off"] that by (simp add: matches_at_open_times)
  qed
  have "matches_at ivs z t" if "ts \<le> t" "t < n - off" for t
    using m [of t] that spec by auto
  moreover have "\<not> matches_at ivs z (n - off)"
    using m [of "n - off"] spec by auto
  ultimately show ?thesis using until spec by auto
qed

text \<open>
  A window whose end falls in the hour a spring-forward skips is not held a minute longer: the
  hold ends at the instant that reads one minute before the end, and when that minute is skipped
  too there is no hold at all, although the schedule matches now.
\<close>

lemma dst_gap_ends_the_hold_early:
  assumes "local_end ivs (tz_local z ts) = Some n" "tz_from_local z n = NoLocal"
  shows "matches_at ivs z ts \<and>
         (tz_from_local z (n - minutes 1) = Single e \<longrightarrow> active_until ivs z ts = Some e) \<and>
         (tz_from_local z (n - minutes 1) = NoLocal \<longrightarrow> active_until ivs z ts = None)"
  using assms by (simp add: matches_at_iff_local_end active_until_def)

lemma validate_ok: "validate ivs = Inr u \<longleftrightarrow> (\<forall>iv \<in> set ivs. iv_start iv < iv_end iv)"
proof -
  have "validate_from i ivs = None \<longleftrightarrow> (\<forall>iv \<in> set ivs. iv_start iv < iv_end iv)" for i
    by (induction ivs arbitrary: i) auto
  then show ?thesis by (simp add: validate_def split: option.splits) (metis option.distinct(1))
qed

section \<open>Witnesses\<close>

definition demo_utc :: tz where
  "demo_utc = \<lparr>tz_local = (\<lambda>t. t), tz_from_local = Single\<rparr>"

text \<open>A zone that springs forward from 02:00 to 03:00 on day zero.\<close>

definition demo_gap :: tz where
  "demo_gap = \<lparr>tz_local = (\<lambda>t. if t < minutes 120 then t else t + minutes 60),
     tz_from_local = (\<lambda>n. if n < minutes 120 then Single n
                          else if n < minutes 180 then NoLocal else Single (n - minutes 60))\<rparr>"

definition demo_hours :: "schedule_interval list" where
  "demo_hours = [\<lparr>iv_day = Thu, iv_start = minutes 75, iv_end = minutes 150\<rparr>,
     \<lparr>iv_day = Thu, iv_start = 0, iv_end = minutes 90\<rparr>]"

lemma demo_local_end: "local_end demo_hours (minutes 60) = Some (minutes 150)"
proof -
  have ds: "day_intervals demo_hours (from_chrono (minutes 60)) =
      [\<lparr>iv_day = Thu, iv_start = 0, iv_end = minutes 90\<rparr>, \<lparr>iv_day = Thu, iv_start = minutes 75, iv_end = minutes 150\<rparr>]"
    by (simp add: day_intervals_def demo_hours_def from_chrono_def day_ns_def seconds_def minutes_def)
  have "extend_end (day_intervals demo_hours (from_chrono (minutes 60))) (minutes 90) = minutes 150"
    unfolding ds by (subst extend_end.simps, subst extend_end.simps) (simp add: seconds_def minutes_def)
  then show ?thesis
    unfolding local_end_def Let_def ds by (simp add: day_ns_def seconds_def minutes_def)
qed

end
