(* ===== verification/Rbac.thy ===== *)
theory Rbac
  imports Prelude "HOL-Library.AList"
begin

text \<open>
  The role graph, \<^verbatim>\<open>server/src/rbac.rs\<close>. The hash maps of \<^verbatim>\<open>RoleGraph\<close> are association lists, because
  \<^verbatim>\<open>has_cycle\<close> iterates over one; nothing proved depends on their order. A level (\<^verbatim>\<open>i16\<close>) is an \<open>int\<close>:
  it is compared and never computed with. \<^verbatim>\<open>closure\<close> is a worklist loop with a termination
  proof; the recursion of \<^verbatim>\<open>has_cycle\<close> carries fuel, and the graph's own size is proved enough.
\<close>

record role_graph =
  own_perms :: "(uuid \<times> string set) list"
  inherits :: "(uuid \<times> uuid list) list"
  level :: "(uuid \<times> int) list"
  by_name :: "(string \<times> uuid) list"

text \<open>\<^verbatim>\<open>HashMap::entry(k).or_default()\<close> followed by an update in place.\<close>

definition entry_upd :: "'k \<Rightarrow> 'v \<Rightarrow> ('v \<Rightarrow> 'v) \<Rightarrow> ('k \<times> 'v) list \<Rightarrow> ('k \<times> 'v) list" where
  "entry_upd k dflt f al = AList.update k (f (case map_of al k of Some v \<Rightarrow> v | None \<Rightarrow> dflt)) al"

definition add_role :: "uuid \<times> string \<times> int \<Rightarrow> role_graph \<Rightarrow> role_graph" where
  "add_role r g =
     (case r of (rid, nm, lv) \<Rightarrow>
        g\<lparr>level := AList.update rid lv (level g),
          by_name := AList.update nm rid (by_name g),
          own_perms := entry_upd rid {} (\<lambda>s. s) (own_perms g),
          inherits := entry_upd rid [] (\<lambda>s. s) (inherits g)\<rparr>)"

definition add_perm :: "uuid \<times> string \<Rightarrow> role_graph \<Rightarrow> role_graph" where
  "add_perm p g = g\<lparr>own_perms := entry_upd (fst p) {} (insert (snd p)) (own_perms g)\<rparr>"

definition add_edge :: "uuid \<times> uuid \<Rightarrow> role_graph \<Rightarrow> role_graph" where
  "add_edge e g = g\<lparr>inherits := entry_upd (fst e) [] (\<lambda>ps. ps @ [snd e]) (inherits g)\<rparr>"

definition from_rows ::
  "(uuid \<times> string \<times> int) list \<Rightarrow> (uuid \<times> string) list \<Rightarrow> (uuid \<times> uuid) list \<Rightarrow> role_graph" where
  "from_rows role_rows perm_rows edge_rows =
     fold add_edge edge_rows (fold add_perm perm_rows (fold add_role role_rows
       \<lparr>own_perms = [], inherits = [], level = [], by_name = []\<rparr>))"

definition role_id :: "role_graph \<Rightarrow> string \<Rightarrow> uuid option" where
  "role_id g nm = map_of (by_name g) nm"

definition level_of_name :: "role_graph \<Rightarrow> string \<Rightarrow> int option" where
  "level_of_name g nm = Option.bind (map_of (by_name g) nm) (map_of (level g))"

definition parents :: "(uuid \<times> uuid list) list \<Rightarrow> uuid \<Rightarrow> uuid list" where
  "parents inh r = unwrap_or (map_of inh r) []"

definition edges :: "(uuid \<times> uuid list) list \<Rightarrow> (uuid \<times> uuid) set" where
  "edges inh = {(r, p). p \<in> set (parents inh r)}"

definition nodes :: "(uuid \<times> uuid list) list \<Rightarrow> uuid list" where
  "nodes inh = map fst inh @ concat (map snd inh)"

lemma parents_in_nodes: "p \<in> set (parents inh r) \<Longrightarrow> p \<in> set (nodes inh)"
  by (cases "map_of inh r") (fastforce simp: parents_def nodes_def dest: map_of_SomeD)+

lemma parents_key: "p \<in> set (parents inh r) \<Longrightarrow> r \<in> fst ` set inh"
  by (cases "map_of inh r") (force simp: parents_def dest: map_of_SomeD)+

section \<open>Closure\<close>

function closure_loop :: "(uuid \<times> uuid list) list \<Rightarrow> uuid set \<Rightarrow> uuid list \<Rightarrow> uuid set" where
  "closure_loop inh seen [] = seen"
| "closure_loop inh seen (r # stack) =
     (if r \<in> seen then closure_loop inh seen stack
      else closure_loop inh (insert r seen) (rev (parents inh r) @ stack))"
  by pat_completeness auto

termination
proof (relation "(\<lambda>(inh, seen, stack). card (set (nodes inh) \<union> set stack - seen)) <*mlex*>
    measure (\<lambda>(inh, seen, stack). length stack)")
  show "wf ((\<lambda>(inh, seen, stack). card (set (nodes inh) \<union> set stack - seen)) <*mlex*>
      measure (\<lambda>(inh, seen, stack). length stack))"
    by (intro wf_mlex wf_measure)
next
  fix inh and seen :: "uuid set" and r :: uuid and stack :: "uuid list"
  assume "r \<in> seen"
  then have "set (nodes inh) \<union> set (r # stack) - seen = set (nodes inh) \<union> set stack - seen" by auto
  then show "((inh, seen, stack), inh, seen, r # stack) \<in>
      (\<lambda>(inh, seen, stack). card (set (nodes inh) \<union> set stack - seen)) <*mlex*>
        measure (\<lambda>(inh, seen, stack). length stack)"
    by (intro mlex_leq) auto
next
  fix inh and seen :: "uuid set" and r :: uuid and stack :: "uuid list"
  assume "r \<notin> seen"
  then have "set (nodes inh) \<union> set (rev (parents inh r) @ stack) - insert r seen
      \<subset> set (nodes inh) \<union> set (r # stack) - seen"
    by (auto dest: parents_in_nodes)
  then have "card (set (nodes inh) \<union> set (rev (parents inh r) @ stack) - insert r seen)
      < card (set (nodes inh) \<union> set (r # stack) - seen)"
    by (intro psubset_card_mono) auto
  then show "((inh, insert r seen, rev (parents inh r) @ stack), inh, seen, r # stack) \<in>
      (\<lambda>(inh, seen, stack). card (set (nodes inh) \<union> set stack - seen)) <*mlex*>
        measure (\<lambda>(inh, seen, stack). length stack)"
    by (intro mlex_less) auto
qed

text \<open>The last element of the vector is popped first.\<close>

definition closure :: "role_graph \<Rightarrow> uuid list \<Rightarrow> uuid set" where
  "closure g roles = closure_loop (inherits g) {} (rev roles)"

definition effective_permissions :: "role_graph \<Rightarrow> uuid list \<Rightarrow> string set" where
  "effective_permissions g roles = (\<Union>r \<in> closure g roles. unwrap_or (map_of (own_perms g) r) {})"

definition effective_permissions_by_names :: "role_graph \<Rightarrow> string list \<Rightarrow> string set" where
  "effective_permissions_by_names g names = effective_permissions g (List.map_filter (role_id g) names)"

definition has_permission :: "role_graph \<Rightarrow> uuid list \<Rightarrow> string \<Rightarrow> bool" where
  "has_permission g roles key \<longleftrightarrow> key \<in> effective_permissions g roles"

definition has_permission_for_role_name :: "role_graph \<Rightarrow> string \<Rightarrow> string \<Rightarrow> bool" where
  "has_permission_for_role_name g role_name key =
     (case map_of (by_name g) role_name of Some r \<Rightarrow> has_permission g [r] key | None \<Rightarrow> False)"

definition effective_level :: "role_graph \<Rightarrow> uuid list \<Rightarrow> int" where
  "effective_level g roles =
     (let ls = {l. \<exists>r \<in> closure g roles. map_of (level g) r = Some l} in if ls = {} then 0 else Max ls)"

lemma closure_loop_reach:
  "edges inh `` seen \<subseteq> seen \<union> set stack \<Longrightarrow>
   closure_loop inh seen stack = seen \<union> (edges inh)\<^sup>* `` set stack"
proof (induction inh seen stack rule: closure_loop.induct)
  case (1 inh seen)
  then show ?case by auto
next
  case (2 inh seen r stack)
  have E: "edges inh `` {r} = set (parents inh r)" by (auto simp: edges_def)
  have star: "(edges inh)\<^sup>* `` {r} = insert r ((edges inh)\<^sup>* `` set (parents inh r))"
    by (auto simp: E [symmetric] elim: converse_rtranclE intro: converse_rtrancl_into_rtrancl)
  show ?case
  proof (cases "r \<in> seen")
    case True
    have cl: "closure_loop inh seen stack = seen \<union> (edges inh)\<^sup>* `` set stack"
      using 2 True by auto
    have "t \<in> seen \<union> (edges inh)\<^sup>* `` set stack" if "(r, t) \<in> (edges inh)\<^sup>*" for t
      using that
    proof (induction rule: rtrancl_induct)
      case (step y z)
      with "2.prems" True show ?case by (auto intro: rtrancl_into_rtrancl)
    qed (use True in auto)
    with cl True show ?thesis by auto
  next
    case False
    then have "closure_loop inh seen (r # stack) =
        insert r seen \<union> (edges inh)\<^sup>* `` (set (parents inh r) \<union> set stack)"
      using "2.IH"(2) "2.prems" E by auto
    then show ?thesis using star by auto
  qed
qed

lemma closure_reach: "closure g roles = (edges (inherits g))\<^sup>* `` set roles"
  by (simp add: closure_def closure_loop_reach)

section \<open>Cycles\<close>

datatype mark = White | Grey | Black

type_synonym marks = "uuid \<rightharpoonup> mark"

definition mark_of :: "marks \<Rightarrow> uuid \<Rightarrow> mark" where
  "mark_of m n = unwrap_or (m n) White"

text \<open>\<open>None\<close>: out of fuel. The flag says a cycle was found.\<close>

function dfs :: "nat \<Rightarrow> (uuid \<times> uuid list) list \<Rightarrow> uuid \<Rightarrow> marks \<Rightarrow> (bool \<times> marks) option"
  and dfs_list :: "nat \<Rightarrow> (uuid \<times> uuid list) list \<Rightarrow> uuid list \<Rightarrow> marks \<Rightarrow> (bool \<times> marks) option" where
  "dfs 0 inh n m = None"
| "dfs (Suc k) inh n m =
     (case dfs_list k inh (parents inh n) (m(n \<mapsto> Grey)) of
        None \<Rightarrow> None
      | Some (found, m') \<Rightarrow> if found then Some (True, m') else Some (False, m'(n \<mapsto> Black)))"
| "dfs_list k inh [] m = Some (False, m)"
| "dfs_list k inh (p # ps) m =
     (case mark_of m p of
        Grey \<Rightarrow> Some (True, m)
      | White \<Rightarrow>
          (case dfs k inh p m of
             None \<Rightarrow> None
           | Some (found, m') \<Rightarrow> if found then Some (True, m') else dfs_list k inh ps m')
      | Black \<Rightarrow> dfs_list k inh ps m)"
  by pat_completeness auto

termination
  by (relation "measures [\<lambda>a. case a of Inl (k, _) \<Rightarrow> k | Inr (k, _) \<Rightarrow> k,
        \<lambda>a. case a of Inl _ \<Rightarrow> 0 | Inr (_, _, ps, _) \<Rightarrow> Suc (length ps)]") auto

fun has_cycle_from :: "nat \<Rightarrow> (uuid \<times> uuid list) list \<Rightarrow> uuid list \<Rightarrow> marks \<Rightarrow> bool option" where
  "has_cycle_from k inh [] m = Some False"
| "has_cycle_from k inh (n # ns) m =
     (if mark_of m n = White
      then (case dfs k inh n m of
              None \<Rightarrow> None
            | Some (found, m') \<Rightarrow> if found then Some True else has_cycle_from k inh ns m')
      else has_cycle_from k inh ns m)"

definition has_cycle :: "role_graph \<Rightarrow> bool option" where
  "has_cycle g =
     (let inh = inherits g
      in has_cycle_from (length (nodes inh)) inh (map fst inh)
           (map_of (map (\<lambda>(k, _). (k, White)) inh)))"

definition marked :: "mark \<Rightarrow> marks \<Rightarrow> uuid set" where
  "marked c m = {n. mark_of m n = c}"

text \<open>What a search returns, for a list of nodes to visit.\<close>

definition dfs_post :: "(uuid \<times> uuid list) list \<Rightarrow> uuid set \<Rightarrow> marks \<Rightarrow> bool \<times> marks \<Rightarrow> bool" where
  "dfs_post inh visited m r \<longleftrightarrow>
     (if fst r then \<exists>x. (x, x) \<in> (edges inh)\<^sup>+
      else marked Grey (snd r) = marked Grey m \<and> marked Black m \<subseteq> marked Black (snd r) \<and>
           visited \<subseteq> marked Black (snd r) \<and> edges inh `` marked Black (snd r) \<subseteq> marked Black (snd r) \<and>
           acyclic (edges inh \<inter> marked Black (snd r) \<times> marked Black (snd r)))"

definition dfs_pre :: "(uuid \<times> uuid list) list \<Rightarrow> uuid set \<Rightarrow> marks \<Rightarrow> bool" where
  "dfs_pre inh visit m \<longleftrightarrow>
     edges inh `` marked Black m \<subseteq> marked Black m \<and>
     acyclic (edges inh \<inter> marked Black m \<times> marked Black m) \<and>
     marked Grey m \<times> visit \<subseteq> (edges inh)\<^sup>+"

lemma marked_upd [simp]:
  "marked c (m(n \<mapsto> d)) = (if c = d then insert n (marked c m) else marked c m - {n})"
  by (auto simp: marked_def mark_of_def)

lemma mark_of_marked: "mark_of m n = c \<longleftrightarrow> n \<in> marked c m"
  by (simp add: marked_def)

lemma marked_disjoint: "n \<in> marked c m \<Longrightarrow> n \<in> marked d m \<Longrightarrow> c = d"
  by (simp add: marked_def)

text \<open>A node all of whose parents are in a closed acyclic set extends it.\<close>

lemma acyclic_extend:
  assumes "acyclic (E \<inter> B \<times> B)" "E `` B \<subseteq> B" "E `` {n} \<subseteq> B" "n \<notin> B"
  shows "acyclic (E \<inter> insert n B \<times> insert n B)"
proof -
  have *: "(x, y) \<in> (E \<inter> B \<times> B)\<^sup>+" if "(x, y) \<in> (E \<inter> insert n B \<times> insert n B)\<^sup>+" "x \<in> B" for x y
    using that
  proof (induction rule: trancl_induct)
    case (base y)
    then show ?case using assms(2) by blast
  next
    case (step y z)
    then have "(x, y) \<in> (E \<inter> B \<times> B)\<^sup>+" by simp
    moreover from this have "y \<in> B" by (induction rule: trancl_induct) auto
    then have "(y, z) \<in> E \<inter> B \<times> B" using step assms(2) by blast
    ultimately show ?case by (rule trancl_into_trancl)
  qed
  show ?thesis
  proof (rule acyclicI, rule allI, rule notI)
    fix x assume x: "(x, x) \<in> (E \<inter> insert n B \<times> insert n B)\<^sup>+"
    show False
    proof (cases "x \<in> B")
      case True
      then show False using * [OF x] assms(1) by (simp add: acyclic_def)
    next
      case False
      from x obtain y where y: "(x, y) \<in> E \<inter> insert n B \<times> insert n B"
          "(y, x) \<in> (E \<inter> insert n B \<times> insert n B)\<^sup>*"
        by (meson tranclD)
      with False have "x = n" by blast
      with y have "y \<in> B" using assms(3) by blast
      with y \<open>x = n\<close> assms(4) have "(y, x) \<in> (E \<inter> insert n B \<times> insert n B)\<^sup>+"
        by (metis rtranclD)
      then have "(y, x) \<in> (E \<inter> B \<times> B)\<^sup>+" using * \<open>y \<in> B\<close> by blast
      then have "x \<in> B" by (induction rule: trancl_induct) auto
      with False show False by simp
    qed
  qed
qed

lemma dfs_correct:
  "dfs k inh n m = Some r \<Longrightarrow> dfs_pre inh {n} m \<Longrightarrow> n \<in> marked White m \<Longrightarrow> dfs_post inh {n} m r"
  "dfs_list k inh ps m = Some r \<Longrightarrow> dfs_pre inh (set ps) m \<Longrightarrow> dfs_post inh (set ps) m r"
proof (induction k inh n m and k inh ps m arbitrary: r and r rule: dfs_dfs_list.induct)
  case (2 k inh n m)
  let ?m1 = "m(n \<mapsto> Grey)"
  obtain f m2 where l: "dfs_list k inh (parents inh n) ?m1 = Some (f, m2)"
    and r: "r = (if f then (True, m2) else (False, m2(n \<mapsto> Black)))"
    using "2.prems"(1) by (auto split: option.splits if_splits)
  have nB: "n \<notin> marked Black m" "n \<notin> marked Grey m"
    using "2.prems"(3) marked_disjoint by fastforce+
  have E: "edges inh `` {n} = set (parents inh n)" by (auto simp: edges_def)
  have "insert n (marked Grey m) \<times> set (parents inh n) \<subseteq> (edges inh)\<^sup>+"
    using "2.prems"(2) by (auto simp: dfs_pre_def E [symmetric] intro: trancl_into_trancl)
  then have "dfs_pre inh (set (parents inh n)) ?m1"
    using "2.prems"(2) nB by (simp add: dfs_pre_def)
  with "2.IH" l have post: "dfs_post inh (set (parents inh n)) ?m1 (f, m2)" by blast
  show ?case
  proof (cases f)
    case True
    with post r show ?thesis by (simp add: dfs_post_def)
  next
    case False
    with post have p: "marked Grey m2 = insert n (marked Grey m)" "marked Black m \<subseteq> marked Black m2"
        "set (parents inh n) \<subseteq> marked Black m2" "edges inh `` marked Black m2 \<subseteq> marked Black m2"
        "acyclic (edges inh \<inter> marked Black m2 \<times> marked Black m2)"
      using nB by (auto simp: dfs_post_def)
    have "n \<notin> marked Black m2" using p(1) marked_disjoint by fastforce
    then have "acyclic (edges inh \<inter> insert n (marked Black m2) \<times> insert n (marked Black m2))"
      using p E by (intro acyclic_extend) auto
    with p E False r nB show ?thesis
      by (auto simp: dfs_post_def)
  qed
next
  case (4 k inh p ps m)
  show ?case
  proof (cases "mark_of m p")
    case Grey
    with 4 show ?thesis by (auto simp: dfs_pre_def dfs_post_def mark_of_marked)
  next
    case Black
    have "dfs_pre inh (set ps) m" using "4.prems"(2) by (auto simp: dfs_pre_def)
    with "4.IH"(3) "4.prems"(1) Black have "dfs_post inh (set ps) m r" by simp
    with Black show ?thesis by (auto simp: dfs_post_def mark_of_marked)
  next
    case White
    then obtain f m2 where d: "dfs k inh p m = Some (f, m2)"
      and r: "(f \<and> r = (True, m2)) \<or> (\<not> f \<and> dfs_list k inh ps m2 = Some r)"
      using "4.prems"(1) by (auto split: option.splits if_splits)
    have "dfs_pre inh {p} m" using "4.prems"(2) by (auto simp: dfs_pre_def)
    with "4.IH"(1) White d have post: "dfs_post inh {p} m (f, m2)"
      by (simp add: mark_of_marked)
    show ?thesis
    proof (cases f)
      case True
      with post r show ?thesis by (simp add: dfs_post_def)
    next
      case False
      then have "dfs_pre inh (set ps) m2"
        using post "4.prems"(2) by (auto simp: dfs_post_def dfs_pre_def)
      with "4.IH"(2) White d r False have "dfs_post inh (set ps) m2 r" by simp
      with post False show ?thesis by (auto simp: dfs_post_def split: if_splits)
    qed
  qed
qed (auto simp: dfs_pre_def dfs_post_def)

text \<open>Fuel: one unit per white node of the graph is enough, and white nodes only get fewer.\<close>

definition white_count :: "(uuid \<times> uuid list) list \<Rightarrow> marks \<Rightarrow> nat" where
  "white_count inh m = card (marked White m \<inter> set (nodes inh))"

lemma white_count_mono: "marked White m' \<subseteq> marked White m \<Longrightarrow> white_count inh m' \<le> white_count inh m"
  unfolding white_count_def by (intro card_mono) auto

lemma dfs_fuel:
  "n \<in> marked White m \<Longrightarrow> n \<in> set (nodes inh) \<Longrightarrow> white_count inh m \<le> k \<Longrightarrow>
     \<exists>r. dfs k inh n m = Some r \<and> marked White (snd r) \<subseteq> marked White m"
  "set ps \<subseteq> set (nodes inh) \<Longrightarrow> white_count inh m \<le> k \<Longrightarrow>
     \<exists>r. dfs_list k inh ps m = Some r \<and> marked White (snd r) \<subseteq> marked White m"
proof (induction k inh n m and k inh ps m rule: dfs_dfs_list.induct)
  case (1 inh n m)
  then have "n \<in> marked White m \<inter> set (nodes inh)" by simp
  then have "0 < white_count inh m" unfolding white_count_def card_gt_0_iff by auto
  with 1 show ?case by simp
next
  case (2 k inh n m)
  have "marked White (m(n \<mapsto> Grey)) \<inter> set (nodes inh) \<subset> marked White m \<inter> set (nodes inh)"
    using "2.prems" by auto
  then have "white_count inh (m(n \<mapsto> Grey)) < white_count inh m"
    unfolding white_count_def by (intro psubset_card_mono) auto
  then have le: "white_count inh (m(n \<mapsto> Grey)) \<le> k" using "2.prems" by simp
  have "set (parents inh n) \<subseteq> set (nodes inh)" using parents_in_nodes by blast
  from "2.IH" [OF this le] obtain f m2 where
    "dfs_list k inh (parents inh n) (m(n \<mapsto> Grey)) = Some (f, m2)"
    "marked White m2 \<subseteq> marked White (m(n \<mapsto> Grey))"
    by (metis prod.collapse)
  then show ?case unfolding marked_upd by auto
next
  case (4 k inh p ps m)
  show ?case
  proof (cases "mark_of m p")
    case White
    then obtain f m2 where d: "dfs k inh p m = Some (f, m2)" "marked White m2 \<subseteq> marked White m"
      using "4.IH"(1) "4.prems" by (auto simp: mark_of_marked)
    show ?thesis
    proof (cases f)
      case False
      have "white_count inh m2 \<le> k" using white_count_mono [OF d(2), of inh] "4.prems" by simp
      then obtain r where "dfs_list k inh ps m2 = Some r" "marked White (snd r) \<subseteq> marked White m2"
        using "4.IH"(2) [OF White d(1) refl False] "4.prems" by auto
      with White d False show ?thesis by auto
    qed (use White d in auto)
  qed (use 4 in auto)
qed auto

lemma has_cycle_from_correct:
  assumes "set ns \<subseteq> set (nodes inh)" "white_count inh m \<le> k"
    and "marked Grey m = {}" "edges inh `` marked Black m \<subseteq> marked Black m"
    and "acyclic (edges inh \<inter> marked Black m \<times> marked Black m)"
    and "\<forall>r. edges inh `` {r} \<noteq> {} \<longrightarrow> r \<in> marked Black m \<union> set ns"
  shows "has_cycle_from k inh ns m = Some (\<not> acyclic (edges inh))"
  using assms
proof (induction ns arbitrary: m)
  case Nil
  have "edges inh \<subseteq> marked Black m \<times> marked Black m"
  proof (rule subrelI)
    fix a b assume ab: "(a, b) \<in> edges inh"
    then have a: "a \<in> marked Black m" using Nil(6) by auto
    with ab Nil(4) show "(a, b) \<in> marked Black m \<times> marked Black m" by auto
  qed
  then have "edges inh \<inter> marked Black m \<times> marked Black m = edges inh" by auto
  with Nil show ?case by simp
next
  case (Cons n ns)
  show ?case
  proof (cases "mark_of m n = White")
    case True
    then have w: "n \<in> marked White m" by (simp add: mark_of_marked)
    then obtain f m2 where d: "dfs k inh n m = Some (f, m2)" "marked White m2 \<subseteq> marked White m"
      using dfs_fuel(1) [of n m inh k] Cons.prems by auto
    have post: "dfs_post inh {n} m (f, m2)"
      using dfs_correct(1) [OF d(1) _ w] Cons.prems by (simp add: dfs_pre_def)
    show ?thesis
    proof (cases f)
      case True
      with post have "\<not> acyclic (edges inh)" by (auto simp: dfs_post_def acyclic_def)
      with True d \<open>mark_of m n = White\<close> show ?thesis by simp
    next
      case False
      have "white_count inh m2 \<le> k" using white_count_mono [OF d(2), of inh] Cons.prems by simp
      with post False Cons.prems have "has_cycle_from k inh ns m2 = Some (\<not> acyclic (edges inh))"
        by (intro Cons.IH) (auto simp: dfs_post_def)
      with False d \<open>mark_of m n = White\<close> show ?thesis by simp
    qed
  next
    case False
    then have "n \<in> marked Black m"
      using Cons.prems(3) by (cases "mark_of m n") (auto simp: marked_def)
    with Cons.prems have "has_cycle_from k inh ns m = Some (\<not> acyclic (edges inh))"
      by (intro Cons.IH) auto
    with False show ?thesis by simp
  qed
qed

lemma white_start: "marked c (map_of (map (\<lambda>(k, _). (k, White)) inh)) = (if c = White then UNIV else {})"
proof -
  have "mark_of (map_of (map (\<lambda>(k, _). (k, White)) inh)) n = White" for n
    by (induction inh) (auto simp: mark_of_def)
  then show ?thesis by (auto simp: marked_def)
qed

section \<open>Properties\<close>

text \<open>
  C16. The cycle check that guards every new inheritance edge always returns, with the fuel the graph's
  size gives it, and says true exactly when the inheritance relation has a cycle.
\<close>

theorem has_cycle_iff_cyclic: "has_cycle g = Some (\<not> acyclic (edges (inherits g)))"
proof -
  let ?inh = "inherits g" and ?m = "map_of (map (\<lambda>(k, _). (k, White)) (inherits g))"
  have "white_count ?inh ?m \<le> length (nodes ?inh)"
    by (simp add: white_count_def white_start card_length)
  moreover have "\<forall>r. edges ?inh `` {r} \<noteq> {} \<longrightarrow> r \<in> marked Black ?m \<union> set (map fst ?inh)"
    using parents_key by (fastforce simp: edges_def)
  ultimately show ?thesis
    unfolding has_cycle_def Let_def
    by (intro has_cycle_from_correct) (auto simp: white_start nodes_def acyclic_def)
qed

text \<open>
  A principal's permissions are those of every role reachable by inheritance from the roles it
  holds and of no other, cycles or not; its level is the highest level among those roles, zero when
  none has one; and a role name the graph does not know holds nothing.
\<close>

lemma permissions_are_reachable:
  "(has_permission g roles key \<longleftrightarrow>
      (\<exists>s \<in> set roles. \<exists>r ps. (s, r) \<in> (edges (inherits g))\<^sup>* \<and> map_of (own_perms g) r = Some ps \<and> key \<in> ps)) \<and>
   (\<forall>s \<in> set roles. \<forall>r l. (s, r) \<in> (edges (inherits g))\<^sup>* \<and> map_of (level g) r = Some l \<longrightarrow>
      l \<le> effective_level g roles) \<and>
   (effective_level g roles = 0 \<or>
      (\<exists>s \<in> set roles. \<exists>r. (s, r) \<in> (edges (inherits g))\<^sup>* \<and> map_of (level g) r = Some (effective_level g roles))) \<and>
   (role_id g nm = None \<longrightarrow> \<not> has_permission_for_role_name g nm key)"
proof -
  let ?ls = "{l. \<exists>r \<in> closure g roles. map_of (level g) r = Some l}"
  have "?ls \<subseteq> snd ` set (level g)" by (force dest: map_of_SomeD)
  then have fin: "finite ?ls" by (rule finite_subset) simp
  have lev: "effective_level g roles = (if ?ls = {} then 0 else Max ?ls)"
    by (simp add: effective_level_def Let_def)
  have ge: "l \<le> effective_level g roles" if "l \<in> ?ls" for l
    using that fin by (auto simp: lev)
  have att: "effective_level g roles = 0 \<or> effective_level g roles \<in> ?ls"
    using Max_in [OF fin] by (auto simp: lev)
  have perm: "has_permission g roles key \<longleftrightarrow> (\<exists>r ps. r \<in> closure g roles \<and> map_of (own_perms g) r = Some ps \<and> key \<in> ps)"
    unfolding has_permission_def effective_permissions_def
    by (auto split: option.splits) (metis unwrap_or.simps empty_iff option.exhaust)+
  show ?thesis
    using ge att perm
    by (auto simp: closure_reach role_id_def has_permission_for_role_name_def)
qed

end
