(* ===== verification/Access.thy ===== *)
theory Access
  imports Schedules Rbac Toolguard
begin

text \<open>
  The server's one access decision, \<^verbatim>\<open>server/src/access_engine.rs\<close>, with the rule vocabulary of
  \<^verbatim>\<open>server/src/models/doors.rs\<close> and the schedule gate of \<^verbatim>\<open>server/src/doors.rs\<close>. The site's zone and the
  decoding of a schedule's stored intervals come together in \<open>sched_env\<close>; UUID text in \<open>text_ops\<close>.
\<close>

datatype door_rule_kind = Role | User | Card | OpenAccess

definition door_rule_kind_parse :: "string \<Rightarrow> door_rule_kind option" where
  "door_rule_kind_parse s =
     (if s = ''role'' then Some Role else if s = ''user'' then Some User
      else if s = ''card'' then Some Card else if s = ''open_access'' then Some OpenAccess else None)"

fun door_rule_kind_as_str :: "door_rule_kind \<Rightarrow> string" where
  "door_rule_kind_as_str Role = ''role''"
| "door_rule_kind_as_str User = ''user''"
| "door_rule_kind_as_str Card = ''card''"
| "door_rule_kind_as_str OpenAccess = ''open_access''"

datatype door_rule_effect = EAllow | EDeny

definition door_rule_effect_parse :: "string \<Rightarrow> door_rule_effect option" where
  "door_rule_effect_parse s =
     (if s = ''allow'' then Some EAllow else if s = ''deny'' then Some EDeny else None)"

fun door_rule_effect_as_str :: "door_rule_effect \<Rightarrow> string" where
  "door_rule_effect_as_str EAllow = ''allow''"
| "door_rule_effect_as_str EDeny = ''deny''"

lemma door_rule_parse_as_str [simp]:
  "door_rule_kind_parse (door_rule_kind_as_str k) = Some k"
  "door_rule_effect_parse (door_rule_effect_as_str e) = Some e"
  by (cases k; simp add: door_rule_kind_parse_def) (cases e; simp add: door_rule_effect_parse_def)

record access_rule =
  ar_id :: uuid
  ar_resource_id :: uuid
  ar_kind :: string
  ar_value :: string
  ar_effect :: string
  ar_schedule_id :: "uuid option"

section \<open>The schedule gate\<close>

record sched_env =
  parse_intervals :: "json \<Rightarrow> schedule_interval list option"
  site_tz :: tz

datatype schedule_state = Active | Inactive | Unresolvable

definition schedule_state_at ::
  "sched_env \<Rightarrow> uuid option \<Rightarrow> schedule list \<Rightarrow> instant \<Rightarrow> schedule_state" where
  "schedule_state_at v schedule_id schedules now =
     (case schedule_id of
        None \<Rightarrow> Active
      | Some sid \<Rightarrow>
          (case find (\<lambda>s. sch_id s = sid) schedules of
             None \<Rightarrow> Unresolvable
           | Some sched \<Rightarrow>
               (case parse_intervals v (sch_intervals sched) of
                  None \<Rightarrow> Unresolvable
                | Some ivs \<Rightarrow> if matches_at ivs (site_tz v) now then Active else Inactive)))"

definition rule_fires :: "door_rule_effect \<Rightarrow> schedule_state \<Rightarrow> bool" where
  "rule_fires effect st =
     (case st of Active \<Rightarrow> True | Inactive \<Rightarrow> False | Unresolvable \<Rightarrow> effect = EDeny)"

section \<open>The engine\<close>

datatype action = Use | Unlock | UnlockRemote

fun needs_identity :: "action \<Rightarrow> bool" where
  "needs_identity Use = True"
| "needs_identity Unlock = True"
| "needs_identity UnlockRemote = True"

datatype deny_reason = LockedOut | Unavailable string | InactiveUser | Rule | NoMatch | Training | Billing

datatype may_decision = MAllow | MDeny deny_reason

record principal =
  pr_user_id :: "uuid option"
  pr_level :: int
  pr_card_digests :: "string set"
  pr_is_active :: bool

datatype default_effect = Open | Restricted

record engine_policy =
  ep_locked_out :: bool
  ep_unavailable :: "string option"
  ep_default_effect :: default_effect
  ep_schedule_id :: "uuid option"
  ep_training_ok :: "bool option"
  ep_metered_ok :: "bool option"

definition rule_matches :: "text_ops \<Rightarrow> principal \<Rightarrow> role_graph \<Rightarrow> door_rule_kind \<Rightarrow> string \<Rightarrow> bool" where
  "rule_matches x pr graph k v =
     (case k of
        Card \<Rightarrow> v \<in> pr_card_digests pr
      | User \<Rightarrow> map_option (uuid_show x) (pr_user_id pr) = Some v
      | Role \<Rightarrow> (case level_of_name graph v of Some required \<Rightarrow> required \<le> pr_level pr | None \<Rightarrow> False)
      | OpenAccess \<Rightarrow> False)"

text \<open>The loop over the rules, with the two flags it sets.\<close>

fun may_rules ::
  "text_ops \<Rightarrow> sched_env \<Rightarrow> principal \<Rightarrow> role_graph \<Rightarrow> schedule list \<Rightarrow> instant \<Rightarrow> access_rule list \<Rightarrow>
   bool \<times> bool \<Rightarrow> bool \<times> bool" where
  "may_rules x v pr graph schedules now [] flags = flags"
| "may_rules x v pr graph schedules now (r # rs) (al, dn) =
     (case door_rule_effect_parse (ar_effect r) of
        None \<Rightarrow> may_rules x v pr graph schedules now rs (al, dn)
      | Some effect \<Rightarrow>
          if \<not> rule_fires effect (schedule_state_at v (ar_schedule_id r) schedules now)
          then may_rules x v pr graph schedules now rs (al, dn)
          else
            (case door_rule_kind_parse (ar_kind r) of
               None \<Rightarrow> may_rules x v pr graph schedules now rs (al, dn)
             | Some k \<Rightarrow>
                 if \<not> rule_matches x pr graph k (ar_value r)
                 then may_rules x v pr graph schedules now rs (al, dn)
                 else (case effect of
                         EAllow \<Rightarrow> may_rules x v pr graph schedules now rs (True, dn)
                       | EDeny \<Rightarrow> may_rules x v pr graph schedules now rs (al, True))))"

definition may ::
  "text_ops \<Rightarrow> sched_env \<Rightarrow> principal \<Rightarrow> engine_policy \<Rightarrow> access_rule list \<Rightarrow> schedule list \<Rightarrow> instant \<Rightarrow>
   role_graph \<Rightarrow> action \<Rightarrow> may_decision" where
  "may x v pr pol rules schedules now graph act =
     (if ep_locked_out pol then MDeny LockedOut
      else case ep_unavailable pol of
        Some reason \<Rightarrow> MDeny (Unavailable reason)
      | None \<Rightarrow>
        if needs_identity act \<and> \<not> pr_is_active pr then MDeny InactiveUser
        else
          (let (matched_allow, matched_deny) = may_rules x v pr graph schedules now rules (False, False)
           in if matched_deny then MDeny Rule
              else
                let default_open = (ep_default_effect pol = Open \<and>
                      rule_fires EAllow (schedule_state_at v (ep_schedule_id pol) schedules now))
                in if \<not> matched_allow \<and> \<not> default_open then MDeny NoMatch
                   else if ep_training_ok pol = Some False then MDeny Training
                   else if ep_metered_ok pol = Some False then MDeny Billing
                   else MAllow))"

text \<open>The policy of a door, as the check-in path builds it.\<close>

definition door_policy :: "bool \<Rightarrow> engine_policy" where
  "door_policy enabled = \<lparr>ep_locked_out = False,
     ep_unavailable = (if \<not> enabled then Some ''Door is disabled'' else None),
     ep_default_effect = Restricted, ep_schedule_id = None, ep_training_ok = None, ep_metered_ok = None\<rparr>"

section \<open>Properties\<close>

text \<open>A rule of a parseable effect whose schedule lets it fire now and that names the principal.\<close>

definition applies ::
  "text_ops \<Rightarrow> sched_env \<Rightarrow> principal \<Rightarrow> role_graph \<Rightarrow> schedule list \<Rightarrow> instant \<Rightarrow> door_rule_effect \<Rightarrow> access_rule \<Rightarrow> bool" where
  "applies x v pr graph schedules now effect r \<longleftrightarrow>
     door_rule_effect_parse (ar_effect r) = Some effect \<and>
     rule_fires effect (schedule_state_at v (ar_schedule_id r) schedules now) \<and>
     is_some_and (door_rule_kind_parse (ar_kind r)) (\<lambda>k. rule_matches x pr graph k (ar_value r))"

lemma may_rules_flags:
  "may_rules x v pr graph schedules now rs (al, dn) =
     (al \<or> (\<exists>r \<in> set rs. applies x v pr graph schedules now EAllow r),
      dn \<or> (\<exists>r \<in> set rs. applies x v pr graph schedules now EDeny r))"
  by (induction rs arbitrary: al dn)
     (auto simp: applies_def is_some_and_iff split: option.splits door_rule_effect.splits)

lemma needs_identity_all [simp]: "needs_identity act"
  by (cases act) simp_all

text \<open>
  C15. The engine allows exactly when the resource is neither locked out nor unavailable, the
  principal is active, no deny rule applies, an allow rule applies or the resource is open by
  default within its own schedule, and neither training nor billing refuses. In particular a deny
  rule beats every grant, a rule with an unknown kind or effect counts for nothing, and the order
  of the rules does not matter.
\<close>

theorem may_allow_iff:
  "may x v pr pol rules schedules now graph act = MAllow \<longleftrightarrow>
     \<not> ep_locked_out pol \<and> ep_unavailable pol = None \<and> pr_is_active pr \<and>
     \<not> (\<exists>r \<in> set rules. applies x v pr graph schedules now EDeny r) \<and>
     ((\<exists>r \<in> set rules. applies x v pr graph schedules now EAllow r) \<or>
      (ep_default_effect pol = Open \<and> schedule_state_at v (ep_schedule_id pol) schedules now = Active)) \<and>
     ep_training_ok pol \<noteq> Some False \<and> ep_metered_ok pol \<noteq> Some False"
  by (auto simp: may_def may_rules_flags rule_fires_def Let_def
      split: option.splits schedule_state.splits)

lemma find_filter_key:
  "find (\<lambda>s. sch_id s = sid) (filter (\<lambda>s. keep (sch_id s)) ss) =
     (if keep sid then find (\<lambda>s. sch_id s = sid) ss else None)"
  by (induction ss) auto

lemma schedule_state_filter:
  "schedule_state_at v sid (filter (\<lambda>s. keep (sch_id s)) ss) now =
     (if is_none_or sid keep then schedule_state_at v sid ss now else Unresolvable)"
  by (cases sid) (auto simp: schedule_state_at_def find_filter_key split: option.splits)

lemma may_allowD:
  "may x v pr pol rules schedules now graph act = MAllow \<Longrightarrow>
     \<not> ep_locked_out pol \<and> ep_unavailable pol = None \<and> pr_is_active pr \<and>
     (\<forall>r \<in> set rules. \<not> applies x v pr graph schedules now EDeny r) \<and>
     ((\<exists>r \<in> set rules. applies x v pr graph schedules now EAllow r) \<or>
      (ep_default_effect pol = Open \<and> schedule_state_at v (ep_schedule_id pol) schedules now = Active)) \<and>
     ep_training_ok pol \<noteq> Some False \<and> ep_metered_ok pol \<noteq> Some False"
  by (auto simp: may_def may_rules_flags rule_fires_def Let_def
      split: option.splits schedule_state.splits if_splits)

lemma may_allowI:
  assumes "\<not> ep_locked_out pol" "ep_unavailable pol = None" "pr_is_active pr"
    and "\<forall>r \<in> set rules. \<not> applies x v pr graph schedules now EDeny r"
    and "(\<exists>r \<in> set rules. applies x v pr graph schedules now EAllow r) \<or>
      (ep_default_effect pol = Open \<and> schedule_state_at v (ep_schedule_id pol) schedules now = Active)"
    and "ep_training_ok pol \<noteq> Some False" "ep_metered_ok pol \<noteq> Some False"
  shows "may x v pr pol rules schedules now graph act = MAllow"
  using assms by (auto simp: may_def may_rules_flags rule_fires_def Let_def)

text \<open>
  Losing schedules only tightens: whoever the engine lets in after some schedules have
  disappeared it also lets in with all of them present.
\<close>

lemma losing_a_schedule_never_widens_access:
  assumes "may x v pr pol rules (filter (\<lambda>s. keep (sch_id s)) schedules) now graph act = MAllow"
  shows "may x v pr pol rules schedules now graph act = MAllow"
proof (rule may_allowI)
  let ?ss = "filter (\<lambda>s. keep (sch_id s)) schedules"
  note D = may_allowD [OF assms]
  have allow: "applies x v pr graph ?ss now EAllow r \<Longrightarrow> applies x v pr graph schedules now EAllow r" for r
    by (auto simp: applies_def schedule_state_filter rule_fires_def split: if_splits)
  have deny: "applies x v pr graph schedules now EDeny r \<Longrightarrow> applies x v pr graph ?ss now EDeny r" for r
    by (auto simp: applies_def schedule_state_filter rule_fires_def split: schedule_state.splits)
  show "\<forall>r \<in> set rules. \<not> applies x v pr graph schedules now EDeny r" using D deny by blast
  show "(\<exists>r \<in> set rules. applies x v pr graph schedules now EAllow r) \<or>
      (ep_default_effect pol = Open \<and> schedule_state_at v (ep_schedule_id pol) schedules now = Active)"
    using D allow by (auto simp: schedule_state_filter split: if_splits)
qed (use may_allowD [OF assms] in simp_all)

section \<open>Witnesses\<close>

definition demo_env :: sched_env where
  "demo_env = \<lparr>parse_intervals = (\<lambda>_. Some demo_hours), site_tz = demo_utc\<rparr>"

definition demo_arule :: "string \<Rightarrow> string \<Rightarrow> string \<Rightarrow> access_rule" where
  "demo_arule k v e = \<lparr>ar_id = 0, ar_resource_id = 7, ar_kind = k, ar_value = v, ar_effect = e,
     ar_schedule_id = None\<rparr>"

definition demo_principal :: principal where
  "demo_principal = \<lparr>pr_user_id = Some 9, pr_level = 3, pr_card_digests = {''dA''}, pr_is_active = True\<rparr>"

definition demo_graph :: role_graph where
  "demo_graph = from_rows [(1, ''staff'', 3)] [] []"

end
