(* ===== verification/Doors.thy ===== *)
theory Doors
  imports Access Resources
begin

text \<open>
  The server's door service, \<^verbatim>\<open>server/src/doors.rs\<close>: expansion of access rules into card lists, the
  Open Access hold, compilation of a device's snapshot, the check-in decision, signed unlock
  commands and the change ticker; and the policy builder of \<^verbatim>\<open>server/src/api/resources.rs\<close>. What the
  methods read from the database is the record \<open>door_db\<close>; database errors are not modelled. A map
  that is iterated is an association list. The snapshot types are the edge's (they mirror the
  server's field by field).
\<close>

record door =
  d_id :: uuid
  d_name :: string
  d_enabled :: bool

record strike_profile =
  sp_pulse_ms :: int
  sp_hold_open_access :: bool

fun cards_in_profile_value :: "json option \<Rightarrow> string list" where
  "cards_in_profile_value (Some (JStr s)) = (if s \<noteq> [] then [s] else [])"
| "cards_in_profile_value (Some (JArr vs)) =
     filter (\<lambda>s. s \<noteq> []) (List.map_filter json_as_str vs)"
| "cards_in_profile_value _ = []"

definition cards_in_profile :: "json \<Rightarrow> string \<Rightarrow> string list" where
  "cards_in_profile profile field = cards_in_profile_value (json_get profile field)"

section \<open>Open Access\<close>

fun open_access_loop ::
  "sched_env \<Rightarrow> schedule list \<Rightarrow> instant \<Rightarrow> access_rule list \<Rightarrow> instant option \<Rightarrow> instant option" where
  "open_access_loop v schedules now [] latest = latest"
| "open_access_loop v schedules now (r # rs) latest =
     (if door_rule_kind_parse (ar_kind r) \<noteq> Some OpenAccess then open_access_loop v schedules now rs latest
      else if door_rule_effect_parse (ar_effect r) \<noteq> Some EAllow then open_access_loop v schedules now rs latest
      else case ar_schedule_id r of
        None \<Rightarrow> open_access_loop v schedules now rs latest
      | Some sid \<Rightarrow>
          (case find (\<lambda>s. sch_id s = sid) schedules of
             None \<Rightarrow> open_access_loop v schedules now rs latest
           | Some sched \<Rightarrow>
               (case parse_intervals v (sch_intervals sched) of
                  None \<Rightarrow> open_access_loop v schedules now rs latest
                | Some ivs \<Rightarrow>
                    (case active_until ivs (site_tz v) now of
                       Some e \<Rightarrow> open_access_loop v schedules now rs
                                   (Some (case latest of None \<Rightarrow> e | Some cur \<Rightarrow> max cur e))
                     | None \<Rightarrow> open_access_loop v schedules now rs latest))))"

definition open_access_hold_until_at ::
  "sched_env \<Rightarrow> access_rule list \<Rightarrow> schedule list \<Rightarrow> instant \<Rightarrow> instant option" where
  "open_access_hold_until_at v rules schedules now = open_access_loop v schedules now rules None"

section \<open>Rule expansion\<close>

definition cards_of_level :: "(uuid \<times> string list) list \<Rightarrow> (uuid \<rightharpoonup> int) \<Rightarrow> int \<Rightarrow> string set" where
  "cards_of_level cards_by_user user_levels required =
     \<Union> (set (map (\<lambda>(uid, cs). if required \<le> unwrap_or (user_levels uid) 0 then set cs else {}) cards_by_user))"

definition rule_tokens ::
  "text_ops \<Rightarrow> (uuid \<times> string list) list \<Rightarrow> role_graph \<Rightarrow> (uuid \<rightharpoonup> int) \<Rightarrow> door_rule_kind \<Rightarrow> string \<Rightarrow> string set" where
  "rule_tokens x cards_by_user graph user_levels k v =
     (case k of
        OpenAccess \<Rightarrow> {}
      | Card \<Rightarrow> {v}
      | User \<Rightarrow> (case uuid_parse x v of
                   Some uid \<Rightarrow> (case map_of cards_by_user uid of Some cs \<Rightarrow> set cs | None \<Rightarrow> {})
                 | None \<Rightarrow> {})
      | Role \<Rightarrow> (case level_of_name graph v of
                   Some required \<Rightarrow> cards_of_level cards_by_user user_levels required
                 | None \<Rightarrow> {}))"

fun expand_loop ::
  "text_ops \<Rightarrow> sched_env \<Rightarrow> (uuid \<times> string list) list \<Rightarrow> schedule list \<Rightarrow> instant \<Rightarrow> role_graph \<Rightarrow>
   (uuid \<rightharpoonup> int) \<Rightarrow> access_rule list \<Rightarrow> string set \<times> string set \<Rightarrow> string set \<times> string set" where
  "expand_loop x v cbu schedules now graph lv [] acc = acc"
| "expand_loop x v cbu schedules now graph lv (r # rs) (allow, deny) =
     (case door_rule_effect_parse (ar_effect r) of
        None \<Rightarrow> expand_loop x v cbu schedules now graph lv rs (allow, deny)
      | Some effect \<Rightarrow>
          if \<not> rule_fires effect (schedule_state_at v (ar_schedule_id r) schedules now)
          then expand_loop x v cbu schedules now graph lv rs (allow, deny)
          else
            (case door_rule_kind_parse (ar_kind r) of
               None \<Rightarrow> expand_loop x v cbu schedules now graph lv rs (allow, deny)
             | Some k \<Rightarrow>
                 (let ts = rule_tokens x cbu graph lv k (ar_value r)
                  in case effect of
                       EAllow \<Rightarrow> expand_loop x v cbu schedules now graph lv rs (allow \<union> ts, deny)
                     | EDeny \<Rightarrow> expand_loop x v cbu schedules now graph lv rs (allow, deny \<union> ts))))"

definition expand_rules_at ::
  "text_ops \<Rightarrow> sched_env \<Rightarrow> access_rule list \<Rightarrow> (uuid \<times> string list) list \<Rightarrow> schedule list \<Rightarrow> instant \<Rightarrow>
   role_graph \<Rightarrow> (uuid \<rightharpoonup> int) \<Rightarrow> string set \<times> string set" where
  "expand_rules_at x v rules cbu schedules now graph lv =
     expand_loop x v cbu schedules now graph lv rules ({}, {})"

section \<open>The service\<close>

text \<open>
  One read of the database, for one device: its doors and their rules, the schedules, the digests of
  the active users' cards and their levels, the roles and the strikes. The clock advances between
  the reads of \<^verbatim>\<open>Utc::now()\<close>; one instant is used here for all of them.
\<close>

record door_db =
  doors_of :: "door list"
  rules_of :: "uuid \<Rightarrow> access_rule list"
  db_schedules :: "schedule list"
  cards_by_user :: "(uuid \<times> string list) list"
  user_levels :: "uuid \<rightharpoonup> int"
  rbac_graph :: role_graph
  door_strike :: "uuid \<Rightarrow> strike_profile option"
  default_unlock_duration_ms :: int

definition strike_profile_of :: "door_db \<Rightarrow> uuid \<Rightarrow> strike_profile" where
  "strike_profile_of db did =
     (case door_strike db did of
        Some p \<Rightarrow> p
      | None \<Rightarrow> \<lparr>sp_pulse_ms = default_unlock_duration_ms db, sp_hold_open_access = True\<rparr>)"

definition compile_door :: "text_ops \<Rightarrow> sched_env \<Rightarrow> door_db \<Rightarrow> instant \<Rightarrow> door \<Rightarrow> compiled_door" where
  "compile_door x v db now d =
     (let rules = rules_of db (d_id d);
          (allow, deny) = expand_rules_at x v rules (cards_by_user db) (db_schedules db) now
                            (rbac_graph db) (user_levels db);
          strike = strike_profile_of db (d_id d);
          hold = (if sp_hold_open_access strike
                  then open_access_hold_until_at v rules (db_schedules db) now else None)
      in \<lparr>cd_id = d_id d, cd_name = d_name d, cd_enabled = d_enabled d,
          cd_unlock_duration_ms = sp_pulse_ms strike,
          cd_allow_cards = sorted_list_of_set allow, cd_deny_cards = sorted_list_of_set deny,
          cd_hold_unlock_until = hold\<rparr>)"

definition compile_state_for :: "text_ops \<Rightarrow> sched_env \<Rightarrow> door_db \<Rightarrow> instant \<Rightarrow> door_state_snapshot" where
  "compile_state_for x v db now =
     \<lparr>dss_snapshot_at = now, dss_doors = map (compile_door x v db now) (doors_of db)\<rparr>"

datatype access_decision = AAllow | ADeny string

definition decision_message :: "may_decision \<Rightarrow> access_decision" where
  "decision_message d =
     (case d of
        MAllow \<Rightarrow> AAllow
      | MDeny (Unavailable m) \<Rightarrow> ADeny m
      | MDeny InactiveUser \<Rightarrow> ADeny ''Account inactive''
      | MDeny Rule \<Rightarrow> ADeny ''Denied by access rule''
      | MDeny NoMatch \<Rightarrow> ADeny ''No matching access rule''
      | MDeny LockedOut \<Rightarrow> ADeny ''Locked out''
      | MDeny Training \<Rightarrow> ADeny ''Denied''
      | MDeny Billing \<Rightarrow> ADeny ''Denied'')"

definition door_evaluate ::
  "text_ops \<Rightarrow> sched_env \<Rightarrow> door_db \<Rightarrow> instant \<Rightarrow> door \<Rightarrow> principal \<Rightarrow> action \<Rightarrow> access_decision" where
  "door_evaluate x v db now d user act =
     decision_message (may x v user (door_policy (d_enabled d)) (rules_of db (d_id d)) (db_schedules db) now
                         (rbac_graph db) act)"

definition publish_unlock ::
  "text_ops \<Rightarrow> ('k \<Rightarrow> string \<Rightarrow> string) \<Rightarrow> 'k option \<Rightarrow> uuid \<Rightarrow> int \<Rightarrow> string \<Rightarrow> unlock_command" where
  "publish_unlock x hmac key door_id duration_ms reason =
     \<lparr>uc_door_id = door_id, uc_duration_ms = duration_ms, uc_reason = reason,
      uc_sig = map_option (\<lambda>k. sign hmac k (doors_unlock_message (uuid_show x door_id) duration_ms reason)) key\<rparr>"

text \<open>
  The ticker for one device: compile, hash the serialized snapshot, push if the hash differs from
  the one of the last delivered push. \<open>hash\<close> stands for serialization and \<^verbatim>\<open>DefaultHasher\<close> together,
  \<open>push_ok\<close> for the transport's answer.
\<close>

definition republish_changed ::
  "(door_state_snapshot \<Rightarrow> nat) \<Rightarrow> bool \<Rightarrow> uuid \<Rightarrow> door_state_snapshot \<Rightarrow> (uuid \<rightharpoonup> nat) \<Rightarrow>
   door_state_snapshot option \<times> (uuid \<rightharpoonup> nat)" where
  "republish_changed hash push_ok device_id snap last_hash =
     (let h = hash snap
      in if last_hash device_id = Some h then (None, last_hash)
         else (Some snap, if push_ok then last_hash(device_id \<mapsto> h) else last_hash))"

section \<open>The policy builder\<close>

text \<open>
  \<^verbatim>\<open>build_resource_policy\<close>: the tools of the allow-list and the compiled doors in one payload. What it
  reads besides is \<open>policy_db\<close>: each resource's kind and profile, which are in use, and which have a
  strike.
\<close>

record policy_db =
  resource_profiles :: "uuid \<rightharpoonup> string \<times> string"
  in_use_resources :: "uuid set"
  pd_strike :: "uuid \<rightharpoonup> int"

definition tool_resource_policy :: "text_ops \<Rightarrow> policy_db \<Rightarrow> sync_tool \<Rightarrow> resource_policy" where
  "tool_resource_policy x pd t =
     (let (k, profile) = unwrap_or (resource_profiles pd (st_id t)) (''tool'', [])
      in \<lparr>rp_id = uuid_show x (st_id t), rp_external_id = st_external_id t, rp_name = st_name t,
          rp_kind = k, rp_session_profile = profile, rp_status = status_word (st_status t),
          rp_requires_online = st_requires_online t, rp_in_use = st_id t \<in> in_use_resources pd,
          rp_enabled = True, rp_pulse_ms = pd_strike pd (st_id t), rp_allow = [], rp_deny = [],
          rp_hold_until = None\<rparr>)"

definition door_resource_policy ::
  "text_ops \<Rightarrow> (instant \<Rightarrow> string) \<Rightarrow> policy_db \<Rightarrow> compiled_door \<Rightarrow> resource_policy" where
  "door_resource_policy x to_rfc3339 pd d =
     \<lparr>rp_id = uuid_show x (cd_id d), rp_external_id = None, rp_name = cd_name d, rp_kind = ''door'',
      rp_session_profile = unwrap_or (map_option snd (resource_profiles pd (cd_id d))) [],
      rp_status = [], rp_requires_online = False, rp_in_use = cd_id d \<in> in_use_resources pd,
      rp_enabled = cd_enabled d, rp_pulse_ms = Some (cd_unlock_duration_ms d),
      rp_allow = cd_allow_cards d, rp_deny = cd_deny_cards d,
      rp_hold_until = map_option to_rfc3339 (cd_hold_unlock_until d)\<rparr>"

definition principal_of :: "text_ops \<Rightarrow> sync_user \<Rightarrow> wire_principal" where
  "principal_of x u =
     \<lparr>wp_digest = su_profile_field_digest u, wp_full_name = su_full_name u, wp_is_active = su_is_active u,
      wp_authorized = map (uuid_show x) (su_authorized_tool_ids u)\<rparr>"

definition build_resource_policy ::
  "text_ops \<Rightarrow> (instant \<Rightarrow> string) \<Rightarrow> policy_db \<Rightarrow> uuid \<Rightarrow> sync_payload \<Rightarrow> door_state_snapshot \<Rightarrow> instant \<Rightarrow>
   resource_policy_payload" where
  "build_resource_policy x to_rfc3339 pd device_id tools ss now =
     \<lparr>rpp_device_id = uuid_show x device_id, rpp_as_of = to_rfc3339 now,
      rpp_profile_field = sp_profile_field tools,
      rpp_resources = map (tool_resource_policy x pd) (sp_tools tools) @
                      map (door_resource_policy x to_rfc3339 pd) (dss_doors ss),
      rpp_principals = map (principal_of x) (sp_users tools)\<rparr>"

end
