(* ===== verification/Door_Safety.thy ===== *)
theory Door_Safety
  imports Doors Resource_Safety
begin

text \<open>
  Correctness of the door compiler: the compiled card lists and the hold are exactly what the rules
  say, and a coordinator that has applied the compiled snapshot decides a member's card as the
  server's own engine decides the member. Two ways they come apart are stated as well.
\<close>

section \<open>Compiled lists\<close>

text \<open>The tokens an effect's rules contribute now.\<close>

definition expanded ::
  "text_ops \<Rightarrow> sched_env \<Rightarrow> (uuid \<times> string list) list \<Rightarrow> schedule list \<Rightarrow> instant \<Rightarrow> role_graph \<Rightarrow>
   (uuid \<rightharpoonup> int) \<Rightarrow> access_rule list \<Rightarrow> door_rule_effect \<Rightarrow> string set" where
  "expanded x v cbu ss now graph lv rules effect =
     {t. \<exists>r \<in> set rules. \<exists>k. door_rule_effect_parse (ar_effect r) = Some effect \<and>
         rule_fires effect (schedule_state_at v (ar_schedule_id r) ss now) \<and>
         door_rule_kind_parse (ar_kind r) = Some k \<and> t \<in> rule_tokens x cbu graph lv k (ar_value r)}"

lemma expanded_Nil [simp]: "expanded x v cbu ss now graph lv [] effect = {}"
  by (simp add: expanded_def)

lemma expanded_Cons:
  "expanded x v cbu ss now graph lv (r # rs) effect =
     {t. \<exists>k. door_rule_effect_parse (ar_effect r) = Some effect \<and>
         rule_fires effect (schedule_state_at v (ar_schedule_id r) ss now) \<and>
         door_rule_kind_parse (ar_kind r) = Some k \<and> t \<in> rule_tokens x cbu graph lv k (ar_value r)} \<union>
     expanded x v cbu ss now graph lv rs effect"
  by (auto simp: expanded_def)

lemma expand_loop_eq:
  "expand_loop x v cbu ss now graph lv rs (al, dn) =
     (al \<union> expanded x v cbu ss now graph lv rs EAllow, dn \<union> expanded x v cbu ss now graph lv rs EDeny)"
  by (induction rs arbitrary: al dn)
     (auto simp: expanded_Cons Let_def split: option.splits door_rule_effect.splits)

lemma expand_rules_at_eq:
  "expand_rules_at x v rules cbu ss now graph lv =
     (expanded x v cbu ss now graph lv rules EAllow, expanded x v cbu ss now graph lv rules EDeny)"
  by (simp add: expand_rules_at_def expand_loop_eq)

lemma finite_rule_tokens [simp]: "finite (rule_tokens x cbu graph lv k v)"
  by (auto simp: rule_tokens_def cards_of_level_def split: door_rule_kind.splits option.splits)

lemma finite_expanded [simp]: "finite (expanded x v cbu ss now graph lv rules effect)"
proof -
  have "expanded x v cbu ss now graph lv rules effect \<subseteq>
      (\<Union>r \<in> set rules. \<Union>k \<in> {Role, User, Card, OpenAccess}. rule_tokens x cbu graph lv k (ar_value r))"
  proof
    fix t assume "t \<in> expanded x v cbu ss now graph lv rules effect"
    then obtain r k where "r \<in> set rules" "t \<in> rule_tokens x cbu graph lv k (ar_value r)"
      by (auto simp: expanded_def)
    then show "t \<in> (\<Union>r \<in> set rules. \<Union>k \<in> {Role, User, Card, OpenAccess}. rule_tokens x cbu graph lv k (ar_value r))"
      by (cases k) auto
  qed
  then show ?thesis by (rule finite_subset) auto
qed

lemma compile_door_simps [simp]:
  "cd_id (compile_door x v db now d) = d_id d"
  "cd_enabled (compile_door x v db now d) = d_enabled d"
  "set (cd_allow_cards (compile_door x v db now d)) =
     expanded x v (cards_by_user db) (db_schedules db) now (rbac_graph db) (user_levels db) (rules_of db (d_id d)) EAllow"
  "set (cd_deny_cards (compile_door x v db now d)) =
     expanded x v (cards_by_user db) (db_schedules db) now (rbac_graph db) (user_levels db) (rules_of db (d_id d)) EDeny"
  by (simp_all add: compile_door_def expand_rules_at_eq Let_def split_beta)

section \<open>One member, one card\<close>

text \<open>
  The card \<open>tok\<close> is the one card of the user \<open>u\<close> and of nobody else, and the principal the engine is
  given is that user.
\<close>

definition sole_card :: "door_db \<Rightarrow> uuid \<Rightarrow> string \<Rightarrow> principal \<Rightarrow> bool" where
  "sole_card db u tok pr \<longleftrightarrow>
     pr_user_id pr = Some u \<and> pr_card_digests pr = {tok} \<and> pr_is_active pr \<and>
     pr_level pr = unwrap_or (user_levels db u) 0 \<and>
     map_of (cards_by_user db) u = Some [tok] \<and> distinct (map fst (cards_by_user db)) \<and>
     (\<forall>(w, cs) \<in> set (cards_by_user db). w \<noteq> u \<longrightarrow> tok \<notin> set cs)"

text \<open>User rules are written in the canonical form of the id.\<close>

definition canonical_user_rules :: "text_ops \<Rightarrow> access_rule list \<Rightarrow> bool" where
  "canonical_user_rules x rules \<longleftrightarrow>
     (\<forall>r \<in> set rules. ar_kind r = ''user'' \<longrightarrow>
        (\<forall>w. uuid_parse x (ar_value r) = Some w \<longrightarrow> ar_value r = uuid_show x w))"

lemma kind_parse_User: "door_rule_kind_parse s = Some User \<longleftrightarrow> s = ''user''"
  by (simp add: door_rule_kind_parse_def)

lemma sole_card_level:
  assumes "sole_card db u tok pr"
  shows "tok \<in> cards_of_level (cards_by_user db) (user_levels db) req \<longleftrightarrow> req \<le> pr_level pr"
proof -
  have cs: "w = u" if "(w, cs) \<in> set (cards_by_user db)" "tok \<in> set cs" for w cs
    using assms that by (auto simp: sole_card_def)
  have mem: "(u, [tok]) \<in> set (cards_by_user db)"
    using assms by (auto simp: sole_card_def dest: map_of_SomeD)
  have lv: "pr_level pr = unwrap_or (user_levels db u) 0"
    using assms by (simp add: sole_card_def)
  have "tok \<in> cards_of_level (cards_by_user db) (user_levels db) req \<longleftrightarrow>
      (\<exists>(w, cs) \<in> set (cards_by_user db). req \<le> unwrap_or (user_levels db w) 0 \<and> tok \<in> set cs)"
    by (auto simp: cards_of_level_def split_beta split: if_splits)
  also have "\<dots> \<longleftrightarrow> req \<le> pr_level pr"
  proof
    assume "\<exists>(w, cs) \<in> set (cards_by_user db). req \<le> unwrap_or (user_levels db w) 0 \<and> tok \<in> set cs"
    then obtain w cs' where w: "(w, cs') \<in> set (cards_by_user db)" "req \<le> unwrap_or (user_levels db w) 0" "tok \<in> set cs'"
      by auto
    from cs [OF w(1,3)] w(2) lv show "req \<le> pr_level pr" by simp
  next
    assume "req \<le> pr_level pr"
    with mem lv show "\<exists>(w, cs) \<in> set (cards_by_user db). req \<le> unwrap_or (user_levels db w) 0 \<and> tok \<in> set cs"
      by (intro bexI [of _ "(u, [tok])"]) simp_all
  qed
  finally show ?thesis .
qed

lemma sole_card_tokens:
  assumes "sole_card db u tok pr" "text_ok x"
    and "k = User \<Longrightarrow> \<forall>w. uuid_parse x v = Some w \<longrightarrow> v = uuid_show x w"
  shows "tok \<in> rule_tokens x (cards_by_user db) (rbac_graph db) (user_levels db) k v \<longleftrightarrow>
         rule_matches x pr (rbac_graph db) k v"
proof (cases k)
  case User
  have own: "tok \<in> set cs \<longleftrightarrow> w = u" if "map_of (cards_by_user db) w = Some cs" for w cs
    using assms(1) that by (force simp: sole_card_def dest: map_of_SomeD)
  have "(\<exists>w cs. uuid_parse x v = Some w \<and> map_of (cards_by_user db) w = Some cs \<and> tok \<in> set cs) \<longleftrightarrow> uuid_show x u = v"
    using own assms User by (auto simp: text_ok_def sole_card_def)
  moreover have "tok \<in> rule_tokens x (cards_by_user db) (rbac_graph db) (user_levels db) User v \<longleftrightarrow>
      (\<exists>w cs. uuid_parse x v = Some w \<and> map_of (cards_by_user db) w = Some cs \<and> tok \<in> set cs)"
    by (auto simp: rule_tokens_def split: option.splits)
  moreover have "rule_matches x pr (rbac_graph db) User v \<longleftrightarrow> uuid_show x u = v"
    using assms(1) by (simp add: rule_matches_def sole_card_def)
  ultimately show ?thesis using User by simp
qed (use assms sole_card_level [OF assms(1)] in
      \<open>auto simp: rule_tokens_def rule_matches_def sole_card_def split: option.splits\<close>)

lemma expanded_iff_applies:
  assumes "sole_card db u tok pr" "text_ok x" "canonical_user_rules x rules"
  shows "tok \<in> expanded x v (cards_by_user db) ss now (rbac_graph db) (user_levels db) rules effect \<longleftrightarrow>
         (\<exists>r \<in> set rules. applies x v pr (rbac_graph db) ss now effect r)"
proof -
  have "tok \<in> rule_tokens x (cards_by_user db) (rbac_graph db) (user_levels db) k (ar_value r) \<longleftrightarrow>
      rule_matches x pr (rbac_graph db) k (ar_value r)"
    if "r \<in> set rules" "door_rule_kind_parse (ar_kind r) = Some k" for r k
    using assms that
    by (intro sole_card_tokens) (auto simp: canonical_user_rules_def kind_parse_User)
  then show ?thesis
    by (auto simp: expanded_def applies_def is_some_and_iff)
qed

lemma snapshot_door_found:
  assumes "text_ok x" "d \<in> set (doors_of db)" "distinct (map d_id (doors_of db))"
    and "\<not> is_stale (policy_of c) now"
    and "\<forall>e \<in> set (entries (policy_of c)). e_kind e = Tool \<longrightarrow> \<not> named x (uuid_show x (d_id d)) e"
  shows "policy_find x (policy_of (apply_doors_alias c (compile_state_for x v db now))) (uuid_show x (d_id d)) =
         Some (from_compiled_door (compile_door x v db now d))"
proof -
  let ?n = "uuid_show x (d_id d)"
  have es: "entries (policy_of (apply_doors_alias c (compile_state_for x v db now))) =
      filter (\<lambda>e. e_kind e \<noteq> Door) (entries (policy_of c)) @
      map (\<lambda>d. from_compiled_door (compile_door x v db now d)) (doors_of db)"
    using assms(4) by (simp add: apply_doors_alias_def compile_state_for_def Let_def comp_def)
  have nd: "named x ?n (from_compiled_door (compile_door x v db now d')) \<longleftrightarrow> d_id d' = d_id d" for d'
    using uuid_show_inj [OF assms(1)] by (simp add: named_def from_compiled_door_def)
  have "find (named x ?n) (filter (\<lambda>e. e_kind e \<noteq> Door) (entries (policy_of c))) = None"
    using assms(5) by (auto simp: find_None_iff) (metis kind.exhaust)
  moreover have "find (named x ?n) (map (\<lambda>d. from_compiled_door (compile_door x v db now d)) (doors_of db)) =
      Some (from_compiled_door (compile_door x v db now d))"
    using assms(2,3) nd by (intro find_unique) (auto simp: distinct_map inj_on_def)
  ultimately show ?thesis by (simp add: policy_find_def es find_append)
qed

lemma decision_message_AAllow: "decision_message d = AAllow \<longleftrightarrow> d = MAllow"
  by (auto simp: decision_message_def split: may_decision.splits deny_reason.splits)

text \<open>
  C5. Server and coordinator agree on doors, under the conditions the theorem lists. The door is in a
  compiled snapshot that a coordinator has applied, door ids are distinct and the snapshot is not stale
  when it arrives; no tool entry of the device answers to the door's name, no member entry of an earlier
  policy authorizes the door by name, no power lockout is held under it, and no Open Access window is
  live. The member is active with exactly one card, which nobody else holds and whose digest the device
  computes, and the user rules of the door are written with canonical ids. Then the coordinator opens
  exactly when the server's engine would let the member in: same rules, same schedules, same role
  ladder, deny first. Without canonical ids they can disagree, see
  \<open>noncanonical_user_deny_is_ignored_by_engine\<close>.
\<close>

theorem edge_decides_as_the_engine:
  assumes "text_ok x" "sole_card db u tok pr" "canonical_user_rules x (rules_of db (d_id d))"
    and door: "d \<in> set (doors_of db)" "distinct (map d_id (doors_of db))"
    and fresh: "\<not> is_stale (policy_of c) now"
    and names: "\<forall>e \<in> set (entries (policy_of c)). e_kind e = Tool \<longrightarrow> \<not> named x (uuid_show x (d_id d)) e"
    and members: "\<forall>m \<in> set (members (policy_of c)). d_id d \<notin> set (m_authorized m)"
    and digest: "wire_digest_hex (allow_list c) code = Some tok"
    and unlocked: "\<not> is_locked (lockouts c) (uuid_show x (d_id d))"
    and no_hold: "is_none_or (cd_hold_unlock_until (compile_door x v db now d)) (\<lambda>h. h \<le> t)"
  shows "(\<exists>s. decide x (apply_doors_alias c (compile_state_for x v db now)) (uuid_show x (d_id d)) code t = Allow s)
           \<longleftrightarrow> door_evaluate x v db now d pr act = AAllow"
proof -
  let ?c = "apply_doors_alias c (compile_state_for x v db now)" and ?n = "uuid_show x (d_id d)"
  let ?e = "from_compiled_door (compile_door x v db now d)"
  note iff = expanded_iff_applies [OF assms(2,1,3), where v = v and ss = "db_schedules db" and now = now]
  have frame: "lockouts ?c = lockouts c" "allow_list ?c = allow_list c" "members (policy_of ?c) = members (policy_of c)"
    by (simp_all add: apply_doors_alias_def Let_def)
  have f: "policy_find x (policy_of ?c) ?n = Some ?e"
    using assms(1) door fresh names by (rule snapshot_door_found)
  have nomem: "\<not> member_admits (members (policy_of ?c)) ?e tok"
    using members by (auto simp: member_admits_def frame from_compiled_door_def dest: find_SomeD)
  have "(\<exists>s. decide x ?c ?n code t = Allow s) \<longleftrightarrow> admits ?c ?e tok t"
    using f digest unlocked
    by (auto simp: decide_def admits_def decide_member_Allow frame Let_def from_compiled_door_def)
  also have "\<dots> \<longleftrightarrow> d_enabled d \<and>
      tok \<notin> set (cd_deny_cards (compile_door x v db now d)) \<and> tok \<in> set (cd_allow_cards (compile_door x v db now d))"
    using nomem no_hold by (cases "cd_hold_unlock_until (compile_door x v db now d)")
      (auto simp: admits_def from_compiled_door_def)
  also have "\<dots> \<longleftrightarrow> may x v pr (door_policy (d_enabled d)) (rules_of db (d_id d)) (db_schedules db) now (rbac_graph db) act = MAllow"
    using iff assms(2)
    by (auto simp: may_def may_rules_flags door_policy_def sole_card_def Let_def)
  finally show ?thesis by (simp add: door_evaluate_def decision_message_AAllow)
qed

text \<open>
  A user rule written in another accepted spelling of the id (upper case, braces) is honoured by
  the compiled snapshot and ignored by the engine: a member denied by such a rule is refused at the
  reader and let in by check-in and remote unlock. The rule editor stores the value as typed.
\<close>

lemma noncanonical_user_deny_is_ignored_by_engine:
  assumes "sole_card db u tok pr" "uuid_parse x (ar_value r) = Some u" "ar_value r \<noteq> uuid_show x u"
    and r: "ar_kind r = ''user''" "ar_effect r = ''deny''" "ar_schedule_id r = None"
  shows "tok \<in> snd (expand_rules_at x v (r # rules) (cards_by_user db) ss now (rbac_graph db) (user_levels db)) \<and>
         may x v pr pol (r # rules) ss now graph act = may x v pr pol rules ss now graph act"
proof
  show "tok \<in> snd (expand_rules_at x v (r # rules) (cards_by_user db) ss now (rbac_graph db) (user_levels db))"
    using assms(1,2)
    by (simp add: expand_rules_at_eq expanded_Cons r door_rule_effect_parse_def door_rule_kind_parse_def
        rule_fires_def schedule_state_at_def rule_tokens_def sole_card_def)
  have "may_rules x v pr graph ss now (r # rules) (False, False) = may_rules x v pr graph ss now rules (False, False)"
    using assms(1,3)
    by (auto simp: r door_rule_effect_parse_def door_rule_kind_parse_def rule_fires_def
        schedule_state_at_def rule_matches_def sole_card_def)
  then show "may x v pr pol (r # rules) ss now graph act = may x v pr pol rules ss now graph act"
    by (simp only: may_def)
qed

section \<open>The hold\<close>

text \<open>The ends of the windows that hold the door open now.\<close>

definition hold_ends :: "sched_env \<Rightarrow> schedule list \<Rightarrow> instant \<Rightarrow> access_rule list \<Rightarrow> instant set" where
  "hold_ends v ss now rules =
     {e. \<exists>r \<in> set rules. \<exists>sid sched ivs. ar_kind r = ''open_access'' \<and> ar_effect r = ''allow'' \<and>
         ar_schedule_id r = Some sid \<and> find (\<lambda>s. sch_id s = sid) ss = Some sched \<and>
         parse_intervals v (sch_intervals sched) = Some ivs \<and> active_until ivs (site_tz v) now = Some e}"

lemma kind_parse_OpenAccess: "door_rule_kind_parse s = Some OpenAccess \<longleftrightarrow> s = ''open_access''"
  by (simp add: door_rule_kind_parse_def)

lemma effect_parse_EAllow: "door_rule_effect_parse s = Some EAllow \<longleftrightarrow> s = ''allow''"
  by (simp add: door_rule_effect_parse_def)

lemma hold_ends_Cons: "hold_ends v ss now (r # rs) = hold_ends v ss now [r] \<union> hold_ends v ss now rs"
  by (auto simp: hold_ends_def)

lemma finite_hold_ends: "finite (hold_ends v ss now rules)"
proof (induction rules)
  case (Cons r rs)
  have "hold_ends v ss now [r] \<subseteq> set_option (Option.bind (ar_schedule_id r) (\<lambda>sid.
      Option.bind (find (\<lambda>s. sch_id s = sid) ss) (\<lambda>sched.
      Option.bind (parse_intervals v (sch_intervals sched)) (\<lambda>ivs. active_until ivs (site_tz v) now))))"
    by (auto simp: hold_ends_def)
  then have "finite (hold_ends v ss now [r])" by (rule finite_subset) simp
  with Cons show ?case by (subst hold_ends_Cons) simp
qed (simp add: hold_ends_def)

definition max_hold :: "instant option \<Rightarrow> instant set \<Rightarrow> instant option" where
  "max_hold latest S =
     (let T = set_option latest \<union> S in if T = {} then None else Some (Max T))"

lemma open_access_loop_max:
  "open_access_loop v ss now rules latest = max_hold latest (hold_ends v ss now rules)"
proof (induction rules arbitrary: latest)
  case Nil
  then show ?case by (cases latest) (simp_all add: hold_ends_def max_hold_def)
next
  case (Cons r rs)
  have keep: "max_hold latest (hold_ends v ss now (r # rs)) = max_hold latest (hold_ends v ss now rs)"
    if "hold_ends v ss now [r] = {}"
    using that by (subst hold_ends_Cons) simp
  have upd: "max_hold latest (hold_ends v ss now (r # rs)) =
      max_hold (Some (case latest of None \<Rightarrow> e | Some cur \<Rightarrow> max cur e)) (hold_ends v ss now rs)"
    if "hold_ends v ss now [r] = {e}" for e
  proof -
    have f: "finite (hold_ends v ss now rs)" by (rule finite_hold_ends)
    show ?thesis
    proof (cases latest)
      case None
      then show ?thesis using that by (subst hold_ends_Cons) (simp add: max_hold_def)
    next
      case (Some cur)
      have "Max ({cur} \<union> ({e} \<union> hold_ends v ss now rs)) = Max ({max cur e} \<union> hold_ends v ss now rs)"
        using f by (cases "hold_ends v ss now rs = {}") (simp_all add: max.assoc)
      then show ?thesis using that Some by (subst hold_ends_Cons) (simp add: max_hold_def Let_def)
    qed
  qed
  consider (hit) sid sched ivs e where "ar_kind r = ''open_access''" "ar_effect r = ''allow''"
      "ar_schedule_id r = Some sid" "find (\<lambda>s. sch_id s = sid) ss = Some sched"
      "parse_intervals v (sch_intervals sched) = Some ivs" "active_until ivs (site_tz v) now = Some e"
    | (miss) "hold_ends v ss now [r] = {}"
    by (auto simp: hold_ends_def)
  then show ?case
  proof cases
    case hit
    then have "hold_ends v ss now [r] = {e}" by (auto simp: hold_ends_def)
    with hit Cons upd show ?thesis by (simp add: kind_parse_OpenAccess effect_parse_EAllow)
  next
    case miss
    then have "open_access_loop v ss now (r # rs) latest = open_access_loop v ss now rs latest"
      by (auto simp: hold_ends_def kind_parse_OpenAccess effect_parse_EAllow split: option.splits)
    with miss Cons keep show ?thesis by simp
  qed
qed

text \<open>
  The hold compiled for a door is the latest end among the windows of its allow open-access
  rules that are open now; it exists exactly when there is one, and a rule without a schedule or
  with an unreadable one never holds the door.
\<close>

lemma hold_is_the_latest_window_end:
  "(open_access_hold_until_at v rules ss now = None \<longleftrightarrow> hold_ends v ss now rules = {}) \<and>
   (open_access_hold_until_at v rules ss now = Some e \<longrightarrow>
      e \<in> hold_ends v ss now rules \<and> (\<forall>f \<in> hold_ends v ss now rules. f \<le> e))"
  using finite_hold_ends [of v ss now rules]
  unfolding open_access_hold_until_at_def open_access_loop_max max_hold_def Let_def
  by (cases "hold_ends v ss now rules = {}") (auto intro: Max_in)

section \<open>The ticker\<close>

text \<open>
  The ticker is not quiet in steady state. The hashed snapshot contains the time it was compiled,
  so with a hash that tells two snapshots apart a device is sent its unchanged doors again on every
  tick at which the clock has moved.
\<close>

lemma steady_state_is_republished:
  assumes "map (compile_door x v db now) (doors_of db) = map (compile_door x v db now') (doors_of db)"
    and "now \<noteq> now' \<Longrightarrow> hash (compile_state_for x v db now) \<noteq> hash (compile_state_for x v db now')" "now \<noteq> now'"
  shows "fst (republish_changed hash True dev (compile_state_for x v db now')
           (snd (republish_changed hash True dev (compile_state_for x v db now) last_hash)))
         = Some (compile_state_for x v db now')"
  using assms(2,3) by (auto simp: republish_changed_def Let_def)

section \<open>Witnesses\<close>

definition demo_front_door :: door where
  "demo_front_door = \<lparr>d_id = 7, d_name = ''front'', d_enabled = True\<rparr>"

definition demo_db :: "access_rule list \<Rightarrow> door_db" where
  "demo_db rules = \<lparr>doors_of = [demo_front_door], rules_of = (\<lambda>_. rules),
     db_schedules = [\<lparr>sch_id = 1, sch_intervals = JNull\<rparr>], cards_by_user = [(9, [''dA'']), (10, [''dB''])],
     user_levels = [9 \<mapsto> 3], rbac_graph = demo_graph, door_strike = (\<lambda>_. None),
     default_unlock_duration_ms = 3000\<rparr>"

lemma demo_sole_card: "sole_card (demo_db rules) 9 ''dA'' demo_principal"
  by (simp add: sole_card_def demo_db_def demo_principal_def)

theorem edge_decides_as_the_engine_witness:
  "(\<exists>s. decide demo_text (apply_doors_alias demo_cache (compile_state_for demo_text demo_env
        (demo_db [demo_arule ''role'' ''staff'' ''allow'']) 5)) (uuid_show demo_text (d_id demo_front_door)) ''A'' 6 = Allow s)
   \<longleftrightarrow> door_evaluate demo_text demo_env (demo_db [demo_arule ''role'' ''staff'' ''allow'']) 5 demo_front_door
         demo_principal Unlock = AAllow"
proof (rule edge_decides_as_the_engine [OF demo_text_ok demo_sole_card])
  show "canonical_user_rules demo_text (rules_of (demo_db [demo_arule ''role'' ''staff'' ''allow'']) (d_id demo_front_door))"
    by (simp add: canonical_user_rules_def demo_db_def demo_arule_def)
  show "is_none_or (cd_hold_unlock_until (compile_door demo_text demo_env
      (demo_db [demo_arule ''role'' ''staff'' ''allow'']) 5 demo_front_door)) (\<lambda>h. h \<le> 6)"
    by (simp add: compile_door_def Let_def split_beta demo_db_def strike_profile_of_def
        open_access_hold_until_at_def demo_arule_def door_rule_kind_parse_def)
qed (simp_all add: demo_db_def demo_cache_defs is_stale_def with_digester_def wire_digest_hex_def
      is_locked_def power_new_def)

end
