(* ===== verification/Ledger.thy ===== *)
theory Ledger
  imports Prelude Complex_Main
begin

text \<open>
  The credit ledger of \<^verbatim>\<open>server/src/database.rs\<close>: a member's balance is the sum of the amounts in the
  ledger, and a partial unique index admits one entry per external reference. An amount
  (\<^verbatim>\<open>BigDecimal\<close>) is a \<open>rat\<close>. The locale \<open>reference_ledger\<close> is the contract tool billing and
  membership both rely on: posting under a reference happens at most once.
\<close>

datatype ledger_entry_type = StripePayment | CashPayment | DuesCharge | StripeRefund | Adjustment | ToolUsage

record ledger_entry =
  le_user_id :: uuid
  le_entry_type :: ledger_entry_type
  le_amount :: rat
  le_external_reference :: "string option"

type_synonym ledger = "ledger_entry list"

datatype db_error = UniqueViolation

definition ledger_entry_exists_for_reference :: "ledger \<Rightarrow> string \<Rightarrow> bool" where
  "ledger_entry_exists_for_reference l r \<longleftrightarrow> list_ex (\<lambda>e. le_external_reference e = Some r) l"

definition insert_ledger_entry :: "ledger \<Rightarrow> ledger_entry \<Rightarrow> db_error + ledger" where
  "insert_ledger_entry l e =
     (if is_some_and (le_external_reference e) (ledger_entry_exists_for_reference l)
      then Inl UniqueViolation else Inr (l @ [e]))"

definition user_balance :: "ledger \<Rightarrow> uuid \<Rightarrow> rat" where
  "user_balance l uid = foldl (\<lambda>acc a. acc + a) 0 (map le_amount (filter (\<lambda>e. le_user_id e = uid) l))"

text \<open>
  The pattern both services post with: skip when the reference is there, and tolerate losing the
  race to the index. \<open>None\<close> means nothing was posted.
\<close>

definition post_once :: "ledger \<Rightarrow> ledger_entry \<Rightarrow> ledger option" where
  "post_once l e =
     (if is_some_and (le_external_reference e) (ledger_entry_exists_for_reference l) then None
      else case insert_ledger_entry l e of Inr l' \<Rightarrow> Some l' | Inl UniqueViolation \<Rightarrow> None)"

lemma foldl_add: "foldl (\<lambda>acc a. acc + a) (s :: rat) xs = s + sum_list xs"
  by (induction xs arbitrary: s) (auto simp: algebra_simps)

lemma user_balance_sum: "user_balance l uid = (\<Sum>e \<leftarrow> l. if le_user_id e = uid then le_amount e else 0)"
  by (simp add: user_balance_def foldl_add) (induction l, auto)

lemma user_balance_append [simp]: "user_balance (l @ m) uid = user_balance l uid + user_balance m uid"
  by (simp add: user_balance_sum)

lemma user_balance_single [simp]:
  "user_balance [] uid = 0"
  "user_balance [e] uid = (if le_user_id e = uid then le_amount e else 0)"
  by (simp_all add: user_balance_sum)

lemma reference_append [simp]:
  "ledger_entry_exists_for_reference (l @ m) r \<longleftrightarrow>
     ledger_entry_exists_for_reference l r \<or> ledger_entry_exists_for_reference m r"
  "ledger_entry_exists_for_reference [e] r \<longleftrightarrow> le_external_reference e = Some r"
  by (simp_all add: ledger_entry_exists_for_reference_def)

section \<open>The contract\<close>

locale reference_ledger =
  fixes post :: "'l \<Rightarrow> 'e \<Rightarrow> 'l option"
    and posted :: "'l \<Rightarrow> string \<Rightarrow> bool"
    and bal :: "'l \<Rightarrow> uuid \<Rightarrow> rat"
    and ref_of :: "'e \<Rightarrow> string option"
    and effect :: "'e \<Rightarrow> uuid \<Rightarrow> rat"
  assumes post_None: "post l e = None \<longleftrightarrow> is_some_and (ref_of e) (posted l)"
    and post_bal: "post l e = Some l' \<Longrightarrow> bal l' u = bal l u + effect e u"
    and post_posted: "post l e = Some l' \<Longrightarrow> posted l' r \<longleftrightarrow> posted l r \<or> ref_of e = Some r"
begin

text \<open>A redelivery, whatever was posted in between, posts nothing.\<close>

lemma redelivery:
  assumes "post l e = Some l'" "ref_of e = Some r" "\<And>s. posted l' s \<Longrightarrow> posted l'' s" "ref_of e' = Some r"
  shows "post l'' e' = None"
  using assms post_posted [OF assms(1)] by (simp add: post_None)

lemma unreferenced_posts: "ref_of e = None \<Longrightarrow> \<exists>l'. post l e = Some l'"
  using post_None [of l e] by (cases "post l e") auto

end

interpretation led: reference_ledger post_once ledger_entry_exists_for_reference user_balance
  le_external_reference "\<lambda>e u. if le_user_id e = u then le_amount e else 0"
  by unfold_locales (auto simp: post_once_def insert_ledger_entry_def is_some_and_iff split: if_splits)

lemma post_once_Some: "post_once l e = Some l' \<longleftrightarrow>
    l' = l @ [e] \<and> \<not> is_some_and (le_external_reference e) (ledger_entry_exists_for_reference l)"
  by (auto simp: post_once_def insert_ledger_entry_def)

end
