(* ===== verification/Membership.thy ===== *)
theory Membership
  imports Ledger Rbac
begin

text \<open>
  Membership dues, \<^verbatim>\<open>server/src/membership.rs\<close>, with the \<^verbatim>\<open>users\<close> and \<^verbatim>\<open>user_roles\<close> queries of
  \<^verbatim>\<open>server/src/database.rs\<close> it makes. The tables are the record \<open>membership_db\<close>; the role graph is the
  cached \<^verbatim>\<open>RoleGraph\<close>. Calendar arithmetic (\<^verbatim>\<open>chrono\<close>) is the parameter \<open>calendar\<close>, and what Stripe
  answers to the poll is an argument of the cycle. Audit rows, the run log, database failures and the
  republishing of door state are left out.
\<close>

section \<open>Data\<close>

datatype membership_period = Monthly | Quarterly | Yearly

record membership_config =
  mc_enabled :: bool
  mc_due_amount :: rat
  mc_due_period :: membership_period
  mc_grace_days :: int
  mc_member_role :: string
  mc_lapsed_role :: string

record member_user =
  mb_id :: uuid
  mb_is_active :: bool
  membership_next_due_at :: "instant option"

record membership_db =
  m_ledger :: ledger
  m_users :: "member_user list"
  m_user_roles :: "(uuid \<times> uuid) list"
  m_roles :: "(uuid \<times> string) list"
  m_graph :: role_graph

record calendar =
  cal_day :: "instant \<Rightarrow> nat"
  cal_add_months :: "nat \<Rightarrow> instant \<Rightarrow> instant option"

datatype membership_error = NotFound | LedgerError db_error

text \<open>A fallible call with effects: the error, if any, and the tables as it leaves them; and \<open>?\<close>.\<close>

type_synonym 's fallible = "membership_error option \<times> 's"

definition and_then :: "'s fallible \<Rightarrow> ('s \<Rightarrow> 's fallible) \<Rightarrow> 's fallible" where
  "and_then r k = (case r of (None, s) \<Rightarrow> k s | (Some e, s) \<Rightarrow> (Some e, s))"

section \<open>Decisions\<close>

definition plan_role_transition ::
  "int \<Rightarrow> bool \<Rightarrow> bool \<Rightarrow> string \<Rightarrow> int \<Rightarrow> string \<Rightarrow> int \<Rightarrow> string option" where
  "plan_role_transition current_level entitled is_last_admin member_role member_level lapsed_role lapsed_level =
     (if entitled then (if current_level < member_level then Some member_role else None)
      else if is_last_admin then None
      else if lapsed_level < current_level then Some lapsed_role
      else None)"

fun period_months :: "membership_period \<Rightarrow> nat" where
  "period_months Monthly = 1"
| "period_months Quarterly = 3"
| "period_months Yearly = 12"

definition advance_period :: "calendar \<Rightarrow> instant \<Rightarrow> membership_period \<Rightarrow> instant" where
  "advance_period cal date period =
     (let orig_day = cal_day cal date;
          advanced = unwrap_or (cal_add_months cal (period_months period) date) date
      in if cal_day cal advanced \<noteq> orig_day then advanced + days 1 else advanced)"

definition dues_due :: "instant \<Rightarrow> instant \<Rightarrow> int \<Rightarrow> bool" where
  "dues_due next_due now grace_days \<longleftrightarrow> next_due + days grace_days \<le> now"

definition minor_units_to_decimal :: "int \<Rightarrow> rat" where
  "minor_units_to_decimal minor =
     (let a = \<bar>minor\<bar>; d = of_int (a div 100) + of_int (a mod 100) / 100 in if minor < 0 then - d else d)"

section \<open>Queries\<close>

definition find_user_by_id :: "membership_db \<Rightarrow> uuid \<Rightarrow> member_user option" where
  "find_user_by_id db uid = find (\<lambda>u. mb_id u = uid) (m_users db)"

definition roles_for_user :: "membership_db \<Rightarrow> uuid \<Rightarrow> uuid list" where
  "roles_for_user db uid = map snd (filter (\<lambda>p. fst p = uid) (m_user_roles db))"

definition user_effective_level :: "membership_db \<Rightarrow> uuid \<Rightarrow> int" where
  "user_effective_level db uid = effective_level (m_graph db) (roles_for_user db uid)"

definition user_has_permission :: "membership_db \<Rightarrow> uuid \<Rightarrow> string \<Rightarrow> bool" where
  "user_has_permission db uid key = has_permission (m_graph db) (roles_for_user db uid) key"

definition count_active_admins :: "membership_db \<Rightarrow> nat" where
  "count_active_admins db =
     (let active = map mb_id (filter mb_is_active (m_users db));
          assigned = remdups (filter (\<lambda>u. u \<in> set active) (map fst (m_user_roles db)))
      in length (filter (\<lambda>u. has_permission (m_graph db) (roles_for_user db u) ''admin.access'') assigned))"

definition enrolled_users :: "membership_db \<Rightarrow> member_user list" where
  "enrolled_users db = filter (\<lambda>u. membership_next_due_at u \<noteq> None) (m_users db)"

definition tiers :: "string list" where
  "tiers = [''guest'', ''historical'', ''active'', ''staff'', ''admin'']"

definition set_user_primary_role :: "uuid \<Rightarrow> string \<Rightarrow> membership_db \<Rightarrow> membership_db" where
  "set_user_primary_role uid role_name db =
     (let tier_ids = map fst (filter (\<lambda>r. snd r \<in> set tiers) (m_roles db));
          kept = filter (\<lambda>p. \<not> (fst p = uid \<and> snd p \<in> set tier_ids)) (m_user_roles db)
      in db\<lparr>m_user_roles :=
           (case find (\<lambda>r. snd r = role_name) (m_roles db) of
              Some r \<Rightarrow> if (uid, fst r) \<in> set kept then kept else kept @ [(uid, fst r)]
            | None \<Rightarrow> kept)\<rparr>)"

definition set_membership_next_due :: "uuid \<Rightarrow> instant option \<Rightarrow> membership_db \<Rightarrow> membership_db fallible" where
  "set_membership_next_due uid next_due db =
     (if find_user_by_id db uid = None then (Some NotFound, db)
      else (None, db\<lparr>m_users :=
        map (\<lambda>u. if mb_id u = uid then u\<lparr>membership_next_due_at := next_due\<rparr> else u) (m_users db)\<rparr>))"

section \<open>The service\<close>

definition post_dues :: "uuid \<Rightarrow> rat \<Rightarrow> membership_db \<Rightarrow> membership_db fallible" where
  "post_dues uid amount db =
     (case insert_ledger_entry (m_ledger db)
             \<lparr>le_user_id = uid, le_entry_type = DuesCharge, le_amount = - amount, le_external_reference = None\<rparr> of
        Inl e \<Rightarrow> (Some (LedgerError e), db)
      | Inr l \<Rightarrow> (None, db\<lparr>m_ledger := l\<rparr>))"

definition apply_role :: "membership_config \<Rightarrow> uuid \<Rightarrow> bool \<Rightarrow> membership_db \<Rightarrow> membership_db" where
  "apply_role c uid entitled db =
     (let member_level = unwrap_or (level_of_name (m_graph db) (mc_member_role c)) 0;
          lapsed_level = unwrap_or (level_of_name (m_graph db) (mc_lapsed_role c)) 0;
          current_level = user_effective_level db uid;
          is_last_admin = (user_has_permission db uid ''admin.access'' \<and> count_active_admins db \<le> 1)
      in case plan_role_transition current_level entitled is_last_admin (mc_member_role c) member_level
                (mc_lapsed_role c) lapsed_level of
           Some new_role \<Rightarrow> set_user_primary_role uid new_role db
         | None \<Rightarrow> db)"

definition settle_after_credit ::
  "membership_config \<Rightarrow> calendar \<Rightarrow> instant \<Rightarrow> uuid \<Rightarrow> membership_db \<Rightarrow> membership_db fallible" where
  "settle_after_credit c cal now uid db =
     (case find_user_by_id db uid of
        None \<Rightarrow> (None, db)
      | Some user \<Rightarrow>
          if membership_next_due_at user \<noteq> None then (None, db)
          else if mc_due_amount c \<le> user_balance (m_ledger db) uid
          then and_then (post_dues uid (mc_due_amount c) db) (\<lambda>db1.
               and_then (set_membership_next_due uid (Some (advance_period cal now (mc_due_period c))) db1) (\<lambda>db2.
               (None, apply_role c uid True db2)))
          else (None, db))"

text \<open>The flag is the \<^verbatim>\<open>Ok(bool)\<close>: whether an entry was posted.\<close>

definition record_credit ::
  "membership_config \<Rightarrow> calendar \<Rightarrow> instant \<Rightarrow> uuid \<Rightarrow> ledger_entry_type \<Rightarrow> rat \<Rightarrow> string option \<Rightarrow>
   membership_db \<Rightarrow> (membership_error + bool) \<times> membership_db" where
  "record_credit c cal now uid ty amount reference db =
     (case post_once (m_ledger db)
             \<lparr>le_user_id = uid, le_entry_type = ty, le_amount = amount, le_external_reference = reference\<rparr> of
        None \<Rightarrow> (Inr False, db)
      | Some l \<Rightarrow>
          (case settle_after_credit c cal now uid (db\<lparr>m_ledger := l\<rparr>) of
             (None, db1) \<Rightarrow> (Inr True, db1)
           | (Some e, db1) \<Rightarrow> (Inl e, db1)))"

record cycle_outcome =
  users_checked :: nat
  dues_charged :: nat
  lapsed :: nat
  credited :: nat
  errors :: nat

text \<open>The first argument is what is left of the guard of 1200; the last, the loop's \<^verbatim>\<open>user.membership_next_due_at\<close>.\<close>

fun renewal_loop ::
  "nat \<Rightarrow> membership_config \<Rightarrow> calendar \<Rightarrow> instant \<Rightarrow> uuid \<Rightarrow> instant option \<Rightarrow>
   membership_db \<times> cycle_outcome \<Rightarrow> (membership_db \<times> cycle_outcome) fallible" where
  "renewal_loop guard c cal now uid None s = (None, s)"
| "renewal_loop 0 c cal now uid (Some next_due) s = (None, s)"
| "renewal_loop (Suc guard) c cal now uid (Some next_due) (db, out) =
     (if \<not> dues_due next_due now (mc_grace_days c) then (None, (db, out))
      else if mc_due_amount c \<le> user_balance (m_ledger db) uid
      then let nxt = advance_period cal next_due (mc_due_period c) in
        (case and_then (post_dues uid (mc_due_amount c) db) (set_membership_next_due uid (Some nxt)) of
           (Some e, db1) \<Rightarrow> (Some e, (db1, out))
         | (None, db1) \<Rightarrow>
             renewal_loop guard c cal now uid (Some nxt)
               (apply_role c uid True db1, out\<lparr>dues_charged := Suc (dues_charged out)\<rparr>))
      else
        (case set_membership_next_due uid None db of
           (Some e, db1) \<Rightarrow> (Some e, (db1, out))
         | (None, db1) \<Rightarrow>
             renewal_loop guard c cal now uid None
               (apply_role c uid False db1, out\<lparr>lapsed := Suc (lapsed out)\<rparr>)))"

definition settle_renewal ::
  "membership_config \<Rightarrow> calendar \<Rightarrow> instant \<Rightarrow> uuid \<Rightarrow> membership_db \<times> cycle_outcome \<Rightarrow>
   (membership_db \<times> cycle_outcome) fallible" where
  "settle_renewal c cal now uid s =
     (case find_user_by_id (fst s) uid of
        None \<Rightarrow> (None, s)
      | Some user \<Rightarrow> renewal_loop 1200 c cal now uid (membership_next_due_at user) s)"

text \<open>One polled customer: the user, and the paid invoices (amount in minor units, id) or a failed call.\<close>

definition poll_invoice ::
  "membership_config \<Rightarrow> calendar \<Rightarrow> instant \<Rightarrow> uuid \<Rightarrow> int \<times> string \<Rightarrow>
   membership_db \<times> cycle_outcome \<Rightarrow> membership_db \<times> cycle_outcome" where
  "poll_invoice c cal now uid invoice s =
     (case record_credit c cal now uid StripePayment (minor_units_to_decimal (fst invoice)) (Some (snd invoice)) (fst s) of
        (Inr True, db1) \<Rightarrow> (db1, (snd s)\<lparr>credited := Suc (credited (snd s))\<rparr>)
      | (Inr False, db1) \<Rightarrow> (db1, snd s)
      | (Inl e, db1) \<Rightarrow> (db1, (snd s)\<lparr>errors := Suc (errors (snd s))\<rparr>))"

definition poll_customer ::
  "membership_config \<Rightarrow> calendar \<Rightarrow> instant \<Rightarrow> uuid \<times> (int \<times> string) list option \<Rightarrow>
   membership_db \<times> cycle_outcome \<Rightarrow> membership_db \<times> cycle_outcome" where
  "poll_customer c cal now p s =
     (case snd p of
        Some invoices \<Rightarrow> fold (poll_invoice c cal now (fst p)) invoices s
      | None \<Rightarrow> (fst s, (snd s)\<lparr>errors := Suc (errors (snd s))\<rparr>))"

definition renew_user ::
  "membership_config \<Rightarrow> calendar \<Rightarrow> instant \<Rightarrow> member_user \<Rightarrow> membership_db \<times> cycle_outcome \<Rightarrow>
   membership_db \<times> cycle_outcome" where
  "renew_user c cal now user s =
     (case settle_renewal c cal now (mb_id user)
             (fst s, (snd s)\<lparr>users_checked := Suc (users_checked (snd s))\<rparr>) of
        (None, s1) \<Rightarrow> s1
      | (Some e, s1) \<Rightarrow> (fst s1, (snd s1)\<lparr>errors := Suc (errors (snd s1))\<rparr>))"

text \<open>\<open>polled\<close> is what the Stripe client returns, \<open>None\<close> when Stripe is disabled.\<close>

definition run_cycle ::
  "membership_config \<Rightarrow> calendar \<Rightarrow> instant \<Rightarrow> (uuid \<times> (int \<times> string) list option) list option \<Rightarrow>
   membership_db \<Rightarrow> membership_db \<times> cycle_outcome" where
  "run_cycle c cal now polled db =
     (let out = \<lparr>users_checked = 0, dues_charged = 0, lapsed = 0, credited = 0, errors = 0\<rparr>
      in if \<not> mc_enabled c then (db, out)
         else
           let s = (case polled of Some ps \<Rightarrow> fold (poll_customer c cal now) ps (db, out) | None \<Rightarrow> (db, out))
           in fold (renew_user c cal now) (enrolled_users (fst s)) s)"

end
