(* ===== verification/Billing.thy ===== *)
theory Billing
  imports Ledger Toolguard
begin

text \<open>
  Metered tool billing, \<^verbatim>\<open>server/src/tool_billing.rs\<close>, over the session table of
  \<^verbatim>\<open>server/src/database.rs\<close>. The tables are the record \<open>billing_db\<close>, the configuration \<open>billing_config\<close>;
  each service call runs to completion before the next (the unique indexes, which decide races, are
  the guards of the inserts). Decimal rounding to two places is the parameter \<open>rnd\<close>, the
  three-place formatting of a reported \<^verbatim>\<open>f32\<close> the parameter \<open>fmt3\<close>, a non-finite report is
  \<open>None\<close>; division is exact. Audit rows and database errors are left out.
\<close>

section \<open>Data\<close>

record tool =
  tl_id :: uuid
  usage_flat_fee :: "rat option"
  usage_rate_per_min :: "rat option"
  usage_max_session_minutes :: "int option"
  usage_basis :: string

record tool_session =
  tus_id :: uuid
  tus_tool_id :: uuid
  tus_user_id :: uuid
  tus_started_at :: instant
  hold_amount :: rat
  reported_seconds :: "rat option"
  reported_active_seconds :: "rat option"
  reported_sensed_seconds :: "rat option"
  reported_unsensed_seconds :: "rat option"
  charged_amount :: "rat option"
  tus_status :: string
  rate_flat_fee :: "rat option"
  rate_per_min :: "rat option"
  tier_id :: "uuid option"

record effective_rate =
  er_flat_fee :: "rat option"
  er_rate_per_min :: "rat option"
  er_max_session_minutes :: "int option"
  er_tier_id :: "uuid option"

datatype billing_mode = Prepaid | Postpaid

record billing_config =
  bc_enabled :: bool
  bc_mode :: billing_mode
  bc_require_membership :: bool
  bc_min_balance :: rat
  bc_default_max_session_minutes :: int
  bc_session_grace_minutes :: int
  bc_online_sync :: bool

record billing_db =
  b_ledger :: ledger
  b_sessions :: "tool_session list"
  b_tools :: "uuid \<rightharpoonup> tool"
  b_tiers :: "uuid \<times> uuid \<rightharpoonup> effective_rate"
  b_members :: "uuid set"

section \<open>Arithmetic\<close>

definition is_positive :: "rat option \<Rightarrow> bool" where
  "is_positive v \<longleftrightarrow> is_some_and v (\<lambda>x. 0 < x)"

definition session_cap_minutes :: "int option \<Rightarrow> int \<Rightarrow> int" where
  "session_cap_minutes own dflt = unwrap_or own dflt"

definition abandoned_cutoff :: "int \<Rightarrow> int \<Rightarrow> instant \<Rightarrow> instant" where
  "abandoned_cutoff max_minutes grace_minutes now = now - minutes (max max_minutes 1 + max grace_minutes 0)"

definition is_metered :: "rat option \<Rightarrow> rat option \<Rightarrow> bool" where
  "is_metered flat rate \<longleftrightarrow> is_positive flat \<or> is_positive rate"

definition max_session_cost :: "(rat \<Rightarrow> rat) \<Rightarrow> rat option \<Rightarrow> rat option \<Rightarrow> int \<Rightarrow> rat" where
  "max_session_cost rnd flat_fee rate max_minutes =
     rnd (unwrap_or flat_fee 0 + unwrap_or rate 0 * of_int max_minutes)"

definition effective_reported :: "string \<Rightarrow> rat option \<Rightarrow> rat option \<Rightarrow> rat" where
  "effective_reported basis reported active =
     (if basis = ''active''
      then unwrap_or (case active of Some a \<Rightarrow> Some a | None \<Rightarrow> reported) 0
      else unwrap_or reported 0)"

definition session_charge :: "(rat \<Rightarrow> rat) \<Rightarrow> rat option \<Rightarrow> rat option \<Rightarrow> rat \<Rightarrow> int \<Rightarrow> rat" where
  "session_charge rnd flat_fee rate effective_seconds max_minutes =
     (let flat = unwrap_or flat_fee 0;
          r = unwrap_or rate 0;
          max_secs = of_int max_minutes * 60;
          billable = (if effective_seconds > max_secs then max_secs
                      else if effective_seconds < 0 then 0 else effective_seconds)
      in rnd (flat + r * billable / 60))"

definition metered_access_ok :: "bool \<Rightarrow> bool \<Rightarrow> rat \<Rightarrow> rat \<Rightarrow> bool" where
  "metered_access_ok is_member require_membership available required \<longleftrightarrow>
     (\<not> require_membership \<or> is_member) \<and> required \<le> available"

text \<open>The gate snapshot the allow-list is filtered with (\<^verbatim>\<open>MeteredGate\<close>).\<close>

definition gate_requires_online :: "billing_config \<Rightarrow> tool \<Rightarrow> bool" where
  "gate_requires_online c t \<longleftrightarrow> bc_online_sync c \<and> is_metered (usage_flat_fee t) (usage_rate_per_min t)"

definition required_for_rate ::
  "(rat \<Rightarrow> rat) \<Rightarrow> billing_config \<Rightarrow> rat option \<Rightarrow> rat option \<Rightarrow> int option \<Rightarrow> rat" where
  "required_for_rate rnd c flat_fee rate max_minutes =
     (case bc_mode c of
        Prepaid \<Rightarrow> max_session_cost rnd flat_fee rate (unwrap_or max_minutes (bc_default_max_session_minutes c))
      | Postpaid \<Rightarrow> bc_min_balance c)"

definition authorizes_rate ::
  "(rat \<Rightarrow> rat) \<Rightarrow> billing_config \<Rightarrow> rat option \<Rightarrow> rat option \<Rightarrow> int option \<Rightarrow> rat \<Rightarrow> bool \<Rightarrow> bool" where
  "authorizes_rate rnd c flat_fee rate max_minutes available is_member =
     (if \<not> is_metered flat_fee rate then True
      else metered_access_ok is_member (bc_require_membership c) available
             (required_for_rate rnd c flat_fee rate max_minutes))"

section \<open>Sessions\<close>

definition is_open :: "tool_session \<Rightarrow> bool" where
  "is_open s \<longleftrightarrow> tus_status s = ''open''"

definition sum_open_tool_holds :: "billing_db \<Rightarrow> uuid \<Rightarrow> rat" where
  "sum_open_tool_holds db uid =
     foldl (\<lambda>acc h. acc + h) 0
       (map hold_amount (filter (\<lambda>s. tus_user_id s = uid \<and> is_open s) (b_sessions db)))"

definition available_balance :: "billing_db \<Rightarrow> uuid \<Rightarrow> rat" where
  "available_balance db uid = user_balance (b_ledger db) uid - sum_open_tool_holds db uid"

definition open_tool_session_for_tool :: "billing_db \<Rightarrow> uuid \<Rightarrow> tool_session option" where
  "open_tool_session_for_tool db tid = find (\<lambda>s. tus_tool_id s = tid \<and> is_open s) (b_sessions db)"

definition update_open :: "uuid \<Rightarrow> (tool_session \<Rightarrow> tool_session) \<Rightarrow> billing_db \<Rightarrow> billing_db" where
  "update_open sid f db =
     db\<lparr>b_sessions := map (\<lambda>s. if tus_id s = sid \<and> is_open s then f s else s) (b_sessions db)\<rparr>"

text \<open>One statement: every assignment reads the row as it was.\<close>

definition add_reported_seconds :: "rat \<Rightarrow> bool \<Rightarrow> tool_session \<Rightarrow> tool_session" where
  "add_reported_seconds secs sensed s =
     (if sensed
      then s\<lparr>reported_sensed_seconds := Some (unwrap_or (reported_sensed_seconds s) 0 + secs),
             reported_seconds := Some (unwrap_or (reported_sensed_seconds s) 0 + secs)\<rparr>
      else s\<lparr>reported_unsensed_seconds := Some (unwrap_or (reported_unsensed_seconds s) 0 + secs),
             reported_seconds :=
               (if reported_sensed_seconds s = None
                then Some (unwrap_or (reported_unsensed_seconds s) 0 + secs)
                else reported_seconds s)\<rparr>)"

definition add_reported_active_seconds :: "rat \<Rightarrow> tool_session \<Rightarrow> tool_session" where
  "add_reported_active_seconds secs s =
     s\<lparr>reported_active_seconds := Some (unwrap_or (reported_active_seconds s) 0 + secs)\<rparr>"

definition settle_tool_session :: "rat option \<Rightarrow> rat \<Rightarrow> string \<Rightarrow> tool_session \<Rightarrow> tool_session" where
  "settle_tool_session reported charged new_status s =
     s\<lparr>reported_seconds := reported, charged_amount := Some charged, tus_status := new_status\<rparr>"

definition resolve_effective_billing :: "billing_db \<Rightarrow> uuid \<Rightarrow> tool \<Rightarrow> effective_rate" where
  "resolve_effective_billing db uid t =
     (case b_tiers db (uid, tl_id t) of
        Some tier \<Rightarrow>
          tier\<lparr>er_max_session_minutes :=
            (case er_max_session_minutes tier of Some m \<Rightarrow> Some m | None \<Rightarrow> usage_max_session_minutes t)\<rparr>
      | None \<Rightarrow> \<lparr>er_flat_fee = usage_flat_fee t, er_rate_per_min = usage_rate_per_min t,
                 er_max_session_minutes = usage_max_session_minutes t, er_tier_id = None\<rparr>)"

section \<open>The service\<close>

definition max_minutes :: "billing_config \<Rightarrow> tool \<Rightarrow> int" where
  "max_minutes c t = session_cap_minutes (usage_max_session_minutes t) (bc_default_max_session_minutes c)"

definition required_available_rate :: "(rat \<Rightarrow> rat) \<Rightarrow> billing_config \<Rightarrow> effective_rate \<Rightarrow> rat" where
  "required_available_rate rnd c eff =
     (case bc_mode c of
        Prepaid \<Rightarrow> max_session_cost rnd (er_flat_fee eff) (er_rate_per_min eff)
                     (unwrap_or (er_max_session_minutes eff) (bc_default_max_session_minutes c))
      | Postpaid \<Rightarrow> bc_min_balance c)"

definition metered_authorized :: "(rat \<Rightarrow> rat) \<Rightarrow> billing_config \<Rightarrow> billing_db \<Rightarrow> uuid \<Rightarrow> tool \<Rightarrow> bool" where
  "metered_authorized rnd c db uid t =
     (let eff = resolve_effective_billing db uid t
      in if \<not> is_metered (er_flat_fee eff) (er_rate_per_min eff) then True
         else metered_access_ok (uid \<in> b_members db) (bc_require_membership c) (available_balance db uid)
                (required_available_rate rnd c eff))"

datatype denied = AlreadyOpen | MembershipRequired | InsufficientBalance rat rat

text \<open>\<open>sid\<close> is the id the database generates for the new row.\<close>

definition billing_open_session ::
  "(rat \<Rightarrow> rat) \<Rightarrow> billing_config \<Rightarrow> uuid \<Rightarrow> uuid \<Rightarrow> tool \<Rightarrow> instant \<Rightarrow> billing_db \<Rightarrow>
   (denied + tool_session) \<times> billing_db" where
  "billing_open_session rnd c sid uid t now db =
     (case open_tool_session_for_tool db (tl_id t) of
        Some _ \<Rightarrow> (Inl AlreadyOpen, db)
      | None \<Rightarrow>
          (let eff = resolve_effective_billing db uid t;
               metered_for_user = is_metered (er_flat_fee eff) (er_rate_per_min eff);
               required = required_available_rate rnd c eff;
               available = available_balance db uid
           in if metered_for_user \<and> bc_require_membership c \<and> uid \<notin> b_members db
              then (Inl MembershipRequired, db)
              else if metered_for_user \<and> available < required
              then (Inl (InsufficientBalance available required), db)
              else
                let hold = (if bc_mode c = Prepaid \<and> metered_for_user then required else 0);
                    s = \<lparr>tus_id = sid, tus_tool_id = tl_id t, tus_user_id = uid, tus_started_at = now,
                         hold_amount = hold, reported_seconds = None, reported_active_seconds = None,
                         reported_sensed_seconds = None, reported_unsensed_seconds = None,
                         charged_amount = None, tus_status = ''open'', rate_flat_fee = er_flat_fee eff,
                         rate_per_min = er_rate_per_min eff, tier_id = er_tier_id eff\<rparr>
                in (Inr s, db\<lparr>b_sessions := b_sessions db @ [s]\<rparr>)))"

definition record_usage ::
  "(rat \<Rightarrow> rat) \<Rightarrow> uuid \<Rightarrow> rat option \<Rightarrow> rat option option \<Rightarrow> billing_db \<Rightarrow> bool \<times> billing_db" where
  "record_usage fmt3 tid secs active db =
     (case secs of
        None \<Rightarrow> (False, db)
      | Some sec \<Rightarrow>
          if sec < 0 then (False, db)
          else
            (case open_tool_session_for_tool db tid of
               None \<Rightarrow> (False, db)
             | Some session \<Rightarrow>
                 (let db1 = update_open (tus_id session) (add_reported_seconds (fmt3 sec) (active \<noteq> None)) db
                  in (True,
                      case active of
                        Some (Some a) \<Rightarrow>
                          if 0 \<le> a
                          then update_open (tus_id session) (add_reported_active_seconds (fmt3 a)) db1
                          else db1
                      | _ \<Rightarrow> db1))))"

definition session_rates :: "tool \<Rightarrow> tool_session \<Rightarrow> rat option \<times> rat option" where
  "session_rates t s =
     (if rate_per_min s \<noteq> None \<or> rate_flat_fee s \<noteq> None \<or> tier_id s \<noteq> None
      then (rate_flat_fee s, rate_per_min s)
      else (usage_flat_fee t, usage_rate_per_min t))"

text \<open>What a settle of session \<open>s\<close> charges at \<open>now\<close>.\<close>

definition settle_charge :: "(rat \<Rightarrow> rat) \<Rightarrow> billing_config \<Rightarrow> tool \<Rightarrow> tool_session \<Rightarrow> instant \<Rightarrow> rat" where
  "settle_charge rnd c t s now =
     (let reported = effective_reported (usage_basis t) (reported_seconds s) (reported_active_seconds s);
          elapsed = of_int (max (num_seconds (now - tus_started_at s)) 0);
          effective = (if reported > elapsed then elapsed else reported);
          (flat, rate) = session_rates t s
      in session_charge rnd flat rate effective (max_minutes c t))"

definition settle_open_session_for_tool ::
  "text_ops \<Rightarrow> (rat \<Rightarrow> rat) \<Rightarrow> billing_config \<Rightarrow> tool \<Rightarrow> string \<Rightarrow> instant \<Rightarrow> billing_db \<Rightarrow> rat option \<times> billing_db" where
  "settle_open_session_for_tool x rnd c t status_on_close now db =
     (case open_tool_session_for_tool db (tl_id t) of
        None \<Rightarrow> (None, db)
      | Some s \<Rightarrow>
          (let charge = settle_charge rnd c t s now;
               entry = \<lparr>le_user_id = tus_user_id s, le_entry_type = ToolUsage, le_amount = - charge,
                        le_external_reference = Some (uuid_show x (tus_id s))\<rparr>;
               posted = post_once (b_ledger db) entry;
               db1 = (case posted of Some l \<Rightarrow> db\<lparr>b_ledger := l\<rparr> | None \<Rightarrow> db);
               db2 = update_open (tus_id s) (settle_tool_session (reported_seconds s) charge status_on_close) db1
           in (if posted \<noteq> None then Some charge else None, db2)))"

fun sweep_loop ::
  "text_ops \<Rightarrow> (rat \<Rightarrow> rat) \<Rightarrow> billing_config \<Rightarrow> instant \<Rightarrow> tool_session list \<Rightarrow> billing_db \<Rightarrow> nat \<times> billing_db" where
  "sweep_loop x rnd c now [] db = (0, db)"
| "sweep_loop x rnd c now (s # ss) db =
     (case b_tools db (tus_tool_id s) of
        None \<Rightarrow> sweep_loop x rnd c now ss db
      | Some t \<Rightarrow>
          if abandoned_cutoff (max_minutes c t) (bc_session_grace_minutes c) now \<le> tus_started_at s
          then sweep_loop x rnd c now ss db
          else
            (case settle_open_session_for_tool x rnd c t ''abandoned'' now db of
               (r, db1) \<Rightarrow>
                 (case sweep_loop x rnd c now ss db1 of
                    (n, db2) \<Rightarrow> (if r \<noteq> None then Suc n else n, db2))))"

definition sweep_abandoned ::
  "text_ops \<Rightarrow> (rat \<Rightarrow> rat) \<Rightarrow> billing_config \<Rightarrow> instant \<Rightarrow> billing_db \<Rightarrow> nat \<times> billing_db" where
  "sweep_abandoned x rnd c now db =
     (if \<not> bc_enabled c then (0, db)
      else sweep_loop x rnd c now
             (filter (\<lambda>s. is_open s \<and> tus_started_at s < abandoned_cutoff 1 (bc_session_grace_minutes c) now)
               (b_sessions db)) db)"

end
