(* ===== verification/Billing_Safety.thy ===== *)
theory Billing_Safety
  imports Billing
begin

text \<open>
  What metered billing promises: a charge is at most the cost it was gated on, a session is charged
  once, and in prepaid mode no sequence of activations, reports, stops, sweeps and credits takes a
  member's available balance below zero, as long as a tier's cap is not below its tool's. Where it
  is, the hold does not cover the charge, which is stated too.
\<close>

section \<open>Charges\<close>

definition rounds_ok :: "(rat \<Rightarrow> rat) \<Rightarrow> bool" where
  "rounds_ok rnd \<longleftrightarrow> (\<forall>a b. a \<le> b \<longrightarrow> rnd a \<le> rnd b) \<and> rnd 0 = 0"

definition rate_ok :: "rat option \<Rightarrow> bool" where
  "rate_ok r \<longleftrightarrow> is_none_or r (\<lambda>x. 0 \<le> x)"

lemma rate_ok_unwrap: "rate_ok r \<Longrightarrow> 0 \<le> unwrap_or r 0"
  by (cases r) (auto simp: rate_ok_def)

lemma session_charge_le:
  assumes "rounds_ok rnd" "rate_ok rate" "0 \<le> cap" "cap \<le> cap'"
  shows "session_charge rnd flat rate eff cap \<le> max_session_cost rnd flat rate cap'"
proof -
  let ?m = "of_int cap * 60 :: rat"
  let ?b = "if eff > ?m then ?m else if eff < 0 then 0 else eff"
  have "?b \<le> of_int cap' * 60" using assms(3,4) by auto
  then have "unwrap_or rate 0 * ?b \<le> unwrap_or rate 0 * (of_int cap' * 60)"
    using rate_ok_unwrap [OF assms(2)] by (intro mult_left_mono)
  then have "unwrap_or flat 0 + unwrap_or rate 0 * ?b / 60 \<le> unwrap_or flat 0 + unwrap_or rate 0 * of_int cap'"
    by simp
  then show ?thesis
    using assms(1) unfolding session_charge_def max_session_cost_def rounds_ok_def Let_def by blast
qed

lemma session_charge_nonneg:
  assumes "rounds_ok rnd" "rate_ok flat" "rate_ok rate" "0 \<le> cap"
  shows "0 \<le> session_charge rnd flat rate eff cap"
proof -
  let ?m = "of_int cap * 60 :: rat"
  let ?b = "if eff > ?m then ?m else if eff < 0 then 0 else eff"
  have "0 \<le> ?b" using assms(4) by auto
  then have "0 \<le> unwrap_or flat 0 + unwrap_or rate 0 * ?b / 60"
    using rate_ok_unwrap assms(2,3) by simp
  then have "0 \<le> rnd (unwrap_or flat 0 + unwrap_or rate 0 * ?b / 60)"
    using assms(1) unfolding rounds_ok_def by metis
  then show ?thesis
    unfolding session_charge_def Let_def .
qed

lemma session_charge_unmetered:
  assumes "rounds_ok rnd" "rate_ok flat" "rate_ok rate" "\<not> is_metered flat rate"
  shows "session_charge rnd flat rate eff cap = 0"
proof -
  have "unwrap_or flat 0 = 0" "unwrap_or rate 0 = 0"
    using assms(2-4) by (cases flat; cases rate; auto simp: is_metered_def is_positive_def rate_ok_def)+
  then show ?thesis using assms(1) by (simp add: session_charge_def rounds_ok_def Let_def)
qed

section \<open>Holds\<close>

lemma holds_sum:
  "sum_open_tool_holds db u = (\<Sum>s \<leftarrow> b_sessions db. if tus_user_id s = u \<and> is_open s then hold_amount s else 0)"
proof -
  have "sum_list (map hold_amount (filter P xs)) = (\<Sum>s \<leftarrow> xs. if P s then hold_amount s else 0)" for P xs
    by (induction xs) auto
  then show ?thesis by (simp add: sum_open_tool_holds_def foldl_add)
qed

lemma sum_close_one:
  "distinct (map tus_id ss) \<Longrightarrow> s \<in> set ss \<Longrightarrow>
   (\<Sum>r \<leftarrow> map (\<lambda>r. if tus_id r = tus_id s \<and> is_open r then f r else r) ss. g r) =
     (\<Sum>r \<leftarrow> ss. g r) + (if is_open s then g (f s) - g s else (0 :: rat))"
proof (induction ss)
  case (Cons a ss)
  show ?case
  proof (cases "a = s")
    case True
    have "tus_id r \<noteq> tus_id s" if "r \<in> set ss" for r
      using Cons.prems(1) True that by (metis distinct.simps(2) image_eqI list.simps(9) set_map)
    then have "map (\<lambda>r. if tus_id r = tus_id s \<and> is_open r then f r else r) ss = ss"
      by (intro map_idI) simp
    with True show ?thesis by simp
  next
    case False
    then have "s \<in> set ss" "tus_id a \<noteq> tus_id s" using Cons.prems by (auto simp: image_iff)
    then show ?thesis using Cons by simp
  qed
qed simp

lemma update_open_frames [simp]:
  "b_ledger (update_open sid f db) = b_ledger db"
  "b_tools (update_open sid f db) = b_tools db"
  "b_tiers (update_open sid f db) = b_tiers db"
  "b_members (update_open sid f db) = b_members db"
  by (simp_all add: update_open_def)

lemma update_open_ids:
  "(\<And>s. tus_id (f s) = tus_id s) \<Longrightarrow> map tus_id (b_sessions (update_open sid f db)) = map tus_id (b_sessions db)"
  by (simp add: update_open_def comp_def if_distrib [of tus_id])

lemma open_session_found:
  "open_tool_session_for_tool db tid = Some s \<Longrightarrow> s \<in> set (b_sessions db) \<and> is_open s \<and> tus_tool_id s = tid"
  by (auto simp: open_tool_session_for_tool_def dest: find_SomeD)

section \<open>Solvency\<close>

definition caps_cover :: "billing_config \<Rightarrow> billing_db \<Rightarrow> bool" where
  "caps_cover c db \<longleftrightarrow>
     (\<forall>tid t u. b_tools db tid = Some t \<longrightarrow>
        0 \<le> max_minutes c t \<and>
        max_minutes c t \<le> unwrap_or (er_max_session_minutes (resolve_effective_billing db u t)) (bc_default_max_session_minutes c))"

definition prices_ok :: "billing_db \<Rightarrow> bool" where
  "prices_ok db \<longleftrightarrow>
     (\<forall>tid t. b_tools db tid = Some t \<longrightarrow> tl_id t = tid \<and> rate_ok (usage_flat_fee t) \<and> rate_ok (usage_rate_per_min t)) \<and>
     (\<forall>k r. b_tiers db k = Some r \<longrightarrow> er_tier_id r \<noteq> None \<and> rate_ok (er_flat_fee r) \<and> rate_ok (er_rate_per_min r))"

definition covered :: "(rat \<Rightarrow> rat) \<Rightarrow> billing_config \<Rightarrow> billing_db \<Rightarrow> tool_session \<Rightarrow> bool" where
  "covered rnd c db s \<longleftrightarrow>
     (\<exists>t. b_tools db (tus_tool_id s) = Some t \<and>
        (\<forall>eff. session_charge rnd (fst (session_rates t s)) (snd (session_rates t s)) eff (max_minutes c t) \<le> hold_amount s))"

definition solvent :: "text_ops \<Rightarrow> (rat \<Rightarrow> rat) \<Rightarrow> billing_config \<Rightarrow> billing_db \<Rightarrow> bool" where
  "solvent x rnd c db \<longleftrightarrow>
     rounds_ok rnd \<and> text_ok x \<and> bc_mode c = Prepaid \<and> caps_cover c db \<and> prices_ok db \<and>
     distinct (map tus_id (b_sessions db)) \<and>
     (\<forall>s \<in> set (b_sessions db). is_open s \<longrightarrow> covered rnd c db s) \<and>
     (\<forall>u. ledger_entry_exists_for_reference (b_ledger db) (uuid_show x u) \<longrightarrow>
        (\<exists>s \<in> set (b_sessions db). tus_id s = u \<and> \<not> is_open s)) \<and>
     (\<forall>u. 0 \<le> available_balance db u)"

lemma resolve_rates_ok:
  assumes "prices_ok db" "b_tools db tid = Some t"
  shows "rate_ok (er_flat_fee (resolve_effective_billing db u t))"
    "rate_ok (er_rate_per_min (resolve_effective_billing db u t))"
  using assms by (auto simp: resolve_effective_billing_def prices_ok_def split: option.splits)

lemma resolve_session_rates:
  assumes "prices_ok db"
    and "rate_flat_fee s = er_flat_fee (resolve_effective_billing db u t)"
      "rate_per_min s = er_rate_per_min (resolve_effective_billing db u t)"
      "tier_id s = er_tier_id (resolve_effective_billing db u t)"
  shows "session_rates t s = (rate_flat_fee s, rate_per_min s)"
proof (cases "b_tiers db (u, tl_id t)")
  case (Some r)
  then have "tier_id s \<noteq> None"
    using assms(1,4) unfolding prices_ok_def resolve_effective_billing_def by auto
  then show ?thesis by (simp add: session_rates_def)
next
  case None
  then show ?thesis using assms(2-4) by (auto simp: session_rates_def resolve_effective_billing_def)
qed

lemma solvent_open:
  assumes S: "solvent x rnd c db" and t: "b_tools db tid = Some t" and sid: "sid \<notin> tus_id ` set (b_sessions db)"
  shows "solvent x rnd c (snd (billing_open_session rnd c sid u t now db))"
proof (cases "fst (billing_open_session rnd c sid u t now db)")
  case (Inl d)
  then have "snd (billing_open_session rnd c sid u t now db) = db"
    by (auto simp: billing_open_session_def Let_def split: option.splits if_splits)
  with S show ?thesis by simp
next
  case (Inr s)
  let ?eff = "resolve_effective_billing db u t"
  let ?req = "required_available_rate rnd c ?eff"
  let ?db = "db\<lparr>b_sessions := b_sessions db @ [s]\<rparr>"
  have db': "snd (billing_open_session rnd c sid u t now db) = ?db"
    and s: "tus_id s = sid" "tus_tool_id s = tl_id t" "tus_user_id s = u" "is_open s"
      "rate_flat_fee s = er_flat_fee ?eff" "rate_per_min s = er_rate_per_min ?eff" "tier_id s = er_tier_id ?eff"
      "hold_amount s = (if bc_mode c = Prepaid \<and> is_metered (er_flat_fee ?eff) (er_rate_per_min ?eff) then ?req else 0)"
    and afford: "is_metered (er_flat_fee ?eff) (er_rate_per_min ?eff) \<Longrightarrow> ?req \<le> available_balance db u"
    using Inr by (auto simp: billing_open_session_def Let_def is_open_def not_less split: option.splits if_splits)
  have P: "prices_ok db" "rounds_ok rnd" "bc_mode c = Prepaid" "caps_cover c db" using S by (auto simp: solvent_def)
  have tid: "tl_id t = tid" using P(1) t by (auto simp: prices_ok_def)
  note rates = resolve_rates_ok [OF P(1) t, of u]
  have cap: "0 \<le> max_minutes c t"
      "max_minutes c t \<le> unwrap_or (er_max_session_minutes ?eff) (bc_default_max_session_minutes c)"
    using P(4) t by (auto simp: caps_cover_def)
  have "session_charge rnd (er_flat_fee ?eff) (er_rate_per_min ?eff) eff (max_minutes c t) \<le> hold_amount s" for eff
  proof (cases "is_metered (er_flat_fee ?eff) (er_rate_per_min ?eff)")
    case True
    then show ?thesis
      using session_charge_le [OF P(2) rates(2) cap] s(8) P(3) by (simp add: required_available_rate_def)
  next
    case False
    then show ?thesis using session_charge_unmetered [OF P(2) rates False] s(8) by simp
  qed
  then have "covered rnd c ?db s"
    using t tid s resolve_session_rates [OF P(1) s(5-7)] by (auto simp: covered_def)
  moreover have "0 \<le> available_balance ?db w" for w
    using S afford s(3,4,8) by (auto simp: solvent_def available_balance_def holds_sum algebra_simps)
  ultimately show ?thesis
    unfolding db' using S sid s(1,4)
    by (auto simp: solvent_def covered_def caps_cover_def prices_ok_def resolve_effective_billing_def)
qed

lemma covered_frame: "b_tools db' = b_tools db \<Longrightarrow> covered rnd c db' s = covered rnd c db s"
  by (simp add: covered_def)

lemma solvent_step:
  assumes "solvent x rnd c db" "b_tools db' = b_tools db" "b_tiers db' = b_tiers db"
    and "distinct (map tus_id (b_sessions db'))"
    and "\<And>s. s \<in> set (b_sessions db') \<Longrightarrow> is_open s \<Longrightarrow> covered rnd c db s"
    and "\<And>u. ledger_entry_exists_for_reference (b_ledger db') (uuid_show x u) \<Longrightarrow>
        \<exists>s \<in> set (b_sessions db'). tus_id s = u \<and> \<not> is_open s"
    and "\<And>u. 0 \<le> available_balance db' u"
  shows "solvent x rnd c db'"
proof -
  have "resolve_effective_billing db' = resolve_effective_billing db"
    by (intro ext) (simp add: resolve_effective_billing_def assms(3))
  then have "caps_cover c db'" "prices_ok db'"
    using assms(1-3) by (simp_all add: solvent_def caps_cover_def prices_ok_def)
  with assms show ?thesis by (auto simp: solvent_def covered_frame [of db' db])
qed

lemma sum_map_same:
  "(\<And>s. g (f s) = g s) \<Longrightarrow> (\<Sum>r \<leftarrow> map (\<lambda>r. if P r then f r else r) ss. g r) = (\<Sum>r \<leftarrow> ss. (g r :: rat))"
  by (induction ss) auto

text \<open>An update that leaves identity, hold, status and rates alone.\<close>

definition usage_update :: "(tool_session \<Rightarrow> tool_session) \<Rightarrow> bool" where
  "usage_update f \<longleftrightarrow>
     (\<forall>s. tus_id (f s) = tus_id s \<and> tus_tool_id (f s) = tus_tool_id s \<and> tus_user_id (f s) = tus_user_id s \<and>
          hold_amount (f s) = hold_amount s \<and> is_open (f s) = is_open s \<and>
          rate_flat_fee (f s) = rate_flat_fee s \<and> rate_per_min (f s) = rate_per_min s \<and> tier_id (f s) = tier_id s)"

lemma usage_updates [simp]:
  "usage_update (add_reported_seconds n sensed)" "usage_update (add_reported_active_seconds n)"
  by (auto simp: usage_update_def add_reported_seconds_def add_reported_active_seconds_def is_open_def)

lemma covered_usage: "usage_update f \<Longrightarrow> covered rnd c db (f s) = covered rnd c db s"
  by (simp add: covered_def usage_update_def session_rates_def)

lemma solvent_usage:
  assumes "solvent x rnd c db" "usage_update f"
  shows "solvent x rnd c (update_open sid f db)"
proof (rule solvent_step [OF assms(1)])
  have f: "\<And>s. tus_id (f s) = tus_id s" "\<And>s. is_open (f s) = is_open s"
    using assms(2) by (auto simp: usage_update_def)
  have "sum_open_tool_holds (update_open sid f db) u = sum_open_tool_holds db u" for u
    unfolding holds_sum using assms(2)
    by (simp add: update_open_def sum_map_same usage_update_def del: map_map)
  then show "0 \<le> available_balance (update_open sid f db) u" for u
    using assms(1) by (simp add: available_balance_def solvent_def)
  show "distinct (map tus_id (b_sessions (update_open sid f db)))"
    using assms(1) f by (simp add: update_open_ids solvent_def)
  show "covered rnd c db s'" if s': "s' \<in> set (b_sessions (update_open sid f db))" "is_open s'" for s'
  proof -
    from s'(1) obtain s where "s \<in> set (b_sessions db)" "s' = (if tus_id s = sid \<and> is_open s then f s else s)"
      by (auto simp: update_open_def)
    with s'(2) assms show ?thesis by (auto simp: solvent_def covered_usage f split: if_splits)
  qed
  show "\<exists>s \<in> set (b_sessions (update_open sid f db)). tus_id s = u \<and> \<not> is_open s"
    if "ledger_entry_exists_for_reference (b_ledger (update_open sid f db)) (uuid_show x u)" for u
  proof -
    from that obtain s where "s \<in> set (b_sessions db)" "tus_id s = u" "\<not> is_open s"
      using assms(1) by (auto simp: solvent_def)
    then show ?thesis by (auto simp: update_open_def intro!: bexI [of _ s] image_eqI [of _ _ s])
  qed
qed simp_all

lemma solvent_record_usage:
  assumes "solvent x rnd c db"
  shows "solvent x rnd c (snd (record_usage fmt3 tid secs active db))"
  using assms by (auto simp: record_usage_def Let_def solvent_usage split: option.splits)

text \<open>A settle is below the hold it releases, so it frees at least what it takes.\<close>

lemma settle_charge_covered:
  "covered rnd c db s \<Longrightarrow> b_tools db (tus_tool_id s) = Some t \<Longrightarrow> settle_charge rnd c t s now \<le> hold_amount s"
  by (auto simp: covered_def settle_charge_def Let_def split_beta)

lemma solvent_settle:
  assumes S: "solvent x rnd c db" and t: "b_tools db tid = Some t" and st: "st \<noteq> ''open''"
  shows "solvent x rnd c (snd (settle_open_session_for_tool x rnd c t st now db))"
proof (cases "open_tool_session_for_tool db (tl_id t)")
  case None
  with S show ?thesis by (simp add: settle_open_session_for_tool_def)
next
  case (Some s)
  have tid: "tl_id t = tid" using S t by (auto simp: solvent_def prices_ok_def)
  note found = open_session_found [OF Some]
  let ?ch = "settle_charge rnd c t s now"
  let ?e = "\<lparr>le_user_id = tus_user_id s, le_entry_type = ToolUsage, le_amount = - ?ch,
      le_external_reference = Some (uuid_show x (tus_id s))\<rparr>"
  let ?f = "settle_tool_session (reported_seconds s) ?ch st"
  have f: "\<And>r. tus_id (?f r) = tus_id r" "\<And>r. \<not> is_open (?f r)"
    using st by (simp_all add: settle_tool_session_def is_open_def)
  have dist: "distinct (map tus_id (b_sessions db))" using S by (simp add: solvent_def)
  have sole: "r = s" if "r \<in> set (b_sessions db)" "tus_id r = tus_id s" for r
    using that found dist by (metis distinct_map inj_onD)
  have "\<not> ledger_entry_exists_for_reference (b_ledger db) (uuid_show x (tus_id s))"
  proof
    assume "ledger_entry_exists_for_reference (b_ledger db) (uuid_show x (tus_id s))"
    with S obtain r where "r \<in> set (b_sessions db)" "tus_id r = tus_id s" "\<not> is_open r"
      unfolding solvent_def by blast
    with sole found show False by blast
  qed
  then have "post_once (b_ledger db) ?e = Some (b_ledger db @ [?e])" by (simp add: post_once_Some)
  then have db': "snd (settle_open_session_for_tool x rnd c t st now db) =
      update_open (tus_id s) ?f (db\<lparr>b_ledger := b_ledger db @ [?e]\<rparr>)"
    using Some by (simp add: settle_open_session_for_tool_def Let_def)
  let ?db = "update_open (tus_id s) ?f (db\<lparr>b_ledger := b_ledger db @ [?e]\<rparr>)"
  have ss: "b_sessions ?db = map (\<lambda>r. if tus_id r = tus_id s \<and> is_open r then ?f r else r) (b_sessions db)"
    by (simp add: update_open_def)
  have le: "?ch \<le> hold_amount s"
    using S found t tid by (intro settle_charge_covered) (auto simp: solvent_def)
  have "sum_open_tool_holds ?db u = sum_open_tool_holds db u - (if tus_user_id s = u then hold_amount s else 0)" for u
    unfolding holds_sum ss
    using sum_close_one [OF dist, where s = s and f = ?f and g = "\<lambda>r. if tus_user_id r = u \<and> is_open r then hold_amount r else 0"] found f
    by auto
  then have "available_balance db u \<le> available_balance ?db u" for u
    using le by (auto simp: available_balance_def)
  then have av: "0 \<le> available_balance ?db u" for u
    using S by (meson order_trans solvent_def)
  show ?thesis
    unfolding db'
  proof (rule solvent_step [OF S])
    show "distinct (map tus_id (b_sessions ?db))" using dist f by (simp add: update_open_ids)
    show "covered rnd c db s'" if "s' \<in> set (b_sessions ?db)" "is_open s'" for s'
      using that S f by (auto simp: ss solvent_def split: if_splits)
    show "\<exists>r \<in> set (b_sessions ?db). tus_id r = u \<and> \<not> is_open r"
      if "ledger_entry_exists_for_reference (b_ledger ?db) (uuid_show x u)" for u
    proof (cases "u = tus_id s")
      case True
      have "(if tus_id s = tus_id s \<and> is_open s then ?f s else s) \<in> set (b_sessions ?db)"
        unfolding ss set_map using found by (intro imageI) simp
      with True found f show ?thesis by auto
    next
      case False
      then have "ledger_entry_exists_for_reference (b_ledger db) (uuid_show x u)"
        using that S uuid_show_inj [of x] by (auto simp: solvent_def)
      then obtain r where "r \<in> set (b_sessions db)" "tus_id r = u" "\<not> is_open r"
        using S by (auto simp: solvent_def)
      then show ?thesis unfolding ss by (auto intro!: bexI [of _ r])
    qed
  qed (use av in simp_all)
qed

lemma settle_tools [simp]:
  "b_tools (snd (settle_open_session_for_tool x rnd c t st now db)) = b_tools db"
  by (simp add: settle_open_session_for_tool_def Let_def split: option.splits)

lemma solvent_sweep_loop: "solvent x rnd c db \<Longrightarrow> solvent x rnd c (snd (sweep_loop x rnd c now ss db))"
proof (induction ss arbitrary: db)
  case (Cons s ss)
  have "solvent x rnd c (snd (settle_open_session_for_tool x rnd c t ''abandoned'' now db))"
    if "b_tools db (tus_tool_id s) = Some t" for t
    using Cons.prems that by (intro solvent_settle) auto
  with Cons show ?case by (auto simp: split_beta split: option.splits)
qed simp

lemma solvent_credit:
  assumes "solvent x rnd c db" "0 \<le> le_amount e"
    and "\<forall>u. le_external_reference e \<noteq> Some (uuid_show x u)" "post_once (b_ledger db) e = Some l"
  shows "solvent x rnd c (db\<lparr>b_ledger := l\<rparr>)"
proof (rule solvent_step [OF assms(1)])
  have l: "l = b_ledger db @ [e]" using assms(4) by (simp add: post_once_Some)
  show "0 \<le> available_balance (db\<lparr>b_ledger := l\<rparr>) u" for u
    using assms(1,2) by (auto simp: l available_balance_def solvent_def sum_open_tool_holds_def add_nonneg_nonneg add.commute
        diff_add_eq intro: order_trans)
qed (use assms in \<open>auto simp: solvent_def post_once_Some\<close>)

section \<open>Sequences of calls\<close>

datatype billing_event =
    BOpen uuid uuid uuid instant
  | BUsage uuid "rat option" "rat option option"
  | BSettle uuid string instant
  | BSweep instant
  | BCredit ledger_entry

text \<open>
  The handlers look the tool up first; the database generates an id no row has; a credit is posted
  once per reference.
\<close>

fun billing_step ::
  "text_ops \<Rightarrow> (rat \<Rightarrow> rat) \<Rightarrow> (rat \<Rightarrow> rat) \<Rightarrow> billing_config \<Rightarrow> billing_event \<Rightarrow> billing_db \<Rightarrow> billing_db" where
  "billing_step x rnd fmt3 c (BOpen sid uid tid now) db =
     (case b_tools db tid of
        Some t \<Rightarrow> if sid \<in> tus_id ` set (b_sessions db) then db
                  else snd (billing_open_session rnd c sid uid t now db)
      | None \<Rightarrow> db)"
| "billing_step x rnd fmt3 c (BUsage tid secs active) db = snd (record_usage fmt3 tid secs active db)"
| "billing_step x rnd fmt3 c (BSettle tid st now) db =
     (case b_tools db tid of
        Some t \<Rightarrow> snd (settle_open_session_for_tool x rnd c t st now db)
      | None \<Rightarrow> db)"
| "billing_step x rnd fmt3 c (BSweep now) db = snd (sweep_abandoned x rnd c now db)"
| "billing_step x rnd fmt3 c (BCredit e) db =
     (case post_once (b_ledger db) e of Some l \<Rightarrow> db\<lparr>b_ledger := l\<rparr> | None \<Rightarrow> db)"

text \<open>
  Calls the services never make: closing a session into the status that means open, or a credit
  that is a debit or carries a session's id for reference.
\<close>

definition improper :: "text_ops \<Rightarrow> billing_event \<Rightarrow> bool" where
  "improper x e \<longleftrightarrow>
     (case e of
        BSettle _ st _ \<Rightarrow> st = ''open''
      | BCredit l \<Rightarrow> le_amount l < 0 \<or> (\<exists>u. le_external_reference l = Some (uuid_show x u))
      | _ \<Rightarrow> False)"

interpretation solvency: guarded_fact "billing_step x rnd fmt3 c" "\<lambda>_ :: unit. solvent x rnd c" "\<lambda>_. improper x"
  for x rnd fmt3 c
proof
  fix db :: billing_db and e :: billing_event
  assume S: "solvent x rnd c db" and p: "\<not> improper x e"
  show "solvent x rnd c (billing_step x rnd fmt3 c e db)"
  proof (cases e)
    case (BOpen sid uid tid now)
    with S show ?thesis by (auto intro: solvent_open split: option.splits)
  next
    case (BUsage tid secs active)
    with S show ?thesis by (auto intro: solvent_record_usage)
  next
    case (BSettle tid st now)
    with S p show ?thesis by (auto simp: improper_def intro: solvent_settle split: option.splits)
  next
    case (BSweep now)
    with S show ?thesis by (auto simp: sweep_abandoned_def intro: solvent_sweep_loop)
  next
    case (BCredit l)
    with S p show ?thesis
      by (auto simp: improper_def not_less intro!: solvent_credit split: option.splits)
  qed
qed

section \<open>A workshop with one prepaid laser\<close>

definition demo_cfg :: billing_config where
  "demo_cfg = \<lparr>bc_enabled = True, bc_mode = Prepaid, bc_require_membership = False, bc_min_balance = 0,
     bc_default_max_session_minutes = 60, bc_session_grace_minutes = 10, bc_online_sync = False\<rparr>"

definition demo_laser :: tool where
  "demo_laser = \<lparr>tl_id = 7, usage_flat_fee = None, usage_rate_per_min = Some 2, usage_max_session_minutes = Some 10,
     usage_basis = ''occupancy''\<rparr>"

definition demo_tier :: effective_rate where
  "demo_tier = \<lparr>er_flat_fee = None, er_rate_per_min = Some 1, er_max_session_minutes = Some 5, er_tier_id = Some 3\<rparr>"

definition demo_billing :: "(uuid \<times> uuid \<rightharpoonup> effective_rate) \<Rightarrow> billing_db" where
  "demo_billing tiers = \<lparr>b_ledger = [\<lparr>le_user_id = 1, le_entry_type = CashPayment, le_amount = 30,
     le_external_reference = None\<rparr>], b_sessions = [], b_tools = [7 \<mapsto> demo_laser], b_tiers = tiers, b_members = {}\<rparr>"

definition demo_open :: "(uuid \<times> uuid \<rightharpoonup> effective_rate) \<Rightarrow> (denied + tool_session) \<times> billing_db" where
  "demo_open tiers = billing_open_session (\<lambda>a. a) demo_cfg 11 1 demo_laser 0 (demo_billing tiers)"

lemma demo_open_untiered:
  "fst (demo_open Map.empty) = Inr \<lparr>tus_id = 11, tus_tool_id = 7, tus_user_id = 1, tus_started_at = 0, hold_amount = 20,
     reported_seconds = None, reported_active_seconds = None, reported_sensed_seconds = None,
     reported_unsensed_seconds = None, charged_amount = None, tus_status = ''open'', rate_flat_fee = None,
     rate_per_min = Some 2, tier_id = None\<rparr>"
  by (simp add: demo_open_def billing_open_session_def open_tool_session_for_tool_def demo_billing_def demo_laser_def
      resolve_effective_billing_def is_metered_def is_positive_def demo_cfg_def required_available_rate_def
      max_session_cost_def available_balance_def sum_open_tool_holds_def Let_def)

lemma demo_solvent: "solvent demo_text (\<lambda>a. a) demo_cfg (demo_billing Map.empty)"
  by (simp add: solvent_def demo_text_ok rounds_ok_def demo_cfg_def caps_cover_def prices_ok_def demo_billing_def
      demo_laser_def max_minutes_def session_cap_minutes_def resolve_effective_billing_def rate_ok_def
      ledger_entry_exists_for_reference_def available_balance_def sum_open_tool_holds_def)

text \<open>
  Prepaid members never overdraw: from a solvent state, where every open session's hold covers
  whatever it can be charged, no sequence of activations, usage reports, stops, sweeps and credits
  takes anyone's available balance, the ledger less the open holds, below zero. It needs prices
  that are not negative, a monotone rounding, and no tier with a shorter cap than its tool.
\<close>

lemma prepaid_members_never_overdraw:
  assumes "solvent x rnd c db" "\<not> (\<exists>e \<in> set es. improper x e)"
  shows "0 \<le> available_balance (run_events (billing_step x rnd fmt3 c) es db) u"
proof -
  have "solvent x rnd c (run_events (billing_step x rnd fmt3 c) es db)"
    using solvency.run_guarded [OF assms(1)] assms(2) by blast
  then show ?thesis by (simp add: solvent_def)
qed

text \<open>
  A session is charged once. A settle that charges appends exactly one debit of the charge, to the
  member who opened the session and under the session's id, and closes the session; a replay of the
  stop finds nothing to do, and no later settle of the session, on any ledger that still has the
  entry, posts a second debit.
\<close>

lemma settle_charges_once:
  assumes "settle_open_session_for_tool x rnd c t st now db = (Some charge, db')" "st \<noteq> ''open''"
    and "distinct (map tus_tool_id (filter is_open (b_sessions db)))"
  shows "\<exists>s. open_tool_session_for_tool db (tl_id t) = Some s \<and> charge = settle_charge rnd c t s now \<and>
           b_ledger db' = b_ledger db @ [\<lparr>le_user_id = tus_user_id s, le_entry_type = ToolUsage,
             le_amount = - charge, le_external_reference = Some (uuid_show x (tus_id s))\<rparr>] \<and>
           settle_open_session_for_tool x rnd c t st2 now2 db' = (None, db') \<and>
           post_once (b_ledger db' @ later) \<lparr>le_user_id = tus_user_id s, le_entry_type = ToolUsage,
             le_amount = a, le_external_reference = Some (uuid_show x (tus_id s))\<rparr> = None"
proof -
  obtain s where s: "open_tool_session_for_tool db (tl_id t) = Some s"
    using assms(1) by (auto simp: settle_open_session_for_tool_def split: option.splits)
  let ?ch = "settle_charge rnd c t s now"
  let ?e = "\<lparr>le_user_id = tus_user_id s, le_entry_type = ToolUsage, le_amount = - ?ch,
      le_external_reference = Some (uuid_show x (tus_id s))\<rparr>"
  have "post_once (b_ledger db) ?e \<noteq> None"
    using assms(1) s by (auto simp: settle_open_session_for_tool_def Let_def split: if_splits)
  then have p: "post_once (b_ledger db) ?e = Some (b_ledger db @ [?e])"
    using post_once_Some by fastforce
  then have ch: "charge = ?ch"
    and db': "db' = update_open (tus_id s) (settle_tool_session (reported_seconds s) ?ch st)
      (db\<lparr>b_ledger := b_ledger db @ [?e]\<rparr>)"
    using assms(1) s by (auto simp: settle_open_session_for_tool_def Let_def)
  note found = open_session_found [OF s]
  have only: "r = s" if "r \<in> set (b_sessions db)" "is_open r" "tus_tool_id r = tl_id t" for r
    using that found assms(3) by (auto simp: distinct_map inj_on_def)
  have "open_tool_session_for_tool db' (tl_id t) = None"
    using only assms(2)
    by (auto simp: open_tool_session_for_tool_def find_None_iff db' update_open_def is_open_def settle_tool_session_def)
  then have "settle_open_session_for_tool x rnd c t st2 now2 db' = (None, db')"
    by (simp add: settle_open_session_for_tool_def)
  moreover have "post_once (b_ledger db' @ later) \<lparr>le_user_id = tus_user_id s, le_entry_type = ToolUsage,
             le_amount = a, le_external_reference = Some (uuid_show x (tus_id s))\<rparr> = None"
    by (rule led.redelivery [OF p, of "uuid_show x (tus_id s)"]) (auto simp: db' ledger_entry_exists_for_reference_def)
  ultimately show ?thesis using s ch db' by auto
qed

text \<open>
  A tier with a cap of its own is held for one duration and charged for another: the hold placed
  at activation is the most the session can cost at the tier's cap, but a stop charges up to the
  tool's cap. With a longer cap on the tool the charge exceeds the hold and may exceed the balance.
\<close>

lemma tier_cap_bounds_the_hold_not_the_charge:
  assumes tier: "b_tiers db (u, tl_id t) = Some tier" "er_max_session_minutes tier = Some m" "er_tier_id tier = Some i"
    and "is_metered (er_flat_fee tier) (er_rate_per_min tier)" "bc_mode c = Prepaid" "usage_basis t = ''occupancy''"
    and "fst (billing_open_session rnd c sid u t now db) = Inr s"
    and "0 \<le> max_minutes c t" "of_int (max_minutes c t) * 60 \<le> r"
    and "max_minutes c t * 60 \<le> num_seconds (now' - now)"
  shows "hold_amount s = max_session_cost rnd (er_flat_fee tier) (er_rate_per_min tier) m \<and>
         settle_charge rnd c t (add_reported_seconds r sensed s) now' =
           max_session_cost rnd (er_flat_fee tier) (er_rate_per_min tier) (max_minutes c t)"
proof
  have s: "hold_amount s = max_session_cost rnd (er_flat_fee tier) (er_rate_per_min tier) m"
      "tus_started_at s = now" "rate_flat_fee s = er_flat_fee tier" "rate_per_min s = er_rate_per_min tier" "tier_id s = Some i"
      "reported_sensed_seconds s = None" "reported_unsensed_seconds s = None"
    using assms by (auto simp: billing_open_session_def resolve_effective_billing_def required_available_rate_def
        Let_def split: option.splits if_splits)
  then show "hold_amount s = max_session_cost rnd (er_flat_fee tier) (er_rate_per_min tier) m" by simp
  let ?s = "add_reported_seconds r sensed s"
  have rep: "reported_seconds ?s = Some r" "tus_started_at ?s = now" "session_rates t ?s = (er_flat_fee tier, er_rate_per_min tier)"
    using s by (auto simp: add_reported_seconds_def session_rates_def)
  define eff where "eff = min r (of_int (max (num_seconds (now' - now)) 0) :: rat)"
  have "of_int (max_minutes c t * 60) \<le> (of_int (max (num_seconds (now' - now)) 0) :: rat)"
    using assms(10) by (simp only: of_int_le_iff)
  then have "of_int (max_minutes c t) * 60 \<le> eff"
    using assms(9) by (simp add: eff_def)
  then have "session_charge rnd (er_flat_fee tier) (er_rate_per_min tier) eff (max_minutes c t) =
      max_session_cost rnd (er_flat_fee tier) (er_rate_per_min tier) (max_minutes c t)"
    using assms(8) by (auto simp: session_charge_def max_session_cost_def Let_def)
  moreover have "settle_charge rnd c t ?s now' =
      session_charge rnd (er_flat_fee tier) (er_rate_per_min tier) eff (max_minutes c t)"
    using rep assms(6) by (simp add: settle_charge_def effective_reported_def eff_def min_def not_le Let_def)
  ultimately show "settle_charge rnd c t ?s now' =
      max_session_cost rnd (er_flat_fee tier) (er_rate_per_min tier) (max_minutes c t)" by simp
qed

end
