(* ===== verification/Membership_Safety.thy ===== *)
theory Membership_Safety
  imports Membership Billing_Safety
begin

text \<open>
  What the dues cycle promises: whatever credits and cycles run, an active administrator remains,
  and no member is charged dues the ledger does not cover; one pass of a renewal leaves a member
  either lapsed or with the end of the grace period ahead. And what it does not: dues are taken from the ledger balance,
  holds of open tool sessions included.
\<close>

section \<open>Frames\<close>

lemma post_dues_result:
  "post_dues uid a db = (None, db\<lparr>m_ledger := m_ledger db @ [\<lparr>le_user_id = uid, le_entry_type = DuesCharge,
     le_amount = - a, le_external_reference = None\<rparr>]\<rparr>)"
  by (simp add: post_dues_def insert_ledger_entry_def)

lemma find_user_frame [simp]:
  "find_user_by_id (db\<lparr>m_ledger := l\<rparr>) uid = find_user_by_id db uid"
  "find_user_by_id (set_user_primary_role v r db) uid = find_user_by_id db uid"
  by (simp_all add: find_user_by_id_def set_user_primary_role_def Let_def)

lemma set_due_result:
  "find_user_by_id db uid \<noteq> None \<Longrightarrow>
   set_membership_next_due uid d db = (None, db\<lparr>m_users :=
        map (\<lambda>u. if mb_id u = uid then u\<lparr>membership_next_due_at := d\<rparr> else u) (m_users db)\<rparr>)"
  by (simp add: set_membership_next_due_def)

lemma find_user_set_due:
  "find_user_by_id (db\<lparr>m_users :=
     map (\<lambda>u. if mb_id u = uid then u\<lparr>membership_next_due_at := d\<rparr> else u) (m_users db)\<rparr>) uid =
   map_option (\<lambda>u. u\<lparr>membership_next_due_at := d\<rparr>) (find_user_by_id db uid)"
proof -
  have "find (\<lambda>u. mb_id u = uid) (map (\<lambda>u. if mb_id u = uid then u\<lparr>membership_next_due_at := d\<rparr> else u) us) =
      map_option (\<lambda>u. u\<lparr>membership_next_due_at := d\<rparr>) (find (\<lambda>u. mb_id u = uid) us)" for us
    by (induction us) auto
  then show ?thesis by (simp add: find_user_by_id_def)
qed

lemma apply_role_frame [simp]:
  "m_ledger (apply_role c uid b db) = m_ledger db"
  "m_users (apply_role c uid b db) = m_users db"
  "m_graph (apply_role c uid b db) = m_graph db"
  "find_user_by_id (apply_role c uid b db) v = find_user_by_id db v"
  by (simp_all add: apply_role_def Let_def set_user_primary_role_def find_user_by_id_def split: option.split)

section \<open>Administrators\<close>

definition active_admins :: "membership_db \<Rightarrow> uuid set" where
  "active_admins db =
     {u. u \<in> set (map mb_id (filter mb_is_active (m_users db))) \<and> user_has_permission db u ''admin.access''}"

lemma closure_empty [simp]: "closure g [] = {}"
  by (simp add: closure_def)

lemma count_active_admins_card: "count_active_admins db = card (active_admins db)"
proof -
  have "u \<in> fst ` set (m_user_roles db)" if "user_has_permission db u ''admin.access''" for u
  proof (rule ccontr)
    assume "u \<notin> fst ` set (m_user_roles db)"
    then have "roles_for_user db u = []" by (force simp: roles_for_user_def filter_empty_conv)
    with that show False by (simp add: user_has_permission_def has_permission_def effective_permissions_def)
  qed
  then have "active_admins db = set (filter (\<lambda>u. has_permission (m_graph db) (roles_for_user db u) ''admin.access'')
      (remdups (filter (\<lambda>u. u \<in> set (map mb_id (filter mb_is_active (m_users db)))) (map fst (m_user_roles db)))))"
    by (auto simp: active_admins_def user_has_permission_def)
  then show ?thesis
    by (simp only: count_active_admins_def Let_def distinct_card [OF distinct_filter [OF distinct_remdups]])
qed

lemma finite_active_admins [simp]: "finite (active_admins db)"
  by (simp add: active_admins_def)

lemma admins_frame [simp]: "active_admins (db\<lparr>m_ledger := l\<rparr>) = active_admins db"
  by (simp add: active_admins_def user_has_permission_def roles_for_user_def)

lemma admins_set_due [simp]:
  "active_admins (db\<lparr>m_users := map (\<lambda>u. if mb_id u = uid then u\<lparr>membership_next_due_at := d\<rparr> else u) (m_users db)\<rparr>) =
   active_admins db"
proof -
  have "map mb_id (filter mb_is_active (map (\<lambda>u. if mb_id u = uid then u\<lparr>membership_next_due_at := d\<rparr> else u) us)) =
      map mb_id (filter mb_is_active us)" for us :: "member_user list"
    by (induction us) auto
  then have e: "set (map mb_id (filter mb_is_active
      (map (\<lambda>u. if mb_id u = uid then u\<lparr>membership_next_due_at := d\<rparr> else u) us))) =
      set (map mb_id (filter mb_is_active us))" for us :: "member_user list"
    by (simp only:)
  show ?thesis
    by (simp add: active_admins_def user_has_permission_def roles_for_user_def e del: set_map set_filter)
qed

lemma roles_of_others:
  "v \<noteq> uid \<Longrightarrow> roles_for_user (set_user_primary_role uid r db) v = roles_for_user db v"
  by (auto simp: roles_for_user_def set_user_primary_role_def Let_def conj_commute split: option.split
      intro!: arg_cong [of _ _ "map snd"] filter_cong)

lemma admins_after_write:
  "active_admins db - {uid} \<subseteq> active_admins (set_user_primary_role uid r db)"
  using roles_of_others [of _ uid r db]
  by (auto simp: active_admins_def user_has_permission_def) (auto simp: set_user_primary_role_def Let_def)

text \<open>Every role that grants \<open>admin.access\<close> ranks at least as high as the member role.\<close>

definition admin_roles_rank :: "role_graph \<Rightarrow> string \<Rightarrow> bool" where
  "admin_roles_rank g member_role \<longleftrightarrow>
     list_all (\<lambda>r. ''admin.access'' \<in> unwrap_or (map_of (own_perms g) r) {} \<longrightarrow>
         is_some_and (map_of (level g) r) (\<lambda>l. unwrap_or (level_of_name g member_role) 0 \<le> l))
       (map fst (own_perms g))"

lemma admin_outranks:
  assumes "admin_roles_rank g mr" "has_permission g roles ''admin.access''"
  shows "unwrap_or (level_of_name g mr) 0 \<le> effective_level g roles"
proof -
  obtain r where r: "r \<in> closure g roles" "''admin.access'' \<in> unwrap_or (map_of (own_perms g) r) {}"
    using assms(2) by (auto simp: has_permission_def effective_permissions_def)
  then have "r \<in> set (map fst (own_perms g))"
    by (cases "map_of (own_perms g) r") (force dest: map_of_SomeD)+
  then obtain l where l: "map_of (level g) r = Some l" "unwrap_or (level_of_name g mr) 0 \<le> l"
    using assms(1) r(2) by (auto simp: admin_roles_rank_def list_all_iff is_some_and_iff)
  let ?L = "{l. \<exists>r \<in> closure g roles. map_of (level g) r = Some l}"
  have "?L \<subseteq> ran (map_of (level g))" by (auto simp: ran_def)
  then have "finite ?L" by (rule finite_subset) (rule finite_ran, rule finite_dom_map_of)
  moreover have "l \<in> ?L" using r l by auto
  ultimately show ?thesis using l(2) by (auto simp: effective_level_def Let_def intro: order_trans [OF _ Max_ge])
qed

lemma apply_role_keeps_an_admin:
  assumes "admin_roles_rank (m_graph db) (mc_member_role c)" "active_admins db \<noteq> {}"
  shows "active_admins (apply_role c uid entitled db) \<noteq> {}"
proof (cases "plan_role_transition (user_effective_level db uid) entitled
    (user_has_permission db uid ''admin.access'' \<and> count_active_admins db \<le> 1) (mc_member_role c)
    (unwrap_or (level_of_name (m_graph db) (mc_member_role c)) 0) (mc_lapsed_role c)
    (unwrap_or (level_of_name (m_graph db) (mc_lapsed_role c)) 0)")
  case None
  with assms(2) show ?thesis by (simp add: apply_role_def Let_def)
next
  case (Some r)
  have "active_admins db - {uid} \<noteq> {}"
  proof (cases "uid \<in> active_admins db")
    case True
    then have p: "user_has_permission db uid ''admin.access''" by (simp add: active_admins_def)
    then have "unwrap_or (level_of_name (m_graph db) (mc_member_role c)) 0 \<le> user_effective_level db uid"
      using admin_outranks [OF assms(1)] by (simp add: user_has_permission_def user_effective_level_def)
    with Some p have "1 < card (active_admins db)"
      by (auto simp: plan_role_transition_def count_active_admins_card split: if_splits)
    then show ?thesis using True by (metis One_nat_def card.empty card_Suc_Diff1 finite_active_admins less_irrefl)
  qed (use assms(2) in auto)
  moreover have "apply_role c uid entitled db = set_user_primary_role uid r db"
    using Some by (simp add: apply_role_def Let_def)
  ultimately show ?thesis using admins_after_write [of db uid r] by auto
qed

section \<open>The invariant\<close>

definition membership_ok :: "membership_config \<Rightarrow> membership_db \<Rightarrow> bool" where
  "membership_ok c db \<longleftrightarrow>
     admin_roles_rank (m_graph db) (mc_member_role c) \<and> active_admins db \<noteq> {} \<and>
     (\<forall>u. 0 \<le> user_balance (m_ledger db) u)"

lemma ok_apply_role: "membership_ok c db \<Longrightarrow> membership_ok c (apply_role c uid b db)"
  using apply_role_keeps_an_admin by (simp add: membership_ok_def)

lemma ok_set_due: "membership_ok c db \<Longrightarrow> membership_ok c (snd (set_membership_next_due uid d db))"
  by (simp add: set_membership_next_due_def membership_ok_def)

lemma ok_post_dues:
  "membership_ok c db \<Longrightarrow> a \<le> user_balance (m_ledger db) uid \<Longrightarrow> membership_ok c (snd (post_dues uid a db))"
  by (simp add: post_dues_result membership_ok_def)

lemma ok_dues_and_date:
  assumes "membership_ok c db" "a \<le> user_balance (m_ledger db) uid"
  shows "membership_ok c (snd (and_then (post_dues uid a db) (set_membership_next_due uid d)))"
  using ok_set_due [OF ok_post_dues [OF assms]] by (simp add: and_then_def post_dues_result)

lemma ok_settle_after_credit:
  assumes "membership_ok c db"
  shows "membership_ok c (snd (settle_after_credit c cal now uid db))"
proof -
  let ?d = "Some (advance_period cal now (mc_due_period c))"
  have "membership_ok c (snd (and_then (post_dues uid (mc_due_amount c) db) (\<lambda>db1.
          and_then (set_membership_next_due uid ?d db1) (\<lambda>db2. (None, apply_role c uid True db2)))))"
    if "mc_due_amount c \<le> user_balance (m_ledger db) uid"
    using ok_dues_and_date [OF assms that, of ?d] ok_apply_role
    by (auto simp: and_then_def post_dues_result split: prod.split option.split)
  with assms show ?thesis by (auto simp: settle_after_credit_def split: option.split)
qed

lemma ok_record_credit:
  assumes "membership_ok c db" "0 \<le> amount"
  shows "membership_ok c (snd (record_credit c cal now uid ty amount reference db))"
proof -
  have "membership_ok c (db\<lparr>m_ledger := l\<rparr>)"
    if "post_once (m_ledger db) \<lparr>le_user_id = uid, le_entry_type = ty, le_amount = amount,
      le_external_reference = reference\<rparr> = Some l" for l
    using assms that by (auto simp: membership_ok_def post_once_Some)
  then show ?thesis
    using assms ok_settle_after_credit
    by (fastforce simp: record_credit_def dest: ok_settle_after_credit [of c _ cal now uid] split: option.split prod.split)
qed

lemma ok_renewal_loop:
  "membership_ok c (fst s) \<Longrightarrow> membership_ok c (fst (snd (renewal_loop guard c cal now uid nd s)))"
proof (induction guard c cal now uid nd s rule: renewal_loop.induct)
  case (3 guard c cal now uid next_due db out)
  let ?nd = "Some (advance_period cal next_due (mc_due_period c))"
  have dues: "membership_ok c (snd (and_then (post_dues uid (mc_due_amount c) db) (set_membership_next_due uid ?nd)))"
    if "mc_due_amount c \<le> user_balance (m_ledger db) uid"
    using ok_dues_and_date "3.prems" that by simp
  have lapse: "membership_ok c (snd (set_membership_next_due uid None db))"
    using ok_set_due "3.prems" by simp
  consider "\<not> dues_due next_due now (mc_grace_days c)"
    | (charge) r where "dues_due next_due now (mc_grace_days c)" "mc_due_amount c \<le> user_balance (m_ledger db) uid"
        "and_then (post_dues uid (mc_due_amount c) db) (set_membership_next_due uid ?nd) = r"
    | (lapse) r where "dues_due next_due now (mc_grace_days c)" "\<not> mc_due_amount c \<le> user_balance (m_ledger db) uid"
        "set_membership_next_due uid None db = r"
    by blast
  then show ?case
  proof cases
    case charge
    show ?thesis
    proof (cases r)
      case (Pair e db1)
      then have "membership_ok c (apply_role c uid True db1)" "membership_ok c db1"
        using dues charge by (auto intro: ok_apply_role)
      with Pair charge "3.IH"(1) show ?thesis by (cases e) (auto simp: Let_def)
    qed
  next
    case lapse
    show ?thesis
    proof (cases r)
      case (Pair e db1)
      then have "membership_ok c (apply_role c uid False db1)" "membership_ok c db1"
        using \<open>membership_ok c (snd (set_membership_next_due uid None db))\<close> lapse by (auto intro: ok_apply_role)
      with Pair lapse "3.IH"(2) show ?thesis by (cases e) (auto simp: Let_def)
    qed
  qed (use "3.prems" in simp)
qed auto

lemma ok_renew_user:
  assumes "membership_ok c (fst s)"
  shows "membership_ok c (fst (renew_user c cal now user s))"
proof -
  let ?s = "(fst s, (snd s)\<lparr>users_checked := Suc (users_checked (snd s))\<rparr>)"
  have "membership_ok c (fst (snd (settle_renewal c cal now (mb_id user) ?s)))"
    using assms ok_renewal_loop [of c ?s] by (cases "find_user_by_id (fst s) (mb_id user)") (simp_all add: settle_renewal_def)
  then show ?thesis
    by (simp add: renew_user_def split_beta split: option.split)
qed

lemma minor_units_nonneg: "0 \<le> n \<Longrightarrow> 0 \<le> minor_units_to_decimal n"
  by (simp add: minor_units_to_decimal_def Let_def)

lemma fold_keeps: "(\<And>a s. a \<in> set xs \<Longrightarrow> P s \<Longrightarrow> P (f a s)) \<Longrightarrow> P s \<Longrightarrow> P (fold f xs s)"
  by (induction xs arbitrary: s) auto

lemma ok_poll_invoice:
  assumes "membership_ok c (fst s)" "0 \<le> fst invoice"
  shows "membership_ok c (fst (poll_invoice c cal now uid invoice s))"
  using ok_record_credit [OF assms(1) minor_units_nonneg [OF assms(2)], of cal now uid StripePayment "Some (snd invoice)"]
  by (auto simp: poll_invoice_def split: prod.split sum.split bool.split)

definition paid :: "uuid \<times> (int \<times> string) list option \<Rightarrow> bool" where
  "paid p \<longleftrightarrow> is_none_or (snd p) (list_all (\<lambda>i. 0 \<le> fst i))"

lemma ok_poll_customer:
  assumes "membership_ok c (fst s)" "paid p"
  shows "membership_ok c (fst (poll_customer c cal now p s))"
proof (cases "snd p")
  case (Some invoices)
  then have "\<And>i. i \<in> set invoices \<Longrightarrow> 0 \<le> fst i" using assms(2) by (auto simp: paid_def list_all_iff)
  then have "membership_ok c (fst (fold (poll_invoice c cal now (fst p)) invoices s))"
    using assms(1) by (intro fold_keeps [where P = "\<lambda>s. membership_ok c (fst s)"] ok_poll_invoice)
  with Some show ?thesis by (simp add: poll_customer_def)
qed (use assms in \<open>simp add: poll_customer_def\<close>)

lemma ok_run_cycle:
  assumes "membership_ok c db" "is_none_or polled (list_all paid)"
  shows "membership_ok c (fst (run_cycle c cal now polled db))"
proof -
  have "membership_ok c (fst (case polled of Some ps \<Rightarrow> fold (poll_customer c cal now) ps (db, out) | None \<Rightarrow> (db, out)))"
    for out
    using assms by (auto simp: list_all_iff split: option.split
        intro!: fold_keeps [where P = "\<lambda>s. membership_ok c (fst s)"] ok_poll_customer)
  with assms show ?thesis
    by (auto simp: run_cycle_def Let_def intro!: fold_keeps [where P = "\<lambda>s. membership_ok c (fst s)"] ok_renew_user)
qed

section \<open>Sequences of credits and cycles\<close>

datatype membership_event =
    MCredit uuid ledger_entry_type rat "string option"
  | MCycle "(uuid \<times> (int \<times> string) list option) list option"

fun membership_step ::
  "membership_config \<Rightarrow> calendar \<Rightarrow> instant \<times> membership_event \<Rightarrow> membership_db \<Rightarrow> membership_db" where
  "membership_step c cal (now, MCredit uid ty amount r) db = snd (record_credit c cal now uid ty amount r db)"
| "membership_step c cal (now, MCycle polled) db = fst (run_cycle c cal now polled db)"

text \<open>A credit or a paid invoice of a negative amount.\<close>

definition debit :: "instant \<times> membership_event \<Rightarrow> bool" where
  "debit e \<longleftrightarrow>
     (case snd e of
        MCredit _ _ amount _ \<Rightarrow> amount < 0
      | MCycle polled \<Rightarrow> \<not> is_none_or polled (list_all paid))"

interpretation dues: guarded_fact "membership_step c cal" "\<lambda>_ :: unit. membership_ok c" "\<lambda>_. debit"
  for c cal
proof
  fix db :: membership_db and e :: "instant \<times> membership_event"
  assume ok: "membership_ok c db" and d: "\<not> debit e"
  obtain now ev where e: "e = (now, ev)" by (cases e)
  show "membership_ok c (membership_step c cal e db)"
  proof (cases ev)
    case (MCredit uid ty amount r)
    with ok d e show ?thesis by (simp add: debit_def ok_record_credit)
  next
    case (MCycle polled)
    with ok d e show ?thesis by (simp add: debit_def ok_run_cycle)
  qed
qed

definition demo_roles :: role_graph where
  "demo_roles = from_rows [(1, ''historical'', 2), (2, ''active'', 3), (3, ''admin'', 5)] [(3, ''admin.access'')] []"

definition demo_due :: membership_config where
  "demo_due = \<lparr>mc_enabled = True, mc_due_amount = 25, mc_due_period = Monthly, mc_grace_days = 1,
     mc_member_role = ''active'', mc_lapsed_role = ''historical''\<rparr>"

definition demo_members :: membership_db where
  "demo_members = \<lparr>m_ledger = [\<lparr>le_user_id = 1, le_entry_type = CashPayment, le_amount = 30,
       le_external_reference = None\<rparr>],
     m_users = [\<lparr>mb_id = 1, mb_is_active = True, membership_next_due_at = Some 0\<rparr>],
     m_user_roles = [(1, 3)], m_roles = [(1, ''historical''), (2, ''active''), (3, ''admin'')], m_graph = demo_roles\<rparr>"

definition demo_calendar :: calendar where
  "demo_calendar = \<lparr>cal_day = (\<lambda>_. 1), cal_add_months = (\<lambda>n d. Some (d + days (30 * int n)))\<rparr>"

lemma demo_roles_eval:
  "own_perms demo_roles = [(1, {}), (2, {}), (3, {''admin.access''})]"
  "level demo_roles = [(1, 2), (2, 3), (3, 5)]"
  "by_name demo_roles = [(''historical'', 1), (''active'', 2), (''admin'', 3)]"
  "inherits demo_roles = [(1, []), (2, []), (3, [])]"
  by (simp_all add: demo_roles_def from_rows_def add_role_def add_perm_def entry_upd_def)

lemma demo_members_ok: "membership_ok demo_due demo_members"
proof -
  have "3 \<in> closure demo_roles [3]" by (simp add: closure_reach)
  then have "1 \<in> active_admins demo_members"
    by (auto simp: active_admins_def demo_members_def user_has_permission_def has_permission_def roles_for_user_def
        effective_permissions_def demo_roles_eval intro!: bexI [of _ "3 :: nat"])
  then show ?thesis
    by (auto simp: membership_ok_def demo_members_def admin_roles_rank_def demo_roles_eval level_of_name_def demo_due_def)
qed

text \<open>
  C17. The association is never left without an administrator: from a state with an active account that
  holds \<open>admin.access\<close>, no sequence of payments and renewal cycles, lapses included, ends in one
  without. It needs payments that are not negative and roles that rank: one granting \<open>admin.access\<close>
  is not below the member role, because a grant of the member role is not guarded.
\<close>

theorem an_administrator_always_remains:
  assumes "membership_ok c db" "\<not> (\<exists>e \<in> set es. debit e)"
  shows "1 \<le> count_active_admins (run_events (membership_step c cal) es db)"
proof -
  have "membership_ok c (run_events (membership_step c cal) es db)"
    using dues.run_guarded [OF assms(1)] assms(2) by blast
  then have "active_admins (run_events (membership_step c cal) es db) \<noteq> {}"
    by (simp add: membership_ok_def)
  then have "card (active_admins (run_events (membership_step c cal) es db)) \<noteq> 0"
    by simp
  then show ?thesis
    unfolding count_active_admins_card by linarith
qed

lemma an_administrator_always_remains_witness:
  "1 \<le> count_active_admins (run_events (membership_step demo_due demo_calendar)
     [(days 40, MCycle None), (days 100, MCycle None)] demo_members)"
  by (rule an_administrator_always_remains [OF demo_members_ok]) (simp add: debit_def)

text \<open>
  Dues never make a debt: from ledger balances that are not negative, no sequence of payments and
  cycles takes one below zero, however many periods a cycle catches up on.
\<close>

lemma dues_never_make_a_debt:
  assumes "membership_ok c db" "\<not> (\<exists>e \<in> set es. debit e)"
  shows "0 \<le> user_balance (m_ledger (run_events (membership_step c cal) es db)) u"
proof -
  have "membership_ok c (run_events (membership_step c cal) es db)"
    using dues.run_guarded [OF assms(1)] assms(2) by blast
  then show ?thesis by (simp add: membership_ok_def)
qed

section \<open>One renewal\<close>

text \<open>
  From \<open>a\<close> to \<open>b\<close> the calendar adds one, three or twelve months without running out of dates, and a month
  has at least 28 days. \<^verbatim>\<open>chrono\<close>'s has this property for the dates it can represent and add a year to.
\<close>

definition calendar_ok :: "calendar \<Rightarrow> instant \<Rightarrow> instant \<Rightarrow> bool" where
  "calendar_ok cal a b \<longleftrightarrow> (\<forall>p d. a \<le> d \<and> d \<le> b \<longrightarrow>
     (\<exists>d'. cal_add_months cal (period_months p) d = Some d' \<and> d + days (28 * int (period_months p)) \<le> d'))"

lemma advance_period_advances:
  assumes "calendar_ok cal a b" "a \<le> d" "d \<le> b"
  shows "d + days (28 * int (period_months p)) \<le> advance_period cal d p"
proof -
  obtain d' where d': "cal_add_months cal (period_months p) d = Some d'" "d + days (28 * int (period_months p)) \<le> d'"
    using assms unfolding calendar_ok_def by blast
  then show ?thesis by (simp add: advance_period_def Let_def days_def seconds_def)
qed

lemma one_period_less:
  assumes "d + days (28 * m) \<le> e" "now < d + g + days (28 * m * int (Suc n))"
  shows "now < e + g + days (28 * m * int n)"
proof -
  have "days (28 * m * int (Suc n)) = days (28 * m) + days (28 * m * int n)"
    by (simp add: days_def seconds_def algebra_simps)
  with assms show ?thesis by linarith
qed

lemma days_nonneg: "0 \<le> m \<Longrightarrow> 0 \<le> days m"
  by (simp add: days_def seconds_def)

lemma dues_and_date_result:
  "find_user_by_id db uid = Some u \<Longrightarrow>
   \<exists>db1. and_then (post_dues uid a db) (set_membership_next_due uid d) = (None, db1) \<and>
     m_ledger db1 = m_ledger db @ [\<lparr>le_user_id = uid, le_entry_type = DuesCharge, le_amount = - a,
       le_external_reference = None\<rparr>] \<and>
     find_user_by_id db1 uid = Some (u\<lparr>membership_next_due_at := d\<rparr>)"
  using find_user_set_due [where db = "db\<lparr>m_ledger := l\<rparr>" and uid = uid and d = d for l]
  by (simp add: and_then_def post_dues_result set_due_result)

lemma date_result:
  "find_user_by_id db uid = Some u \<Longrightarrow>
   \<exists>db1. set_membership_next_due uid d db = (None, db1) \<and> find_user_by_id db1 uid = Some (u\<lparr>membership_next_due_at := d\<rparr>)"
  using find_user_set_due [where db = db and uid = uid and d = d] by (simp add: set_due_result)

definition paid_up :: "membership_config \<Rightarrow> instant \<Rightarrow> membership_db \<Rightarrow> uuid \<Rightarrow> bool" where
  "paid_up c now db uid \<longleftrightarrow>
     is_some_and (find_user_by_id db uid)
       (\<lambda>u. is_none_or (membership_next_due_at u) (\<lambda>d. \<not> dues_due d now (mc_grace_days c)))"

lemma renewal_loop_catches_up:
  "calendar_ok cal a (now - days (mc_grace_days c)) \<Longrightarrow> find_user_by_id (fst s) uid = Some u \<Longrightarrow>
    membership_next_due_at u = nd \<Longrightarrow>
    is_none_or nd (\<lambda>d. a \<le> d \<and>
      now < d + days (mc_grace_days c) + days (28 * int (period_months (mc_due_period c)) * int guard)) \<Longrightarrow>
    \<exists>s'. renewal_loop guard c cal now uid nd s = (None, s') \<and> paid_up c now (fst s') uid"
proof (induction guard c cal now uid nd s arbitrary: u rule: renewal_loop.induct)
  case (2 c cal now uid next_due s)
  then show ?case by (simp add: paid_up_def dues_due_def days_def seconds_def)
next
  case (3 guard c cal now uid next_due db out)
  let ?nd = "advance_period cal next_due (mc_due_period c)"
  show ?case
  proof (cases "dues_due next_due now (mc_grace_days c)")
    case False
    then show ?thesis using "3.prems" by (simp add: paid_up_def)
  next
    case due: True
    show ?thesis
    proof (cases "mc_due_amount c \<le> user_balance (m_ledger db) uid")
      case True
      obtain db1 where d1: "and_then (post_dues uid (mc_due_amount c) db) (set_membership_next_due uid (Some ?nd)) = (None, db1)"
          "find_user_by_id db1 uid = Some (u\<lparr>membership_next_due_at := Some ?nd\<rparr>)"
        using dues_and_date_result [of db uid u] "3.prems"(2) by auto
      have "next_due \<le> now - days (mc_grace_days c)" using due by (simp add: dues_due_def)
      then have adv: "next_due + days (28 * int (period_months (mc_due_period c))) \<le> ?nd"
        using "3.prems"(4) by (intro advance_period_advances [OF "3.prems"(1)]) simp_all
      then have "a \<le> ?nd"
        using "3.prems"(4) days_nonneg [of "28 * int (period_months (mc_due_period c))"] by simp
      moreover have "now < ?nd + days (mc_grace_days c) + days (28 * int (period_months (mc_due_period c)) * int guard)"
        using "3.prems"(4) by (intro one_period_less [OF adv]) simp
      ultimately show ?thesis
        using due True d1 "3.IH"(1) [OF _ True refl d1(1) [symmetric]] "3.prems"(1) by (simp add: Let_def)
    next
      case False
      obtain db1 where d1: "set_membership_next_due uid None db = (None, db1)"
          "find_user_by_id db1 uid = Some (u\<lparr>membership_next_due_at := None\<rparr>)"
        using date_result [of db uid u] "3.prems"(2) by auto
      then show ?thesis using due False by (simp add: paid_up_def)
    qed
  qed
qed (simp add: paid_up_def)

text \<open>
  C19. A renewal catches up: for a member fewer than 1200 periods behind, with 28 days counted for each month
  of a period, the loop returns without an error, and leaves the member lapsed or with a next due date which,
  plus the days of grace, is not reached yet. The guard of 1200 is never what stops it. The calendar has to
  be able to add a period to the dates between the old due date and now.
\<close>

theorem renewal_catches_up:
  assumes "calendar_ok cal d (now - days (mc_grace_days c))"
    and "find_user_by_id db uid = Some u" "membership_next_due_at u = Some d"
    and "now < d + days (mc_grace_days c) + days (28 * int (period_months (mc_due_period c)) * 1200)"
  shows "\<exists>db' out'. settle_renewal c cal now uid (db, out) = (None, (db', out')) \<and> paid_up c now db' uid"
  using renewal_loop_catches_up [OF assms(1), where s = "(db, out)" and uid = uid and u = u and nd = "Some d"
      and guard = 1200] assms(2-4)
  by (auto simp: settle_renewal_def)

lemma demo_calendar_ok: "calendar_ok demo_calendar a b"
  by (simp add: calendar_ok_def demo_calendar_def days_def seconds_def)

lemma renewal_catches_up_witness:
  "\<exists>db' out'. settle_renewal demo_due demo_calendar (days 400) 1
     (demo_members, \<lparr>users_checked = 0, dues_charged = 0, lapsed = 0, credited = 0, errors = 0\<rparr>) =
     (None, (db', out')) \<and> paid_up demo_due (days 400) db' 1"
  by (rule renewal_catches_up [OF demo_calendar_ok, where u = "\<lparr>mb_id = 1, mb_is_active = True,
        membership_next_due_at = Some 0\<rparr>" and d = 0])
    (simp_all add: find_user_by_id_def demo_members_def demo_due_def days_def seconds_def)

lemma single_renewal:
  assumes "find_user_by_id db uid = Some u" "dues_due d now (mc_grace_days c)"
    and "mc_due_amount c \<le> user_balance (m_ledger db) uid"
    and "\<not> dues_due (advance_period cal d (mc_due_period c)) now (mc_grace_days c)"
  shows "m_ledger (fst (snd (renewal_loop (Suc (Suc guard)) c cal now uid (Some d) (db, out)))) =
    m_ledger db @ [\<lparr>le_user_id = uid, le_entry_type = DuesCharge, le_amount = - mc_due_amount c,
      le_external_reference = None\<rparr>]"
proof -
  obtain db1 where "and_then (post_dues uid (mc_due_amount c) db)
        (set_membership_next_due uid (Some (advance_period cal d (mc_due_period c)))) = (None, db1)"
      "m_ledger db1 = m_ledger db @ [\<lparr>le_user_id = uid, le_entry_type = DuesCharge, le_amount = - mc_due_amount c,
       le_external_reference = None\<rparr>]"
    using dues_and_date_result [OF assms(1)] by blast
  then show ?thesis using assms(2-4) by (simp add: Let_def)
qed

text \<open>
  Dues spend credit that is held for a tool: the cycle asks the ledger balance and not the
  available one, so a member whose balance covers the dues only together with what is held for an
  open tool session is charged, and is left with an available balance below zero. The session's
  charge, up to the hold, then takes the ledger itself below zero.
\<close>

lemma dues_spend_held_credit:
  assumes "find_user_by_id db uid = Some u" "membership_next_due_at u = Some d"
    and "dues_due d now (mc_grace_days c)" "mc_due_amount c \<le> user_balance (m_ledger db) uid"
    and "\<not> dues_due (advance_period cal d (mc_due_period c)) now (mc_grace_days c)"
    and "b_ledger bdb = m_ledger db" "available_balance bdb uid < mc_due_amount c"
  shows "available_balance (bdb\<lparr>b_ledger := m_ledger (fst (snd (settle_renewal c cal now uid (db, out))))\<rparr>) uid < 0"
proof -
  have "m_ledger (fst (snd (settle_renewal c cal now uid (db, out)))) =
      m_ledger db @ [\<lparr>le_user_id = uid, le_entry_type = DuesCharge, le_amount = - mc_due_amount c,
       le_external_reference = None\<rparr>]"
    using single_renewal [OF assms(1,3-5), of 1198] assms(1,2) by (simp add: settle_renewal_def)
  then show ?thesis
    using assms(6,7) by (simp add: available_balance_def sum_open_tool_holds_def)
qed

end
