(* ===== verification/Api_Errors.thy ===== *)
theory Api_Errors
  imports Prelude
begin

text \<open>
  The error classification of the server's HTTP layer, \<^verbatim>\<open>server/src/api/errors.rs\<close>: the error type every
  handler answers with, its status table, and the three conversions that turn an authentication
  error, a \<^verbatim>\<open>diesel\<close> error and a database error into it. Messages are kept, except that the detail
  a library prints (a pool error, a migration error) is a string the model is given.
\<close>

datatype api_error =
    Unauthorized string
  | Forbidden string
  | ValidationError string
  | BadRequest string
  | NotFound string
  | Conflict string
  | TooManyRequests string
  | InternalServerError string
  | DatabaseError string
  | NotImplemented string

fun is_server_error :: "api_error \<Rightarrow> bool" where
  "is_server_error (InternalServerError _) = True"
| "is_server_error (DatabaseError _) = True"
| "is_server_error (NotImplemented _) = True"
| "is_server_error _ = False"

text \<open>\<^verbatim>\<open>IntoResponse\<close>: the status and the message of the body.\<close>

fun into_response :: "api_error \<Rightarrow> nat \<times> string" where
  "into_response (Unauthorized msg) = (401, msg)"
| "into_response (Forbidden msg) = (403, msg)"
| "into_response (ValidationError msg) = (400, msg)"
| "into_response (BadRequest msg) = (400, msg)"
| "into_response (NotFound msg) = (404, msg)"
| "into_response (Conflict msg) = (409, msg)"
| "into_response (TooManyRequests msg) = (429, msg)"
| "into_response (InternalServerError _) = (500, ''Internal server error'')"
| "into_response (DatabaseError _) = (500, ''Database operation failed'')"
| "into_response (NotImplemented msg) = (501, msg)"

section \<open>Authentication errors\<close>

datatype auth_error =
    WrongCredentials
  | MissingCredentials
  | TokenCreation
  | InvalidToken
  | AuthForbidden string
  | UserNotFound
  | UserInactive
  | InvalidPassword string
  | InternalError

fun from_auth_error :: "auth_error \<Rightarrow> api_error" where
  "from_auth_error WrongCredentials = Unauthorized ''Invalid credentials''"
| "from_auth_error MissingCredentials = Unauthorized ''Missing authentication credentials''"
| "from_auth_error TokenCreation = InternalServerError ''Failed to create authentication token''"
| "from_auth_error InvalidToken = Unauthorized ''Invalid authentication token''"
| "from_auth_error (AuthForbidden what) =
     Forbidden (''Insufficient permissions: '' @ what @ '' required'')"
| "from_auth_error UserNotFound = NotFound ''User not found''"
| "from_auth_error UserInactive = Forbidden ''User account is inactive''"
| "from_auth_error (InvalidPassword _) = BadRequest ''Invalid password format''"
| "from_auth_error InternalError = InternalServerError ''Authentication service error''"

section \<open>Database errors\<close>

datatype diesel_kind =
    UniqueViolation
  | ForeignKeyViolation
  | NotNullViolation
  | CheckViolation
  | SerializationFailure
  | KindUnknown
  | OtherKind

text \<open>A \<^verbatim>\<open>diesel::result::Error\<close>: a database error carries the server's message.\<close>

datatype diesel_error = DieselNotFound | DieselDatabase diesel_kind string | DieselOther string

definition is_unrepresentable_text :: "string \<Rightarrow> bool" where
  "is_unrepresentable_text message \<longleftrightarrow>
     str_contains message ''invalid byte sequence for encoding'' \<or>
     str_contains message ''has no equivalent in encoding''"

definition is_field_length_violation :: "string \<Rightarrow> bool" where
  "is_field_length_violation message \<longleftrightarrow> str_contains message ''value too long for type''"

text \<open>\<open>shown\<close> is the error as \<^verbatim>\<open>diesel\<close> prints it.\<close>

definition from_diesel_error :: "string \<Rightarrow> diesel_error \<Rightarrow> api_error" where
  "from_diesel_error shown e =
     (case e of
        DieselNotFound \<Rightarrow> NotFound ''Requested resource not found''
      | DieselDatabase UniqueViolation _ \<Rightarrow> Conflict ''Resource already exists''
      | DieselDatabase ForeignKeyViolation _ \<Rightarrow>
          Conflict ''Referenced resource does not exist or is still in use''
      | DieselDatabase NotNullViolation _ \<Rightarrow> BadRequest ''A required field was missing''
      | DieselDatabase CheckViolation _ \<Rightarrow> BadRequest ''A value was not one this field accepts''
      | DieselDatabase KindUnknown info \<Rightarrow>
          (if is_unrepresentable_text info
           then BadRequest ''Text contained characters this database cannot store''
           else if is_field_length_violation info
           then BadRequest ''A field value exceeded the maximum length for its column''
           else DatabaseError (''Database operation failed: '' @ shown))
      | DieselDatabase SerializationFailure _ \<Rightarrow>
          Conflict ''The request conflicted with a concurrent change; retry''
      | _ \<Rightarrow> DatabaseError (''Database operation failed: '' @ shown))"

datatype database_error =
    Pool string
  | Diesel diesel_error string
  | Migration string
  | ConnectionTimeout
  | OtherDb string

fun show_database_error :: "database_error \<Rightarrow> string" where
  "show_database_error (Pool e) = ''Database pool error: '' @ e"
| "show_database_error (Diesel _ shown) = ''Database query error: '' @ shown"
| "show_database_error (Migration e) = ''Database migration error: '' @ e"
| "show_database_error ConnectionTimeout = ''Database connection timeout''"
| "show_database_error (OtherDb msg) = ''Database error: '' @ msg"

fun from_database_error :: "database_error \<Rightarrow> api_error" where
  "from_database_error (Pool _) = InternalServerError ''Database connection error''"
| "from_database_error (Diesel e shown) = from_diesel_error shown e"
| "from_database_error (Migration _) = InternalServerError ''Database migration error''"
| "from_database_error ConnectionTimeout = InternalServerError ''Database connection timeout''"
| "from_database_error (OtherDb msg) = InternalServerError (''Database error: '' @ msg)"

section \<open>Facts\<close>

text \<open>The predicate that decides the log level and the status table agree.\<close>

lemma is_server_error_iff: "is_server_error e \<longleftrightarrow> 500 \<le> fst (into_response e)"
  by (cases e) auto

text \<open>The body of a 500 is one of two fixed strings: no detail of the fault travels.\<close>

lemma server_fault_body_fixed:
  "fst (into_response e) = 500 \<Longrightarrow>
   snd (into_response e) \<in> {''Internal server error'', ''Database operation failed''}"
  by (cases e) auto

end
