(* ===== verification/Shop.thy ===== *)
theory Shop
  imports Api_Errors Billing
begin

text \<open>
  Who may speak for a tool: the credential and binding checks of \<^verbatim>\<open>server/src/api/toolguard.rs\<close> and
  \<^verbatim>\<open>api/resources.rs\<close>, over the device, binding and tool tables. A query can fail: \<open>db_faults\<close> says
  which of them does now, and with what. \<^verbatim>\<open>tokens::hash_token\<close> (SHA-256, hex) is the parameter
  \<open>hash_token\<close>; the request's \<^verbatim>\<open>Authorization\<close> header is a string if it is there and printable.
\<close>

section \<open>Tables\<close>

record tool_row =
  tr_id :: uuid
  tr_external_id :: "string option"
  tr_status :: tool_status
  tr_requires_training :: bool
  tr_schedule_id :: "uuid option"
  tr_receptacle_id :: "uuid option"
  tr_updated_at :: instant
  tr_billing :: tool

record binding_row =
  br_device_id :: uuid
  br_resource_id :: uuid
  br_role :: string

record space_device =
  sdv_id :: uuid
  sdv_deleted :: bool
  sdv_last_seen :: "instant option"

datatype db_query = QAuthToken | QToolByExternalId | QToolById | QBinding | QResourceKind | QTouch

record device_db =
  dd_auth :: "(uuid \<times> string) list"
  dd_devices :: "space_device list"
  dd_bindings :: "binding_row list"
  dd_tools :: "tool_row list"
  dd_doors :: "uuid set"
  db_faults :: "db_query \<Rightarrow> database_error option"

definition EDGE_ROLE :: string where "EDGE_ROLE = ''edge''"
definition POWER_ROLE :: string where "POWER_ROLE = ''power''"

definition query :: "device_db \<Rightarrow> db_query \<Rightarrow> 'a \<Rightarrow> (database_error, 'a) result" where
  "query d q v = (case db_faults d q of Some e \<Rightarrow> Inl e | None \<Rightarrow> Inr v)"

section \<open>Queries\<close>

definition live_device :: "device_db \<Rightarrow> uuid \<Rightarrow> bool" where
  "live_device d dev \<longleftrightarrow> list_ex (\<lambda>s. sdv_id s = dev \<and> \<not> sdv_deleted s) (dd_devices d)"

definition find_device_by_auth_token ::
  "(string \<Rightarrow> string) \<Rightarrow> device_db \<Rightarrow> string \<Rightarrow> (database_error, (uuid \<times> string) option) result" where
  "find_device_by_auth_token hash_token d token =
     query d QAuthToken
       (find (\<lambda>(dev, h). h = hash_token token \<and> live_device d dev) (dd_auth d))"

definition device_is_bound_to_tool :: "device_db \<Rightarrow> uuid \<Rightarrow> uuid \<Rightarrow> (database_error, bool) result" where
  "device_is_bound_to_tool d dev tid =
     query d QBinding (list_ex (\<lambda>b. br_device_id b = dev \<and> br_resource_id b = tid) (dd_bindings d))"

definition device_is_bound_to_tool_in_role ::
  "device_db \<Rightarrow> uuid \<Rightarrow> uuid \<Rightarrow> string \<Rightarrow> (database_error, bool) result" where
  "device_is_bound_to_tool_in_role d dev tid role =
     query d QBinding
       (list_ex (\<lambda>b. br_device_id b = dev \<and> br_resource_id b = tid \<and> br_role b = role) (dd_bindings d))"

definition device_coordinates_device :: "device_db \<Rightarrow> uuid \<Rightarrow> uuid \<Rightarrow> (database_error, bool) result" where
  "device_coordinates_device d edge subject =
     (let coordinated = map br_resource_id
            (filter (\<lambda>b. br_device_id b = edge \<and> br_role b = EDGE_ROLE) (dd_bindings d))
      in query d QBinding
           (if coordinated = [] then False
            else list_ex (\<lambda>b. br_device_id b = subject \<and> br_resource_id b \<in> set coordinated)
                   (dd_bindings d)))"

definition touch_device_last_seen ::
  "device_db \<Rightarrow> uuid \<Rightarrow> instant \<Rightarrow> (database_error, bool) result \<times> device_db" where
  "touch_device_last_seen d dev now =
     (case db_faults d QTouch of
        Some e \<Rightarrow> (Inl e, d)
      | None \<Rightarrow>
          (Inr (live_device d dev),
           d\<lparr>dd_devices := map (\<lambda>s. if sdv_id s = dev \<and> \<not> sdv_deleted s
                                   then s\<lparr>sdv_last_seen := Some now\<rparr> else s) (dd_devices d)\<rparr>))"

definition get_tool_by_external_id :: "device_db \<Rightarrow> string \<Rightarrow> (database_error, tool_row option) result" where
  "get_tool_by_external_id d ext =
     query d QToolByExternalId (find (\<lambda>t. tr_external_id t = Some ext) (dd_tools d))"

definition get_tool_by_id :: "device_db \<Rightarrow> uuid \<Rightarrow> (database_error, tool_row option) result" where
  "get_tool_by_id d tid = query d QToolById (find (\<lambda>t. tr_id t = tid) (dd_tools d))"

section \<open>Authorization\<close>

definition extract_device_auth ::
  "(string \<Rightarrow> string) \<Rightarrow> device_db \<Rightarrow> string option \<Rightarrow> (api_error, uuid) result" where
  "extract_device_auth hash_token d header =
     (case header of
        None \<Rightarrow> Inl (Unauthorized ''Missing Authorization header'')
      | Some h \<Rightarrow>
          (case strip_prefix ''Bearer '' h of
             None \<Rightarrow> Inl (Unauthorized ''Invalid Authorization format'')
           | Some token \<Rightarrow>
               (case find_device_by_auth_token hash_token d token of
                  Inl e \<Rightarrow> Inl (InternalServerError (''DB error: '' @ show_database_error e))
                | Inr None \<Rightarrow> Inl (Unauthorized ''Invalid device token'')
                | Inr (Some (dev, _)) \<Rightarrow> Inr dev)))"

text \<open>A failed query is passed over, as a missing row is.\<close>

definition find_tool_by_toolguard_id :: "text_ops \<Rightarrow> device_db \<Rightarrow> string \<Rightarrow> tool_row option" where
  "find_tool_by_toolguard_id x d name =
     (case get_tool_by_external_id d name of
        Inr (Some t) \<Rightarrow> Some t
      | _ \<Rightarrow>
          (case uuid_parse x name of
             None \<Rightarrow> None
           | Some u \<Rightarrow> (case get_tool_by_id d u of Inr (Some t) \<Rightarrow> Some t | _ \<Rightarrow> None)))"

definition authorize_toolguard ::
  "text_ops \<Rightarrow> (string \<Rightarrow> string) \<Rightarrow> device_db \<Rightarrow> string option \<Rightarrow> string \<Rightarrow> (api_error, uuid) result" where
  "authorize_toolguard x hash_token d header name =
     (case extract_device_auth hash_token d header of
        Inl (InternalServerError e) \<Rightarrow> Inl (InternalServerError e)
      | Inl _ \<Rightarrow> Inl (Unauthorized ''ToolGuard operations require a registered device token'')
      | Inr dev \<Rightarrow>
          if name = [] then Inr dev
          else
            let refused = Inl (Unauthorized ''This device is not bound to that tool'')
            in (case find_tool_by_toolguard_id x d name of
                  None \<Rightarrow> refused
                | Some t \<Rightarrow>
                    (case device_is_bound_to_tool d dev (tr_id t) of
                       Inl e \<Rightarrow> Inl (from_database_error e)
                     | Inr bound \<Rightarrow> if bound then Inr dev else refused)))"

definition authorize_alive ::
  "(string \<Rightarrow> string) \<Rightarrow> device_db \<Rightarrow> string option \<Rightarrow> uuid option \<Rightarrow> (api_error, uuid) result" where
  "authorize_alive hash_token d header subject =
     (case extract_device_auth hash_token d header of
        Inl e \<Rightarrow>
          (if is_server_error e then Inl e
           else Inl (Unauthorized ''ToolGuard operations require a registered device token''))
      | Inr caller \<Rightarrow>
          (case subject of
             None \<Rightarrow> Inr caller
           | Some s \<Rightarrow>
               if s = caller then Inr caller
               else
                 (case device_coordinates_device d caller s of
                    Inl e \<Rightarrow> Inl (from_database_error e)
                  | Inr ok \<Rightarrow>
                      if ok then Inr caller
                      else Inl (Unauthorized ''This device does not coordinate that device''))))"

text \<open>\<^verbatim>\<open>alive\<close>: the body is \<open>None\<close> when it is not a JSON object; otherwise the device it names.\<close>

definition alive ::
  "(string \<Rightarrow> string) \<Rightarrow> device_db \<Rightarrow> string option \<Rightarrow> uuid option option \<Rightarrow> instant \<Rightarrow>
   (api_error, string) result \<times> device_db" where
  "alive hash_token d header body now =
     (case authorize_alive hash_token d header (case body of Some s \<Rightarrow> s | None \<Rightarrow> None) of
        Inl e \<Rightarrow> (Inl e, d)
      | Inr caller \<Rightarrow>
          (case body of
             None \<Rightarrow> (Inl (BadRequest ''body must be a JSON object''), d)
           | Some s \<Rightarrow>
               (case touch_device_last_seen d (unwrap_or s caller) now of
                  (Inl e, d1) \<Rightarrow> (Inl (from_database_error e), d1)
                | (Inr True, d1) \<Rightarrow> (Inr ''Alive'', d1)
                | (Inr False, d1) \<Rightarrow> (Inl (NotFound ''Device not found''), d1))))"

record power_report_caller =
  prc_device_id :: uuid
  prc_relayed_for :: "uuid option"

definition authorize_power_report ::
  "text_ops \<Rightarrow> (string \<Rightarrow> string) \<Rightarrow> device_db \<Rightarrow> string option \<Rightarrow> string \<Rightarrow> uuid option \<Rightarrow>
   (api_error, power_report_caller) result" where
  "authorize_power_report x hash_token d header name subject =
     (case authorize_toolguard x hash_token d header name of
        Inr dev \<Rightarrow> Inr \<lparr>prc_device_id = dev, prc_relayed_for = None\<rparr>
      | Inl e0 \<Rightarrow>
          if is_server_error e0 then Inl e0
          else
            (case extract_device_auth hash_token d header of
               Inl e \<Rightarrow> Inl e
             | Inr dev \<Rightarrow>
                 (case subject of
                    None \<Rightarrow> Inl (Unauthorized ''This device is not bound to that tool'')
                  | Some s \<Rightarrow>
                      (case find_tool_by_toolguard_id x d name of
                         None \<Rightarrow> Inl (NotFound ''Tool not found'')
                       | Some t \<Rightarrow>
                           (case device_is_bound_to_tool_in_role d dev (tr_id t) EDGE_ROLE of
                              Inl e \<Rightarrow> Inl (from_database_error e)
                            | Inr is_coordinator \<Rightarrow>
                                (case device_is_bound_to_tool_in_role d s (tr_id t) POWER_ROLE of
                                   Inl e \<Rightarrow> Inl (from_database_error e)
                                 | Inr subject_is_a_module \<Rightarrow>
                                     if is_coordinator \<and> subject_is_a_module
                                     then Inr \<lparr>prc_device_id = dev, prc_relayed_for = Some s\<rparr>
                                     else Inl (Unauthorized
                                       (if \<not> is_coordinator
                                        then ''This device is not bound to that tool as its edge coordinator''
                                        else ''The device_id named is not bound to that tool in the power role''))))))))"

datatype resource_ref = RTool tool_row | RDoor uuid

definition find_resource ::
  "text_ops \<Rightarrow> device_db \<Rightarrow> string \<Rightarrow> (api_error, resource_ref option) result" where
  "find_resource x d name =
     (case find_tool_by_toolguard_id x d name of
        Some t \<Rightarrow> Inr (Some (RTool t))
      | None \<Rightarrow>
          (case uuid_parse x name of
             None \<Rightarrow> Inr None
           | Some u \<Rightarrow>
               (case query d QResourceKind (u \<in> dd_doors d) of
                  Inl e \<Rightarrow> Inl (from_database_error e)
                | Inr is_door \<Rightarrow> Inr (if is_door then Some (RDoor u) else None))))"

fun resource_ref_id :: "resource_ref \<Rightarrow> uuid" where
  "resource_ref_id (RTool t) = tr_id t"
| "resource_ref_id (RDoor u) = u"

definition authorize_resource ::
  "text_ops \<Rightarrow> (string \<Rightarrow> string) \<Rightarrow> device_db \<Rightarrow> string option \<Rightarrow> string \<Rightarrow>
   (api_error, uuid \<times> resource_ref) result" where
  "authorize_resource x hash_token d header name =
     (case extract_device_auth hash_token d header of
        Inl (InternalServerError e) \<Rightarrow> Inl (InternalServerError e)
      | Inl _ \<Rightarrow> Inl (Unauthorized ''Resource operations require a registered device token'')
      | Inr dev \<Rightarrow>
          (case find_resource x d name of
             Inl e \<Rightarrow> Inl e
           | Inr None \<Rightarrow> Inl (Unauthorized ''This device is not bound to that resource'')
           | Inr (Some r) \<Rightarrow>
               (case device_is_bound_to_tool d dev (resource_ref_id r) of
                  Inl e \<Rightarrow> Inl (from_database_error e)
                | Inr bound \<Rightarrow>
                    if bound then Inr (dev, r)
                    else Inl (Unauthorized ''This device is not bound to that resource''))))"

section \<open>Who is let through\<close>

text \<open>The tables read as relations: a caller's credential, and a binding of a device to a resource.\<close>

definition credential :: "(string \<Rightarrow> string) \<Rightarrow> device_db \<Rightarrow> string option \<Rightarrow> uuid \<Rightarrow> bool" where
  "credential hash_token d header dev \<longleftrightarrow>
     (\<exists>token h. header = Some (''Bearer '' @ token) \<and>
        find (\<lambda>(dev, h). h = hash_token token \<and> live_device d dev) (dd_auth d) = Some (dev, h))"

definition bound :: "device_db \<Rightarrow> uuid \<Rightarrow> uuid \<Rightarrow> bool" where
  "bound d dev res \<longleftrightarrow> (\<exists>b \<in> set (dd_bindings d). br_device_id b = dev \<and> br_resource_id b = res)"

definition bound_as :: "device_db \<Rightarrow> uuid \<Rightarrow> uuid \<Rightarrow> string \<Rightarrow> bool" where
  "bound_as d dev res role \<longleftrightarrow>
     (\<exists>b \<in> set (dd_bindings d). br_device_id b = dev \<and> br_resource_id b = res \<and> br_role b = role)"

definition fault_free :: "device_db \<Rightarrow> bool" where
  "fault_free d \<longleftrightarrow> (\<forall>q. db_faults d q = None)"

lemma query_Inr [simp]: "query d q v = Inr w \<longleftrightarrow> db_faults d q = None \<and> w = v"
  by (auto simp: query_def split: option.splits)

lemma query_fault_free: "fault_free d \<Longrightarrow> query d q v = Inr v"
  by (simp add: fault_free_def)

lemma device_is_bound_to_tool_alt: "device_is_bound_to_tool d dev tid = query d QBinding (bound d dev tid)"
  by (simp add: device_is_bound_to_tool_def bound_def list_ex_iff)

lemma device_is_bound_to_tool_in_role_alt:
  "device_is_bound_to_tool_in_role d dev tid role = query d QBinding (bound_as d dev tid role)"
  by (simp add: device_is_bound_to_tool_in_role_def bound_as_def list_ex_iff)

lemma device_coordinates_device_alt:
  "device_coordinates_device d edge s =
     query d QBinding (\<exists>res. bound_as d edge res EDGE_ROLE \<and> bound d s res)"
proof -
  let ?c = "map br_resource_id (filter (\<lambda>b. br_device_id b = edge \<and> br_role b = EDGE_ROLE) (dd_bindings d))"
  have c: "r \<in> set ?c \<longleftrightarrow> bound_as d edge r EDGE_ROLE" for r
    by (auto simp: bound_as_def)
  have "(if ?c = [] then False
         else list_ex (\<lambda>b. br_device_id b = s \<and> br_resource_id b \<in> set ?c) (dd_bindings d)) \<longleftrightarrow>
        list_ex (\<lambda>b. br_device_id b = s \<and> br_resource_id b \<in> set ?c) (dd_bindings d)"
    by (cases "?c = []") (auto simp: list_ex_iff)
  also have "\<dots> \<longleftrightarrow> (\<exists>res. bound_as d edge res EDGE_ROLE \<and> bound d s res)"
    unfolding c list_ex_iff by (auto simp: bound_def)
  finally show ?thesis
    by (simp only: device_coordinates_device_def Let_def)
qed

lemmas binding_queries =
  device_is_bound_to_tool_alt device_is_bound_to_tool_in_role_alt device_coordinates_device_alt

lemma extract_device_auth_Inr:
  "extract_device_auth hash d header = Inr dev \<longleftrightarrow>
     db_faults d QAuthToken = None \<and> credential hash d header dev"
  by (auto simp: extract_device_auth_def find_device_by_auth_token_def credential_def
      strip_prefix_eq_Some query_def split: option.splits sum.splits)

lemma credential_unique: "credential hash d header dev \<Longrightarrow> credential hash d header dev' \<Longrightarrow> dev = dev'"
  by (auto simp: credential_def)


lemma authorize_toolguard_Inr:
  "authorize_toolguard x hash d header name = Inr dev \<longleftrightarrow>
     db_faults d QAuthToken = None \<and> credential hash d header dev \<and>
     (name = [] \<or> (db_faults d QBinding = None \<and>
        (\<exists>t. find_tool_by_toolguard_id x d name = Some t \<and> bound d dev (tr_id t))))"
proof (cases "extract_device_auth hash d header")
  case (Inl e)
  then have "\<not> (db_faults d QAuthToken = None \<and> credential hash d header dev)"
    using extract_device_auth_Inr [of hash d header dev] by auto
  with Inl show ?thesis by (auto simp: authorize_toolguard_def split: api_error.splits)
next
  case (Inr dev0)
  then have c: "db_faults d QAuthToken = None" "credential hash d header dev0"
    by (auto simp: extract_device_auth_Inr)
  have "authorize_toolguard x hash d header name = Inr dev \<longleftrightarrow> dev = dev0 \<and>
     (name = [] \<or> (db_faults d QBinding = None \<and>
        (\<exists>t. find_tool_by_toolguard_id x d name = Some t \<and> bound d dev0 (tr_id t))))"
    using Inr by (auto simp: authorize_toolguard_def binding_queries query_def Let_def split: option.splits)
  then show ?thesis using c credential_unique by blast
qed

lemma find_tool_in: "find_tool_by_toolguard_id x d name = Some t \<Longrightarrow> t \<in> set (dd_tools d)"
  by (auto simp: find_tool_by_toolguard_id_def get_tool_by_external_id_def get_tool_by_id_def query_def
      dest: find_SomeD split: option.splits sum.splits)

lemma bound_as_bound: "bound_as d dev res role \<Longrightarrow> bound d dev res"
  by (auto simp: bound_as_def bound_def)

text \<open>
  A power report is accepted from a device with a live credential that is bound, in any role, to the
  tool the report names (or that names none), whatever module it names, and never as a relay. A
  coordinator's own binding already satisfies the direct rule, so the relay rule behind it, which
  asks that the named module be bound in the power role, is never reached with both bindings in
  place: the check the comment describes is not made.
\<close>

lemma power_report_never_checks_the_module:
  assumes "fault_free d"
  shows "authorize_power_report x hash d header name subject = Inr c \<longleftrightarrow>
    prc_relayed_for c = None \<and> credential hash d header (prc_device_id c) \<and>
    (name = [] \<or> (\<exists>t. find_tool_by_toolguard_id x d name = Some t \<and> bound d (prc_device_id c) (tr_id t)))"
proof -
  obtain dv rl where c: "c = \<lparr>prc_device_id = dv, prc_relayed_for = rl\<rparr>" by (cases c)
  have ff: "db_faults d q = None" for q using assms by (simp add: fault_free_def)
  show ?thesis
  proof (cases "authorize_toolguard x hash d header name")
    case (Inr dev)
    then have "authorize_power_report x hash d header name subject = Inr c \<longleftrightarrow> dv = dev \<and> rl = None"
      by (auto simp: authorize_power_report_def c)
    moreover have "authorize_toolguard x hash d header name = Inr dv \<longleftrightarrow> dv = dev"
      using Inr by auto
    ultimately show ?thesis by (auto simp: c ff authorize_toolguard_Inr)
  next
    case (Inl e)
    have no: "\<not> (credential hash d header dev \<and>
        (name = [] \<or> (\<exists>t. find_tool_by_toolguard_id x d name = Some t \<and> bound d dev (tr_id t))))" for dev
      using Inl authorize_toolguard_Inr [of x hash d header name dev] by (auto simp: ff)
    have "authorize_power_report x hash d header name subject \<noteq> Inr c"
    proof (cases "extract_device_auth hash d header")
      case (Inr dev)
      then have "\<not> bound_as d dev (tr_id t) EDGE_ROLE" if "find_tool_by_toolguard_id x d name = Some t" for t
        using no [of dev] that bound_as_bound by (auto simp: extract_device_auth_Inr)
      then show ?thesis
        using Inl Inr by (auto simp: authorize_power_report_def binding_queries
            query_fault_free [OF assms] split: option.splits if_splits)
    qed (use Inl in \<open>auto simp: authorize_power_report_def\<close>)
    then show ?thesis using no [of dv] by (auto simp: c)
  qed
qed

text \<open>Whose liveness a pulse refreshes.\<close>

definition may_pulse_for :: "device_db \<Rightarrow> uuid \<Rightarrow> uuid \<Rightarrow> bool" where
  "may_pulse_for d caller s \<longleftrightarrow>
     s = caller \<or> (\<exists>res. bound_as d caller res EDGE_ROLE \<and> bound d s res)"

lemma authorize_alive_Inr:
  "authorize_alive hash d header subject = Inr caller \<Longrightarrow>
   credential hash d header caller \<and> may_pulse_for d caller (unwrap_or subject caller)"
  by (auto simp: authorize_alive_def extract_device_auth_Inr may_pulse_for_def binding_queries query_def
      split: sum.splits option.splits if_splits)

lemma touch_device_only:
  "touch_device_last_seen d s now = (r, d1) \<Longrightarrow>
   d1 = d\<lparr>dd_devices := map (\<lambda>v. if sdv_id v = s \<and> \<not> sdv_deleted v \<and> db_faults d QTouch = None
                                 then v\<lparr>sdv_last_seen := Some now\<rparr> else v) (dd_devices d)\<rparr>"
  by (auto simp: touch_device_last_seen_def map_idI split: option.splits)

text \<open>
  A pulse moves the last-seen time of at most one device, to the moment it arrived: the caller
  itself, or a device bound to something the caller coordinates. Every other row keeps its time, and
  bindings, tools and credentials are untouched.
\<close>

lemma pulse_touches_only_own_devices:
  assumes "alive hash d header body now = (r, d1)"
  shows "dd_bindings d1 = dd_bindings d \<and> dd_tools d1 = dd_tools d \<and> dd_auth d1 = dd_auth d \<and>
    (d1 \<noteq> d \<longrightarrow>
      (\<exists>caller s. credential hash d header caller \<and> may_pulse_for d caller s \<and>
         dd_devices d1 = map (\<lambda>v. if sdv_id v = s \<and> \<not> sdv_deleted v
                                  then v\<lparr>sdv_last_seen := Some now\<rparr> else v) (dd_devices d)))"
proof (cases "authorize_alive hash d header (case body of Some s \<Rightarrow> s | None \<Rightarrow> None)")
  case (Inl e)
  with assms show ?thesis by (auto simp: alive_def)
next
  case (Inr caller)
  show ?thesis
  proof (cases body)
    case None
    with Inr assms show ?thesis by (auto simp: alive_def)
  next
    case (Some s)
    let ?s = "unwrap_or s caller"
    obtain r1 d2 where t2: "touch_device_last_seen d ?s now = (r1, d2)" by fastforce
    have "d2 = d1"
      using assms Inr Some t2 by (cases r1) (auto simp: alive_def split: if_splits bool.splits)
    then have t: "touch_device_last_seen d ?s now = (r1, d1)" using t2 by simp
    have "credential hash d header caller" "may_pulse_for d caller ?s"
      using authorize_alive_Inr [of hash d header s caller] Inr Some by auto
    moreover have "d1 \<noteq> d \<Longrightarrow> db_faults d QTouch = None"
      using t by (auto simp: touch_device_last_seen_def split: option.splits)
    moreover have "dd_bindings d1 = dd_bindings d" "dd_tools d1 = dd_tools d" "dd_auth d1 = dd_auth d"
      by (simp_all add: touch_device_only [OF t])
    moreover have "dd_devices d1 = map (\<lambda>v. if sdv_id v = ?s \<and> \<not> sdv_deleted v \<and> db_faults d QTouch = None
                     then v\<lparr>sdv_last_seen := Some now\<rparr> else v) (dd_devices d)"
      by (simp add: touch_device_only [OF t])
    ultimately show ?thesis by (intro conjI impI exI [of _ caller] exI [of _ ?s]) simp_all
  qed
qed

text \<open>
  A database fault while the tool is looked up reads as a credential problem: the lookup passes over
  the failed query, so the caller is told that it is not bound to the tool. The comment at the top of
  the function says that a database fault must stay a database fault.
\<close>

lemma lookup_fault_reads_as_unbound:
  assumes "credential hash d header dev" "db_faults d QAuthToken = None" "name \<noteq> []"
    "db_faults d QToolByExternalId \<noteq> None" "uuid_parse x name \<noteq> None \<Longrightarrow> db_faults d QToolById \<noteq> None"
  shows "authorize_toolguard x hash d header name =
    Inl (Unauthorized ''This device is not bound to that tool'')"
proof -
  have "find_tool_by_toolguard_id x d name = None"
    using assms(4,5) by (auto simp: find_tool_by_toolguard_id_def get_tool_by_external_id_def
        get_tool_by_id_def query_def split: option.splits)
  then show ?thesis
    using assms(1-3) extract_device_auth_Inr [of hash d header dev]
    by (simp add: authorize_toolguard_def Let_def)
qed


section \<open>Witnesses\<close>

definition demo_bandsaw :: tool_row where
  "demo_bandsaw = \<lparr>tr_id = 7, tr_external_id = Some ''saw'', tr_status = Idle, tr_requires_training = False,
     tr_schedule_id = None, tr_receptacle_id = Some 30, tr_updated_at = 0,
     tr_billing = \<lparr>tl_id = 7, usage_flat_fee = None, usage_rate_per_min = None,
       usage_max_session_minutes = None, usage_basis = ''active''\<rparr>\<rparr>"

definition demo_devices :: device_db where
  "demo_devices = \<lparr>dd_auth = [(1, ''e'')],
     dd_devices = [\<lparr>sdv_id = 1, sdv_deleted = False, sdv_last_seen = None\<rparr>,
                   \<lparr>sdv_id = 2, sdv_deleted = False, sdv_last_seen = None\<rparr>],
     dd_bindings = [\<lparr>br_device_id = 1, br_resource_id = 7, br_role = ''sensor''\<rparr>,
                    \<lparr>br_device_id = 1, br_resource_id = 8, br_role = ''edge''\<rparr>,
                    \<lparr>br_device_id = 2, br_resource_id = 8, br_role = ''power''\<rparr>],
     dd_tools = [demo_bandsaw, demo_bandsaw\<lparr>tr_id := 8, tr_external_id := Some ''lathe''\<rparr>],
     dd_doors = {}, db_faults = \<lambda>_. None\<rparr>"

lemma demo_credential: "credential id demo_devices (Some ''Bearer e'') 1"
  by (auto simp: credential_def demo_devices_def live_device_def)

end
