(* ===== verification/Ancestry.thy ===== *)
theory Ancestry
  imports Api_Errors
begin

text \<open>
  Self-referential tables: the bounded walk up the parent links that \<^verbatim>\<open>power_circuit_ancestors\<close> and
  \<^verbatim>\<open>place_ancestors\<close> of \<^verbatim>\<open>server/src/database.rs\<close> share, and the contract of a table whose handlers
  guard every move with it. The locale \<open>parent_tree\<close> is that contract; the circuits and the places
  interpret it.
\<close>

text \<open>
  The loop: \<open>fuel\<close> is the number of levels it may still climb (32 at the start). The accumulator is
  the reversed vector, so that the result is ordered from the root down.
\<close>

fun ancestors_loop ::
  "(uuid \<Rightarrow> 'r option) \<Rightarrow> ('r \<Rightarrow> uuid option) \<Rightarrow> string \<Rightarrow> nat \<Rightarrow> uuid option \<Rightarrow> 'r list \<Rightarrow>
   (database_error, 'r list) result" where
  "ancestors_loop get par msg fuel None acc = Inr acc"
| "ancestors_loop get par msg 0 (Some p) acc = Inl (OtherDb msg)"
| "ancestors_loop get par msg (Suc fuel) (Some p) acc =
     (case get p of
        None \<Rightarrow> Inl (Diesel DieselNotFound ''Record not found'')
      | Some r \<Rightarrow> ancestors_loop get par msg fuel (par r) (r # acc))"

definition up_links :: "(uuid \<Rightarrow> 'r option) \<Rightarrow> ('r \<Rightarrow> uuid option) \<Rightarrow> (uuid \<times> uuid) set" where
  "up_links get par = {(c, p). \<exists>r. get c = Some r \<and> par r = Some p}"

lemma up_links_cong:
  assumes "\<And>k. Option.bind (get k) par = Option.bind (get' k) par"
  shows "up_links get par = up_links get' par"
proof -
  have "(c, p) \<in> up_links g par \<longleftrightarrow> Option.bind (g c) par = Some p" for g c p
    by (auto simp: up_links_def bind_eq_Some_conv)
  then show ?thesis using assms by auto
qed

text \<open>Whatever the walk returns is complete: every row above the start is in it.\<close>

lemma ancestors_loop_acc:
  "ancestors_loop get par msg fuel cur acc = Inr out \<Longrightarrow> set acc \<subseteq> set out"
  by (induction get par msg fuel cur acc rule: ancestors_loop.induct) (auto split: option.splits)

lemma ancestors_loop_complete:
  "ancestors_loop get par msg fuel (Some p) acc = Inr out \<Longrightarrow> (p, q) \<in> (up_links get par)\<^sup>* \<Longrightarrow>
   \<exists>r \<in> set out. get q = Some r"
proof (induction get par msg fuel "Some p" acc arbitrary: p rule: ancestors_loop.induct)
  case (3 get par msg fuel p acc)
  then obtain r where r: "get p = Some r" and step: "ancestors_loop get par msg fuel (par r) (r # acc) = Inr out"
    by (auto split: option.splits)
  from 3(3) show ?case
  proof (cases rule: converse_rtranclE)
    case base
    with r ancestors_loop_acc [OF step] show ?thesis by auto
  next
    case (step y)
    then have "par r = Some y" using r by (auto simp: up_links_def)
    with 3(1) [OF r this] 3(2) r step(2) show ?thesis by simp
  qed
qed auto

lemma ancestors_loop_sound:
  "ancestors_loop get par msg fuel (Some p) acc = Inr out \<Longrightarrow> r \<in> set out \<Longrightarrow>
   r \<in> set acc \<or> (\<exists>q. (p, q) \<in> (up_links get par)\<^sup>* \<and> get q = Some r)"
proof (induction get par msg fuel "Some p" acc arbitrary: p rule: ancestors_loop.induct)
  case (3 get par msg fuel p acc)
  then obtain s where s: "get p = Some s" and step: "ancestors_loop get par msg fuel (par s) (s # acc) = Inr out"
    by (auto split: option.splits)
  show ?case
  proof (cases "par s")
    case None
    with step 3(3) s show ?thesis by auto
  next
    case (Some y)
    with 3(1) [OF s this] step 3(3) consider "r \<in> set (s # acc)"
      | q where "(y, q) \<in> (up_links get par)\<^sup>*" "get q = Some r" by fastforce
    then show ?thesis
    proof cases
      case 1
      with s show ?thesis by auto
    next
      case 2
      have "(p, y) \<in> up_links get par" using s Some by (auto simp: up_links_def)
      with 2 show ?thesis by (meson converse_rtrancl_into_rtrancl)
    qed
  qed
qed auto

section \<open>Tables kept free of cycles\<close>

lemma acyclic_reparent:
  assumes "acyclic r" "(p, c) \<notin> r\<^sup>*" "r' \<subseteq> r \<union> {(c, p)}"
  shows "acyclic r'"
proof -
  have "acyclic (insert (c, p) r)" using assms(1,2) by (simp add: acyclic_insert)
  then show ?thesis using assms(3) by (auto intro: acyclic_subset)
qed

text \<open>A new row that nothing points to, and a row that is gone.\<close>

lemma acyclic_add_row:
  assumes "acyclic (up_links get par)"
    and new: "\<And>k. get' k = (case get k of Some r \<Rightarrow> Some r | None \<Rightarrow> if k = c then Some r0 else None)" "get c = None"
    and no_target: "\<And>k r. get k = Some r \<Longrightarrow> par r \<noteq> Some c" and "par r0 \<noteq> Some c"
  shows "acyclic (up_links get' par)"
proof (cases "par r0")
  case None
  then have "up_links get' par \<subseteq> up_links get par" using new by (auto simp: up_links_def split: option.splits if_splits)
  then show ?thesis using assms(1) by (auto intro: acyclic_subset)
next
  case (Some p)
  have "(p, c) \<notin> (up_links get par)\<^sup>*"
  proof
    assume "(p, c) \<in> (up_links get par)\<^sup>*"
    then show False
    proof (cases rule: rtranclE)
      case base
      with Some assms(5) show False by simp
    next
      case (step y)
      with no_target show False by (auto simp: up_links_def)
    qed
  qed
  moreover have "up_links get' par \<subseteq> up_links get par \<union> {(c, p)}"
    using new Some by (auto simp: up_links_def split: option.splits if_splits)
  ultimately show ?thesis by (rule acyclic_reparent [OF assms(1)])
qed

lemma acyclic_drop_row:
  "acyclic (up_links get par) \<Longrightarrow> (\<And>k. get' k = (if k = c then None else get k)) \<Longrightarrow> acyclic (up_links get' par)"
  by (erule acyclic_subset) (auto simp: up_links_def split: if_splits)

locale parent_tree =
  fixes get :: "'db \<Rightarrow> uuid \<Rightarrow> 'r option"
    and par :: "'r \<Rightarrow> uuid option"
    and rid :: "'r \<Rightarrow> uuid"
    and set_parent :: "uuid \<Rightarrow> uuid option \<Rightarrow> 'db \<Rightarrow> 'db"
  assumes get_id: "get db k = Some r \<Longrightarrow> rid r = k"
    and set_parent_up: "up_links (get (set_parent c q db)) par \<subseteq>
      (up_links (get db) par - {c} \<times> UNIV) \<union> {(c', p). c' = c \<and> q = Some p}"
begin

definition cycle_free :: "'db \<Rightarrow> bool" where
  "cycle_free db \<longleftrightarrow> acyclic (up_links (get db) par)"

lemma detach_keeps: "cycle_free db \<Longrightarrow> cycle_free (set_parent c None db)"
  unfolding cycle_free_def using set_parent_up [of c None db] by (auto intro: acyclic_subset)

text \<open>A move is safe when the walk from the new parent succeeds and does not meet the moved row.\<close>

lemma guarded_move_keeps:
  assumes "cycle_free db" "p \<noteq> c" "get db p = Some r"
    and walk: "ancestors_loop (get db) par msg fuel (par r) [] = Inr chain"
    and "\<forall>a \<in> set chain. rid a \<noteq> c"
  shows "cycle_free (set_parent c (Some p) db)"
proof -
  have "(p, c) \<notin> (up_links (get db) par)\<^sup>*"
  proof
    assume "(p, c) \<in> (up_links (get db) par)\<^sup>*"
    then show False
    proof (cases rule: converse_rtranclE)
      case base
      with assms(2) show False by simp
    next
      case (step y)
      then have "par r = Some y" using assms(3) by (auto simp: up_links_def)
      with walk step(2) ancestors_loop_complete obtain a where "a \<in> set chain" "get db c = Some a"
        by fastforce
      with assms(5) get_id show False by blast
    qed
  qed
  moreover have "up_links (get (set_parent c (Some p) db)) par \<subseteq> up_links (get db) par \<union> {(c, p)}"
    using set_parent_up [of c "Some p" db] by blast
  ultimately show ?thesis
    using acyclic_reparent [OF assms(1) [unfolded cycle_free_def]] by (simp only: cycle_free_def)
qed

end

end
