(* ===== verification/Power_Server.thy ===== *)
theory Power_Server
  imports Shop Ancestry Power_Lockout
begin

text \<open>
  The server's power topology and emergency lockout: the tables and aggregation of
  \<^verbatim>\<open>server/src/database.rs\<close>, the report and trip handlers of \<^verbatim>\<open>api/toolguard.rs\<close>, the circuit
  handlers and the staff re-enable of \<^verbatim>\<open>api/power.rs\<close>. A \<^verbatim>\<open>BigDecimal\<close> is a \<open>rat\<close> (addition and
  comparison are exact in both); its text is the parameter \<open>show_dec\<close>, and \<^verbatim>\<open>to_f64\<close> is exact here.
  Statements on the power tables do not fail; row order is the order of the lists. The Prometheus
  gauges are left out.
\<close>

section \<open>Tables\<close>

record power_circuit =
  pc_id :: uuid
  pc_breaker_label :: string
  pc_voltage_rating :: int
  pc_amperage_limit :: rat
  pc_parent_circuit_id :: "uuid option"
  pc_locked_out :: bool
  pc_lockout_reason :: "string option"
  pc_lockout_source :: "string option"
  pc_locked_out_at :: "instant option"
  pc_locked_out_by :: "uuid option"

record power_outlet =
  po_id :: uuid
  po_circuit_id :: uuid

record power_receptacle =
  pr_id :: uuid
  pr_outlet_id :: uuid

record tool_power_state =
  tps_tool_id :: uuid
  last_draw_amps :: "rat option"
  last_voltage :: "rat option"
  reported_max_voltage :: "rat option"
  reported_amperage_limit :: "rat option"
  last_reported_at :: instant
  tps_locked_out :: bool
  tps_lockout_reason :: "string option"
  tps_locked_out_at :: "instant option"
  last_relay_on :: "bool option"
  power_evidence_since :: "instant option"

datatype power_audit =
    FirmwareSelftripReported uuid
  | EmergencyLockoutEngagedTool uuid string
  | EmergencyLockoutEngagedCircuit uuid string
  | CircuitOverageShutoff uuid "(rat \<times> rat) option"
  | EmergencyLockoutClearedCircuit uuid uuid
  | EmergencyLockoutClearedTool uuid uuid
  | PowerCircuitCreated uuid
  | PowerCircuitUpdated uuid
  | PowerCircuitDeleted uuid

record power_db =
  pd_circuits :: "power_circuit list"
  pd_outlets :: "power_outlet list"
  pd_receptacles :: "power_receptacle list"
  pd_states :: "tool_power_state list"
  pd_audit :: "power_audit list"

definition write_audit :: "power_audit \<Rightarrow> power_db \<Rightarrow> power_db" where
  "write_audit e db = db\<lparr>pd_audit := pd_audit db @ [e]\<rparr>"

definition find_circuit :: "power_db \<Rightarrow> uuid \<Rightarrow> power_circuit option" where
  "find_circuit db cid = find (\<lambda>c. pc_id c = cid) (pd_circuits db)"

definition get_tool_power_state :: "power_db \<Rightarrow> uuid \<Rightarrow> tool_power_state option" where
  "get_tool_power_state db tid = find (\<lambda>s. tps_tool_id s = tid) (pd_states db)"

section \<open>Aggregation\<close>

fun sum_draw_loop ::
  "(uuid \<rightharpoonup> uuid) \<Rightarrow> (uuid \<rightharpoonup> uuid) \<Rightarrow> (uuid \<rightharpoonup> uuid) \<Rightarrow> (uuid \<times> rat) list \<Rightarrow> (uuid \<times> rat) list \<Rightarrow>
   (uuid \<times> rat) list" where
  "sum_draw_loop t2r r2o o2c [] totals = totals"
| "sum_draw_loop t2r r2o o2c ((tid, draw) # ds) totals =
     (case t2r tid of
        None \<Rightarrow> sum_draw_loop t2r r2o o2c ds totals
      | Some rid \<Rightarrow>
          (case r2o rid of
             None \<Rightarrow> sum_draw_loop t2r r2o o2c ds totals
           | Some oid \<Rightarrow>
               (case o2c oid of
                  None \<Rightarrow> sum_draw_loop t2r r2o o2c ds totals
                | Some cid \<Rightarrow>
                    sum_draw_loop t2r r2o o2c ds
                      (AList.update cid (unwrap_or (map_of totals cid) 0 + draw) totals))))"

definition sum_draw_per_circuit ::
  "uuid list \<Rightarrow> (uuid \<times> rat) list \<Rightarrow> (uuid \<rightharpoonup> uuid) \<Rightarrow> (uuid \<rightharpoonup> uuid) \<Rightarrow> (uuid \<rightharpoonup> uuid) \<Rightarrow>
   (uuid \<times> rat) list" where
  "sum_draw_per_circuit circuit_ids tool_draws t2r r2o o2c =
     sort_key fst (sum_draw_loop t2r r2o o2c tool_draws (map (\<lambda>c. (c, 0)) (remdups circuit_ids)))"

fun overloaded_circuits ::
  "(uuid \<times> rat \<times> bool) list \<Rightarrow> (uuid \<times> rat) list \<Rightarrow> (uuid \<times> rat \<times> rat) list" where
  "overloaded_circuits [] totals = []"
| "overloaded_circuits ((cid, limit, locked) # cs) totals =
     (if locked then overloaded_circuits cs totals
      else
        let amps = (case find (\<lambda>(k, _). k = cid) totals of Some (_, t) \<Rightarrow> t | None \<Rightarrow> 0)
        in if amps > limit then (cid, amps, limit) # overloaded_circuits cs totals
           else overloaded_circuits cs totals)"

definition recep_to_outlet :: "power_db \<Rightarrow> (uuid \<rightharpoonup> uuid)" where
  "recep_to_outlet db = collect_map (map (\<lambda>r. (pr_id r, pr_outlet_id r)) (pd_receptacles db))"

definition outlet_to_circuit :: "power_db \<Rightarrow> (uuid \<rightharpoonup> uuid)" where
  "outlet_to_circuit db = collect_map (map (\<lambda>p. (po_id p, po_circuit_id p)) (pd_outlets db))"

definition tool_to_receptacle :: "tool_row list \<Rightarrow> (uuid \<rightharpoonup> uuid)" where
  "tool_to_receptacle ts =
     collect_map (List.map_filter (\<lambda>t. map_option (\<lambda>r. (tr_id t, r)) (tr_receptacle_id t)) ts)"

definition circuit_draw_totals :: "tool_row list \<Rightarrow> power_db \<Rightarrow> (uuid \<times> rat) list" where
  "circuit_draw_totals ts db =
     sum_draw_per_circuit (map pc_id (pd_circuits db))
       (List.map_filter (\<lambda>s. map_option (\<lambda>a. (tps_tool_id s, a)) (last_draw_amps s)) (pd_states db))
       (tool_to_receptacle ts) (recep_to_outlet db) (outlet_to_circuit db)"

section \<open>Lockout\<close>

definition tool_is_locked_out :: "tool_row list \<Rightarrow> power_db \<Rightarrow> uuid \<Rightarrow> bool" where
  "tool_is_locked_out ts db tid =
     (if map_option tps_locked_out (get_tool_power_state db tid) = Some True then True
      else
        (case Option.bind (find (\<lambda>t. tr_id t = tid) ts) tr_receptacle_id of
           None \<Rightarrow> False
         | Some rid \<Rightarrow>
             (case find (\<lambda>r. pr_id r = rid) (pd_receptacles db) of
                None \<Rightarrow> False
              | Some r \<Rightarrow>
                  (case find (\<lambda>p. po_id p = pr_outlet_id r) (pd_outlets db) of
                     None \<Rightarrow> False
                   | Some p \<Rightarrow>
                       map_option pc_locked_out (find_circuit db (po_circuit_id p)) = Some True))))"

definition update_circuits ::
  "(power_circuit \<Rightarrow> bool) \<Rightarrow> (power_circuit \<Rightarrow> power_circuit) \<Rightarrow> power_db \<Rightarrow> nat \<times> power_db" where
  "update_circuits P f db =
     (length (filter P (pd_circuits db)),
      db\<lparr>pd_circuits := map (\<lambda>c. if P c then f c else c) (pd_circuits db)\<rparr>)"

definition engage_circuit_lockout ::
  "uuid \<Rightarrow> string \<Rightarrow> string \<Rightarrow> instant \<Rightarrow> power_db \<Rightarrow> nat \<times> power_db" where
  "engage_circuit_lockout cid source reason now db =
     update_circuits (\<lambda>c. pc_id c = cid \<and> \<not> pc_locked_out c)
       (\<lambda>c. c\<lparr>pc_locked_out := True, pc_lockout_source := Some source,
             pc_lockout_reason := Some reason, pc_locked_out_at := Some now\<rparr>) db"

definition clear_circuit_lockout :: "uuid \<Rightarrow> uuid option \<Rightarrow> power_db \<Rightarrow> nat \<times> power_db" where
  "clear_circuit_lockout cid by_user db =
     update_circuits (\<lambda>c. pc_id c = cid)
       (\<lambda>c. c\<lparr>pc_locked_out := False, pc_lockout_source := None, pc_lockout_reason := None,
             pc_locked_out_at := None, pc_locked_out_by := by_user\<rparr>) db"

definition engage_tool_lockout :: "uuid \<Rightarrow> string \<Rightarrow> instant \<Rightarrow> power_db \<Rightarrow> power_db" where
  "engage_tool_lockout tid reason now db =
     (case get_tool_power_state db tid of
        None \<Rightarrow>
          db\<lparr>pd_states := pd_states db @
            [\<lparr>tps_tool_id = tid, last_draw_amps = None, last_voltage = None, reported_max_voltage = None,
              reported_amperage_limit = None, last_reported_at = now, tps_locked_out = True,
              tps_lockout_reason = Some reason, tps_locked_out_at = Some now, last_relay_on = None,
              power_evidence_since = None\<rparr>]\<rparr>
      | Some _ \<Rightarrow>
          db\<lparr>pd_states := map (\<lambda>s. if tps_tool_id s = tid
               then s\<lparr>tps_locked_out := True, tps_lockout_reason := Some reason, tps_locked_out_at := Some now\<rparr>
               else s) (pd_states db)\<rparr>)"

definition clear_tool_lockout :: "uuid \<Rightarrow> power_db \<Rightarrow> power_db" where
  "clear_tool_lockout tid db =
     db\<lparr>pd_states := map (\<lambda>s. if tps_tool_id s = tid
          then s\<lparr>tps_locked_out := False, tps_lockout_reason := None, tps_locked_out_at := None\<rparr>
          else s) (pd_states db)\<rparr>"

text \<open>The upsert of a reading leaves the lockout columns of an existing row alone.\<close>

definition upsert_tool_power_state :: "tool_power_state \<Rightarrow> power_db \<Rightarrow> power_db" where
  "upsert_tool_power_state reading db =
     (case get_tool_power_state db (tps_tool_id reading) of
        None \<Rightarrow>
          db\<lparr>pd_states := pd_states db @
            [reading\<lparr>tps_locked_out := False, tps_lockout_reason := None, tps_locked_out_at := None\<rparr>]\<rparr>
      | Some _ \<Rightarrow>
          db\<lparr>pd_states := map (\<lambda>s. if tps_tool_id s = tps_tool_id reading
               then s\<lparr>last_draw_amps := last_draw_amps reading, last_voltage := last_voltage reading,
                      reported_max_voltage := reported_max_voltage reading,
                      reported_amperage_limit := reported_amperage_limit reading,
                      last_reported_at := last_reported_at reading, last_relay_on := last_relay_on reading,
                      power_evidence_since := power_evidence_since reading\<rparr>
               else s) (pd_states db)\<rparr>)"

fun trip_overloaded ::
  "(rat \<Rightarrow> string) \<Rightarrow> instant \<Rightarrow> (uuid \<times> rat \<times> rat) list \<Rightarrow> power_db \<Rightarrow> (uuid \<times> rat \<times> rat) list \<times> power_db" where
  "trip_overloaded show_dec now [] db = ([], db)"
| "trip_overloaded show_dec now ((cid, amps, limit) # over) db =
     (case engage_circuit_lockout cid ''server_aggregate''
             (''summed draw '' @ show_dec amps @ '' A exceeds circuit limit '' @ show_dec limit @ '' A'')
             now db of
        (n, db1) \<Rightarrow>
          (case trip_overloaded show_dec now over db1 of
             (tripped, db2) \<Rightarrow> (if n > 0 then (cid, amps, limit) # tripped else tripped, db2)))"

definition evaluate_circuit_overages ::
  "(rat \<Rightarrow> string) \<Rightarrow> tool_row list \<Rightarrow> instant \<Rightarrow> power_db \<Rightarrow> (uuid \<times> rat \<times> rat) list \<times> power_db" where
  "evaluate_circuit_overages show_dec ts now db =
     trip_overloaded show_dec now
       (overloaded_circuits (map (\<lambda>c. (pc_id c, pc_amperage_limit c, pc_locked_out c)) (pd_circuits db))
          (circuit_draw_totals ts db)) db"

section \<open>The snapshot for the coordinators\<close>

definition tool_circuit :: "power_db \<Rightarrow> uuid option \<Rightarrow> uuid option" where
  "tool_circuit db receptacle_id =
     Option.bind receptacle_id (\<lambda>rid. Option.bind (recep_to_outlet db rid) (outlet_to_circuit db))"

definition power_state_snapshot ::
  "text_ops \<Rightarrow> (rat \<Rightarrow> string) \<Rightarrow> string \<Rightarrow> tool_row list \<Rightarrow> power_db \<Rightarrow> power_state_payload" where
  "power_state_snapshot x show_dec as_of ts db =
     (let locked_circuits = pc_id ` set (filter pc_locked_out (pd_circuits db));
          own_locked = tps_tool_id ` set (filter tps_locked_out (pd_states db));
          locked = (\<lambda>t. tr_id t \<in> own_locked \<or>
                        is_some_and (tool_circuit db (tr_receptacle_id t)) (\<lambda>c. c \<in> locked_circuits))
      in \<lparr>psp_as_of = as_of,
          psp_locked_tool_ids = map (\<lambda>t. uuid_show x (tr_id t)) (filter locked ts),
          psp_circuits = map (\<lambda>c. \<lparr>psc_id = uuid_show x (pc_id c),
                                   psc_amperage_limit = show_dec (pc_amperage_limit c)\<rparr>) (pd_circuits db),
          psp_tools = map (\<lambda>t. \<lparr>pst_id = uuid_show x (tr_id t), pst_external_id = tr_external_id t,
                                pst_circuit_id = map_option (uuid_show x)
                                  (tool_circuit db (tr_receptacle_id t))\<rparr>) ts\<rparr>)"


section \<open>Handlers\<close>

record power_report_request =
  prq_tool_id :: "string option"
  prq_draw_now :: "rat option"
  prq_voltage_now :: "rat option"
  prq_max_voltage :: "rat option"
  prq_amperage_limit :: "rat option"
  prq_self_tripped :: "bool option"
  prq_relay_on :: "bool option"
  prq_device_id :: "uuid option"

text \<open>The evidence clock: it restarts only when an unbroken run of being powered has ended.\<close>

definition evidence_clock ::
  "rat \<Rightarrow> power_report_request \<Rightarrow> tool_power_state option \<Rightarrow> instant \<Rightarrow> instant option" where
  "evidence_clock draw_threshold req previous now =
     (let drawing = (case prq_draw_now req of Some a \<Rightarrow> draw_threshold \<le> a | None \<Rightarrow> False);
          powered = unwrap_or (prq_relay_on req) False \<or> drawing
      in if powered
         then (case Option.bind previous power_evidence_since of Some t \<Rightarrow> Some t | None \<Rightarrow> Some now)
         else None)"

fun audit_trips :: "(uuid \<times> rat \<times> rat) list \<Rightarrow> power_db \<Rightarrow> power_db" where
  "audit_trips [] db = db"
| "audit_trips ((cid, amps, limit) # ts) db =
     audit_trips ts
       (write_audit (EmergencyLockoutEngagedCircuit cid ''server_aggregate'')
         (write_audit (CircuitOverageShutoff cid (Some (amps, limit))) db))"

text \<open>
  What a report of an authorized caller does to the power tables; the flag says that a lockout
  changed, which is what makes the handler publish the snapshots.
\<close>

definition ingest_report ::
  "(rat \<Rightarrow> string) \<Rightarrow> rat \<Rightarrow> tool_row list \<Rightarrow> tool_row \<Rightarrow> power_report_request \<Rightarrow> instant \<Rightarrow> power_db \<Rightarrow>
   bool \<times> power_db" where
  "ingest_report show_dec draw_threshold ts t req now db =
     (let reading = \<lparr>tps_tool_id = tr_id t, last_draw_amps = prq_draw_now req,
            last_voltage = prq_voltage_now req, reported_max_voltage = prq_max_voltage req,
            reported_amperage_limit = prq_amperage_limit req, last_reported_at = now,
            tps_locked_out = False, tps_lockout_reason = None, tps_locked_out_at = None,
            last_relay_on = prq_relay_on req,
            power_evidence_since = evidence_clock draw_threshold req (get_tool_power_state db (tr_id t)) now\<rparr>;
          db1 = upsert_tool_power_state reading db
      in if prq_self_tripped req = Some True
         then (True,
               write_audit (EmergencyLockoutEngagedTool (tr_id t) ''firmware_selftrip'')
                 (write_audit (FirmwareSelftripReported (tr_id t))
                   (engage_tool_lockout (tr_id t)
                     ''firmware self-trip: device exceeded its own over-current limit'' now db1)))
         else (case evaluate_circuit_overages show_dec ts now db1 of
                 (tripped, db2) \<Rightarrow> (tripped \<noteq> [], audit_trips tripped db2)))"

definition power_report ::
  "text_ops \<Rightarrow> (string \<Rightarrow> string) \<Rightarrow> (rat \<Rightarrow> string) \<Rightarrow> rat \<Rightarrow> string option \<Rightarrow> power_report_request \<Rightarrow>
   instant \<Rightarrow> device_db \<Rightarrow> power_db \<Rightarrow> (api_error, bool) result \<times> device_db \<times> power_db" where
  "power_report x hash show_dec draw_threshold header req now d db =
     (let name = unwrap_or (prq_tool_id req) []
      in case authorize_power_report x hash d header name (prq_device_id req) of
           Inl e \<Rightarrow> (Inl e, d, db)
         | Inr caller \<Rightarrow>
             if name = [] then (Inl (BadRequest ''tool_id is required''), d, db)
             else
               (case find_tool_by_toolguard_id x d name of
                  None \<Rightarrow> (Inl (NotFound ''Tool not found''), d, db)
                | Some t \<Rightarrow>
                    (let d1 = (case prq_device_id req of
                                 None \<Rightarrow> d
                               | Some m \<Rightarrow> snd (touch_device_last_seen d m now));
                         (changed, db1) = ingest_report show_dec draw_threshold (dd_tools d) t req now db
                     in (Inr changed, d1, db1))))"

definition power_trip ::
  "text_ops \<Rightarrow> (string \<Rightarrow> string) \<Rightarrow> string option \<Rightarrow> uuid option \<Rightarrow> string option \<Rightarrow> instant \<Rightarrow>
   device_db \<Rightarrow> power_db \<Rightarrow> (api_error, bool) result \<times> power_db" where
  "power_trip x hash header circuit reason now d db =
     (case authorize_toolguard x hash d header [] of
        Inl e \<Rightarrow> (Inl e, db)
      | Inr _ \<Rightarrow>
          (case circuit of
             None \<Rightarrow> (Inl (BadRequest ''circuit_id is required''), db)
           | Some cid \<Rightarrow>
               (case engage_circuit_lockout cid ''edge_fast_trip''
                       (unwrap_or reason ''edge-reported circuit overload'') now db of
                  (n, db1) \<Rightarrow>
                    if n > 0
                    then (Inr True, write_audit (EmergencyLockoutEngagedCircuit cid ''edge_fast_trip'')
                                      (write_audit (CircuitOverageShutoff cid None) db1))
                    else (Inr False, db1))))"

definition require_power_enabled :: "bool \<Rightarrow> api_error option" where
  "require_power_enabled enabled =
     (if enabled then None
      else Some (Forbidden ''Power topology module is disabled in server configuration''))"

definition reenable_circuit :: "bool \<Rightarrow> uuid \<Rightarrow> uuid \<Rightarrow> power_db \<Rightarrow> (api_error, unit) result \<times> power_db" where
  "reenable_circuit enabled staff cid db =
     (case require_power_enabled enabled of
        Some e \<Rightarrow> (Inl e, db)
      | None \<Rightarrow>
          (case clear_circuit_lockout cid (Some staff) db of
             (n, db1) \<Rightarrow>
               if n = 0 then (Inl (NotFound ''Circuit not found''), db1)
               else (Inr (), write_audit (EmergencyLockoutClearedCircuit cid staff) db1)))"

definition reenable_tool ::
  "bool \<Rightarrow> tool_row list \<Rightarrow> uuid \<Rightarrow> uuid \<Rightarrow> power_db \<Rightarrow> (api_error, unit) result \<times> power_db" where
  "reenable_tool enabled ts staff tid db =
     (case require_power_enabled enabled of
        Some e \<Rightarrow> (Inl e, db)
      | None \<Rightarrow>
          (case find (\<lambda>t. tr_id t = tid) ts of
             None \<Rightarrow> (Inl (NotFound ''Tool not found''), db)
           | Some _ \<Rightarrow>
               (Inr (), write_audit (EmergencyLockoutClearedTool tid staff) (clear_tool_lockout tid db))))"

section \<open>The circuit tree\<close>

record circuit_request =
  cr_breaker_label :: "string option"
  cr_voltage_rating :: "int option"
  cr_amperage_limit :: "rat option"
  cr_parent :: "uuid option option"

definition circuit_ancestors :: "power_db \<Rightarrow> uuid \<Rightarrow> (database_error, power_circuit list) result" where
  "circuit_ancestors db cid =
     (case find_circuit db cid of
        None \<Rightarrow> Inl (Diesel DieselNotFound ''Record not found'')
      | Some c \<Rightarrow> ancestors_loop (find_circuit db) pc_parent_circuit_id
                   ''power circuit ancestor chain exceeded 32 levels'' 32 (pc_parent_circuit_id c) [])"

text \<open>\<open>cid\<close> is the id the database generates; \<open>trim\<close> is \<^verbatim>\<open>str::trim\<close>.\<close>

definition create_circuit ::
  "(string \<Rightarrow> string) \<Rightarrow> bool \<Rightarrow> uuid \<Rightarrow> string \<Rightarrow> int \<Rightarrow> rat \<Rightarrow> uuid option \<Rightarrow> power_db \<Rightarrow>
   (api_error, power_circuit) result \<times> power_db" where
  "create_circuit trim enabled cid label voltage limit parent db =
     (case require_power_enabled enabled of
        Some e \<Rightarrow> (Inl e, db)
      | None \<Rightarrow>
          if trim label = [] then (Inl (BadRequest ''breaker_label is required''), db)
          else if voltage \<le> 0 then (Inl (BadRequest ''voltage_rating must be positive''), db)
          else if limit \<le> 0 then (Inl (BadRequest ''amperage_limit must be positive''), db)
          else if is_some_and parent (\<lambda>p. find_circuit db p = None)
          then (Inl (BadRequest ''parent_circuit_id does not exist''), db)
          else
            let c = \<lparr>pc_id = cid, pc_breaker_label = trim label, pc_voltage_rating = voltage,
                     pc_amperage_limit = limit, pc_parent_circuit_id = parent, pc_locked_out = False,
                     pc_lockout_reason = None, pc_lockout_source = None, pc_locked_out_at = None,
                     pc_locked_out_by = None\<rparr>
            in (Inr c, write_audit (PowerCircuitCreated cid) (db\<lparr>pd_circuits := pd_circuits db @ [c]\<rparr>)))"

definition change_circuit :: "(string \<Rightarrow> string) \<Rightarrow> circuit_request \<Rightarrow> power_circuit \<Rightarrow> power_circuit" where
  "change_circuit trim req c =
     c\<lparr>pc_breaker_label := unwrap_or (map_option trim (cr_breaker_label req)) (pc_breaker_label c),
       pc_voltage_rating := unwrap_or (cr_voltage_rating req) (pc_voltage_rating c),
       pc_amperage_limit := unwrap_or (cr_amperage_limit req) (pc_amperage_limit c),
       pc_parent_circuit_id := unwrap_or (cr_parent req) (pc_parent_circuit_id c)\<rparr>"

definition update_circuit ::
  "(string \<Rightarrow> string) \<Rightarrow> bool \<Rightarrow> uuid \<Rightarrow> circuit_request \<Rightarrow> power_db \<Rightarrow> (api_error, unit) result \<times> power_db" where
  "update_circuit trim enabled cid req db =
     (case require_power_enabled enabled of
        Some e \<Rightarrow> (Inl e, db)
      | None \<Rightarrow>
          if find_circuit db cid = None then (Inl (NotFound ''Requested resource not found''), db)
          else if is_some_and (cr_voltage_rating req) (\<lambda>v. v \<le> 0)
          then (Inl (BadRequest ''voltage_rating must be positive''), db)
          else if is_some_and (cr_amperage_limit req) (\<lambda>a. a \<le> 0)
          then (Inl (BadRequest ''amperage_limit must be positive''), db)
          else
            let done = (Inr (), write_audit (PowerCircuitUpdated cid)
                          (snd (update_circuits (\<lambda>c. pc_id c = cid) (change_circuit trim req) db)))
            in (case cr_parent req of
                  Some (Some parent) \<Rightarrow>
                    if parent = cid
                    then (Inl (BadRequest ''A circuit can't be its own upstream trunk''), db)
                    else if find_circuit db parent = None
                    then (Inl (BadRequest ''parent_circuit_id does not exist''), db)
                    else
                      (case circuit_ancestors db parent of
                         Inl e \<Rightarrow> (Inl (from_database_error e), db)
                       | Inr chain \<Rightarrow>
                           if list_ex (\<lambda>c. pc_id c = cid) chain
                           then (Inl (BadRequest ''Change would create a cycle in the circuit hierarchy''), db)
                           else done)
                | _ \<Rightarrow> done))"

definition delete_circuit :: "uuid \<Rightarrow> power_db \<Rightarrow> (api_error, unit) result \<times> power_db" where
  "delete_circuit cid db =
     (if list_ex (\<lambda>c. pc_parent_circuit_id c = Some cid) (pd_circuits db) \<or>
         list_ex (\<lambda>p. po_circuit_id p = cid) (pd_outlets db)
      then (Inl (Conflict ''This circuit still has sub-circuits or outlets; move or delete them first''), db)
      else if find_circuit db cid = None then (Inl (NotFound ''Circuit not found''), db)
      else (Inr (), write_audit (PowerCircuitDeleted cid)
                      (db\<lparr>pd_circuits := filter (\<lambda>c. pc_id c \<noteq> cid) (pd_circuits db)\<rparr>)))"

end
