(* ===== verification/Tool_Access.thy ===== *)
theory Tool_Access
  imports Power_Server Access
begin

text \<open>
  Who may use a tool, as the server decides it: the card lookup, the training gate and
  \<^verbatim>\<open>user_is_authorized_for_tool\<close> of \<^verbatim>\<open>server/src/database.rs\<close>, and the two builders of a device's
  allow-list, \<^verbatim>\<open>get_toolguard_sync_data\<close> there and \<^verbatim>\<open>build_sync_payload\<close> in \<^verbatim>\<open>api/toolguard.rs\<close>. The
  tables these read are the record \<open>shop\<close>; its queries do not fail (the faults of the device
  tables are in \<open>Shop\<close>). The card cipher is a pair of functions, the blind index and the
  hex-encoded wire digest; the text Postgres gives a non-string JSON value is \<open>show_json\<close>.
\<close>

section \<open>Tables\<close>

datatype card_status = CsActive | CsDisabled | CsReleased

fun grants_access :: "card_status \<Rightarrow> bool" where
  "grants_access CsActive = True"
| "grants_access CsDisabled = False"
| "grants_access CsReleased = False"

record user_card =
  uc_id :: uuid
  uc_user_id :: uuid
  uc_code_bidx :: string
  uc_wire_digest :: "string option"
  uc_status :: card_status
  uc_created_at :: instant
  uc_last_used_at :: "instant option"

record shop_user =
  us_id :: uuid
  us_full_name :: string
  us_is_active :: bool
  us_profile :: json

record training_progress =
  tp_user_id :: uuid
  tp_step_id :: uuid
  tp_completed :: bool
  tp_expires_at :: "instant option"

record training_waiver =
  tw_user_id :: uuid
  tw_tool_id :: uuid
  tw_expires_at :: "instant option"

record tool_event =
  te_tool_id :: uuid
  te_event_type :: string
  te_old_status :: "tool_status option"
  te_new_status :: "tool_status option"
  te_user_id :: "uuid option"
  te_created_at :: instant

record resource_row =
  rr_id :: uuid
  rr_kind :: string
  rr_profile :: string

record door_access_event =
  dae_door_id :: uuid
  dae_user_id :: "uuid option"
  dae_card_id :: "uuid option"
  dae_granted :: bool
  dae_reason :: "string option"
  dae_occurred_at :: instant

record resource_session =
  rs_resource_id :: uuid
  rs_user_id :: "uuid option"
  rs_device_id :: "uuid option"
  rs_opened_at :: instant
  rs_closed_at :: "instant option"
  rs_closed_by :: "string option"

datatype shop_audit =
    ToolAccessDenied string "uuid option" string
  | RevokedCardPresented string uuid uuid
  | ToolActivated uuid uuid
  | ToolDeactivated "uuid option" "uuid option"
  | ToolUsageLogged uuid uuid
  | ToolReleasedBySweep uuid "uuid option"
  | ResourceSessionReleasedBySweep uuid "uuid option"
  | DoorUnlockedCard uuid "uuid option"
  | DoorUnlockDenied uuid "uuid option" string
  | ResourceUpdated uuid string
  | ResourceSessionEnded uuid string bool

record shop =
  sh_devices :: device_db
  sh_power :: power_db
  sh_billing :: billing_db
  sh_users :: "shop_user list"
  sh_cards :: "user_card list"
  sh_steps :: "(uuid \<times> uuid) list"
  sh_progress :: "training_progress list"
  sh_waivers :: "training_waiver list"
  sh_schedules :: "schedule list"
  sh_events :: "tool_event list"
  sh_sessions :: "resource_session list"
  sh_resources :: "resource_row list"
  sh_door_events :: "door_access_event list"
  sh_audit :: "shop_audit list"

record card_cipher =
  cc_blind_index :: "string \<Rightarrow> string"
  cc_wire_digest :: "string \<Rightarrow> string option"

abbreviation shop_tools :: "shop \<Rightarrow> tool_row list" where
  "shop_tools s \<equiv> dd_tools (sh_devices s)"

section \<open>Cards\<close>

text \<open>The predicate \<^verbatim>\<open>profile->>field = $1 OR profile->field ? $1\<close> on one profile.\<close>

definition profile_matches :: "(json \<Rightarrow> string) \<Rightarrow> json option \<Rightarrow> string \<Rightarrow> bool" where
  "profile_matches show_json v val \<longleftrightarrow>
     (case v of
        None \<Rightarrow> False
      | Some JNull \<Rightarrow> False
      | Some (JStr t) \<Rightarrow> t = val
      | Some (JArr xs) \<Rightarrow> show_json (JArr xs) = val \<or> JStr val \<in> set xs
      | Some (JObj kvs) \<Rightarrow> show_json (JObj kvs) = val \<or> val \<in> fst ` set kvs
      | Some w \<Rightarrow> show_json w = val)"

definition identifier_ok :: "string \<Rightarrow> bool" where
  "identifier_ok f \<longleftrightarrow> f \<noteq> [] \<and>
     list_all (\<lambda>c. (CHR ''a'' \<le> c \<and> c \<le> CHR ''z'') \<or> (CHR ''A'' \<le> c \<and> c \<le> CHR ''Z'') \<or>
                   (CHR ''0'' \<le> c \<and> c \<le> CHR ''9'') \<or> c = CHR ''_'') f"

definition find_user_by_profile_field ::
  "(json \<Rightarrow> string) \<Rightarrow> shop \<Rightarrow> string \<Rightarrow> string \<Rightarrow> (database_error, shop_user option) result" where
  "find_user_by_profile_field show_json s field val =
     (if \<not> identifier_ok field
      then Inl (OtherDb (''invalid profile field name (must be [A-Za-z0-9_]+): '' @ field))
      else Inr (find (\<lambda>u. profile_matches show_json (json_get (us_profile u) field) val) (sh_users s)))"

datatype card_resolution =
    CardActive shop_user "user_card option"
  | CardRevoked shop_user user_card
  | CardUnknown

definition latest_card :: "user_card list \<Rightarrow> user_card option" where
  "latest_card cs = (case sort_key (\<lambda>c. - uc_created_at c) cs of [] \<Rightarrow> None | c # _ \<Rightarrow> Some c)"

definition find_card :: "shop \<Rightarrow> string \<Rightarrow> user_card option" where
  "find_card s bidx =
     (case find (\<lambda>c. uc_code_bidx c = bidx \<and> uc_status c \<noteq> CsReleased) (sh_cards s) of
        Some c \<Rightarrow> Some c
      | None \<Rightarrow> latest_card (filter (\<lambda>c. uc_code_bidx c = bidx \<and> uc_status c = CsReleased) (sh_cards s)))"

definition resolve_card ::
  "(json \<Rightarrow> string) \<Rightarrow> string \<Rightarrow> card_cipher option \<Rightarrow> shop \<Rightarrow> string \<Rightarrow> (database_error, card_resolution) result" where
  "resolve_card show_json field cipher s code =
     (case Option.bind cipher (\<lambda>c. find_card s (cc_blind_index c code)) of
        Some crd \<Rightarrow>
          (case find (\<lambda>u. us_id u = uc_user_id crd) (sh_users s) of
             None \<Rightarrow> Inl (Diesel DieselNotFound ''Record not found'')
           | Some u \<Rightarrow> Inr (if grants_access (uc_status crd) then CardActive u (Some crd)
                            else CardRevoked u crd))
      | None \<Rightarrow>
          (case find_user_by_profile_field show_json s field code of
             Inl e \<Rightarrow> Inl e
           | Inr (Some u) \<Rightarrow> Inr (CardActive u None)
           | Inr None \<Rightarrow> Inr CardUnknown))"

definition touch_card_last_used :: "uuid \<Rightarrow> instant \<Rightarrow> shop \<Rightarrow> shop" where
  "touch_card_last_used cid now s =
     s\<lparr>sh_cards := map (\<lambda>c. if uc_id c = cid then c\<lparr>uc_last_used_at := Some now\<rparr> else c) (sh_cards s)\<rparr>"

section \<open>Training\<close>

definition tool_has_training_steps :: "shop \<Rightarrow> uuid \<Rightarrow> bool" where
  "tool_has_training_steps s tid \<longleftrightarrow> list_ex (\<lambda>(_, t). t = tid) (sh_steps s)"

fun steps_completed :: "training_progress list \<Rightarrow> uuid \<Rightarrow> instant \<Rightarrow> uuid list \<Rightarrow> bool" where
  "steps_completed ps uid now [] = True"
| "steps_completed ps uid now (sid # sids) =
     (case find (\<lambda>p. tp_user_id p = uid \<and> tp_step_id p = sid) ps of
        None \<Rightarrow> False
      | Some p \<Rightarrow>
          if \<not> tp_completed p then False
          else if is_some_and (tp_expires_at p) (\<lambda>e. e < now) then False
          else steps_completed ps uid now sids)"

definition user_has_completed_all_training_steps :: "shop \<Rightarrow> uuid \<Rightarrow> uuid \<Rightarrow> instant \<Rightarrow> bool" where
  "user_has_completed_all_training_steps s uid tid now =
     (let all_steps = map fst (filter (\<lambda>(_, t). t = tid) (sh_steps s))
      in if all_steps = [] then True else steps_completed (sh_progress s) uid now all_steps)"

definition user_has_active_waiver :: "shop \<Rightarrow> uuid \<Rightarrow> uuid \<Rightarrow> instant \<Rightarrow> bool" where
  "user_has_active_waiver s uid tid now \<longleftrightarrow>
     list_ex (\<lambda>w. tw_user_id w = uid \<and> tw_tool_id w = tid \<and> is_none_or (tw_expires_at w) (\<lambda>e. now < e))
       (sh_waivers s)"

definition training_ok :: "shop \<Rightarrow> uuid \<Rightarrow> uuid \<Rightarrow> bool \<Rightarrow> instant \<Rightarrow> bool" where
  "training_ok s uid tid requires_training now =
     (let has_steps = tool_has_training_steps s tid
      in if \<not> has_steps \<and> \<not> requires_training then True
         else if user_has_active_waiver s uid tid now then True
         else if has_steps then user_has_completed_all_training_steps s uid tid now
         else False)"

text \<open>The decision runs through the access engine, with no rule, no schedule and an empty graph.\<close>

definition user_is_authorized_for_tool ::
  "text_ops \<Rightarrow> sched_env \<Rightarrow> shop \<Rightarrow> uuid \<Rightarrow> uuid \<Rightarrow> bool \<Rightarrow> instant \<Rightarrow> bool" where
  "user_is_authorized_for_tool x v s uid tid requires_training now =
     (let policy = \<lparr>ep_locked_out = tool_is_locked_out (shop_tools s) (sh_power s) tid,
            ep_unavailable = None, ep_default_effect = Open, ep_schedule_id = None,
            ep_training_ok = Some (training_ok s uid tid requires_training now), ep_metered_ok = None\<rparr>;
          pr = \<lparr>pr_user_id = Some uid, pr_level = 0, pr_card_digests = {}, pr_is_active = True\<rparr>
      in may x v pr policy [] [] now (from_rows [] [] []) Use = MAllow)"

section \<open>The allow-list\<close>

definition profile_values :: "json option \<Rightarrow> string list" where
  "profile_values v =
     (case v of
        Some (JStr t) \<Rightarrow> if t = [] then [] else [t]
      | Some (JArr xs) \<Rightarrow> filter (\<lambda>t. t \<noteq> []) (List.map_filter json_as_str xs)
      | _ \<Rightarrow> [])"

fun push_new :: "'a list \<Rightarrow> 'a list \<Rightarrow> 'a list" where
  "push_new acc [] = acc"
| "push_new acc (d # ds) = push_new (if d \<in> set acc then acc else acc @ [d]) ds"

text \<open>The identifiers a device is given for a user: the profile's values, then the active cards.\<close>

definition user_digests :: "string \<Rightarrow> card_cipher option \<Rightarrow> shop \<Rightarrow> shop_user \<Rightarrow> string list" where
  "user_digests field cipher s u =
     (let legacy = (case cipher of
            None \<Rightarrow> []
          | Some c \<Rightarrow> List.map_filter (cc_wire_digest c) (profile_values (json_get (us_profile u) field)));
          cards = List.map_filter uc_wire_digest
                    (filter (\<lambda>c. uc_status c = CsActive \<and> uc_user_id c = us_id u) (sh_cards s))
      in push_new (push_new [] legacy) cards)"

definition rate_for :: "billing_db \<Rightarrow> uuid \<Rightarrow> tool \<Rightarrow> rat option \<times> rat option \<times> int option" where
  "rate_for b uid t =
     (case b_tiers b (uid, tl_id t) of
        Some tier \<Rightarrow> (er_flat_fee tier, er_rate_per_min tier,
                      case er_max_session_minutes tier of Some m \<Rightarrow> Some m | None \<Rightarrow> usage_max_session_minutes t)
      | None \<Rightarrow> (usage_flat_fee t, usage_rate_per_min t, usage_max_session_minutes t))"

definition sync_authorized ::
  "text_ops \<Rightarrow> sched_env \<Rightarrow> (rat \<Rightarrow> rat) \<Rightarrow> billing_config option \<Rightarrow> shop \<Rightarrow> instant \<Rightarrow> shop_user \<Rightarrow> tool_row \<Rightarrow> bool" where
  "sync_authorized x v rnd gate s now u t =
     (user_is_authorized_for_tool x v s (us_id u) (tr_id t) (tr_requires_training t) now \<and>
      (case gate of
         None \<Rightarrow> True
       | Some c \<Rightarrow>
           (case rate_for (sh_billing s) (us_id u) (tr_billing t) of
              (flat, rate, cap) \<Rightarrow>
                authorizes_rate rnd c flat rate cap (available_balance (sh_billing s) (us_id u))
                  (us_id u \<in> b_members (sh_billing s)))))"

definition bound_tools :: "shop \<Rightarrow> uuid \<Rightarrow> tool_row list" where
  "bound_tools s dev =
     filter (\<lambda>t. list_ex (\<lambda>b. br_device_id b = dev \<and> br_resource_id b = tr_id t) (dd_bindings (sh_devices s)))
       (shop_tools s)"

fun sync_users_loop ::
  "(shop_user \<Rightarrow> string list) \<Rightarrow> (shop_user \<Rightarrow> uuid list) \<Rightarrow> shop_user list \<Rightarrow> sync_user list" where
  "sync_users_loop digests allowed [] = []"
| "sync_users_loop digests allowed (u # us) =
     (if digests u = [] then sync_users_loop digests allowed us
      else if allowed u = [] then sync_users_loop digests allowed us
      else map (\<lambda>d. \<lparr>su_profile_field_digest = d, su_full_name = us_full_name u,
                     su_is_active = us_is_active u, su_authorized_tool_ids = allowed u\<rparr>) (digests u)
           @ sync_users_loop digests allowed us)"

text \<open>\<open>tool_name\<close> gives a tool's display name.\<close>

definition get_toolguard_sync_data ::
  "text_ops \<Rightarrow> sched_env \<Rightarrow> (rat \<Rightarrow> rat) \<Rightarrow> (uuid \<Rightarrow> string) \<Rightarrow> string \<Rightarrow> card_cipher option \<Rightarrow>
   billing_config option \<Rightarrow> shop \<Rightarrow> instant \<Rightarrow> uuid \<Rightarrow> sync_user list \<times> sync_tool list" where
  "get_toolguard_sync_data x v rnd tool_name field cipher gate s now dev =
     (let tools = bound_tools s dev;
          allowed = (\<lambda>u. map tr_id (filter (sync_authorized x v rnd gate s now u) tools));
          digests = user_digests field cipher s;
          listed = (\<lambda>t. list_ex (\<lambda>u. digests u \<noteq> [] \<and> tr_id t \<in> set (allowed u)) (sh_users s))
      in (sync_users_loop digests allowed (sh_users s),
          map (\<lambda>t. \<lparr>st_id = tr_id t, st_external_id = tr_external_id t, st_name = tool_name (tr_id t),
                    st_status = tr_status t,
                    st_requires_online = (case gate of Some c \<Rightarrow> gate_requires_online c (tr_billing t) | None \<Rightarrow> False)\<rparr>)
            (filter listed tools)))"

text \<open>The tools whose schedule is not open: a schedule that cannot be resolved closes its tool.\<close>

definition tool_closed_now :: "sched_env \<Rightarrow> schedule list \<Rightarrow> instant \<Rightarrow> tool_row \<Rightarrow> bool" where
  "tool_closed_now v schedules now t =
     (case tr_schedule_id t of
        None \<Rightarrow> False
      | Some sid \<Rightarrow>
          (case find (\<lambda>c. sch_id c = sid) schedules of
             None \<Rightarrow> True
           | Some sched \<Rightarrow>
               (case parse_intervals v (sch_intervals sched) of
                  None \<Rightarrow> True
                | Some ivs \<Rightarrow> \<not> matches_at ivs (site_tz v) now)))"

definition closed_tool_ids_now :: "sched_env \<Rightarrow> shop \<Rightarrow> instant \<Rightarrow> uuid set" where
  "closed_tool_ids_now v s now =
     (if sh_schedules s = [] then {}
      else tr_id ` set (filter (tool_closed_now v (sh_schedules s) now) (shop_tools s)))"

definition build_sync_payload ::
  "text_ops \<Rightarrow> sched_env \<Rightarrow> (rat \<Rightarrow> rat) \<Rightarrow> (uuid \<Rightarrow> string) \<Rightarrow> string \<Rightarrow> card_cipher option \<Rightarrow>
   billing_config option \<Rightarrow> shop \<Rightarrow> instant \<Rightarrow> uuid \<Rightarrow> sync_payload" where
  "build_sync_payload x v rnd tool_name field cipher gate s now dev =
     (case get_toolguard_sync_data x v rnd tool_name field cipher gate s now dev of
        (users, tools) \<Rightarrow>
          (let closed = closed_tool_ids_now v s now
           in \<lparr>sp_device_id = dev, sp_profile_field = field,
               sp_tools = filter (\<lambda>t. st_id t \<notin> closed) tools,
               sp_users = map (\<lambda>u. u\<lparr>su_authorized_tool_ids := filter (\<lambda>i. i \<notin> closed) (su_authorized_tool_ids u)\<rparr>)
                            users\<rparr>))"

end
