(* ===== verification/Tool_Service.thy ===== *)
theory Tool_Service
  imports Tool_Access Doors
begin

text \<open>
  What a device may do to a resource: a scan, a stop and a usage report of
  \<^verbatim>\<open>server/src/api/resources.rs\<close> over \<^verbatim>\<open>activate_tool\<close>, \<^verbatim>\<open>deactivate_tool\<close> and
  \<^verbatim>\<open>report_tool_usage\<close> of \<^verbatim>\<open>server/src/api/toolguard.rs\<close>, the boot reset, the stop by an
  administrator, and the session sweep of \<^verbatim>\<open>server/src/session_sweep.rs\<close>. The tool a handler looked up
  is an argument of its own, because the row may have changed when the handler writes. Writes to the
  audit log do not fail; the pushes to the devices that follow a change are left out.
\<close>

section \<open>The service's environment and its answers\<close>

text \<open>
  The configuration and the parameters; \<open>te_billing\<close> is \<open>None\<close> when the billing service was not
  built. \<open>te_show2\<close> prints an amount with two places, \<open>te_hash\<close> is the hash of a token.
\<close>

record tool_env =
  te_text :: text_ops
  te_sched :: sched_env
  te_rnd :: "rat \<Rightarrow> rat"
  te_show2 :: "rat \<Rightarrow> string"
  te_fmt3 :: "rat \<Rightarrow> rat"
  te_show_json :: "json \<Rightarrow> string"
  te_field :: string
  te_cipher :: "card_cipher option"
  te_hash :: "string \<Rightarrow> string"
  te_billing :: "billing_config option"

record toolguard_response =
  tgr_status :: string
  tgr_message :: "string option"
  tgr_authorized :: "bool option"
  tgr_strike :: "local_strike option"

definition bare :: "string \<Rightarrow> string option \<Rightarrow> toolguard_response" where
  "bare st msg = \<lparr>tgr_status = st, tgr_message = msg, tgr_authorized = None, tgr_strike = None\<rparr>"

definition ok_with_message :: "string \<Rightarrow> toolguard_response" where
  "ok_with_message msg = bare ''ok'' (Some msg)"

definition error_response :: "string \<Rightarrow> toolguard_response" where
  "error_response msg = bare ''error'' (Some msg)"

definition resource_authorized :: "local_strike option \<Rightarrow> toolguard_response" where
  "resource_authorized strike =
     (bare ''ok'' (Some ''Authorized''))\<lparr>tgr_authorized := Some True, tgr_strike := strike\<rparr>"

definition resource_denied :: "string \<Rightarrow> toolguard_response" where
  "resource_denied reason = (bare ''error'' (Some reason))\<lparr>tgr_authorized := Some False\<rparr>"

type_synonym reply = "(api_error, toolguard_response) result"

definition shop_log :: "shop_audit \<Rightarrow> shop \<Rightarrow> shop" where
  "shop_log e s = s\<lparr>sh_audit := sh_audit s @ [e]\<rparr>"

text \<open>A refusal: the audit row, then the answer.\<close>

definition refuse :: "string \<Rightarrow> uuid option \<Rightarrow> string \<Rightarrow> string \<Rightarrow> shop \<Rightarrow> reply \<times> shop" where
  "refuse name uid logged told s =
     (Inr (resource_denied told), shop_log (ToolAccessDenied name uid logged) s)"

section \<open>The tool row, its events and its member\<close>

definition find_tool :: "shop \<Rightarrow> uuid \<Rightarrow> tool_row option" where
  "find_tool s tid = find (\<lambda>t. tr_id t = tid) (shop_tools s)"

definition set_tool_status :: "uuid \<Rightarrow> tool_status \<Rightarrow> instant \<Rightarrow> shop \<Rightarrow> shop" where
  "set_tool_status tid st now s =
     s\<lparr>sh_devices := (sh_devices s)\<lparr>dd_tools :=
        map (\<lambda>t. if tr_id t = tid then t\<lparr>tr_status := st, tr_updated_at := now\<rparr> else t) (shop_tools s)\<rparr>\<rparr>"

definition update_tool_status :: "uuid \<Rightarrow> tool_status \<Rightarrow> instant \<Rightarrow> shop \<Rightarrow> (database_error, unit) result \<times> shop" where
  "update_tool_status tid st now s =
     (case find_tool s tid of
        None \<Rightarrow> (Inl (Diesel DieselNotFound ''Record not found''), s)
      | Some _ \<Rightarrow> (Inr (), set_tool_status tid st now s))"

text \<open>The compare-and-set from idle to in use.\<close>

definition try_activate_tool :: "uuid \<Rightarrow> instant \<Rightarrow> shop \<Rightarrow> bool \<times> shop" where
  "try_activate_tool tid now s =
     (case find_tool s tid of
        Some t \<Rightarrow> if tr_status t = Idle then (True, set_tool_status tid InUse now s) else (False, s)
      | None \<Rightarrow> (False, s))"

definition create_tool_event :: "tool_event \<Rightarrow> shop \<Rightarrow> shop" where
  "create_tool_event e s = s\<lparr>sh_events := sh_events s @ [e]\<rparr>"

definition latest_activation :: "shop \<Rightarrow> uuid \<Rightarrow> tool_event option" where
  "latest_activation s tid =
     (case sort_key (\<lambda>e. - te_created_at e)
             (filter (\<lambda>e. te_tool_id e = tid \<and> te_event_type e = ''activated'') (sh_events s)) of
        [] \<Rightarrow> None
      | e # _ \<Rightarrow> Some e)"

definition get_inuse_tools :: "shop \<Rightarrow> tool_row list" where
  "get_inuse_tools s = filter (\<lambda>t. tr_status t = InUse) (shop_tools s)"

definition find_shop_user :: "shop \<Rightarrow> uuid \<Rightarrow> shop_user option" where
  "find_shop_user s uid = find (\<lambda>u. us_id u = uid) (sh_users s)"

definition signed_on_user :: "shop \<Rightarrow> tool_row \<Rightarrow> shop_user option" where
  "signed_on_user s t =
     (let member = (case open_tool_session_for_tool (sh_billing s) (tr_id t) of
                      Some session \<Rightarrow> Some (tus_user_id session)
                    | None \<Rightarrow>
                        if tr_status t = InUse then Option.bind (latest_activation s (tr_id t)) te_user_id
                        else None)
      in Option.bind member (find_shop_user s))"

text \<open>The card lookup of the handlers: a failing one is an internal error.\<close>

definition resolve_presented :: "tool_env \<Rightarrow> shop \<Rightarrow> string \<Rightarrow> (api_error, card_resolution) result" where
  "resolve_presented v s code =
     (case resolve_card (te_show_json v) (te_field v) (te_cipher v) s code of
        Inl e \<Rightarrow> Inl (InternalServerError (''Failed to resolve card: '' @ show_database_error e))
      | Inr r \<Rightarrow> Inr r)"

definition touch_presented :: "user_card option \<Rightarrow> instant \<Rightarrow> shop \<Rightarrow> shop" where
  "touch_presented c now s = (case c of Some crd \<Rightarrow> touch_card_last_used (uc_id crd) now s | None \<Rightarrow> s)"

section \<open>Activation\<close>

fun unavailable_message :: "tool_status \<Rightarrow> string option" where
  "unavailable_message Idle = None"
| "unavailable_message InUse = Some ''Tool is already in use''"
| "unavailable_message Maintenance = Some ''Tool is under maintenance''"
| "unavailable_message Broken = Some ''Tool is broken''"
| "unavailable_message Repair = Some ''Tool is in repair''"
| "unavailable_message Retired = Some ''Tool is retired''"

fun denied_message :: "(rat \<Rightarrow> string) \<Rightarrow> denied \<Rightarrow> string" where
  "denied_message sh AlreadyOpen = ''Tool already has an open session''"
| "denied_message sh MembershipRequired = ''Membership required''"
| "denied_message sh (InsufficientBalance available required) =
     ''Insufficient balance: '' @ sh available @ '' available, '' @ sh required @ '' required''"

definition tool_is_metered :: "tool_row \<Rightarrow> bool" where
  "tool_is_metered t \<longleftrightarrow> is_metered (usage_flat_fee (tr_billing t)) (usage_rate_per_min (tr_billing t))"

text \<open>The billing configuration that applies to a tool in the handlers.\<close>

definition metering :: "tool_env \<Rightarrow> tool_row \<Rightarrow> billing_config option" where
  "metering v t = (case te_billing v of
                     Some c \<Rightarrow> if bc_enabled c \<and> tool_is_metered t then Some c else None
                   | None \<Rightarrow> None)"

text \<open>Everything after the money: the compare-and-set, the event, the audit row.\<close>

definition finish_activation ::
  "shop_user \<Rightarrow> tool_row \<Rightarrow> string \<Rightarrow> instant \<Rightarrow> shop \<Rightarrow> reply \<times> shop" where
  "finish_activation u t name now s =
     (case try_activate_tool (tr_id t) now s of
        (False, s1) \<Rightarrow> refuse name (Some (us_id u)) ''Tool is already in use'' ''Tool is already in use'' s1
      | (True, s1) \<Rightarrow>
          (Inr (resource_authorized None),
           shop_log (ToolActivated (us_id u) (tr_id t))
             (create_tool_event \<lparr>te_tool_id = tr_id t, te_event_type = ''activated'',
                te_old_status = Some (tr_status t), te_new_status = Some InUse,
                te_user_id = Some (us_id u), te_created_at = now\<rparr> s1)))"

text \<open>\<open>sid\<close> is the id the database would give a billing session.\<close>

definition activate_tool ::
  "tool_env \<Rightarrow> tool_row option \<Rightarrow> string \<Rightarrow> string \<Rightarrow> uuid \<Rightarrow> instant \<Rightarrow> shop \<Rightarrow> reply \<times> shop" where
  "activate_tool v tool_lookup crd name sid now s =
     (case resolve_presented v s crd of
        Inl e \<Rightarrow> (Inl e, s)
      | Inr CardUnknown \<Rightarrow> refuse name None ''Unknown card'' ''Unknown card'' s
      | Inr (CardRevoked u c) \<Rightarrow>
          refuse name (Some (us_id u)) ''Card revoked'' ''Card not authorized''
            (shop_log (RevokedCardPresented name (us_id u) (uc_id c)) s)
      | Inr (CardActive u c) \<Rightarrow>
          (let s1 = touch_presented c now s
           in if \<not> us_is_active u then refuse name (Some (us_id u)) ''User is not active'' ''User is not active'' s1
              else
                (case tool_lookup of
                   None \<Rightarrow> refuse name (Some (us_id u)) ''Tool not found'' ''Tool not found'' s1
                 | Some t \<Rightarrow>
                     (case unavailable_message (tr_status t) of
                        Some msg \<Rightarrow> refuse name (Some (us_id u)) msg msg s1
                      | None \<Rightarrow>
                          if \<not> user_is_authorized_for_tool (te_text v) (te_sched v) s1 (us_id u) (tr_id t)
                                 (tr_requires_training t) now
                          then refuse name (Some (us_id u)) ''Training required'' ''Training required'' s1
                          else
                            (case metering v t of
                               None \<Rightarrow> finish_activation u t name now s1
                             | Some c \<Rightarrow>
                                 (case billing_open_session (te_rnd v) c sid (us_id u) (tr_billing t) now (sh_billing s1) of
                                    (Inl d, b) \<Rightarrow>
                                      refuse name (Some (us_id u)) (denied_message (te_show2 v) d)
                                        (denied_message (te_show2 v) d) (s1\<lparr>sh_billing := b\<rparr>)
                                  | (Inr _, b) \<Rightarrow> finish_activation u t name now (s1\<lparr>sh_billing := b\<rparr>)))))))"

section \<open>Stopping\<close>

definition settle_if_metered :: "tool_env \<Rightarrow> tool_row \<Rightarrow> string \<Rightarrow> instant \<Rightarrow> shop \<Rightarrow> shop" where
  "settle_if_metered v t st now s =
     (case metering v t of
        None \<Rightarrow> s
      | Some c \<Rightarrow>
          s\<lparr>sh_billing := snd (settle_open_session_for_tool (te_text v) (te_rnd v) c (tr_billing t) st now (sh_billing s))\<rparr>)"

text \<open>The stop of \<open>t\<close>, once it is known who is recorded for it.\<close>

definition stop_tool ::
  "tool_env \<Rightarrow> tool_row \<Rightarrow> shop_user option \<Rightarrow> instant \<Rightarrow> shop \<Rightarrow> reply \<times> shop" where
  "stop_tool v t u now s =
     (case update_tool_status (tr_id t) Idle now s of
        (Inl e, s1) \<Rightarrow> (Inl (InternalServerError (''Failed to update tool status: '' @ show_database_error e)), s1)
      | (Inr _, s1) \<Rightarrow>
          (Inr (ok_with_message ''Tool deactivated''),
           shop_log (ToolDeactivated (map_option us_id u) (Some (tr_id t)))
             (create_tool_event \<lparr>te_tool_id = tr_id t, te_event_type = ''deactivated'',
                te_old_status = Some (tr_status t), te_new_status = Some Idle,
                te_user_id = map_option us_id u, te_created_at = now\<rparr>
               (settle_if_metered v t ''settled'' now s1))))"

definition deactivate_tool ::
  "tool_env \<Rightarrow> tool_row option \<Rightarrow> string option \<Rightarrow> string \<Rightarrow> instant \<Rightarrow> shop \<Rightarrow> reply \<times> shop" where
  "deactivate_tool v tool_lookup crd name now s =
     (let named = (case crd of
                     None \<Rightarrow> Inr (Some None)
                   | Some code \<Rightarrow>
                       (case resolve_presented v s code of
                          Inl e \<Rightarrow> Inl e
                        | Inr (CardActive u _) \<Rightarrow> Inr (Some (Some u))
                        | Inr (CardRevoked u _) \<Rightarrow> Inr (Some (Some u))
                        | Inr CardUnknown \<Rightarrow> Inr None))
      in case named of
           Inl e \<Rightarrow> (Inl e, s)
         | Inr None \<Rightarrow> (Inr (error_response ''Unknown card''), s)
         | Inr (Some user) \<Rightarrow>
             (case tool_lookup of
                None \<Rightarrow> (Inr (error_response ''Tool not found''), s)
              | Some t \<Rightarrow>
                  stop_tool v t (case user of Some u \<Rightarrow> Some u | None \<Rightarrow> signed_on_user s t) now s))"

section \<open>Usage\<close>

text \<open>A report: the seconds are \<open>None\<close> when the \<^verbatim>\<open>f32\<close> is not finite.\<close>

record usage_request =
  ur_card :: "string option"
  ur_tool_id :: string
  ur_seconds :: "rat option"
  ur_active_seconds :: "rat option option"

definition record_tool_usage ::
  "tool_env \<Rightarrow> shop_user \<Rightarrow> tool_row \<Rightarrow> usage_request \<Rightarrow> instant \<Rightarrow> shop \<Rightarrow> reply \<times> shop" where
  "record_tool_usage v u t req now s =
     (let logged = (\<lambda>s1. (Inr (ok_with_message ''Usage logged''),
            shop_log (ToolUsageLogged (us_id u) (tr_id t))
              (create_tool_event \<lparr>te_tool_id = tr_id t, te_event_type = ''usage_logged'',
                 te_old_status = None, te_new_status = None, te_user_id = Some (us_id u), te_created_at = now\<rparr> s1)));
          other = (Inr (error_response ''This card did not activate the tool''),
            shop_log (ToolAccessDenied (ur_tool_id req) (Some (us_id u))
              ''Usage report from a card that did not activate this session'') s)
      in case metering v t of
           None \<Rightarrow> logged s
         | Some c \<Rightarrow>
             if is_some_and (open_tool_session_for_tool (sh_billing s) (tr_id t)) (\<lambda>z. tus_user_id z \<noteq> us_id u)
             then other
             else
               (case record_usage (te_fmt3 v) (tr_id t) (ur_seconds req) (ur_active_seconds req) (sh_billing s) of
                  (applied, b) \<Rightarrow>
                    (if \<not> applied
                     then (Inr (error_response ''No open session for this tool''),
                           shop_log (ToolAccessDenied (ur_tool_id req) (Some (us_id u))
                             ''Usage report without an open session (or invalid seconds)'') (s\<lparr>sh_billing := b\<rparr>))
                     else logged (s\<lparr>sh_billing := b\<rparr>))))"

definition report_tool_usage ::
  "tool_env \<Rightarrow> tool_row option \<Rightarrow> usage_request \<Rightarrow> instant \<Rightarrow> shop \<Rightarrow> reply \<times> shop" where
  "report_tool_usage v tool_lookup req now s =
     (let by = (\<lambda>u. (case tool_lookup of
                       None \<Rightarrow> (Inr (error_response ''Tool not found''), s)
                     | Some t \<Rightarrow> record_tool_usage v u t req now s))
      in case ur_card req of
           Some code \<Rightarrow>
             (case resolve_presented v s code of
                Inl e \<Rightarrow> (Inl e, s)
              | Inr (CardActive u _) \<Rightarrow> by u
              | Inr (CardRevoked u _) \<Rightarrow> by u
              | Inr CardUnknown \<Rightarrow> (Inr (error_response ''Unknown card''), s))
         | None \<Rightarrow>
             (case tool_lookup of
                None \<Rightarrow> (Inr (error_response ''Tool not found''), s)
              | Some t \<Rightarrow>
                  (case signed_on_user s t of
                     Some u \<Rightarrow> by u
                   | None \<Rightarrow>
                       (Inr (error_response ''No open session for this tool''),
                        shop_log (ToolAccessDenied (ur_tool_id req) None
                          ''Usage report with no card and no open session'') s))))"

section \<open>Boot reset\<close>

fun reset_tools ::
  "tool_env \<Rightarrow> instant \<Rightarrow> tool_row list \<Rightarrow> shop \<Rightarrow> (api_error, unit) result \<times> shop" where
  "reset_tools v now [] s = (Inr (), s)"
| "reset_tools v now (t # ts) s =
     (case update_tool_status (tr_id t) Idle now s of
        (Inl e, s1) \<Rightarrow>
          (Inl (InternalServerError (''Failed to reset tool '' @ uuid_show (te_text v) (tr_id t) @ '': '' @
             show_database_error e)), s1)
      | (Inr _, s1) \<Rightarrow>
          reset_tools v now ts
            (settle_if_metered v t ''abandoned'' now
              (create_tool_event \<lparr>te_tool_id = tr_id t, te_event_type = ''deactivated'',
                 te_old_status = Some (tr_status t), te_new_status = Some Idle, te_user_id = None,
                 te_created_at = now\<rparr> s1)))"

definition boot_reset :: "tool_env \<Rightarrow> string option \<Rightarrow> instant \<Rightarrow> shop \<Rightarrow> (api_error, nat) result \<times> shop" where
  "boot_reset v header now s =
     (case extract_device_auth (te_hash v) (sh_devices s) header of
        Inl e \<Rightarrow> (Inl e, s)
      | Inr dev \<Rightarrow>
          (let inuse = get_inuse_tools s
           in case reset_tools v now inuse s of
                (Inl e, s1) \<Rightarrow> (Inl e, s1)
              | (Inr _, s1) \<Rightarrow>
                  (Inr (length inuse),
                   if inuse \<noteq> [] then shop_log (ToolDeactivated None None) s1 else s1)))"

end
