(* ===== verification/Resource_Service.thy ===== *)
theory Resource_Service
  imports Tool_Service
begin

text \<open>
  The resource handlers of \<^verbatim>\<open>server/src/api/resources.rs\<close> (scan, stop, usage, the administrator's
  stop, the list of open sessions, the session profile), the session records of
  \<^verbatim>\<open>server/src/database.rs\<close>, and the sweep of \<^verbatim>\<open>server/src/session_sweep.rs\<close>. A request body is
  \<open>None\<close> when it is not a JSON object of the right shape. What a door's decision reads is \<open>door_db\<close>,
  the tables of the door service.
\<close>

definition UNTIL_STOPPED :: string where "UNTIL_STOPPED = ''until_stopped''"
definition MOMENTARY :: string where "MOMENTARY = ''momentary''"

section \<open>Session records\<close>

definition session_open_on :: "uuid \<Rightarrow> resource_session \<Rightarrow> bool" where
  "session_open_on rid z \<longleftrightarrow> rs_resource_id z = rid \<and> rs_closed_at z = None"

text \<open>The insert under the partial unique index: a second session joins the open one.\<close>

definition open_resource_session ::
  "uuid \<Rightarrow> uuid option \<Rightarrow> uuid option \<Rightarrow> instant \<Rightarrow> shop \<Rightarrow> resource_session \<times> shop" where
  "open_resource_session rid uid dev now s =
     (case find (session_open_on rid) (sh_sessions s) of
        Some z \<Rightarrow> (z, s)
      | None \<Rightarrow>
          (let z = \<lparr>rs_resource_id = rid, rs_user_id = uid, rs_device_id = dev, rs_opened_at = now,
                    rs_closed_at = None, rs_closed_by = None\<rparr>
           in (z, s\<lparr>sh_sessions := sh_sessions s @ [z]\<rparr>)))"

definition close_resource_session ::
  "uuid \<Rightarrow> string \<Rightarrow> instant \<Rightarrow> shop \<Rightarrow> resource_session option \<times> shop" where
  "close_resource_session rid closer now s =
     (let close = (\<lambda>z. z\<lparr>rs_closed_at := Some now, rs_closed_by := Some closer\<rparr>)
      in (map_option close (find (session_open_on rid) (sh_sessions s)),
          s\<lparr>sh_sessions := map (\<lambda>z. if session_open_on rid z then close z else z) (sh_sessions s)\<rparr>))"

definition open_resource_sessions :: "shop \<Rightarrow> resource_session list" where
  "open_resource_sessions s = sort_key rs_opened_at (filter (\<lambda>z. rs_closed_at z = None) (sh_sessions s))"

definition get_resource :: "shop \<Rightarrow> uuid \<Rightarrow> resource_row option" where
  "get_resource s rid = find (\<lambda>r. rr_id r = rid) (sh_resources s)"

section \<open>A badge at a door\<close>

text \<open>The principal \<^verbatim>\<open>DoorService::evaluate\<close> builds for a member.\<close>

definition door_principal :: "door_db \<Rightarrow> shop_user \<Rightarrow> principal" where
  "door_principal db u =
     \<lparr>pr_user_id = Some (us_id u), pr_level = unwrap_or (user_levels db (us_id u)) 0,
      pr_card_digests = set (unwrap_or (map_of (cards_by_user db) (us_id u)) []),
      pr_is_active = us_is_active u\<rparr>"

text \<open>Who presented the card, which card, and whether it is revoked.\<close>

fun presented :: "card_resolution \<Rightarrow> shop_user option \<times> uuid option \<times> user_card option" where
  "presented (CardActive u c) = (Some u, map_option uc_id c, None)"
| "presented (CardRevoked u c) = (Some u, Some (uc_id c), Some c)"
| "presented CardUnknown = (None, None, None)"

definition door_verdict ::
  "tool_env \<Rightarrow> door_db \<Rightarrow> instant \<Rightarrow> door \<Rightarrow> shop_user option \<Rightarrow> user_card option \<Rightarrow> bool \<times> string option" where
  "door_verdict v db now d user revoked =
     (case (user, revoked) of
        (None, _) \<Rightarrow> (False, Some ''Unknown card'')
      | (Some _, Some _) \<Rightarrow> (False, Some ''Card not authorized'')
      | (Some u, None) \<Rightarrow>
          (case door_evaluate (te_text v) (te_sched v) db now d (door_principal db u) Unlock of
             AAllow \<Rightarrow> (True, None)
           | ADeny why \<Rightarrow> (False, Some why)))"

definition scan_door ::
  "tool_env \<Rightarrow> bool \<Rightarrow> door_db \<Rightarrow> uuid \<Rightarrow> door \<Rightarrow> string \<Rightarrow> instant \<Rightarrow> shop \<Rightarrow> reply \<times> shop" where
  "scan_door v door_enabled db dev d crd now s =
     (if \<not> door_enabled
      then (Inr (resource_denied ''Door module is disabled in server configuration''), s)
      else
        (case resolve_presented v s crd of
           Inl e \<Rightarrow> (Inl e, s)
         | Inr res \<Rightarrow>
             (let s1 = (case res of CardActive _ c \<Rightarrow> touch_presented c now s | _ \<Rightarrow> s);
                  (user, card_id, revoked) = presented res;
                  (granted, reason) = door_verdict v db now d user revoked;
                  s2 = s1\<lparr>sh_door_events := sh_door_events s1 @
                         [\<lparr>dae_door_id = d_id d, dae_user_id = map_option us_id user, dae_card_id = card_id,
                           dae_granted = granted, dae_reason = reason, dae_occurred_at = now\<rparr>]\<rparr>;
                  s3 = (case (user, revoked) of
                          (Some u, Some c) \<Rightarrow> shop_log (RevokedCardPresented (d_name d) (us_id u) (uc_id c)) s2
                        | _ \<Rightarrow> s2);
                  s4 = shop_log (if granted then DoorUnlockedCard (d_id d) (map_option us_id user)
                                 else DoorUnlockDenied (d_id d) (map_option us_id user) (unwrap_or reason [])) s3
              in if \<not> granted then (Inr (resource_denied (unwrap_or reason ''Denied'')), s4)
                 else
                   let s5 = (if unwrap_or (map_option rr_profile (get_resource s4 (d_id d))) [] = UNTIL_STOPPED
                             then snd (open_resource_session (d_id d) (map_option us_id user) (Some dev) now s4)
                             else s4)
                   in (Inr (resource_authorized
                             (Some \<lparr>ls_pulse_ms = sp_pulse_ms (strike_profile_of db (d_id d))\<rparr>)), s5))))"

section \<open>The handlers of a device\<close>

text \<open>The door row behind a resource id.\<close>

definition get_door :: "door_db \<Rightarrow> uuid \<Rightarrow> (api_error, door) result" where
  "get_door db did =
     (case find (\<lambda>d. d_id d = did) (doors_of db) of
        Some d \<Rightarrow> Inr d
      | None \<Rightarrow> Inl (from_database_error (Diesel DieselNotFound ''Record not found'')))"

definition resource_scan ::
  "tool_env \<Rightarrow> bool \<Rightarrow> door_db \<Rightarrow> string \<Rightarrow> string option \<Rightarrow> string option \<Rightarrow> uuid \<Rightarrow> instant \<Rightarrow> shop \<Rightarrow>
   reply \<times> shop" where
  "resource_scan v door_enabled db name header body sid now s =
     (case authorize_resource (te_text v) (te_hash v) (sh_devices s) header name of
        Inl e \<Rightarrow> (Inl e, s)
      | Inr (dev, r) \<Rightarrow>
          (case body of
             None \<Rightarrow> (Inl (BadRequest ''body must be a JSON object: { card }''), s)
           | Some crd \<Rightarrow>
               (case r of
                  RTool t \<Rightarrow> activate_tool v (Some t) crd name sid now s
                | RDoor did \<Rightarrow>
                    (case get_door db did of
                       Inl e \<Rightarrow> (Inl e, s)
                     | Inr d \<Rightarrow> scan_door v door_enabled db dev d crd now s))))"

definition resource_stop ::
  "tool_env \<Rightarrow> string \<Rightarrow> string option \<Rightarrow> string option option \<Rightarrow> instant \<Rightarrow> shop \<Rightarrow> reply \<times> shop" where
  "resource_stop v name header body now s =
     (case authorize_resource (te_text v) (te_hash v) (sh_devices s) header name of
        Inl e \<Rightarrow> (Inl e, s)
      | Inr (_, r) \<Rightarrow>
          (case body of
             None \<Rightarrow> (Inl (BadRequest ''body must be a JSON object: { card? }''), s)
           | Some crd \<Rightarrow>
               (case r of
                  RTool t \<Rightarrow> deactivate_tool v (Some t) crd name now s
                | RDoor did \<Rightarrow>
                    (case close_resource_session did ''stop'' now s of
                       (Some _, s1) \<Rightarrow> (Inr (ok_with_message ''Session ended''), s1)
                     | (None, s1) \<Rightarrow> (Inr (ok_with_message ''No session to end''), s1)))))"

definition resource_usage ::
  "tool_env \<Rightarrow> string \<Rightarrow> string option \<Rightarrow> usage_request option \<Rightarrow> instant \<Rightarrow> shop \<Rightarrow> reply \<times> shop" where
  "resource_usage v name header body now s =
     (case authorize_resource (te_text v) (te_hash v) (sh_devices s) header name of
        Inl e \<Rightarrow> (Inl e, s)
      | Inr (_, r) \<Rightarrow>
          (case body of
             None \<Rightarrow> (Inl (BadRequest ''body must be a JSON object: { card?, seconds, active_seconds?, temperature? }''), s)
           | Some req \<Rightarrow>
               (case r of
                  RTool t \<Rightarrow> report_tool_usage v (Some t) (req\<lparr>ur_tool_id := name\<rparr>) now s
                | RDoor _ \<Rightarrow> (Inr (error_response ''No open session for this resource''), s))))"

section \<open>Administration\<close>

definition admin_stop ::
  "tool_env \<Rightarrow> string \<Rightarrow> instant \<Rightarrow> shop \<Rightarrow> (api_error, uuid \<times> string \<times> bool) result \<times> shop" where
  "admin_stop v name now s =
     (case find_resource (te_text v) (sh_devices s) name of
        Inl e \<Rightarrow> (Inl e, s)
      | Inr None \<Rightarrow> (Inl (NotFound ''Resource not found''), s)
      | Inr (Some (RTool t)) \<Rightarrow>
          (case deactivate_tool v (Some t) None name now s of
             (Inl e, s1) \<Rightarrow> (Inl e, s1)
           | (Inr _, s1) \<Rightarrow>
               (Inr (tr_id t, ''tool'', tr_status t = InUse),
                shop_log (ResourceSessionEnded (tr_id t) ''tool'' (tr_status t = InUse)) s1))
      | Inr (Some (RDoor did)) \<Rightarrow>
          (case close_resource_session did ''admin'' now s of
             (ended, s1) \<Rightarrow>
               (Inr (did, ''door'', ended \<noteq> None),
                shop_log (ResourceSessionEnded did ''door'' (ended \<noteq> None)) s1)))"

definition update_resource ::
  "uuid \<Rightarrow> string option \<Rightarrow> shop \<Rightarrow> (api_error, resource_row) result \<times> shop" where
  "update_resource rid profile s =
     (case profile of
        None \<Rightarrow> (Inl (BadRequest ''nothing to change: send session_profile''), s)
      | Some p \<Rightarrow>
          if p \<noteq> MOMENTARY \<and> p \<noteq> UNTIL_STOPPED
          then (Inl (BadRequest ''session_profile must be one of: momentary, until_stopped''), s)
          else
            (case get_resource s rid of
               None \<Rightarrow> (Inl (NotFound ''Resource not found''), s)
             | Some r \<Rightarrow>
                 (Inr (r\<lparr>rr_profile := p\<rparr>),
                  shop_log (ResourceUpdated rid p)
                    (s\<lparr>sh_resources := map (\<lambda>r. if rr_id r = rid then r\<lparr>rr_profile := p\<rparr> else r) (sh_resources s)\<rparr>))))"

record open_session_view =
  osv_resource_id :: uuid
  osv_kind :: string
  osv_user_id :: "uuid option"
  osv_full_name :: "string option"
  osv_opened_at :: instant
  osv_device_id :: "uuid option"

definition list_open_sessions :: "shop \<Rightarrow> open_session_view list" where
  "list_open_sessions s =
     (let name = (\<lambda>u. Option.bind u (\<lambda>i. map_option us_full_name (find_shop_user s i)));
          doors = map (\<lambda>z. \<lparr>osv_resource_id = rs_resource_id z, osv_kind = ''door'', osv_user_id = rs_user_id z,
                           osv_full_name = name (rs_user_id z), osv_opened_at = rs_opened_at z,
                           osv_device_id = rs_device_id z\<rparr>) (open_resource_sessions s);
          tools = map (\<lambda>t. let a = latest_activation s (tr_id t); u = Option.bind a te_user_id
                           in \<lparr>osv_resource_id = tr_id t, osv_kind = ''tool'', osv_user_id = u,
                               osv_full_name = name u,
                               osv_opened_at = (case a of Some e \<Rightarrow> te_created_at e | None \<Rightarrow> tr_updated_at t),
                               osv_device_id = None\<rparr>) (get_inuse_tools s)
      in sort_key osv_opened_at (doors @ tools))"

section \<open>The sweep\<close>

text \<open>When the session of a tool in use began.\<close>

definition in_use_since :: "shop \<Rightarrow> tool_row \<Rightarrow> instant" where
  "in_use_since s t = (case latest_activation s (tr_id t) of Some e \<Rightarrow> te_created_at e | None \<Rightarrow> tr_updated_at t)"

definition release :: "tool_env \<Rightarrow> tool_row \<Rightarrow> uuid option \<Rightarrow> instant \<Rightarrow> shop \<Rightarrow> (database_error, unit) result \<times> shop" where
  "release v t member now s =
     (let s1 = (case te_billing v of
                  Some c \<Rightarrow> s\<lparr>sh_billing := snd (settle_open_session_for_tool (te_text v) (te_rnd v) c
                                (tr_billing t) ''abandoned'' now (sh_billing s))\<rparr>
                | None \<Rightarrow> s)
      in case update_tool_status (tr_id t) Idle now s1 of
           (Inl e, s2) \<Rightarrow> (Inl e, s2)
         | (Inr _, s2) \<Rightarrow>
             (Inr (), shop_log (ToolReleasedBySweep (tr_id t) member)
                (create_tool_event \<lparr>te_tool_id = tr_id t, te_event_type = ''deactivated'',
                   te_old_status = Some (tr_status t), te_new_status = Some Idle, te_user_id = member,
                   te_created_at = now\<rparr> s2)))"

fun release_tools ::
  "tool_env \<Rightarrow> int \<Rightarrow> int \<Rightarrow> instant \<Rightarrow> tool_row list \<Rightarrow> shop \<Rightarrow> (database_error, nat) result \<times> shop" where
  "release_tools v default_cap grace now [] s = (Inr 0, s)"
| "release_tools v default_cap grace now (t # ts) s =
     (let cap = session_cap_minutes (usage_max_session_minutes (tr_billing t)) default_cap
      in if abandoned_cutoff cap grace now \<le> in_use_since s t
         then release_tools v default_cap grace now ts s
         else
           (case release v t (Option.bind (latest_activation s (tr_id t)) te_user_id) now s of
              (Inl e, s1) \<Rightarrow> (Inl e, s1)
            | (Inr _, s1) \<Rightarrow>
                (case release_tools v default_cap grace now ts s1 of
                   (Inl e, s2) \<Rightarrow> (Inl e, s2)
                 | (Inr n, s2) \<Rightarrow> (Inr (Suc n), s2))))"

definition rooms_to_release ::
  "resource_session list \<Rightarrow> (uuid \<times> string) list \<Rightarrow> instant \<Rightarrow> resource_session list" where
  "rooms_to_release opens kinds cutoff =
     (let doors = fst ` set (filter (\<lambda>(_, k). k = ''door'') kinds)
      in filter (\<lambda>z. rs_resource_id z \<in> doors \<and> rs_opened_at z < cutoff) opens)"

fun release_rooms :: "instant \<Rightarrow> resource_session list \<Rightarrow> shop \<Rightarrow> nat \<times> shop" where
  "release_rooms now [] s = (0, s)"
| "release_rooms now (z # zs) s =
     (case close_resource_session (rs_resource_id z) ''sweep'' now s of
        (None, s1) \<Rightarrow> release_rooms now zs s1
      | (Some ended, s1) \<Rightarrow>
          (case release_rooms now zs
                  (shop_log (ResourceSessionReleasedBySweep (rs_resource_id ended) (rs_user_id ended)) s1) of
             (n, s2) \<Rightarrow> (Suc n, s2)))"

definition sweep_once :: "tool_env \<Rightarrow> int \<Rightarrow> int \<Rightarrow> instant \<Rightarrow> shop \<Rightarrow> (database_error, nat) result \<times> shop" where
  "sweep_once v default_cap grace now s =
     (case release_tools v default_cap grace now (get_inuse_tools s) s of
        (Inl e, s1) \<Rightarrow> (Inl e, s1)
      | (Inr n, s1) \<Rightarrow>
          (case release_rooms now
                  (rooms_to_release (open_resource_sessions s1) (map (\<lambda>r. (rr_id r, rr_kind r)) (sh_resources s1))
                    (abandoned_cutoff default_cap grace now)) s1 of
             (m, s2) \<Rightarrow>
               (Inr (n + m),
                case te_billing v of
                  Some c \<Rightarrow> s2\<lparr>sh_billing := snd (sweep_abandoned (te_text v) (te_rnd v) c now (sh_billing s2))\<rparr>
                | None \<Rightarrow> s2)))"

end
