(* ===== verification/Power_Safety.thy ===== *)
theory Power_Safety
  imports Power_Server "HOL-Library.Multiset"
begin

text \<open>
  What the server's lockout promises: one gate and one snapshot that agree, a bound on every circuit
  after each report, lockouts that only staff lift, and a circuit tree without cycles. The snapshot is
  composed with the coordinator's side in \<open>Power_Lockout\<close>.
\<close>

section \<open>The tables as functions\<close>

definition power_wf :: "tool_row list \<Rightarrow> power_db \<Rightarrow> bool" where
  "power_wf ts db \<longleftrightarrow>
     distinct (map tr_id ts) \<and> distinct (map pc_id (pd_circuits db)) \<and>
     distinct (map po_id (pd_outlets db)) \<and> distinct (map pr_id (pd_receptacles db)) \<and>
     distinct (map tps_tool_id (pd_states db))"

definition circuit_of :: "tool_row list \<Rightarrow> power_db \<Rightarrow> uuid \<Rightarrow> uuid option" where
  "circuit_of ts db tid =
     Option.bind (find (\<lambda>t. tr_id t = tid) ts) (\<lambda>t. tool_circuit db (tr_receptacle_id t))"

definition circuit_locked_out :: "power_db \<Rightarrow> uuid \<Rightarrow> bool" where
  "circuit_locked_out db cid \<longleftrightarrow> (\<exists>c \<in> set (pd_circuits db). pc_id c = cid \<and> pc_locked_out c)"

definition own_locked_out :: "power_db \<Rightarrow> uuid \<Rightarrow> bool" where
  "own_locked_out db tid \<longleftrightarrow> (\<exists>s \<in> set (pd_states db). tps_tool_id s = tid \<and> tps_locked_out s)"

text \<open>The draw of a circuit: the latest draws of the tools whose route ends at it.\<close>

definition summed_draw :: "tool_row list \<Rightarrow> power_db \<Rightarrow> uuid \<Rightarrow> rat" where
  "summed_draw ts db cid =
     (\<Sum>s \<leftarrow> pd_states db.
        if circuit_of ts db (tps_tool_id s) = Some cid then unwrap_or (last_draw_amps s) 0 else 0)"

lemma tool_circuit_alt:
  assumes "power_wf ts db"
  shows "tool_circuit db rid =
    Option.bind rid (\<lambda>r. Option.bind (find (\<lambda>q. pr_id q = r) (pd_receptacles db))
      (\<lambda>q. map_option po_circuit_id (find (\<lambda>p. po_id p = pr_outlet_id q) (pd_outlets db))))"
  using assms
  by (auto simp: tool_circuit_def recep_to_outlet_def outlet_to_circuit_def power_wf_def collect_map_rows
      Option.bind_map_option comp_def split: bind_splits option.splits intro!: Option.bind_cong)

lemma circuit_locked_out_alt:
  "power_wf ts db \<Longrightarrow> circuit_locked_out db cid \<longleftrightarrow> is_some_and (find_circuit db cid) pc_locked_out"
  by (auto simp: is_some_and_iff find_circuit_def circuit_locked_out_def power_wf_def find_row_iff)

lemma own_locked_out_alt:
  "power_wf ts db \<Longrightarrow> own_locked_out db tid \<longleftrightarrow> is_some_and (get_tool_power_state db tid) tps_locked_out"
  by (auto simp: is_some_and_iff get_tool_power_state_def own_locked_out_def power_wf_def find_row_iff)

lemma tool_is_locked_out_iff:
  assumes "power_wf ts db"
  shows "tool_is_locked_out ts db tid \<longleftrightarrow>
    own_locked_out db tid \<or> (\<exists>c. circuit_of ts db tid = Some c \<and> circuit_locked_out db c)"
  by (auto simp: tool_is_locked_out_def own_locked_out_alt [OF assms] circuit_locked_out_alt [OF assms]
      circuit_of_def tool_circuit_alt [OF assms] is_some_and_iff split: option.splits bind_splits)

section \<open>Totals\<close>

definition route :: "(uuid \<rightharpoonup> uuid) \<Rightarrow> (uuid \<rightharpoonup> uuid) \<Rightarrow> (uuid \<rightharpoonup> uuid) \<Rightarrow> uuid \<Rightarrow> uuid option" where
  "route t2r r2o o2c tid = Option.bind (t2r tid) (\<lambda>r. Option.bind (r2o r) o2c)"

lemma sum_draw_loop_sum:
  "unwrap_or (map_of (sum_draw_loop t2r r2o o2c ds totals) c) 0 =
     unwrap_or (map_of totals c) 0 + (\<Sum>(tid, a) \<leftarrow> ds. if route t2r r2o o2c tid = Some c then a else 0)"
  by (induction t2r r2o o2c ds totals rule: sum_draw_loop.induct)
     (auto simp: route_def update_conv split: option.splits)

lemma sum_draw_loop_distinct:
  "distinct (map fst totals) \<Longrightarrow> distinct (map fst (sum_draw_loop t2r r2o o2c ds totals))"
  by (induction t2r r2o o2c ds totals rule: sum_draw_loop.induct)
     (auto simp: distinct_update split: option.splits)

lemma map_of_sorted:
  assumes "distinct (map fst (kvs :: ('a::linorder \<times> 'b) list))"
  shows "map_of (sort_key fst kvs) = map_of kvs"
proof -
  have "mset (map fst (sort_key fst kvs)) = mset (map fst kvs)" by simp
  then have "distinct (map fst (sort_key fst kvs))"
    using assms mset_eq_imp_distinct_iff by blast
  then show ?thesis using assms by (subst map_of_inject_set) auto
qed

lemma map_of_zeros: "unwrap_or (map_of (map (\<lambda>c. (c, 0)) cs) c) (0 :: rat) = 0"
  by (induction cs) auto

lemma sum_filtered:
  "(\<Sum>(tid, a) \<leftarrow> List.map_filter (\<lambda>s. map_option (\<lambda>a. (f s, a)) (g s)) ss. if P tid then a else 0) =
   (\<Sum>s \<leftarrow> ss. if P (f s) then unwrap_or (g s) 0 else (0 :: rat))"
  by (induction ss) (auto simp: List.map_filter_simps split: option.splits)

lemma circuit_draw_totals_sum:
  assumes "power_wf ts db"
  shows "unwrap_or (map_of (circuit_draw_totals ts db) c) 0 = summed_draw ts db c"
proof -
  have "route (tool_to_receptacle ts) (recep_to_outlet db) (outlet_to_circuit db) tid = circuit_of ts db tid" for tid
    using assms by (auto simp: route_def circuit_of_def tool_circuit_def tool_to_receptacle_def power_wf_def
        collect_filtered_rows split: bind_splits option.splits)
  moreover have "distinct (map fst (map (\<lambda>c. (c, 0 :: rat)) (remdups (map pc_id (pd_circuits db)))))"
    by (simp add: comp_def)
  ultimately show ?thesis
    by (simp add: circuit_draw_totals_def sum_draw_per_circuit_def map_of_sorted sum_draw_loop_distinct
        sum_draw_loop_sum map_of_zeros sum_filtered summed_draw_def)
qed

lemma set_overloaded_circuits:
  "(cid, amps, limit) \<in> set (overloaded_circuits cs totals) \<longleftrightarrow>
     (cid, limit, False) \<in> set cs \<and> amps = unwrap_or (map_of totals cid) 0 \<and> limit < amps"
proof -
  have "(case find (\<lambda>(k, _). k = c) totals of Some (_, t) \<Rightarrow> t | None \<Rightarrow> 0) = unwrap_or (map_of totals c) (0 :: rat)" for c
    by (cases "map_of totals c") (simp_all add: find_pair)
  then show ?thesis
    by (induction cs totals rule: overloaded_circuits.induct) (auto simp: Let_def)
qed


section \<open>Tripping\<close>

text \<open>What tripping the circuits \<open>ids\<close> leaves of a row: everything but the lock.\<close>

definition locks_of :: "uuid set \<Rightarrow> power_circuit \<Rightarrow> power_circuit \<Rightarrow> bool" where
  "locks_of ids c c' \<longleftrightarrow>
     pc_id c' = pc_id c \<and> pc_amperage_limit c' = pc_amperage_limit c \<and>
     pc_parent_circuit_id c' = pc_parent_circuit_id c \<and> pc_voltage_rating c' = pc_voltage_rating c \<and>
     pc_locked_out c' = (pc_locked_out c \<or> pc_id c \<in> ids)"

lemma engage_circuit_lockout_effect:
  "engage_circuit_lockout cid src reason now db = (n, db') \<Longrightarrow>
   list_all2 (locks_of {cid}) (pd_circuits db) (pd_circuits db') \<and>
   pd_outlets db' = pd_outlets db \<and> pd_receptacles db' = pd_receptacles db \<and> pd_states db' = pd_states db \<and>
   (0 < n \<longleftrightarrow> (\<exists>c \<in> set (pd_circuits db). pc_id c = cid \<and> \<not> pc_locked_out c))"
  by (auto simp: engage_circuit_lockout_def update_circuits_def locks_of_def list_all2_map2
      list_all2_same filter_empty_conv)

lemma locks_of_trans: "locks_of A a b \<Longrightarrow> locks_of B b c \<Longrightarrow> locks_of (A \<union> B) a c"
  by (auto simp: locks_of_def)

lemma trip_overloaded_effect:
  "trip_overloaded show_dec now over db = (tripped, db') \<Longrightarrow>
   list_all2 (locks_of (fst ` set over)) (pd_circuits db) (pd_circuits db') \<and>
   pd_outlets db' = pd_outlets db \<and> pd_receptacles db' = pd_receptacles db \<and> pd_states db' = pd_states db"
proof (induction over arbitrary: db tripped)
  case Nil
  then show ?case by (auto simp: locks_of_def list_all2_same)
next
  case (Cons o1 over)
  obtain cid amps limit where o1: "o1 = (cid, amps, limit)" by (cases o1)
  obtain n db1 tr where e: "engage_circuit_lockout cid ''server_aggregate''
      (''summed draw '' @ show_dec amps @ '' A exceeds circuit limit '' @ show_dec limit @ '' A'') now db = (n, db1)"
    and r: "trip_overloaded show_dec now over db1 = (tr, db')"
    using Cons.prems by (auto simp: o1 split: prod.splits)
  have "list_all2 (locks_of ({cid} \<union> fst ` set over)) (pd_circuits db) (pd_circuits db')"
    by (rule list_all2_trans [OF locks_of_trans
          conjunct1 [OF engage_circuit_lockout_effect [OF e]] conjunct1 [OF Cons.IH [OF r]]])
  then show ?case
    using engage_circuit_lockout_effect [OF e] Cons.IH [OF r] by (simp add: o1)
qed

lemma circuits_after:
  assumes "list_all2 (locks_of A) cs cs'" "c' \<in> set cs'"
  obtains c where "c \<in> set cs" "locks_of A c c'"
  using assms by (metis in_set_conv_nth list_all2_conv_all_nth)

lemma circuits_before:
  assumes "list_all2 (locks_of A) cs cs'" "c \<in> set cs"
  obtains c' where "c' \<in> set cs'" "locks_of A c c'"
  using assms by (metis in_set_conv_nth list_all2_conv_all_nth)

lemma circuit_of_frame:
  "pd_outlets db' = pd_outlets db \<Longrightarrow> pd_receptacles db' = pd_receptacles db \<Longrightarrow>
   circuit_of ts db' tid = circuit_of ts db tid"
  by (simp add: circuit_of_def tool_circuit_def recep_to_outlet_def outlet_to_circuit_def)

lemma summed_draw_frame:
  "pd_outlets db' = pd_outlets db \<Longrightarrow> pd_receptacles db' = pd_receptacles db \<Longrightarrow> pd_states db' = pd_states db \<Longrightarrow>
   summed_draw ts db' cid = summed_draw ts db cid"
  by (simp add: summed_draw_def circuit_of_frame [of db' db])

text \<open>No unlocked circuit is over its limit.\<close>

definition within_limits :: "tool_row list \<Rightarrow> power_db \<Rightarrow> bool" where
  "within_limits ts db \<longleftrightarrow>
     (\<forall>c \<in> set (pd_circuits db). pc_locked_out c \<or> summed_draw ts db (pc_id c) \<le> pc_amperage_limit c)"

lemma evaluation_bounds_circuits:
  assumes "power_wf ts db" "evaluate_circuit_overages show_dec ts now db = (tripped, db')"
  shows "within_limits ts db'"
proof -
  let ?over = "overloaded_circuits (map (\<lambda>c. (pc_id c, pc_amperage_limit c, pc_locked_out c)) (pd_circuits db))
                 (circuit_draw_totals ts db)"
  have e: "trip_overloaded show_dec now ?over db = (tripped, db')"
    using assms(2) by (simp add: evaluate_circuit_overages_def)
  note eff = trip_overloaded_effect [OF e]
  have "pc_locked_out c' \<or> summed_draw ts db' (pc_id c') \<le> pc_amperage_limit c'"
    if c': "c' \<in> set (pd_circuits db')" for c'
  proof -
    obtain c where c: "c \<in> set (pd_circuits db)" "locks_of (fst ` set ?over) c c'"
      using circuits_after eff c' by blast
    have d: "summed_draw ts db' (pc_id c) = summed_draw ts db (pc_id c)"
      using eff summed_draw_frame [of db' db] by simp
    show ?thesis
    proof (cases "pc_locked_out c \<or> summed_draw ts db (pc_id c) \<le> pc_amperage_limit c")
      case True
      with c d show ?thesis by (auto simp: locks_of_def)
    next
      case False
      then have "(pc_id c, summed_draw ts db (pc_id c), pc_amperage_limit c) \<in> set ?over"
        using c(1) by (force simp: set_overloaded_circuits circuit_draw_totals_sum [OF assms(1)])
      then have "pc_id c \<in> fst ` set ?over" by force
      with c show ?thesis by (simp add: locks_of_def)
    qed
  qed
  then show ?thesis by (simp add: within_limits_def)
qed

lemma audit_trips_frame [simp]:
  "pd_circuits (audit_trips ts db) = pd_circuits db" "pd_outlets (audit_trips ts db) = pd_outlets db"
  "pd_receptacles (audit_trips ts db) = pd_receptacles db" "pd_states (audit_trips ts db) = pd_states db"
  by (induction ts db rule: audit_trips.induct) (auto simp: write_audit_def)

lemma within_limits_frame:
  "pd_circuits db' = pd_circuits db \<Longrightarrow> pd_outlets db' = pd_outlets db \<Longrightarrow>
   pd_receptacles db' = pd_receptacles db \<Longrightarrow> pd_states db' = pd_states db \<Longrightarrow>
   within_limits ts db' = within_limits ts db"
  by (simp add: within_limits_def summed_draw_frame [of db' db])

lemma upsert_ids:
  "map tps_tool_id (pd_states (upsert_tool_power_state r db)) =
     (if tps_tool_id r \<in> tps_tool_id ` set (pd_states db) then map tps_tool_id (pd_states db)
      else map tps_tool_id (pd_states db) @ [tps_tool_id r])"
proof (cases "get_tool_power_state db (tps_tool_id r)")
  case None
  then have "tps_tool_id r \<notin> tps_tool_id ` set (pd_states db)"
    by (auto simp: get_tool_power_state_def find_None_iff)
  with None show ?thesis by (simp add: upsert_tool_power_state_def)
next
  case (Some s)
  then have "tps_tool_id r \<in> tps_tool_id ` set (pd_states db)"
    by (auto simp: get_tool_power_state_def dest!: find_SomeD intro: rev_image_eqI)
  with Some show ?thesis by (auto simp: upsert_tool_power_state_def)
qed

lemma upsert_frame [simp]:
  "pd_circuits (upsert_tool_power_state r db) = pd_circuits db"
  "pd_outlets (upsert_tool_power_state r db) = pd_outlets db"
  "pd_receptacles (upsert_tool_power_state r db) = pd_receptacles db"
  by (simp_all add: upsert_tool_power_state_def split: option.splits)

lemma upsert_wf: "power_wf ts db \<Longrightarrow> power_wf ts (upsert_tool_power_state r db)"
  by (auto simp: power_wf_def upsert_ids)

lemma touch_frame: "dd_tools (snd (touch_device_last_seen d m now)) = dd_tools d"
  by (simp add: touch_device_last_seen_def split: option.splits)

lemma power_report_accepted:
  assumes "power_report x hash show_dec thr header req now d db = (Inr changed, d', db')"
  shows "\<exists>t \<in> set (dd_tools d). ingest_report show_dec thr (dd_tools d) t req now db = (changed, db') \<and>
    dd_tools d' = dd_tools d"
proof -
  obtain c where c: "authorize_power_report x hash d header (unwrap_or (prq_tool_id req) []) (prq_device_id req) = Inr c"
    using assms by (cases "authorize_power_report x hash d header (unwrap_or (prq_tool_id req) []) (prq_device_id req)")
      (auto simp: power_report_def Let_def)
  then obtain t where t: "find_tool_by_toolguard_id x d (unwrap_or (prq_tool_id req) []) = Some t"
    using assms by (cases "find_tool_by_toolguard_id x d (unwrap_or (prq_tool_id req) [])")
      (auto simp: power_report_def Let_def split: if_splits)
  obtain b db1 where i: "ingest_report show_dec thr (dd_tools d) t req now db = (b, db1)" by fastforce
  have "b = changed \<and> db1 = db' \<and> dd_tools d' = dd_tools d"
    using assms c t i unfolding power_report_def Let_def
    by (cases "unwrap_or (prq_tool_id req) [] = []"; cases "prq_device_id req") (auto simp: touch_frame)
  with i find_tool_in [OF t] show ?thesis by auto
qed

text \<open>
  C9. After every accepted report that is not a firmware self-trip, no circuit is both unlocked and over
  its rating: the latest draws of the tools plugged into it sum to at most its limit, or it is locked
  out. A circuit at exactly its rating is not tripped.
\<close>

theorem report_bounds_every_circuit:
  assumes "power_wf (dd_tools d) db" "prq_self_tripped req \<noteq> Some True"
    and "power_report x hash show_dec thr header req now d db = (Inr changed, d', db')"
  shows "within_limits (dd_tools d') db'"
proof -
  obtain t where t: "ingest_report show_dec thr (dd_tools d) t req now db = (changed, db')"
    and d': "dd_tools d' = dd_tools d"
    using power_report_accepted [OF assms(3)] by blast
  define r where "r = \<lparr>tps_tool_id = tr_id t, last_draw_amps = prq_draw_now req,
            last_voltage = prq_voltage_now req, reported_max_voltage = prq_max_voltage req,
            reported_amperage_limit = prq_amperage_limit req, last_reported_at = now,
            tps_locked_out = False, tps_lockout_reason = None, tps_locked_out_at = None,
            last_relay_on = prq_relay_on req,
            power_evidence_since = evidence_clock thr req (get_tool_power_state db (tr_id t)) now\<rparr>"
  obtain tripped db2 where e: "evaluate_circuit_overages show_dec (dd_tools d) now (upsert_tool_power_state r db) = (tripped, db2)"
    and db': "db' = audit_trips tripped db2"
    using t assms(2) by (auto simp: ingest_report_def Let_def r_def split: prod.splits)
  have "within_limits (dd_tools d) db2"
    using evaluation_bounds_circuits [OF upsert_wf [OF assms(1)] e] .
  then show ?thesis using within_limits_frame [of db' db2 "dd_tools d"] by (simp add: d' db')
qed


section \<open>The snapshot and the gate\<close>

text \<open>What the coordinator is told of a tool.\<close>

lemma snapshot_locked_ids:
  assumes "power_wf ts db" "text_ok x"
  shows "uuid_show x tid \<in> set (psp_locked_tool_ids (power_state_snapshot x show_dec as_of ts db)) \<longleftrightarrow>
    (\<exists>t \<in> set ts. tr_id t = tid) \<and> tool_is_locked_out ts db tid"
proof -
  have own: "tid \<in> tps_tool_id ` set (filter tps_locked_out (pd_states db)) \<longleftrightarrow> own_locked_out db tid" for tid
    by (auto simp: own_locked_out_def)
  have cl: "c \<in> pc_id ` set (filter pc_locked_out (pd_circuits db)) \<longleftrightarrow> circuit_locked_out db c" for c
    by (auto simp: circuit_locked_out_def)
  have "circuit_of ts db (tr_id t) = tool_circuit db (tr_receptacle_id t)" if "t \<in> set ts" for t
  proof -
    have "find (\<lambda>u. tr_id u = tr_id t) ts = Some t"
      using that assms(1) by (simp add: power_wf_def find_row_iff)
    then show ?thesis by (simp add: circuit_of_def)
  qed
  then have "tool_is_locked_out ts db (tr_id t) \<longleftrightarrow> own_locked_out db (tr_id t) \<or>
      is_some_and (tool_circuit db (tr_receptacle_id t)) (circuit_locked_out db)" if "t \<in> set ts" for t
    using that by (simp add: tool_is_locked_out_iff [OF assms(1)] is_some_and_iff)
  then show ?thesis
    unfolding power_state_snapshot_def Let_def own cl
    by (auto simp: uuid_show_inj [OF assms(2)] is_some_and_iff)
qed

definition names_only :: "text_ops \<Rightarrow> tool_row list \<Rightarrow> string \<Rightarrow> tool_row \<Rightarrow> bool" where
  "names_only x ts n t \<longleftrightarrow>
     t \<in> set ts \<and> (tr_external_id t = Some n \<or> uuid_show x (tr_id t) = n) \<and>
     (\<forall>u \<in> set ts. tr_external_id u = Some n \<or> uuid_show x (tr_id u) = n \<longrightarrow> u = t)"

text \<open>
  C12. The lockout the server enforces is the lockout every coordinator enforces from the snapshot: after
  it has applied the server's power state, a coordinator refuses a tool, by either of its names, exactly
  when the server's own gate does, for its own trip or for its circuit's, whatever it held before.
\<close>

theorem coordinator_lockout_is_the_gate:
  assumes "power_wf ts db" "text_ok x" "names_only x ts n t"
  shows "is_locked (power_apply_state p (power_state_snapshot x show_dec as_of ts db)) n \<longleftrightarrow>
    tool_is_locked_out ts db (tr_id t)"
proof -
  let ?snap = "power_state_snapshot x show_dec as_of ts db"
  let ?row = "\<lambda>t. \<lparr>pst_id = uuid_show x (tr_id t), pst_external_id = tr_external_id t,
                pst_circuit_id = map_option (uuid_show x) (tool_circuit db (tr_receptacle_id t))\<rparr>"
  have "power_resolve ?snap n = map_option ?row (find (\<lambda>t. tr_external_id t = Some n \<or> uuid_show x (tr_id t) = n) ts)"
    by (simp add: power_resolve_def power_state_snapshot_def Let_def find_map comp_def)
  also have "find (\<lambda>t. tr_external_id t = Some n \<or> uuid_show x (tr_id t) = n) ts = Some t"
    using assms(3) by (intro find_unique) (auto simp: names_only_def)
  finally have "power_resolve ?snap n = Some (?row t)" by simp
  then show ?thesis
    using assms(3) snapshot_locked_ids [OF assms(1,2), of "tr_id t"]
    by (auto simp: apply_state_locks snapshot_locks_def names_only_def)
qed

section \<open>Only staff lift a lockout\<close>

datatype server_power_event =
    SReport "string option" power_report_request instant device_db
  | STrip "string option" "uuid option" "string option" instant device_db
  | SReenableCircuit bool uuid uuid
  | SReenableTool bool "tool_row list" uuid uuid
  | SCreateCircuit bool uuid string int rat "uuid option"
  | SUpdateCircuit bool uuid circuit_request
  | SDeleteCircuit uuid

record power_params =
  pp_text :: text_ops
  pp_hash :: "string \<Rightarrow> string"
  pp_show :: "rat \<Rightarrow> string"
  pp_threshold :: rat
  pp_trim :: "string \<Rightarrow> string"

fun server_power_step :: "power_params \<Rightarrow> server_power_event \<Rightarrow> power_db \<Rightarrow> power_db" where
  "server_power_step v (SReport header req now d) db =
     snd (snd (power_report (pp_text v) (pp_hash v) (pp_show v) (pp_threshold v) header req now d db))"
| "server_power_step v (STrip header circuit reason now d) db =
     snd (power_trip (pp_text v) (pp_hash v) header circuit reason now d db)"
| "server_power_step v (SReenableCircuit enabled staff cid) db = snd (reenable_circuit enabled staff cid db)"
| "server_power_step v (SReenableTool enabled ts staff tid) db = snd (reenable_tool enabled ts staff tid db)"
| "server_power_step v (SCreateCircuit enabled cid label voltage limit parent) db =
     (if find_circuit db cid = None
      then snd (create_circuit (pp_trim v) enabled cid label voltage limit parent db) else db)"
| "server_power_step v (SUpdateCircuit enabled cid req) db = snd (update_circuit (pp_trim v) enabled cid req db)"
| "server_power_step v (SDeleteCircuit cid) db = snd (delete_circuit cid db)"

fun lifts_circuit :: "uuid \<Rightarrow> server_power_event \<Rightarrow> bool" where
  "lifts_circuit cid (SReenableCircuit enabled _ c) \<longleftrightarrow> enabled \<and> c = cid"
| "lifts_circuit cid (SDeleteCircuit c) \<longleftrightarrow> c = cid"
| "lifts_circuit cid _ \<longleftrightarrow> False"

fun lifts_tool :: "uuid \<Rightarrow> server_power_event \<Rightarrow> bool" where
  "lifts_tool tid (SReenableTool enabled _ _ t) \<longleftrightarrow> enabled \<and> t = tid"
| "lifts_tool tid _ \<longleftrightarrow> False"

lemma write_audit_frame [simp]:
  "pd_circuits (write_audit e db) = pd_circuits db" "pd_outlets (write_audit e db) = pd_outlets db"
  "pd_receptacles (write_audit e db) = pd_receptacles db" "pd_states (write_audit e db) = pd_states db"
  by (simp_all add: write_audit_def)

lemma circuit_locked_out_audit [simp]: "circuit_locked_out (write_audit e db) cid = circuit_locked_out db cid"
  by (simp add: circuit_locked_out_def)

lemma own_locked_out_audit [simp]: "own_locked_out (write_audit e db) tid = own_locked_out db tid"
  by (simp add: own_locked_out_def)

lemma locks_of_keeps:
  "list_all2 (locks_of A) (pd_circuits db) (pd_circuits db') \<Longrightarrow> circuit_locked_out db cid \<Longrightarrow> circuit_locked_out db' cid"
  unfolding circuit_locked_out_def by (metis circuits_before locks_of_def)

lemma tool_lockout_ops [simp]:
  "pd_circuits (engage_tool_lockout tid reason now db) = pd_circuits db"
  "pd_circuits (clear_tool_lockout tid db) = pd_circuits db"
  by (simp_all add: engage_tool_lockout_def clear_tool_lockout_def split: option.splits)

text \<open>What a report can do to the circuits, and to the tools' own lockouts.\<close>

lemma ingest_circuits:
  "ingest_report show_dec thr ts t req now db = (changed, db') \<Longrightarrow>
   \<exists>A. list_all2 (locks_of A) (pd_circuits db) (pd_circuits db')"
proof -
  assume i: "ingest_report show_dec thr ts t req now db = (changed, db')"
  show ?thesis
  proof (cases "prq_self_tripped req = Some True")
    case True
    then have "pd_circuits db' = pd_circuits db" using i by (auto simp: ingest_report_def Let_def)
    moreover have "list_all2 (locks_of {}) (pd_circuits db) (pd_circuits db)"
      by (simp add: list_all2_same locks_of_def)
    ultimately show ?thesis by auto
  next
    case False
    then obtain r tripped db2 where "evaluate_circuit_overages show_dec ts now (upsert_tool_power_state r db) = (tripped, db2)"
      "db' = audit_trips tripped db2"
      using i by (auto simp: ingest_report_def Let_def split: prod.splits)
    then show ?thesis
      using trip_overloaded_effect by (fastforce simp: evaluate_circuit_overages_def)
  qed
qed


definition keeps_own :: "power_db \<Rightarrow> power_db \<Rightarrow> bool" where
  "keeps_own db db' \<longleftrightarrow> (\<forall>tid. own_locked_out db tid \<longrightarrow> own_locked_out db' tid)"

lemma keeps_own_same: "pd_states db' = pd_states db \<Longrightarrow> keeps_own db db'"
  by (simp add: keeps_own_def own_locked_out_def)

lemma keeps_own_trans: "keeps_own a b \<Longrightarrow> keeps_own b c \<Longrightarrow> keeps_own a c"
  by (simp add: keeps_own_def)

lemma keeps_own_map:
  assumes "pd_states db' = map (\<lambda>s. if P s then f s else s) (pd_states db)"
    and "\<And>s. tps_tool_id (f s) = tps_tool_id s" "\<And>s. tps_locked_out s \<Longrightarrow> tps_locked_out (f s)"
  shows "keeps_own db db'"
  unfolding keeps_own_def own_locked_out_def
proof (intro allI impI, elim bexE conjE)
  fix tid s
  assume s: "s \<in> set (pd_states db)" "tps_tool_id s = tid" "tps_locked_out s"
  have "(if P s then f s else s) \<in> set (pd_states db')" using s(1) by (simp add: assms(1))
  moreover have "tps_tool_id (if P s then f s else s) = tid \<and> tps_locked_out (if P s then f s else s)"
    using s(2,3) assms(2,3) by simp
  ultimately show "\<exists>s \<in> set (pd_states db'). tps_tool_id s = tid \<and> tps_locked_out s" by blast
qed

lemma keeps_own_append: "pd_states db' = pd_states db @ rs \<Longrightarrow> keeps_own db db'"
  by (auto simp: keeps_own_def own_locked_out_def)

lemma upsert_keeps_own: "keeps_own db (upsert_tool_power_state r db)"
proof (cases "get_tool_power_state db (tps_tool_id r)")
  case None
  show ?thesis by (rule keeps_own_append) (simp add: upsert_tool_power_state_def None)
next
  case (Some s)
  show ?thesis
    by (rule keeps_own_map [where P = "\<lambda>s. tps_tool_id s = tps_tool_id r" and
          f = "\<lambda>s. s\<lparr>last_draw_amps := last_draw_amps r, last_voltage := last_voltage r,
                   reported_max_voltage := reported_max_voltage r,
                   reported_amperage_limit := reported_amperage_limit r,
                   last_reported_at := last_reported_at r, last_relay_on := last_relay_on r,
                   power_evidence_since := power_evidence_since r\<rparr>"])
       (simp_all add: upsert_tool_power_state_def Some)
qed

lemma engage_tool_keeps_own: "keeps_own db (engage_tool_lockout tid reason now db)"
proof (cases "get_tool_power_state db tid")
  case None
  show ?thesis by (rule keeps_own_append) (simp add: engage_tool_lockout_def None)
next
  case (Some s)
  show ?thesis
    by (rule keeps_own_map [where P = "\<lambda>s. tps_tool_id s = tid" and
          f = "\<lambda>s. s\<lparr>tps_locked_out := True, tps_lockout_reason := Some reason, tps_locked_out_at := Some now\<rparr>"])
       (simp_all add: engage_tool_lockout_def Some)
qed

lemma ingest_keeps_own:
  assumes "ingest_report show_dec thr ts t req now db = (changed, db')"
  shows "keeps_own db db'"
proof (cases "prq_self_tripped req = Some True")
  case True
  then obtain r where "pd_states db' = pd_states (engage_tool_lockout (tr_id t)
      ''firmware self-trip: device exceeded its own over-current limit'' now (upsert_tool_power_state r db))"
    using assms by (auto simp: ingest_report_def Let_def)
  then show ?thesis
    by (meson keeps_own_same keeps_own_trans upsert_keeps_own engage_tool_keeps_own)
next
  case False
  then obtain r tripped db2 where e: "evaluate_circuit_overages show_dec ts now (upsert_tool_power_state r db) = (tripped, db2)"
    "db' = audit_trips tripped db2"
    using assms by (auto simp: ingest_report_def Let_def split: prod.splits)
  then have "pd_states db' = pd_states (upsert_tool_power_state r db)"
    using trip_overloaded_effect by (fastforce simp: evaluate_circuit_overages_def)
  then show ?thesis by (meson keeps_own_same keeps_own_trans upsert_keeps_own)
qed

lemma power_report_cases:
  obtains "snd (snd (power_report x hash show_dec thr header req now d db)) = db"
  | t changed db' where "ingest_report show_dec thr (dd_tools d) t req now db = (changed, db')"
      "snd (snd (power_report x hash show_dec thr header req now d db)) = db'"
proof -
  obtain r d' db' where p: "power_report x hash show_dec thr header req now d db = (r, d', db')" by (metis prod_cases3)
  show ?thesis
  proof (cases r)
    case (Inr changed)
    with p power_report_accepted that(2) show ?thesis by fastforce
  next
    case (Inl e)
    then have "db' = db"
      using p by (auto simp: power_report_def Let_def split: sum.splits if_splits option.splits prod.splits)
    with p that(1) show ?thesis by simp
  qed
qed

lemma circuit_rows_map:
  assumes "pd_circuits db' = map (\<lambda>c. if P c then f c else c) (pd_circuits db)"
    and "\<And>c. pc_id (f c) = pc_id c" "\<And>c. pc_locked_out c \<Longrightarrow> pc_locked_out (f c)"
    and "circuit_locked_out db cid"
  shows "circuit_locked_out db' cid"
proof -
  from assms(4) obtain c where c: "c \<in> set (pd_circuits db)" "pc_id c = cid" "pc_locked_out c"
    by (auto simp: circuit_locked_out_def)
  have "(if P c then f c else c) \<in> set (pd_circuits db')" using c(1) by (simp add: assms(1))
  moreover have "pc_id (if P c then f c else c) = cid \<and> pc_locked_out (if P c then f c else c)"
    using c(2,3) assms(2,3) by simp
  ultimately show ?thesis unfolding circuit_locked_out_def by blast
qed

interpretation circuit_lock: guarded_fact "server_power_step v" "\<lambda>cid db. circuit_locked_out db cid" lifts_circuit
  for v
proof
  fix cid db e
  assume locked: "circuit_locked_out db cid" and keep: "\<not> lifts_circuit cid e"
  show "circuit_locked_out (server_power_step v e db) cid"
  proof (cases e)
    case (SReport header req now d)
    show ?thesis
      by (rule power_report_cases [of "pp_text v" "pp_hash v" "pp_show v" "pp_threshold v" header req now d db])
         (use locked in \<open>auto simp: SReport dest!: ingest_circuits intro: locks_of_keeps\<close>)
  next
    case (STrip header circuit reason now d)
    have "engage_circuit_lockout c src reason now db = (n, db1) \<Longrightarrow> circuit_locked_out db1 cid" for c src reason n db1
      using locked locks_of_keeps engage_circuit_lockout_effect by blast
    then show ?thesis
      using locked by (auto simp: STrip power_trip_def split: sum.splits option.splits prod.splits)
  next
    case (SReenableCircuit enabled staff c)
    then show ?thesis
      using locked keep by (auto simp: reenable_circuit_def require_power_enabled_def clear_circuit_lockout_def
          update_circuits_def circuit_locked_out_def)
  next
    case (SReenableTool enabled ts staff tid)
    then show ?thesis
      using locked by (auto simp: reenable_tool_def circuit_locked_out_def split: option.splits)
  next
    case (SCreateCircuit enabled c label voltage limit parent)
    then show ?thesis
      using locked by (auto simp: create_circuit_def circuit_locked_out_def Let_def split: option.splits)
  next
    case (SUpdateCircuit enabled c req)
    have "circuit_locked_out (snd (update_circuits (\<lambda>r. pc_id r = c) (change_circuit (pp_trim v) req) db)) cid"
      by (rule circuit_rows_map [OF _ _ _ locked, where P = "\<lambda>r. pc_id r = c" and f = "change_circuit (pp_trim v) req"])
         (simp_all add: update_circuits_def change_circuit_def)
    then show ?thesis
      using locked by (auto simp: SUpdateCircuit update_circuit_def circuit_locked_out_def Let_def
          split: option.splits sum.splits)
  next
    case (SDeleteCircuit c)
    then show ?thesis
      using locked keep by (auto simp: delete_circuit_def circuit_locked_out_def)
  qed
qed


interpretation tool_lock: guarded_fact "server_power_step v" "\<lambda>tid db. own_locked_out db tid" lifts_tool
  for v
proof
  fix tid db e
  assume locked: "own_locked_out db tid" and keep: "\<not> lifts_tool tid e"
  have same: "pd_states (server_power_step v e db) = pd_states db \<Longrightarrow> own_locked_out (server_power_step v e db) tid"
    using locked by (simp add: own_locked_out_def)
  show "own_locked_out (server_power_step v e db) tid"
  proof (cases e)
    case (SReport header req now d)
    show ?thesis
      by (rule power_report_cases [of "pp_text v" "pp_hash v" "pp_show v" "pp_threshold v" header req now d db])
         (use locked in \<open>auto simp: SReport keeps_own_def dest!: ingest_keeps_own\<close>)
  next
    case (STrip header circuit reason now d)
    have "engage_circuit_lockout c src r now db = (n, db1) \<Longrightarrow> pd_states db1 = pd_states db" for c src r n db1
      using engage_circuit_lockout_effect by blast
    then show ?thesis
      by (intro same) (auto simp: STrip power_trip_def split: sum.splits option.splits prod.splits)
  next
    case (SReenableTool enabled ts staff u)
    have "own_locked_out (clear_tool_lockout u db) tid" if "u \<noteq> tid"
      using locked that by (auto simp: own_locked_out_def clear_tool_lockout_def)
    then show ?thesis
      using locked keep by (auto simp: SReenableTool reenable_tool_def require_power_enabled_def split: option.splits)
  next
    case (SUpdateCircuit enabled c req)
    show ?thesis
      by (rule same) (simp add: SUpdateCircuit update_circuit_def update_circuits_def Let_def
          split: option.splits sum.splits)
  qed (rule same, simp add: reenable_circuit_def clear_circuit_lockout_def update_circuits_def
        create_circuit_def delete_circuit_def Let_def split: option.splits)+
qed

text \<open>
  C10. Emergency lockouts are lifted by staff and by nothing else: through any sequence of reports, edge
  trips, re-enables and changes of the circuit table, a locked circuit stays locked until a re-enable of
  that circuit (or its deletion, which is refused while anything hangs off it), and a self-tripped tool
  until a re-enable of that tool, each with the module switched on.
\<close>

theorem lockout_lifted_only_by_staff:
  "(circuit_locked_out db cid \<and> (\<forall>e \<in> set es. \<not> lifts_circuit cid e) \<longrightarrow>
      circuit_locked_out (run_events (server_power_step v) es db) cid) \<and>
   (own_locked_out db tid \<and> (\<forall>e \<in> set es. \<not> lifts_tool tid e) \<longrightarrow>
      own_locked_out (run_events (server_power_step v) es db) tid)"
  using circuit_lock.run_guarded tool_lock.run_guarded by blast

section \<open>The circuit table\<close>

definition circuit_shape :: "power_circuit \<Rightarrow> uuid \<times> int \<times> rat \<times> uuid option" where
  "circuit_shape c = (pc_id c, pc_voltage_rating c, pc_amperage_limit c, pc_parent_circuit_id c)"

definition shape_links :: "(uuid \<times> int \<times> rat \<times> uuid option) list \<Rightarrow> (uuid \<times> uuid) set" where
  "shape_links ss = {(i, p). \<exists>v l. (i, v, l, Some p) \<in> set ss}"

definition shapes_ok :: "(uuid \<times> int \<times> rat \<times> uuid option) list \<Rightarrow> bool" where
  "shapes_ok ss \<longleftrightarrow> distinct (map fst ss) \<and>
     (\<forall>(i, v, l, q) \<in> set ss. 0 < v \<and> 0 < l \<and> (\<forall>p. q = Some p \<longrightarrow> p \<in> fst ` set ss)) \<and>
     acyclic (shape_links ss)"

definition circuits_ok :: "power_db \<Rightarrow> bool" where
  "circuits_ok db \<longleftrightarrow> shapes_ok (map circuit_shape (pd_circuits db))"

definition set_circuit_parent :: "uuid \<Rightarrow> uuid option \<Rightarrow> power_db \<Rightarrow> power_db" where
  "set_circuit_parent cid q db =
     db\<lparr>pd_circuits := map (\<lambda>c. if pc_id c = cid then c\<lparr>pc_parent_circuit_id := q\<rparr> else c) (pd_circuits db)\<rparr>"

lemma find_set_circuit_parent:
  "find_circuit (set_circuit_parent cid q db) k =
     map_option (\<lambda>c. if k = cid then c\<lparr>pc_parent_circuit_id := q\<rparr> else c) (find_circuit db k)"
  by (simp add: find_circuit_def set_circuit_parent_def find_update_row)

interpretation circuit_tree: parent_tree find_circuit pc_parent_circuit_id pc_id set_circuit_parent
proof
  fix db k r
  show "find_circuit db k = Some r \<Longrightarrow> pc_id r = k"
    by (auto simp: find_circuit_def dest: find_SomeD)
next
  fix c q db
  show "up_links (find_circuit (set_circuit_parent c q db)) pc_parent_circuit_id
    \<subseteq> up_links (find_circuit db) pc_parent_circuit_id - {c} \<times> UNIV \<union> {(c', p). c' = c \<and> q = Some p}"
  proof (rule subrelI)
    fix k p
    assume "(k, p) \<in> up_links (find_circuit (set_circuit_parent c q db)) pc_parent_circuit_id"
    then obtain z where "find_circuit db k = Some z"
      "pc_parent_circuit_id (if k = c then z\<lparr>pc_parent_circuit_id := q\<rparr> else z) = Some p"
      by (auto simp: up_links_def find_set_circuit_parent)
    then show "(k, p) \<in> up_links (find_circuit db) pc_parent_circuit_id - {c} \<times> UNIV \<union> {(c', p). c' = c \<and> q = Some p}"
      by (cases "k = c") (auto simp: up_links_def)
  qed
qed

lemma links_are_up_links:
  "distinct (map pc_id (pd_circuits db)) \<Longrightarrow>
   shape_links (map circuit_shape (pd_circuits db)) = up_links (find_circuit db) pc_parent_circuit_id"
  by (force simp: shape_links_def up_links_def find_circuit_def find_row_iff circuit_shape_def)


lemma circuits_ok_same:
  "map circuit_shape (pd_circuits db') = map circuit_shape (pd_circuits db) \<Longrightarrow> circuits_ok db' = circuits_ok db"
  by (simp add: circuits_ok_def)

lemma circuits_ok_audit [simp]: "circuits_ok (write_audit e db) = circuits_ok db"
  by (rule circuits_ok_same) simp

lemma locks_of_shapes: "list_all2 (locks_of A) cs cs' \<Longrightarrow> map circuit_shape cs' = map circuit_shape cs"
  by (induction rule: list_all2_induct) (auto simp: locks_of_def circuit_shape_def)

lemma circuits_ok_distinct: "circuits_ok db \<Longrightarrow> distinct (map pc_id (pd_circuits db))"
  by (simp add: circuits_ok_def shapes_ok_def circuit_shape_def comp_def)

lemma circuits_ok_iff:
  "circuits_ok db \<longleftrightarrow> distinct (map pc_id (pd_circuits db)) \<and>
     (\<forall>c \<in> set (pd_circuits db). 0 < pc_voltage_rating c \<and> 0 < pc_amperage_limit c \<and>
        (\<forall>p. pc_parent_circuit_id c = Some p \<longrightarrow> find_circuit db p \<noteq> None)) \<and>
     circuit_tree.cycle_free db"
proof -
  have ids: "fst ` set (map circuit_shape (pd_circuits db)) = pc_id ` set (pd_circuits db)"
    by (force simp: circuit_shape_def)
  have ex: "find_circuit db p \<noteq> None \<longleftrightarrow> p \<in> pc_id ` set (pd_circuits db)" for p
    by (auto simp: find_circuit_def find_None_iff)
  have "map fst (map circuit_shape (pd_circuits db)) = map pc_id (pd_circuits db)"
    by (simp add: circuit_shape_def)
  then show ?thesis
    unfolding circuits_ok_def shapes_ok_def circuit_tree.cycle_free_def ex ids
    by (cases "distinct (map pc_id (pd_circuits db))")
       (auto simp: links_are_up_links circuit_shape_def simp del: map_map)
qed

lemma create_keeps_ok:
  assumes "circuits_ok db" "find_circuit db (pc_id c) = None" "0 < pc_voltage_rating c" "0 < pc_amperage_limit c"
    and parent: "\<And>p. pc_parent_circuit_id c = Some p \<Longrightarrow> find_circuit db p \<noteq> None"
  shows "circuits_ok (db\<lparr>pd_circuits := pd_circuits db @ [c]\<rparr>)"
proof -
  let ?db = "db\<lparr>pd_circuits := pd_circuits db @ [c]\<rparr>"
  have find: "find_circuit ?db k = (case find_circuit db k of Some r \<Rightarrow> Some r | None \<Rightarrow> if pc_id c = k then Some c else None)" for k
    by (simp add: find_circuit_def find_append split: option.split)
  have new: "pc_id c \<notin> pc_id ` set (pd_circuits db)"
    using assms(2) by (auto simp: find_circuit_def find_None_iff)
  note ok = assms(1) [unfolded circuits_ok_iff]
  let ?up = "up_links (find_circuit db) pc_parent_circuit_id"
  have "acyclic (up_links (find_circuit ?db) pc_parent_circuit_id)"
  proof (rule acyclic_add_row [where get = "find_circuit db" and c = "pc_id c" and ?r0.0 = c])
    show "find_circuit db (pc_id c) = None" by (rule assms(2))
    show "acyclic ?up" using ok by (simp add: circuit_tree.cycle_free_def)
    show "find_circuit ?db k = (case find_circuit db k of Some r \<Rightarrow> Some r | None \<Rightarrow> if k = pc_id c then Some c else None)" for k
      by (auto simp: find split: option.split)
    show "pc_parent_circuit_id r \<noteq> Some (pc_id c)" if "find_circuit db k = Some r" for k r
    proof -
      have "r \<in> set (pd_circuits db)" using that by (auto simp: find_circuit_def dest: find_SomeD)
      with ok assms(2) show ?thesis by auto
    qed
    show "pc_parent_circuit_id c \<noteq> Some (pc_id c)" using parent assms(2) by blast
  qed
  then have "circuit_tree.cycle_free ?db" by (simp only: circuit_tree.cycle_free_def)
  then show ?thesis
    unfolding circuits_ok_iff using ok assms(3,4) new parent
    by (auto simp: find split: option.splits)
qed

lemma update_keeps_ok:
  assumes "circuits_ok db" "is_none_or (cr_voltage_rating req) (\<lambda>v. 0 < v)" "is_none_or (cr_amperage_limit req) (\<lambda>a. 0 < a)"
    and move: "\<And>p. cr_parent req = Some (Some p) \<Longrightarrow>
      p \<noteq> cid \<and> (\<exists>chain. circuit_ancestors db p = Inr chain \<and> (\<forall>a \<in> set chain. pc_id a \<noteq> cid))"
  shows "circuits_ok (snd (update_circuits (\<lambda>c. pc_id c = cid) (change_circuit trim req) db))"
proof -
  let ?db = "snd (update_circuits (\<lambda>c. pc_id c = cid) (change_circuit trim req) db)"
  have find: "find_circuit ?db k = map_option (\<lambda>c. if k = cid then change_circuit trim req c else c) (find_circuit db k)" for k
    by (simp add: find_circuit_def update_circuits_def find_update_row change_circuit_def)
  have ids: "map pc_id (pd_circuits ?db) = map pc_id (pd_circuits db)"
    by (simp add: update_circuits_def change_circuit_def)
  note ok = assms(1) [unfolded circuits_ok_iff]
  have found: "find_circuit db p \<noteq> None" if "cr_parent req = Some (Some p)" for p
    using move [OF that] by (auto simp: circuit_ancestors_def split: option.splits)
  have row: "0 < pc_voltage_rating c' \<and> 0 < pc_amperage_limit c' \<and>
      (\<forall>p. pc_parent_circuit_id c' = Some p \<longrightarrow> find_circuit db p \<noteq> None)"
    if c': "c' \<in> set (pd_circuits ?db)" for c'
  proof -
    obtain c where c: "c \<in> set (pd_circuits db)" "c' = (if pc_id c = cid then change_circuit trim req c else c)"
      using c' by (auto simp: update_circuits_def)
    have "0 < pc_voltage_rating c \<and> 0 < pc_amperage_limit c \<and>
        (\<forall>p. pc_parent_circuit_id c = Some p \<longrightarrow> find_circuit db p \<noteq> None)" using ok c(1) by blast
    then show ?thesis
      using c(2) assms(2,3) found
      by (cases "cr_voltage_rating req"; cases "cr_amperage_limit req"; cases "cr_parent req")
         (auto simp: change_circuit_def)
  qed
  have "circuit_tree.cycle_free ?db"
  proof (cases "cr_parent req")
    case None
    have "Option.bind (find_circuit ?db k) pc_parent_circuit_id = Option.bind (find_circuit db k) pc_parent_circuit_id" for k
      by (cases "find_circuit db k") (simp_all add: find change_circuit_def None)
    then have "up_links (find_circuit ?db) pc_parent_circuit_id = up_links (find_circuit db) pc_parent_circuit_id"
      by (rule up_links_cong)
    then show ?thesis using ok by (simp add: circuit_tree.cycle_free_def)
  next
    case (Some q)
    have "Option.bind (find_circuit ?db k) pc_parent_circuit_id =
        Option.bind (find_circuit (set_circuit_parent cid q db) k) pc_parent_circuit_id" for k
      by (cases "find_circuit db k") (simp_all add: find find_set_circuit_parent change_circuit_def Some)
    then have same: "up_links (find_circuit ?db) pc_parent_circuit_id =
        up_links (find_circuit (set_circuit_parent cid q db)) pc_parent_circuit_id"
      by (rule up_links_cong)
    have "circuit_tree.cycle_free (set_circuit_parent cid q db)"
    proof (cases q)
      case None
      with ok circuit_tree.detach_keeps show ?thesis by blast
    next
      case p: (Some p)
      obtain chain r where "p \<noteq> cid" "find_circuit db p = Some r"
        "ancestors_loop (find_circuit db) pc_parent_circuit_id ''power circuit ancestor chain exceeded 32 levels''
           32 (pc_parent_circuit_id r) [] = Inr chain" "\<forall>a \<in> set chain. pc_id a \<noteq> cid"
        using move [of p] Some p by (auto simp: circuit_ancestors_def split: option.splits)
      with ok show ?thesis unfolding p by (intro circuit_tree.guarded_move_keeps) auto
    qed
    then show ?thesis using same by (simp add: circuit_tree.cycle_free_def)
  qed
  with row ids ok show ?thesis
    unfolding circuits_ok_iff by (simp add: find)
qed


lemma delete_keeps_ok:
  assumes "circuits_ok db" "\<forall>c \<in> set (pd_circuits db). pc_parent_circuit_id c \<noteq> Some cid"
  shows "circuits_ok (db\<lparr>pd_circuits := filter (\<lambda>c. pc_id c \<noteq> cid) (pd_circuits db)\<rparr>)"
proof -
  let ?db = "db\<lparr>pd_circuits := filter (\<lambda>c. pc_id c \<noteq> cid) (pd_circuits db)\<rparr>"
  note ok = assms(1) [unfolded circuits_ok_iff]
  have find: "find_circuit ?db k = (if k = cid then None else find_circuit db k)" for k
    by (simp add: find_circuit_def find_filter_row)
  have "up_links (find_circuit ?db) pc_parent_circuit_id \<subseteq> up_links (find_circuit db) pc_parent_circuit_id"
    by (auto simp: up_links_def find split: if_splits)
  then have "circuit_tree.cycle_free ?db"
    using ok by (auto simp: circuit_tree.cycle_free_def intro: acyclic_subset)
  moreover have "distinct (map pc_id (filter (\<lambda>c. pc_id c \<noteq> cid) (pd_circuits db)))"
    using ok by (simp add: distinct_map_filter)
  ultimately show ?thesis
    unfolding circuits_ok_iff using ok assms(2) by (auto simp: find)
qed

interpretation circuit_table: preserved "server_power_step v" circuits_ok for v
proof
  fix db e
  assume ok: "circuits_ok db"
  have same: "map circuit_shape (pd_circuits (server_power_step v e db)) = map circuit_shape (pd_circuits db) \<Longrightarrow>
      circuits_ok (server_power_step v e db)"
    using ok circuits_ok_same by blast
  show "circuits_ok (server_power_step v e db)"
  proof (cases e)
    case (SReport header req now d)
    have "map circuit_shape (pd_circuits (snd (snd (power_report (pp_text v) (pp_hash v) (pp_show v) (pp_threshold v) header req now d db))))
        = map circuit_shape (pd_circuits db)"
      by (rule power_report_cases [of "pp_text v" "pp_hash v" "pp_show v" "pp_threshold v" header req now d db])
         (auto dest!: ingest_circuits locks_of_shapes)
    then show ?thesis by (intro same) (simp add: SReport)
  next
    case (STrip header circuit reason now d)
    have "engage_circuit_lockout c src r now db = (n, db1) \<Longrightarrow>
        map circuit_shape (pd_circuits db1) = map circuit_shape (pd_circuits db)" for c src r n db1
      using engage_circuit_lockout_effect locks_of_shapes by blast
    then show ?thesis
      by (intro same) (auto simp: STrip power_trip_def split: sum.splits option.splits prod.splits)
  next
    case (SReenableCircuit enabled staff c)
    then show ?thesis
      by (intro same) (simp add: reenable_circuit_def clear_circuit_lockout_def update_circuits_def
          circuit_shape_def split: option.splits)
  next
    case (SReenableTool enabled ts staff tid)
    then show ?thesis by (intro same) (simp add: reenable_tool_def split: option.splits)
  next
    case (SCreateCircuit enabled c label voltage limit parent)
    then show ?thesis
      using ok by (auto simp: create_circuit_def Let_def is_some_and_iff
          intro!: create_keeps_ok split: option.splits)
  next
    case (SUpdateCircuit enabled c req)
    show ?thesis
      using ok by (auto simp: SUpdateCircuit update_circuit_def Let_def is_some_and_iff is_none_or_iff list_ex_iff
          not_le intro!: update_keeps_ok split: option.splits sum.splits)
  next
    case (SDeleteCircuit c)
    then show ?thesis
      using ok by (auto simp: delete_circuit_def list_ex_iff
          intro!: delete_keeps_ok)
  qed
qed

text \<open>
  The circuit table stays well formed through every sequence of the server's operations: ids are
  unique, every rating is positive, every upstream circuit exists, and no circuit is upstream of itself.
  The move guard is enough although its walk gives up after 32 levels, because a walk that gives up
  refuses the move.
\<close>

lemma circuit_table_stays_well_formed:
  assumes "circuits_ok db"
  shows "circuits_ok (run_events (server_power_step v) es db)"
  using circuit_table.run_keeps assms by blast


section \<open>Trunks\<close>

lemma circuit_of_outlet:
  assumes "power_wf ts db" "circuit_of ts db tid = Some c"
  shows "\<exists>p \<in> set (pd_outlets db). po_circuit_id p = c"
  using assms(2) by (auto simp: circuit_of_def tool_circuit_alt [OF assms(1)] bind_eq_Some_conv dest: find_SomeD)

text \<open>
  The rating of an upstream circuit is not enforced against what its branches draw: the totals
  follow tool, receptacle, outlet and circuit and stop there. A trunk that only feeds sub-circuits has a
  total of zero and is never tripped, whatever flows through it.
\<close>

lemma trunk_rating_is_never_enforced:
  assumes "power_wf ts db" "c \<in> set (pd_circuits db)" "0 \<le> pc_amperage_limit c"
    and "\<forall>p \<in> set (pd_outlets db). po_circuit_id p \<noteq> pc_id c"
  shows "summed_draw ts db (pc_id c) = 0 \<and>
    pc_id c \<notin> fst ` set (overloaded_circuits
       (map (\<lambda>c. (pc_id c, pc_amperage_limit c, pc_locked_out c)) (pd_circuits db)) (circuit_draw_totals ts db))"
proof -
  have z: "summed_draw ts db (pc_id c) = 0"
  proof -
    have "circuit_of ts db tid \<noteq> Some (pc_id c)" for tid
      using circuit_of_outlet [OF assms(1)] assms(4) by blast
    then show ?thesis by (simp add: summed_draw_def)
  qed
  have "c' = c" if "c' \<in> set (pd_circuits db)" "pc_id c' = pc_id c" for c'
    using that assms(1,2) by (auto simp: power_wf_def distinct_map inj_on_def)
  then show ?thesis
    using z assms(3) by (auto simp: set_overloaded_circuits circuit_draw_totals_sum [OF assms(1)])
qed

section \<open>Witnesses\<close>

definition demo_circuit :: "uuid \<Rightarrow> rat \<Rightarrow> uuid option \<Rightarrow> power_circuit" where
  "demo_circuit cid limit parent = \<lparr>pc_id = cid, pc_breaker_label = ''b'', pc_voltage_rating = 230,
     pc_amperage_limit = limit, pc_parent_circuit_id = parent, pc_locked_out = False,
     pc_lockout_reason = None, pc_lockout_source = None, pc_locked_out_at = None, pc_locked_out_by = None\<rparr>"

definition demo_reading :: "uuid \<Rightarrow> rat \<Rightarrow> tool_power_state" where
  "demo_reading tid amps = \<lparr>tps_tool_id = tid, last_draw_amps = Some amps, last_voltage = None,
     reported_max_voltage = None, reported_amperage_limit = None, last_reported_at = 0,
     tps_locked_out = False, tps_lockout_reason = None, tps_locked_out_at = None,
     last_relay_on = None, power_evidence_since = None\<rparr>"

text \<open>Two branches of 16 A under a trunk of 20 A, each drawing 15 A.\<close>

definition demo_topology :: power_db where
  "demo_topology = \<lparr>pd_circuits = [demo_circuit 100 20 None, demo_circuit 101 16 (Some 100), demo_circuit 102 16 (Some 100)],
     pd_outlets = [\<lparr>po_id = 40, po_circuit_id = 101\<rparr>, \<lparr>po_id = 41, po_circuit_id = 102\<rparr>],
     pd_receptacles = [\<lparr>pr_id = 30, pr_outlet_id = 40\<rparr>, \<lparr>pr_id = 31, pr_outlet_id = 41\<rparr>],
     pd_states = [demo_reading 7 15, demo_reading 8 15], pd_audit = []\<rparr>"

definition demo_shop_tools :: "tool_row list" where
  "demo_shop_tools = [demo_bandsaw, demo_bandsaw\<lparr>tr_id := 8, tr_external_id := Some ''lathe'', tr_receptacle_id := Some 31\<rparr>]"

lemma demo_topology_wf: "power_wf demo_shop_tools demo_topology"
  by (simp add: power_wf_def demo_topology_def demo_shop_tools_def demo_circuit_def demo_bandsaw_def demo_reading_def)

theorem coordinator_lockout_is_the_gate_witness:
  "\<not> is_locked (power_apply_state demo_power (power_state_snapshot demo_text (\<lambda>_. []) [] demo_shop_tools demo_topology)) ''lathe''"
proof -
  let ?t = "demo_bandsaw\<lparr>tr_id := 8, tr_external_id := Some ''lathe'', tr_receptacle_id := Some 31\<rparr>"
  have "length (show_nat 7) = 1" by (subst show_nat.simps) simp
  then have "show_nat 7 \<noteq> ''lathe''" by (intro notI) simp
  then have "names_only demo_text demo_shop_tools ''lathe'' ?t"
    by (auto simp: names_only_def demo_shop_tools_def demo_bandsaw_def demo_text_def)
  moreover have "\<not> tool_is_locked_out demo_shop_tools demo_topology (tr_id ?t)"
    unfolding tool_is_locked_out_iff [OF demo_topology_wf] own_locked_out_def circuit_locked_out_def
    by (auto simp: demo_topology_def demo_reading_def demo_circuit_def)
  ultimately show ?thesis
    using coordinator_lockout_is_the_gate [OF demo_topology_wf demo_text_ok] by blast
qed

lemma demo_circuits_ok: "circuits_ok (demo_topology\<lparr>pd_circuits := [demo_circuit 100 20 None]\<rparr>)"
  by (auto simp: circuits_ok_def shapes_ok_def shape_links_def circuit_shape_def demo_circuit_def acyclic_def)

definition demo_params :: power_params where
  "demo_params = \<lparr>pp_text = demo_text, pp_hash = id, pp_show = (\<lambda>_. []), pp_threshold = 1, pp_trim = id\<rparr>"

theorem lockout_lifted_only_by_staff_witness:
  "own_locked_out (run_events (server_power_step demo_params) [SReenableTool True demo_shop_tools 1 8]
     (engage_tool_lockout 7 ''trip'' 0 demo_topology)) 7"
proof -
  have "own_locked_out (engage_tool_lockout 7 ''trip'' 0 demo_topology) 7"
    by (simp add: own_locked_out_def engage_tool_lockout_def get_tool_power_state_def demo_topology_def demo_reading_def)
  moreover have "\<forall>e \<in> set [SReenableTool True demo_shop_tools 1 8]. \<not> lifts_tool 7 e" by simp
  ultimately show ?thesis using lockout_lifted_only_by_staff by blast
qed

text \<open>A report of 20 A on the saw takes branch 101 over its 16 A.\<close>

definition demo_circuit_report :: power_report_request where
  "demo_circuit_report = \<lparr>prq_tool_id = Some ''saw'', prq_draw_now = Some 20, prq_voltage_now = None,
     prq_max_voltage = None, prq_amperage_limit = None, prq_self_tripped = None, prq_relay_on = None,
     prq_device_id = None\<rparr>"

theorem report_bounds_every_circuit_witness:
  "within_limits (dd_tools demo_devices)
     (snd (snd (power_report demo_text id (\<lambda>_. []) 1 (Some ''Bearer e'') demo_circuit_report 5 demo_devices demo_topology)))"
proof -
  let ?r = "power_report demo_text id (\<lambda>_. []) 1 (Some ''Bearer e'') demo_circuit_report 5 demo_devices demo_topology"
  have t: "find_tool_by_toolguard_id demo_text demo_devices ''saw'' = Some demo_bandsaw"
    by (simp add: find_tool_by_toolguard_id_def get_tool_by_external_id_def query_def demo_devices_def demo_bandsaw_def)
  have "bound demo_devices 1 (tr_id demo_bandsaw)" "db_faults demo_devices q = None" for q
    by (simp_all add: demo_devices_def bound_def demo_bandsaw_def)
  then have "authorize_toolguard demo_text id demo_devices (Some ''Bearer e'') ''saw'' = Inr 1"
    using t demo_credential by (auto simp: authorize_toolguard_Inr)
  moreover obtain changed db' where
    "ingest_report (\<lambda>_. []) 1 (dd_tools demo_devices) demo_bandsaw demo_circuit_report 5 demo_topology = (changed, db')"
    by fastforce
  moreover have fields: "prq_tool_id demo_circuit_report = Some ''saw''" "prq_device_id demo_circuit_report = None"
    "prq_self_tripped demo_circuit_report = None" by (simp_all add: demo_circuit_report_def)
  ultimately have r: "?r = (Inr changed, demo_devices, db')"
    using t by (simp add: power_report_def authorize_power_report_def)
  have "power_wf (dd_tools demo_devices) demo_topology"
    using demo_topology_wf by (simp add: power_wf_def demo_devices_def demo_bandsaw_def)
  then have "within_limits (dd_tools demo_devices) db'"
    by (rule report_bounds_every_circuit [OF _ _ r]) (simp add: fields)
  then show ?thesis by (simp add: r)
qed

end
