(* ===== verification/Tool_Access_Safety.thy ===== *)
theory Tool_Access_Safety
  imports Tool_Access Power_Safety Billing_Safety
begin

text \<open>
  The tool path end to end: what the server's rule for a tool says, that the allow-list it compiles for
  a device decides offline as the rule decides online, and where the two card schemes disagree.
\<close>

section \<open>The rule\<close>

definition step_done :: "shop \<Rightarrow> uuid \<Rightarrow> uuid \<Rightarrow> instant \<Rightarrow> bool" where
  "step_done s uid sid now \<longleftrightarrow>
     (\<exists>p. find (\<lambda>p. tp_user_id p = uid \<and> tp_step_id p = sid) (sh_progress s) = Some p \<and>
        tp_completed p \<and> is_none_or (tp_expires_at p) (\<lambda>e. now \<le> e))"

definition trained :: "shop \<Rightarrow> uuid \<Rightarrow> uuid \<Rightarrow> bool \<Rightarrow> instant \<Rightarrow> bool" where
  "trained s uid tid requires_training now \<longleftrightarrow>
     (let steps = {sid. (sid, tid) \<in> set (sh_steps s)}
      in (steps = {} \<and> \<not> requires_training) \<or> user_has_active_waiver s uid tid now \<or>
         (steps \<noteq> {} \<and> (\<forall>sid \<in> steps. step_done s uid sid now)))"

lemma steps_completed_iff:
  "steps_completed (sh_progress s) uid now sids \<longleftrightarrow> (\<forall>sid \<in> set sids. step_done s uid sid now)"
  by (induction sids)
     (auto simp: step_done_def is_some_and_iff is_none_or_iff not_less split: option.splits)

lemma tool_has_training_steps_iff: "tool_has_training_steps s tid \<longleftrightarrow> {sid. (sid, tid) \<in> set (sh_steps s)} \<noteq> {}"
  by (auto simp: tool_has_training_steps_def list_ex_iff)

lemma training_ok_iff: "training_ok s uid tid req now \<longleftrightarrow> trained s uid tid req now"
proof -
  have "user_has_completed_all_training_steps s uid tid now \<longleftrightarrow>
      (\<forall>sid \<in> {sid. (sid, tid) \<in> set (sh_steps s)}. step_done s uid sid now)"
    by (auto simp: user_has_completed_all_training_steps_def Let_def steps_completed_iff filter_empty_conv)
  then show ?thesis
    by (auto simp: training_ok_def trained_def Let_def tool_has_training_steps_iff)
qed

lemma authorized_for_tool_iff:
  "user_is_authorized_for_tool x v s uid tid req now \<longleftrightarrow>
     \<not> tool_is_locked_out (shop_tools s) (sh_power s) tid \<and> trained s uid tid req now"
  by (auto simp: user_is_authorized_for_tool_def may_def Let_def schedule_state_at_def rule_fires_def
      training_ok_iff)

text \<open>
  The one rule for a tool: a member may use it exactly when neither the tool nor its circuit is locked
  out and they are trained, that is, the tool asks for no training, or they hold a waiver that has
  not expired, or it has steps and they have completed every one of them and none has lapsed. A
  tool that requires training and has no steps is closed to everyone without a waiver.
\<close>

lemma tool_rule_is_lockout_and_training:
  assumes "power_wf (shop_tools s) (sh_power s)"
  shows "user_is_authorized_for_tool x v s uid tid req now \<longleftrightarrow>
    \<not> own_locked_out (sh_power s) tid \<and>
    (\<forall>c. circuit_of (shop_tools s) (sh_power s) tid = Some c \<longrightarrow> \<not> circuit_locked_out (sh_power s) c) \<and>
    trained s uid tid req now"
  by (auto simp: authorized_for_tool_iff tool_is_locked_out_iff [OF assms])

section \<open>The allow-list\<close>

lemma set_push_new [simp]: "set (push_new acc ds) = set acc \<union> set ds"
  by (induction acc ds rule: push_new.induct) auto

lemma set_map_filter: "set (List.map_filter f xs) = {y. \<exists>x \<in> set xs. f x = Some y}"
  by (induction xs) (auto simp: List.map_filter_simps split: option.splits)

text \<open>A digest stands for a user when a value of their profile or one of their active cards has it.\<close>

definition stands_for :: "string \<Rightarrow> card_cipher option \<Rightarrow> shop \<Rightarrow> string \<Rightarrow> shop_user \<Rightarrow> bool" where
  "stands_for field cipher s d u \<longleftrightarrow>
     (\<exists>c w. cipher = Some c \<and> w \<in> set (profile_values (json_get (us_profile u) field)) \<and> cc_wire_digest c w = Some d) \<or>
     (\<exists>k \<in> set (sh_cards s). uc_user_id k = us_id u \<and> uc_status k = CsActive \<and> uc_wire_digest k = Some d)"

lemma user_digests_iff: "d \<in> set (user_digests field cipher s u) \<longleftrightarrow> stands_for field cipher s d u"
  by (cases cipher) (auto simp: user_digests_def stands_for_def Let_def set_map_filter)

lemma sync_users_loop_ex:
  "(\<exists>r \<in> set (sync_users_loop digests allowed us). Q r) \<longleftrightarrow>
     (\<exists>u \<in> set us. \<exists>d. d \<in> set (digests u) \<and> allowed u \<noteq> [] \<and>
        Q \<lparr>su_profile_field_digest = d, su_full_name = us_full_name u, su_is_active = us_is_active u,
           su_authorized_tool_ids = allowed u\<rparr>)"
  by (induction us) auto

lemma set_filter_map_filter:
  "y \<in> set (filter P (map f (filter Q xs))) \<longleftrightarrow> (\<exists>x \<in> set xs. y = f x \<and> P (f x) \<and> Q x)"
  by auto

definition sole_owner :: "string \<Rightarrow> card_cipher option \<Rightarrow> shop \<Rightarrow> string \<Rightarrow> bool" where
  "sole_owner field cipher s d \<longleftrightarrow>
     (\<forall>u \<in> set (sh_users s). \<forall>w \<in> set (sh_users s).
        stands_for field cipher s d u \<and> stands_for field cipher s d w \<longrightarrow> u = w)"

text \<open>What the server would say of a presented digest, for one tool and one device.\<close>

definition server_says_yes ::
  "text_ops \<Rightarrow> sched_env \<Rightarrow> (rat \<Rightarrow> rat) \<Rightarrow> string \<Rightarrow> card_cipher option \<Rightarrow> billing_config option \<Rightarrow> shop \<Rightarrow>
   instant \<Rightarrow> uuid \<Rightarrow> string \<Rightarrow> tool_row \<Rightarrow> bool" where
  "server_says_yes x v rnd field cipher gate s now dev d t \<longleftrightarrow>
     (\<exists>u \<in> set (sh_users s). stands_for field cipher s d u \<and> us_is_active u \<and>
        bound (sh_devices s) dev (tr_id t) \<and> sync_authorized x v rnd gate s now u t) \<and>
     tr_id t \<notin> closed_tool_ids_now v s now \<and> tr_status t = Idle"

lemma bound_tools_iff: "t \<in> set (bound_tools s dev) \<longleftrightarrow> t \<in> set (shop_tools s) \<and> bound (sh_devices s) dev (tr_id t)"
  by (auto simp: bound_tools_def list_ex_iff bound_def)

lemma sync_access_iff:
  fixes s :: shop and g :: toolguard_state
  assumes p_def: "p = build_sync_payload x v rnd nm field cipher gate s now dev"
    and names: "names_only x (shop_tools s) n t"
    and ids: "distinct (map tr_id (shop_tools s))"
    and owner: "sole_owner field cipher s d"
    and digest: "wire_digest_hex g code = Some d"
  shows "check_access x (apply_sync_at g p req) code n = Authorized \<longleftrightarrow>
    server_says_yes x v rnd field cipher gate s now dev d t"
proof -
  let ?tools = "bound_tools s dev"
  let ?allowed = "\<lambda>u. map tr_id (filter (sync_authorized x v rnd gate s now u) ?tools)"
  let ?digests = "user_digests field cipher s"
  let ?closed = "closed_tool_ids_now v s now"
  let ?open = "\<lambda>i. i \<notin> ?closed"
  let ?row = "\<lambda>u d. \<lparr>su_profile_field_digest = d, su_full_name = us_full_name u, su_is_active = us_is_active u,
                   su_authorized_tool_ids = filter ?open (?allowed u)\<rparr>"
  let ?srow = "\<lambda>t. \<lparr>st_id = tr_id t, st_external_id = tr_external_id t, st_name = nm (tr_id t),
                    st_status = tr_status t,
                    st_requires_online = (case gate of Some c \<Rightarrow> gate_requires_online c (tr_billing t) | None \<Rightarrow> False)\<rparr>"
  have same: "t1 = t2" if "t1 \<in> set (shop_tools s)" "t2 \<in> set (shop_tools s)" "tr_id t1 = tr_id t2" for t1 t2
    using that ids by (auto simp: distinct_map inj_on_def)
  have t: "t \<in> set (shop_tools s)" using names by (simp add: names_only_def)
  have users: "y \<in> set (sp_users p) \<longleftrightarrow> (\<exists>u \<in> set (sh_users s). \<exists>d. stands_for field cipher s d u \<and> ?allowed u \<noteq> [] \<and> y = ?row u d)"
    for y
  proof -
    let ?f = "\<lambda>r. r\<lparr>su_authorized_tool_ids := filter ?open (su_authorized_tool_ids r)\<rparr>"
    have "sp_users p = map ?f (sync_users_loop ?digests ?allowed (sh_users s))"
      by (simp add: p_def build_sync_payload_def get_toolguard_sync_data_def Let_def)
    then have "y \<in> set (sp_users p) \<longleftrightarrow> (\<exists>r \<in> set (sync_users_loop ?digests ?allowed (sh_users s)). y = ?f r)"
      by (simp only: set_map image_iff)
    also have "\<dots> \<longleftrightarrow> (\<exists>u \<in> set (sh_users s). \<exists>d. stands_for field cipher s d u \<and> ?allowed u \<noteq> [] \<and>
        y = ?f \<lparr>su_profile_field_digest = d, su_full_name = us_full_name u, su_is_active = us_is_active u,
               su_authorized_tool_ids = ?allowed u\<rparr>)"
      by (simp only: sync_users_loop_ex user_digests_iff)
    finally show ?thesis by (simp only: sync_user.simps)
  qed
  have tools: "y \<in> set (sp_tools p) \<longleftrightarrow> (\<exists>t1 \<in> set ?tools. y = ?srow t1 \<and> ?open (tr_id t1) \<and>
      (\<exists>u \<in> set (sh_users s). ?digests u \<noteq> [] \<and> tr_id t1 \<in> set (?allowed u)))" for y
  proof -
    have "sp_tools p = filter (\<lambda>r. ?open (st_id r)) (map ?srow
        (filter (\<lambda>t. list_ex (\<lambda>u. ?digests u \<noteq> [] \<and> tr_id t \<in> set (?allowed u)) (sh_users s)) ?tools))"
      by (simp add: p_def build_sync_payload_def get_toolguard_sync_data_def Let_def)
    then show ?thesis by (simp only: set_filter_map_filter list_ex_iff sync_tool.simps)
  qed
  have allowed: "tr_id t \<in> set (?allowed u) \<longleftrightarrow>
      bound (sh_devices s) dev (tr_id t) \<and> sync_authorized x v rnd gate s now u t" for u
    using same t by (auto simp: bound_tools_iff image_iff)
  show ?thesis
  proof
    assume "check_access x (apply_sync_at g p req) code n = Authorized"
    then obtain su st where su: "find (\<lambda>u. su_profile_field_digest u = d) (sp_users p) = Some su" "su_is_active su"
      and st: "find (sync_tool_named x n) (sp_tools p) = Some st" "st_id st \<in> set (su_authorized_tool_ids su)" "st_status st = Idle"
      using digest by (auto simp: check_access_Authorized_iff)
    obtain u where u: "u \<in> set (sh_users s)" "stands_for field cipher s d u" "su = ?row u d"
      using find_SomeD [OF su(1)] by (auto simp: users)
    obtain t1 where t1: "t1 \<in> set ?tools" "st = ?srow t1" "?open (tr_id t1)" "sync_tool_named x n st"
      using find_SomeD [OF st(1)] by (auto simp: tools)
    then have "t1 = t" using names by (auto simp: names_only_def sync_tool_named_def bound_tools_iff)
    with t1 st u su(2) allowed [of u] show "server_says_yes x v rnd field cipher gate s now dev d t"
      unfolding server_says_yes_def by fastforce
  next
    assume yes: "server_says_yes x v rnd field cipher gate s now dev d t"
    then obtain u where u: "u \<in> set (sh_users s)" "stands_for field cipher s d u" "us_is_active u"
        "tr_id t \<in> set (?allowed u)" and t_open: "?open (tr_id t)" and idle: "tr_status t = Idle"
      using allowed by (auto simp: server_says_yes_def)
    have "find (\<lambda>u. su_profile_field_digest u = d) (sp_users p) = Some (?row u d)"
    proof (rule find_unique)
      have "?allowed u \<noteq> []" using u(4) by force
      then show "?row u d \<in> set (sp_users p)" unfolding users using u(1,2) by blast
      fix y assume "y \<in> set (sp_users p)" "su_profile_field_digest y = d"
      then obtain w where "w \<in> set (sh_users s)" "stands_for field cipher s d w" "y = ?row w d"
        by (auto simp: users)
      with owner u show "y = ?row u d" unfolding sole_owner_def by blast
    qed simp
    moreover have "find (sync_tool_named x n) (sp_tools p) = Some (?srow t)"
    proof (rule find_unique)
      have "?digests u \<noteq> []" using u(2) by (auto simp: user_digests_iff [symmetric])
      moreover have "t \<in> set ?tools" using u(4) allowed [of u] t by (simp only: bound_tools_iff)
      ultimately show "?srow t \<in> set (sp_tools p)" unfolding tools using u(1,4) t_open by blast
      show "sync_tool_named x n (?srow t)" using names by (auto simp: names_only_def sync_tool_named_def)
      fix y assume "y \<in> set (sp_tools p)" "sync_tool_named x n y"
      then obtain t1 where t1: "t1 \<in> set ?tools" "y = ?srow t1" "sync_tool_named x n y" unfolding tools by blast
      then have eq: "t1 = t" using names by (auto simp: names_only_def sync_tool_named_def bound_tools_iff)
      show "y = ?srow t" using t1(2) unfolding eq .
    qed
    ultimately show "check_access x (apply_sync_at g p req) code n = Authorized"
      using digest u(3,4) t_open idle by (auto simp: check_access_Authorized_iff)
  qed
qed


text \<open>
  C6. Offline is online. A coordinator or module that has applied the allow-list the server built for it
  says yes to a card at a tool exactly when the server's own conditions hold at the moment of the build:
  the card's digest stands for an active member (through an active card or the legacy profile field),
  the device is bound to the tool, nothing is locked out, the member is trained, they can afford a
  metered tool at their own tier's rate, the tool's schedule is open and the tool is idle. Two things
  are assumed: the presented name is the name or the id of that tool and of no other, and the digest
  stands for at most one user record. The unique index on cards gives the second for cards, but nothing
  enforces it for the legacy profile field: when two records share a value, a device reads the first
  entry of the list only and may refuse although an active member meets every condition.
\<close>

theorem offline_tool_access_is_the_server_rule:
  assumes "names_only x (shop_tools s) n t" "distinct (map tr_id (shop_tools s))"
    and "sole_owner field cipher s d" "wire_digest_hex g code = Some d"
  shows "check_access x (apply_sync_at g (build_sync_payload x v rnd nm field cipher gate s now dev) req) code n
      = Authorized \<longleftrightarrow>
    (\<exists>u \<in> set (sh_users s). stands_for field cipher s d u \<and> us_is_active u \<and>
       bound (sh_devices s) dev (tr_id t) \<and>
       \<not> tool_is_locked_out (shop_tools s) (sh_power s) (tr_id t) \<and>
       trained s (us_id u) (tr_id t) (tr_requires_training t) now \<and>
       (\<forall>c. gate = Some c \<longrightarrow> metered_authorized rnd c (sh_billing s) (us_id u) (tr_billing t))) \<and>
    tr_id t \<notin> closed_tool_ids_now v s now \<and> tr_status t = Idle"
proof -
  have rate: "authorizes_rate rnd c flat rate cap (available_balance b uid) (uid \<in> b_members b) \<longleftrightarrow>
      metered_authorized rnd c b uid tl" if "rate_for b uid tl = (flat, rate, cap)" for b uid tl flat rate cap c
    using that by (auto simp: rate_for_def metered_authorized_def authorizes_rate_def resolve_effective_billing_def
        required_for_rate_def required_available_rate_def Let_def split: option.splits billing_mode.splits)
  have "sync_authorized x v rnd gate s now u t \<longleftrightarrow>
      \<not> tool_is_locked_out (shop_tools s) (sh_power s) (tr_id t) \<and>
      trained s (us_id u) (tr_id t) (tr_requires_training t) now \<and>
      (\<forall>c. gate = Some c \<longrightarrow> metered_authorized rnd c (sh_billing s) (us_id u) (tr_billing t))" for u
    by (cases gate) (auto simp: sync_authorized_def authorized_for_tool_iff rate split: prod.splits)
  then show ?thesis
    unfolding sync_access_iff [OF refl assms] server_says_yes_def by blast
qed

text \<open>The schedule gate fails closed, except that a site with no schedule row at all closes nothing.\<close>

lemma closed_tool_ids_iff:
  assumes "distinct (map tr_id (shop_tools s))" "t \<in> set (shop_tools s)"
  shows "tr_id t \<in> closed_tool_ids_now v s now \<longleftrightarrow>
    sh_schedules s \<noteq> [] \<and> tr_schedule_id t \<noteq> None \<and>
    schedule_state_at v (tr_schedule_id t) (sh_schedules s) now \<noteq> Active"
proof -
  have "tr_id t \<in> tr_id ` set (filter P (shop_tools s)) \<longleftrightarrow> P t" for P
    using assms by (auto simp: distinct_map inj_on_def)
  then show ?thesis
    by (auto simp: closed_tool_ids_now_def tool_closed_now_def schedule_state_at_def split: option.splits if_splits)
qed

section \<open>Two card schemes\<close>

text \<open>
  A card that staff have disabled still opens tools offline when its code is also in its owner's
  profile field. Online the card row wins and the swipe is a revoked card; the allow-list the server
  sends to devices takes the profile's values without looking at the cards, so it contains the digest
  of the disabled card, and the device accepts it.
\<close>

lemma disabled_card_opens_offline:
  assumes "names_only x (shop_tools s) n t" "distinct (map tr_id (shop_tools s))"
    and "sole_owner field (Some ci) s d" "wire_digest_hex g code = Some d" "cc_wire_digest ci code = Some d"
    and crd: "find_card s (cc_blind_index ci code) = Some crd" "uc_status crd = CsDisabled"
    and u: "find (\<lambda>u. us_id u = uc_user_id crd) (sh_users s) = Some u" "us_is_active u"
      "json_get (us_profile u) field = Some (JStr code)" "code \<noteq> []"
    and "bound (sh_devices s) dev (tr_id t)" "sync_authorized x v rnd gate s now u t"
      "tr_id t \<notin> closed_tool_ids_now v s now" "tr_status t = Idle"
  shows "resolve_card show_json field (Some ci) s code = Inr (CardRevoked u crd) \<and>
    check_access x (apply_sync_at g (build_sync_payload x v rnd nm field (Some ci) gate s now dev) req) code n
      = Authorized"
proof
  show "resolve_card show_json field (Some ci) s code = Inr (CardRevoked u crd)"
    using crd u by (simp add: resolve_card_def)
  have "stands_for field (Some ci) s d u"
    using u(3,4) assms(5) by (auto simp: stands_for_def profile_values_def)
  then have "server_says_yes x v rnd field (Some ci) gate s now dev d t"
    using assms find_SomeD [OF u(1)] unfolding server_says_yes_def by blast
  then show "check_access x (apply_sync_at g (build_sync_payload x v rnd nm field (Some ci) gate s now dev) req) code n
      = Authorized"
    using sync_access_iff [OF refl assms(1-4)] by blast
qed

text \<open>
  An empty card code is a member. The online lookup compares the code with the profile field as it
  is, so an empty code resolves, as an active card, to the first member whose field is present and
  blank; the allow-list skips blank values.
\<close>

lemma empty_code_resolves_to_blank_profile:
  assumes "identifier_ok field" "is_none_or cipher (\<lambda>c. find_card s (cc_blind_index c []) = None)"
    and "sh_users s = before @ u # rest" "json_get (us_profile u) field = Some (JStr [])"
    and "\<forall>w \<in> set before. json_get (us_profile w) field = None"
  shows "resolve_card show_json field cipher s [] = Inr (CardActive u None) \<and>
    profile_values (json_get (us_profile u) field) = []"
proof -
  have "find (\<lambda>u. profile_matches show_json (json_get (us_profile u) field) []) before = None"
    using assms(5) by (auto simp: find_None_iff profile_matches_def)
  moreover have "profile_matches show_json (json_get (us_profile u) field) []"
    using assms(4) by (simp add: profile_matches_def)
  ultimately have "find (\<lambda>u. profile_matches show_json (json_get (us_profile u) field) []) (sh_users s) = Some u"
    by (simp add: assms(3) find_append)
  moreover have "Option.bind cipher (\<lambda>c. find_card s (cc_blind_index c [])) = None"
    using assms(2) by (cases cipher) auto
  ultimately show ?thesis
    using assms(1,4) by (simp add: resolve_card_def find_user_by_profile_field_def profile_values_def)
qed

section \<open>Witnesses\<close>

definition demo_shop :: "shop_user list \<Rightarrow> user_card list \<Rightarrow> shop" where
  "demo_shop us cs = \<lparr>sh_devices = demo_devices\<lparr>dd_tools := demo_shop_tools\<rparr>, sh_power = demo_topology,
     sh_billing = demo_billing Map.empty, sh_users = us, sh_cards = cs, sh_steps = [], sh_progress = [],
     sh_waivers = [], sh_schedules = [], sh_events = [], sh_sessions = [], sh_resources = [], sh_door_events = [], sh_audit = []\<rparr>"

definition demo_member :: "string \<Rightarrow> shop_user" where
  "demo_member code = \<lparr>us_id = 1, us_full_name = ''Ann'', us_is_active = True,
     us_profile = JObj [(''card'', JStr code)]\<rparr>"

definition demo_card :: "card_status \<Rightarrow> user_card" where
  "demo_card st = \<lparr>uc_id = 50, uc_user_id = 1, uc_code_bidx = ''A'', uc_wire_digest = Some ''A'',
     uc_status = st, uc_created_at = 0, uc_last_used_at = None\<rparr>"

definition demo_cipher :: card_cipher where
  "demo_cipher = \<lparr>cc_blind_index = id, cc_wire_digest = Some\<rparr>"

lemma demo_saw_alone: "names_only demo_text demo_shop_tools ''saw'' demo_bandsaw"
proof -
  have "length (show_nat 8) = 1" by (subst show_nat.simps) simp
  then have "show_nat 8 \<noteq> ''saw''" by (intro notI) simp
  then show ?thesis
    by (auto simp: names_only_def demo_shop_tools_def demo_bandsaw_def demo_text_def)
qed

lemma demo_saw_free: "\<not> tool_is_locked_out demo_shop_tools demo_topology 7"
  unfolding tool_is_locked_out_iff [OF demo_topology_wf] own_locked_out_def circuit_locked_out_def
  by (auto simp: demo_topology_def demo_reading_def demo_circuit_def)

lemma demo_saw_allowed:
  "sync_authorized demo_text demo_env (\<lambda>a. a) None (demo_shop us cs) 0 (demo_member code) demo_bandsaw"
  using demo_saw_free
  by (simp add: sync_authorized_def authorized_for_tool_iff training_ok_iff [symmetric] training_ok_def
      tool_has_training_steps_def demo_shop_def demo_bandsaw_def demo_member_def)

lemma demo_saw_bound: "bound (sh_devices (demo_shop us cs)) 1 7"
  by (simp add: bound_def demo_shop_def demo_devices_def)

lemma demo_shop_tools_distinct: "distinct (map tr_id (shop_tools (demo_shop us cs)))"
  by (simp add: demo_shop_def demo_shop_tools_def demo_bandsaw_def)

theorem offline_tool_access_is_the_server_rule_witness:
  "check_access demo_text (apply_sync_at (with_digester (Some Some))
     (build_sync_payload demo_text demo_env (\<lambda>a. a) (\<lambda>_. []) ''card'' (Some demo_cipher) None
        (demo_shop [demo_member ''A''] []) 0 1) None) ''A'' ''saw'' = Authorized"
proof -
  let ?s = "demo_shop [demo_member ''A''] []"
  have "sole_owner ''card'' (Some demo_cipher) ?s ''A''" by (simp add: sole_owner_def demo_shop_def)
  moreover have "names_only demo_text (shop_tools ?s) ''saw'' demo_bandsaw"
    using demo_saw_alone by (simp add: demo_shop_def)
  moreover have "wire_digest_hex (with_digester (Some Some)) ''A'' = Some ''A''"
    by (simp add: wire_digest_hex_def with_digester_def)
  moreover have "stands_for ''card'' (Some demo_cipher) ?s ''A'' (demo_member ''A'')"
    by (simp add: stands_for_def demo_member_def demo_cipher_def profile_values_def)
  moreover have "demo_member ''A'' \<in> set (sh_users ?s)" "us_is_active (demo_member ''A'')"
    by (simp_all add: demo_shop_def demo_member_def)
  moreover have "bound (sh_devices ?s) 1 (tr_id demo_bandsaw)" "tr_id demo_bandsaw \<notin> closed_tool_ids_now demo_env ?s 0"
      "tr_status demo_bandsaw = Idle" "\<not> tool_is_locked_out (shop_tools ?s) (sh_power ?s) (tr_id demo_bandsaw)"
      "trained ?s (us_id (demo_member ''A'')) (tr_id demo_bandsaw) (tr_requires_training demo_bandsaw) 0"
    using demo_saw_bound demo_saw_free
    by (simp_all add: demo_bandsaw_def closed_tool_ids_now_def trained_def) (simp_all add: demo_shop_def)
  ultimately show ?thesis
    using offline_tool_access_is_the_server_rule [where s = ?s and t = demo_bandsaw and gate = None and dev = 1 and now = 0
        and rnd = "\<lambda>a. a" and nm = "\<lambda>_. []" and v = demo_env and x = demo_text and req = None] demo_shop_tools_distinct
    by blast
qed

end
