(* ===== verification/Tool_Service_Safety.thy ===== *)
theory Tool_Service_Safety
  imports Resource_Service Tool_Access_Safety
begin

text \<open>
  What the resource handlers guarantee: when a scan turns a tool on, that one member has it at a time,
  that the money they move is moved by the billing service alone, what the sweep brings back, and
  where a stop and a lost race do more than they should.
\<close>

section \<open>Frames\<close>

lemma shop_log_simps [frame_simps]:
  "sh_devices (shop_log e s) = sh_devices s" "sh_power (shop_log e s) = sh_power s"
  "sh_billing (shop_log e s) = sh_billing s" "sh_users (shop_log e s) = sh_users s"
  "sh_cards (shop_log e s) = sh_cards s" "sh_events (shop_log e s) = sh_events s"
  "sh_sessions (shop_log e s) = sh_sessions s" "sh_resources (shop_log e s) = sh_resources s"
  by (simp_all add: shop_log_def)

lemma touch_presented_simps [frame_simps]:
  "sh_devices (touch_presented c now s) = sh_devices s" "sh_power (touch_presented c now s) = sh_power s"
  "sh_billing (touch_presented c now s) = sh_billing s" "sh_users (touch_presented c now s) = sh_users s"
  "sh_events (touch_presented c now s) = sh_events s" "sh_sessions (touch_presented c now s) = sh_sessions s"
  "sh_resources (touch_presented c now s) = sh_resources s"
  by (simp_all add: touch_presented_def touch_card_last_used_def split: option.split)

lemma create_tool_event_simps [frame_simps]:
  "sh_devices (create_tool_event e s) = sh_devices s" "sh_power (create_tool_event e s) = sh_power s"
  "sh_billing (create_tool_event e s) = sh_billing s" "sh_users (create_tool_event e s) = sh_users s"
  "sh_events (create_tool_event e s) = sh_events s @ [e]" "sh_sessions (create_tool_event e s) = sh_sessions s"
  "sh_resources (create_tool_event e s) = sh_resources s"
  by (simp_all add: create_tool_event_def)

lemma set_tool_status_simps [frame_simps]:
  "sh_power (set_tool_status i st now s) = sh_power s" "sh_billing (set_tool_status i st now s) = sh_billing s"
  "sh_users (set_tool_status i st now s) = sh_users s" "sh_events (set_tool_status i st now s) = sh_events s"
  "sh_sessions (set_tool_status i st now s) = sh_sessions s"
  "sh_resources (set_tool_status i st now s) = sh_resources s"
  "shop_tools (set_tool_status i st now s) =
     map (\<lambda>t. if tr_id t = i then t\<lparr>tr_status := st, tr_updated_at := now\<rparr> else t) (shop_tools s)"
  by (simp_all add: set_tool_status_def)

lemma settle_if_metered_simps [frame_simps]:
  "sh_devices (settle_if_metered v t st now s) = sh_devices s"
  "sh_events (settle_if_metered v t st now s) = sh_events s"
  "sh_sessions (settle_if_metered v t st now s) = sh_sessions s"
  "sh_resources (settle_if_metered v t st now s) = sh_resources s"
  by (simp_all add: settle_if_metered_def split: option.split)

lemma snd_refuse [simp]: "snd (refuse name u a b s) = shop_log (ToolAccessDenied name u a) s"
  and fst_refuse [simp]: "fst (refuse name u a b s) = Inr (resource_denied b)"
  by (simp_all add: refuse_def)

lemma denied_is_not_authorized [simp]: "resource_denied a \<noteq> resource_authorized b"
  by (simp add: resource_denied_def resource_authorized_def bare_def)

lemma find_tool_set_status:
  "find_tool (set_tool_status i st now s) k =
     map_option (\<lambda>t. if k = i then t\<lparr>tr_status := st, tr_updated_at := now\<rparr> else t) (find_tool s k)"
  by (simp add: find_tool_def frame_simps find_update_row)

lemma find_tool_simps [simp]:
  "find_tool (shop_log e s) k = find_tool s k" "find_tool (touch_presented c now s) k = find_tool s k"
  "find_tool (create_tool_event ev s) k = find_tool s k" "find_tool (settle_if_metered v t st now s) k = find_tool s k"
  "find_tool (s\<lparr>sh_billing := b\<rparr>) k = find_tool s k"
  by (simp_all add: find_tool_def frame_simps)

section \<open>Turning a tool on\<close>

lemma authorized_ignores_cards:
  "user_is_authorized_for_tool x v (touch_presented c now s) uid tid req t = user_is_authorized_for_tool x v s uid tid req t"
  by (cases c) (simp_all add: touch_presented_def touch_card_last_used_def user_is_authorized_for_tool_def training_ok_def
      tool_has_training_steps_def user_has_completed_all_training_steps_def user_has_active_waiver_def)

text \<open>The money gate of a scan: nothing to pay, or no session open on the tool and enough at hand.\<close>

definition money_ok :: "tool_env \<Rightarrow> shop \<Rightarrow> uuid \<Rightarrow> tool_row \<Rightarrow> bool" where
  "money_ok v s uid t \<longleftrightarrow>
     (\<forall>c. metering v t = Some c \<longrightarrow>
        open_tool_session_for_tool (sh_billing s) (tl_id (tr_billing t)) = None \<and>
        metered_authorized (te_rnd v) c (sh_billing s) uid (tr_billing t))"

lemma billing_open_Inr:
  "(\<exists>z. fst (billing_open_session rnd c sid uid t now db) = Inr z) \<longleftrightarrow>
     open_tool_session_for_tool db (tl_id t) = None \<and> metered_authorized rnd c db uid t"
  by (auto simp: billing_open_session_def metered_authorized_def metered_access_ok_def Let_def split: option.splits)

lemma finish_activation_authorized:
  "fst (finish_activation u t name now s) = Inr (resource_authorized None) \<longleftrightarrow>
     (\<exists>r. find_tool s (tr_id t) = Some r \<and> tr_status r = Idle)"
  by (auto simp: finish_activation_def try_activate_tool_def split: option.split)

lemma scan_turns_on_aux:
  "fst (activate_tool v (Some t) crd name sid now s) = Inr (resource_authorized None) \<longleftrightarrow>
     (\<exists>u c. resolve_card (te_show_json v) (te_field v) (te_cipher v) s crd = Inr (CardActive u c) \<and>
        us_is_active u \<and> tr_status t = Idle \<and>
        user_is_authorized_for_tool (te_text v) (te_sched v) s (us_id u) (tr_id t) (tr_requires_training t) now \<and>
        money_ok v s (us_id u) t) \<and>
     (\<exists>r. find_tool s (tr_id t) = Some r \<and> tr_status r = Idle)"
proof (cases "resolve_card (te_show_json v) (te_field v) (te_cipher v) s crd")
  case (Inl e)
  then show ?thesis by (simp add: activate_tool_def resolve_presented_def)
next
  case (Inr res)
  show ?thesis
  proof (cases res)
    case (CardActive u c)
    show ?thesis
    proof (cases "us_is_active u \<and> tr_status t = Idle \<and>
        user_is_authorized_for_tool (te_text v) (te_sched v) s (us_id u) (tr_id t) (tr_requires_training t) now")
      case False
      then have "fst (activate_tool v (Some t) crd name sid now s) \<noteq> Inr (resource_authorized None)"
        using Inr CardActive
        by (cases "tr_status t") (auto simp: activate_tool_def resolve_presented_def Let_def authorized_ignores_cards)
      with False Inr CardActive show ?thesis by auto
    next
      case True
      show ?thesis
      proof (cases "metering v t")
        case None
        with True Inr CardActive show ?thesis
          by (auto simp: activate_tool_def resolve_presented_def Let_def authorized_ignores_cards money_ok_def
              finish_activation_authorized)
      next
        case (Some cfg)
        let ?b = "billing_open_session (te_rnd v) cfg sid (us_id u) (tr_billing t) now (sh_billing s)"
        have "money_ok v s (us_id u) t \<longleftrightarrow> (\<exists>z. fst ?b = Inr z)"
          using Some by (simp add: money_ok_def billing_open_Inr)
        moreover have "fst (activate_tool v (Some t) crd name sid now s) = Inr (resource_authorized None) \<longleftrightarrow>
            (\<exists>z. fst ?b = Inr z) \<and> (\<exists>r. find_tool s (tr_id t) = Some r \<and> tr_status r = Idle)"
          using True Inr CardActive Some
          by (auto simp: activate_tool_def resolve_presented_def Let_def authorized_ignores_cards frame_simps
              finish_activation_authorized split: prod.split sum.split)
        ultimately show ?thesis using True Inr CardActive by auto
      qed
    qed
  qed (use Inr in \<open>simp_all add: activate_tool_def resolve_presented_def\<close>)
qed

text \<open>
  A scan turns a tool on exactly when the card is an active card of an active member, the tool the
  handler looked up is idle and still is when it writes, the one rule for the tool lets the member
  use it (no lockout, trained), and, on a metered tool, no session is open on it and the member
  can pay for one. Everything else is a refusal.
\<close>

lemma scan_turns_on_iff:
  "fst (activate_tool v (Some t) crd name sid now s) = Inr (resource_authorized None) \<longleftrightarrow>
     (\<exists>u c. resolve_card (te_show_json v) (te_field v) (te_cipher v) s crd = Inr (CardActive u c) \<and>
        us_is_active u \<and> tr_status t = Idle \<and>
        user_is_authorized_for_tool (te_text v) (te_sched v) s (us_id u) (tr_id t) (tr_requires_training t) now \<and>
        money_ok v s (us_id u) t) \<and>
     (\<exists>r. find_tool s (tr_id t) = Some r \<and> tr_status r = Idle)"
  by (rule scan_turns_on_aux)

section \<open>Events\<close>

text \<open>
  What can happen to the tools, the rooms and the balances, in the order it reaches the database. A handler's
  lookup of the tool may be older than its write: its status is the event's. The database gives a new session an
  id no row has. A credit is the posting of one entry, once per reference; dues are not among the events.
\<close>

datatype shop_event =
    SScan uuid tool_status string string uuid instant
  | SStop uuid tool_status "string option" string instant
  | SUsage uuid tool_status usage_request instant
  | SBootReset "string option" instant
  | SSweep int int instant
  | SDoorScan bool door_db uuid door string instant
  | SDoorStop uuid string instant
  | SAdminStop string instant
  | SCredit ledger_entry

definition looked_up :: "shop \<Rightarrow> uuid \<Rightarrow> tool_status \<Rightarrow> tool_row option" where
  "looked_up s tid seen = map_option (\<lambda>t. t\<lparr>tr_status := seen\<rparr>) (find_tool s tid)"

fun shop_step :: "tool_env \<Rightarrow> shop_event \<Rightarrow> shop \<Rightarrow> shop" where
  "shop_step v (SScan tid seen crd name sid now) s =
     (if sid \<in> tus_id ` set (b_sessions (sh_billing s)) then s
      else snd (activate_tool v (looked_up s tid seen) crd name sid now s))"
| "shop_step v (SStop tid seen crd name now) s = snd (deactivate_tool v (looked_up s tid seen) crd name now s)"
| "shop_step v (SUsage tid seen req now) s = snd (report_tool_usage v (looked_up s tid seen) req now s)"
| "shop_step v (SBootReset header now) s = snd (boot_reset v header now s)"
| "shop_step v (SSweep default_cap grace now) s = snd (sweep_once v default_cap grace now s)"
| "shop_step v (SDoorScan door_enabled db dev d crd now) s = snd (scan_door v door_enabled db dev d crd now s)"
| "shop_step v (SDoorStop rid closer now) s = snd (close_resource_session rid closer now s)"
| "shop_step v (SAdminStop name now) s = snd (admin_stop v name now s)"
| "shop_step v (SCredit e) s =
     (case post_once (b_ledger (sh_billing s)) e of
        Some l \<Rightarrow> s\<lparr>sh_billing := (sh_billing s)\<lparr>b_ledger := l\<rparr>\<rparr>
      | None \<Rightarrow> s)"

text \<open>A credit that is a debit, or that carries the id of a session for its reference.\<close>

definition improper_credit :: "tool_env \<Rightarrow> shop_event \<Rightarrow> bool" where
  "improper_credit v e \<longleftrightarrow>
     (case e of
        SCredit l \<Rightarrow> le_amount l < 0 \<or> (\<exists>u. le_external_reference l = Some (uuid_show (te_text v) u))
      | _ \<Rightarrow> False)"

section \<open>The handlers move money through the billing service\<close>

text \<open>
  From \<open>s\<close> to \<open>s'\<close> the billing tables moved by calls of the billing service, and the price list
  stayed what the tool rows say.
\<close>

definition priced :: "shop \<Rightarrow> bool" where
  "priced s \<longleftrightarrow> (\<forall>t \<in> set (shop_tools s). b_tools (sh_billing s) (tr_id t) = Some (tr_billing t))"

definition billed_by ::
  "tool_env \<Rightarrow> billing_config \<Rightarrow> shop \<Rightarrow> shop \<Rightarrow> bool" where
  "billed_by v c s s' \<longleftrightarrow>
     (\<exists>es. (\<forall>e \<in> set es. \<not> improper (te_text v) e) \<and>
        sh_billing s' = run_events (billing_step (te_text v) (te_rnd v) (te_fmt3 v) c) es (sh_billing s)) \<and>
     (priced s \<longrightarrow> priced s')"

lemma billed_refl: "billed_by v c s s"
  unfolding billed_by_def by (rule conjI, rule exI [of _ "[]"]) simp_all

lemma billed_trans: "billed_by v c s s1 \<Longrightarrow> billed_by v c s1 s2 \<Longrightarrow> billed_by v c s s2"
  unfolding billed_by_def
  by (elim conjE exE, rule conjI, rule_tac x = "es @ esa" in exI) auto

lemma billed_frame:
  assumes "sh_billing s' = sh_billing s"
    "map (\<lambda>t. (tr_id t, tr_billing t)) (shop_tools s') = map (\<lambda>t. (tr_id t, tr_billing t)) (shop_tools s)"
  shows "billed_by v c s s'"
proof -
  have alt: "priced r \<longleftrightarrow> list_all (\<lambda>(i, b). b_tools (sh_billing r) i = Some b) (map (\<lambda>t. (tr_id t, tr_billing t)) (shop_tools r))" for r
    by (simp add: priced_def list_all_iff)
  have "priced s \<longrightarrow> priced s'" unfolding alt assms by simp
  then show ?thesis
    unfolding billed_by_def using assms(1) by (intro conjI exI [of _ "[]"]) simp_all
qed

lemma billing_step_tools: "b_tools (billing_step x rnd fmt3 c e b) = b_tools b"
proof (cases e)
  case (BSweep now)
  have "b_tools (snd (sweep_loop x rnd c now ss db)) = b_tools db" for ss db
    by (induction ss arbitrary: db) (simp_all add: split_beta split: option.splits)
  with BSweep show ?thesis by (simp add: sweep_abandoned_def)
qed (auto simp: billing_open_session_def record_usage_def settle_open_session_for_tool_def update_open_def Let_def
    split: option.splits)

lemma billed_call:
  assumes "sh_billing s' = billing_step (te_text v) (te_rnd v) (te_fmt3 v) c e (sh_billing s)"
    and "\<not> improper (te_text v) e" "sh_devices s' = sh_devices s"
  shows "billed_by v c s s'"
proof -
  have "priced s \<longrightarrow> priced s'" using assms by (simp add: priced_def billing_step_tools)
  then show ?thesis unfolding billed_by_def using assms(1,2) by (intro conjI exI [of _ "[e]"]) simp_all
qed

lemma billed_log [simp]: "billed_by v c s (shop_log e s')  \<longleftrightarrow> billed_by v c s s'"
  and billed_event [simp]: "billed_by v c s (create_tool_event ev s') \<longleftrightarrow> billed_by v c s s'"
  and billed_touch [simp]: "billed_by v c s (touch_presented k now s') \<longleftrightarrow> billed_by v c s s'"
  and billed_from_touch [simp]: "billed_by v c (touch_presented k now s) s' \<longleftrightarrow> billed_by v c s s'"
  by (simp_all add: billed_by_def priced_def frame_simps)

lemma billed_status [simp]: "billed_by v c s (set_tool_status i st now s)"
  by (rule billed_frame) (simp_all add: frame_simps)

lemma metering_Some: "metering v t = Some c' \<Longrightarrow> te_billing v = Some c \<Longrightarrow> c' = c"
  by (auto simp: metering_def split: option.splits if_splits)

lemma priced_row: "priced s \<Longrightarrow> find_tool s i = Some r \<Longrightarrow> b_tools (sh_billing s) (tr_id r) = Some (tr_billing r)"
  by (auto simp: priced_def find_tool_def dest: find_SomeD)

lemma billed_settle:
  assumes "te_billing v = Some c" "st \<noteq> ''open''" "b_tools (sh_billing s) (tr_id t) = Some (tr_billing t)"
  shows "billed_by v c s (settle_if_metered v t st now s)"
proof (cases "metering v t")
  case None
  then show ?thesis by (simp add: settle_if_metered_def billed_refl)
next
  case (Some c')
  then have "c' = c" using assms(1) metering_Some by blast
  then show ?thesis
    using Some assms(2,3) by (intro billed_call [where e = "BSettle (tr_id t) st now"])
      (simp_all add: settle_if_metered_def improper_def)
qed

lemma billed_finish: "billed_by v c s (snd (finish_activation u t name now s))"
  by (auto simp: finish_activation_def try_activate_tool_def billed_refl split: option.split)

lemma billed_activate:
  assumes c: "te_billing v = Some c" and p: "priced s" and sid: "sid \<notin> tus_id ` set (b_sessions (sh_billing s))"
    and t: "\<And>t. tool = Some t \<Longrightarrow> b_tools (sh_billing s) (tr_id t) = Some (tr_billing t)"
  shows "billed_by v c s (snd (activate_tool v tool crd name sid now s))"
proof -
  have pay: "billed_by v c s (s1\<lparr>sh_billing := b\<rparr>)"
    if "billing_open_session (te_rnd v) c' sid (us_id u) (tr_billing t) now (sh_billing s) = (r, b)"
      "metering v t = Some c'" "tool = Some t" "sh_devices s1 = sh_devices s" for s1 b c' u t r
    using that metering_Some [OF that(2) c] t [OF that(3)] sid
    by (intro billed_call [where e = "BOpen sid (us_id u) (tr_id t) now"]) (simp_all add: improper_def)
  show ?thesis
  proof (cases tool)
    case None
    then show ?thesis
      by (auto simp: activate_tool_def Let_def billed_refl split: sum.split card_resolution.split)
  next
    case (Some t)
    have fin: "billed_by v c s (snd (finish_activation u t name now s1))" if "billed_by v c s s1" for u s1
      using that billed_finish billed_trans by blast
    have paid: "billed_by v c s (s1\<lparr>sh_billing := b\<rparr>)"
      if "billing_open_session (te_rnd v) c' sid (us_id u) (tr_billing t) now (sh_billing s) = (r, b)"
        "metering v t = Some c'" "sh_devices s1 = sh_devices s" for s1 b c' u r
      using that Some by (intro pay)
    show ?thesis
      by (auto simp: activate_tool_def Let_def Some frame_simps billed_refl
          split: sum.split card_resolution.split option.split prod.split intro!: fin intro: paid)
  qed
qed


lemma billed_stop:
  assumes "te_billing v = Some c" "b_tools (sh_billing s) (tr_id t) = Some (tr_billing t)"
  shows "billed_by v c s (snd (stop_tool v t u now s))"
proof (cases "find_tool s (tr_id t)")
  case None
  then show ?thesis by (simp add: stop_tool_def update_tool_status_def billed_refl)
next
  case (Some r)
  have "billed_by v c (set_tool_status (tr_id t) Idle now s) (settle_if_metered v t ''settled'' now (set_tool_status (tr_id t) Idle now s))"
    using assms by (intro billed_settle) (simp_all add: frame_simps)
  then show ?thesis
    using Some billed_trans [OF billed_status] by (simp add: stop_tool_def update_tool_status_def)
qed

lemma billed_deactivate:
  assumes "te_billing v = Some c" "\<And>t. tool = Some t \<Longrightarrow> b_tools (sh_billing s) (tr_id t) = Some (tr_billing t)"
  shows "billed_by v c s (snd (deactivate_tool v tool crd name now s))"
  using assms by (auto simp: deactivate_tool_def Let_def billed_refl intro: billed_stop
      split: option.split sum.split card_resolution.split)

lemma billed_usage:
  assumes c: "te_billing v = Some c"
  shows "billed_by v c s (snd (report_tool_usage v tool req now s))"
proof -
  have r: "billed_by v c s (s\<lparr>sh_billing := b\<rparr>)"
    if "record_usage (te_fmt3 v) (tr_id t) (ur_seconds req) (ur_active_seconds req) (sh_billing s) = (ok, b)" for b ok t
    using that by (intro billed_call [where e = "BUsage (tr_id t) (ur_seconds req) (ur_active_seconds req)"])
      (simp_all add: improper_def)
  have "billed_by v c s (snd (record_tool_usage v u t req now s))" for u t
    by (auto simp: record_tool_usage_def Let_def billed_refl intro: r split: option.split prod.split)
  then show ?thesis
    by (auto simp: report_tool_usage_def Let_def billed_refl split: option.split sum.split card_resolution.split)
qed

lemma billed_reset_tools:
  assumes "te_billing v = Some c" "\<forall>t \<in> set ts. b_tools (sh_billing s) (tr_id t) = Some (tr_billing t)"
  shows "billed_by v c s (snd (reset_tools v now ts s))"
  using assms(2)
proof (induction ts arbitrary: s)
  case (Cons t ts)
  show ?case
  proof (cases "find_tool s (tr_id t)")
    case None
    then show ?thesis by (simp add: update_tool_status_def billed_refl)
  next
    case (Some r)
    let ?s1 = "create_tool_event \<lparr>te_tool_id = tr_id t, te_event_type = ''deactivated'',
                 te_old_status = Some (tr_status t), te_new_status = Some Idle, te_user_id = None,
                 te_created_at = now\<rparr> (set_tool_status (tr_id t) Idle now s)"
    let ?s2 = "settle_if_metered v t ''abandoned'' now ?s1"
    have "billed_by v c ?s1 ?s2" using Cons.prems assms(1) by (intro billed_settle) (simp_all add: frame_simps)
    then have s2: "billed_by v c s ?s2" using billed_trans [of v c s ?s1] by simp
    have "b_tools (sh_billing ?s2) = b_tools (sh_billing s)"
      by (simp add: settle_if_metered_def frame_simps split: option.split)
    then have "billed_by v c ?s2 (snd (reset_tools v now ts ?s2))" using Cons by simp
    then show ?thesis using billed_trans [OF s2] Some by (simp add: update_tool_status_def)
  qed
qed (simp add: billed_refl)

lemma billed_boot_reset:
  assumes "te_billing v = Some c" "priced s"
  shows "billed_by v c s (snd (boot_reset v header now s))"
proof -
  have "\<forall>t \<in> set (get_inuse_tools s). b_tools (sh_billing s) (tr_id t) = Some (tr_billing t)"
    using assms(2) by (auto simp: priced_def get_inuse_tools_def)
  from billed_reset_tools [OF assms(1) this, of now] show ?thesis
    by (auto simp: boot_reset_def Let_def billed_refl split: sum.split prod.split)
qed


text \<open>The part of a release that touches the money.\<close>

definition settle_released :: "tool_env \<Rightarrow> tool_row \<Rightarrow> instant \<Rightarrow> shop \<Rightarrow> shop" where
  "settle_released v t now s =
     (case te_billing v of
        Some c \<Rightarrow> s\<lparr>sh_billing := snd (settle_open_session_for_tool (te_text v) (te_rnd v) c
                      (tr_billing t) ''abandoned'' now (sh_billing s))\<rparr>
      | None \<Rightarrow> s)"

lemma settle_released_simps [frame_simps]:
  "sh_devices (settle_released v t now s) = sh_devices s" "sh_events (settle_released v t now s) = sh_events s"
  "sh_sessions (settle_released v t now s) = sh_sessions s" "sh_resources (settle_released v t now s) = sh_resources s"
  "b_tools (sh_billing (settle_released v t now s)) = b_tools (sh_billing s)"
  "find_tool (settle_released v t now s) k = find_tool s k"
  by (simp_all add: settle_released_def find_tool_def split: option.split)

lemma release_eq:
  "release v t member now s =
     (case find_tool s (tr_id t) of
        None \<Rightarrow> (Inl (Diesel DieselNotFound ''Record not found''), settle_released v t now s)
      | Some _ \<Rightarrow>
          (Inr (), shop_log (ToolReleasedBySweep (tr_id t) member)
             (create_tool_event \<lparr>te_tool_id = tr_id t, te_event_type = ''deactivated'',
                te_old_status = Some (tr_status t), te_new_status = Some Idle, te_user_id = member,
                te_created_at = now\<rparr> (set_tool_status (tr_id t) Idle now (settle_released v t now s)))))"
proof -
  have "release v t member now s =
    (case update_tool_status (tr_id t) Idle now (settle_released v t now s) of
       (Inl e, s2) \<Rightarrow> (Inl e, s2)
     | (Inr _, s2) \<Rightarrow>
         (Inr (), shop_log (ToolReleasedBySweep (tr_id t) member)
            (create_tool_event \<lparr>te_tool_id = tr_id t, te_event_type = ''deactivated'',
               te_old_status = Some (tr_status t), te_new_status = Some Idle, te_user_id = member,
               te_created_at = now\<rparr> s2)))"
    by (simp add: release_def settle_released_def Let_def)
  then show ?thesis by (simp add: update_tool_status_def frame_simps split: option.split)
qed

lemma billed_settle_released:
  assumes "te_billing v = Some c" "b_tools (sh_billing s) (tr_id t) = Some (tr_billing t)"
  shows "billed_by v c s (settle_released v t now s)"
  using assms by (intro billed_call [where e = "BSettle (tr_id t) ''abandoned'' now"])
    (simp_all add: settle_released_def improper_def)

lemma billed_release:
  assumes "te_billing v = Some c" "b_tools (sh_billing s) (tr_id t) = Some (tr_billing t)"
  shows "billed_by v c s (snd (release v t m now s))"
  using billed_settle_released [OF assms, of now] billed_trans [OF _ billed_status]
  by (auto simp: release_eq split: option.split)

lemma release_tools_list: "b_tools (sh_billing (snd (release v t m now s))) = b_tools (sh_billing s)"
  by (simp add: release_eq frame_simps split: option.split)

lemma billed_release_tools:
  assumes "te_billing v = Some c" "\<forall>t \<in> set ts. b_tools (sh_billing s) (tr_id t) = Some (tr_billing t)"
  shows "billed_by v c s (snd (release_tools v cap grace now ts s))"
  using assms(2)
proof (induction ts arbitrary: s)
  case (Cons t ts)
  obtain r s1 where r: "release v t (Option.bind (latest_activation s (tr_id t)) te_user_id) now s = (r, s1)" by fastforce
  have "billed_by v c s s1"
    using billed_release [OF assms(1), of s t _ now] Cons.prems r by (metis list.set_intros(1) snd_conv)
  moreover have "b_tools (sh_billing s1) = b_tools (sh_billing s)" using release_tools_list r by (metis snd_conv)
  then have "billed_by v c s1 (snd (release_tools v cap grace now ts s1))" using Cons by simp
  ultimately have "billed_by v c s s1" "billed_by v c s (snd (release_tools v cap grace now ts s1))"
    using billed_trans by blast+
  moreover have "billed_by v c s (snd (release_tools v cap grace now ts s))" using Cons by simp
  ultimately show ?case
    using r by (simp add: Let_def split_beta split: sum.split)
qed (simp add: billed_refl)

lemma close_session_frame [frame_simps]:
  "sh_billing (snd (close_resource_session rid b now s)) = sh_billing s"
  "sh_devices (snd (close_resource_session rid b now s)) = sh_devices s"
  "sh_events (snd (close_resource_session rid b now s)) = sh_events s"
  "sh_resources (snd (close_resource_session rid b now s)) = sh_resources s"
  by (simp_all add: close_resource_session_def Let_def)

lemma release_rooms_frame [frame_simps]:
  "sh_billing (snd (release_rooms now zs s)) = sh_billing s"
  "sh_devices (snd (release_rooms now zs s)) = sh_devices s"
  "sh_events (snd (release_rooms now zs s)) = sh_events s"
proof (induction zs arbitrary: s)
  case (Cons z zs)
  obtain e s1 where c: "close_resource_session (rs_resource_id z) ''sweep'' now s = (e, s1)" by fastforce
  have "sh_billing s1 = sh_billing s" "sh_devices s1 = sh_devices s" "sh_events s1 = sh_events s"
    using close_session_frame [of "rs_resource_id z" "''sweep''" now s] c by simp_all
  { case 1 show ?case using c Cons \<open>sh_billing s1 = _\<close> by (simp add: split_beta frame_simps split: option.split) }
  { case 2 show ?case using c Cons \<open>sh_devices s1 = _\<close> by (simp add: split_beta frame_simps split: option.split) }
  { case 3 show ?case using c Cons \<open>sh_events s1 = _\<close> by (simp add: split_beta frame_simps split: option.split) }
qed simp_all

lemma billed_sweep:
  assumes c: "te_billing v = Some c" and p: "priced s"
  shows "billed_by v c s (snd (sweep_once v cap grace now s))"
proof -
  have "\<forall>t \<in> set (get_inuse_tools s). b_tools (sh_billing s) (tr_id t) = Some (tr_billing t)"
    using p by (auto simp: priced_def get_inuse_tools_def)
  from billed_release_tools [OF c this] have b1: "billed_by v c s (snd (release_tools v cap grace now (get_inuse_tools s) s))" .
  have rooms: "billed_by v c s1 (snd (release_rooms now zs s1))" for s1 zs
    by (rule billed_frame) (simp_all add: frame_simps)
  have bill: "billed_by v c s2 (s2\<lparr>sh_billing := snd (sweep_abandoned (te_text v) (te_rnd v) c now (sh_billing s2))\<rparr>)" for s2
    by (rule billed_call [where e = "BSweep now"]) (simp_all add: improper_def)
  obtain r s1 where r: "release_tools v cap grace now (get_inuse_tools s) s = (r, s1)" by fastforce
  show ?thesis
  proof (cases r)
    case (Inl e)
    with b1 r show ?thesis by (simp add: sweep_once_def)
  next
    case (Inr n)
    have "snd (sweep_once v cap grace now s) =
        (let s2 = snd (release_rooms now (rooms_to_release (open_resource_sessions s1)
              (map (\<lambda>r. (rr_id r, rr_kind r)) (sh_resources s1)) (abandoned_cutoff cap grace now)) s1)
         in s2\<lparr>sh_billing := snd (sweep_abandoned (te_text v) (te_rnd v) c now (sh_billing s2))\<rparr>)"
      using r Inr c by (simp add: sweep_once_def split_beta Let_def)
    moreover have "billed_by v c s s1" using b1 r by simp
    ultimately show ?thesis
      unfolding Let_def by (simp only:) (rule billed_trans [OF billed_trans [OF _ rooms] bill])
  qed
qed

lemma open_session_frame [frame_simps]:
  "sh_billing (snd (open_resource_session rid u d now s)) = sh_billing s"
  "sh_devices (snd (open_resource_session rid u d now s)) = sh_devices s"
  by (simp_all add: open_resource_session_def Let_def split: option.split)

lemma scan_door_frame:
  "sh_billing (snd (scan_door v en db dev d crd now s)) = sh_billing s \<and>
   sh_devices (snd (scan_door v en db dev d crd now s)) = sh_devices s"
  by (auto simp: scan_door_def Let_def split_beta frame_simps split: sum.split card_resolution.split option.split)

lemma find_tool_by_name:
  "find_tool_by_toolguard_id x d name = Some t \<Longrightarrow> t \<in> set (dd_tools d)"
  by (auto simp: find_tool_by_toolguard_id_def get_tool_by_external_id_def get_tool_by_id_def query_def
      split: option.splits sum.splits if_splits dest: find_SomeD)

lemma billed_admin_stop:
  assumes c: "te_billing v = Some c" and p: "priced s"
  shows "billed_by v c s (snd (admin_stop v name now s))"
proof -
  have tool: "billed_by v c s (snd (deactivate_tool v (Some t) None name now s))"
    if "find_resource (te_text v) (sh_devices s) name = Inr (Some (RTool t))" for t
  proof -
    have "t \<in> set (shop_tools s)"
      using that by (auto simp: find_resource_def split: option.splits sum.splits if_splits dest: find_tool_by_name)
    then show ?thesis using p by (intro billed_deactivate [OF c]) (auto simp: priced_def)
  qed
  have door: "billed_by v c s (snd (close_resource_session did who now s))" for did who
    by (rule billed_frame) (simp_all add: frame_simps)
  show ?thesis
    using tool door
    by (auto simp: admin_stop_def split_beta billed_refl split: sum.split option.split resource_ref.split)
qed

lemma billed_step:
  assumes c: "te_billing v = Some c" and p: "priced s" and proper: "\<not> improper_credit v e"
  shows "billed_by v c s (shop_step v e s)"
proof -
  have t: "b_tools (sh_billing s) (tr_id t) = Some (tr_billing t)" if "looked_up s tid seen = Some t" for tid seen t
    using that p by (auto simp: looked_up_def priced_row)
  show ?thesis
  proof (cases e)
    case (SScan tid seen crd name sid now)
    then show ?thesis using billed_activate [OF c p] t by (auto simp: billed_refl)
  next
    case (SStop tid seen crd name now)
    then show ?thesis using billed_deactivate [OF c] t by auto
  next
    case (SDoorScan en db dev d crd now)
    then show ?thesis using scan_door_frame [of v en db dev d crd now s] by (intro billed_frame) simp_all
  next
    case (SDoorStop rid closer now)
    then show ?thesis by (intro billed_frame) (simp_all add: frame_simps)
  next
    case (SCredit l)
    show ?thesis
    proof (cases "post_once (b_ledger (sh_billing s)) l")
      case (Some l')
      then show ?thesis using proper SCredit
        by (intro billed_call [where e = "BCredit l"]) (simp_all add: improper_def improper_credit_def)
    qed (simp add: SCredit billed_refl)
  qed (simp_all add: billed_admin_stop [OF c p] billed_usage [OF c] billed_boot_reset [OF c p] billed_sweep [OF c p])
qed

text \<open>
  The contract, over whole runs: the handlers refine the billing service, so whatever the service
  guarantees of its own calls holds of scans, stops, reports, resets and sweeps.
\<close>

interpretation shop_billing: guarded_fact "shop_step v"
  "\<lambda>c s. te_billing v = Some c \<and> priced s \<and> solvent (te_text v) (te_rnd v) c (sh_billing s)"
  "\<lambda>_. improper_credit v" for v
proof
  fix c :: billing_config and s :: shop and e :: shop_event
  assume a: "te_billing v = Some c \<and> priced s \<and> solvent (te_text v) (te_rnd v) c (sh_billing s)"
    and e: "\<not> improper_credit v e"
  then have "billed_by v c s (shop_step v e s)" by (intro billed_step) auto
  then obtain es where "\<forall>e \<in> set es. \<not> improper (te_text v) e"
      "sh_billing (shop_step v e s) = run_events (billing_step (te_text v) (te_rnd v) (te_fmt3 v) c) es (sh_billing s)"
      "priced (shop_step v e s)"
    using a by (auto simp: billed_by_def)
  with a show "te_billing v = Some c \<and> priced (shop_step v e s) \<and>
      solvent (te_text v) (te_rnd v) c (sh_billing (shop_step v e s))"
    using solvency.run_guarded by metis
qed

text \<open>
  C21. Nobody is overdrawn at the tools. In prepaid mode, from a shop whose sessions' holds cover what they
  can be charged, no sequence of scans, stops, usage reports, boot resets, sweeps, administrators' stops, door
  sessions and posted credits, in any order and with lookups as old as they may be, takes a member's available
  balance below zero: every handler moves money only by calls of the billing service that the service's own
  guarantee covers. A credit is an entry whose amount is not negative and whose reference is no session's id;
  refunds and dues are not credits.
\<close>

theorem tools_never_overdraw:
  assumes "te_billing v = Some c" "priced s" "solvent (te_text v) (te_rnd v) c (sh_billing s)"
    and "\<forall>e \<in> set es. \<not> improper_credit v e"
  shows "0 \<le> available_balance (sh_billing (run_events (shop_step v) es s)) uid"
proof -
  have "solvent (te_text v) (te_rnd v) c (sh_billing (run_events (shop_step v) es s))"
    using shop_billing.run_guarded [of v c s es] assms by simp
  then show ?thesis by (simp add: solvent_def)
qed

section \<open>One member at a time\<close>

definition in_use_now :: "uuid \<Rightarrow> shop \<Rightarrow> bool" where
  "in_use_now tid s \<longleftrightarrow> (\<exists>t. find_tool s tid = Some t \<and> tr_status t = InUse)"

text \<open>The events that may end the use of a tool: a stop of it or by an administrator, the reset at boot, and the sweep.\<close>

definition ends_use :: "uuid \<Rightarrow> shop_event \<Rightarrow> bool" where
  "ends_use tid e \<longleftrightarrow>
     (case e of SStop i _ _ _ _ \<Rightarrow> i = tid | SAdminStop _ _ \<Rightarrow> True | SBootReset _ _ \<Rightarrow> True | SSweep _ _ _ \<Rightarrow> True
      | _ \<Rightarrow> False)"

lemma in_use_frame [simp]:
  "in_use_now i (shop_log e s) \<longleftrightarrow> in_use_now i s" "in_use_now i (touch_presented c now s) \<longleftrightarrow> in_use_now i s"
  "in_use_now i (create_tool_event ev s) \<longleftrightarrow> in_use_now i s"
  "in_use_now i (settle_if_metered v t st now s) \<longleftrightarrow> in_use_now i s"
  "in_use_now i (s\<lparr>sh_billing := b\<rparr>) \<longleftrightarrow> in_use_now i s"
  by (simp_all add: in_use_now_def)

lemma in_use_set_status:
  "in_use_now i (set_tool_status k st now s) \<longleftrightarrow> (if i = k then st = InUse \<and> find_tool s i \<noteq> None else in_use_now i s)"
  by (auto simp: in_use_now_def find_tool_set_status)

lemma in_use_finish: "in_use_now i s \<Longrightarrow> in_use_now i (snd (finish_activation u t name now s))"
  by (auto simp: finish_activation_def try_activate_tool_def in_use_set_status split: option.split)

lemma in_use_activate: "in_use_now i s \<Longrightarrow> in_use_now i (snd (activate_tool v tool crd name sid now s))"
  by (auto simp: activate_tool_def Let_def intro!: in_use_finish split: sum.split card_resolution.split option.split prod.split)

lemma in_use_stop: "in_use_now i s \<Longrightarrow> i \<noteq> tr_id t \<Longrightarrow> in_use_now i (snd (stop_tool v t u now s))"
  by (auto simp: stop_tool_def update_tool_status_def in_use_set_status split: option.split)

lemma in_use_deactivate:
  assumes "in_use_now i s" "\<And>t. tool = Some t \<Longrightarrow> tr_id t \<noteq> i"
  shows "in_use_now i (snd (deactivate_tool v tool crd name now s))"
  using assms(1) assms(2) [THEN not_sym]
  by (auto simp: deactivate_tool_def Let_def intro: in_use_stop split: option.split sum.split card_resolution.split)

lemma in_use_usage: "in_use_now i (snd (report_tool_usage v tool req now s)) \<longleftrightarrow> in_use_now i s"
proof -
  have "in_use_now i (snd (record_tool_usage v u t req now s)) \<longleftrightarrow> in_use_now i s" for u t
    by (auto simp: record_tool_usage_def Let_def split: option.split prod.split)
  then show ?thesis
    by (auto simp: report_tool_usage_def Let_def split: option.split sum.split card_resolution.split)
qed

interpretation tool_use: guarded_fact "shop_step v" in_use_now ends_use for v
proof
  fix tid :: uuid and s :: shop and e :: shop_event
  assume u: "in_use_now tid s" and e: "\<not> ends_use tid e"
  have t: "tr_id t \<noteq> tid" if "looked_up s k seen = Some t" "k \<noteq> tid" for k seen t
    using that by (auto simp: looked_up_def find_tool_def dest: find_SomeD)
  show "in_use_now tid (shop_step v e s)"
  proof (cases e)
    case (SStop k seen crd name now)
    with u e t show ?thesis by (auto simp: ends_use_def intro!: in_use_deactivate)
  next
    case (SDoorScan en db dev d crd now)
    with u show ?thesis using scan_door_frame [of v en db dev d crd now s] by (simp add: in_use_now_def find_tool_def)
  next
    case (SDoorStop rid closer now)
    with u show ?thesis by (simp add: in_use_now_def find_tool_def frame_simps)
  qed (use u e in \<open>auto simp: ends_use_def in_use_activate in_use_usage split: option.split\<close>)
qed

lemma activated_in_use:
  assumes "fst (activate_tool v (Some t) crd name sid now s) = Inr (resource_authorized None)"
  shows "in_use_now (tr_id t) (snd (activate_tool v (Some t) crd name sid now s))"
proof -
  obtain u c r where a: "resolve_card (te_show_json v) (te_field v) (te_cipher v) s crd = Inr (CardActive u c)"
      "us_is_active u" "tr_status t = Idle"
      "user_is_authorized_for_tool (te_text v) (te_sched v) s (us_id u) (tr_id t) (tr_requires_training t) now"
      "find_tool s (tr_id t) = Some r" "tr_status r = Idle"
    using assms unfolding scan_turns_on_aux by blast
  show ?thesis
    using assms a
    by (auto simp: activate_tool_def resolve_presented_def Let_def authorized_ignores_cards finish_activation_def
        try_activate_tool_def in_use_set_status split: option.splits prod.splits sum.splits)
qed

text \<open>
  C22. A tool has one member at a time. Once a scan has turned a tool on, no scan of it is answered yes,
  however old the row its handler looked up, until a stop of that tool, a stop by an administrator, the reset at
  boot or the sweep: the status the answer depends on is the one in the database at the write.
\<close>

theorem one_member_at_a_time:
  assumes "fst (activate_tool v (Some t) crd name sid now s) = Inr (resource_authorized None)"
    and "\<forall>e \<in> set es. \<not> ends_use (tr_id t) e" "tr_id t' = tr_id t"
  shows "fst (activate_tool v (Some t') crd' name' sid' now'
           (run_events (shop_step v) es (snd (activate_tool v (Some t) crd name sid now s))))
         \<noteq> Inr (resource_authorized None)"
proof -
  have "in_use_now (tr_id t) (run_events (shop_step v) es (snd (activate_tool v (Some t) crd name sid now s)))"
    using tool_use.run_guarded [OF activated_in_use [OF assms(1)]] assms(2) by blast
  then show ?thesis unfolding scan_turns_on_aux using assms(3) by (auto simp: in_use_now_def)
qed

section \<open>Where a handler does more than it should\<close>

text \<open>
  A scan that loses the race for the tool is refused and still pays. The billing session is opened
  before the compare-and-set on the status; when the tool has stopped being idle in between (another
  scan, or staff who put it under maintenance), the member is told that it is in use, and the
  session, with its hold, stays open in their name.
\<close>

lemma lost_race_keeps_the_session:
  assumes "resolve_card (te_show_json v) (te_field v) (te_cipher v) s crd = Inr (CardActive u c)" "us_is_active u"
    and "tr_status t = Idle"
    and "user_is_authorized_for_tool (te_text v) (te_sched v) s (us_id u) (tr_id t) (tr_requires_training t) now"
    and "metering v t = Some cfg" "money_ok v s (us_id u) t"
    and "find_tool s (tr_id t) = Some r" "tr_status r \<noteq> Idle"
    and out: "activate_tool v (Some t) crd name sid now s = (reply, s')"
  shows "reply = Inr (resource_denied ''Tool is already in use'') \<and>
    (\<exists>z. open_tool_session_for_tool (sh_billing s') (tl_id (tr_billing t)) = Some z \<and> tus_user_id z = us_id u \<and>
       tus_id z = sid)"
proof -
  let ?b = "billing_open_session (te_rnd v) cfg sid (us_id u) (tr_billing t) now (sh_billing s)"
  have none: "open_tool_session_for_tool (sh_billing s) (tl_id (tr_billing t)) = None"
    and "\<exists>z. fst ?b = Inr z"
    using assms(5,6) by (simp_all add: money_ok_def billing_open_Inr)
  then obtain z b where z: "?b = (Inr z, b)" by (metis prod.collapse)
  have new: "b_sessions b = b_sessions (sh_billing s) @ [z]" "tus_tool_id z = tl_id (tr_billing t)" "tus_user_id z = us_id u"
      "tus_id z = sid" "is_open z"
    using z none by (auto simp: billing_open_session_def Let_def is_open_def split: if_splits)
  have step: "activate_tool v (Some t) crd name sid now s =
      refuse name (Some (us_id u)) ''Tool is already in use'' ''Tool is already in use''
        ((touch_presented c now s)\<lparr>sh_billing := b\<rparr>)"
    using assms(1-8) z
    by (simp add: activate_tool_def resolve_presented_def Let_def authorized_ignores_cards frame_simps
        finish_activation_def try_activate_tool_def)
  then have bill: "sh_billing s' = b" and reply: "reply = Inr (resource_denied ''Tool is already in use'')"
    using out by (auto simp: refuse_def frame_simps)
  have "open_tool_session_for_tool b (tl_id (tr_billing t)) = Some z"
    using none new by (simp add: open_tool_session_for_tool_def find_append)
  with reply bill new show ?thesis by auto
qed

lemma stopped_tool:
  assumes "find_tool s (tr_id t) = Some r"
  shows "find_tool (snd (stop_tool v t u now s)) (tr_id t) = Some (r\<lparr>tr_status := Idle, tr_updated_at := now\<rparr>)"
  using assms by (simp add: stop_tool_def update_tool_status_def find_tool_set_status)

text \<open>
  A stop returns a tool to service whatever was the matter with it. A stop without a card from any
  device bound to the tool sets its status to idle and answers ok, also when staff have since marked
  it broken, under maintenance or retired, and a member it is open to can turn it on again.
\<close>

lemma a_stop_clears_any_status:
  assumes "find_tool s (tr_id t) = Some r"
  shows "fst (deactivate_tool v (Some t) None name now s) = Inr (ok_with_message ''Tool deactivated'') \<and>
    find_tool (snd (deactivate_tool v (Some t) None name now s)) (tr_id t) =
      Some (r\<lparr>tr_status := Idle, tr_updated_at := now\<rparr>)"
  using assms stopped_tool [OF assms]
  by (simp add: deactivate_tool_def) (simp add: stop_tool_def update_tool_status_def)

section \<open>The sweep\<close>

lemma latest_activation_event:
  "te_event_type ev \<noteq> ''activated'' \<Longrightarrow> sh_events s' = sh_events s @ [ev] \<Longrightarrow>
   latest_activation s' k = latest_activation s k"
  by (simp add: latest_activation_def)

definition stale_tool :: "int \<Rightarrow> int \<Rightarrow> instant \<Rightarrow> shop \<Rightarrow> tool_row \<Rightarrow> bool" where
  "stale_tool default_cap grace now s t \<longleftrightarrow>
     in_use_since s t <
       abandoned_cutoff (session_cap_minutes (usage_max_session_minutes (tr_billing t)) default_cap) grace now"

lemma release_state:
  assumes "find_tool s (tr_id t) \<noteq> None" "release v t m now s = (r, s1)"
  shows "r = Inr () \<and> latest_activation s1 k = latest_activation s k \<and> sh_sessions s1 = sh_sessions s \<and>
    sh_resources s1 = sh_resources s \<and>
    shop_tools s1 = map (\<lambda>x. if tr_id x = tr_id t then x\<lparr>tr_status := Idle, tr_updated_at := now\<rparr> else x) (shop_tools s)"
  using assms by (auto simp: release_eq frame_simps intro!: latest_activation_event)

lemma release_tools_state:
  assumes "\<forall>t \<in> set ts. find_tool s (tr_id t) \<noteq> None" "distinct (map tr_id ts)"
    and "release_tools v cap grace now ts s = (r, s1)"
  shows "(\<exists>n. r = Inr n) \<and> sh_sessions s1 = sh_sessions s \<and> sh_resources s1 = sh_resources s \<and>
    shop_tools s1 = map (\<lambda>x. if \<exists>t \<in> set ts. tr_id t = tr_id x \<and> stale_tool cap grace now s t
                             then x\<lparr>tr_status := Idle, tr_updated_at := now\<rparr> else x) (shop_tools s)"
  using assms
proof (induction ts arbitrary: s r s1)
  case (Cons t ts)
  show ?case
  proof (cases "stale_tool cap grace now s t")
    case False
    then have "release_tools v cap grace now ts s = (r, s1)"
      using Cons.prems(3) by (simp add: stale_tool_def Let_def not_less)
    then have "(\<exists>n. r = Inr n) \<and> sh_sessions s1 = sh_sessions s \<and> sh_resources s1 = sh_resources s \<and>
      shop_tools s1 = map (\<lambda>x. if \<exists>t \<in> set ts. tr_id t = tr_id x \<and> stale_tool cap grace now s t
                             then x\<lparr>tr_status := Idle, tr_updated_at := now\<rparr> else x) (shop_tools s)"
      using Cons.IH [of s r s1] Cons.prems by simp
    with False show ?thesis by simp
  next
    case True
    obtain r1 s2 where r1: "release v t (Option.bind (latest_activation s (tr_id t)) te_user_id) now s = (r1, s2)" by fastforce
    have "find_tool s (tr_id t) \<noteq> None" using Cons.prems(1) by simp
    note st = release_state [OF this r1]
    obtain r2 s3 where r2: "release_tools v cap grace now ts s2 = (r2, s3)" by fastforce
    have find: "find_tool s2 k \<noteq> None" if "find_tool s k \<noteq> None" for k
      using that st [of k] by (auto simp: find_tool_def find_map find_None_iff comp_def if_distrib split: if_splits)
    have stale: "stale_tool cap grace now s2 x \<longleftrightarrow> stale_tool cap grace now s x" for x
      using st [of "tr_id x"] by (simp add: stale_tool_def in_use_since_def)
    have "(\<exists>n. r2 = Inr n) \<and> sh_sessions s3 = sh_sessions s2 \<and> sh_resources s3 = sh_resources s2 \<and>
      shop_tools s3 = map (\<lambda>x. if \<exists>t \<in> set ts. tr_id t = tr_id x \<and> stale_tool cap grace now s2 t
                               then x\<lparr>tr_status := Idle, tr_updated_at := now\<rparr> else x) (shop_tools s2)"
      using Cons.IH [OF _ _ r2] Cons.prems find by auto
    moreover have "r = (case r2 of Inl e \<Rightarrow> Inl e | Inr n \<Rightarrow> Inr (Suc n))" "s1 = s3"
      using Cons.prems(3) True r1 r2 st by (auto simp: stale_tool_def Let_def not_le split: sum.splits)
    ultimately show ?thesis
      using st [of 0] True by (auto simp: stale)
  qed
qed simp

lemma release_rooms_sessions:
  "sh_sessions (snd (release_rooms now zs s)) =
     map (\<lambda>z. if rs_closed_at z = None \<and> rs_resource_id z \<in> rs_resource_id ` set zs
              then z\<lparr>rs_closed_at := Some now, rs_closed_by := Some ''sweep''\<rparr> else z) (sh_sessions s)"
proof (induction zs arbitrary: s)
  case (Cons z zs)
  obtain e s1 where c: "close_resource_session (rs_resource_id z) ''sweep'' now s = (e, s1)" by fastforce
  have s1: "sh_sessions s1 = map (\<lambda>y. if session_open_on (rs_resource_id z) y
      then y\<lparr>rs_closed_at := Some now, rs_closed_by := Some ''sweep''\<rparr> else y) (sh_sessions s)"
    using c by (auto simp: close_resource_session_def Let_def)
  show ?case
    using c Cons.IH by (cases e) (auto simp: split_beta frame_simps s1 session_open_on_def)
qed (simp add: map_idI)

text \<open>
  C23. The sweep strands nothing. It does not fail; every tool that has been in use for longer than its
  own cap plus the grace is idle after it, every other row is as it was, and no room's session that
  is older than the site's cap plus the grace is left open.
\<close>

theorem sweep_strands_nothing:
  assumes ids: "distinct (map tr_id (shop_tools s))" and out: "sweep_once v cap grace now s = (r, s')"
  shows "(\<exists>n. r = Inr n) \<and>
    shop_tools s' = map (\<lambda>t. if tr_status t = InUse \<and>
        in_use_since s t <
          abandoned_cutoff (session_cap_minutes (usage_max_session_minutes (tr_billing t)) cap) grace now
      then t\<lparr>tr_status := Idle, tr_updated_at := now\<rparr> else t) (shop_tools s) \<and>
    (\<forall>z \<in> set (sh_sessions s'). \<forall>row \<in> set (sh_resources s).
       rs_closed_at z = None \<and> rr_id row = rs_resource_id z \<and> rr_kind row = ''door'' \<longrightarrow>
       abandoned_cutoff cap grace now \<le> rs_opened_at z)"
proof -
  obtain r1 s1 where r1: "release_tools v cap grace now (get_inuse_tools s) s = (r1, s1)" by fastforce
  have same: "t = x" if "t \<in> set (shop_tools s)" "x \<in> set (shop_tools s)" "tr_id t = tr_id x" for t x
    using ids that by (auto simp: distinct_map inj_on_def)
  have "\<forall>t \<in> set (get_inuse_tools s). find_tool s (tr_id t) \<noteq> None"
    by (auto simp: get_inuse_tools_def find_tool_def find_None_iff)
  moreover have "distinct (map tr_id (get_inuse_tools s))"
    using ids by (simp add: get_inuse_tools_def distinct_map inj_on_def)
  ultimately have st: "(\<exists>n. r1 = Inr n)" "sh_sessions s1 = sh_sessions s" "sh_resources s1 = sh_resources s"
      "shop_tools s1 = map (\<lambda>x. if \<exists>t \<in> set (get_inuse_tools s). tr_id t = tr_id x \<and> stale_tool cap grace now s t
                               then x\<lparr>tr_status := Idle, tr_updated_at := now\<rparr> else x) (shop_tools s)"
    using release_tools_state [OF _ _ r1] by blast+
  then obtain n where n: "r1 = Inr n" by blast
  let ?zs = "rooms_to_release (open_resource_sessions s1) (map (\<lambda>r. (rr_id r, rr_kind r)) (sh_resources s1))
               (abandoned_cutoff cap grace now)"
  obtain m s2 where s2: "release_rooms now ?zs s1 = (m, s2)" by fastforce
  have s': "(\<exists>n. r = Inr n) \<and> shop_tools s' = shop_tools s2 \<and> sh_sessions s' = sh_sessions s2"
    using out n r1 s2 by (auto simp: sweep_once_def split: option.splits)
  have tools: "shop_tools s2 = shop_tools s1" using release_rooms_frame(2) [of now ?zs s1] s2 by simp
  have inuse: "(\<exists>t \<in> set (get_inuse_tools s). tr_id t = tr_id x \<and> stale_tool cap grace now s t) \<longleftrightarrow>
      tr_status x = InUse \<and> stale_tool cap grace now s x" if "x \<in> set (shop_tools s)" for x
    using same that by (auto simp: get_inuse_tools_def)
  have t: "shop_tools s' = map (\<lambda>t. if tr_status t = InUse \<and> stale_tool cap grace now s t
      then t\<lparr>tr_status := Idle, tr_updated_at := now\<rparr> else t) (shop_tools s)"
    unfolding s' [THEN conjunct2, THEN conjunct1] tools st(4) by (intro map_cong refl) (simp add: inuse)
  have rooms: "abandoned_cutoff cap grace now \<le> rs_opened_at z"
    if z: "z \<in> set (sh_sessions s')" "row \<in> set (sh_resources s)" "rs_closed_at z = None"
      "rr_id row = rs_resource_id z" "rr_kind row = ''door''" for z row
  proof (rule ccontr)
    assume old: "\<not> abandoned_cutoff cap grace now \<le> rs_opened_at z"
    have "sh_sessions s' = map (\<lambda>z. if rs_closed_at z = None \<and> rs_resource_id z \<in> rs_resource_id ` set ?zs
        then z\<lparr>rs_closed_at := Some now, rs_closed_by := Some ''sweep''\<rparr> else z) (sh_sessions s)"
      using s' release_rooms_sessions [of now ?zs s1] s2 st(2) by simp
    then have "z \<in> set (sh_sessions s)" "rs_resource_id z \<notin> rs_resource_id ` set ?zs"
      using z(1,3) by (auto split: if_splits)
    moreover have "z \<in> set (open_resource_sessions s1)"
      using \<open>z \<in> set (sh_sessions s)\<close> z(3) st(2) by (simp add: open_resource_sessions_def)
    then have "z \<in> set ?zs"
      using z(2,4,5) old st(3) by (force simp: rooms_to_release_def)
    ultimately show False by blast
  qed
  show ?thesis using s' t rooms by (auto simp: stale_tool_def)
qed

section \<open>Witnesses\<close>

definition demo_tool_env :: "billing_config option \<Rightarrow> tool_env" where
  "demo_tool_env b = \<lparr>te_text = demo_text, te_sched = demo_env, te_rnd = (\<lambda>a. a), te_show2 = (\<lambda>_. []),
     te_fmt3 = (\<lambda>a. a), te_show_json = (\<lambda>_. []), te_field = ''card'', te_cipher = None, te_hash = id,
     te_billing = b\<rparr>"

text \<open>A shop with one metered tool, in the given state.\<close>

definition demo_laser_row :: "tool_status \<Rightarrow> tool_row" where
  "demo_laser_row st = demo_bandsaw\<lparr>tr_status := st, tr_billing := demo_laser\<rparr>"

definition demo_laser_shop :: "tool_status \<Rightarrow> shop" where
  "demo_laser_shop st = (demo_shop [demo_member ''A''] [])\<lparr>sh_devices := demo_devices\<lparr>dd_tools := [demo_laser_row st]\<rparr>\<rparr>"

lemma demo_laser_row_simps [simp]:
  "tr_id (demo_laser_row st) = 7" "tr_status (demo_laser_row st) = st" "tr_billing (demo_laser_row st) = demo_laser"
  "tr_requires_training (demo_laser_row st) = False" "tr_receptacle_id (demo_laser_row st) = Some 30"
  "tr_updated_at (demo_laser_row st) = 0"
  by (simp_all add: demo_laser_row_def demo_bandsaw_def)

lemma demo_laser_shop_simps [simp]:
  "shop_tools (demo_laser_shop st) = [demo_laser_row st]" "sh_billing (demo_laser_shop st) = demo_billing Map.empty"
  "find_tool (demo_laser_shop st) 7 = Some (demo_laser_row st)" "sh_users (demo_laser_shop st) = [demo_member ''A'']"
  "sh_events (demo_laser_shop st) = []"
  by (simp_all add: demo_laser_shop_def demo_shop_def find_tool_def)

lemma demo_resolves:
  "resolve_card (te_show_json (demo_tool_env b)) (te_field (demo_tool_env b)) (te_cipher (demo_tool_env b))
     (demo_laser_shop st) ''A'' = Inr (CardActive (demo_member ''A'') None)"
  by (simp add: resolve_card_def demo_tool_env_def find_user_by_profile_field_def identifier_ok_def demo_member_def
      profile_matches_def)

lemma demo_laser_allowed:
  "user_is_authorized_for_tool (te_text (demo_tool_env b)) (te_sched (demo_tool_env b)) (demo_laser_shop st)
     (us_id (demo_member ''A'')) (tr_id (demo_laser_row st')) (tr_requires_training (demo_laser_row st')) 0"
proof -
  have "\<not> tool_is_locked_out [demo_laser_row st] demo_topology 7"
    by (simp add: tool_is_locked_out_def get_tool_power_state_def demo_topology_def demo_reading_def find_circuit_def demo_circuit_def)
  then show ?thesis
    by (simp add: authorized_for_tool_iff training_ok_iff [symmetric] training_ok_def tool_has_training_steps_def)
       (simp add: demo_laser_shop_def demo_shop_def)
qed

lemma demo_can_pay: "money_ok (demo_tool_env (Some demo_cfg)) (demo_laser_shop st) (us_id (demo_member ''A'')) (demo_laser_row st')"
  by (simp add: money_ok_def metering_def demo_tool_env_def demo_cfg_def tool_is_metered_def demo_laser_def
      is_metered_def is_positive_def open_tool_session_for_tool_def demo_billing_def metered_authorized_def
      resolve_effective_billing_def metered_access_ok_def available_balance_def sum_open_tool_holds_def
      required_available_rate_def max_session_cost_def demo_member_def Let_def)

lemma demo_turned_on:
  "fst (activate_tool (demo_tool_env (Some demo_cfg)) (Some (demo_laser_row Idle)) ''A'' ''laser'' 11 0 (demo_laser_shop Idle))
     = Inr (resource_authorized None)"
  unfolding scan_turns_on_aux using demo_resolves demo_laser_allowed demo_can_pay
  by (auto simp: demo_member_def)

theorem tools_never_overdraw_witness:
  "0 \<le> available_balance (sh_billing (run_events (shop_step (demo_tool_env (Some demo_cfg)))
     [SScan 7 Idle ''A'' ''laser'' 11 0, SStop 7 InUse None ''laser'' (minutes 5),
      SCredit \<lparr>le_user_id = 1, le_entry_type = CashPayment, le_amount = 10, le_external_reference = None\<rparr>,
      SScan 7 Idle ''A'' ''laser'' 12 (minutes 6), SAdminStop ''laser'' (minutes 9), SSweep 60 5 (minutes 90)]
     (demo_laser_shop Idle))) 1"
proof (rule tools_never_overdraw)
  show "te_billing (demo_tool_env (Some demo_cfg)) = Some demo_cfg" by (simp add: demo_tool_env_def)
  show "priced (demo_laser_shop Idle)" by (simp add: priced_def demo_billing_def)
  show "solvent (te_text (demo_tool_env (Some demo_cfg))) (te_rnd (demo_tool_env (Some demo_cfg))) demo_cfg
          (sh_billing (demo_laser_shop Idle))"
    using demo_solvent by (simp add: demo_tool_env_def)
qed (simp add: improper_credit_def)

theorem one_member_at_a_time_witness:
  "fst (activate_tool (demo_tool_env (Some demo_cfg)) (Some (demo_laser_row Idle)) ''A'' ''laser'' 12 1
      (run_events (shop_step (demo_tool_env (Some demo_cfg))) [SScan 7 Idle ''A'' ''laser'' 13 1]
        (snd (activate_tool (demo_tool_env (Some demo_cfg)) (Some (demo_laser_row Idle)) ''A'' ''laser'' 11 0
          (demo_laser_shop Idle)))))
     \<noteq> Inr (resource_authorized None)"
  by (rule one_member_at_a_time [OF demo_turned_on]) (simp_all add: ends_use_def)

theorem sweep_strands_nothing_witness:
  "map tr_status (shop_tools (snd (sweep_once (demo_tool_env None) 60 5 (minutes 90) (demo_laser_shop InUse)))) = [Idle]"
proof -
  have "distinct (map tr_id (shop_tools (demo_laser_shop InUse)))" by simp
  from sweep_strands_nothing [OF this surjective_pairing, of "demo_tool_env None" 60 5 "minutes 90"] show ?thesis
    by (simp add: in_use_since_def latest_activation_def abandoned_cutoff_def session_cap_minutes_def demo_laser_def
        duration_defs)
qed

end
