(* ===== verification/Places.thy ===== *)
theory Places
  imports Ancestry
begin

text \<open>
  The tree of places: the handlers of \<^verbatim>\<open>server/src/api/places.rs\<close>, the queries of
  \<^verbatim>\<open>server/src/database.rs\<close> they run on, and the type vocabulary of \<^verbatim>\<open>server/src/config.rs\<close>. The
  unique indexes on sibling names and external ids are guards of the writes. \<open>trim\<close> is
  \<^verbatim>\<open>str::trim\<close>, \<open>pid\<close> the id the database generates, and \<open>restrict\<close> the kind under which the
  database driver reports a delete that \<^verbatim>\<open>ON DELETE RESTRICT\<close> refused. Descriptions are left out,
  and so is the list of configured types at the end of the unknown-type message.
\<close>

section \<open>Data\<close>

record place =
  pl_id :: uuid
  pl_parent_id :: "uuid option"
  pl_type :: string
  pl_name :: string
  pl_external_id :: "string option"
  pl_special :: bool

datatype place_audit = PlaceCreated uuid | PlaceUpdated uuid | PlaceMoved uuid "uuid option" "uuid option" | PlaceDeleted uuid

record place_db =
  pt_rows :: "place list"
  pt_audit :: "place_audit list"

record place_config =
  plc_enabled :: bool
  plc_types :: "string list"

record update_place_request =
  upr_name :: "string option"
  upr_type :: "string option"
  upr_parent :: "uuid option option"
  upr_external_id :: "string option option"
  upr_special :: "bool option"

section \<open>The vocabulary\<close>

definition quoted :: "string \<Rightarrow> string" where
  "quoted s = CHR 0x27 # s @ [CHR 0x27]"

fun index_of :: "string list \<Rightarrow> string \<Rightarrow> nat option" where
  "index_of [] t = None"
| "index_of (u # us) t = (if u = t then Some 0 else map_option Suc (index_of us t))"

definition validate_parent_child :: "string list \<Rightarrow> string \<Rightarrow> string \<Rightarrow> (string, unit) result" where
  "validate_parent_child types parent_type child_type =
     (case index_of types parent_type of
        None \<Rightarrow> Inl (''Unknown parent place_type '' @ quoted parent_type)
      | Some p \<Rightarrow>
          (case index_of types child_type of
             None \<Rightarrow> Inl (''Unknown place_type '' @ quoted child_type)
           | Some c \<Rightarrow>
               if c \<le> p
               then Inl (''Child place_type '' @ quoted child_type @ '' must be deeper than parent '' @ quoted parent_type)
               else Inr ()))"

section \<open>Queries\<close>

definition find_place :: "place_db \<Rightarrow> uuid \<Rightarrow> place option" where
  "find_place db pid = find (\<lambda>p. pl_id p = pid) (pt_rows db)"

definition get_place :: "place_db \<Rightarrow> uuid \<Rightarrow> (database_error, place) result" where
  "get_place db pid =
     (case find_place db pid of Some p \<Rightarrow> Inr p | None \<Rightarrow> Inl (Diesel DieselNotFound ''Record not found''))"

definition list_child_places :: "place_db \<Rightarrow> uuid \<Rightarrow> place list" where
  "list_child_places db pid = sort_key pl_name (filter (\<lambda>p. pl_parent_id p = Some pid) (pt_rows db))"

definition place_ancestors :: "place_db \<Rightarrow> uuid \<Rightarrow> (database_error, place list) result" where
  "place_ancestors db pid =
     (case get_place db pid of
        Inl e \<Rightarrow> Inl e
      | Inr p \<Rightarrow> ancestors_loop (find_place db) pl_parent_id ''place ancestor chain exceeded 32 levels'' 32
                   (pl_parent_id p) [])"

text \<open>The unique indexes: names among siblings, external ids anywhere.\<close>

definition place_conflict :: "place_db \<Rightarrow> place \<Rightarrow> bool" where
  "place_conflict db p \<longleftrightarrow>
     list_ex (\<lambda>q. pl_id q \<noteq> pl_id p \<and>
       ((pl_parent_id q = pl_parent_id p \<and> pl_name q = pl_name p) \<or>
        (pl_external_id q \<noteq> None \<and> pl_external_id q = pl_external_id p))) (pt_rows db)"

definition constraint_error :: "diesel_kind \<Rightarrow> database_error" where
  "constraint_error k = Diesel (DieselDatabase k ''violates a constraint'') ''violates a constraint''"

definition map_diesel_conflict :: "database_error \<Rightarrow> api_error" where
  "map_diesel_conflict e =
     (case e of
        Diesel (DieselDatabase UniqueViolation _) _ \<Rightarrow> Conflict ''A sibling place with that name already exists''
      | Diesel (DieselDatabase ForeignKeyViolation _) _ \<Rightarrow>
          Conflict ''This place still has child places; move or delete them first''
      | other \<Rightarrow> from_database_error other)"

section \<open>Handlers\<close>

definition require_places_enabled :: "place_config \<Rightarrow> api_error option" where
  "require_places_enabled cfg =
     (if plc_enabled cfg then None else Some (Forbidden ''Places module is disabled in server configuration''))"

definition place_log :: "place_audit \<Rightarrow> place_db \<Rightarrow> place_db" where
  "place_log e db = db\<lparr>pt_audit := pt_audit db @ [e]\<rparr>"

definition validate_place_payload ::
  "(string \<Rightarrow> string) \<Rightarrow> place_config \<Rightarrow> place_db \<Rightarrow> string \<Rightarrow> uuid option \<Rightarrow> bool \<Rightarrow> (api_error, unit) result" where
  "validate_place_payload trim cfg db ty parent is_special =
     (if is_special
      then (if parent \<noteq> None then Inl (BadRequest ''Special places cannot have a parent'')
            else if trim ty = [] then Inl (BadRequest ''place_type is required (use any label, e.g. Outside)'')
            else Inr ())
      else if index_of (plc_types cfg) ty = None then Inl (BadRequest (''Unknown place_type '' @ quoted ty))
      else
        (case parent of
           None \<Rightarrow> Inr ()
         | Some pid \<Rightarrow>
             (case get_place db pid of
                Inl e \<Rightarrow> Inl (from_database_error e)
              | Inr p \<Rightarrow>
                  if pl_special p then Inr ()
                  else
                    (case validate_parent_child (plc_types cfg) (pl_type p) ty of
                       Inl msg \<Rightarrow> Inl (BadRequest msg)
                     | Inr _ \<Rightarrow> Inr ()))))"

definition create_place ::
  "(string \<Rightarrow> string) \<Rightarrow> place_config \<Rightarrow> uuid \<Rightarrow> string \<Rightarrow> string \<Rightarrow> uuid option \<Rightarrow> string option \<Rightarrow> bool \<Rightarrow>
   place_db \<Rightarrow> (api_error, place) result \<times> place_db" where
  "create_place trim cfg pid name ty parent ext is_special db =
     (case require_places_enabled cfg of
        Some e \<Rightarrow> (Inl e, db)
      | None \<Rightarrow>
          if trim name = [] then (Inl (BadRequest ''name is required''), db)
          else
            (case validate_place_payload trim cfg db ty parent is_special of
               Inl e \<Rightarrow> (Inl e, db)
             | Inr _ \<Rightarrow>
                 (let p = \<lparr>pl_id = pid, pl_parent_id = parent, pl_type = ty, pl_name = trim name,
                           pl_external_id = ext, pl_special = is_special\<rparr>
                  in if place_conflict db p then (Inl (map_diesel_conflict (constraint_error UniqueViolation)), db)
                     else (Inr p, place_log (PlaceCreated pid) (db\<lparr>pt_rows := pt_rows db @ [p]\<rparr>)))))"

definition change_place :: "(string \<Rightarrow> string) \<Rightarrow> update_place_request \<Rightarrow> place \<Rightarrow> place" where
  "change_place trim req p =
     p\<lparr>pl_parent_id := unwrap_or (upr_parent req) (pl_parent_id p),
       pl_type := unwrap_or (upr_type req) (pl_type p),
       pl_name := unwrap_or (map_option trim (upr_name req)) (pl_name p),
       pl_external_id := unwrap_or (upr_external_id req) (pl_external_id p),
       pl_special := unwrap_or (upr_special req) (pl_special p)\<rparr>"

definition set_place :: "place \<Rightarrow> place_db \<Rightarrow> place_db" where
  "set_place p db = db\<lparr>pt_rows := map (\<lambda>q. if pl_id q = pl_id p then p else q) (pt_rows db)\<rparr>"

text \<open>The cycle guard: \<open>None\<close> when the move is allowed.\<close>

definition move_refused :: "place_db \<Rightarrow> uuid \<Rightarrow> uuid option \<Rightarrow> api_error option" where
  "move_refused db pid parent =
     (case parent of
        None \<Rightarrow> None
      | Some p \<Rightarrow>
          if p = pid then Some (BadRequest ''A place can't be its own parent'')
          else
            (case place_ancestors db p of
               Inl e \<Rightarrow> Some (from_database_error e)
             | Inr chain \<Rightarrow>
                 if list_ex (\<lambda>a. pl_id a = pid) chain
                 then Some (BadRequest ''Move would create a cycle in the place hierarchy'') else None))"

definition update_place ::
  "(string \<Rightarrow> string) \<Rightarrow> place_config \<Rightarrow> uuid \<Rightarrow> update_place_request \<Rightarrow> place_db \<Rightarrow>
   (api_error, place) result \<times> place_db" where
  "update_place trim cfg pid req db =
     (case require_places_enabled cfg of
        Some e \<Rightarrow> (Inl e, db)
      | None \<Rightarrow>
          (case get_place db pid of
             Inl e \<Rightarrow> (Inl (from_database_error e), db)
           | Inr before \<Rightarrow>
               (let after = change_place trim req before
                in case move_refused db pid (pl_parent_id after) of
                     Some e \<Rightarrow> (Inl e, db)
                   | None \<Rightarrow>
                       (case validate_place_payload trim cfg db (pl_type after) (pl_parent_id after) (pl_special after) of
                          Inl e \<Rightarrow> (Inl e, db)
                        | Inr _ \<Rightarrow>
                            if place_conflict db after
                            then (Inl (map_diesel_conflict (constraint_error UniqueViolation)), db)
                            else
                              let db1 = place_log (PlaceUpdated pid) (set_place after db)
                              in (Inr after,
                                  if pl_parent_id before \<noteq> pl_parent_id after
                                  then place_log (PlaceMoved pid (pl_parent_id before) (pl_parent_id after)) db1
                                  else db1)))))"

text \<open>\<open>attached\<close> says that a power outlet is at the place; its link to the place also restricts the delete.\<close>

definition delete_place ::
  "diesel_kind \<Rightarrow> (uuid \<Rightarrow> bool) \<Rightarrow> uuid \<Rightarrow> place_db \<Rightarrow> (api_error, unit) result \<times> place_db" where
  "delete_place restrict attached pid db =
     (case get_place db pid of
        Inl e \<Rightarrow> (Inl (from_database_error e), db)
      | Inr _ \<Rightarrow>
          if list_child_places db pid \<noteq> [] \<or> attached pid
          then (Inl (map_diesel_conflict (constraint_error restrict)), db)
          else (Inr (), place_log (PlaceDeleted pid)
                          (db\<lparr>pt_rows := filter (\<lambda>p. pl_id p \<noteq> pid) (pt_rows db)\<rparr>)))"

section \<open>The table is a forest\<close>

definition set_place_parent :: "uuid \<Rightarrow> uuid option \<Rightarrow> place_db \<Rightarrow> place_db" where
  "set_place_parent pid q db =
     db\<lparr>pt_rows := map (\<lambda>p. if pl_id p = pid then p\<lparr>pl_parent_id := q\<rparr> else p) (pt_rows db)\<rparr>"

lemma find_set_place_parent:
  "find_place (set_place_parent pid q db) k =
     map_option (\<lambda>p. if k = pid then p\<lparr>pl_parent_id := q\<rparr> else p) (find_place db k)"
  by (simp add: find_place_def set_place_parent_def find_update_row)

interpretation place_tree: parent_tree find_place pl_parent_id pl_id set_place_parent
proof
  fix db k r
  show "find_place db k = Some r \<Longrightarrow> pl_id r = k"
    by (auto simp: find_place_def dest: find_SomeD)
next
  fix c q db
  show "up_links (find_place (set_place_parent c q db)) pl_parent_id
    \<subseteq> up_links (find_place db) pl_parent_id - {c} \<times> UNIV \<union> {(c', p). c' = c \<and> q = Some p}"
  proof (rule subrelI)
    fix k p
    assume "(k, p) \<in> up_links (find_place (set_place_parent c q db)) pl_parent_id"
    then obtain z where "find_place db k = Some z" "pl_parent_id (if k = c then z\<lparr>pl_parent_id := q\<rparr> else z) = Some p"
      by (auto simp: up_links_def find_set_place_parent)
    then show "(k, p) \<in> up_links (find_place db) pl_parent_id - {c} \<times> UNIV \<union> {(c', p). c' = c \<and> q = Some p}"
      by (cases "k = c") (auto simp: up_links_def)
  qed
qed

text \<open>Names among siblings, as the unique index has it.\<close>

definition names_ok :: "place set \<Rightarrow> bool" where
  "names_ok ps \<longleftrightarrow> (\<forall>p \<in> ps. \<forall>q \<in> ps. pl_parent_id p = pl_parent_id q \<and> pl_name p = pl_name q \<longrightarrow> pl_id p = pl_id q)"

lemma names_ok_insert:
  assumes "names_ok ps" "\<And>q. q \<in> ps \<Longrightarrow> pl_parent_id q = pl_parent_id p \<Longrightarrow> pl_name q = pl_name p \<Longrightarrow> pl_id q = pl_id p"
  shows "names_ok (insert p ps)"
  unfolding names_ok_def
proof (intro ballI impI)
  fix r q assume rq: "r \<in> insert p ps" "q \<in> insert p ps" "pl_parent_id r = pl_parent_id q \<and> pl_name r = pl_name q"
  then consider "r = p" "q = p" | "r = p" "q \<in> ps" | "q = p" "r \<in> ps" | "r \<in> ps" "q \<in> ps" by blast
  then show "pl_id r = pl_id q"
  proof cases
    case 2
    with assms(2) [of q] rq(3) show ?thesis by simp
  next
    case 3
    with assms(2) [of r] rq(3) show ?thesis by simp
  next
    case 4
    with assms(1) rq(3) show ?thesis unfolding names_ok_def by blast
  qed simp
qed

lemma names_ok_mono: "names_ok ps \<Longrightarrow> qs \<subseteq> ps \<Longrightarrow> names_ok qs"
  unfolding names_ok_def by blast

definition types_ok :: "string list \<Rightarrow> place \<Rightarrow> bool" where
  "types_ok types p \<longleftrightarrow> (if pl_special p then pl_parent_id p = None else pl_type p \<in> set types)"

definition places_ok :: "string list \<Rightarrow> place_db \<Rightarrow> bool" where
  "places_ok types db \<longleftrightarrow>
     distinct (map pl_id (pt_rows db)) \<and>
     (\<forall>p \<in> set (pt_rows db). types_ok types p \<and> (\<forall>q. pl_parent_id p = Some q \<longrightarrow> find_place db q \<noteq> None)) \<and>
     names_ok (set (pt_rows db)) \<and> place_tree.cycle_free db"

lemma index_of_None: "index_of types t = None \<longleftrightarrow> t \<notin> set types"
  by (induction types t rule: index_of.induct) auto

lemma find_place_log [simp]: "find_place (place_log e db) k = find_place db k" "pt_rows (place_log e db) = pt_rows db"
  by (simp_all add: find_place_def place_log_def)

lemma places_ok_log [simp]: "places_ok types (place_log e db) \<longleftrightarrow> places_ok types db"
proof -
  have "find_place (place_log e db) = find_place db" by (rule ext) simp
  then show ?thesis by (simp add: places_ok_def place_tree.cycle_free_def)
qed

lemma validated:
  assumes "validate_place_payload trim cfg db ty parent sp = Inr ()"
  shows "(if sp then parent = None else ty \<in> set (plc_types cfg)) \<and> (\<forall>q. parent = Some q \<longrightarrow> find_place db q \<noteq> None)"
  using assms
  by (auto simp: validate_place_payload_def get_place_def index_of_None split: if_splits option.splits sum.splits)

lemma no_conflict:
  "\<not> place_conflict db p \<Longrightarrow> q \<in> set (pt_rows db) \<Longrightarrow> pl_parent_id q = pl_parent_id p \<Longrightarrow> pl_name q = pl_name p \<Longrightarrow>
   pl_id q = pl_id p"
  by (auto simp: place_conflict_def list_ex_iff)

lemma create_keeps_places:
  assumes "places_ok (plc_types cfg) db" "find_place db pid = None"
  shows "places_ok (plc_types cfg) (snd (create_place trim cfg pid name ty parent ext sp db))"
proof (cases "fst (create_place trim cfg pid name ty parent ext sp db)")
  case (Inl e)
  then have "snd (create_place trim cfg pid name ty parent ext sp db) = db"
    by (auto simp: create_place_def Let_def split: option.splits sum.splits if_splits)
  with assms(1) show ?thesis by simp
next
  case (Inr p)
  let ?db = "db\<lparr>pt_rows := pt_rows db @ [p]\<rparr>"
  have p: "p = \<lparr>pl_id = pid, pl_parent_id = parent, pl_type = ty, pl_name = trim name,
                pl_external_id = ext, pl_special = sp\<rparr>"
    and v: "validate_place_payload trim cfg db ty parent sp = Inr ()" and c: "\<not> place_conflict db p"
    and out: "snd (create_place trim cfg pid name ty parent ext sp db) = place_log (PlaceCreated pid) ?db"
    using Inr by (auto simp: create_place_def Let_def split: option.splits sum.splits if_splits)
  note ok = assms(1) [unfolded places_ok_def]
  have find: "find_place ?db k = (case find_place db k of Some r \<Rightarrow> Some r | None \<Rightarrow> if k = pid then Some p else None)" for k
    by (auto simp: find_place_def find_append p split: option.split)
  have acyc: "acyclic (up_links (find_place ?db) pl_parent_id)"
  proof (rule acyclic_add_row [OF _ find assms(2)])
    show "acyclic (up_links (find_place db) pl_parent_id)" using ok by (simp add: place_tree.cycle_free_def)
    show "pl_parent_id r \<noteq> Some pid" if "find_place db k = Some r" for k r
    proof -
      have "r \<in> set (pt_rows db)" using that by (auto simp: find_place_def dest: find_SomeD)
      with ok assms(2) show ?thesis by auto
    qed
    show "pl_parent_id p \<noteq> Some pid" using validated [OF v] assms(2) by (auto simp: p)
  qed
  have "pid \<notin> pl_id ` set (pt_rows db)" using assms(2) by (auto simp: find_place_def find_None_iff)
  then have ids: "distinct (map pl_id (pt_rows ?db))" using ok by (simp add: p)
  have new: "types_ok (plc_types cfg) p" "\<forall>q. pl_parent_id p = Some q \<longrightarrow> find_place db q \<noteq> None"
    using validated [OF v] by (auto simp: types_ok_def p)
  have "find_place ?db q \<noteq> None" if "find_place db q \<noteq> None" for q
    using that by (auto simp: find)
  then have rows: "\<forall>r \<in> set (pt_rows ?db). types_ok (plc_types cfg) r \<and> (\<forall>q. pl_parent_id r = Some q \<longrightarrow> find_place ?db q \<noteq> None)"
    using new ok by auto
  have "set (pt_rows ?db) = insert p (set (pt_rows db))" by simp
  then have names: "names_ok (set (pt_rows ?db))"
    using ok no_conflict [OF c] by (simp only:) (blast intro: names_ok_insert)
  show ?thesis
    unfolding out places_ok_log
    unfolding places_ok_def place_tree.cycle_free_def using ids rows names acyc by blast
qed

lemma move_guarded:
  assumes "move_refused db pid (Some p) = None"
  shows "p \<noteq> pid \<and> (\<exists>r chain. find_place db p = Some r \<and>
    ancestors_loop (find_place db) pl_parent_id ''place ancestor chain exceeded 32 levels'' 32 (pl_parent_id r) [] = Inr chain \<and>
    (\<forall>a \<in> set chain. pl_id a \<noteq> pid))"
  using assms
  by (auto simp: move_refused_def place_ancestors_def get_place_def list_ex_iff split: if_splits option.splits sum.splits)

lemma update_keeps_places:
  assumes "places_ok (plc_types cfg) db"
  shows "places_ok (plc_types cfg) (snd (update_place trim cfg pid req db))"
proof (cases "fst (update_place trim cfg pid req db)")
  case (Inl e)
  then have "snd (update_place trim cfg pid req db) = db"
    by (auto simp: update_place_def Let_def split: option.splits sum.splits if_splits)
  with assms show ?thesis by simp
next
  case (Inr after)
  then obtain before where b: "find_place db pid = Some before" "after = change_place trim req before"
    and guard: "move_refused db pid (pl_parent_id after) = None"
    and v: "validate_place_payload trim cfg db (pl_type after) (pl_parent_id after) (pl_special after) = Inr ()"
    and c: "\<not> place_conflict db after"
    by (auto simp: update_place_def get_place_def Let_def split: option.splits sum.splits if_splits)
  have out: "places_ok types (snd (update_place trim cfg pid req db)) = places_ok types (set_place after db)" for types
    using Inr by (auto simp: update_place_def get_place_def Let_def split: option.splits sum.splits if_splits)
  have id: "pl_id after = pid" using b by (auto simp: change_place_def find_place_def dest: find_SomeD)
  have find: "find_place (set_place after db) k = (if k = pid then Some after else find_place db k)" for k
  proof -
    have "find (\<lambda>p. pl_id p = k) (map (\<lambda>q. if pl_id q = pid then after else q) rows) =
        (if k = pid \<and> find (\<lambda>p. pl_id p = k) rows \<noteq> None then Some after else find (\<lambda>p. pl_id p = k) rows)" for rows
      using id by (induction rows) auto
    then show ?thesis using b(1) by (auto simp: find_place_def set_place_def id)
  qed
  note ok = assms [unfolded places_ok_def]
  have "map pl_id (pt_rows (set_place after db)) = map pl_id (pt_rows db)"
    using id by (simp add: set_place_def comp_def if_distrib cong: map_cong)
  then have ids: "distinct (map pl_id (pt_rows (set_place after db)))" using ok by simp
  have set: "r \<in> set (pt_rows (set_place after db)) \<Longrightarrow> r = after \<or> (r \<in> set (pt_rows db) \<and> pl_id r \<noteq> pid)" for r
    using id by (auto simp: set_place_def split: if_splits)
  have new: "types_ok (plc_types cfg) after" "\<forall>q. pl_parent_id after = Some q \<longrightarrow> find_place db q \<noteq> None"
    using validated [OF v] by (auto simp: types_ok_def)
  have "find_place (set_place after db) q \<noteq> None" if "find_place db q \<noteq> None" for q
    using that by (simp add: find)
  then have rows: "\<forall>r \<in> set (pt_rows (set_place after db)). types_ok (plc_types cfg) r \<and>
      (\<forall>q. pl_parent_id r = Some q \<longrightarrow> find_place (set_place after db) q \<noteq> None)"
    using new ok set by blast
  have "names_ok (insert after (set (pt_rows db)))"
    using ok no_conflict [OF c] by (blast intro: names_ok_insert)
  then have names: "names_ok (set (pt_rows (set_place after db)))"
    using set by (blast intro: names_ok_mono)
  have "place_tree.cycle_free (set_place_parent pid (pl_parent_id after) db)"
  proof (cases "pl_parent_id after")
    case None
    with ok place_tree.detach_keeps show ?thesis by simp
  next
    case (Some p)
    with guard have "move_refused db pid (Some p) = None" by simp
    from move_guarded [OF this] obtain r chain where "p \<noteq> pid" "find_place db p = Some r"
      "ancestors_loop (find_place db) pl_parent_id ''place ancestor chain exceeded 32 levels'' 32 (pl_parent_id r) [] = Inr chain"
      "\<forall>a \<in> set chain. pl_id a \<noteq> pid"
      by blast
    with ok Some show ?thesis by (simp add: place_tree.guarded_move_keeps)
  qed
  moreover have "up_links (find_place (set_place_parent pid (pl_parent_id after) db)) pl_parent_id =
      up_links (find_place (set_place after db)) pl_parent_id"
    by (rule up_links_cong) (auto simp: find find_set_place_parent b(1) option.map_ident)
  ultimately have "place_tree.cycle_free (set_place after db)" by (simp add: place_tree.cycle_free_def)
  then have "places_ok (plc_types cfg) (set_place after db)"
    unfolding places_ok_def using ids rows names by blast
  then show ?thesis by (simp only: out)
qed

lemma delete_keeps_places:
  assumes "places_ok types db"
  shows "places_ok types (snd (delete_place restrict attached pid db))"
proof (cases "fst (delete_place restrict attached pid db)")
  case (Inl e)
  then have "snd (delete_place restrict attached pid db) = db"
    by (auto simp: delete_place_def split: sum.splits if_splits)
  with assms show ?thesis by simp
next
  case (Inr u)
  let ?db = "db\<lparr>pt_rows := filter (\<lambda>p. pl_id p \<noteq> pid) (pt_rows db)\<rparr>"
  have out: "snd (delete_place restrict attached pid db) = place_log (PlaceDeleted pid) ?db"
    and "list_child_places db pid = []"
    using Inr by (auto simp: delete_place_def split: sum.splits if_splits)
  then have childless: "\<forall>p \<in> set (pt_rows db). pl_parent_id p \<noteq> Some pid"
    by (auto simp: list_child_places_def filter_empty_conv dest!: arg_cong [where f = length])
  note ok = assms [unfolded places_ok_def]
  have find: "find_place ?db k = (if k = pid then None else find_place db k)" for k
    by (simp add: find_place_def find_filter_row)
  have "acyclic (up_links (find_place ?db) pl_parent_id)"
    using acyclic_drop_row [OF _ find] ok by (simp add: place_tree.cycle_free_def)
  moreover have "distinct (map pl_id (pt_rows ?db))" using ok by (simp add: distinct_map_filter)
  moreover have "\<forall>p \<in> set (pt_rows ?db). types_ok types p \<and> (\<forall>q. pl_parent_id p = Some q \<longrightarrow> find_place ?db q \<noteq> None)"
    using ok childless unfolding find by auto
  moreover have "names_ok (set (pt_rows ?db))" using ok by (auto intro: names_ok_mono)
  ultimately show ?thesis
    unfolding out places_ok_log unfolding places_ok_def place_tree.cycle_free_def by blast
qed

datatype place_event =
    PCreate uuid string string "uuid option" "string option" bool
  | PUpdate uuid update_place_request
  | PDelete uuid

text \<open>The database gives a new place an id that no row has.\<close>

fun place_step ::
  "(string \<Rightarrow> string) \<Rightarrow> place_config \<Rightarrow> diesel_kind \<Rightarrow> (uuid \<Rightarrow> bool) \<Rightarrow> place_event \<Rightarrow> place_db \<Rightarrow> place_db" where
  "place_step trim cfg restrict attached (PCreate pid name ty parent ext sp) db =
     (if find_place db pid \<noteq> None then db else snd (create_place trim cfg pid name ty parent ext sp db))"
| "place_step trim cfg restrict attached (PUpdate pid req) db = snd (update_place trim cfg pid req db)"
| "place_step trim cfg restrict attached (PDelete pid) db = snd (delete_place restrict attached pid db)"

interpretation place_table: preserved "place_step trim cfg restrict attached" "places_ok (plc_types cfg)"
  for trim cfg restrict attached
proof
  fix db e
  assume "places_ok (plc_types cfg) db"
  then show "places_ok (plc_types cfg) (place_step trim cfg restrict attached e db)"
    by (cases e) (auto intro: create_keeps_places update_keeps_places delete_keeps_places)
qed

text \<open>
  C24. The places stay a forest through every sequence of the handlers: ids are unique, every parent
  exists, nothing is inside itself, siblings have different names, a special place is a root, and
  every other place has a type of the configured vocabulary.
\<close>

theorem places_stay_a_forest:
  assumes "places_ok (plc_types cfg) db"
  shows "places_ok (plc_types cfg) (run_events (place_step trim cfg restrict attached) es db)"
  using place_table.run_keeps assms by blast

section \<open>The order of the types\<close>

text \<open>
  The order of the levels is not kept. A place may be given a deeper type without looking at what
  is inside it: after it, a child can be at the level of its parent or above, which no create or
  move of the child would be allowed to do.
\<close>

lemma retyping_a_parent_breaks_the_order:
  assumes "plc_enabled cfg" "find_place db pid = Some p" "\<not> pl_special p" "pl_parent_id p = None"
    and "find_place db kid = Some c" "pl_parent_id c = Some pid" "\<not> pl_special c"
    and deeper: "index_of (plc_types cfg) ty = Some j" "index_of (plc_types cfg) (pl_type c) = Some i" "i \<le> j"
    and alone: "\<not> place_conflict db p"
  shows "let req = \<lparr>upr_name = None, upr_type = Some ty, upr_parent = None, upr_external_id = None, upr_special = None\<rparr>;
             db' = snd (update_place trim cfg pid req db)
         in fst (update_place trim cfg pid req db) = Inr (p\<lparr>pl_type := ty\<rparr>) \<and>
            find_place db' kid = Some c \<and>
            (\<exists>msg. validate_place_payload trim cfg db' (pl_type c) (Some pid) False = Inl (BadRequest msg))"
proof -
  let ?req = "\<lparr>upr_name = None, upr_type = Some ty, upr_parent = None, upr_external_id = None, upr_special = None\<rparr>"
  let ?p = "p\<lparr>pl_type := ty\<rparr>"
  have id: "pl_id p = pid" "pl_id c = kid" using assms(2,5) by (auto simp: find_place_def dest: find_SomeD)
  have "kid \<noteq> pid" using assms by auto
  have req: "change_place trim ?req p = ?p" by (simp add: change_place_def)
  have "ty \<in> set (plc_types cfg)" using deeper(1) index_of_None [of "plc_types cfg" ty] by simp
  then have upd: "update_place trim cfg pid ?req db = (Inr ?p, place_log (PlaceUpdated pid) (set_place ?p db))"
    using assms(1-4) deeper(1) alone
    by (simp add: update_place_def require_places_enabled_def get_place_def req Let_def move_refused_def
        validate_place_payload_def place_conflict_def)
  have find: "find_place (set_place ?p db) k = (if k = pid then Some ?p else find_place db k)" for k
  proof -
    have "find (\<lambda>q. pl_id q = k) (map (\<lambda>q. if pl_id q = pid then ?p else q) rows) =
        (if k = pid \<and> find (\<lambda>q. pl_id q = k) rows \<noteq> None then Some ?p else find (\<lambda>q. pl_id q = k) rows)" for rows
      using id(1) by (induction rows) auto
    then show ?thesis using assms(2) by (auto simp: find_place_def set_place_def id)
  qed
  show ?thesis
    using assms(3,5) deeper \<open>kid \<noteq> pid\<close>
    by (simp add: upd find Let_def validate_place_payload_def get_place_def validate_parent_child_def)
qed

section \<open>Witnesses\<close>

definition demo_places :: place_db where
  "demo_places = \<lparr>pt_rows = [
     \<lparr>pl_id = 1, pl_parent_id = None, pl_type = ''Building'', pl_name = ''Shop'', pl_external_id = None, pl_special = False\<rparr>,
     \<lparr>pl_id = 2, pl_parent_id = Some 1, pl_type = ''Floor'', pl_name = ''Ground'', pl_external_id = None, pl_special = False\<rparr>],
     pt_audit = []\<rparr>"

definition demo_place_config :: place_config where
  "demo_place_config = \<lparr>plc_enabled = True, plc_types = [''Building'', ''Floor'', ''Room'']\<rparr>"

lemma demo_places_ok: "places_ok (plc_types demo_place_config) demo_places"
proof -
  have "up_links (find_place demo_places) pl_parent_id \<subseteq> {(2, 1)}"
    by (auto simp: up_links_def find_place_def demo_places_def split: if_splits)
  moreover have "acyclic {(2 :: nat, 1 :: nat)}"
    by (simp add: acyclic_insert) (simp add: acyclic_def)
  ultimately have "place_tree.cycle_free demo_places"
    unfolding place_tree.cycle_free_def by (rule acyclic_subset [rotated])
  then show ?thesis
    by (simp add: places_ok_def types_ok_def names_ok_def demo_place_config_def) (simp add: demo_places_def find_place_def)
qed

theorem places_stay_a_forest_witness:
  "places_ok (plc_types demo_place_config) (run_events (place_step id demo_place_config KindUnknown (\<lambda>_. False))
     [PCreate 3 ''Lab'' ''Room'' (Some 2) None False, PDelete 2] demo_places)"
  by (rule places_stay_a_forest [OF demo_places_ok])

end
