(* ===== verification/Bypass.thy ===== *)
theory Bypass
  imports Power_Server
begin

text \<open>
  Bypass detection: \<^verbatim>\<open>css_lib/src/bypass.rs\<close>, the service of \<^verbatim>\<open>server/src/bypass.rs\<close> and the queries
  of \<^verbatim>\<open>server/src/database.rs\<close> under it. What has been reported is read back out of the audit log,
  so the log is part of the state; \<open>bp_log_down\<close> says whether writing to it fails now, an error the
  service logs and passes over. Instants are one clock, the one the server and its database share.
\<close>

section \<open>Decisions\<close>

datatype liveness_transition = WentSilent | Returned | NoChange

definition classify_liveness :: "int option \<Rightarrow> int \<Rightarrow> bool \<Rightarrow> liveness_transition" where
  "classify_liveness seconds_since_seen threshold_secs previously_reported_silent =
     (let silent = (case seconds_since_seen of None \<Rightarrow> True | Some secs \<Rightarrow> threshold_secs < secs)
      in case (silent, previously_reported_silent) of
           (True, False) \<Rightarrow> WentSilent
         | (False, True) \<Rightarrow> Returned
         | _ \<Rightarrow> NoChange)"

record power_evidence =
  relay_reported_on :: bool
  draw_observed :: bool

definition any_evidence :: "power_evidence \<Rightarrow> bool" where
  "any_evidence e \<longleftrightarrow> relay_reported_on e \<or> draw_observed e"

definition is_unauthorized_power :: "power_evidence \<Rightarrow> bool \<Rightarrow> int \<Rightarrow> int \<Rightarrow> bool" where
  "is_unauthorized_power evidence lease_valid seconds_observed debounce_secs =
     (if lease_valid \<or> \<not> any_evidence evidence then False else debounce_secs \<le> seconds_observed)"

section \<open>State\<close>

record module_binding =
  mdb_id :: uuid
  mdb_device_id :: uuid

datatype bypass_event =
    ToolModuleSilent uuid "int option"
  | ToolModuleReturned uuid "int option"
  | EdgeIsolationReported uuid bool "int option"
  | UnauthorizedPowerDetected uuid power_evidence int tool_status

record bypass_row =
  bw_at :: instant
  bw_event :: bypass_event

record bypass_config =
  module_silence_secs :: int
  unauthorized_power_debounce_secs :: int
  unauthorized_power_draw_amps :: rat

record bypass_db =
  bp_now :: instant
  bp_modules :: "module_binding list"
  bp_devices :: "space_device list"
  bp_tools :: "tool_row list"
  bp_readings :: "tool_power_state list"
  bp_log :: "bypass_row list"
  bp_log_down :: bool

definition write_bypass :: "bypass_event \<Rightarrow> bypass_db \<Rightarrow> bypass_db" where
  "write_bypass e db =
     (if bp_log_down db then db else db\<lparr>bp_log := bp_log db @ [\<lparr>bw_at = bp_now db, bw_event = e\<rparr>]\<rparr>)"

section \<open>Queries\<close>

definition live_row :: "bypass_db \<Rightarrow> uuid \<Rightarrow> space_device option" where
  "live_row db dev = find (\<lambda>s. sdv_id s = dev \<and> \<not> sdv_deleted s) (bp_devices db)"

definition bound_modules_with_liveness :: "bypass_db \<Rightarrow> (uuid \<times> instant option) list" where
  "bound_modules_with_liveness db =
     List.map_filter (\<lambda>b. map_option (\<lambda>s. (mdb_id b, sdv_last_seen s)) (live_row db (mdb_device_id b)))
       (bp_modules db)"

definition unbound_devices_with_liveness :: "bypass_db \<Rightarrow> (uuid \<times> instant option) list" where
  "unbound_devices_with_liveness db =
     (let bound = map mdb_device_id (bp_modules db)
      in map (\<lambda>s. (sdv_id s, sdv_last_seen s))
           (filter (\<lambda>s. \<not> sdv_deleted s \<and> sdv_id s \<notin> set bound) (bp_devices db)))"

text \<open>The latest row per key, as \<^verbatim>\<open>DISTINCT ON (key) ... ORDER BY key, created_at DESC\<close> picks it.\<close>

fun latest_by :: "(bypass_row \<Rightarrow> 'v option) \<Rightarrow> bypass_row list \<Rightarrow> (instant \<times> 'v) option" where
  "latest_by sel [] = None"
| "latest_by sel (r # rs) =
     (case (sel r, latest_by sel rs) of
        (None, l) \<Rightarrow> l
      | (Some v, None) \<Rightarrow> Some (bw_at r, v)
      | (Some v, Some (t, w)) \<Rightarrow> if bw_at r \<le> t then Some (t, w) else Some (bw_at r, v))"

fun module_silence :: "uuid \<Rightarrow> bypass_event \<Rightarrow> bool option" where
  "module_silence k (ToolModuleSilent m _) = (if m = k then Some True else None)"
| "module_silence k (ToolModuleReturned m _) = (if m = k then Some False else None)"
| "module_silence k _ = None"

fun device_silence :: "uuid \<Rightarrow> bypass_event \<Rightarrow> bool option" where
  "device_silence k (EdgeIsolationReported d silent _) = (if d = k then Some silent else None)"
| "device_silence k _ = None"

fun power_report_of :: "uuid \<Rightarrow> bypass_event \<Rightarrow> unit option" where
  "power_report_of k (UnauthorizedPowerDetected t _ _ _) = (if t = k then Some () else None)"
| "power_report_of k _ = None"

definition latest_module_liveness_records :: "bypass_db \<Rightarrow> uuid \<rightharpoonup> bool" where
  "latest_module_liveness_records db m =
     map_option snd (latest_by (\<lambda>r. module_silence m (bw_event r)) (bp_log db))"

definition latest_device_isolation_records :: "bypass_db \<Rightarrow> uuid \<rightharpoonup> bool" where
  "latest_device_isolation_records db d =
     map_option snd (latest_by (\<lambda>r. device_silence d (bw_event r)) (bp_log db))"

definition latest_unauthorized_power_reports :: "bypass_db \<Rightarrow> uuid \<rightharpoonup> instant" where
  "latest_unauthorized_power_reports db t =
     map_option fst (latest_by (\<lambda>r. power_report_of t (bw_event r)) (bp_log db))"

section \<open>The passes\<close>

fun record_transitions ::
  "(uuid \<Rightarrow> bool \<Rightarrow> int option \<Rightarrow> bypass_event) \<Rightarrow> int \<Rightarrow> (uuid \<rightharpoonup> bool) \<Rightarrow> (uuid \<times> instant option) list \<Rightarrow>
   bypass_db \<Rightarrow> nat \<times> bypass_db" where
  "record_transitions event threshold recorded [] db = (0, db)"
| "record_transitions event threshold recorded ((k, last_seen) # items) db =
     (let secs = map_option (\<lambda>t. num_seconds (bp_now db - t)) last_seen;
          previously_silent = unwrap_or (recorded k) False
      in case classify_liveness secs threshold previously_silent of
           NoChange \<Rightarrow> record_transitions event threshold recorded items db
         | WentSilent \<Rightarrow>
             map_prod Suc id (record_transitions event threshold recorded items
               (write_bypass (event k True secs) db))
         | Returned \<Rightarrow>
             map_prod Suc id (record_transitions event threshold recorded items
               (write_bypass (event k False secs) db)))"

definition module_event :: "uuid \<Rightarrow> bool \<Rightarrow> int option \<Rightarrow> bypass_event" where
  "module_event m silent secs = (if silent then ToolModuleSilent m secs else ToolModuleReturned m secs)"

definition sweep_modules :: "bypass_config \<Rightarrow> bypass_db \<Rightarrow> nat \<times> bypass_db" where
  "sweep_modules c db =
     (let modules = bound_modules_with_liveness db
      in if modules = [] then (0, db)
         else record_transitions module_event (module_silence_secs c) (latest_module_liveness_records db)
                modules db)"

definition sweep_unbound_devices :: "bypass_config \<Rightarrow> bypass_db \<Rightarrow> nat \<times> bypass_db" where
  "sweep_unbound_devices c db =
     (let devices = unbound_devices_with_liveness db
      in if devices = [] then (0, db)
         else record_transitions EdgeIsolationReported (module_silence_secs c)
                (latest_device_isolation_records db) devices db)"

definition already_reported :: "instant option \<Rightarrow> instant option \<Rightarrow> bool" where
  "already_reported reported_at since =
     (case (reported_at, since) of
        (Some r, Some s) \<Rightarrow> s \<le> r
      | (Some _, None) \<Rightarrow> True
      | (None, _) \<Rightarrow> False)"

definition reading_evidence :: "bypass_config \<Rightarrow> tool_power_state \<Rightarrow> power_evidence" where
  "reading_evidence c r =
     \<lparr>relay_reported_on = unwrap_or (last_relay_on r) False,
      draw_observed = (case last_draw_amps r of Some a \<Rightarrow> unauthorized_power_draw_amps c \<le> a | None \<Rightarrow> False)\<rparr>"

definition observed_secs :: "instant \<Rightarrow> tool_power_state \<Rightarrow> int" where
  "observed_secs now r = (case power_evidence_since r of Some t \<Rightarrow> num_seconds (now - t) | None \<Rightarrow> 0)"

fun report_powered :: "bypass_config \<Rightarrow> (uuid \<rightharpoonup> instant) \<Rightarrow> tool_power_state list \<Rightarrow> bypass_db \<Rightarrow> nat \<times> bypass_db" where
  "report_powered c already [] db = (0, db)"
| "report_powered c already (r # rs) db =
     (case find (\<lambda>t. tr_id t = tps_tool_id r) (bp_tools db) of
        None \<Rightarrow> report_powered c already rs db
      | Some t \<Rightarrow>
          (let authorized = (tr_status t = InUse);
               evidence = reading_evidence c r;
               secs = observed_secs (bp_now db) r;
               found = is_unauthorized_power evidence authorized secs (unauthorized_power_debounce_secs c);
               reported = already_reported (already (tps_tool_id r)) (power_evidence_since r)
           in if \<not> found \<or> reported then report_powered c already rs db
              else map_prod Suc id (report_powered c already rs
                     (write_bypass (UnauthorizedPowerDetected (tps_tool_id r) evidence secs (tr_status t)) db))))"

definition check_unauthorized_power :: "bypass_config \<Rightarrow> bypass_db \<Rightarrow> nat \<times> bypass_db" where
  "check_unauthorized_power c db =
     (if bp_readings db = [] then (0, db)
      else report_powered c (latest_unauthorized_power_reports db) (bp_readings db) db)"

text \<open>One tick of the service.\<close>

definition bypass_tick :: "bypass_config \<Rightarrow> bypass_db \<Rightarrow> bypass_db" where
  "bypass_tick c db =
     snd (check_unauthorized_power c (snd (sweep_unbound_devices c (snd (sweep_modules c db)))))"

end
