(* ===== verification/Bypass_Safety.thy ===== *)
theory Bypass_Safety
  imports Bypass
begin

text \<open>
  What bypass detection promises: the rows about a module or a device alternate between silent and
  returned whatever happens around the sweeps, a sweep leaves the log saying what is so, and a
  powered tool is reported when nobody signed it on. The two liveness sweeps share one contract,
  the locale \<open>liveness_log\<close>.
\<close>

section \<open>Histories read from the log\<close>

definition history_of :: "(bypass_event \<Rightarrow> 'v option) \<Rightarrow> bypass_row list \<Rightarrow> 'v list" where
  "history_of sel rows = List.map_filter (\<lambda>r. sel (bw_event r)) rows"

definition log_sorted :: "bypass_db \<Rightarrow> bool" where
  "log_sorted db \<longleftrightarrow> sorted (map bw_at (bp_log db)) \<and> (\<forall>r \<in> set (bp_log db). bw_at r \<le> bp_now db)"

fun alternates :: "bool \<Rightarrow> bool list \<Rightarrow> bool" where
  "alternates b [] \<longleftrightarrow> True"
| "alternates b (x # xs) \<longleftrightarrow> x \<noteq> b \<and> alternates x xs"

definition last_or :: "'a \<Rightarrow> 'a list \<Rightarrow> 'a" where
  "last_or b xs = (if xs = [] then b else last xs)"

lemma last_or_simps [simp]: "last_or b [] = b" "last_or b (xs @ [x]) = x"
  by (simp_all add: last_or_def)

lemma alternates_snoc [simp]: "alternates b (xs @ [x]) \<longleftrightarrow> alternates b xs \<and> x \<noteq> last_or b xs"
  by (induction xs arbitrary: b) (auto simp: last_or_def)

lemma history_of_simps [simp]:
  "history_of sel [] = []"
  "history_of sel (xs @ ys) = history_of sel xs @ history_of sel ys"
  "history_of sel [r] = (case sel (bw_event r) of None \<Rightarrow> [] | Some v \<Rightarrow> [v])"
  by (simp_all add: history_of_def List.map_filter_def split: option.split)

lemma latest_by_time: "latest_by (\<lambda>r. sel (bw_event r)) rows = Some (t, v) \<Longrightarrow> \<exists>r \<in> set rows. bw_at r = t \<and> sel (bw_event r) = Some v"
  by (induction rows arbitrary: t v) (auto split: option.splits if_splits)

lemma latest_by_last:
  "sorted (map bw_at rows) \<Longrightarrow>
   map_option snd (latest_by (\<lambda>r. sel (bw_event r)) rows) =
     (if history_of sel rows = [] then None else Some (last (history_of sel rows)))"
proof (induction rows)
  case (Cons r rows)
  then have le: "bw_at r \<le> t" if "latest_by (\<lambda>r. sel (bw_event r)) rows = Some (t, v)" for t v
    using latest_by_time [OF that] by auto
  have "history_of sel (r # rows) = (case sel (bw_event r) of None \<Rightarrow> [] | Some v \<Rightarrow> [v]) @ history_of sel rows"
    using history_of_simps(2) [of sel "[r]" rows] by simp
  with Cons le show ?case by (fastforce split: option.splits)
qed simp

lemma latest_by_recorded:
  "log_sorted db \<Longrightarrow>
   unwrap_or (map_option snd (latest_by (\<lambda>r. sel (bw_event r)) (bp_log db))) b = last_or b (history_of sel (bp_log db))"
  by (simp add: log_sorted_def latest_by_last last_or_def)

lemma latest_by_ignores:
  "sel (bw_event r) = None \<Longrightarrow>
   latest_by (\<lambda>r. sel (bw_event r)) (rows @ [r]) = latest_by (\<lambda>r. sel (bw_event r)) rows"
  by (induction rows) (auto split: option.splits)

section \<open>Frames\<close>

lemma write_bypass_frame [simp]:
  "bp_now (write_bypass e db) = bp_now db"
  "bp_modules (write_bypass e db) = bp_modules db"
  "bp_devices (write_bypass e db) = bp_devices db"
  "bp_tools (write_bypass e db) = bp_tools db"
  "bp_readings (write_bypass e db) = bp_readings db"
  "bp_log_down (write_bypass e db) = bp_log_down db"
  by (simp_all add: write_bypass_def)

lemma write_bypass_log:
  "bp_log (write_bypass e db) =
     bp_log db @ (if bp_log_down db then [] else [\<lparr>bw_at = bp_now db, bw_event = e\<rparr>])"
  by (simp add: write_bypass_def)

lemma write_bypass_sorted: "log_sorted db \<Longrightarrow> log_sorted (write_bypass e db)"
  by (auto simp: log_sorted_def write_bypass_log sorted_append)

lemma record_transitions_frame [simp]:
  "bp_now (snd (record_transitions ev th rec items db)) = bp_now db"
  "bp_modules (snd (record_transitions ev th rec items db)) = bp_modules db"
  "bp_devices (snd (record_transitions ev th rec items db)) = bp_devices db"
  "bp_tools (snd (record_transitions ev th rec items db)) = bp_tools db"
  "bp_readings (snd (record_transitions ev th rec items db)) = bp_readings db"
  "bp_log_down (snd (record_transitions ev th rec items db)) = bp_log_down db"
  by (induction ev th rec items db rule: record_transitions.induct)
    (auto simp: Let_def split: liveness_transition.split)

lemma record_transitions_sorted:
  "log_sorted db \<Longrightarrow> log_sorted (snd (record_transitions ev th rec items db))"
  by (induction ev th rec items db rule: record_transitions.induct)
    (auto simp: Let_def write_bypass_sorted split: liveness_transition.split)

section \<open>The liveness contract\<close>

definition is_silent :: "int \<Rightarrow> instant \<Rightarrow> instant option \<Rightarrow> bool" where
  "is_silent threshold now seen = (case seen of None \<Rightarrow> True | Some t \<Rightarrow> threshold < num_seconds (now - t))"

lemma classify_cases:
  "classify_liveness (map_option (\<lambda>t. num_seconds (now - t)) seen) th p =
     (if is_silent th now seen = p then NoChange else if p then Returned else WentSilent)"
  by (cases seen; cases p) (auto simp: classify_liveness_def is_silent_def)

locale liveness_log =
  fixes event :: "uuid \<Rightarrow> bool \<Rightarrow> int option \<Rightarrow> bypass_event"
    and sel :: "uuid \<Rightarrow> bypass_event \<Rightarrow> bool option"
  assumes sel_event: "sel k (event j s secs) = (if j = k then Some s else None)"
begin

lemma history_of_write:
  "history_of (sel k) (bp_log (write_bypass (event j s secs) db)) =
     history_of (sel k) (bp_log db) @ (if j = k \<and> \<not> bp_log_down db then [s] else [])"
  by (simp add: write_bypass_log sel_event)

lemma unlisted: "k \<notin> fst ` set items \<Longrightarrow>
   history_of (sel k) (bp_log (snd (record_transitions event th rec items db))) = history_of (sel k) (bp_log db)"
proof (induction items arbitrary: db)
  case (Cons i items)
  then show ?case
    by (cases i) (auto simp: Let_def history_of_write split: liveness_transition.split)
qed simp

lemma listed:
  assumes "distinct (map fst items)" "(k, seen) \<in> set items"
  shows "history_of (sel k) (bp_log (snd (record_transitions event th rec items db))) =
    history_of (sel k) (bp_log db) @
      (if is_silent th (bp_now db) seen \<noteq> unwrap_or (rec k) False \<and> \<not> bp_log_down db
       then [is_silent th (bp_now db) seen] else [])"
  using assms
proof (induction items arbitrary: db)
  case (Cons i items)
  show ?case
  proof (cases "i = (k, seen)")
    case True
    with Cons.prems have "k \<notin> fst ` set items" by auto
    with True show ?thesis
      by (auto simp: Let_def classify_cases history_of_write unlisted)
  next
    case False
    with Cons.prems have m: "(k, seen) \<in> set items" by auto
    then have "k \<in> fst ` set items" by force
    with Cons.prems have "fst i \<noteq> k" by auto
    with Cons m show ?thesis
      by (cases i) (auto simp: Let_def history_of_write split: liveness_transition.split)
  qed
qed simp

lemma pass_history:
  assumes "log_sorted db" "distinct (map fst items)"
    and rec: "\<And>k. rec k = map_option snd (latest_by (\<lambda>r. sel k (bw_event r)) (bp_log db))"
  shows "history_of (sel k) (bp_log (snd (record_transitions event th rec items db))) =
    (case map_of items k of
       Some seen \<Rightarrow> history_of (sel k) (bp_log db) @
         (if is_silent th (bp_now db) seen \<noteq> last_or False (history_of (sel k) (bp_log db)) \<and> \<not> bp_log_down db
          then [is_silent th (bp_now db) seen] else [])
     | None \<Rightarrow> history_of (sel k) (bp_log db))"
proof (cases "map_of items k")
  case None
  then have "k \<notin> fst ` set items" by (simp add: map_of_eq_None_iff)
  with None show ?thesis by (simp add: unlisted)
next
  case (Some seen)
  then have "(k, seen) \<in> set items" by (rule map_of_SomeD)
  from listed [OF assms(2) this] Some show ?thesis
    by (simp add: rec latest_by_recorded [OF assms(1)])
qed

lemma pass_alternates:
  assumes "log_sorted db" "distinct (map fst items)"
    and "\<And>k. rec k = map_option snd (latest_by (\<lambda>r. sel k (bw_event r)) (bp_log db))"
    and "alternates False (history_of (sel k) (bp_log db))"
  shows "alternates False (history_of (sel k) (bp_log (snd (record_transitions event th rec items db))))"
  using assms(4) by (auto simp: pass_history [OF assms(1-3)] split: option.split)

lemma quiet_pass:
  "(\<And>k seen. (k, seen) \<in> set items \<Longrightarrow> unwrap_or (rec k) False = is_silent th (bp_now db) seen) \<Longrightarrow>
   record_transitions event th rec items db = (0, db)"
proof (induction items)
  case (Cons i items)
  obtain k seen where i: "i = (k, seen)" by (cases i)
  with Cons.prems [of k seen] have "is_silent th (bp_now db) seen = unwrap_or (rec k) False" by simp
  with Cons i show ?case by (simp add: Let_def classify_cases)
qed simp

lemma pass_is_true:
  assumes "log_sorted db" "distinct (map fst items)" "\<not> bp_log_down db"
    and "\<And>k. rec k = map_option snd (latest_by (\<lambda>r. sel k (bw_event r)) (bp_log db))"
    and "(k, seen) \<in> set items"
  shows "last_or False (history_of (sel k) (bp_log (snd (record_transitions event th rec items db)))) =
    is_silent th (bp_now db) seen"
  using assms(2,3,5) by (auto simp: pass_history [OF assms(1,2,4)] split: option.split)

end

interpretation module_log: liveness_log module_event module_silence
  by unfold_locales (auto simp: module_event_def)

interpretation device_log: liveness_log EdgeIsolationReported device_silence
  by unfold_locales simp

section \<open>The power check\<close>

lemma report_powered_frame [simp]:
  "bp_now (snd (report_powered c al rs db)) = bp_now db"
  "bp_modules (snd (report_powered c al rs db)) = bp_modules db"
  "bp_devices (snd (report_powered c al rs db)) = bp_devices db"
  "bp_tools (snd (report_powered c al rs db)) = bp_tools db"
  "bp_readings (snd (report_powered c al rs db)) = bp_readings db"
  "bp_log_down (snd (report_powered c al rs db)) = bp_log_down db"
  by (induction c al rs db rule: report_powered.induct) (auto simp: Let_def split: option.split)

lemma report_powered_sorted: "log_sorted db \<Longrightarrow> log_sorted (snd (report_powered c al rs db))"
  by (induction c al rs db rule: report_powered.induct)
    (auto simp: Let_def write_bypass_sorted split: option.split)

lemma report_powered_other:
  "(\<And>t ev secs st. sel (UnauthorizedPowerDetected t ev secs st) = None) \<Longrightarrow>
   history_of sel (bp_log (snd (report_powered c al rs db))) = history_of sel (bp_log db)"
  by (induction c al rs db rule: report_powered.induct)
    (auto simp: Let_def write_bypass_log split: option.split)

lemma record_transitions_other:
  "(\<And>k s secs. sel (ev k s secs) = None) \<Longrightarrow>
   history_of sel (bp_log (snd (record_transitions ev th rec items db))) = history_of sel (bp_log db)"
  by (induction ev th rec items db rule: record_transitions.induct)
    (auto simp: Let_def write_bypass_log split: liveness_transition.split)

text \<open>Which powered tools a check reports.\<close>

definition powered_unsigned :: "bypass_config \<Rightarrow> bypass_db \<Rightarrow> tool_power_state \<Rightarrow> bool" where
  "powered_unsigned c db r \<longleftrightarrow>
     (\<exists>t. find (\<lambda>t. tr_id t = tps_tool_id r) (bp_tools db) = Some t \<and> tr_status t \<noteq> InUse) \<and>
     any_evidence (reading_evidence c r) \<and>
     unauthorized_power_debounce_secs c \<le> observed_secs (bp_now db) r"

lemma report_powered_skips:
  "tid \<notin> tps_tool_id ` set rs \<Longrightarrow>
   history_of (power_report_of tid) (bp_log (snd (report_powered c al rs db))) =
     history_of (power_report_of tid) (bp_log db)"
proof (induction rs arbitrary: db)
  case (Cons r rs)
  then show ?case by (auto simp: Let_def write_bypass_log split: option.split)
qed simp

lemma report_powered_tool:
  assumes "distinct (map tps_tool_id rs)" "r \<in> set rs"
  shows "history_of (power_report_of (tps_tool_id r)) (bp_log (snd (report_powered c al rs db))) =
    history_of (power_report_of (tps_tool_id r)) (bp_log db) @
      (if powered_unsigned c db r \<and> \<not> already_reported (al (tps_tool_id r)) (power_evidence_since r) \<and>
          \<not> bp_log_down db then [()] else [])"
  using assms
proof (induction rs arbitrary: db)
  case (Cons q rs)
  show ?case
  proof (cases "q = r")
    case True
    with Cons.prems have "tps_tool_id r \<notin> tps_tool_id ` set rs" by auto
    with True show ?thesis
      by (auto simp: Let_def report_powered_skips write_bypass_log powered_unsigned_def
          is_unauthorized_power_def split: option.split)
  next
    case False
    with Cons.prems have ne: "tps_tool_id q \<noteq> tps_tool_id r" and r: "r \<in> set rs" by auto
    have same: "powered_unsigned c (write_bypass e db) r = powered_unsigned c db r" for e
      by (simp add: powered_unsigned_def)
    have "history_of (power_report_of (tps_tool_id r))
        (bp_log (write_bypass (UnauthorizedPowerDetected (tps_tool_id q) ev secs st) db)) =
        history_of (power_report_of (tps_tool_id r)) (bp_log db)" for ev secs st
      using ne by (simp add: write_bypass_log)
    with Cons.IH Cons.prems r same show ?thesis
      by (simp add: Let_def split: option.split)
  qed
qed simp

lemma check_reports:
  assumes "distinct (map tps_tool_id (bp_readings db))" "r \<in> set (bp_readings db)"
  shows "history_of (power_report_of (tps_tool_id r)) (bp_log (snd (check_unauthorized_power c db))) =
    history_of (power_report_of (tps_tool_id r)) (bp_log db) @
      (if powered_unsigned c db r \<and>
          \<not> already_reported (latest_unauthorized_power_reports db (tps_tool_id r)) (power_evidence_since r) \<and>
          \<not> bp_log_down db then [()] else [])"
  using report_powered_tool [OF assms] assms(2)
  by (auto simp: check_unauthorized_power_def)

section \<open>The service over any history\<close>

text \<open>
  \<open>World\<close> is everything that is not the service: bindings, devices, tools and readings change in
  any way that keeps ids unique, and the log becomes writable or not. \<open>Elapse\<close> moves the clock.
\<close>

datatype bypass_act =
    World "module_binding list" "space_device list" "tool_row list" "tool_power_state list" bool
  | Elapse nat
  | BypassTick

fun bypass_step :: "bypass_config \<Rightarrow> bypass_act \<Rightarrow> bypass_db \<Rightarrow> bypass_db" where
  "bypass_step c (World ms ds ts rs down) db =
     (if distinct (map mdb_id ms) \<and> distinct (map sdv_id ds)
      then db\<lparr>bp_modules := ms, bp_devices := ds, bp_tools := ts, bp_readings := rs, bp_log_down := down\<rparr>
      else db)"
| "bypass_step c (Elapse n) db = db\<lparr>bp_now := bp_now db + int n\<rparr>"
| "bypass_step c BypassTick db = bypass_tick c db"

definition ids_unique :: "bypass_db \<Rightarrow> bool" where
  "ids_unique db \<longleftrightarrow> distinct (map mdb_id (bp_modules db)) \<and> distinct (map sdv_id (bp_devices db))"

definition rows_alternate :: "bypass_db \<Rightarrow> bool" where
  "rows_alternate db \<longleftrightarrow>
     (\<forall>k. alternates False (history_of (module_silence k) (bp_log db))) \<and>
     (\<forall>k. alternates False (history_of (device_silence k) (bp_log db)))"

definition bypass_ok :: "bypass_db \<Rightarrow> bool" where
  "bypass_ok db \<longleftrightarrow> ids_unique db \<and> log_sorted db \<and> rows_alternate db"

lemma bound_distinct: "ids_unique db \<Longrightarrow> distinct (map fst (bound_modules_with_liveness db))"
proof -
  have "set (map fst (List.map_filter (\<lambda>b. map_option (\<lambda>s. (mdb_id b, sdv_last_seen s)) (f b)) ms)) \<subseteq> mdb_id ` set ms"
    for f :: "module_binding \<Rightarrow> space_device option" and ms by (induction ms) (auto simp: List.map_filter_simps split: option.splits)
  then have "distinct (map mdb_id ms) \<Longrightarrow>
      distinct (map fst (List.map_filter (\<lambda>b. map_option (\<lambda>s. (mdb_id b, sdv_last_seen s)) (f b)) ms))" for f :: "module_binding \<Rightarrow> space_device option" and ms
    by (induction ms) (force simp: List.map_filter_simps split: option.splits)+
  then show "ids_unique db \<Longrightarrow> ?thesis" by (simp add: ids_unique_def bound_modules_with_liveness_def)
qed

lemma unbound_distinct: "ids_unique db \<Longrightarrow> distinct (map fst (unbound_devices_with_liveness db))"
  by (simp add: ids_unique_def unbound_devices_with_liveness_def Let_def comp_def distinct_map_filter)

lemma module_event_other [simp]: "device_silence k (module_event m s secs) = None"
  by (simp add: module_event_def)

lemma sweep_modules_run:
  "sweep_modules c db = record_transitions module_event (module_silence_secs c)
     (latest_module_liveness_records db) (bound_modules_with_liveness db) db"
  by (simp add: sweep_modules_def Let_def)

lemma sweep_devices_run:
  "sweep_unbound_devices c db = record_transitions EdgeIsolationReported (module_silence_secs c)
     (latest_device_isolation_records db) (unbound_devices_with_liveness db) db"
  by (simp add: sweep_unbound_devices_def Let_def)

lemma sweep_modules_ok: "bypass_ok db \<Longrightarrow> bypass_ok (snd (sweep_modules c db))"
  using module_log.pass_alternates [of db "bound_modules_with_liveness db" "latest_module_liveness_records db"]
  by (auto simp: bypass_ok_def sweep_modules_run rows_alternate_def record_transitions_sorted bound_distinct
      latest_module_liveness_records_def ids_unique_def record_transitions_other)

lemma sweep_devices_ok: "bypass_ok db \<Longrightarrow> bypass_ok (snd (sweep_unbound_devices c db))"
  using device_log.pass_alternates [of db "unbound_devices_with_liveness db" "latest_device_isolation_records db"]
  by (auto simp: bypass_ok_def sweep_devices_run rows_alternate_def record_transitions_sorted unbound_distinct
      latest_device_isolation_records_def ids_unique_def record_transitions_other)

lemma check_power_ok: "bypass_ok db \<Longrightarrow> bypass_ok (snd (check_unauthorized_power c db))"
  by (auto simp: bypass_ok_def check_unauthorized_power_def rows_alternate_def report_powered_sorted
      ids_unique_def report_powered_other)

interpretation bypass_service: preserved "bypass_step c" bypass_ok
proof
  fix db a assume ok: "bypass_ok db"
  show "bypass_ok (bypass_step c a db)"
  proof (cases a)
    case World
    with ok show ?thesis
      by (auto simp: bypass_ok_def ids_unique_def log_sorted_def rows_alternate_def)
  next
    case Elapse
    with ok show ?thesis
      by (auto simp: bypass_ok_def ids_unique_def log_sorted_def rows_alternate_def intro: add_increasing2)
  next
    case BypassTick
    with ok show ?thesis
      by (simp add: bypass_tick_def check_power_ok sweep_devices_ok sweep_modules_ok)
  qed
qed

section \<open>Properties\<close>

definition hush_config :: bypass_config where
  "hush_config = \<lparr>module_silence_secs = 90, unauthorized_power_debounce_secs = 5,
     unauthorized_power_draw_amps = 1 / 2\<rparr>"

definition hush_db :: bypass_db where
  "hush_db = \<lparr>bp_now = seconds 1000, bp_modules = [\<lparr>mdb_id = 7, mdb_device_id = 1\<rparr>],
     bp_devices = [\<lparr>sdv_id = 1, sdv_deleted = False, sdv_last_seen = Some (seconds 800)\<rparr>],
     bp_tools = [], bp_readings = [], bp_log = [], bp_log_down = False\<rparr>"

lemma hush_ok: "bypass_ok hush_db"
  by (simp add: bypass_ok_def ids_unique_def log_sorted_def rows_alternate_def hush_db_def)

text \<open>
  C25. The audit log of a module's liveness never repeats itself: over any history of sweeps, clock
  movement, writes that fail, and bindings, devices and tools changing in between, the rows about a
  module alternate, starting with a silent one, and so do the rows about an unbound device.
\<close>
theorem liveness_rows_alternate:
  assumes "bypass_ok db"
  shows "alternates False (history_of (module_silence k) (bp_log (run_events (bypass_step c) acts db))) \<and>
    alternates False (history_of (device_silence k) (bp_log (run_events (bypass_step c) acts db)))"
  using bypass_service.run_keeps [OF assms, of c acts] by (simp add: bypass_ok_def rows_alternate_def)

lemma liveness_rows_alternate_witness:
  "alternates False (history_of (module_silence 7)
     (bp_log (run_events (bypass_step hush_config) [BypassTick, Elapse 5, BypassTick] hush_db))) \<and>
   alternates False (history_of (device_silence 7)
     (bp_log (run_events (bypass_step hush_config) [BypassTick, Elapse 5, BypassTick] hush_db)))"
  by (rule liveness_rows_alternate [OF hush_ok])

text \<open>
  A sweep leaves the log saying what is so: after one that could write, the latest row of every
  bound module agrees with whether its device is past the threshold (never having reported counts as
  past it), and a second sweep at that moment writes nothing.
\<close>
lemma sweep_records_the_truth:
  assumes "bypass_ok db" and "\<not> bp_log_down db"
  shows "(\<forall>(k, seen) \<in> set (bound_modules_with_liveness db).
      unwrap_or (latest_module_liveness_records (snd (sweep_modules c db)) k) False =
        is_silent (module_silence_secs c) (bp_now db) seen) \<and>
    sweep_modules c (snd (sweep_modules c db)) = (0, snd (sweep_modules c db))"
proof -
  from assms(1) have ok: "log_sorted db" "ids_unique db" by (simp_all add: bypass_ok_def)
  let ?db = "snd (sweep_modules c db)"
  have truth: "unwrap_or (latest_module_liveness_records ?db k) False =
      is_silent (module_silence_secs c) (bp_now db) seen"
    if "(k, seen) \<in> set (bound_modules_with_liveness db)" for k seen
    using module_log.pass_is_true [OF ok(1) bound_distinct [OF ok(2)] assms(2) _ that]
    by (simp add: latest_module_liveness_records_def sweep_modules_run latest_by_recorded
        record_transitions_sorted ok(1))
  have "bound_modules_with_liveness ?db = bound_modules_with_liveness db" "bp_now ?db = bp_now db"
    by (simp_all add: bound_modules_with_liveness_def live_row_def sweep_modules_run)
  with truth have "sweep_modules c ?db = (0, ?db)"
    by (subst sweep_modules_run) (rule module_log.quiet_pass, simp)
  with truth show ?thesis by auto
qed

text \<open>
  The debounce does not cover the moment after a legitimate switch-off. The clock it reads runs
  from when the tool was first seen powered, not from when the sign-on ended, so a tool that has been
  on and signed on for longer than the debounce is not reported while in use, and is reported at that
  very instant once its status is no longer \<open>InUse\<close>, its relay still closed.
\<close>
lemma switch_off_is_reported_at_once:
  assumes "distinct (map tps_tool_id (bp_readings db))" and "r \<in> set (bp_readings db)"
    and "find (\<lambda>t. tr_id t = tps_tool_id r) (bp_tools db) = Some t" and "tr_status t = InUse"
    and "last_relay_on r = Some True" and "power_evidence_since r = Some since"
    and "unauthorized_power_debounce_secs c \<le> num_seconds (bp_now db - since)"
    and "latest_unauthorized_power_reports db (tps_tool_id r) = None" and "\<not> bp_log_down db"
    and "off = db\<lparr>bp_tools := map (\<lambda>u. if tr_id u = tps_tool_id r then u\<lparr>tr_status := Idle\<rparr> else u) (bp_tools db)\<rparr>"
  shows "history_of (power_report_of (tps_tool_id r)) (bp_log (snd (check_unauthorized_power c db))) =
      history_of (power_report_of (tps_tool_id r)) (bp_log db) \<and>
    history_of (power_report_of (tps_tool_id r)) (bp_log (snd (check_unauthorized_power c off))) =
      history_of (power_report_of (tps_tool_id r)) (bp_log db) @ [()]"
proof
  from check_reports [OF assms(1,2), of c] assms(3,4)
  show "history_of (power_report_of (tps_tool_id r)) (bp_log (snd (check_unauthorized_power c db))) =
      history_of (power_report_of (tps_tool_id r)) (bp_log db)"
    by (simp add: powered_unsigned_def)
  have "powered_unsigned c off r"
    using assms(3,5-7,10)
    by (simp add: powered_unsigned_def any_evidence_def reading_evidence_def observed_secs_def find_update_row)
  moreover have "latest_unauthorized_power_reports off (tps_tool_id r) = None"
    using assms(8,10) by (simp add: latest_unauthorized_power_reports_def)
  ultimately show "history_of (power_report_of (tps_tool_id r)) (bp_log (snd (check_unauthorized_power c off))) =
      history_of (power_report_of (tps_tool_id r)) (bp_log db) @ [()]"
    using check_reports [of off r c] assms by (simp add: already_reported_def)
qed

definition saw_reading :: tool_power_state where
  "saw_reading = \<lparr>tps_tool_id = tr_id demo_bandsaw, last_draw_amps = None, last_voltage = None,
     reported_max_voltage = None, reported_amperage_limit = None, last_reported_at = seconds 3600,
     tps_locked_out = False, tps_lockout_reason = None, tps_locked_out_at = None,
     last_relay_on = Some True, power_evidence_since = Some (seconds 0)\<rparr>"

definition saw_db :: bypass_db where
  "saw_db = \<lparr>bp_now = seconds 3600, bp_modules = [], bp_devices = [],
     bp_tools = [demo_bandsaw\<lparr>tr_status := InUse\<rparr>], bp_readings = [saw_reading], bp_log = [],
     bp_log_down = False\<rparr>"

end
