(* ===== verification/Text.thy ===== *)
theory Text
  imports Secrets
begin

text \<open>
  The operations of Rust's \<^verbatim>\<open>str\<close> that several components read text with: splitting, trimming, ASCII
  case, decimal integers of 64 bits, and the round trip of an integer through its decimal form.
  Blanks are the ASCII ones; the other Unicode blanks that \<^verbatim>\<open>str::trim\<close> also removes are left out.
\<close>

section \<open>Splitting\<close>

fun split_on :: "char \<Rightarrow> string \<Rightarrow> string list" where
  "split_on c [] = [[]]"
| "split_on c (x # xs) =
     (if x = c then [] # split_on c xs
      else (case split_on c xs of w # ws \<Rightarrow> (x # w) # ws | [] \<Rightarrow> [[x]]))"

fun split_once :: "char \<Rightarrow> string \<Rightarrow> (string \<times> string) option" where
  "split_once c [] = None"
| "split_once c (x # xs) =
     (if x = c then Some ([], xs) else map_option (map_prod (\<lambda>w. x # w) id) (split_once c xs))"

lemma split_on_clean [simp]: "c \<notin> set s \<Longrightarrow> split_on c s = [s]"
  by (induction s) auto

lemma split_on_append [simp]: "c \<notin> set s \<Longrightarrow> split_on c (s @ c # t) = s # split_on c t"
  by (induction s) auto

lemma split_once_append [simp]: "c \<notin> set s \<Longrightarrow> split_once c (s @ c # t) = Some (s, t)"
  by (induction s) auto

lemma split_once_Some: "split_once c s = Some (a, b) \<longleftrightarrow> s = a @ c # b \<and> c \<notin> set a"
proof (induction s arbitrary: a)
  case (Cons x s)
  then show ?case by (cases a) auto
qed simp

section \<open>Trimming and case\<close>

definition is_blank :: "char \<Rightarrow> bool" where
  "is_blank c \<longleftrightarrow> c \<in> {CHR '' '', CHR 0x09, CHR 0x0A, CHR 0x0B, CHR 0x0C, CHR 0x0D}"

definition trim :: "string \<Rightarrow> string" where
  "trim s = rev (dropWhile is_blank (rev (dropWhile is_blank s)))"

definition trim_end_matches :: "char \<Rightarrow> string \<Rightarrow> string" where
  "trim_end_matches c s = rev (dropWhile (\<lambda>x. x = c) (rev s))"

definition ascii_lower :: "char \<Rightarrow> char" where
  "ascii_lower c = (if c \<in> set ''ABCDEFGHIJKLMNOPQRSTUVWXYZ'' then char_of (of_char c + 32 :: nat) else c)"

definition to_ascii_lowercase :: "string \<Rightarrow> string" where
  "to_ascii_lowercase s = map ascii_lower s"

lemma trim_clean [simp]: "\<forall>c \<in> set s. \<not> is_blank c \<Longrightarrow> trim s = s"
proof -
  have d: "\<forall>c \<in> set t. \<not> is_blank c \<Longrightarrow> dropWhile is_blank t = t" for t by (cases t) auto
  show "\<forall>c \<in> set s. \<not> is_blank c \<Longrightarrow> ?thesis" by (simp add: trim_def d)
qed

lemma trim_Nil [simp]: "trim [] = []"
  by (simp add: trim_def)

section \<open>Decimal integers\<close>

definition is_digit :: "char \<Rightarrow> bool" where
  "is_digit c \<longleftrightarrow> c \<in> set ''0123456789''"

definition in_i64 :: "int \<Rightarrow> bool" where
  "in_i64 i \<longleftrightarrow> - (2 ^ 63) \<le> i \<and> i < 2 ^ 63"

definition read_i64 :: "string \<Rightarrow> int option" where
  "read_i64 s =
     (let (neg, ds) = (case s of
            [] \<Rightarrow> (False, [])
          | c # cs \<Rightarrow> if c = CHR ''-'' then (True, cs) else if c = CHR ''+'' then (False, cs) else (False, s))
      in if ds = [] \<or> \<not> list_all is_digit ds then None
         else let i = (if neg then - int (read_nat ds) else int (read_nat ds))
              in if in_i64 i then Some i else None)"

lemma is_digit_char: "d < 10 \<Longrightarrow> is_digit (digit_char d)"
proof -
  assume "d < 10"
  then have "d \<in> set [0..<10]" by simp
  moreover have "list_all (\<lambda>d. is_digit (digit_char d)) [0..<10]" by code_simp
  ultimately show "is_digit (digit_char d)" by (simp add: list_all_iff)
qed

lemma show_nat_digits: "show_nat n \<noteq> [] \<and> list_all is_digit (show_nat n)"
proof (induction n rule: show_nat.induct)
  case (1 n)
  then show ?case by (subst (1 2) show_nat.simps) (auto simp: is_digit_char)
qed

lemma show_int_chars: "c \<in> set (show_int i) \<Longrightarrow> is_digit c \<or> c = CHR ''-''"
  using show_nat_digits by (auto simp: show_int_def list_all_iff split: if_splits)

lemma read_show_i64 [simp]: "in_i64 i \<Longrightarrow> read_i64 (show_int i) = Some i"
proof -
  assume i: "in_i64 i"
  have d: "show_nat n = c # cs \<Longrightarrow> c \<noteq> CHR ''-'' \<and> c \<noteq> CHR ''+''" for n c cs
    using show_nat_digits [of n] by (auto simp: is_digit_def)
  show ?thesis
  proof (cases "i < 0")
    case True
    then show ?thesis using i show_nat_digits [of "nat (- i)"] by (simp add: read_i64_def show_int_def)
  next
    case False
    obtain c cs where n: "show_nat (nat i) = c # cs"
      using show_nat_digits [of "nat i"] by (cases "show_nat (nat i)") auto
    have "read_nat (c # cs) = nat i" "list_all is_digit (c # cs)"
      using n show_nat_digits [of "nat i"] read_show_nat [of "nat i"] by simp_all
    with False i n d [OF n] show ?thesis by (simp add: read_i64_def show_int_def)
  qed
qed

lemma digit_not_blank: "is_digit c \<Longrightarrow> \<not> is_blank c"
  by (auto simp: is_digit_def is_blank_def)

lemma trim_show_int [simp]: "trim (show_int i) = show_int i"
  by (rule trim_clean) (auto dest!: show_int_chars simp: digit_not_blank is_blank_def [of "CHR ''-''"])

end
