(* ===== verification/Stripe.thy ===== *)
theory Stripe
  imports Membership Api_Errors Toolguard Text "HOL-Library.Word"
begin

text \<open>
  Payments: the webhook and the two redirect endpoints of \<^verbatim>\<open>server/src/api/stripe.rs\<close>, the pure half and
  the retry loop of the client in \<^verbatim>\<open>server/src/stripe.rs\<close>, and the customer table of
  \<^verbatim>\<open>server/src/database.rs\<close>, over the membership tables. \<open>hmac\<close> is the hex HMAC-SHA256, \<open>parse_event\<close> the
  JSON decoding of a body into an event type and its object, \<open>round0\<close> is \<^verbatim>\<open>BigDecimal::round(0)\<close>. The
  running membership service is \<open>Some\<close> of its configuration. A failing database is left out.
\<close>

section \<open>The client\<close>

datatype checkout_mode = Subscription | OneShot int

datatype stripe_error =
    StripeDisabled
  | Configuration string
  | Network string
  | Api nat string
  | Parse string

record stripe_settings =
  ss_base_url :: string
  ss_secret_key :: string
  ss_price_id :: string
  ss_currency :: string
  ss_plan_name :: string
  ss_site_url :: string

definition MAX_ATTEMPTS :: nat where "MAX_ATTEMPTS = 3"
definition INVOICE_POLL_LIMIT :: nat where "INVOICE_POLL_LIMIT = 10"

definition stripe_settings_of :: "bool \<Rightarrow> stripe_settings \<Rightarrow> (stripe_error, stripe_settings) result" where
  "stripe_settings_of enabled s =
     (if \<not> enabled then Inl StripeDisabled
      else if trim (ss_secret_key s) = [] then Inl (Configuration ''secret_key is empty'')
      else Inr s)"

definition endpoint :: "string \<Rightarrow> string \<Rightarrow> string" where
  "endpoint base_url path = trim_end_matches (CHR ''/'') base_url @ ''/'' @ path"

definition app_url :: "string \<Rightarrow> string \<Rightarrow> string" where
  "app_url site_url suffix = trim_end_matches (CHR ''/'') site_url @ suffix"

definition checkout_form ::
  "stripe_settings \<Rightarrow> checkout_mode \<Rightarrow> string \<Rightarrow> string \<Rightarrow> string option \<Rightarrow> (string \<times> string) list" where
  "checkout_form s mode user_email client_reference_id customer_id =
     (case mode of
        Subscription \<Rightarrow>
          [(''mode'', ''subscription''), (''line_items[0][price]'', ss_price_id s),
           (''line_items[0][quantity]'', ''1'')]
      | OneShot amount_cents \<Rightarrow>
          [(''mode'', ''payment''),
           (''line_items[0][price_data][currency]'', to_ascii_lowercase (ss_currency s)),
           (''line_items[0][price_data][product_data][name]'', ss_plan_name s),
           (''line_items[0][price_data][unit_amount]'', show_int amount_cents),
           (''line_items[0][quantity]'', ''1'')]) @
     [(''success_url'', app_url (ss_site_url s) ''/profile?checkout=success''),
      (''cancel_url'', app_url (ss_site_url s) ''/profile?checkout=cancel''),
      (''client_reference_id'', client_reference_id)] @
     (case customer_id of
        Some cus \<Rightarrow> if cus \<noteq> [] then [(''customer'', cus)] else [(''customer_email'', user_email)]
      | None \<Rightarrow> [(''customer_email'', user_email)])"

definition portal_form :: "stripe_settings \<Rightarrow> string \<Rightarrow> (string \<times> string) list" where
  "portal_form s customer_id =
     [(''customer'', customer_id), (''return_url'', app_url (ss_site_url s) ''/profile'')]"

definition invoices_query :: "string \<Rightarrow> nat \<Rightarrow> (string \<times> string) list" where
  "invoices_query customer_id limit =
     [(''customer'', customer_id), (''status'', ''paid''), (''limit'', show_nat limit)]"

text \<open>One attempt: the status and body of a response, or the transport error.\<close>

type_synonym attempt_result = "(string, nat \<times> string) result"

definition is_success :: "nat \<Rightarrow> bool" where "is_success status \<longleftrightarrow> 200 \<le> status \<and> status < 300"

definition retryable :: "nat \<Rightarrow> bool" where "retryable status \<longleftrightarrow> status = 429 \<or> (500 \<le> status \<and> status < 600)"

text \<open>\<open>peer n\<close> is what attempt \<open>n\<close> gets; the result also counts the attempts made.\<close>

function send_attempts :: "(nat \<Rightarrow> attempt_result) \<Rightarrow> nat \<Rightarrow> stripe_error \<Rightarrow> (stripe_error, string) result \<times> nat" where
  "send_attempts peer attempt last_error =
     (if MAX_ATTEMPTS < attempt then (Inl last_error, attempt - 1)
      else
        (case peer attempt of
           Inr (status, body) \<Rightarrow>
             if is_success status then (Inr body, attempt)
             else if \<not> retryable status \<or> attempt = MAX_ATTEMPTS then (Inl (Api status body), attempt)
             else send_attempts peer (Suc attempt) (Api status body)
         | Inl e \<Rightarrow>
             if attempt = MAX_ATTEMPTS then (Inl (Network e), attempt)
             else send_attempts peer (Suc attempt) (Network e)))"
  by pat_completeness auto

termination
  by (relation "measure (\<lambda>(_, attempt, _). Suc MAX_ATTEMPTS - attempt)") (auto simp: MAX_ATTEMPTS_def)

definition send_retrying :: "(nat \<Rightarrow> attempt_result) \<Rightarrow> (stripe_error, string) result \<times> nat" where
  "send_retrying peer = send_attempts peer 1 (Network ''no attempts made'')"

record raw_invoice =
  ri_id :: string
  ri_amount_paid :: int
  ri_status :: "string option"

text \<open>The invoices of a poll, as the cycle takes them: the amount in minor units, and the id.\<close>

definition paid_invoices :: "raw_invoice list \<Rightarrow> (int \<times> string) list" where
  "paid_invoices ris =
     map (\<lambda>i. (ri_amount_paid i, ri_id i)) (filter (\<lambda>i. ri_status i = Some ''paid'' \<and> ri_id i \<noteq> []) ris)"

section \<open>Signatures\<close>

definition SIGNATURE_TOLERANCE_SECS :: int where "SIGNATURE_TOLERANCE_SECS = 300"

definition sign_stripe :: "(string \<Rightarrow> string \<Rightarrow> string) \<Rightarrow> string \<Rightarrow> int \<Rightarrow> string \<Rightarrow> string" where
  "sign_stripe hmac secret timestamp body = hmac secret (show_int timestamp @ ''.'' @ body)"

fun read_signature_parts :: "string list \<Rightarrow> int option \<Rightarrow> string list \<Rightarrow> int option \<times> string list" where
  "read_signature_parts [] timestamp signatures = (timestamp, signatures)"
| "read_signature_parts (part # parts) timestamp signatures =
     (case split_once (CHR ''='') part of
        None \<Rightarrow> read_signature_parts parts timestamp signatures
      | Some (k, v) \<Rightarrow>
          if trim k = ''t'' then read_signature_parts parts (read_i64 (trim v)) signatures
          else if trim k = ''v1'' then read_signature_parts parts timestamp (signatures @ [trim v])
          else read_signature_parts parts timestamp signatures)"

text \<open>
  \<^verbatim>\<open>(now - t).abs()\<close> over 64-bit integers, as a release build computes it: the difference wraps, and so does
  the negation of the least integer. A build with overflow checks panics where this wraps.
\<close>

definition age_secs :: "int \<Rightarrow> int \<Rightarrow> int" where
  "age_secs now t = (let d = word_of_int now - word_of_int t :: 64 word in sint (if sint d < 0 then - d else d))"

definition verify_stripe_signature ::
  "(string \<Rightarrow> string \<Rightarrow> string) \<Rightarrow> string \<Rightarrow> string \<Rightarrow> string \<Rightarrow> int \<Rightarrow> int \<Rightarrow> bool" where
  "verify_stripe_signature hmac secret body header now tolerance =
     (if secret = [] then False
      else
        (case read_signature_parts (split_on (CHR '','') header) None [] of
           (None, _) \<Rightarrow> False
         | (Some t, signatures) \<Rightarrow>
             if tolerance < age_secs now t then False
             else if signatures = [] then False
             else let expected = sign_stripe hmac secret t body
                  in list_ex (\<lambda>s. constant_time_eq (as_bytes expected) (as_bytes s)) signatures))"

section \<open>Customers\<close>

record stripe_customer =
  sc_user_id :: uuid
  sc_customer_id :: string
  sc_subscription_id :: "string option"
  sc_status :: "string option"
  sc_updated_at :: instant

datatype stripe_audit =
    SubscriptionStarted uuid
  | SubscriptionPaymentFailed uuid
  | SubscriptionCanceled uuid

record stripe_db =
  st_members :: membership_db
  st_customers :: "stripe_customer list"
  st_audit :: "stripe_audit list"

definition customer_row :: "stripe_db \<Rightarrow> string \<Rightarrow> stripe_customer option" where
  "customer_row db cus = find (\<lambda>c. sc_customer_id c = cus) (st_customers db)"

definition find_user_by_stripe_customer_id :: "stripe_db \<Rightarrow> string \<Rightarrow> member_user option" where
  "find_user_by_stripe_customer_id db cus =
     Option.bind (customer_row db cus) (\<lambda>c. find_user_by_id (st_members db) (sc_user_id c))"

definition touch_customer ::
  "string \<Rightarrow> string option \<Rightarrow> string option \<Rightarrow> instant \<Rightarrow> stripe_db \<Rightarrow> stripe_db" where
  "touch_customer cus subscription status now db =
     db\<lparr>st_customers := map (\<lambda>c. if sc_customer_id c = cus
          then c\<lparr>sc_subscription_id := subscription, sc_status := status, sc_updated_at := now\<rparr> else c)
        (st_customers db)\<rparr>"

definition link_stripe_customer ::
  "uuid \<Rightarrow> string \<Rightarrow> string option \<Rightarrow> string option \<Rightarrow> instant \<Rightarrow> stripe_db \<Rightarrow>
   (database_error, unit) result \<times> stripe_db" where
  "link_stripe_customer uid cus subscription status now db =
     (case customer_row db cus of
        Some c \<Rightarrow>
          if sc_user_id c \<noteq> uid then (Inl (Diesel DieselNotFound ''Record not found''), db)
          else (Inr (), touch_customer cus subscription status now db)
      | None \<Rightarrow>
          (Inr (), db\<lparr>st_customers := st_customers db @
             [\<lparr>sc_user_id = uid, sc_customer_id = cus, sc_subscription_id = subscription, sc_status = status,
               sc_updated_at = now\<rparr>]\<rparr>))"

definition set_stripe_subscription ::
  "string \<Rightarrow> string option \<Rightarrow> string option \<Rightarrow> instant \<Rightarrow> stripe_db \<Rightarrow>
   (database_error, unit) result \<times> stripe_db" where
  "set_stripe_subscription cus subscription status now db =
     (if customer_row db cus = None then (Inl (Diesel DieselNotFound ''Record not found''), db)
      else (Inr (), touch_customer cus subscription status now db))"

text \<open>The customer with a live subscription, else the most recently updated.\<close>

definition current_stripe_customer :: "stripe_db \<Rightarrow> uuid \<Rightarrow> stripe_customer option" where
  "current_stripe_customer db uid =
     (let mine = filter (\<lambda>c. sc_user_id c = uid) (st_customers db);
          newest = (\<lambda>cs. case sort_key (\<lambda>c. - sc_updated_at c) cs of [] \<Rightarrow> None | c # _ \<Rightarrow> Some c)
      in case newest (filter (\<lambda>c. sc_subscription_id c \<noteq> None) mine) of
           Some c \<Rightarrow> Some c
         | None \<Rightarrow> newest mine)"

section \<open>Redirects\<close>

record stripe_env =
  sv_text :: text_ops
  sv_hmac :: "string \<Rightarrow> string \<Rightarrow> string"
  sv_parse_event :: "string \<Rightarrow> (string \<times> json) option"
  sv_round0 :: "rat \<Rightarrow> int"
  sv_enabled :: bool
  sv_settings :: stripe_settings
  sv_webhook_secret :: string
  sv_due_amount :: "rat option"
  sv_one_shot_periods :: int
  sv_service :: "membership_config option"
  sv_calendar :: calendar

fun show_stripe_error :: "stripe_error \<Rightarrow> string" where
  "show_stripe_error StripeDisabled = ''Stripe integration is disabled''"
| "show_stripe_error (Configuration e) = ''Stripe configuration error: '' @ e"
| "show_stripe_error (Network e) = ''Network error talking to Stripe: '' @ e"
| "show_stripe_error (Api status body) = ''Stripe returned status '' @ show_nat status @ '': '' @ body"
| "show_stripe_error (Parse e) = ''Failed to parse Stripe response: '' @ e"

definition require_stripe_enabled :: "stripe_env \<Rightarrow> api_error option" where
  "require_stripe_enabled v =
     (if sv_enabled v then None else Some (Forbidden ''Stripe integration is disabled in server configuration''))"

definition decimal_to_minor_units :: "(rat \<Rightarrow> int) \<Rightarrow> rat \<Rightarrow> int" where
  "decimal_to_minor_units round0 amount = (let i = round0 (amount * 100) in if in_i64 i then i else 0)"

text \<open>A request: the address, and the form it posts.\<close>

type_synonym request = "string \<times> (string \<times> string) list"

definition create_checkout_session ::
  "stripe_env \<Rightarrow> checkout_mode \<Rightarrow> string \<Rightarrow> string \<Rightarrow> string option \<Rightarrow> (stripe_error, request) result" where
  "create_checkout_session v mode user_email reference customer_id =
     (case stripe_settings_of (sv_enabled v) (sv_settings v) of
        Inl e \<Rightarrow> Inl e
      | Inr s \<Rightarrow>
          if mode = Subscription \<and> trim (ss_price_id s) = [] then Inl (Configuration ''price_id is empty'')
          else Inr (endpoint (ss_base_url s) ''v1/checkout/sessions'',
                    checkout_form s mode user_email reference customer_id))"

definition checkout_mode_of :: "stripe_env \<Rightarrow> bool \<Rightarrow> (api_error, checkout_mode) result" where
  "checkout_mode_of v one_shot =
     (if \<not> one_shot then Inr Subscription
      else
        (case sv_due_amount v of
           None \<Rightarrow> Inl (InternalServerError ''membership.due_amount is not a valid decimal'')
         | Some due \<Rightarrow>
             Inr (OneShot (decimal_to_minor_units (sv_round0 v) (due * of_int (max (sv_one_shot_periods v) 1))))))"

definition create_checkout ::
  "stripe_env \<Rightarrow> bool \<Rightarrow> uuid \<Rightarrow> string \<Rightarrow> stripe_db \<Rightarrow> (api_error, request) result" where
  "create_checkout v one_shot uid email db =
     (case require_stripe_enabled v of
        Some e \<Rightarrow> Inl e
      | None \<Rightarrow>
          (case checkout_mode_of v one_shot of
             Inl e \<Rightarrow> Inl e
           | Inr mode \<Rightarrow>
               (case create_checkout_session v mode email (uuid_show (sv_text v) uid)
                       (map_option sc_customer_id (current_stripe_customer db uid)) of
                  Inl e \<Rightarrow> Inl (InternalServerError (''Stripe checkout failed: '' @ show_stripe_error e))
                | Inr req \<Rightarrow> Inr req)))"

definition create_portal :: "stripe_env \<Rightarrow> uuid \<Rightarrow> stripe_db \<Rightarrow> (api_error, request) result" where
  "create_portal v uid db =
     (case require_stripe_enabled v of
        Some e \<Rightarrow> Inl e
      | None \<Rightarrow>
          (case current_stripe_customer db uid of
             None \<Rightarrow> Inl (BadRequest ''No Stripe customer for this account yet; start a membership first'')
           | Some c \<Rightarrow>
               (case stripe_settings_of (sv_enabled v) (sv_settings v) of
                  Inl e \<Rightarrow> Inl (InternalServerError (''Stripe portal failed: '' @ show_stripe_error e))
                | Inr s \<Rightarrow> Inr (endpoint (ss_base_url s) ''v1/billing_portal/sessions'',
                                portal_form s (sc_customer_id c)))))"

section \<open>The webhook\<close>

definition str_field :: "json \<Rightarrow> string \<Rightarrow> string option" where
  "str_field obj key = Option.bind (json_get obj key) json_as_str"

fun json_as_i64 :: "json \<Rightarrow> int option" where
  "json_as_i64 (JNum n) = (if in_i64 n then Some n else None)"
| "json_as_i64 _ = None"

definition i64_field :: "json \<Rightarrow> string \<Rightarrow> int option" where
  "i64_field obj key = Option.bind (json_get obj key) json_as_i64"

definition stripe_log :: "stripe_audit \<Rightarrow> stripe_db \<Rightarrow> stripe_db" where
  "stripe_log e db = db\<lparr>st_audit := st_audit db @ [e]\<rparr>"

fun from_membership_error :: "membership_error \<Rightarrow> api_error" where
  "from_membership_error membership_error.NotFound =
     from_database_error (Diesel DieselNotFound ''Record not found'')"
| "from_membership_error (LedgerError _) =
     from_database_error (Diesel (DieselDatabase diesel_kind.UniqueViolation ''duplicate key'') ''duplicate key'')"

type_synonym handled = "(api_error, bool) result \<times> stripe_db"

text \<open>A credit through the membership service, if it runs; \<open>True\<close> whether or not it posted.\<close>

definition credit ::
  "stripe_env \<Rightarrow> instant \<Rightarrow> uuid \<Rightarrow> ledger_entry_type \<Rightarrow> rat \<Rightarrow> string option \<Rightarrow> stripe_db \<Rightarrow> handled" where
  "credit v now uid ty amount reference db =
     (case sv_service v of
        None \<Rightarrow> (Inl (InternalServerError ''Membership service is not running''), db)
      | Some c \<Rightarrow>
          (case record_credit c (sv_calendar v) now uid ty amount reference (st_members db) of
             (Inr _, m) \<Rightarrow> (Inr True, db\<lparr>st_members := m\<rparr>)
           | (Inl e, m) \<Rightarrow> (Inl (from_membership_error e), db\<lparr>st_members := m\<rparr>)))"

definition user_from_client_reference :: "stripe_env \<Rightarrow> json \<Rightarrow> stripe_db \<Rightarrow> member_user option" where
  "user_from_client_reference v obj db =
     Option.bind (str_field obj ''client_reference_id'') (\<lambda>r.
     Option.bind (uuid_parse (sv_text v) r) (\<lambda>uid. find_user_by_id (st_members db) uid))"

definition link_error :: "string \<Rightarrow> database_error \<Rightarrow> api_error" where
  "link_error cus e =
     (case e of
        Diesel DieselNotFound _ \<Rightarrow> Conflict (''Stripe customer '' @ cus @ '' is already linked to a different account'')
      | other \<Rightarrow> from_database_error other)"

definition handle_checkout_completed :: "stripe_env \<Rightarrow> instant \<Rightarrow> json \<Rightarrow> stripe_db \<Rightarrow> handled" where
  "handle_checkout_completed v now obj db =
     (case user_from_client_reference v obj db of
        None \<Rightarrow> (Inr False, db)
      | Some user \<Rightarrow>
          (let subscription = str_field obj ''subscription'';
               linked = (case str_field obj ''customer'' of
                           None \<Rightarrow> (Inr (), db)
                         | Some cus \<Rightarrow>
                             (case link_stripe_customer (mb_id user) cus subscription
                                     (map_option (\<lambda>_. ''active'') subscription) now db of
                                (Inl e, db1) \<Rightarrow> (Inl (link_error cus e), db1)
                              | (Inr _, db1) \<Rightarrow> (Inr (), db1)))
           in case linked of
                (Inl e, db1) \<Rightarrow> (Inl e, db1)
              | (Inr _, db1) \<Rightarrow>
                  (let db2 = (if subscription \<noteq> None then stripe_log (SubscriptionStarted (mb_id user)) db1 else db1)
                   in if str_field obj ''mode'' = Some ''payment''
                      then (case i64_field obj ''amount_total'' of
                              Some amount \<Rightarrow>
                                credit v now (mb_id user) StripePayment (minor_units_to_decimal amount)
                                  (str_field obj ''id'') db2
                            | None \<Rightarrow> (Inr True, db2))
                      else (Inr True, db2))))"

text \<open>The account behind the event's customer: without one the event is acknowledged and ignored.\<close>

definition for_customer :: "json \<Rightarrow> stripe_db \<Rightarrow> (string \<Rightarrow> member_user \<Rightarrow> handled) \<Rightarrow> handled" where
  "for_customer obj db k =
     (case str_field obj ''customer'' of
        None \<Rightarrow> (Inr False, db)
      | Some cus \<Rightarrow>
          (case find_user_by_stripe_customer_id db cus of
             None \<Rightarrow> (Inr False, db)
           | Some user \<Rightarrow> k cus user))"

definition handle_invoice_paid :: "stripe_env \<Rightarrow> instant \<Rightarrow> json \<Rightarrow> stripe_db \<Rightarrow> handled" where
  "handle_invoice_paid v now obj db =
     for_customer obj db (\<lambda>_ user.
       credit v now (mb_id user) StripePayment (minor_units_to_decimal (unwrap_or (i64_field obj ''amount_paid'') 0))
         (str_field obj ''id'') db)"

definition handle_payment_failed :: "json \<Rightarrow> stripe_db \<Rightarrow> handled" where
  "handle_payment_failed obj db =
     for_customer obj db (\<lambda>_ user. (Inr True, stripe_log (SubscriptionPaymentFailed (mb_id user)) db))"

definition set_subscription_as :: "string \<Rightarrow> string option \<Rightarrow> string option \<Rightarrow> instant \<Rightarrow> stripe_db \<Rightarrow>
   (stripe_db \<Rightarrow> stripe_db) \<Rightarrow> handled" where
  "set_subscription_as cus subscription status now db k =
     (case set_stripe_subscription cus subscription status now db of
        (Inl e, db1) \<Rightarrow> (Inl (from_database_error e), db1)
      | (Inr _, db1) \<Rightarrow> (Inr True, k db1))"

definition handle_subscription_updated :: "instant \<Rightarrow> json \<Rightarrow> stripe_db \<Rightarrow> handled" where
  "handle_subscription_updated now obj db =
     for_customer obj db (\<lambda>cus _.
       set_subscription_as cus (str_field obj ''id'') (str_field obj ''status'') now db id)"

definition handle_subscription_deleted :: "instant \<Rightarrow> json \<Rightarrow> stripe_db \<Rightarrow> handled" where
  "handle_subscription_deleted now obj db =
     for_customer obj db (\<lambda>cus user.
       set_subscription_as cus None (Some ''canceled'') now db (stripe_log (SubscriptionCanceled (mb_id user))))"

definition handle_charge_refunded :: "stripe_env \<Rightarrow> instant \<Rightarrow> json \<Rightarrow> stripe_db \<Rightarrow> handled" where
  "handle_charge_refunded v now obj db =
     for_customer obj db (\<lambda>_ user.
       let refunded = unwrap_or (i64_field obj ''amount_refunded'') 0
       in if refunded \<le> 0 then (Inr False, db)
          else credit v now (mb_id user) StripeRefund (- minor_units_to_decimal refunded)
                 (map_option (\<lambda>i. i @ '':refund'') (str_field obj ''id'')) db)"

definition handle_event :: "stripe_env \<Rightarrow> instant \<Rightarrow> string \<Rightarrow> json \<Rightarrow> stripe_db \<Rightarrow> handled" where
  "handle_event v now ty obj db =
     (if ty = ''checkout.session.completed'' then handle_checkout_completed v now obj db
      else if ty = ''invoice.paid'' \<or> ty = ''invoice.payment_succeeded'' then handle_invoice_paid v now obj db
      else if ty = ''invoice.payment_failed'' then handle_payment_failed obj db
      else if ty = ''customer.subscription.updated'' then handle_subscription_updated now obj db
      else if ty = ''customer.subscription.deleted'' then handle_subscription_deleted now obj db
      else if ty = ''charge.refunded'' then handle_charge_refunded v now obj db
      else (Inr False, db))"

text \<open>\<open>header\<close> is the \<^verbatim>\<open>Stripe-Signature\<close> header, if it is there and printable.\<close>

definition receive_webhook ::
  "stripe_env \<Rightarrow> string option \<Rightarrow> string \<Rightarrow> instant \<Rightarrow> stripe_db \<Rightarrow> handled" where
  "receive_webhook v header body now db =
     (if \<not> sv_enabled v then (Inl (api_error.NotFound ''Stripe integration is not enabled''), db)
      else if trim (sv_webhook_secret v) = []
      then (Inl (Forbidden ''Stripe inbound webhook is not configured (no webhook_secret)''), db)
      else if \<not> verify_stripe_signature (sv_hmac v) (sv_webhook_secret v) body (unwrap_or header [])
                  (now div 1000000000) SIGNATURE_TOLERANCE_SECS
      then (Inl (Unauthorized ''Invalid Stripe webhook signature''), db)
      else
        (case sv_parse_event v body of
           None \<Rightarrow> (Inl (BadRequest ''Webhook body is not a Stripe event''), db)
         | Some (ty, obj) \<Rightarrow> handle_event v now ty obj db))"

section \<open>The poll of the renewal cycle\<close>

text \<open>What the cycle polls: every customer linked to an account; \<open>peer\<close> is the answer for a customer id.\<close>

definition poll_all :: "(string \<Rightarrow> raw_invoice list option) \<Rightarrow> stripe_db \<Rightarrow> (uuid \<times> (int \<times> string) list option) list" where
  "poll_all peer db =
     map (\<lambda>c. (sc_user_id c, map_option paid_invoices (peer (sc_customer_id c))))
       (filter (\<lambda>c. find_user_by_id (st_members db) (sc_user_id c) \<noteq> None) (st_customers db))"

definition membership_cycle ::
  "stripe_env \<Rightarrow> bool \<Rightarrow> (string \<Rightarrow> raw_invoice list option) \<Rightarrow> instant \<Rightarrow> stripe_db \<Rightarrow> stripe_db" where
  "membership_cycle v wired peer now db =
     (case sv_service v of
        None \<Rightarrow> db
      | Some c \<Rightarrow>
          db\<lparr>st_members := fst (run_cycle c (sv_calendar v) now
               (if wired then Some (poll_all peer db) else None) (st_members db))\<rparr>)"

end
