(* ===== verification/Stripe_Safety.thy ===== *)
theory Stripe_Safety
  imports Stripe Membership_Safety
begin

text \<open>
  What payments promise: nothing happens on an unsigned body, a payment is credited once however its
  webhook, its redeliveries and the poll of the renewal cycle interleave, a missed one is caught up,
  and a Stripe customer never changes hands. The locales \<open>renewal_relation\<close> and \<open>cycle_relation\<close> carry a
  relation between membership tables, such as \<open>follows\<close>, over a renewal and over a cycle.
\<close>

section \<open>Signatures\<close>

definition part_is :: "string \<Rightarrow> string \<Rightarrow> string \<Rightarrow> bool" where
  "part_is key w part \<longleftrightarrow> (\<exists>k u. split_once (CHR ''='') part = Some (k, u) \<and> trim k = key \<and> trim u = w)"

lemma read_signature_parts_sound:
  "read_signature_parts parts t0 ss0 = (Some t, ss) \<Longrightarrow>
   (t0 = Some t \<or> (\<exists>p \<in> set parts. \<exists>w. part_is ''t'' w p \<and> read_i64 w = Some t)) \<and>
   (\<forall>s \<in> set ss. s \<in> set ss0 \<or> (\<exists>p \<in> set parts. part_is ''v1'' s p))"
proof (induction parts t0 ss0 rule: read_signature_parts.induct)
  case (2 part parts t0 ss0)
  show ?case
  proof (cases "split_once (CHR ''='') part")
    case None
    with "2.IH"(1) "2.prems" show ?thesis by auto
  next
    case (Some kv)
    obtain k u where kv: "kv = (k, u)" by (cases kv)
    consider "trim k = ''t''" | "trim k = ''v1''" | "trim k \<noteq> ''t''" "trim k \<noteq> ''v1''" by blast
    then show ?thesis
    proof cases
      case 1
      then have "part_is ''t'' (trim u) part" using Some kv by (auto simp: part_is_def)
      with "2.IH"(2) [OF Some _ 1] "2.prems" Some kv 1 show ?thesis by (force)
    next
      case 2
      then have p: "part_is ''v1'' (trim u) part" using Some kv by (auto simp: part_is_def)
      from 2 have ne: "trim k \<noteq> ''t''" by simp
      from "2.IH"(3) [OF Some _ ne 2] "2.prems" Some kv 2 p show ?thesis by force
    next
      case 3
      with "2.IH"(4) [OF Some _ 3] "2.prems" Some kv show ?thesis by force
    qed
  qed
qed simp

lemma sint_wrap: "sint (word_of_int k :: 64 word) = (k + 2 ^ 63) mod 2 ^ 64 - 2 ^ 63"
proof -
  have "sint (word_of_int k :: 64 word) = signed_take_bit 63 k" by (simp add: sint_sbintrunc')
  then show ?thesis by (simp add: signed_take_bit_eq_take_bit_shift take_bit_eq_mod)
qed

lemma age_wrap:
  "age_secs now t = (if sint (word_of_int (now - t) :: 64 word) < 0
     then sint (word_of_int (t - now) :: 64 word) else sint (word_of_int (now - t) :: 64 word))"
proof -
  have "word_of_int now - word_of_int t = (word_of_int (now - t) :: 64 word)"
    and "- (word_of_int (now - t) :: 64 word) = word_of_int (t - now)" by simp_all
  then show ?thesis unfolding age_secs_def Let_def by (simp only: if_distrib [of sint])
qed

lemma age_in_range: "\<bar>now - t\<bar> < 2 ^ 63 \<Longrightarrow> age_secs now t = \<bar>now - t\<bar>"
  unfolding age_wrap sint_wrap by (cases "now < t") simp_all

text \<open>A clock that has not left the years \<^verbatim>\<open>chrono\<close> can represent, in seconds.\<close>

definition clock_ok :: "int \<Rightarrow> bool" where
  "clock_ok now \<longleftrightarrow> 0 \<le> now \<and> now < 2 ^ 62"

text \<open>The one timestamp that is far from now and passes: the age wraps to the least integer.\<close>

definition wrapped_age :: "int \<Rightarrow> int \<Rightarrow> bool" where
  "wrapped_age now t \<longleftrightarrow> now - t = 2 ^ 63"

lemma age_within:
  assumes "clock_ok now" "in_i64 t" "0 \<le> tol" "tol < 2 ^ 62"
  shows "age_secs now t \<le> tol \<longleftrightarrow> \<bar>now - t\<bar> \<le> tol \<or> wrapped_age now t"
proof -
  have d: "- (2 ^ 63) < now - t" "now - t < 2 ^ 63 + 2 ^ 62"
    using assms(1,2) by (auto simp: clock_ok_def in_i64_def)
  consider "\<bar>now - t\<bar> < 2 ^ 63" | "now - t = 2 ^ 63" | "2 ^ 63 < now - t" using d by linarith
  then show ?thesis
  proof cases
    case 1
    then show ?thesis by (auto simp: age_in_range wrapped_age_def)
  next
    case 2
    have "age_secs now t = - (2 ^ 63)"
      unfolding age_wrap sint_wrap using 2 by (simp add: minus_diff_eq [of now t, symmetric] del: minus_diff_eq)
    with 2 assms(3) show ?thesis by (simp add: wrapped_age_def)
  next
    case 3
    have low: "sint (word_of_int (now - t) :: 64 word) = now - t - 2 ^ 64"
    proof -
      have "(now - t + 2 ^ 63) mod 2 ^ 64 = now - t + 2 ^ 63 - 2 ^ 64"
        using 3 d by (intro int_mod_pos_eq [where q = 1]) simp_all
      then show ?thesis unfolding sint_wrap by simp
    qed
    have high: "sint (word_of_int (t - now) :: 64 word) = t - now + 2 ^ 64"
    proof -
      have "(t - now + 2 ^ 63) mod 2 ^ 64 = t - now + 2 ^ 63 + 2 ^ 64"
        using 3 d by (intro int_mod_pos_eq [where q = "- 1"]) simp_all
      then show ?thesis unfolding sint_wrap by simp
    qed
    have "age_secs now t = t - now + 2 ^ 64" unfolding age_wrap low high using d by simp
    with 3 d assms(3,4) show ?thesis by (simp add: wrapped_age_def)
  qed
qed

lemma verify_stripe_iff:
  "verify_stripe_signature hmac secret body header now tol \<longleftrightarrow>
   secret \<noteq> [] \<and> (\<exists>t ss. read_signature_parts (split_on (CHR '','') header) None [] = (Some t, ss) \<and>
     age_secs now t \<le> tol \<and> sign_stripe hmac secret t body \<in> set ss)"
  by (auto simp: verify_stripe_signature_def constant_time_eq_iff as_bytes_inj list_ex_iff Let_def
      split: option.splits prod.splits)

text \<open>
  A header that carries a signature of the body, made within the tolerance of now; or at the one timestamp
  whose age wraps.
\<close>

definition stripe_signed :: "stripe_env \<Rightarrow> string \<Rightarrow> string \<Rightarrow> instant \<Rightarrow> bool" where
  "stripe_signed v header body now \<longleftrightarrow>
     (\<exists>t. (\<bar>now div 1000000000 - t\<bar> \<le> 300 \<or> wrapped_age (now div 1000000000) t) \<and>
       (\<exists>p \<in> set (split_on (CHR '','') header). \<exists>w. part_is ''t'' w p \<and> read_i64 w = Some t) \<and>
       (\<exists>p \<in> set (split_on (CHR '','') header).
          part_is ''v1'' (sv_hmac v (sv_webhook_secret v) (show_int t @ ''.'' @ body)) p))"

lemma read_i64_range: "read_i64 w = Some t \<Longrightarrow> in_i64 t"
  by (auto simp: read_i64_def Let_def split: if_splits prod.splits list.splits)

lemma accepted_is_signed:
  assumes "clock_ok (now div 1000000000)"
    and "verify_stripe_signature (sv_hmac v) (sv_webhook_secret v) body header (now div 1000000000)
      SIGNATURE_TOLERANCE_SECS"
  shows "stripe_signed v header body now"
proof -
  from assms(2) obtain t ss where p: "read_signature_parts (split_on (CHR '','') header) None [] = (Some t, ss)"
    and ok: "age_secs (now div 1000000000) t \<le> 300" "sign_stripe (sv_hmac v) (sv_webhook_secret v) t body \<in> set ss"
    by (auto simp: verify_stripe_iff SIGNATURE_TOLERANCE_SECS_def)
  from read_signature_parts_sound [OF p] have "in_i64 t" by (auto dest: read_i64_range)
  from age_within [OF assms(1) this] ok read_signature_parts_sound [OF p] show ?thesis
    unfolding stripe_signed_def sign_stripe_def by (intro exI [of _ t]) auto
qed

section \<open>The ledger under the webhook and the cycle\<close>

definition refs_once :: "ledger \<Rightarrow> bool" where
  "refs_once l \<longleftrightarrow> distinct (List.map_filter le_external_reference l)"

lemma map_filter_snoc:
  "List.map_filter f (xs @ [x]) = List.map_filter f xs @ (case f x of Some y \<Rightarrow> [y] | None \<Rightarrow> [])"
  by (induction xs) (auto simp: List.map_filter_simps split: option.split)

lemma ref_in: "r \<in> set (List.map_filter le_external_reference l) \<longleftrightarrow> ledger_entry_exists_for_reference l r"
  by (induction l) (auto simp: ledger_entry_exists_for_reference_def List.map_filter_simps split: option.splits)

lemma refs_once_post: "refs_once l \<Longrightarrow> post_once l e = Some l' \<Longrightarrow> refs_once l'"
  by (auto simp: post_once_Some refs_once_def map_filter_snoc is_some_and_iff ref_in split: option.split)

text \<open>
  What one operation may do to the tables: the ledger grows, references stay unique, and no account
  appears or disappears.
\<close>

definition follows :: "membership_db \<Rightarrow> membership_db \<Rightarrow> bool" where
  "follows m m' \<longleftrightarrow>
     (\<exists>es. m_ledger m' = m_ledger m @ es) \<and> (refs_once (m_ledger m) \<longrightarrow> refs_once (m_ledger m')) \<and>
     map mb_id (m_users m') = map mb_id (m_users m)"

lemma follows_refl [simp]: "follows m m"
  by (simp add: follows_def)

lemma follows_trans: "follows a b \<Longrightarrow> follows b c \<Longrightarrow> follows a c"
  by (auto simp: follows_def)

lemma follows_reference: "follows m m' \<Longrightarrow> ledger_entry_exists_for_reference (m_ledger m) r \<Longrightarrow>
    ledger_entry_exists_for_reference (m_ledger m') r"
  by (auto simp: follows_def)

lemma follows_post: "post_once (m_ledger m) e = Some l \<Longrightarrow> follows m (m\<lparr>m_ledger := l\<rparr>)"
  using refs_once_post by (auto simp: follows_def post_once_Some)

lemma follows_dues: "follows m (snd (post_dues uid a m))"
proof -
  have "post_once (m_ledger m) \<lparr>le_user_id = uid, le_entry_type = DuesCharge, le_amount = - a,
      le_external_reference = None\<rparr> = Some (m_ledger m @ [\<lparr>le_user_id = uid, le_entry_type = DuesCharge,
      le_amount = - a, le_external_reference = None\<rparr>])"
    by (simp add: post_once_Some)
  from follows_post [OF this] show ?thesis
    by (simp add: post_dues_def insert_ledger_entry_def)
qed

lemma follows_set_due: "follows m (snd (set_membership_next_due uid d m))"
  by (auto simp: follows_def set_membership_next_due_def)

lemma follows_apply_role: "follows m (apply_role c uid b m)"
  by (auto simp: follows_def apply_role_def set_user_primary_role_def Let_def split: option.splits)

text \<open>
  Relations between the tables before and after that every write of a renewal respects; and, with the credits
  that carry a reference, every write of a cycle.
\<close>

locale renewal_relation =
  fixes R :: "membership_db \<Rightarrow> membership_db \<Rightarrow> bool"
  assumes refl: "R m m"
    and trans: "R a b \<Longrightarrow> R b c \<Longrightarrow> R a c"
    and dues: "R m (snd (post_dues uid x m))"
    and due_date: "R m (snd (set_membership_next_due uid d m))"
    and role: "R m (apply_role cf uid entitled m)"
begin

lemma chained: "R m (snd r) \<Longrightarrow> (\<And>s. R s (snd (k s))) \<Longrightarrow> R m (snd (and_then r k))"
  by (auto simp: and_then_def split: prod.splits option.splits intro: trans)

lemma settle: "R m (snd (settle_after_credit cf cal now uid m))"
  by (auto simp: settle_after_credit_def refl dues due_date role intro!: chained split: option.split)

lemma renewals: "R (fst s) (fst (snd (renewal_loop guard cf cal now uid nd s)))"
proof (induction guard cf cal now uid nd s rule: renewal_loop.induct)
  case (3 guard cf cal now uid next_due db out)
  let ?nd = "Some (advance_period cal next_due (mc_due_period cf))"
  have charge: "R db (snd (and_then (post_dues uid (mc_due_amount cf) db) (set_membership_next_due uid ?nd)))"
    by (intro chained dues due_date)
  have lapse: "R db (snd (set_membership_next_due uid None db))"
    by (rule due_date)
  obtain e1 d1 where r1: "and_then (post_dues uid (mc_due_amount cf) db) (set_membership_next_due uid ?nd) = (e1, d1)"
    by (cases "and_then (post_dues uid (mc_due_amount cf) db) (set_membership_next_due uid ?nd)")
  obtain e2 d2 where r2: "set_membership_next_due uid None db = (e2, d2)"
    by (cases "set_membership_next_due uid None db")
  have "R db d1" "R db d2" using charge lapse r1 r2 by simp_all
  then have f: "R db (apply_role cf uid True d1)" "R db (apply_role cf uid False d2)" "R db d1" "R db d2"
    using trans role by blast+
  show ?case
  proof (cases "dues_due next_due now (mc_grace_days cf)")
    case due: True
    show ?thesis
    proof (cases "mc_due_amount cf \<le> user_balance (m_ledger db) uid")
      case True
      from "3.IH"(1) [OF _ _ HOL.refl] due True r1 f show ?thesis
        by (cases e1) (auto simp: Let_def intro: trans)
    next
      case False
      from "3.IH"(2) due False r2 f show ?thesis
        by (cases e2) (auto intro: trans)
    qed
  qed (simp add: refl)
qed (simp_all add: refl)

lemma folded: "(\<And>a s. R (fst s) (fst (f a s))) \<Longrightarrow> R (fst s) (fst (fold f xs s))"
proof (induction xs arbitrary: s)
  case (Cons a xs)
  from trans [OF Cons.prems [of s a] Cons.IH [of "f a s", OF Cons.prems]] show ?case by simp
qed (simp add: refl)

lemma renewed_user: "R (fst s) (fst (renew_user cf cal now u s))"
proof -
  let ?s = "(fst s, (snd s)\<lparr>users_checked := Suc (users_checked (snd s))\<rparr>)"
  have "R (fst s) (fst (snd (settle_renewal cf cal now (mb_id u) ?s)))"
    using renewals [of ?s] by (auto simp: settle_renewal_def refl split: option.split)
  then show ?thesis by (simp add: renew_user_def split_beta split: option.split)
qed

end

locale cycle_relation = renewal_relation +
  assumes credited: "R m (snd (record_credit cf cal now uid ty x (Some r) m))"
begin

lemma polled_invoice: "R (fst s) (fst (poll_invoice cf cal now uid i s))"
  using credited [of "fst s" cf cal now uid StripePayment "minor_units_to_decimal (fst i)" "snd i"]
  by (auto simp: poll_invoice_def split: prod.splits sum.splits bool.splits)

lemma polled_customer: "R (fst s) (fst (poll_customer cf cal now p s))"
  by (auto simp: poll_customer_def refl folded polled_invoice split: option.split)

lemma cycle: "R m (fst (run_cycle cf cal now polled m))"
proof -
  let ?out = "\<lparr>users_checked = 0, dues_charged = 0, lapsed = 0, credited = 0, errors = 0\<rparr>"
  have "R m (fst (fold (poll_customer cf cal now) ps (m, ?out)))" for ps
    using folded [of "poll_customer cf cal now" "(m, ?out)" ps] by (simp add: polled_customer)
  then have "R m (fst (case polled of Some ps \<Rightarrow> fold (poll_customer cf cal now) ps (m, ?out) | None \<Rightarrow> (m, ?out)))"
    by (simp add: refl split: option.split)
  moreover have "R (fst s) (fst (fold (renew_user cf cal now) us s))" for us s
    by (rule folded) (rule renewed_user)
  ultimately show ?thesis
    unfolding run_cycle_def Let_def by (simp only: fst_conv split: if_split) (blast intro: refl trans)
qed

end

interpretation followed: renewal_relation follows
  by unfold_locales (auto intro: follows_trans simp: follows_dues follows_set_due follows_apply_role)

lemma follows_record_credit: "follows m (snd (record_credit c cal now uid ty a r m))"
proof (cases "post_once (m_ledger m) \<lparr>le_user_id = uid, le_entry_type = ty, le_amount = a, le_external_reference = r\<rparr>")
  case (Some l)
  with follows_trans [OF follows_post [OF Some] followed.settle [of _ c cal now uid]] show ?thesis
    by (auto simp: record_credit_def split: prod.split option.split)
qed (simp add: record_credit_def)

lemma record_credit_posts:
  "ledger_entry_exists_for_reference (m_ledger (snd (record_credit c cal now uid ty a (Some r) m))) r"
proof (cases "ledger_entry_exists_for_reference (m_ledger m) r")
  case True
  with follows_reference [OF follows_record_credit] show ?thesis by blast
next
  case False
  let ?e = "\<lparr>le_user_id = uid, le_entry_type = ty, le_amount = a, le_external_reference = Some r\<rparr>"
  from False have p: "post_once (m_ledger m) ?e = Some (m_ledger m @ [?e])" by (simp add: post_once_Some)
  obtain o' m' where s: "settle_after_credit c cal now uid (m\<lparr>m_ledger := m_ledger m @ [?e]\<rparr>) = (o', m')"
    by (cases "settle_after_credit c cal now uid (m\<lparr>m_ledger := m_ledger m @ [?e]\<rparr>)")
  from follows_reference [OF followed.settle, of "m\<lparr>m_ledger := m_ledger m @ [?e]\<rparr>" r c cal now uid] s
  have "ledger_entry_exists_for_reference (m_ledger m') r" by simp
  then show ?thesis by (simp add: record_credit_def p s split: option.split)
qed

section \<open>The cycle\<close>

interpretation followed: cycle_relation follows
  by unfold_locales (rule follows_record_credit)

text \<open>
  The entries that are tied to no payment: those without a reference, the dues apart. No cycle and no credit
  with a reference adds one.
\<close>

definition untied :: "ledger \<Rightarrow> ledger" where
  "untied l = filter (\<lambda>e. le_external_reference e = None \<and> le_entry_type e \<noteq> DuesCharge) l"

lemma ledger_frame [simp]:
  "m_ledger (snd (set_membership_next_due uid d m)) = m_ledger m" "m_ledger (apply_role c uid b m) = m_ledger m"
  by (auto simp: set_membership_next_due_def apply_role_def set_user_primary_role_def Let_def split: option.splits)

lemma untied_dues [simp]: "untied (m_ledger (snd (post_dues uid a m))) = untied (m_ledger m)"
  by (auto simp: post_dues_def insert_ledger_entry_def untied_def post_once_Some split: option.splits)

interpretation untouched: renewal_relation "\<lambda>m m'. untied (m_ledger m') = untied (m_ledger m)"
  by unfold_locales simp_all

lemma untied_credit: "untied (m_ledger (snd (record_credit c cal now uid ty a (Some r) m))) = untied (m_ledger m)"
proof (cases "post_once (m_ledger m) \<lparr>le_user_id = uid, le_entry_type = ty, le_amount = a, le_external_reference = Some r\<rparr>")
  case (Some l)
  then have "untied l = untied (m_ledger m)" by (auto simp: post_once_Some untied_def)
  with untouched.settle [where m = "m\<lparr>m_ledger := l\<rparr>" and cf = c and cal = cal and now = now and uid = uid] show ?thesis
    by (auto simp: record_credit_def Some split: prod.split option.split)
qed (simp add: record_credit_def)

interpretation untouched: cycle_relation "\<lambda>m m'. untied (m_ledger m') = untied (m_ledger m)"
  by unfold_locales (rule untied_credit)

lemma poll_invoice_posts:
  "ledger_entry_exists_for_reference (m_ledger (fst (poll_invoice c cal now uid i s))) (snd i)"
  using record_credit_posts [of c cal now uid StripePayment "minor_units_to_decimal (fst i)" "snd i" "fst s"]
  by (auto simp: poll_invoice_def split: prod.splits sum.splits bool.splits)

lemma fold_posts:
  assumes "\<And>a s. follows (fst s) (fst (f a s))" "a \<in> set xs"
    and "\<And>s. ledger_entry_exists_for_reference (m_ledger (fst (f a s))) r"
  shows "ledger_entry_exists_for_reference (m_ledger (fst (fold f xs s))) r"
  using assms(2)
proof (induction xs arbitrary: s)
  case (Cons x xs)
  show ?case
  proof (cases "x = a")
    case True
    with follows_reference [OF followed.folded [OF assms(1)] assms(3)] show ?thesis by simp
  next
    case False
    with Cons show ?thesis by simp
  qed
qed simp

lemma poll_posts:
  assumes "mc_enabled c" "(uid, Some is) \<in> set ps" "i \<in> set is"
  shows "ledger_entry_exists_for_reference (m_ledger (fst (run_cycle c cal now (Some ps) m))) (snd i)"
proof -
  let ?out = "\<lparr>users_checked = 0, dues_charged = 0, lapsed = 0, credited = 0, errors = 0\<rparr>"
  have "ledger_entry_exists_for_reference (m_ledger (fst (poll_customer c cal now (uid, Some is) s))) (snd i)" for s
    using fold_posts [where f = "poll_invoice c cal now uid" and a = i and xs = "is" and r = "snd i"] assms(3)
    by (simp add: poll_customer_def followed.polled_invoice poll_invoice_posts)
  then have "ledger_entry_exists_for_reference (m_ledger (fst (fold (poll_customer c cal now) ps (m, ?out)))) (snd i)"
    using fold_posts [where f = "poll_customer c cal now" and a = "(uid, Some is)" and xs = ps and r = "snd i"] assms(2)
    by (simp add: followed.polled_customer)
  with follows_reference [OF followed.folded [of "renew_user c cal now"]] assms(1) show ?thesis
    by (simp add: run_cycle_def Let_def followed.renewed_user)
qed

section \<open>The webhook and the cycle together\<close>

datatype stripe_act =
    Delivery "string option" string instant
  | Cycle bool "string \<Rightarrow> raw_invoice list option" instant
  | StaffCredit uuid ledger_entry_type rat "string option" instant

fun stripe_step :: "stripe_env \<Rightarrow> stripe_act \<Rightarrow> stripe_db \<Rightarrow> stripe_db" where
  "stripe_step v (Delivery header body now) db = snd (receive_webhook v header body now db)"
| "stripe_step v (Cycle wired peer now) db = membership_cycle v wired peer now db"
| "stripe_step v (StaffCredit uid ty a r now) db = snd (credit v now uid ty a r db)"

lemma credit_frame [simp]: "st_customers (snd (credit v now uid ty a r db)) = st_customers db"
  by (auto simp: credit_def split: option.splits prod.splits sum.splits)

lemma credit_follows: "follows (st_members db) (st_members (snd (credit v now uid ty a r db)))"
  using follows_record_credit [of "st_members db"]
  by (auto simp: credit_def split: option.splits prod.splits sum.splits) (metis snd_conv)+

lemma stripe_log_frame [simp]:
  "st_members (stripe_log e db) = st_members db" "st_customers (stripe_log e db) = st_customers db"
  by (simp_all add: stripe_log_def)

lemma link_frame [simp]: "st_members (snd (link_stripe_customer uid cus s st now db)) = st_members db"
  by (auto simp: link_stripe_customer_def touch_customer_def split: option.split)

lemma set_subscription_frame [simp]:
  "st_members (snd (set_stripe_subscription cus s st now db)) = st_members db"
  by (auto simp: set_stripe_subscription_def touch_customer_def)

text \<open>Who a customer belongs to.\<close>

definition owned_by :: "string \<times> uuid \<Rightarrow> stripe_db \<Rightarrow> bool" where
  "owned_by p db \<longleftrightarrow> map_option sc_user_id (customer_row db (fst p)) = Some (snd p)"

lemma owned_frame: "st_customers db' = st_customers db \<Longrightarrow> owned_by p db' = owned_by p db"
  by (simp add: owned_by_def customer_row_def)

lemma owned_members [simp]: "owned_by p (db\<lparr>st_members := m\<rparr>) = owned_by p db"
  by (rule owned_frame) simp

lemma owned_touch [simp]: "owned_by p (touch_customer cus s st now db) = owned_by p db"
  by (simp add: owned_by_def customer_row_def touch_customer_def find_update_row option.map_comp comp_def if_distrib)
    (cases "find (\<lambda>r. sc_customer_id r = fst p) (st_customers db)", auto)

lemma owned_link: "owned_by p db \<Longrightarrow> owned_by p (snd (link_stripe_customer uid cus s st now db))"
  by (auto simp: link_stripe_customer_def split: option.split)
    (auto simp: owned_by_def customer_row_def find_append split: option.split)

lemma owned_set: "owned_by p db \<Longrightarrow> owned_by p (snd (set_stripe_subscription cus s st now db))"
  by (simp add: set_stripe_subscription_def)

text \<open>What one delivery may do.\<close>

definition moves :: "stripe_db \<Rightarrow> stripe_db \<Rightarrow> bool" where
  "moves db db' \<longleftrightarrow> follows (st_members db) (st_members db') \<and> (\<forall>p. owned_by p db \<longrightarrow> owned_by p db')"

lemma moves_refl [simp]: "moves db db"
  by (simp add: moves_def)

lemma moves_trans: "moves a b \<Longrightarrow> moves b c \<Longrightarrow> moves a c"
  by (auto simp: moves_def intro: follows_trans)

lemma moves_credit: "moves db (snd (credit v now uid ty a r db))"
  unfolding moves_def using credit_follows owned_frame [OF credit_frame] by blast

lemma moves_log: "moves db (stripe_log e db)"
  unfolding moves_def using owned_frame [OF stripe_log_frame(2)] by simp

lemma moves_link: "moves db (snd (link_stripe_customer uid cus s st now db))"
  by (simp add: moves_def owned_link)

lemma moves_set: "moves db (snd (set_stripe_subscription cus s st now db))"
  by (simp add: moves_def owned_set)

lemma moves_for_customer:
  "(\<And>cus u. moves db (snd (k cus u))) \<Longrightarrow> moves db (snd (for_customer obj db k))"
  by (simp add: for_customer_def split: option.split)

lemma moves_set_as:
  assumes "\<And>d. moves d (k d)"
  shows "moves db (snd (set_subscription_as cus s st now db k))"
  using moves_set [of db cus s st now] assms
  by (auto simp: set_subscription_as_def split: prod.splits sum.splits intro: moves_trans)

lemma moves_checkout: "moves db (snd (handle_checkout_completed v now obj db))"
proof (cases "user_from_client_reference v obj db")
  case (Some user)
  let ?sub = "str_field obj ''subscription''"
  define linked where "linked = (case str_field obj ''customer'' of
      None \<Rightarrow> (Inr (), db)
    | Some cus \<Rightarrow> (case link_stripe_customer (mb_id user) cus ?sub (map_option (\<lambda>_. ''active'') ?sub) now db of
        (Inl e, db1) \<Rightarrow> (Inl (link_error cus e), db1) | (Inr _, db1) \<Rightarrow> (Inr (), db1)))"
  have l: "moves db (snd linked)"
    using moves_link by (auto simp: linked_def split: option.split prod.split sum.split) (metis snd_conv)+
  obtain r db1 where r: "linked = (r, db1)" by (cases linked)
  define db2 where "db2 = (if ?sub \<noteq> None then stripe_log (SubscriptionStarted (mb_id user)) db1 else db1)"
  have m2: "moves db db2" using l r moves_log by (auto simp: db2_def intro: moves_trans)
  have "handle_checkout_completed v now obj db = (case r of Inl e \<Rightarrow> (Inl e, db1)
    | Inr _ \<Rightarrow> (if str_field obj ''mode'' = Some ''payment''
        then (case i64_field obj ''amount_total'' of
                Some amount \<Rightarrow> credit v now (mb_id user) StripePayment (minor_units_to_decimal amount) (str_field obj ''id'') db2
              | None \<Rightarrow> (Inr True, db2))
        else (Inr True, db2)))"
    unfolding handle_checkout_completed_def db2_def
    using Some r by (simp add: Let_def linked_def split: sum.split)
  with l r m2 moves_credit show ?thesis
    by (auto intro: moves_trans split: sum.split option.split)
qed (simp add: handle_checkout_completed_def)

lemma moves_handlers:
  "moves db (snd (handle_invoice_paid v now obj db))"
  "moves db (snd (handle_payment_failed obj db))"
  "moves db (snd (handle_subscription_updated now obj db))"
  "moves db (snd (handle_subscription_deleted now obj db))"
  "moves db (snd (handle_charge_refunded v now obj db))"
proof -
  show "moves db (snd (handle_invoice_paid v now obj db))"
    unfolding handle_invoice_paid_def by (intro moves_for_customer moves_credit)
  show "moves db (snd (handle_payment_failed obj db))"
    unfolding handle_payment_failed_def by (intro moves_for_customer) (simp add: moves_log)
  show "moves db (snd (handle_subscription_updated now obj db))"
    unfolding handle_subscription_updated_def by (intro moves_for_customer moves_set_as) simp
  show "moves db (snd (handle_subscription_deleted now obj db))"
    unfolding handle_subscription_deleted_def by (intro moves_for_customer moves_set_as moves_log)
  show "moves db (snd (handle_charge_refunded v now obj db))"
    unfolding handle_charge_refunded_def Let_def by (intro moves_for_customer) (simp add: moves_credit)
qed

lemma moves_event: "moves db (snd (handle_event v now ty obj db))"
  by (simp add: handle_event_def moves_checkout moves_handlers)

lemma moves_webhook: "moves db (snd (receive_webhook v header body now db))"
  by (simp add: receive_webhook_def moves_event split: option.split)

lemma moves_step: "moves db (stripe_step v a db)"
proof (cases a)
  case Cycle
  then show ?thesis
    by (auto simp: membership_cycle_def moves_def followed.cycle split: option.split)
qed (simp_all add: moves_webhook moves_credit)

lemma step_follows: "follows (st_members db) (st_members (stripe_step v a db))"
  using moves_step unfolding moves_def by blast

lemma step_owned: "owned_by p db \<Longrightarrow> owned_by p (stripe_step v a db)"
  using moves_step unfolding moves_def by blast

interpretation customers: guarded_fact "stripe_step v" owned_by "\<lambda>_ _. False" for v
  by unfold_locales (rule step_owned)

interpretation payments: preserved "stripe_step v" "\<lambda>db. refs_once (m_ledger (st_members db))" for v
proof
  fix db :: stripe_db and a assume "refs_once (m_ledger (st_members db))"
  with step_follows [of db v a] show "refs_once (m_ledger (st_members (stripe_step v a db)))"
    by (simp add: follows_def)
qed

interpretation posted_payments:
  guarded_fact "stripe_step v" "\<lambda>r db. ledger_entry_exists_for_reference (m_ledger (st_members db)) r" "\<lambda>_ _. False"
  for v
  by unfold_locales (rule follows_reference [OF step_follows])

lemma refs_once_count:
  "refs_once l \<longleftrightarrow> (\<forall>r. length (filter (\<lambda>e. le_external_reference e = Some r) l) \<le> 1)"
proof (induction l rule: rev_induct)
  case (snoc e l)
  have z: "length (filter (\<lambda>e. le_external_reference e = Some r) l) = 0 \<longleftrightarrow> \<not> ledger_entry_exists_for_reference l r" for r
    by (auto simp: filter_empty_conv ledger_entry_exists_for_reference_def list_ex_iff)
  show ?case
  proof (cases "le_external_reference e")
    case None
    with snoc show ?thesis by (simp add: refs_once_def map_filter_snoc)
  next
    case (Some r)
    have "refs_once (l @ [e]) \<longleftrightarrow> refs_once l \<and> \<not> ledger_entry_exists_for_reference l r"
      using Some by (auto simp: refs_once_def map_filter_snoc ref_in)
    also have "\<dots> \<longleftrightarrow> (\<forall>s. length (filter (\<lambda>e. le_external_reference e = Some s) (l @ [e])) \<le> 1)"
    proof -
      have "length (filter (\<lambda>e. le_external_reference e = Some s) (l @ [e])) =
          length (filter (\<lambda>e. le_external_reference e = Some s) l) + (if s = r then 1 else 0)" for s
        using Some by simp
      then show ?thesis using snoc z [of r] by (auto simp: le_Suc_eq)
    qed
    finally show ?thesis .
  qed
qed (simp add: refs_once_def)

section \<open>Reports of a payment\<close>

text \<open>
  A body whose event reports the payment \<open>r\<close>: a paid invoice of that id, under either of its two names, or the
  completed checkout of that id in payment mode.
\<close>

definition payment_event :: "stripe_env \<Rightarrow> string \<Rightarrow> string \<Rightarrow> bool" where
  "payment_event v body r \<longleftrightarrow>
     (\<exists>ty obj. sv_parse_event v body = Some (ty, obj) \<and> str_field obj ''id'' = Some r \<and>
        (ty \<in> {''invoice.paid'', ''invoice.payment_succeeded''} \<or>
         ty = ''checkout.session.completed'' \<and> str_field obj ''mode'' = Some ''payment'' \<and>
           i64_field obj ''amount_total'' \<noteq> None))"

text \<open>
  A report of the payment \<open>r\<close>: a delivery of such an event that is acknowledged as handled, or a cycle whose
  poll lists the paid invoice \<open>r\<close> for a customer linked to an account.
\<close>

fun reports :: "stripe_env \<Rightarrow> stripe_act \<Rightarrow> string \<Rightarrow> stripe_db \<Rightarrow> bool" where
  "reports v (Delivery header body now) r db \<longleftrightarrow>
     payment_event v body r \<and> fst (receive_webhook v header body now db) = Inr True"
| "reports v (Cycle wired peer now) r db \<longleftrightarrow>
     wired \<and> is_some_and (sv_service v) mc_enabled \<and> r \<noteq> [] \<and>
     (\<exists>cust \<in> set (st_customers db). find_user_by_id (st_members db) (sc_user_id cust) \<noteq> None \<and>
        (\<exists>ris. peer (sc_customer_id cust) = Some ris \<and>
           (\<exists>ri \<in> set ris. ri_status ri = Some ''paid'' \<and> ri_id ri = r)))"
| "reports v (StaffCredit uid ty x ref now) r db \<longleftrightarrow> False"

definition entries_for :: "string \<Rightarrow> stripe_db \<Rightarrow> ledger_entry list" where
  "entries_for r db = filter (\<lambda>e. le_external_reference e = Some r) (m_ledger (st_members db))"

lemma one_entry:
  assumes "refs_once (m_ledger (st_members db))" "ledger_entry_exists_for_reference (m_ledger (st_members db)) r"
  shows "length (entries_for r db) = 1"
proof -
  have "length (entries_for r db) \<le> 1" using assms(1) by (simp add: refs_once_count entries_for_def)
  with assms(2) show ?thesis
    by (cases "entries_for r db") (auto simp: entries_for_def ledger_entry_exists_for_reference_def list_ex_iff filter_empty_conv)
qed

lemma credit_posts:
  "fst (credit v now uid ty x (Some r) db) = Inr h \<Longrightarrow>
   ledger_entry_exists_for_reference (m_ledger (st_members (snd (credit v now uid ty x (Some r) db)))) r"
  using record_credit_posts [of _ "sv_calendar v" now uid ty x r "st_members db"]
  by (auto simp: credit_def split: option.splits prod.splits sum.splits) (metis snd_conv)+

lemma credit_again:
  "ledger_entry_exists_for_reference (m_ledger (st_members db)) r \<Longrightarrow> snd (credit v now uid ty x (Some r) db) = db"
  by (auto simp: credit_def record_credit_def post_once_def split: option.split)

text \<open>A handled report is a credit with the payment's id as its reference.\<close>

lemma handled_report:
  assumes "payment_event v body r" "fst (receive_webhook v header body now db) = Inr True"
  shows "\<exists>uid x db1. st_members db1 = st_members db \<and>
    receive_webhook v header body now db = credit v now uid StripePayment x (Some r) db1"
proof -
  obtain ty obj where e: "sv_parse_event v body = Some (ty, obj)" "str_field obj ''id'' = Some r"
    and ty: "ty \<in> {''invoice.paid'', ''invoice.payment_succeeded''} \<or>
         ty = ''checkout.session.completed'' \<and> str_field obj ''mode'' = Some ''payment'' \<and>
           i64_field obj ''amount_total'' \<noteq> None"
    using assms(1) unfolding payment_event_def by blast
  have h: "receive_webhook v header body now db = handle_event v now ty obj db"
    using assms(2) by (auto simp: receive_webhook_def e(1) split: if_splits)
  show ?thesis
  proof (cases "ty = ''checkout.session.completed''")
    case True
    then obtain n where n: "str_field obj ''mode'' = Some ''payment''" "i64_field obj ''amount_total'' = Some n"
      using ty by auto
    have r: "receive_webhook v header body now db = handle_checkout_completed v now obj db"
      using h True by (simp add: handle_event_def)
    have "\<exists>uid db1. st_members db1 = st_members db \<and> handle_checkout_completed v now obj db =
        credit v now uid StripePayment (minor_units_to_decimal n) (Some r) db1"
    proof (cases "user_from_client_reference v obj db")
      case None
      then show ?thesis using assms(2) r by (simp add: handle_checkout_completed_def)
    next
      case (Some user)
      let ?sub = "str_field obj ''subscription''"
      define linked where "linked = (case str_field obj ''customer'' of
          None \<Rightarrow> (Inr (), db)
        | Some cus \<Rightarrow> (case link_stripe_customer (mb_id user) cus ?sub (map_option (\<lambda>_. ''active'') ?sub) now db of
            (Inl e, db1) \<Rightarrow> (Inl (link_error cus e), db1) | (Inr _, db1) \<Rightarrow> (Inr (), db1)))"
      obtain l db1 where l: "linked = (l, db1)" by (cases linked)
      have m: "st_members db1 = st_members db"
      proof (cases "str_field obj ''customer''")
        case None
        with l show ?thesis by (simp add: linked_def)
      next
        case (Some cus)
        obtain o1 d1 where p: "link_stripe_customer (mb_id user) cus ?sub (map_option (\<lambda>_. ''active'') ?sub) now db = (o1, d1)"
          by fastforce
        have "st_members d1 = st_members db"
          using link_frame [of "mb_id user" cus ?sub "map_option (\<lambda>_. ''active'') ?sub" now db] unfolding p by simp
        with l Some p show ?thesis by (cases o1) (simp_all add: linked_def)
      qed
      have c: "handle_checkout_completed v now obj db = (case l of Inl e \<Rightarrow> (Inl e, db1)
        | Inr _ \<Rightarrow> credit v now (mb_id user) StripePayment (minor_units_to_decimal n) (Some r)
            (if ?sub \<noteq> None then stripe_log (SubscriptionStarted (mb_id user)) db1 else db1))"
        unfolding handle_checkout_completed_def using Some l n e(2) by (simp add: Let_def linked_def split: sum.split)
      show ?thesis
      proof (cases l)
        case (Inl e)
        then show ?thesis using assms(2) r c by simp
      next
        case (Inr u)
        then show ?thesis
          using m by (intro exI [of _ "mb_id user"]
            exI [of _ "if ?sub \<noteq> None then stripe_log (SubscriptionStarted (mb_id user)) db1 else db1"]) (simp add: c)
      qed
    qed
    then show ?thesis using r by metis
  next
    case False
    then have "receive_webhook v header body now db = handle_invoice_paid v now obj db"
      using h ty by (auto simp: handle_event_def)
    then show ?thesis
      using assms(2) e(2) by (auto simp: handle_invoice_paid_def for_customer_def split: option.splits)
  qed
qed

lemma report_posts:
  assumes "reports v a r db"
  shows "ledger_entry_exists_for_reference (m_ledger (st_members (stripe_step v a db))) r"
proof (cases a)
  case (Delivery header body now)
  then obtain uid x db1 where "receive_webhook v header body now db = credit v now uid StripePayment x (Some r) db1"
    using handled_report assms by fastforce
  with credit_posts [of v now uid StripePayment x r db1 True] assms Delivery show ?thesis by simp
next
  case (Cycle wired peer now)
  with assms obtain c cust ris ri where c: "wired" "sv_service v = Some c" "mc_enabled c" "r \<noteq> []"
    and cust: "cust \<in> set (st_customers db)" "find_user_by_id (st_members db) (sc_user_id cust) \<noteq> None"
    and ri: "peer (sc_customer_id cust) = Some ris" "ri \<in> set ris" "ri_status ri = Some ''paid''" "ri_id ri = r"
    by (auto simp: is_some_and_iff)
  have i: "(ri_amount_paid ri, r) \<in> set (paid_invoices ris)"
    using ri c(4) by (auto simp: paid_invoices_def)
  have p: "(sc_user_id cust, Some (paid_invoices ris)) \<in> set (poll_all peer db)"
    using cust ri(1) by (auto simp: poll_all_def intro!: rev_image_eqI [of cust])
  show ?thesis
    using poll_posts [OF c(3) p i] Cycle by (simp add: membership_cycle_def c(1,2))
qed (use assms in simp)

lemma report_repeated:
  assumes "reports v a r db" "ledger_entry_exists_for_reference (m_ledger (st_members db)) r"
  shows "untied (m_ledger (st_members (stripe_step v a db))) = untied (m_ledger (st_members db))"
    and "a = Delivery header body now \<Longrightarrow> st_members (stripe_step v a db) = st_members db"
proof -
  have same: "st_members (stripe_step v a db) = st_members db" if "a = Delivery header body now" for header body now
  proof -
    from assms(1) that obtain uid x db1 where m: "st_members db1 = st_members db"
      and w: "receive_webhook v header body now db = credit v now uid StripePayment x (Some r) db1"
      using handled_report by fastforce
    have "snd (credit v now uid StripePayment x (Some r) db1) = db1"
      by (rule credit_again) (simp add: m assms(2))
    with m w that show ?thesis by simp
  qed
  then show "a = Delivery header body now \<Longrightarrow> st_members (stripe_step v a db) = st_members db" .
  show "untied (m_ledger (st_members (stripe_step v a db))) = untied (m_ledger (st_members db))"
  proof (cases a)
    case (Cycle wired peer now)
    with untouched.cycle show ?thesis by (simp add: membership_cycle_def split: option.split)
  qed (use same assms(1) in simp_all)
qed

section \<open>The retry loop\<close>

text \<open>At most three attempts, and every one before the last failed in a way worth retrying.\<close>

definition try_again :: "attempt_result \<Rightarrow> bool" where
  "try_again r = (case r of Inr (status, _) \<Rightarrow> \<not> is_success status \<and> retryable status | Inl _ \<Rightarrow> True)"

lemma send_attempts_bounded:
  "attempt \<le> MAX_ATTEMPTS \<Longrightarrow> send_attempts peer attempt e = (r, n) \<Longrightarrow>
   attempt \<le> n \<and> n \<le> MAX_ATTEMPTS \<and> (\<forall>k. attempt \<le> k \<and> k < n \<longrightarrow> try_again (peer k)) \<and>
   (\<forall>body. r = Inr body \<longrightarrow> (\<exists>status. is_success status \<and> peer n = Inr (status, body)))"
proof (induction peer attempt e rule: send_attempts.induct)
  case (1 peer attempt e)
  have step: "attempt \<le> k \<and> k < n \<longleftrightarrow> k = attempt \<and> attempt < n \<or> Suc attempt \<le> k \<and> k < n" for k by auto
  show ?case
  proof (cases "peer attempt")
    case (Inl f)
    show ?thesis
    proof (cases "attempt = MAX_ATTEMPTS")
      case True
      with "1.prems" Inl show ?thesis by (auto simp: send_attempts.simps [of peer attempt])
    next
      case False
      with "1.prems" Inl have "send_attempts peer (Suc attempt) (Network f) = (r, n)"
        by (simp add: send_attempts.simps [of peer attempt])
      with "1.IH"(1) [OF _ Inl False] "1.prems" False Inl show ?thesis
        by (auto simp: step try_again_def)
    qed
  next
    case (Inr sb)
    obtain status body where sb: "sb = (status, body)" by (cases sb)
    show ?thesis
    proof (cases "is_success status \<or> \<not> retryable status \<or> attempt = MAX_ATTEMPTS")
      case True
      with "1.prems" Inr sb show ?thesis
        by (simp add: send_attempts.simps [of peer attempt] split: if_splits) auto
    next
      case False
      with "1.prems" Inr sb have "send_attempts peer (Suc attempt) (Api status body) = (r, n)"
        by (simp add: send_attempts.simps [of peer attempt])
      with "1.IH"(2) [OF _ Inr sb [symmetric]] "1.prems" False Inr sb show ?thesis
        by (auto simp: step try_again_def)
    qed
  qed
qed

lemma send_retrying_bounded:
  "send_retrying peer = (r, n) \<Longrightarrow>
   1 \<le> n \<and> n \<le> 3 \<and> (\<forall>k. 1 \<le> k \<and> k < n \<longrightarrow> try_again (peer k)) \<and>
   (\<forall>body. r = Inr body \<longrightarrow> (\<exists>status. is_success status \<and> peer n = Inr (status, body)))"
  using send_attempts_bounded [of 1 peer _ r n] by (simp add: send_retrying_def MAX_ATTEMPTS_def)

section \<open>Properties\<close>

definition demo_stripe :: stripe_env where
  "demo_stripe = \<lparr>sv_text = demo_text, sv_hmac = (\<lambda>_ _. ''deadbeef''),
     sv_parse_event = (\<lambda>_. Some (''charge.refunded'',
       JObj [(''customer'', JStr ''cus''), (''id'', JStr ''ch''), (''amount_refunded'', JNum 500)])),
     sv_round0 = round, sv_enabled = True,
     sv_settings = \<lparr>ss_base_url = ''https://api.stripe.com'', ss_secret_key = ''sk'', ss_price_id = ''p'',
       ss_currency = ''USD'', ss_plan_name = ''plan'', ss_site_url = ''https://space''\<rparr>,
     sv_webhook_secret = ''whsec'', sv_due_amount = Some 25, sv_one_shot_periods = 1,
     sv_service = Some demo_due, sv_calendar = demo_calendar\<rparr>"

definition demo_payments :: stripe_db where
  "demo_payments = \<lparr>st_members = demo_members,
     st_customers = [\<lparr>sc_user_id = 1, sc_customer_id = ''cus'', sc_subscription_id = None, sc_status = None,
       sc_updated_at = 0\<rparr>], st_audit = []\<rparr>"

lemma demo_refs_once: "refs_once (m_ledger (st_members demo_payments))"
  by (simp add: refs_once_def demo_payments_def demo_members_def List.map_filter_simps)

text \<open>
  C26. The webhook acts on signed bodies only: if a delivery is accepted, or changes anything at all,
  then Stripe is enabled and the header carries an HMAC of exactly this body under the webhook secret,
  with a timestamp within 300 seconds of now. There is one exception, in a build that wraps on overflow: the
  timestamp that lies exactly \<^verbatim>\<open>2^63\<close> seconds before now passes too, see
  \<open>wrapped_timestamp_is_accepted\<close>. The clock is between 1970 and the end of what \<^verbatim>\<open>chrono\<close> represents.
\<close>
theorem only_signed_webhooks_act:
  assumes "snd (receive_webhook v header body now db) \<noteq> db \<or> fst (receive_webhook v header body now db) = Inr h"
    and "clock_ok (now div 1000000000)"
  shows "sv_enabled v \<and> sv_webhook_secret v \<noteq> [] \<and> stripe_signed v (unwrap_or header []) body now"
  using assms(1) accepted_is_signed [OF assms(2), of v body "unwrap_or header []"]
  by (auto simp: receive_webhook_def split: if_splits)

lemma only_signed_webhooks_act_witness:
  "stripe_signed demo_stripe ''t=0,v1=deadbeef'' ''{}'' 0"
proof -
  have "fst (receive_webhook demo_stripe (Some ''t=0,v1=deadbeef'') ''{}'' 0 (demo_payments\<lparr>st_customers := []\<rparr>)) = Inr False"
    by (simp add: receive_webhook_def demo_stripe_def trim_def is_blank_def verify_stripe_iff read_i64_def is_digit_def
        read_nat_def in_i64_def sign_stripe_def SIGNATURE_TOLERANCE_SECS_def handle_event_def handle_charge_refunded_def
        for_customer_def str_field_def find_user_by_stripe_customer_id_def customer_row_def age_in_range)
  with only_signed_webhooks_act [of demo_stripe "Some ''t=0,v1=deadbeef''" "''{}''" 0 "demo_payments\<lparr>st_customers := []\<rparr>" False]
  show ?thesis by (simp add: clock_ok_def)
qed

text \<open>
  C3. A payment is credited once. Take any operation that reports the payment \<open>r\<close>: an acknowledged delivery of
  its paid invoice, under either name of the event, or of its completed checkout, or a cycle whose poll lists
  the invoice. Whatever deliveries, cycles and credits by staff follow, the ledger then holds exactly one entry
  for \<open>r\<close>; and a further report of \<open>r\<close>, of either kind, leaves exactly that one entry and adds no entry that is
  tied to no payment (the dues of a cycle apart). A redelivery leaves the whole ledger as it is.
\<close>
theorem a_payment_is_credited_once:
  assumes "refs_once (m_ledger (st_members db))" "reports v a r db"
    and "db1 = run_events (stripe_step v) (a # later) db"
  shows "length (entries_for r db1) = 1 \<and>
    (\<forall>b. reports v b r db1 \<longrightarrow>
       length (entries_for r (stripe_step v b db1)) = 1 \<and>
       untied (m_ledger (st_members (stripe_step v b db1))) = untied (m_ledger (st_members db1)) \<and>
       (\<forall>header body now. b = Delivery header body now \<longrightarrow>
          m_ledger (st_members (stripe_step v b db1)) = m_ledger (st_members db1)))"
proof -
  have "ledger_entry_exists_for_reference (m_ledger (st_members (run_events (stripe_step v) later (stripe_step v a db)))) r"
    using report_posts [OF assms(2)] by (rule posted_payments.run_guarded) simp
  then have posted: "ledger_entry_exists_for_reference (m_ledger (st_members db1)) r"
    by (simp add: assms(3))
  have once: "refs_once (m_ledger (st_members db1))"
    unfolding assms(3) by (rule payments.run_keeps [OF assms(1)])
  then have next_once: "refs_once (m_ledger (st_members (stripe_step v b db1)))" for b
    using step_follows [of db1 v b] by (simp add: follows_def)
  have still: "ledger_entry_exists_for_reference (m_ledger (st_members (stripe_step v b db1))) r" for b
    using follows_reference [OF step_follows posted] .
  show ?thesis
  proof (intro conjI allI impI)
    show "length (entries_for r db1) = 1" by (rule one_entry [OF once posted])
    fix b assume b: "reports v b r db1"
    show "length (entries_for r (stripe_step v b db1)) = 1" by (rule one_entry [OF next_once still])
    show "untied (m_ledger (st_members (stripe_step v b db1))) = untied (m_ledger (st_members db1))"
      by (rule report_repeated(1) [OF b posted])
    fix header body now assume "b = Delivery header body now"
    from report_repeated(2) [OF b posted this]
    show "m_ledger (st_members (stripe_step v b db1)) = m_ledger (st_members db1)" by simp
  qed
qed

definition invoice_stripe :: stripe_env where
  "invoice_stripe = demo_stripe\<lparr>sv_parse_event := (\<lambda>_. Some (''invoice.paid'',
     JObj [(''customer'', JStr ''cus''), (''id'', JStr ''in_1''), (''amount_paid'', JNum 2500)]))\<rparr>"

lemma invoice_is_handled:
  assumes "0 \<le> now" "now < 300000000000" "customer_row db ''cus'' = customer_row demo_payments ''cus''"
    and "find_user_by_id (st_members db) 1 = Some \<lparr>mb_id = 1, mb_is_active = True, membership_next_due_at = Some 0\<rparr>"
  shows "receive_webhook invoice_stripe (Some ''t=0,v1=deadbeef'') ''{}'' now db =
    credit invoice_stripe now 1 StripePayment 25 (Some ''in_1'') db"
proof -
  have "0 \<le> now div 1000000000" "now div 1000000000 \<le> 300" using assms(1,2) by simp_all
  then have fresh: "age_secs (now div 1000000000) 0 \<le> 300" by (simp add: age_in_range)
  show ?thesis
    using assms(3,4) fresh
    by (simp add: receive_webhook_def invoice_stripe_def demo_stripe_def trim_def is_blank_def verify_stripe_iff read_i64_def
        is_digit_def read_nat_def in_i64_def sign_stripe_def SIGNATURE_TOLERANCE_SECS_def handle_event_def
        handle_invoice_paid_def for_customer_def str_field_def find_user_by_stripe_customer_id_def customer_row_def
        demo_payments_def i64_field_def minor_units_to_decimal_def)
qed

lemma a_payment_is_credited_once_witness:
  "\<exists>db1. db1 = run_events (stripe_step invoice_stripe) [Delivery (Some ''t=0,v1=deadbeef'') ''{}'' 0] demo_payments \<and>
     map le_amount (entries_for ''in_1'' db1) = [25] \<and>
     m_ledger (st_members (stripe_step invoice_stripe (Delivery (Some ''t=0,v1=deadbeef'') ''{}'' 5) db1)) =
       m_ledger (st_members db1)"
proof -
  let ?d = "Delivery (Some ''t=0,v1=deadbeef'') ''{}''"
  let ?db1 = "run_events (stripe_step invoice_stripe) [?d 0] demo_payments"
  let ?u = "\<lparr>mb_id = 1, mb_is_active = True, membership_next_due_at = Some 0\<rparr>"
  have u: "find_user_by_id (st_members demo_payments) 1 = Some ?u"
    by (simp add: demo_payments_def demo_members_def find_user_by_id_def)
  have credited: "credit invoice_stripe 0 1 StripePayment 25 (Some ''in_1'') demo_payments =
      (Inr True, demo_payments\<lparr>st_members := (st_members demo_payments)\<lparr>m_ledger := m_ledger (st_members demo_payments) @
        [\<lparr>le_user_id = 1, le_entry_type = StripePayment, le_amount = 25, le_external_reference = Some ''in_1''\<rparr>]\<rparr>\<rparr>)"
  proof -
    let ?l = "m_ledger (st_members demo_payments)"
    let ?e = "\<lparr>le_user_id = 1, le_entry_type = StripePayment, le_amount = 25, le_external_reference = Some ''in_1''\<rparr>"
    have "post_once ?l ?e = Some (?l @ [?e])"
      by (simp add: post_once_Some ledger_entry_exists_for_reference_def demo_payments_def demo_members_def)
    with u show ?thesis
      by (simp add: credit_def invoice_stripe_def demo_stripe_def record_credit_def settle_after_credit_def find_user_by_id_def)
  qed
  have first: "receive_webhook invoice_stripe (Some ''t=0,v1=deadbeef'') ''{}'' 0 demo_payments =
      credit invoice_stripe 0 1 StripePayment 25 (Some ''in_1'') demo_payments"
    by (rule invoice_is_handled) (simp_all add: u [unfolded One_nat_def])
  have event: "payment_event invoice_stripe ''{}'' ''in_1''"
    by (simp add: payment_event_def invoice_stripe_def str_field_def)
  have r1: "reports invoice_stripe (?d 0) ''in_1'' demo_payments"
    by (simp only: reports.simps event first credited fst_conv simp_thms)
  have db1: "?db1 = snd (credit invoice_stripe 0 1 StripePayment 25 (Some ''in_1'') demo_payments)"
    by (simp add: first)
  note after = db1 [unfolded credited snd_conv]
  have second: "receive_webhook invoice_stripe (Some ''t=0,v1=deadbeef'') ''{}'' 5 ?db1 =
      credit invoice_stripe 5 1 StripePayment 25 (Some ''in_1'') ?db1"
    unfolding after by (rule invoice_is_handled) (use u in \<open>simp_all add: customer_row_def find_user_by_id_def\<close>)
  have "fst (credit invoice_stripe 5 1 StripePayment 25 (Some ''in_1'') ?db1) = Inr True"
    unfolding after by (simp add: credit_def invoice_stripe_def demo_stripe_def record_credit_def post_once_def
        ledger_entry_exists_for_reference_def)
  then have r2: "reports invoice_stripe (?d 5) ''in_1'' ?db1"
    by (simp only: reports.simps event second simp_thms)
  from a_payment_is_credited_once [OF _ r1 refl, of "[]"] demo_refs_once r2
  have "length (entries_for ''in_1'' ?db1) = 1" "m_ledger (st_members (stripe_step invoice_stripe (?d 5) ?db1)) =
       m_ledger (st_members ?db1)" by blast+
  moreover have "\<lparr>le_user_id = 1, le_entry_type = StripePayment, le_amount = 25, le_external_reference = Some ''in_1''\<rparr> \<in>
      set (entries_for ''in_1'' ?db1)"
    unfolding after by (simp add: entries_for_def)
  ultimately show ?thesis by (auto simp: length_Suc_conv)
qed

text \<open>
  A missed webhook costs nothing: a paid invoice of a linked customer that one cycle's poll sees is
  in the ledger exactly once from then on, whatever is delivered before or after it.
\<close>
lemma a_missed_invoice_is_recovered:
  assumes "refs_once (m_ledger (st_members db))" "reports v (Cycle True peer now) r db"
  shows "length (entries_for r (run_events (stripe_step v) (Cycle True peer now # later) db)) = 1"
proof (rule one_entry)
  show "refs_once (m_ledger (st_members (run_events (stripe_step v) (Cycle True peer now # later) db)))"
    by (rule payments.run_keeps [OF assms(1)])
  have "ledger_entry_exists_for_reference
      (m_ledger (st_members (run_events (stripe_step v) later (stripe_step v (Cycle True peer now) db)))) r"
    using report_posts [OF assms(2)] by (rule posted_payments.run_guarded) simp
  then show "ledger_entry_exists_for_reference
      (m_ledger (st_members (run_events (stripe_step v) (Cycle True peer now # later) db))) r" by simp
qed

text \<open>
  C27. Only the first partial refund counts. \<^verbatim>\<open>amount_refunded\<close> is the total refunded on a charge so far and
  each further refund sends it again, but the entry is keyed on the charge alone: once one refund of a
  charge is in the ledger, a later event of the same charge changes nothing, however much it says has
  been refunded, and is acknowledged as handled.
\<close>
theorem second_partial_refund_is_lost:
  assumes "sv_service v \<noteq> None" "str_field first ''customer'' = Some cus"
    and "find_user_by_stripe_customer_id db cus = Some u"
    and "str_field first ''id'' = Some ch" "i64_field first ''amount_refunded'' = Some r1" "0 < r1"
    and "str_field again ''customer'' = Some cus" "str_field again ''id'' = Some ch"
    and "i64_field again ''amount_refunded'' = Some r2" "r1 < r2"
    and "db1 = snd (handle_charge_refunded v t1 first db)"
    and "find_user_by_stripe_customer_id db1 cus = Some u1"
  shows "ledger_entry_exists_for_reference (m_ledger (st_members db1)) (ch @ '':refund'') \<and>
    handle_charge_refunded v t2 again db1 = (Inr True, db1)"
proof -
  from assms(1) obtain c where c: "sv_service v = Some c" by auto
  let ?credit = "credit v t1 (mb_id u) StripeRefund (- minor_units_to_decimal r1) (Some (ch @ '':refund'')) db"
  have db1: "db1 = snd ?credit"
    using assms(2-6,11) by (simp add: handle_charge_refunded_def for_customer_def)
  have "st_members (snd ?credit) = snd (record_credit c (sv_calendar v) t1 (mb_id u) StripeRefund
      (- minor_units_to_decimal r1) (Some (ch @ '':refund'')) (st_members db))"
    by (auto simp: credit_def c split: prod.split sum.split)
  then have posted: "ledger_entry_exists_for_reference (m_ledger (st_members db1)) (ch @ '':refund'')"
    by (simp add: db1 record_credit_posts)
  then have "credit v t2 (mb_id u1) StripeRefund a (Some (ch @ '':refund'')) db1 = (Inr True, db1)" for a
    by (simp add: credit_def c record_credit_def post_once_def)
  with posted assms(6-10,12) show ?thesis
    by (simp add: handle_charge_refunded_def for_customer_def)
qed

definition refund_event :: "int \<Rightarrow> json" where
  "refund_event n = JObj [(''customer'', JStr ''cus''), (''id'', JStr ''ch''), (''amount_refunded'', JNum n)]"

lemma refund_event_fields:
  "str_field (refund_event n) ''customer'' = Some ''cus''" "str_field (refund_event n) ''id'' = Some ''ch''"
  "in_i64 n \<Longrightarrow> i64_field (refund_event n) ''amount_refunded'' = Some n"
  by (simp_all add: refund_event_def str_field_def i64_field_def)

lemma second_partial_refund_is_lost_witness:
  "handle_charge_refunded demo_stripe 1 (refund_event 700)
      (snd (handle_charge_refunded demo_stripe 0 (refund_event 500) demo_payments)) =
     (Inr True, snd (handle_charge_refunded demo_stripe 0 (refund_event 500) demo_payments))"
proof -
  let ?db1 = "snd (handle_charge_refunded demo_stripe 0 (refund_event 500) demo_payments)"
  have u: "find_user_by_stripe_customer_id demo_payments ''cus'' =
      Some \<lparr>mb_id = 1, mb_is_active = True, membership_next_due_at = Some 0\<rparr>"
    by (simp add: find_user_by_stripe_customer_id_def customer_row_def demo_payments_def find_user_by_id_def demo_members_def)
  have "owned_by (''cus'', 1) ?db1" "map mb_id (m_users (st_members ?db1)) = [1]"
    using moves_handlers(5) [of demo_payments demo_stripe 0 "refund_event 500"]
    by (auto simp: moves_def follows_def owned_by_def customer_row_def demo_payments_def demo_members_def)
  then obtain u1 where "find_user_by_stripe_customer_id ?db1 ''cus'' = Some u1"
    by (auto simp: owned_by_def find_user_by_stripe_customer_id_def find_user_by_id_def)
  from second_partial_refund_is_lost [where v = demo_stripe, OF _ refund_event_fields(1) u refund_event_fields(2)
      refund_event_fields(3) _ refund_event_fields(1) refund_event_fields(2) refund_event_fields(3) _ refl this]
  show ?thesis by (simp add: in_i64_def demo_stripe_def)
qed

text \<open>
  A Stripe customer never changes hands: once its id is linked to an account, no delivery, cycle or
  credit links it to another. A checkout completed for somebody else is answered with a conflict.
\<close>
lemma a_customer_never_changes_hands:
  assumes "owned_by (cus, uid) db"
  shows "owned_by (cus, uid) (run_events (stripe_step v) acts db)"
  by (rule customers.run_guarded [OF assms]) simp

text \<open>
  What Stripe signs is accepted, and nothing else about the request matters: the header built from a
  timestamp and the signature of the body passes exactly when the secret is set and the timestamp is
  within the tolerance. The signature is hexadecimal.
\<close>
lemma signed_header_is_accepted:
  assumes "in_i64 t" and "set (sign_stripe hmac secret t body) \<subseteq> set ''0123456789abcdef''"
  shows "verify_stripe_signature hmac secret body
      (''t='' @ show_int t @ '',v1='' @ sign_stripe hmac secret t body) now tol \<longleftrightarrow>
    secret \<noteq> [] \<and> age_secs now t \<le> tol"
proof -
  let ?sig = "sign_stripe hmac secret t body"
  have clean: "CHR '','' \<notin> set (''t='' @ show_int t)" "CHR '','' \<notin> set (''v1='' @ ?sig)"
    using assms(2) by (auto dest!: show_int_chars simp: is_digit_def)
  have "''t='' @ show_int t @ '',v1='' @ ?sig = (''t='' @ show_int t) @ CHR '','' # (''v1='' @ ?sig)" by simp
  then have parts: "split_on (CHR '','') (''t='' @ show_int t @ '',v1='' @ ?sig) = [''t='' @ show_int t, ''v1='' @ ?sig]"
    by (simp only: split_on_append [OF clean(1)] split_on_clean [OF clean(2)])
  have "trim ?sig = ?sig"
    by (rule trim_clean) (use assms(2) in \<open>auto simp: is_blank_def\<close>)
  moreover have "trim ''t'' = ''t''" "trim ''v1'' = ''v1''"
    by (simp_all add: is_blank_def)
  ultimately have "read_signature_parts (split_on (CHR '','') (''t='' @ show_int t @ '',v1='' @ ?sig)) None [] = (Some t, [?sig])"
    unfolding parts using assms(1) by simp
  then show ?thesis by (auto simp: verify_stripe_iff)
qed

text \<open>The tolerance does not hold at the edge of the integers: this header is 292 billion years old.\<close>

lemma wrapped_timestamp_is_accepted:
  assumes "clock_ok now" "now - t = 2 ^ 63" "0 \<le> tol" "secret \<noteq> []"
    and "set (sign_stripe hmac secret t body) \<subseteq> set ''0123456789abcdef''"
  shows "verify_stripe_signature hmac secret body
      (''t='' @ show_int t @ '',v1='' @ sign_stripe hmac secret t body) now tol"
proof -
  have t: "in_i64 t" using assms(1,2) by (simp add: clock_ok_def in_i64_def)
  from age_within [OF assms(1) t] assms(2) have "age_secs now t \<le> 0" by (simp add: wrapped_age_def)
  with assms(3,4) show ?thesis unfolding signed_header_is_accepted [OF t assms(5)] by simp
qed

end
