(* ===== verification/Throttle.thy ===== *)
theory Throttle
  imports Prelude "HOL-Library.Word"
begin

text \<open>
  The throttle of \<^verbatim>\<open>server/src/throttle.rs\<close>: one map of failure counters behind a mutex, shared by
  registration, login, second-factor verification and the two mail requests, each under a key of its
  own and with limits of its own. A counter and its limits are \<^verbatim>\<open>u32\<close>. After the operations stand the
  lemmas about a window shorter than every lockout, and the locale \<open>guess_limited\<close>: any service that
  checks before a guess and records a failed one tests at most as many guesses in
  such a window as the limit says.
\<close>

section \<open>The service\<close>

type_synonym u32 = "32 word"

record throttle_entry =
  te_attempts :: u32
  te_last_attempt :: instant
  te_locked_until :: "instant option"

type_synonym throttle = "string \<rightharpoonup> throttle_entry"

text \<open>\<^verbatim>\<open>Instant::duration_since\<close> saturates at zero; \<^verbatim>\<open>Duration::from_secs\<close> of a \<^verbatim>\<open>u32\<close>.\<close>

definition duration_since :: "instant \<Rightarrow> instant \<Rightarrow> duration" where
  "duration_since a b = max 0 (a - b)"

definition secs :: "u32 \<Rightarrow> duration" where
  "secs n = seconds (uint n)"

definition cleanup_old_entries :: "instant \<Rightarrow> u32 \<Rightarrow> throttle \<Rightarrow> throttle" where
  "cleanup_old_entries now lockout_seconds m =
     map_retain (\<lambda>_ e. case te_locked_until e of
         None \<Rightarrow> duration_since now (te_last_attempt e) < seconds (uint lockout_seconds * 2)
       | Some locked_until \<Rightarrow> now < locked_until) m"

definition remaining_secs :: "instant \<Rightarrow> instant \<Rightarrow> u32" where
  "remaining_secs until now = word_of_int (num_seconds (duration_since until now))"

definition check_attempt :: "instant \<Rightarrow> string \<Rightarrow> u32 \<Rightarrow> u32 \<Rightarrow> throttle \<Rightarrow> (u32, unit) result \<times> throttle" where
  "check_attempt now identifier max_attempts lockout_seconds m =
     (let m1 = cleanup_old_entries now lockout_seconds m in
      case m1 identifier of
        None \<Rightarrow> (Inr (), m1)
      | Some e \<Rightarrow>
          if is_some_and (te_locked_until e) (\<lambda>u. now < u)
          then (Inl (remaining_secs (the (te_locked_until e)) now), m1)
          else if max_attempts \<le> te_attempts e
          then (let locked_until = te_last_attempt e + secs lockout_seconds in
                if now < locked_until
                then (Inl (remaining_secs locked_until now), m1(identifier \<mapsto> e\<lparr>te_locked_until := Some locked_until\<rparr>))
                else (Inr (), m1))
          else (Inr (), m1))"

definition record_failed_attempt :: "instant \<Rightarrow> string \<Rightarrow> u32 \<Rightarrow> u32 \<Rightarrow> throttle \<Rightarrow> throttle" where
  "record_failed_attempt now identifier max_attempts lockout_seconds m =
     (let e0 = unwrap_or (m identifier) \<lparr>te_attempts = 0, te_last_attempt = now, te_locked_until = None\<rparr>;
          e1 = e0\<lparr>te_attempts := te_attempts e0 + 1, te_last_attempt := now\<rparr>;
          e2 = (if max_attempts \<le> te_attempts e1
                then e1\<lparr>te_locked_until := Some (now + secs lockout_seconds)\<rparr> else e1)
      in m(identifier \<mapsto> e2))"

definition record_successful_attempt :: "string \<Rightarrow> throttle \<Rightarrow> throttle" where
  "record_successful_attempt identifier m = map_remove identifier m"

definition get_attempt_count :: "string \<Rightarrow> throttle \<Rightarrow> u32" where
  "get_attempt_count identifier m = (case m identifier of None \<Rightarrow> 0 | Some e \<Rightarrow> te_attempts e)"

definition get_remaining_lockout :: "instant \<Rightarrow> string \<Rightarrow> throttle \<Rightarrow> u32 option" where
  "get_remaining_lockout now identifier m =
     Option.bind (m identifier) (\<lambda>e. Option.bind (te_locked_until e) (\<lambda>u.
       if now < u then Some (remaining_secs u now) else None))"

lemmas throttle_defs = check_attempt_def record_failed_attempt_def record_successful_attempt_def

section \<open>A window shorter than every lockout\<close>

text \<open>
  A counter never stands at the largest \<^verbatim>\<open>u32\<close> without a lock, so an unlocked counter does not wrap.
  \<open>window\<close> says that the last \<open>n\<close> wrong guesses under a key fell in the window of width \<open>w\<close> that began
  at \<open>t0\<close>, and are still on record: either in the counter or in a lock that outlasts the window.
\<close>

definition no_wrap :: "throttle \<Rightarrow> bool" where
  "no_wrap m \<longleftrightarrow> (\<forall>k e. m k = Some e \<longrightarrow> te_locked_until e = None \<longrightarrow> te_attempts e \<noteq> - 1)"

definition window :: "string \<Rightarrow> instant \<Rightarrow> duration \<Rightarrow> nat \<Rightarrow> throttle \<Rightarrow> bool" where
  "window k t0 w n m \<longleftrightarrow> no_wrap m \<and>
     (n = 0 \<or> (\<exists>e. m k = Some e \<and> t0 \<le> te_last_attempt e \<and>
        (case te_locked_until e of Some u \<Rightarrow> t0 + w \<le> u | None \<Rightarrow> n \<le> unat (te_attempts e))))"

lemma no_wrap_D: "no_wrap m \<Longrightarrow> m k = Some e \<Longrightarrow> te_locked_until e = None \<Longrightarrow> te_attempts e \<noteq> - 1"
  by (simp add: no_wrap_def)

lemma no_wrap_empty [simp]: "no_wrap (\<lambda>_. None)"
  by (simp add: no_wrap_def)

lemma no_wrap_upd: "no_wrap m \<Longrightarrow> (te_locked_until e = None \<Longrightarrow> te_attempts e \<noteq> - 1) \<Longrightarrow> no_wrap (m(k \<mapsto> e))"
  by (simp add: no_wrap_def)

lemma no_wrap_cleanup: "no_wrap m \<Longrightarrow> no_wrap (cleanup_old_entries now l m)"
  unfolding no_wrap_def cleanup_old_entries_def map_retain_eq_Some by blast

lemma unat_Suc: "(x :: u32) \<noteq> - 1 \<Longrightarrow> unat (x + 1) = Suc (unat x)"
proof -
  assume "x \<noteq> - 1"
  then have "unat x \<noteq> 2 ^ 32 - 1" by (simp add: word_unat_eq_iff unsigned_minus_1_eq_mask mask_eq_exp_minus_1)
  moreover have "unat x < 2 ^ 32" using unsigned_less [of x] by simp
  ultimately show ?thesis by (simp add: unat_word_ariths)
qed

lemma below_max: "\<not> a \<le> b \<Longrightarrow> b \<noteq> (- 1 :: u32)"
  using word_n1_ge [of a] by auto

lemma no_wrap_failed: "no_wrap m \<Longrightarrow> no_wrap (record_failed_attempt now k a l m)"
  using below_max by (auto simp: record_failed_attempt_def Let_def intro!: no_wrap_upd)

lemma no_wrap_check: "no_wrap m \<Longrightarrow> no_wrap (snd (check_attempt now k a l m))"
  by (auto simp: check_attempt_def Let_def intro!: no_wrap_upd no_wrap_cleanup split: option.split)

lemma no_wrap_success: "no_wrap m \<Longrightarrow> no_wrap (record_successful_attempt k m)"
  by (simp add: no_wrap_def record_successful_attempt_def)

lemma window_0 [simp]: "window k t0 w 0 m \<longleftrightarrow> no_wrap m"
  by (simp add: window_def)

lemma window_cong: "m' k = m k \<Longrightarrow> no_wrap m' \<Longrightarrow> window k t0 w n m \<Longrightarrow> window k t0 w n m'"
  by (simp add: window_def)

text \<open>Inside the window, no sweep of the map forgets a counted guess.\<close>

lemma sweep_keeps:
  assumes "m k = Some e" "t0 \<le> te_last_attempt e" "t0 \<le> now" "now < t0 + w" "w \<le> secs l"
    and "\<And>u. te_locked_until e = Some u \<Longrightarrow> t0 + w \<le> u"
  shows "cleanup_old_entries now l m k = Some e"
proof -
  have "secs l \<le> seconds (uint l * 2)" by (simp add: secs_def seconds_def)
  with assms have "max 0 (now - te_last_attempt e) < seconds (uint l * 2)" by linarith
  moreover have "te_locked_until e = Some u \<Longrightarrow> now < u" for u
    using assms(4,6) by fastforce
  ultimately show ?thesis
    using assms(1) by (simp add: cleanup_old_entries_def duration_since_def split: option.split)
qed

lemma window_failed:
  assumes "window k t0 w n m" "t0 \<le> now" "w \<le> secs l"
  shows "window k t0 w n (record_failed_attempt now j a l m)"
proof (cases "n = 0 \<or> j \<noteq> k")
  case True
  with assms show ?thesis
    by (auto simp: window_def no_wrap_failed) (simp_all add: record_failed_attempt_def Let_def)
next
  case False
  then obtain e where e: "m k = Some e" "t0 \<le> te_last_attempt e"
      "case te_locked_until e of Some u \<Rightarrow> t0 + w \<le> u | None \<Rightarrow> n \<le> unat (te_attempts e)"
    using assms(1) by (auto simp: window_def)
  have "te_locked_until e = None \<Longrightarrow> n \<le> unat (te_attempts e + 1)"
    using e no_wrap_D [of m k e] assms(1) unat_Suc [of "te_attempts e"] by (auto simp: window_def add.commute)
  with False e assms show ?thesis
    by (auto simp: window_def no_wrap_failed) (auto simp: record_failed_attempt_def Let_def split: option.splits)
qed

lemma window_check:
  assumes "window k t0 w n m" "t0 \<le> now" "now < t0 + w" "w \<le> secs l"
  shows "window k t0 w n (snd (check_attempt now j a l m))"
proof (cases "n = 0")
  case True
  then show ?thesis using assms by (simp add: no_wrap_check)
next
  case False
  then obtain e where e: "m k = Some e" "t0 \<le> te_last_attempt e"
      "case te_locked_until e of Some u \<Rightarrow> t0 + w \<le> u | None \<Rightarrow> n \<le> unat (te_attempts e)"
    using assms(1) by (auto simp: window_def)
  have kept: "cleanup_old_entries now l m k = Some e"
    by (rule sweep_keeps [of m k e t0 now w l]) (use e assms(2-4) in auto)
  have nw: "no_wrap (snd (check_attempt now j a l m))"
    using assms(1) by (simp add: window_def no_wrap_check)
  have "\<exists>e'. snd (check_attempt now j a l m) k = Some e' \<and> te_last_attempt e' = te_last_attempt e \<and>
      (te_locked_until e' = te_locked_until e \<and> te_attempts e' = te_attempts e \<or>
       te_locked_until e' = Some (te_last_attempt e + secs l))"
    using kept by (auto simp: check_attempt_def Let_def split: option.split)
  with e assms nw show ?thesis by (fastforce simp: window_def split: option.splits)
qed

lemma window_success: "window k t0 w n m \<Longrightarrow> j \<noteq> k \<Longrightarrow> window k t0 w n (record_successful_attempt j m)"
  by (auto simp: window_def no_wrap_success) (simp add: record_successful_attempt_def)

text \<open>A guess that the check lets through and that fails is counted, and only so many are let through.\<close>

lemma check_sweeps:
  "check_attempt now k a l m = (Inr (), m1) \<Longrightarrow> m1 = cleanup_old_entries now l m"
  by (simp add: check_attempt_def Let_def split: option.splits if_splits)

lemma sweep_locked:
  "cleanup_old_entries now l m k = Some e \<Longrightarrow> te_locked_until e = Some u \<Longrightarrow> now < u"
  by (simp add: cleanup_old_entries_def)

lemma check_passes:
  assumes c: "check_attempt now k a l m = (Inr (), m1)" and e: "m1 k = Some e"
  shows "te_locked_until e = None \<and> (te_attempts e < a \<or> te_last_attempt e + secs l \<le> now)"
proof -
  have s: "cleanup_old_entries now l m k = Some e" using check_sweeps [OF c] e by simp
  show ?thesis
  proof (cases "te_locked_until e")
    case None
    with c s show ?thesis by (auto simp: check_attempt_def Let_def split: if_splits)
  next
    case (Some u)
    with c s sweep_locked [OF s Some] show ?thesis by (simp add: check_attempt_def Let_def)
  qed
qed

lemma window_guess:
  assumes "window k t0 w n m" "t0 \<le> now" "now < t0 + w" "w \<le> secs l"
    and c: "check_attempt now k a l m = (Inr (), m1)"
  shows "window k t0 w (Suc n) (record_failed_attempt now k a l m1)" "Suc n \<le> max 1 (unat a)"
proof -
  have w1: "window k t0 w n m1" using window_check [OF assms(1-4), of k a] c by simp
  then have nw: "no_wrap m1" by (simp add: window_def)
  have n: "n \<le> unat (case m1 k of None \<Rightarrow> 0 | Some e \<Rightarrow> te_attempts e)"
    and b: "Suc n \<le> max 1 (unat a)"
  proof -
    have "n = 0 \<or> (\<exists>e. m1 k = Some e \<and> n \<le> unat (te_attempts e) \<and> te_attempts e < a)"
    proof (cases "n = 0")
      case False
      then obtain e where e: "m1 k = Some e" "t0 \<le> te_last_attempt e"
          "case te_locked_until e of Some u \<Rightarrow> t0 + w \<le> u | None \<Rightarrow> n \<le> unat (te_attempts e)"
        using w1 by (auto simp: window_def)
      with check_passes [OF c e(1)] assms(2-4) show ?thesis by auto
    qed simp
    then show "n \<le> unat (case m1 k of None \<Rightarrow> 0 | Some e \<Rightarrow> te_attempts e)" "Suc n \<le> max 1 (unat a)"
      by (auto simp: word_less_nat_alt)
  qed
  show "Suc n \<le> max 1 (unat a)" by (rule b)
  let ?e = "unwrap_or (m1 k) \<lparr>te_attempts = 0, te_last_attempt = now, te_locked_until = None\<rparr>"
  have u: "te_locked_until ?e = None"
    using check_passes [OF c] by (cases "m1 k") auto
  have "te_attempts ?e \<noteq> - 1"
    using no_wrap_D [OF nw] u by (cases "m1 k") auto
  then have "unat (te_attempts ?e + 1) = Suc (unat (te_attempts ?e))"
    using unat_Suc [of "te_attempts ?e"] by (simp add: add.commute)
  moreover have "n \<le> unat (te_attempts ?e)" using n by (cases "m1 k") auto
  ultimately show "window k t0 w (Suc n) (record_failed_attempt now k a l m1)"
    using assms(2,4) u no_wrap_failed [OF nw]
    by (auto simp: window_def) (auto simp: record_failed_attempt_def Let_def)
qed

section \<open>Services that check before they let a guess through\<close>

fun guesses :: "('e \<Rightarrow> 's \<Rightarrow> 's) \<Rightarrow> ('e \<Rightarrow> 's \<Rightarrow> bool) \<Rightarrow> 'e list \<Rightarrow> 's \<Rightarrow> nat" where
  "guesses step guess [] s = 0"
| "guesses step guess (e # es) s = (if guess e s then 1 else 0) + guesses step guess es (step e s)"

fun never :: "('e \<Rightarrow> 's \<Rightarrow> 's) \<Rightarrow> ('e \<Rightarrow> 's \<Rightarrow> bool) \<Rightarrow> 'e list \<Rightarrow> 's \<Rightarrow> bool" where
  "never step clears [] s \<longleftrightarrow> True"
| "never step clears (e # es) s \<longleftrightarrow> \<not> clears e s \<and> never step clears es (step e s)"

locale guess_limited =
  fixes step :: "'e \<Rightarrow> 's \<Rightarrow> 's"
    and counters :: "'s \<Rightarrow> throttle"
    and at :: "'e \<Rightarrow> instant"
    and guess :: "'e \<Rightarrow> 's \<Rightarrow> bool"
    and clears :: "'e \<Rightarrow> 's \<Rightarrow> bool"
    and k :: string
    and limit :: u32
    and w :: duration
  assumes step_counts: "window k t0 w n (counters s) \<Longrightarrow> t0 \<le> at e \<Longrightarrow> at e < t0 + w \<Longrightarrow> \<not> clears e s \<Longrightarrow>
      \<not> guess e s \<Longrightarrow> window k t0 w n (counters (step e s))"
    and guess_counts: "window k t0 w n (counters s) \<Longrightarrow> t0 \<le> at e \<Longrightarrow> at e < t0 + w \<Longrightarrow> \<not> clears e s \<Longrightarrow>
      guess e s \<Longrightarrow> window k t0 w (Suc n) (counters (step e s))"
    and guess_admitted: "window k t0 w n (counters s) \<Longrightarrow> t0 \<le> at e \<Longrightarrow> at e < t0 + w \<Longrightarrow> guess e s \<Longrightarrow>
      Suc n \<le> max 1 (unat limit)"
begin

text \<open>The last guess may be one that clears the counter: it was still let through as one of them.\<close>

lemma guesses_from:
  "window k t0 w n (counters s) \<Longrightarrow> n \<le> max 1 (unat limit) \<Longrightarrow> never step clears es s \<Longrightarrow>
   \<forall>e \<in> set (es @ [x]). t0 \<le> at e \<and> at e < t0 + w \<Longrightarrow> n + guesses step guess (es @ [x]) s \<le> max 1 (unat limit)"
proof (induction es arbitrary: n s)
  case Nil
  then show ?case using guess_admitted [of t0 n s x] by auto
next
  case (Cons e es)
  show ?case
  proof (cases "guess e s")
    case True
    then have "window k t0 w (Suc n) (counters (step e s))" "Suc n \<le> max 1 (unat limit)"
      using guess_counts [of t0 n s e] guess_admitted [of t0 n s e] Cons.prems by auto
    from Cons.IH [OF this] Cons.prems True show ?thesis by simp
  next
    case False
    then have "window k t0 w n (counters (step e s))"
      using step_counts [of t0 n s e] Cons.prems by auto
    from Cons.IH [OF this] Cons.prems False show ?thesis by simp
  qed
qed

lemma guesses_bounded:
  "no_wrap (counters s) \<Longrightarrow> never step clears es s \<Longrightarrow> \<forall>e \<in> set (es @ [x]). t0 \<le> at e \<and> at e < t0 + w \<Longrightarrow>
   guesses step guess (es @ [x]) s \<le> max 1 (unat limit)"
  using guesses_from [of t0 0 s es] by simp

end

end
