(* ===== verification/Accounts.thy ===== *)
theory Accounts
  imports Membership Api_Errors Text
begin

text \<open>
  The account tables of \<^verbatim>\<open>server/src/database.rs\<close>: users, their addresses (\<^verbatim>\<open>models/user_emails.rs\<close>),
  the single-use links, and the second factors (\<^verbatim>\<open>models/mfa.rs\<close>). Each method is one transaction. The
  active flag and the roles of a user are those of the membership tables; the email columns of \<^verbatim>\<open>users\<close>
  mirror the primary address by trigger, so they are read from that row. Row ids, digests and the
  time are arguments. Constraints the migrations declare (unique names, addresses and digests, one
  primary address, cascades) are part of the operations; a failing database is left out.
\<close>

section \<open>Tables\<close>

record account =
  au_id :: uuid
  au_username :: string
  au_password_hash :: string
  au_full_name :: string
  au_mfa_enrolled_at :: "instant option"
  au_token_version :: int

record user_email =
  ue_id :: uuid
  ue_user_id :: uuid
  ue_email :: string
  ue_is_primary :: bool
  ue_verified_at :: "instant option"
  ue_created_at :: instant

record reset_token =
  pr_user_id :: uuid
  pr_token_hash :: string
  pr_expires_at :: instant
  pr_used_at :: "instant option"

record verification_token =
  ev_user_id :: uuid
  ev_user_email_id :: "uuid option"
  ev_token_hash :: string
  ev_expires_at :: instant
  ev_used_at :: "instant option"

record user_mfa_totp =
  tp_id :: uuid
  tp_user_id :: uuid
  tp_secret_base32 :: string
  tp_confirmed_at :: "instant option"
  tp_created_at :: instant
  tp_last_used_step :: "int option"
  tp_label :: string

record user_mfa_webauthn =
  wa_id :: uuid
  wa_user_id :: uuid
  wa_credential_id :: string
  wa_passkey :: json
  wa_label :: string
  wa_created_at :: instant
  wa_last_used_at :: "instant option"

record recovery_code =
  rv_id :: uuid
  rv_user_id :: uuid
  rv_code_hash :: string
  rv_used_at :: "instant option"

text \<open>An audit row: the event, the user it is about, the acting user.\<close>

type_synonym auth_audit = "string \<times> uuid option \<times> uuid option"

record auth_db =
  ad_members :: membership_db
  ad_accounts :: "account list"
  ad_emails :: "user_email list"
  ad_resets :: "reset_token list"
  ad_verifications :: "verification_token list"
  ad_totp :: "user_mfa_totp list"
  ad_webauthn :: "user_mfa_webauthn list"
  ad_recovery :: "recovery_code list"
  ad_audit :: "auth_audit list"

type_synonym 'a auth_result = "(database_error, 'a) result \<times> auth_db"

definition row_missing :: database_error where
  "row_missing = Diesel DieselNotFound ''Record not found''"

definition duplicate_row :: database_error where
  "duplicate_row = Diesel (DieselDatabase diesel_kind.UniqueViolation ''duplicate key'') ''duplicate key''"

definition missing_parent :: database_error where
  "missing_parent = Diesel (DieselDatabase ForeignKeyViolation ''foreign key'') ''foreign key''"

definition create_audit_log :: "string \<Rightarrow> uuid option \<Rightarrow> uuid option \<Rightarrow> auth_db \<Rightarrow> auth_db" where
  "create_audit_log event uid actor db = db\<lparr>ad_audit := ad_audit db @ [(event, uid, actor)]\<rparr>"

section \<open>Users\<close>

definition account_of :: "auth_db \<Rightarrow> uuid \<Rightarrow> account option" where
  "account_of db uid = find (\<lambda>a. au_id a = uid) (ad_accounts db)"

definition account_active :: "auth_db \<Rightarrow> uuid \<Rightarrow> bool" where
  "account_active db uid = is_some_and (Membership.find_user_by_id (ad_members db) uid) mb_is_active"

definition primary_email :: "auth_db \<Rightarrow> uuid \<Rightarrow> user_email option" where
  "primary_email db uid = find (\<lambda>e. ue_user_id e = uid \<and> ue_is_primary e) (ad_emails db)"

definition find_user_by_username :: "auth_db \<Rightarrow> string \<Rightarrow> account option" where
  "find_user_by_username db username = find (\<lambda>a. au_username a = username) (ad_accounts db)"

definition find_user_email :: "auth_db \<Rightarrow> string \<Rightarrow> user_email option" where
  "find_user_email db email_addr =
     (let needle = to_ascii_lowercase (trim email_addr)
      in find (\<lambda>e. to_ascii_lowercase (ue_email e) = needle) (ad_emails db))"

definition find_user_by_email :: "auth_db \<Rightarrow> string \<Rightarrow> account option" where
  "find_user_by_email db email =
     (let needle = to_ascii_lowercase (trim email)
      in Option.bind (find (\<lambda>e. to_ascii_lowercase (ue_email e) = needle) (ad_emails db))
           (\<lambda>e. account_of db (ue_user_id e)))"

definition address_taken :: "auth_db \<Rightarrow> string \<Rightarrow> bool" where
  "address_taken db email \<longleftrightarrow>
     list_ex (\<lambda>e. to_ascii_lowercase (ue_email e) = to_ascii_lowercase email) (ad_emails db)"

definition email_id_taken :: "auth_db \<Rightarrow> uuid \<Rightarrow> bool" where
  "email_id_taken db eid \<longleftrightarrow> list_ex (\<lambda>e. ue_id e = eid) (ad_emails db)"

text \<open>\<^verbatim>\<open>sync_user_roles_to\<close>: the one role of that name, in place of every role the user had.\<close>

definition sync_user_roles_to :: "uuid \<Rightarrow> string \<Rightarrow> membership_db \<Rightarrow> membership_db" where
  "sync_user_roles_to uid role_name db =
     (let kept = filter (\<lambda>p. fst p \<noteq> uid) (m_user_roles db)
      in db\<lparr>m_user_roles :=
           (case find (\<lambda>r. snd r = role_name) (m_roles db) of
              Some r \<Rightarrow> kept @ [(uid, fst r)] | None \<Rightarrow> kept)\<rparr>)"

text \<open>The new row, its primary address (seeded by trigger), and its role.\<close>

definition create_user ::
  "uuid \<Rightarrow> uuid \<Rightarrow> instant \<Rightarrow> string \<Rightarrow> string \<Rightarrow> string \<Rightarrow> string \<Rightarrow> string \<Rightarrow> auth_db \<Rightarrow> account auth_result" where
  "create_user uid eid now username email password_hash full_name role db =
     (if account_of db uid \<noteq> None \<or> find_user_by_username db username \<noteq> None \<or>
         email_id_taken db eid \<or> address_taken db email
      then (Inl duplicate_row, db)
      else
        (let a = \<lparr>au_id = uid, au_username = username, au_password_hash = password_hash,
                  au_full_name = full_name, au_mfa_enrolled_at = None, au_token_version = 0\<rparr>;
             e = \<lparr>ue_id = eid, ue_user_id = uid, ue_email = email, ue_is_primary = True,
                  ue_verified_at = None, ue_created_at = now\<rparr>;
             m = ad_members db;
             m1 = m\<lparr>m_users := m_users m @
               [\<lparr>mb_id = uid, mb_is_active = True, membership_next_due_at = None\<rparr>]\<rparr>
         in (Inr a, db\<lparr>ad_accounts := ad_accounts db @ [a], ad_emails := ad_emails db @ [e],
                       ad_members := sync_user_roles_to uid role m1\<rparr>)))"

record update_user =
  up_username :: "string option"
  up_password_hash :: "string option"
  up_full_name :: "string option"
  up_is_active :: "bool option"

definition set_active :: "uuid \<Rightarrow> bool \<Rightarrow> membership_db \<Rightarrow> membership_db" where
  "set_active uid b m = m\<lparr>m_users := map (\<lambda>u. if mb_id u = uid then u\<lparr>mb_is_active := b\<rparr> else u) (m_users m)\<rparr>"

text \<open>
  \<^verbatim>\<open>update_user\<close>: one transaction that writes the columns given and, when the password is one of
  them, moves the session epoch on. The epoch is an \<^verbatim>\<open>i32\<close> column; past its end the statement fails.
\<close>

definition updated_account :: "update_user \<Rightarrow> account \<Rightarrow> account" where
  "updated_account up a =
     a\<lparr>au_username := unwrap_or (up_username up) (au_username a),
       au_password_hash := unwrap_or (up_password_hash up) (au_password_hash a),
       au_full_name := unwrap_or (up_full_name up) (au_full_name a),
       au_token_version := (if up_password_hash up \<noteq> None then au_token_version a + 1 else au_token_version a)\<rparr>"

definition update_user_row :: "uuid \<Rightarrow> update_user \<Rightarrow> auth_db \<Rightarrow> account auth_result" where
  "update_user_row uid up db =
     (case account_of db uid of
        None \<Rightarrow> (Inl row_missing, db)
      | Some a \<Rightarrow>
          if is_some_and (up_username up) (\<lambda>n. n \<noteq> au_username a \<and> find_user_by_username db n \<noteq> None)
          then (Inl duplicate_row, db)
          else if up_password_hash up \<noteq> None \<and> 2147483647 \<le> au_token_version a
          then (Inl (Diesel (DieselOther ''integer out of range'') ''integer out of range''), db)
          else (Inr (updated_account up a),
                db\<lparr>ad_accounts := map (\<lambda>b. if au_id b = uid then updated_account up b else b) (ad_accounts db),
                   ad_members := (case up_is_active up of None \<Rightarrow> ad_members db
                                  | Some b \<Rightarrow> set_active uid b (ad_members db))\<rparr>))"

definition deactivate_user :: "uuid \<Rightarrow> auth_db \<Rightarrow> unit auth_result" where
  "deactivate_user uid db =
     (if account_of db uid = None then (Inl row_missing, db)
      else (Inr (), db\<lparr>ad_members := set_active uid False (ad_members db)\<rparr>))"

definition set_user_mfa_enrolled :: "uuid \<Rightarrow> instant option \<Rightarrow> auth_db \<Rightarrow> unit auth_result" where
  "set_user_mfa_enrolled uid w db =
     (if account_of db uid = None then (Inl row_missing, db)
      else (Inr (), db\<lparr>ad_accounts :=
             map (\<lambda>a. if au_id a = uid then a\<lparr>au_mfa_enrolled_at := w\<rparr> else a) (ad_accounts db)\<rparr>))"

section \<open>Addresses\<close>

text \<open>Deleting an address deletes the confirmation links that name it.\<close>

definition drop_emails :: "(user_email \<Rightarrow> bool) \<Rightarrow> auth_db \<Rightarrow> auth_db" where
  "drop_emails P db =
     (let gone = map ue_id (filter P (ad_emails db))
      in db\<lparr>ad_emails := filter (\<lambda>e. \<not> P e) (ad_emails db),
            ad_verifications := filter (\<lambda>t. \<not> is_some_and (ev_user_email_id t) (\<lambda>i. i \<in> set gone))
              (ad_verifications db)\<rparr>)"

definition list_user_emails :: "auth_db \<Rightarrow> uuid \<Rightarrow> user_email list" where
  "list_user_emails db uid =
     (let mine = filter (\<lambda>e. ue_user_id e = uid) (ad_emails db)
      in sort_key ue_created_at (filter ue_is_primary mine) @
         sort_key ue_created_at (filter (\<lambda>e. \<not> ue_is_primary e) mine))"

definition get_user_email :: "auth_db \<Rightarrow> uuid \<Rightarrow> uuid \<Rightarrow> user_email option" where
  "get_user_email db uid email_id = find (\<lambda>e. ue_user_id e = uid \<and> ue_id e = email_id) (ad_emails db)"

definition stale_claim :: "string \<Rightarrow> instant \<Rightarrow> user_email \<Rightarrow> bool" where
  "stale_claim email_addr stale_before e \<longleftrightarrow>
     to_ascii_lowercase (ue_email e) = to_ascii_lowercase (trim email_addr) \<and>
     ue_verified_at e = None \<and> \<not> ue_is_primary e \<and> ue_created_at e < stale_before"

definition add_user_email_row ::
  "uuid \<Rightarrow> instant \<Rightarrow> uuid \<Rightarrow> string \<Rightarrow> instant \<Rightarrow> auth_db \<Rightarrow> user_email auth_result" where
  "add_user_email_row eid now uid email_addr stale_before db =
     (let db1 = drop_emails (stale_claim email_addr stale_before) db;
          e = \<lparr>ue_id = eid, ue_user_id = uid, ue_email = trim email_addr, ue_is_primary = False,
               ue_verified_at = None, ue_created_at = now\<rparr>
      in if email_id_taken db1 eid \<or> address_taken db1 (trim email_addr) then (Inl duplicate_row, db)
         else if account_of db uid = None then (Inl missing_parent, db)
         else (Inr e, db1\<lparr>ad_emails := ad_emails db1 @ [e]\<rparr>))"

definition remove_user_email_row :: "uuid \<Rightarrow> uuid \<Rightarrow> auth_db \<Rightarrow> unit auth_result" where
  "remove_user_email_row uid email_id db =
     (let P = (\<lambda>e. ue_user_id e = uid \<and> ue_id e = email_id \<and> \<not> ue_is_primary e)
      in if \<not> list_ex P (ad_emails db) then (Inl row_missing, db) else (Inr (), drop_emails P db))"

definition make_primary :: "uuid \<Rightarrow> uuid \<Rightarrow> user_email \<Rightarrow> user_email" where
  "make_primary uid email_id e =
     (let e1 = (if ue_user_id e = uid \<and> ue_is_primary e then e\<lparr>ue_is_primary := False\<rparr> else e)
      in if ue_id e1 = email_id then e1\<lparr>ue_is_primary := True\<rparr> else e1)"

definition set_primary_user_email_row :: "uuid \<Rightarrow> uuid \<Rightarrow> auth_db \<Rightarrow> string auth_result" where
  "set_primary_user_email_row uid email_id db =
     (case get_user_email db uid email_id of
        None \<Rightarrow> (Inl row_missing, db)
      | Some target \<Rightarrow>
          if ue_verified_at target = None
          then (Inl (Diesel (DieselOther ''rollback'') ''rollback''), db)
          else (case primary_email db uid of
                  None \<Rightarrow> (Inl row_missing, db)
                | Some old \<Rightarrow>
                    (Inr (ue_email old), db\<lparr>ad_emails := map (make_primary uid email_id) (ad_emails db)\<rparr>)))"

definition replace_primary_user_email ::
  "uuid \<Rightarrow> instant \<Rightarrow> uuid \<Rightarrow> string \<Rightarrow> instant \<Rightarrow> auth_db \<Rightarrow> user_email auth_result" where
  "replace_primary_user_email eid now uid new_email stale_before db =
     (let db1 = drop_emails (stale_claim new_email stale_before) db;
          db2 = drop_emails (\<lambda>e. ue_user_id e = uid \<and> ue_is_primary e) db1;
          e = \<lparr>ue_id = eid, ue_user_id = uid, ue_email = trim new_email, ue_is_primary = True,
               ue_verified_at = None, ue_created_at = now\<rparr>
      in if primary_email db1 uid = None then (Inl row_missing, db)
         else if email_id_taken db2 eid \<or> address_taken db2 (trim new_email) then (Inl duplicate_row, db)
         else (Inr e, db2\<lparr>ad_emails := ad_emails db2 @ [e]\<rparr>))"

section \<open>Links that work once\<close>

definition create_password_reset_token ::
  "uuid \<Rightarrow> string \<Rightarrow> instant \<Rightarrow> instant \<Rightarrow> auth_db \<Rightarrow> unit auth_result" where
  "create_password_reset_token uid hash expiry now db =
     (let spent = map (\<lambda>t. if pr_user_id t = uid \<and> pr_used_at t = None then t\<lparr>pr_used_at := Some now\<rparr> else t)
            (ad_resets db);
          t = \<lparr>pr_user_id = uid, pr_token_hash = hash, pr_expires_at = expiry, pr_used_at = None\<rparr>
      in if list_ex (\<lambda>t. pr_token_hash t = hash) (ad_resets db) then (Inl duplicate_row, db)
         else if account_of db uid = None then (Inl missing_parent, db)
         else (Inr (), db\<lparr>ad_resets := spent @ [t]\<rparr>))"

definition live_reset :: "string \<Rightarrow> instant \<Rightarrow> reset_token \<Rightarrow> bool" where
  "live_reset hash now t \<longleftrightarrow> pr_token_hash t = hash \<and> pr_used_at t = None \<and> now < pr_expires_at t"

definition claim_password_reset_token :: "string \<Rightarrow> instant \<Rightarrow> auth_db \<Rightarrow> uuid option \<times> auth_db" where
  "claim_password_reset_token hash now db =
     (map_option pr_user_id (find (live_reset hash now) (ad_resets db)),
      db\<lparr>ad_resets := map (\<lambda>t. if live_reset hash now t then t\<lparr>pr_used_at := Some now\<rparr> else t) (ad_resets db)\<rparr>)"

definition create_email_verification_token ::
  "uuid \<Rightarrow> uuid option \<Rightarrow> string \<Rightarrow> instant \<Rightarrow> instant \<Rightarrow> auth_db \<Rightarrow> unit auth_result" where
  "create_email_verification_token uid email_id hash expiry now db =
     (let spent = map (\<lambda>t. if ev_user_id t = uid \<and> ev_user_email_id t = email_id \<and> ev_used_at t = None
                            then t\<lparr>ev_used_at := Some now\<rparr> else t) (ad_verifications db);
          t = \<lparr>ev_user_id = uid, ev_user_email_id = email_id, ev_token_hash = hash, ev_expires_at = expiry,
               ev_used_at = None\<rparr>
      in if list_ex (\<lambda>t. ev_token_hash t = hash) (ad_verifications db) then (Inl duplicate_row, db)
         else if account_of db uid = None \<or> \<not> is_none_or email_id (email_id_taken db) then (Inl missing_parent, db)
         else (Inr (), db\<lparr>ad_verifications := spent @ [t]\<rparr>))"

definition live_verification :: "string \<Rightarrow> instant \<Rightarrow> verification_token \<Rightarrow> bool" where
  "live_verification hash now t \<longleftrightarrow> ev_token_hash t = hash \<and> ev_used_at t = None \<and> now < ev_expires_at t"

definition claim_email_verification_token ::
  "string \<Rightarrow> instant \<Rightarrow> auth_db \<Rightarrow> (uuid \<times> uuid option) option \<times> auth_db" where
  "claim_email_verification_token hash now db =
     (map_option (\<lambda>t. (ev_user_id t, ev_user_email_id t)) (find (live_verification hash now) (ad_verifications db)),
      db\<lparr>ad_verifications := map (\<lambda>t. if live_verification hash now t then t\<lparr>ev_used_at := Some now\<rparr> else t)
           (ad_verifications db)\<rparr>)"

definition confirms :: "uuid \<Rightarrow> uuid option \<Rightarrow> user_email \<Rightarrow> bool" where
  "confirms uid email_id e \<longleftrightarrow>
     ue_user_id e = uid \<and> (case email_id of Some eid \<Rightarrow> ue_id e = eid | None \<Rightarrow> ue_is_primary e)"

definition mark_email_verified :: "uuid \<Rightarrow> uuid option \<Rightarrow> instant \<Rightarrow> auth_db \<Rightarrow> unit auth_result" where
  "mark_email_verified uid email_id now db =
     (if \<not> list_ex (confirms uid email_id) (ad_emails db) then (Inl row_missing, db)
      else (Inr (), db\<lparr>ad_emails :=
             map (\<lambda>e. if confirms uid email_id e then e\<lparr>ue_verified_at := Some now\<rparr> else e) (ad_emails db)\<rparr>))"

section \<open>Second factors\<close>

definition list_user_totp :: "auth_db \<Rightarrow> uuid \<Rightarrow> user_mfa_totp list" where
  "list_user_totp db uid =
     (let mine = filter (\<lambda>t. tp_user_id t = uid) (ad_totp db)
      in sort_key tp_created_at (filter (\<lambda>t. tp_confirmed_at t \<noteq> None) mine) @
         sort_key tp_created_at (filter (\<lambda>t. tp_confirmed_at t = None) mine))"

definition begin_totp_setup :: "uuid \<Rightarrow> instant \<Rightarrow> uuid \<Rightarrow> string \<Rightarrow> string \<Rightarrow> auth_db \<Rightarrow> user_mfa_totp \<times> auth_db" where
  "begin_totp_setup tid now uid secret label db =
     (let t = \<lparr>tp_id = tid, tp_user_id = uid, tp_secret_base32 = secret, tp_confirmed_at = None,
               tp_created_at = now, tp_last_used_step = None, tp_label = label\<rparr>
      in (t, db\<lparr>ad_totp := filter (\<lambda>t. \<not> (tp_user_id t = uid \<and> tp_confirmed_at t = None)) (ad_totp db) @ [t]\<rparr>))"

definition finalize_totp_confirmation :: "uuid \<Rightarrow> uuid \<Rightarrow> instant \<Rightarrow> auth_db \<Rightarrow> unit auth_result" where
  "finalize_totp_confirmation uid tid now db =
     (let P = (\<lambda>t. tp_user_id t = uid \<and> tp_id t = tid)
      in if \<not> list_ex P (ad_totp db) then (Inl row_missing, db)
         else (Inr (), db\<lparr>ad_totp := map (\<lambda>t. if P t
                then t\<lparr>tp_confirmed_at := Some now, tp_last_used_step := None\<rparr> else t) (ad_totp db)\<rparr>))"

definition update_totp_last_used_step :: "uuid \<Rightarrow> int \<Rightarrow> auth_db \<Rightarrow> unit auth_result" where
  "update_totp_last_used_step tid step db =
     (if \<not> list_ex (\<lambda>t. tp_id t = tid) (ad_totp db) then (Inl row_missing, db)
      else (Inr (), db\<lparr>ad_totp :=
             map (\<lambda>t. if tp_id t = tid then t\<lparr>tp_last_used_step := Some step\<rparr> else t) (ad_totp db)\<rparr>))"

definition delete_user_totp :: "uuid \<Rightarrow> uuid \<Rightarrow> auth_db \<Rightarrow> unit auth_result" where
  "delete_user_totp uid tid db =
     (let P = (\<lambda>t. tp_user_id t = uid \<and> tp_id t = tid)
      in if \<not> list_ex P (ad_totp db) then (Inl row_missing, db)
         else (Inr (), db\<lparr>ad_totp := filter (\<lambda>t. \<not> P t) (ad_totp db)\<rparr>))"

definition list_user_webauthn :: "auth_db \<Rightarrow> uuid \<Rightarrow> user_mfa_webauthn list" where
  "list_user_webauthn db uid = rev (sort_key wa_created_at (filter (\<lambda>w. wa_user_id w = uid) (ad_webauthn db)))"

definition insert_user_webauthn :: "user_mfa_webauthn \<Rightarrow> auth_db \<Rightarrow> user_mfa_webauthn auth_result" where
  "insert_user_webauthn w db =
     (if list_ex (\<lambda>v. wa_credential_id v = wa_credential_id w) (ad_webauthn db) then (Inl duplicate_row, db)
      else (Inr w, db\<lparr>ad_webauthn := ad_webauthn db @ [w]\<rparr>))"

definition delete_user_webauthn :: "uuid \<Rightarrow> uuid \<Rightarrow> auth_db \<Rightarrow> nat \<times> auth_db" where
  "delete_user_webauthn uid row_id db =
     (let P = (\<lambda>w. wa_id w = row_id \<and> wa_user_id w = uid)
      in (length (filter P (ad_webauthn db)), db\<lparr>ad_webauthn := filter (\<lambda>w. \<not> P w) (ad_webauthn db)\<rparr>))"

definition touch_user_webauthn_last_used :: "uuid \<Rightarrow> string \<Rightarrow> instant \<Rightarrow> auth_db \<Rightarrow> auth_db" where
  "touch_user_webauthn_last_used uid cred now db =
     db\<lparr>ad_webauthn := map (\<lambda>w. if wa_user_id w = uid \<and> wa_credential_id w = cred
                               then w\<lparr>wa_last_used_at := Some now\<rparr> else w) (ad_webauthn db)\<rparr>"

definition replace_user_recovery_codes :: "uuid \<Rightarrow> (uuid \<times> string) list \<Rightarrow> auth_db \<Rightarrow> auth_db" where
  "replace_user_recovery_codes uid hashes db =
     db\<lparr>ad_recovery := filter (\<lambda>r. rv_user_id r \<noteq> uid) (ad_recovery db) @
          map (\<lambda>(i, h). \<lparr>rv_id = i, rv_user_id = uid, rv_code_hash = h, rv_used_at = None\<rparr>) hashes\<rparr>"

definition list_unused_recovery_codes :: "auth_db \<Rightarrow> uuid \<Rightarrow> recovery_code list" where
  "list_unused_recovery_codes db uid = filter (\<lambda>r. rv_user_id r = uid \<and> rv_used_at r = None) (ad_recovery db)"

definition count_unused_recovery_codes :: "auth_db \<Rightarrow> uuid \<Rightarrow> nat" where
  "count_unused_recovery_codes db uid = length (list_unused_recovery_codes db uid)"

definition mark_recovery_code_used :: "uuid \<Rightarrow> instant \<Rightarrow> auth_db \<Rightarrow> unit auth_result" where
  "mark_recovery_code_used cid now db =
     (let P = (\<lambda>r. rv_id r = cid \<and> rv_used_at r = None)
      in if \<not> list_ex P (ad_recovery db) then (Inl row_missing, db)
         else (Inr (), db\<lparr>ad_recovery := map (\<lambda>r. if P r then r\<lparr>rv_used_at := Some now\<rparr> else r) (ad_recovery db)\<rparr>))"

definition recompute_user_mfa_enrolled :: "uuid \<Rightarrow> instant \<Rightarrow> auth_db \<Rightarrow> bool auth_result" where
  "recompute_user_mfa_enrolled uid now db =
     (let has_totp = list_ex (\<lambda>t. tp_confirmed_at t \<noteq> None) (list_user_totp db uid);
          has_webauthn = list_user_webauthn db uid \<noteq> [];
          enrolled = has_totp \<or> has_webauthn
      in case set_user_mfa_enrolled uid (if enrolled then Some now else None) db of
           (Inl e, db1) \<Rightarrow> (Inl e, db1)
         | (Inr _, db1) \<Rightarrow> (Inr enrolled, db1))"

end
