(* ===== verification/Auth.thy ===== *)
theory Auth
  imports Toolguard Throttle Accounts
begin

text \<open>
  Authentication: the session and password half of \<^verbatim>\<open>server/src/auth.rs\<close>, the challenge store and code
  check of \<^verbatim>\<open>server/src/mfa.rs\<close>, the handlers of \<^verbatim>\<open>server/src/api/auth.rs\<close> and \<^verbatim>\<open>server/src/api/mfa.rs\<close>,
  over the account tables, the shared throttle and the outgoing mail. A handler is a function from its
  request and the state to its answer and the state it leaves. The libraries (Argon2, the JWT codec,
  SHA-256, TOTP generation, WebAuthn, reCAPTCHA, the mailer) are the functions of \<open>auth_env\<close>; what a
  call draws or reads from a clock is the record \<open>call\<close>. \<open>ax_config\<close> is the configuration as it stands,
  \<open>ax_mfa_service\<close> what the second-factor service was started with. \<open>ap_outbox\<close> lists the mails handed to the mailer, delivered
  or not: the address and the link's token. Audit payloads and log lines are left out.
\<close>

section \<open>Configuration and libraries\<close>

datatype mfa_enforcement = OptIn | RequiredForStaff | RequiredForAll

record auth_mfa_config =
  mf_enabled :: bool
  mf_enforcement :: mfa_enforcement
  mf_allow_totp :: bool

record registration_challenge_config =
  rg_enabled :: bool
  rg_phrase :: string
  rg_throttle_enabled :: bool
  rg_throttle_attempts :: u32
  rg_throttle_seconds :: u32
  rg_terms_of_service_checkbox :: bool
  rg_recaptcha_enabled :: bool

record auth_config =
  ag_jwt_secret :: string
  ag_jwt_expiration_hours :: u32
  ag_allow_registration :: bool
  ag_require_email_verification :: bool
  ag_password_min_length :: nat
  ag_password_reset_enabled :: bool
  ag_login_throttle_enabled :: bool
  ag_login_throttle_attempts :: u32
  ag_login_throttle_seconds :: u32
  ag_cookie_secure :: bool
  ag_mfa :: auth_mfa_config
  ag_challenge :: registration_challenge_config
  ag_setup_enabled :: bool
  ag_setup_admin_email :: string
  ag_email_enabled :: bool

record claims =
  cl_sub :: string
  cl_exp :: int
  cl_iat :: int
  cl_user_id :: uuid
  cl_username :: string
  cl_token_version :: int

record auth_env =
  ax_config :: auth_config
  ax_mfa_service :: auth_mfa_config
  ax_text :: text_ops
  ax_hash :: "string \<Rightarrow> string \<Rightarrow> (string, string) result"
  ax_verify :: "string \<Rightarrow> string \<Rightarrow> (string, bool) result"
  ax_sha256 :: "string \<Rightarrow> string"
  ax_encode :: "string \<Rightarrow> claims \<Rightarrow> string option"
  ax_decode :: "string \<Rightarrow> instant \<Rightarrow> string \<Rightarrow> claims option"
  ax_totp :: "string \<Rightarrow> string \<Rightarrow> (nat \<Rightarrow> string) option"
  ax_check_current :: "string \<Rightarrow> string \<Rightarrow> instant \<Rightarrow> string \<Rightarrow> bool"
  ax_recaptcha :: "string \<Rightarrow> (string, bool) result"
  ax_mail_sent :: "string \<Rightarrow> bool"
  ax_webauthn :: bool
  ax_passkey :: "json \<Rightarrow> string option"
  ax_start_auth :: "string list \<Rightarrow> (json \<times> string) option"
  ax_parse_credential :: "json \<Rightarrow> (string, string) result"
  ax_finish_auth :: "string \<Rightarrow> string \<Rightarrow> string option"
  ax_start_registration :: "uuid \<Rightarrow> string list \<Rightarrow> (json \<times> string) option"
  ax_finish_registration :: "string \<Rightarrow> string \<Rightarrow> (string, string \<times> json) result"

record call =
  cx_inst :: instant
  cx_utc :: instant
  cx_id :: uuid
  cx_row_id :: uuid
  cx_token :: string
  cx_salt :: string
  cx_secret :: string
  cx_codes :: "(uuid \<times> string \<times> string) list"

section \<open>State\<close>

record login_challenge =
  lc_user_id :: uuid
  lc_methods :: "string list"
  lc_webauthn_auth :: "string option"

record webauthn_registration =
  wr_user_id :: uuid
  wr_label :: string
  wr_state :: string

datatype challenge_entry = Login login_challenge | Register webauthn_registration

record stored_challenge =
  sx_entry :: challenge_entry
  sx_expires_at :: instant

record auth_state =
  ap_db :: auth_db
  ap_throttle :: throttle
  ap_challenges :: "string \<rightharpoonup> stored_challenge"
  ap_outbox :: "(string \<times> string) list"

type_synonym 'a answer = "(api_error, 'a) result \<times> auth_state"

definition log_auth :: "string \<Rightarrow> uuid option \<Rightarrow> uuid option \<Rightarrow> auth_state \<Rightarrow> auth_state" where
  "log_auth event uid actor s = s\<lparr>ap_db := create_audit_log event uid actor (ap_db s)\<rparr>"

text \<open>The throttle calls of the handlers, made only where throttling is on.\<close>

definition may_try :: "call \<Rightarrow> bool \<Rightarrow> string \<Rightarrow> u32 \<Rightarrow> u32 \<Rightarrow> auth_state \<Rightarrow> (u32, unit) result \<times> auth_state" where
  "may_try cx on key a l s =
     (if on then (case check_attempt (cx_inst cx) key a l (ap_throttle s) of (r, m) \<Rightarrow> (r, s\<lparr>ap_throttle := m\<rparr>))
      else (Inr (), s))"

definition note_failure :: "call \<Rightarrow> bool \<Rightarrow> string \<Rightarrow> u32 \<Rightarrow> u32 \<Rightarrow> auth_state \<Rightarrow> auth_state" where
  "note_failure cx on key a l s =
     (if on then s\<lparr>ap_throttle := record_failed_attempt (cx_inst cx) key a l (ap_throttle s)\<rparr> else s)"

definition note_success :: "bool \<Rightarrow> string \<Rightarrow> auth_state \<Rightarrow> auth_state" where
  "note_success on key s =
     (if on then s\<lparr>ap_throttle := record_successful_attempt key (ap_throttle s)\<rparr> else s)"

definition too_many :: "string \<Rightarrow> u32 \<Rightarrow> string \<Rightarrow> api_error" where
  "too_many before r after = TooManyRequests (before @ show_nat (unat r) @ after)"

section \<open>Sessions\<close>

definition utc_secs :: "call \<Rightarrow> int" where
  "utc_secs cx = cx_utc cx div 1000000000"

definition new_claims :: "auth_env \<Rightarrow> call \<Rightarrow> account \<Rightarrow> u32 \<Rightarrow> claims" where
  "new_claims v cx user expiration_hours =
     \<lparr>cl_sub = uuid_show (ax_text v) (au_id user),
      cl_exp = (cx_utc cx + seconds (3600 * uint expiration_hours)) div 1000000000,
      cl_iat = utc_secs cx, cl_user_id = au_id user, cl_username = au_username user,
      cl_token_version = au_token_version user\<rparr>"

definition create_token :: "auth_env \<Rightarrow> call \<Rightarrow> account \<Rightarrow> (auth_error, string) result" where
  "create_token v cx user =
     (case ax_encode v (ag_jwt_secret (ax_config v)) (new_claims v cx user (ag_jwt_expiration_hours (ax_config v))) of
        None \<Rightarrow> Inl TokenCreation
      | Some t \<Rightarrow> Inr t)"

definition verify_token :: "auth_env \<Rightarrow> call \<Rightarrow> string \<Rightarrow> (auth_error, claims) result" where
  "verify_token v cx token =
     (case ax_decode v (ag_jwt_secret (ax_config v)) (cx_utc cx) token of
        None \<Rightarrow> Inl InvalidToken
      | Some c \<Rightarrow> Inr c)"

definition get_user_from_token :: "auth_env \<Rightarrow> call \<Rightarrow> string \<Rightarrow> auth_db \<Rightarrow> (auth_error, account) result" where
  "get_user_from_token v cx token db =
     (case verify_token v cx token of
        Inl e \<Rightarrow> Inl e
      | Inr c \<Rightarrow>
          (case account_of db (cl_user_id c) of
             None \<Rightarrow> Inl UserNotFound
           | Some user \<Rightarrow>
               if \<not> account_active db (au_id user) then Inl UserInactive
               else if cl_token_version c \<noteq> au_token_version user then Inl InvalidToken
               else Inr user))"

definition SESSION_COOKIE_NAME :: string where "SESSION_COOKIE_NAME = ''css_session''"

definition session_set_cookie :: "string \<Rightarrow> int \<Rightarrow> bool \<Rightarrow> string" where
  "session_set_cookie token max_age_secs secure =
     SESSION_COOKIE_NAME @ ''='' @ token @ ''; HttpOnly; SameSite=Strict; Path=/; Max-Age='' @
     show_int max_age_secs @ (if secure then ''; Secure'' else [])"

definition session_clear_cookie :: "bool \<Rightarrow> string" where
  "session_clear_cookie secure =
     SESSION_COOKIE_NAME @ ''=; HttpOnly; SameSite=Strict; Path=/; Max-Age=0'' @ (if secure then ''; Secure'' else [])"

fun find_map :: "('a \<Rightarrow> 'b option) \<Rightarrow> 'a list \<Rightarrow> 'b option" where
  "find_map f [] = None"
| "find_map f (x # xs) = (case f x of Some y \<Rightarrow> Some y | None \<Rightarrow> find_map f xs)"

definition token_from_cookie_header :: "string \<Rightarrow> string option" where
  "token_from_cookie_header header =
     find_map (\<lambda>pair. Option.bind (split_once (CHR ''='') pair) (\<lambda>(name, value).
         if trim name = SESSION_COOKIE_NAME then Some (trim value) else None))
       (split_on (CHR '';'') header)"

definition select_request_token :: "string option \<Rightarrow> string option \<Rightarrow> (auth_error, string) result" where
  "select_request_token cookie_header authorization =
     (case Option.bind cookie_header token_from_cookie_header of
        Some token \<Rightarrow> Inr token
      | None \<Rightarrow>
          (case authorization of
             None \<Rightarrow> Inl MissingCredentials
           | Some h \<Rightarrow> (case strip_prefix ''Bearer '' h of None \<Rightarrow> Inl InvalidToken | Some t \<Rightarrow> Inr t)))"

definition auth_user ::
  "auth_env \<Rightarrow> call \<Rightarrow> string option \<Rightarrow> string option \<Rightarrow> auth_db \<Rightarrow> (auth_error, account) result" where
  "auth_user v cx cookie_header authorization db =
     (case select_request_token cookie_header authorization of
        Inl e \<Rightarrow> Inl e
      | Inr token \<Rightarrow> get_user_from_token v cx token db)"

text \<open>The extractors of the administrator, staff and member routes.\<close>

definition permitted_user ::
  "string \<Rightarrow> string \<Rightarrow> auth_env \<Rightarrow> call \<Rightarrow> string option \<Rightarrow> string option \<Rightarrow> auth_db \<Rightarrow>
   (auth_error, account) result" where
  "permitted_user permission what v cx cookie_header authorization db =
     (case auth_user v cx cookie_header authorization db of
        Inl e \<Rightarrow> Inl e
      | Inr user \<Rightarrow>
          if user_has_permission (ad_members db) (au_id user) permission then Inr user
          else Inl (AuthForbidden what))"

definition admin_user where "admin_user = permitted_user ''admin.access'' ''administrator access''"
definition staff_user where "staff_user = permitted_user ''staff.access'' ''staff access''"
definition member_gate where "member_gate = permitted_user ''member.access'' ''member access''"

section \<open>Passwords\<close>

definition authenticate_user :: "auth_env \<Rightarrow> string \<Rightarrow> string \<Rightarrow> auth_db \<Rightarrow> (auth_error, account) result" where
  "authenticate_user v username_or_email password db =
     (case (case find_user_by_username db username_or_email of
              Some u \<Rightarrow> Some u | None \<Rightarrow> find_user_by_email db username_or_email) of
        None \<Rightarrow> Inl WrongCredentials
      | Some user \<Rightarrow>
          (case ax_verify v password (au_password_hash user) of
             Inl e \<Rightarrow> Inl (InvalidPassword e)
           | Inr ok \<Rightarrow>
               if \<not> ok then Inl WrongCredentials
               else if \<not> account_active db (au_id user) then Inl UserInactive
               else Inr user))"

section \<open>The challenge store\<close>

definition CHALLENGE_TTL :: duration where "CHALLENGE_TTL = seconds (10 * 60)"

definition prune_expired :: "instant \<Rightarrow> (string \<rightharpoonup> stored_challenge) \<Rightarrow> (string \<rightharpoonup> stored_challenge)" where
  "prune_expired now m = map_retain (\<lambda>_ c. now < sx_expires_at c) m"

definition put_challenge ::
  "instant \<Rightarrow> string \<Rightarrow> challenge_entry \<Rightarrow> (string \<rightharpoonup> stored_challenge) \<Rightarrow> (string \<rightharpoonup> stored_challenge)" where
  "put_challenge now token e m =
     (prune_expired now m)(token \<mapsto> \<lparr>sx_entry = e, sx_expires_at = now + CHALLENGE_TTL\<rparr>)"

definition take_challenge ::
  "instant \<Rightarrow> string \<Rightarrow> (string \<rightharpoonup> stored_challenge) \<Rightarrow> challenge_entry option \<times> (string \<rightharpoonup> stored_challenge)" where
  "take_challenge now token m =
     (let m1 = prune_expired now m in
      (Option.bind (m1 token) (\<lambda>c. if sx_expires_at c \<le> now then None else Some (sx_entry c)),
       map_remove token m1))"

definition take_login :: "call \<Rightarrow> string \<Rightarrow> auth_state \<Rightarrow> login_challenge option \<times> auth_state" where
  "take_login cx token s =
     (case take_challenge (cx_inst cx) token (ap_challenges s) of
        (e, m) \<Rightarrow> ((case e of Some (Login c) \<Rightarrow> Some c | _ \<Rightarrow> None), s\<lparr>ap_challenges := m\<rparr>))"

definition take_registration :: "call \<Rightarrow> string \<Rightarrow> auth_state \<Rightarrow> webauthn_registration option \<times> auth_state" where
  "take_registration cx token s =
     (case take_challenge (cx_inst cx) token (ap_challenges s) of
        (e, m) \<Rightarrow> ((case e of Some (Register r) \<Rightarrow> Some r | _ \<Rightarrow> None), s\<lparr>ap_challenges := m\<rparr>))"

definition put_login :: "call \<Rightarrow> login_challenge \<Rightarrow> auth_state \<Rightarrow> string \<times> auth_state" where
  "put_login cx c s =
     (cx_token cx, s\<lparr>ap_challenges := put_challenge (cx_inst cx) (cx_token cx) (Login c) (ap_challenges s)\<rparr>)"

definition put_registration :: "call \<Rightarrow> webauthn_registration \<Rightarrow> auth_state \<Rightarrow> string \<times> auth_state" where
  "put_registration cx r s =
     (cx_token cx, s\<lparr>ap_challenges := put_challenge (cx_inst cx) (cx_token cx) (Register r) (ap_challenges s)\<rparr>)"

section \<open>Authenticator codes\<close>

text \<open>The time steps one before, at and one after now; times before 1970 are skipped.\<close>

definition verify_totp_step :: "auth_env \<Rightarrow> call \<Rightarrow> string \<Rightarrow> string \<Rightarrow> string \<Rightarrow> nat option" where
  "verify_totp_step v cx secret_base32 acct code =
     (case ax_totp v secret_base32 acct of
        None \<Rightarrow> None
      | Some generate \<Rightarrow>
          if utc_secs cx < 0 then None
          else find_map (\<lambda>delta. let time = utc_secs cx + delta * 30 in
                 if time < 0 then None
                 else if generate (nat time) = code then Some (nat time div 30) else None) [- 1, 0, 1])"

definition verify_totp :: "auth_env \<Rightarrow> call \<Rightarrow> string \<Rightarrow> string \<Rightarrow> string \<Rightarrow> bool" where
  "verify_totp v cx secret_base32 acct code \<longleftrightarrow>
     ax_totp v secret_base32 acct \<noteq> None \<and> ax_check_current v secret_base32 acct (cx_utc cx) code"

definition verify_recovery_code :: "auth_env \<Rightarrow> string \<Rightarrow> string \<Rightarrow> bool" where
  "verify_recovery_code v candidate hash = (case ax_verify v candidate hash of Inr b \<Rightarrow> b | Inl _ \<Rightarrow> False)"

end
