(* ===== verification/Auth_Service.thy ===== *)
theory Auth_Service
  imports Auth
begin

text \<open>
  The authentication endpoints: sign-up, sign-in, the second step, mailed links
  (\<^verbatim>\<open>server/src/api/auth.rs\<close>) and the enrolment of second factors (\<^verbatim>\<open>server/src/api/mfa.rs\<close>). Response
  bodies keep what a client acts on; messages of successful answers are left out.
\<close>

section \<open>Signing in\<close>

definition login_key :: "string \<Rightarrow> string" where
  "login_key username_or_email = ''login:'' @ to_ascii_lowercase (trim username_or_email)"

definition mfa_key :: "auth_env \<Rightarrow> uuid \<Rightarrow> string" where
  "mfa_key v uid = ''mfa:'' @ uuid_show (ax_text v) uid"

datatype login_reply = SignedIn string string bool | MfaRequired string "string list"

definition is_required_for :: "auth_mfa_config \<Rightarrow> bool \<Rightarrow> bool" where
  "is_required_for c is_staff =
     (if \<not> mf_enabled c then False
      else (case mf_enforcement c of OptIn \<Rightarrow> False | RequiredForStaff \<Rightarrow> is_staff | RequiredForAll \<Rightarrow> True))"

definition email_confirmed :: "auth_db \<Rightarrow> uuid \<Rightarrow> bool" where
  "email_confirmed db uid = is_some_and (primary_email db uid) (\<lambda>e. ue_verified_at e \<noteq> None)"

definition email_of :: "auth_db \<Rightarrow> uuid \<Rightarrow> string" where
  "email_of db uid = (case primary_email db uid of Some e \<Rightarrow> ue_email e | None \<Rightarrow> [])"

definition webauthn_start :: "auth_env \<Rightarrow> uuid \<Rightarrow> auth_db \<Rightarrow> (json \<times> string) option" where
  "webauthn_start v uid db =
     (let passkeys = List.map_filter (\<lambda>w. ax_passkey v (wa_passkey w)) (list_user_webauthn db uid)
      in if ax_webauthn v \<and> passkeys \<noteq> [] then ax_start_auth v passkeys else None)"

definition usable_methods :: "auth_env \<Rightarrow> uuid \<Rightarrow> auth_db \<Rightarrow> string list" where
  "usable_methods v uid db =
     (if list_ex (\<lambda>t. tp_confirmed_at t \<noteq> None) (list_user_totp db uid) then [''totp''] else []) @
     (if webauthn_start v uid db \<noteq> None then [''webauthn''] else []) @
     (if 0 < count_unused_recovery_codes db uid then [''recovery''] else [])"

definition build_login_challenge :: "auth_env \<Rightarrow> call \<Rightarrow> account \<Rightarrow> auth_state \<Rightarrow> (string \<times> string list) answer" where
  "build_login_challenge v cx user s =
     (let methods = usable_methods v (au_id user) (ap_db s) in
      if methods = []
      then (Inl (InternalServerError ''User is marked MFA-enrolled but has no usable methods''), s)
      else (case put_login cx \<lparr>lc_user_id = au_id user, lc_methods = methods,
                 lc_webauthn_auth = map_option snd (webauthn_start v (au_id user) (ap_db s))\<rparr> s of
              (token, s1) \<Rightarrow> (Inr (token, methods), s1)))"

definition session_cookie :: "auth_env \<Rightarrow> string \<Rightarrow> string" where
  "session_cookie v token =
     session_set_cookie token (uint (ag_jwt_expiration_hours (ax_config v)) * 60 * 60) (ag_cookie_secure (ax_config v))"

text \<open>What follows a correct password.\<close>

definition finish_login :: "auth_env \<Rightarrow> call \<Rightarrow> account \<Rightarrow> auth_state \<Rightarrow> login_reply answer" where
  "finish_login v cx user s =
     (let c = ax_config v; uid = au_id user in
      if ag_require_email_verification c \<and> \<not> email_confirmed (ap_db s) uid
      then (Inl (Forbidden ''Your email address has not been confirmed. Check your inbox for the confirmation link, or ask for a new one.''), s)
      else if au_mfa_enrolled_at user \<noteq> None \<and> mf_enabled (ag_mfa c)
      then (case build_login_challenge v cx user s of
              (Inl e, s1) \<Rightarrow> (Inl e, s1)
            | (Inr (token, methods), s1) \<Rightarrow> (Inr (MfaRequired token methods), s1))
      else (case create_token v cx user of
              Inl e \<Rightarrow> (Inl (from_auth_error e), s)
            | Inr token \<Rightarrow>
                (let is_staff = user_has_permission (ad_members (ap_db s)) uid ''staff.access'';
                     must_enroll = is_required_for (ag_mfa c) is_staff \<and> au_mfa_enrolled_at user = None
                 in (Inr (SignedIn token (session_cookie v token) must_enroll),
                     log_auth ''user_login'' (Some uid) None s))))"

definition login :: "auth_env \<Rightarrow> call \<Rightarrow> string \<Rightarrow> string \<Rightarrow> auth_state \<Rightarrow> login_reply answer" where
  "login v cx username_or_email password s =
     (if username_or_email = [] \<or> password = []
      then (Inl (BadRequest ''Username/email and password are required''), s)
      else
        (let c = ax_config v;
             on = ag_login_throttle_enabled c; a = ag_login_throttle_attempts c; l = ag_login_throttle_seconds c;
             throttle_id = login_key username_or_email
         in case may_try cx on throttle_id a l s of
              (Inl r, s1) \<Rightarrow> (Inl (too_many ''Too many login attempts. Try again in '' r '' seconds.''), s1)
            | (Inr _, s1) \<Rightarrow>
                (case authenticate_user v username_or_email password (ap_db s1) of
                   Inr user \<Rightarrow> finish_login v cx user (note_success on throttle_id s1)
                 | Inl e \<Rightarrow> (Inl (from_auth_error e),
                             log_auth ''failed_login_attempt'' None None (note_failure cx on throttle_id a l s1)))))"

definition logout :: "auth_env \<Rightarrow> string" where
  "logout v = session_clear_cookie (ag_cookie_secure (ax_config v))"

section \<open>The second step\<close>

record mfa_verify_request =
  vq_challenge_token :: string
  vq_method :: string
  vq_code :: "string option"
  vq_response :: "json option"

definition require_mfa_enabled :: "auth_env \<Rightarrow> api_error option" where
  "require_mfa_enabled v =
     (if mf_enabled (ag_mfa (ax_config v)) then None else Some (Forbidden ''MFA is disabled in server configuration''))"

definition given_code :: "string option \<Rightarrow> string option" where
  "given_code code = Option.bind (map_option trim code) (\<lambda>c. if c = [] then None else Some c)"

fun try_authenticators ::
  "auth_env \<Rightarrow> call \<Rightarrow> string \<Rightarrow> string \<Rightarrow> user_mfa_totp list \<Rightarrow> bool \<Rightarrow> auth_db \<Rightarrow> (api_error, unit) result \<times> auth_db"
  where
  "try_authenticators v cx email code [] replayed db =
     (Inl (Unauthorized (if replayed then ''This TOTP code has already been used'' else ''Invalid TOTP code'')), db)"
| "try_authenticators v cx email code (row # rows) replayed db =
     (case verify_totp_step v cx (tp_secret_base32 row) email code of
        None \<Rightarrow> try_authenticators v cx email code rows replayed db
      | Some step \<Rightarrow>
          if is_some_and (tp_last_used_step row) (\<lambda>last. int step \<le> last)
          then try_authenticators v cx email code rows True db
          else (case update_totp_last_used_step (tp_id row) (int step) db of
                  (Inl e, db1) \<Rightarrow> (Inl (from_database_error e), db1)
                | (Inr _, db1) \<Rightarrow> (Inr (), db1)))"

definition verify_totp_path ::
  "auth_env \<Rightarrow> call \<Rightarrow> account \<Rightarrow> string option \<Rightarrow> auth_db \<Rightarrow> (api_error, unit) result \<times> auth_db" where
  "verify_totp_path v cx user code db =
     (case given_code code of
        None \<Rightarrow> (Inl (BadRequest ''code is required for TOTP''), db)
      | Some c \<Rightarrow>
          (let confirmed = filter (\<lambda>t. tp_confirmed_at t \<noteq> None) (list_user_totp db (au_id user)) in
           if confirmed = [] then (Inl (Unauthorized ''No confirmed TOTP for user''), db)
           else try_authenticators v cx (email_of db (au_id user)) c confirmed False db))"

definition verify_webauthn_path ::
  "auth_env \<Rightarrow> call \<Rightarrow> account \<Rightarrow> login_challenge \<Rightarrow> json option \<Rightarrow> auth_db \<Rightarrow> (api_error, unit) result \<times> auth_db" where
  "verify_webauthn_path v cx user challenge response db =
     (if \<not> ax_webauthn v then (Inl (Forbidden ''WebAuthn disabled''), db)
      else (case lc_webauthn_auth challenge of
              None \<Rightarrow> (Inl (BadRequest ''This challenge has no WebAuthn state''), db)
            | Some st \<Rightarrow>
                (case response of
                   None \<Rightarrow> (Inl (BadRequest ''response is required''), db)
                 | Some r \<Rightarrow>
                     (case ax_parse_credential v r of
                        Inl e \<Rightarrow> (Inl (BadRequest (''Invalid WebAuthn response: '' @ e)), db)
                      | Inr cred \<Rightarrow>
                          (case ax_finish_auth v cred st of
                             None \<Rightarrow> (Inl (Unauthorized ''WebAuthn authentication rejected''), db)
                           | Some used \<Rightarrow> (Inr (), touch_user_webauthn_last_used (au_id user) used (cx_utc cx) db))))))"

definition verify_recovery_path ::
  "auth_env \<Rightarrow> call \<Rightarrow> account \<Rightarrow> string option \<Rightarrow> auth_db \<Rightarrow> (api_error, unit) result \<times> auth_db" where
  "verify_recovery_path v cx user code db =
     (case given_code code of
        None \<Rightarrow> (Inl (BadRequest ''code is required for recovery''), db)
      | Some c \<Rightarrow>
          (case find (\<lambda>r. verify_recovery_code v c (rv_code_hash r)) (list_unused_recovery_codes db (au_id user)) of
             None \<Rightarrow> (Inl (Unauthorized ''Invalid recovery code''), db)
           | Some row \<Rightarrow>
               (case mark_recovery_code_used (rv_id row) (cx_utc cx) db of
                  (Inl e, db1) \<Rightarrow> (Inl (from_database_error e), db1)
                | (Inr _, db1) \<Rightarrow>
                    (Inr (), create_audit_log ''mfa_recovery_code_used'' (Some (au_id user)) (Some (au_id user)) db1))))"

definition second_factor ::
  "auth_env \<Rightarrow> call \<Rightarrow> account \<Rightarrow> login_challenge \<Rightarrow> mfa_verify_request \<Rightarrow> auth_db \<Rightarrow>
   (api_error, unit) result \<times> auth_db" where
  "second_factor v cx user challenge req db =
     (if vq_method req = ''totp'' then verify_totp_path v cx user (vq_code req) db
      else if vq_method req = ''webauthn'' then verify_webauthn_path v cx user challenge (vq_response req) db
      else if vq_method req = ''recovery'' then verify_recovery_path v cx user (vq_code req) db
      else (Inl (BadRequest (''Unknown method: '' @ vq_method req)), db))"

text \<open>After the challenge is consumed and the account found active.\<close>

definition complete_challenge ::
  "auth_env \<Rightarrow> call \<Rightarrow> account \<Rightarrow> login_challenge \<Rightarrow> mfa_verify_request \<Rightarrow> auth_state \<Rightarrow> login_reply answer" where
  "complete_challenge v cx user challenge req s =
     (let c = ax_config v; uid = au_id user;
          on = ag_login_throttle_enabled c; a = ag_login_throttle_attempts c; l = ag_login_throttle_seconds c;
          throttle_id = mfa_key v uid
      in case may_try cx on throttle_id a l s of
           (Inl r, s1) \<Rightarrow> (Inl (too_many ''Too many verification attempts. Try again in '' r '' seconds.''), s1)
         | (Inr _, s1) \<Rightarrow>
             (case second_factor v cx user challenge req (ap_db s1) of
                (Inr _, db) \<Rightarrow>
                  (let s2 = log_auth ''mfa_login_passed'' (Some uid) (Some uid)
                              (note_success on throttle_id (s1\<lparr>ap_db := db\<rparr>))
                   in case create_token v cx user of
                        Inl e \<Rightarrow> (Inl (from_auth_error e), s2)
                      | Inr token \<Rightarrow> (Inr (SignedIn token (session_cookie v token) False), s2))
              | (Inl e, db) \<Rightarrow>
                  (Inl e, log_auth ''mfa_login_failed'' (Some uid) (Some uid)
                            (note_failure cx on throttle_id a l (s1\<lparr>ap_db := db\<rparr>)))))"

definition verify_login :: "auth_env \<Rightarrow> call \<Rightarrow> mfa_verify_request \<Rightarrow> auth_state \<Rightarrow> login_reply answer" where
  "verify_login v cx req s =
     (case require_mfa_enabled v of
        Some e \<Rightarrow> (Inl e, s)
      | None \<Rightarrow>
          (case take_login cx (vq_challenge_token req) s of
             (None, s1) \<Rightarrow> (Inl (Unauthorized ''Unknown or expired challenge_token''), s1)
           | (Some challenge, s1) \<Rightarrow>
               (case account_of (ap_db s1) (lc_user_id challenge) of
                  None \<Rightarrow> (Inl (Unauthorized ''User no longer exists''), s1)
                | Some user \<Rightarrow>
                    if \<not> account_active (ap_db s1) (au_id user)
                    then (Inl (Unauthorized ''Account is not active''), s1)
                    else complete_challenge v cx user challenge req s1)))"

section \<open>Mailed links\<close>

definition RESET_TOKEN_TTL_MINUTES :: int where "RESET_TOKEN_TTL_MINUTES = 60"
definition VERIFICATION_TOKEN_TTL_HOURS :: int where "VERIFICATION_TOKEN_TTL_HOURS = 24"
definition RESET_THROTTLE_ATTEMPTS :: u32 where "RESET_THROTTLE_ATTEMPTS = 3"
definition RESET_THROTTLE_SECONDS :: u32 where "RESET_THROTTLE_SECONDS = 900"

definition hours :: "int \<Rightarrow> duration" where "hours n = seconds (3600 * n)"

definition generate_token :: "auth_env \<Rightarrow> call \<Rightarrow> string \<times> string" where
  "generate_token v cx = (cx_token cx, ax_sha256 v (cx_token cx))"

definition hash_token :: "auth_env \<Rightarrow> string \<Rightarrow> string" where
  "hash_token v plaintext = ax_sha256 v plaintext"

definition stale_claim_cutoff :: "call \<Rightarrow> instant" where
  "stale_claim_cutoff cx = cx_utc cx - hours VERIFICATION_TOKEN_TTL_HOURS"

definition send_mail :: "auth_env \<Rightarrow> string \<Rightarrow> string \<Rightarrow> uuid \<Rightarrow> string \<Rightarrow> auth_state \<Rightarrow> auth_state" where
  "send_mail v to token uid event s =
     log_auth (if ax_mail_sent v to then event else ''email_send_failed'') (Some uid) (Some uid)
       (s\<lparr>ap_outbox := ap_outbox s @ [(to, token)]\<rparr>)"

definition issue_verification_mail_for ::
  "auth_env \<Rightarrow> call \<Rightarrow> uuid \<Rightarrow> uuid option \<Rightarrow> string \<Rightarrow> auth_state \<Rightarrow> auth_state" where
  "issue_verification_mail_for v cx uid email_id address s =
     (if \<not> ag_email_enabled (ax_config v) then s
      else
        (case generate_token v cx of
           (plaintext, digest) \<Rightarrow>
             (case create_email_verification_token uid email_id digest
                     (cx_utc cx + hours VERIFICATION_TOKEN_TTL_HOURS) (cx_utc cx) (ap_db s) of
                (Inl _, db) \<Rightarrow> s\<lparr>ap_db := db\<rparr>
              | (Inr _, db) \<Rightarrow> send_mail v address plaintext uid ''email_verification_sent'' (s\<lparr>ap_db := db\<rparr>))))"

definition issue_verification_mail :: "auth_env \<Rightarrow> call \<Rightarrow> account \<Rightarrow> auth_state \<Rightarrow> auth_state" where
  "issue_verification_mail v cx user s =
     issue_verification_mail_for v cx (au_id user) None (email_of (ap_db s) (au_id user)) s"

definition reset_available :: "auth_config \<Rightarrow> bool" where
  "reset_available c \<longleftrightarrow> ag_password_reset_enabled c \<and> ag_email_enabled c"

definition reset_key :: "string \<Rightarrow> string" where
  "reset_key email = ''password-reset:'' @ to_ascii_lowercase (trim email)"

text \<open>The account a reset link may go to: the holder of a primary or confirmed address.\<close>

definition reset_target :: "auth_db \<Rightarrow> string \<Rightarrow> (account \<times> user_email) option" where
  "reset_target db email =
     Option.bind (find_user_email db (to_ascii_lowercase (trim email))) (\<lambda>row.
       if ue_is_primary row \<or> ue_verified_at row \<noteq> None
       then map_option (\<lambda>user. (user, row)) (account_of db (ue_user_id row)) else None)"

definition password_reset_request :: "auth_env \<Rightarrow> call \<Rightarrow> string \<Rightarrow> auth_state \<Rightarrow> unit answer" where
  "password_reset_request v cx email s =
     (if \<not> reset_available (ax_config v)
      then (Inl (Forbidden ''Password reset is not available on this instance''), s)
      else
        (let key = reset_key email in
         case may_try cx True key RESET_THROTTLE_ATTEMPTS RESET_THROTTLE_SECONDS s of
           (Inl r, s1) \<Rightarrow> (Inl (too_many ''Too many password reset requests. Try again in '' r '' seconds''), s1)
         | (Inr _, s1) \<Rightarrow>
             (let s2 = note_failure cx True key RESET_THROTTLE_ATTEMPTS RESET_THROTTLE_SECONDS s1 in
              case reset_target (ap_db s2) email of
                None \<Rightarrow> (Inr (), log_auth ''password_reset_requested'' None None s2)
              | Some (user, row) \<Rightarrow>
                  (case generate_token v cx of
                     (plaintext, digest) \<Rightarrow>
                       (case create_password_reset_token (au_id user) digest
                               (cx_utc cx + minutes RESET_TOKEN_TTL_MINUTES) (cx_utc cx) (ap_db s2) of
                          (Inl e, db) \<Rightarrow> (Inl (from_database_error e), s2\<lparr>ap_db := db\<rparr>)
                        | (Inr _, db) \<Rightarrow>
                            (Inr (), send_mail v (ue_email row) plaintext (au_id user) ''password_reset_requested''
                                       (s2\<lparr>ap_db := db\<rparr>)))))))"

definition password_change :: "string \<Rightarrow> update_user" where
  "password_change password_hash =
     \<lparr>up_username = None, up_password_hash = Some password_hash, up_full_name = None, up_is_active = None\<rparr>"

definition too_short :: "auth_config \<Rightarrow> string" where
  "too_short c = ''Password must be at least '' @ show_nat (ag_password_min_length c) @ '' characters long''"

definition password_reset_consume :: "auth_env \<Rightarrow> call \<Rightarrow> string \<Rightarrow> string \<Rightarrow> auth_state \<Rightarrow> unit answer" where
  "password_reset_consume v cx token new_password s =
     (let c = ax_config v in
      if \<not> reset_available c
      then (Inl (Forbidden ''Password reset is not available on this instance''), s)
      else if length new_password < ag_password_min_length c then (Inl (ValidationError (too_short c)), s)
      else
        (case claim_password_reset_token (hash_token v (trim token)) (cx_utc cx) (ap_db s) of
           (None, db) \<Rightarrow>
             (Inl (BadRequest ''This password reset link is invalid or has expired. Request a new one.''),
              log_auth ''password_reset_failed'' None None (s\<lparr>ap_db := db\<rparr>))
         | (Some uid, db) \<Rightarrow>
             (case ax_hash v (cx_salt cx) new_password of
                Inl _ \<Rightarrow> (Inl (InternalServerError ''Failed to hash password''), s\<lparr>ap_db := db\<rparr>)
              | Inr h \<Rightarrow>
                  (case update_user_row uid (password_change h) db of
                     (Inl e, db1) \<Rightarrow> (Inl (from_database_error e), s\<lparr>ap_db := db1\<rparr>)
                   | (Inr _, db1) \<Rightarrow>
                       (Inr (), log_auth ''password_reset_completed'' (Some uid) (Some uid) (s\<lparr>ap_db := db1\<rparr>))))))"

definition verify_email :: "auth_env \<Rightarrow> call \<Rightarrow> string \<Rightarrow> auth_state \<Rightarrow> unit answer" where
  "verify_email v cx token s =
     (case claim_email_verification_token (hash_token v (trim token)) (cx_utc cx) (ap_db s) of
        (None, db) \<Rightarrow>
          (Inl (BadRequest ''This confirmation link is invalid or has expired. Ask for a new one.''), s\<lparr>ap_db := db\<rparr>)
      | (Some (uid, email_id), db) \<Rightarrow>
          (case mark_email_verified uid email_id (cx_utc cx) db of
             (Inl e, db1) \<Rightarrow> (Inl (from_database_error e), s\<lparr>ap_db := db1\<rparr>)
           | (Inr _, db1) \<Rightarrow> (Inr (), log_auth ''email_verified'' (Some uid) (Some uid) (s\<lparr>ap_db := db1\<rparr>))))"

definition resend_key :: "string \<Rightarrow> string" where
  "resend_key email = ''email-verify:'' @ to_ascii_lowercase (trim email)"

definition resend_verification :: "auth_env \<Rightarrow> call \<Rightarrow> string \<Rightarrow> auth_state \<Rightarrow> unit answer" where
  "resend_verification v cx email s =
     (if \<not> ag_email_enabled (ax_config v)
      then (Inl (Forbidden ''Email confirmation is not available on this instance''), s)
      else
        (let key = resend_key email in
         case may_try cx True key RESET_THROTTLE_ATTEMPTS RESET_THROTTLE_SECONDS s of
           (Inl r, s1) \<Rightarrow> (Inl (too_many ''Too many confirmation requests. Try again in '' r '' seconds''), s1)
         | (Inr _, s1) \<Rightarrow>
             (let s2 = note_failure cx True key RESET_THROTTLE_ATTEMPTS RESET_THROTTLE_SECONDS s1 in
              (Inr (),
               case find_user_email (ap_db s2) (to_ascii_lowercase (trim email)) of
                 Some row \<Rightarrow>
                   if ue_verified_at row = None
                   then issue_verification_mail_for v cx (ue_user_id row)
                          (if ue_is_primary row then None else Some (ue_id row)) (ue_email row) s2
                   else s2
               | None \<Rightarrow> s2))))"

end
