(* ===== verification/Auth_Accounts.thy ===== *)
theory Auth_Accounts
  imports Auth_Service
begin

text \<open>
  What creates and changes credentials: registration (\<^verbatim>\<open>server/src/api/auth.rs\<close>), the enrolment of
  second factors (\<^verbatim>\<open>server/src/api/mfa.rs\<close>), and the account and address endpoints of
  \<^verbatim>\<open>server/src/api/users.rs\<close>. The caller of an authenticated endpoint is the account its extractor
  answered with.
\<close>

section \<open>Registration\<close>

record register_request =
  rq_username :: string
  rq_email :: string
  rq_password :: string
  rq_full_name :: string
  rq_challenge_phrase :: "string option"
  rq_terms_of_service_accepted :: "bool option"
  rq_recaptcha_token :: "string option"

definition register_key :: "string \<Rightarrow> string" where
  "register_key email = to_ascii_lowercase email"

definition registration_phrase :: "auth_env \<Rightarrow> call \<Rightarrow> register_request \<Rightarrow> auth_state \<Rightarrow> unit answer" where
  "registration_phrase v cx rq s =
     (let c = ag_challenge (ax_config v); key = register_key (rq_email rq);
          on = rg_throttle_enabled c; a = rg_throttle_attempts c; l = rg_throttle_seconds c
      in if \<not> rg_enabled c then (Inr (), s)
         else (case may_try cx on key a l s of
                 (Inl r, s1) \<Rightarrow>
                   (Inl (too_many ''Too many failed registration attempts. Try again in '' r '' seconds''), s1)
               | (Inr _, s1) \<Rightarrow>
                   if unwrap_or (rq_challenge_phrase rq) [] \<noteq> rg_phrase c
                   then (Inl (BadRequest ''Invalid registration phrase''), note_failure cx on key a l s1)
                   else (Inr (), s1)))"

definition registration_recaptcha :: "auth_env \<Rightarrow> call \<Rightarrow> register_request \<Rightarrow> auth_state \<Rightarrow> unit answer" where
  "registration_recaptcha v cx rq s =
     (let c = ag_challenge (ax_config v); token = unwrap_or (rq_recaptcha_token rq) [] in
      if \<not> rg_recaptcha_enabled c then (Inr (), s)
      else if token = [] then (Inl (BadRequest ''reCAPTCHA verification is required''), s)
      else (case ax_recaptcha v token of
              Inr True \<Rightarrow> (Inr (), s)
            | Inr False \<Rightarrow>
                (Inl (BadRequest ''reCAPTCHA verification failed. Please try again.''),
                 note_failure cx (rg_throttle_enabled c) (register_key (rq_email rq)) (rg_throttle_attempts c)
                   (rg_throttle_seconds c) s)
            | Inl _ \<Rightarrow> (Inl (InternalServerError ''reCAPTCHA verification service unavailable''), s)))"

definition registration_invalid :: "auth_env \<Rightarrow> register_request \<Rightarrow> auth_db \<Rightarrow> api_error option" where
  "registration_invalid v rq db =
     (if rq_username rq = [] \<or> rq_email rq = [] \<or> rq_password rq = []
      then Some (BadRequest ''Username, email, and password are required'')
      else if length (rq_password rq) < ag_password_min_length (ax_config v)
      then Some (BadRequest (too_short (ax_config v)))
      else if \<not> str_contains (rq_email rq) ''@'' then Some (BadRequest ''Invalid email format'')
      else if find_user_by_username db (rq_username rq) \<noteq> None then Some (Conflict ''Username already exists'')
      else if find_user_by_email db (rq_email rq) \<noteq> None then Some (Conflict ''Email already exists'')
      else None)"

definition should_grant_admin_role :: "auth_config \<Rightarrow> string \<Rightarrow> bool" where
  "should_grant_admin_role c email \<longleftrightarrow>
     ag_setup_enabled c \<and> to_ascii_lowercase email = to_ascii_lowercase (ag_setup_admin_email c)"

text \<open>After every check has passed: the account, its role, and the confirmation mail.\<close>

definition register_account :: "auth_env \<Rightarrow> call \<Rightarrow> register_request \<Rightarrow> auth_state \<Rightarrow> (account \<times> string) answer" where
  "register_account v cx rq s =
     (let c = ax_config v; rc = ag_challenge c in
      case ax_hash v (cx_salt cx) (rq_password rq) of
        Inl _ \<Rightarrow> (Inl (InternalServerError ''Failed to hash password''), s)
      | Inr h \<Rightarrow>
          (let should_be_admin = should_grant_admin_role c (rq_email rq) \<and> count_active_admins (ad_members (ap_db s)) = 0;
               role = (if should_be_admin then ''admin'' else ''guest'')
           in case create_user (cx_id cx) (cx_row_id cx) (cx_utc cx) (rq_username rq) (rq_email rq) h
                     (rq_full_name rq) role (ap_db s) of
                (Inl e, db) \<Rightarrow> (Inl (from_database_error e), s\<lparr>ap_db := db\<rparr>)
              | (Inr user, db) \<Rightarrow>
                  (let s1 = note_success (rg_enabled rc \<and> rg_throttle_enabled rc) (register_key (rq_email rq))
                              (s\<lparr>ap_db := db\<rparr>);
                       s2 = log_auth ''user_registration'' (Some (au_id user)) None s1
                   in (Inr (user, role), issue_verification_mail v cx user s2))))"

definition register :: "auth_env \<Rightarrow> call \<Rightarrow> register_request \<Rightarrow> auth_state \<Rightarrow> (account \<times> string) answer" where
  "register v cx rq s =
     (if \<not> ag_allow_registration (ax_config v) then (Inl (Forbidden ''User registration is disabled''), s)
      else
        (case registration_phrase v cx rq s of
           (Inl e, s1) \<Rightarrow> (Inl e, s1)
         | (Inr _, s1) \<Rightarrow>
             if rg_terms_of_service_checkbox (ag_challenge (ax_config v)) \<and>
                \<not> unwrap_or (rq_terms_of_service_accepted rq) False
             then (Inl (BadRequest ''You must accept the terms of service to register''), s1)
             else
               (case registration_recaptcha v cx rq s1 of
                  (Inl e, s2) \<Rightarrow> (Inl e, s2)
                | (Inr _, s2) \<Rightarrow>
                    (case registration_invalid v rq (ap_db s2) of
                       Some e \<Rightarrow> (Inl e, s2)
                     | None \<Rightarrow> register_account v cx rq s2))))"

section \<open>Enrolling second factors\<close>

definition totp_label :: "string option \<Rightarrow> string" where
  "totp_label label = (case given_code label of Some l \<Rightarrow> l | None \<Rightarrow> ''Authenticator app'')"

definition totp_setup :: "auth_env \<Rightarrow> call \<Rightarrow> account \<Rightarrow> string option \<Rightarrow> auth_state \<Rightarrow> user_mfa_totp answer" where
  "totp_setup v cx user label s =
     (case require_mfa_enabled v of
        Some e \<Rightarrow> (Inl e, s)
      | None \<Rightarrow>
          if \<not> mf_allow_totp (ax_mfa_service v) then (Inl (Forbidden ''TOTP disabled''), s)
          else if 120 < length (totp_label label)
          then (Inl (BadRequest ''label must be 120 characters or fewer''), s)
          else
            (case begin_totp_setup (cx_row_id cx) (cx_utc cx) (au_id user) (cx_secret cx) (totp_label label) (ap_db s) of
               (row, db) \<Rightarrow>
                 (case ax_totp v (cx_secret cx) (email_of db (au_id user)) of
                    None \<Rightarrow> (Inl (InternalServerError ''failed to build TOTP''), s\<lparr>ap_db := db\<rparr>)
                  | Some _ \<Rightarrow> (Inr row, s\<lparr>ap_db := db\<rparr>))))"

text \<open>Fresh codes, hashed; the first that cannot be hashed ends it.\<close>

fun hash_codes :: "auth_env \<Rightarrow> (uuid \<times> string \<times> string) list \<Rightarrow> (api_error, (uuid \<times> string) list) result" where
  "hash_codes v [] = Inr []"
| "hash_codes v ((i, code, salt) # cs) =
     (case ax_hash v salt code of
        Inl e \<Rightarrow> Inl (InternalServerError (''argon2 hash: Invalid password: '' @ e))
      | Inr h \<Rightarrow> (case hash_codes v cs of Inl e \<Rightarrow> Inl e | Inr hs \<Rightarrow> Inr ((i, h) # hs)))"

definition mint_recovery_codes :: "auth_env \<Rightarrow> call \<Rightarrow> uuid \<Rightarrow> auth_state \<Rightarrow> string list answer" where
  "mint_recovery_codes v cx uid s =
     (case hash_codes v (cx_codes cx) of
        Inl e \<Rightarrow> (Inl e, s)
      | Inr hashes \<Rightarrow>
          (Inr (map (\<lambda>(_, code, _). code) (cx_codes cx)),
           log_auth ''mfa_recovery_codes_regenerated'' (Some uid) (Some uid)
             (s\<lparr>ap_db := replace_user_recovery_codes uid hashes (ap_db s)\<rparr>)))"

definition recovery_regenerate :: "auth_env \<Rightarrow> call \<Rightarrow> account \<Rightarrow> auth_state \<Rightarrow> string list answer" where
  "recovery_regenerate v cx user s =
     (case require_mfa_enabled v of Some e \<Rightarrow> (Inl e, s) | None \<Rightarrow> mint_recovery_codes v cx (au_id user) s)"

definition totp_in_setup :: "auth_db \<Rightarrow> uuid \<Rightarrow> uuid option \<Rightarrow> user_mfa_totp option" where
  "totp_in_setup db uid wanted =
     find (\<lambda>t. is_none_or wanted (\<lambda>w. w = tp_id t)) (filter (\<lambda>t. tp_confirmed_at t = None) (list_user_totp db uid))"

definition totp_confirm ::
  "auth_env \<Rightarrow> call \<Rightarrow> account \<Rightarrow> uuid option \<Rightarrow> string \<Rightarrow> auth_state \<Rightarrow> string list answer" where
  "totp_confirm v cx user wanted code s =
     (case require_mfa_enabled v of
        Some e \<Rightarrow> (Inl e, s)
      | None \<Rightarrow>
          (let uid = au_id user in
           case totp_in_setup (ap_db s) uid wanted of
             None \<Rightarrow> (Inl (BadRequest ''No TOTP setup in progress''), s)
           | Some stored \<Rightarrow>
               if \<not> verify_totp v cx (tp_secret_base32 stored) (email_of (ap_db s) uid) (trim code)
               then (Inl (BadRequest ''Invalid code''), s)
               else
                 (case finalize_totp_confirmation uid (tp_id stored) (cx_utc cx) (ap_db s) of
                    (Inl e, db) \<Rightarrow> (Inl (from_database_error e), s\<lparr>ap_db := db\<rparr>)
                  | (Inr _, db) \<Rightarrow>
                      (case recompute_user_mfa_enrolled uid (cx_utc cx) db of
                         (Inl e, db1) \<Rightarrow> (Inl (from_database_error e), s\<lparr>ap_db := db1\<rparr>)
                       | (Inr _, db1) \<Rightarrow>
                           (case (if au_mfa_enrolled_at user = None
                                  then mint_recovery_codes v cx uid (s\<lparr>ap_db := db1\<rparr>)
                                  else (Inr [], s\<lparr>ap_db := db1\<rparr>)) of
                              (Inl e, s1) \<Rightarrow> (Inl e, s1)
                            | (Inr codes, s1) \<Rightarrow>
                                (Inr codes, log_auth ''mfa_totp_enrolled'' (Some uid) (Some uid) s1))))))"

definition totp_disable :: "call \<Rightarrow> account \<Rightarrow> uuid \<Rightarrow> auth_state \<Rightarrow> unit answer" where
  "totp_disable cx user tid s =
     (let uid = au_id user in
      if \<not> list_ex (\<lambda>t. tp_id t = tid) (list_user_totp (ap_db s) uid)
      then (Inl (NotFound ''No such authenticator''), s)
      else
        (case delete_user_totp uid tid (ap_db s) of
           (Inl e, db) \<Rightarrow> (Inl (from_database_error e), s\<lparr>ap_db := db\<rparr>)
         | (Inr _, db) \<Rightarrow>
             (case recompute_user_mfa_enrolled uid (cx_utc cx) db of
                (Inl e, db1) \<Rightarrow> (Inl (from_database_error e), s\<lparr>ap_db := db1\<rparr>)
              | (Inr _, db1) \<Rightarrow>
                  (Inr (), log_auth ''mfa_totp_disabled'' (Some uid) (Some uid) (s\<lparr>ap_db := db1\<rparr>)))))"

definition webauthn_register_begin ::
  "auth_env \<Rightarrow> call \<Rightarrow> account \<Rightarrow> string \<Rightarrow> auth_state \<Rightarrow> (string \<times> json) answer" where
  "webauthn_register_begin v cx user label s =
     (case require_mfa_enabled v of
        Some e \<Rightarrow> (Inl e, s)
      | None \<Rightarrow>
          if \<not> ax_webauthn v then (Inl (Forbidden ''WebAuthn disabled''), s)
          else if trim label = [] then (Inl (BadRequest ''label is required''), s)
          else
            (case ax_start_registration v (au_id user)
                    (map wa_credential_id (list_user_webauthn (ap_db s) (au_id user))) of
               None \<Rightarrow> (Inl (InternalServerError ''Could not start passkey registration''), s)
             | Some (options, st) \<Rightarrow>
                 (case put_registration cx \<lparr>wr_user_id = au_id user, wr_label = trim label, wr_state = st\<rparr> s of
                    (token, s1) \<Rightarrow> (Inr (token, options), s1))))"

definition webauthn_register_finish ::
  "auth_env \<Rightarrow> call \<Rightarrow> account \<Rightarrow> string \<Rightarrow> json \<Rightarrow> auth_state \<Rightarrow> uuid answer" where
  "webauthn_register_finish v cx user challenge_token response s =
     (case require_mfa_enabled v of
        Some e \<Rightarrow> (Inl e, s)
      | None \<Rightarrow>
          if \<not> ax_webauthn v then (Inl (Forbidden ''WebAuthn disabled''), s)
          else
            (case take_registration cx challenge_token s of
               (None, s1) \<Rightarrow> (Inl (BadRequest ''Unknown or expired challenge_token''), s1)
             | (Some pending, s1) \<Rightarrow>
                 if wr_user_id pending \<noteq> au_id user
                 then (Inl (Forbidden ''challenge_token does not belong to this user''), s1)
                 else
                   (case ax_parse_credential v response of
                      Inl e \<Rightarrow> (Inl (BadRequest (''Invalid WebAuthn response: '' @ e)), s1)
                    | Inr cred \<Rightarrow>
                        (case ax_finish_registration v cred (wr_state pending) of
                           Inl e \<Rightarrow> (Inl (BadRequest (''WebAuthn registration rejected: '' @ e)), s1)
                         | Inr (cred_id, passkey) \<Rightarrow>
                             (case insert_user_webauthn
                                     \<lparr>wa_id = cx_row_id cx, wa_user_id = au_id user, wa_credential_id = cred_id,
                                      wa_passkey = passkey, wa_label = wr_label pending, wa_created_at = cx_utc cx,
                                      wa_last_used_at = None\<rparr> (ap_db s1) of
                                (Inl e, db) \<Rightarrow> (Inl (from_database_error e), s1\<lparr>ap_db := db\<rparr>)
                              | (Inr stored, db) \<Rightarrow>
                                  (case recompute_user_mfa_enrolled (au_id user) (cx_utc cx) db of
                                     (Inl e, db1) \<Rightarrow> (Inl (from_database_error e), s1\<lparr>ap_db := db1\<rparr>)
                                   | (Inr _, db1) \<Rightarrow>
                                       (Inr (wa_id stored),
                                        log_auth ''mfa_webauthn_registered'' (Some (au_id user)) (Some (au_id user))
                                          (s1\<lparr>ap_db := db1\<rparr>))))))))"

definition webauthn_remove :: "call \<Rightarrow> account \<Rightarrow> uuid \<Rightarrow> auth_state \<Rightarrow> unit answer" where
  "webauthn_remove cx user row_id s =
     (case delete_user_webauthn (au_id user) row_id (ap_db s) of
        (deleted, db) \<Rightarrow>
          if deleted = 0 then (Inl (NotFound ''Credential not found''), s\<lparr>ap_db := db\<rparr>)
          else (case recompute_user_mfa_enrolled (au_id user) (cx_utc cx) db of
                  (Inl e, db1) \<Rightarrow> (Inl (from_database_error e), s\<lparr>ap_db := db1\<rparr>)
                | (Inr _, db1) \<Rightarrow>
                    (Inr (), log_auth ''mfa_webauthn_removed'' (Some (au_id user)) (Some (au_id user))
                               (s\<lparr>ap_db := db1\<rparr>))))"

section \<open>Accounts\<close>

record update_user_request =
  uq_username :: "string option"
  uq_email :: "string option"
  uq_full_name :: "string option"
  uq_password :: "string option"
  uq_current_password :: "string option"
  uq_is_active :: "bool option"
  uq_role :: "string option"

definition manages :: "auth_db \<Rightarrow> uuid \<Rightarrow> bool" where
  "manages db uid \<longleftrightarrow> user_has_permission (ad_members db) uid ''users.manage''"

definition at_or_above :: "auth_db \<Rightarrow> uuid \<Rightarrow> uuid \<Rightarrow> bool" where
  "at_or_above db target caller \<longleftrightarrow>
     user_effective_level (ad_members db) caller \<le> user_effective_level (ad_members db) target"

definition right_password :: "auth_env \<Rightarrow> account \<Rightarrow> string option \<Rightarrow> bool" where
  "right_password v user current = is_some_and current (\<lambda>c. verify_recovery_code v c (au_password_hash user))"

text \<open>Who may make this change: every refusal before the request's values are looked at.\<close>

definition update_refused ::
  "auth_env \<Rightarrow> account \<Rightarrow> uuid \<Rightarrow> update_user_request \<Rightarrow> auth_db \<Rightarrow> (api_error, account) result" where
  "update_refused v caller uid rq db =
     (let me = au_id caller in
      if me \<noteq> uid \<and> \<not> manages db me then Inl (Forbidden ''You can only update your own profile'')
      else if \<not> manages db me \<and> (uq_is_active rq \<noteq> None \<or> uq_role rq \<noteq> None)
      then Inl (Forbidden ''You cannot modify account status or role'')
      else if is_some_and (uq_role rq) (\<lambda>r. r \<notin> set tiers)
      then Inl (BadRequest (''unknown role: '' @ the (uq_role rq)))
      else if uq_role rq = Some ''admin'' \<and> \<not> user_has_permission (ad_members db) me ''admin.access''
      then Inl (Forbidden ''Only admins can assign admin role'')
      else (case account_of db uid of
              None \<Rightarrow> Inl (NotFound ''User not found'')
            | Some existing \<Rightarrow>
                if me \<noteq> uid \<and> at_or_above db uid me
                then Inl (Forbidden ''You cannot modify a user at or above your own access level'')
                else if me = uid \<and>
                        (uq_password rq \<noteq> None \<or> is_some_and (uq_email rq) (\<lambda>e. e \<noteq> email_of db uid)) \<and>
                        \<not> right_password v existing (uq_current_password rq)
                then Inl (BadRequest ''Current password is incorrect'')
                else Inr existing))"

definition new_password_hash ::
  "auth_env \<Rightarrow> call \<Rightarrow> string option \<Rightarrow> (api_error, string option) result" where
  "new_password_hash v cx password =
     (case password of
        None \<Rightarrow> Inr None
      | Some p \<Rightarrow>
          if length p < ag_password_min_length (ax_config v) then Inl (BadRequest (too_short (ax_config v)))
          else (case ax_hash v (cx_salt cx) p of
                  Inl _ \<Rightarrow> Inl (InternalServerError ''Failed to hash password'')
                | Inr h \<Rightarrow> Inr (Some h)))"

definition update_invalid ::
  "account \<Rightarrow> string option \<Rightarrow> string option \<Rightarrow> auth_db \<Rightarrow> api_error option" where
  "update_invalid existing new_primary username db =
     (if is_some_and new_primary (\<lambda>e. \<not> str_contains e ''@'') then Some (BadRequest ''Invalid email format'')
      else if is_some_and new_primary (\<lambda>e. find_user_by_email db e \<noteq> None)
      then Some (Conflict ''Email already exists'')
      else if is_some_and username (\<lambda>n. n \<noteq> au_username existing \<and> n = [])
      then Some (BadRequest ''Username cannot be empty'')
      else if is_some_and username (\<lambda>n. n \<noteq> au_username existing \<and> find_user_by_username db n \<noteq> None)
      then Some (Conflict ''Username already exists'')
      else None)"

definition email_conflict :: "database_error \<Rightarrow> api_error" where
  "email_conflict e =
     (case e of
        Diesel (DieselDatabase diesel_kind.UniqueViolation _) _ \<Rightarrow> Conflict ''Email already exists''
      | other \<Rightarrow> from_database_error other)"

text \<open>The row is written first; then the address, in a transaction of its own; then its link is mailed.\<close>

definition change_primary ::
  "auth_env \<Rightarrow> call \<Rightarrow> uuid \<Rightarrow> string \<Rightarrow> auth_state \<Rightarrow> unit answer" where
  "change_primary v cx uid email s =
     (case replace_primary_user_email (cx_row_id cx) (cx_utc cx) uid email (stale_claim_cutoff cx) (ap_db s) of
        (Inl e, db) \<Rightarrow> (Inl (email_conflict e), s\<lparr>ap_db := db\<rparr>)
      | (Inr row, db) \<Rightarrow> (Inr (), issue_verification_mail_for v cx uid None (ue_email row) (s\<lparr>ap_db := db\<rparr>)))"

definition update_account ::
  "auth_env \<Rightarrow> call \<Rightarrow> account \<Rightarrow> uuid \<Rightarrow> update_user_request \<Rightarrow> auth_state \<Rightarrow> unit answer" where
  "update_account v cx caller uid rq s =
     (case update_refused v caller uid rq (ap_db s) of
        Inl e \<Rightarrow> (Inl e, s)
      | Inr existing \<Rightarrow>
          (case new_password_hash v cx (uq_password rq) of
             Inl e \<Rightarrow> (Inl e, s)
           | Inr password_hash \<Rightarrow>
               (let new_primary = (if uq_email rq = Some (email_of (ap_db s) uid) then None else uq_email rq) in
                case update_invalid existing new_primary (uq_username rq) (ap_db s) of
                  Some e \<Rightarrow> (Inl e, s)
                | None \<Rightarrow>
                    (case update_user_row uid
                            \<lparr>up_username = uq_username rq, up_password_hash = password_hash,
                             up_full_name = uq_full_name rq, up_is_active = uq_is_active rq\<rparr> (ap_db s) of
                       (Inl e, db) \<Rightarrow> (Inl (from_database_error e), s\<lparr>ap_db := db\<rparr>)
                     | (Inr _, db) \<Rightarrow>
                         (case (case new_primary of
                                  None \<Rightarrow> (Inr (), s\<lparr>ap_db := db\<rparr>)
                                | Some email \<Rightarrow> change_primary v cx uid email (s\<lparr>ap_db := db\<rparr>)) of
                            (Inl e, s1) \<Rightarrow> (Inl e, s1)
                          | (Inr _, s1) \<Rightarrow>
                              (let s2 = (case uq_role rq of
                                           None \<Rightarrow> s1
                                         | Some r \<Rightarrow> s1\<lparr>ap_db := (ap_db s1)\<lparr>ad_members :=
                                             set_user_primary_role uid r (ad_members (ap_db s1))\<rparr>\<rparr>);
                                   s3 = (if new_primary = None then s2
                                         else log_auth ''user_email_change'' (Some uid) (Some (au_id caller)) s2)
                               in (Inr (), s3)))))))"

definition change_own_password ::
  "auth_env \<Rightarrow> call \<Rightarrow> account \<Rightarrow> string \<Rightarrow> string \<Rightarrow> auth_state \<Rightarrow> unit answer" where
  "change_own_password v cx user current_password new_password s =
     (if \<not> verify_recovery_code v current_password (au_password_hash user)
      then (Inl (BadRequest ''Current password is incorrect''), s)
      else if length new_password < ag_password_min_length (ax_config v)
      then (Inl (BadRequest (too_short (ax_config v))), s)
      else (case ax_hash v (cx_salt cx) new_password of
              Inl _ \<Rightarrow> (Inl (InternalServerError ''Failed to hash password''), s)
            | Inr h \<Rightarrow>
                (case update_user_row (au_id user) (password_change h) (ap_db s) of
                   (Inl e, db) \<Rightarrow> (Inl (from_database_error e), s\<lparr>ap_db := db\<rparr>)
                 | (Inr _, db) \<Rightarrow>
                     (Inr (), log_auth ''user_password_change'' (Some (au_id user)) (Some (au_id user))
                                (s\<lparr>ap_db := db\<rparr>)))))"

section \<open>Addresses of an account\<close>

definition email_manager :: "account \<Rightarrow> uuid \<Rightarrow> auth_db \<Rightarrow> (api_error, bool) result" where
  "email_manager caller uid db =
     (if au_id caller = uid then Inr True
      else if \<not> manages db (au_id caller) then Inl (Forbidden ''You can only manage your own email addresses'')
      else if at_or_above db uid (au_id caller)
      then Inl (Forbidden ''You cannot modify a user at or above your own access level'')
      else Inr False)"

definition require_current_password :: "auth_env \<Rightarrow> bool \<Rightarrow> account \<Rightarrow> string option \<Rightarrow> api_error option" where
  "require_current_password v is_self caller current =
     (if \<not> is_self then None
      else if right_password v caller current then None
      else Some (BadRequest ''Current password is incorrect''))"

definition add_email_error :: "database_error \<Rightarrow> api_error" where
  "add_email_error e =
     (case e of
        Diesel (DieselDatabase diesel_kind.UniqueViolation _) _ \<Rightarrow> Conflict ''Email already exists''
      | Diesel (DieselDatabase ForeignKeyViolation _) _ \<Rightarrow> NotFound ''User not found''
      | other \<Rightarrow> from_database_error other)"

definition add_user_email ::
  "auth_env \<Rightarrow> call \<Rightarrow> account \<Rightarrow> uuid \<Rightarrow> string \<Rightarrow> string option \<Rightarrow> auth_state \<Rightarrow> user_email answer" where
  "add_user_email v cx caller uid email current s =
     (case email_manager caller uid (ap_db s) of
        Inl e \<Rightarrow> (Inl e, s)
      | Inr is_self \<Rightarrow>
          (case require_current_password v is_self caller current of
             Some e \<Rightarrow> (Inl e, s)
           | None \<Rightarrow>
               (let address = trim email in
                if \<not> str_contains address ''@'' then (Inl (BadRequest ''Invalid email format''), s)
                else if find_user_by_email (ap_db s) address \<noteq> None then (Inl (Conflict ''Email already exists''), s)
                else
                  (case add_user_email_row (cx_row_id cx) (cx_utc cx) uid address (stale_claim_cutoff cx) (ap_db s) of
                     (Inl e, db) \<Rightarrow> (Inl (add_email_error e), s\<lparr>ap_db := db\<rparr>)
                   | (Inr row, db) \<Rightarrow>
                       (Inr row,
                        issue_verification_mail_for v cx uid (Some (ue_id row)) (ue_email row)
                          (log_auth ''user_email_added'' (Some uid) (Some (au_id caller)) (s\<lparr>ap_db := db\<rparr>)))))))"

definition remove_user_email :: "account \<Rightarrow> uuid \<Rightarrow> uuid \<Rightarrow> auth_state \<Rightarrow> unit answer" where
  "remove_user_email caller uid email_id s =
     (case email_manager caller uid (ap_db s) of
        Inl e \<Rightarrow> (Inl e, s)
      | Inr _ \<Rightarrow>
          (case get_user_email (ap_db s) uid email_id of
             None \<Rightarrow> (Inl (NotFound ''Email address not found''), s)
           | Some row \<Rightarrow>
               if ue_is_primary row
               then (Inl (BadRequest ''The primary address cannot be removed; make another address primary first''), s)
               else (case remove_user_email_row uid email_id (ap_db s) of
                       (Inl e, db) \<Rightarrow> (Inl (from_database_error e), s\<lparr>ap_db := db\<rparr>)
                     | (Inr _, db) \<Rightarrow>
                         (Inr (), log_auth ''user_email_removed'' (Some uid) (Some (au_id caller)) (s\<lparr>ap_db := db\<rparr>)))))"

definition set_primary_user_email ::
  "auth_env \<Rightarrow> account \<Rightarrow> uuid \<Rightarrow> uuid \<Rightarrow> string option \<Rightarrow> auth_state \<Rightarrow> user_email list answer" where
  "set_primary_user_email v caller uid email_id current s =
     (case email_manager caller uid (ap_db s) of
        Inl e \<Rightarrow> (Inl e, s)
      | Inr is_self \<Rightarrow>
          (case require_current_password v is_self caller current of
             Some e \<Rightarrow> (Inl e, s)
           | None \<Rightarrow>
               (case get_user_email (ap_db s) uid email_id of
                  None \<Rightarrow> (Inl (NotFound ''Email address not found''), s)
                | Some row \<Rightarrow>
                    if ue_is_primary row then (Inl (BadRequest ''That address is already the primary''), s)
                    else if ue_verified_at row = None
                    then (Inl (BadRequest ''An address must be confirmed before it can become the primary''), s)
                    else (case set_primary_user_email_row uid email_id (ap_db s) of
                            (Inl e, db) \<Rightarrow> (Inl (from_database_error e), s\<lparr>ap_db := db\<rparr>)
                          | (Inr _, db) \<Rightarrow>
                              (Inr (list_user_emails db uid),
                               log_auth ''user_email_change'' (Some uid) (Some (au_id caller)) (s\<lparr>ap_db := db\<rparr>))))))"

definition resend_user_email ::
  "auth_env \<Rightarrow> call \<Rightarrow> account \<Rightarrow> uuid \<Rightarrow> uuid \<Rightarrow> auth_state \<Rightarrow> unit answer" where
  "resend_user_email v cx caller uid email_id s =
     (case email_manager caller uid (ap_db s) of
        Inl e \<Rightarrow> (Inl e, s)
      | Inr _ \<Rightarrow>
          (case get_user_email (ap_db s) uid email_id of
             None \<Rightarrow> (Inl (NotFound ''Email address not found''), s)
           | Some row \<Rightarrow>
               if ue_verified_at row \<noteq> None then (Inl (BadRequest ''That address is already confirmed''), s)
               else (Inr (), issue_verification_mail_for v cx uid
                       (if ue_is_primary row then None else Some (ue_id row)) (ue_email row) s)))"

end
