(* ===== verification/Auth_Api.thy ===== *)
theory Auth_Api
  imports Auth_Accounts
begin

text \<open>
  The authentication endpoints as one transition system: \<open>auth_step\<close> is the effect of a request, with
  what it draws and when it arrives, on the state. A request of a signed-in caller carries its two
  headers and takes effect only if the extractor accepts them.
\<close>

datatype user_action =
    UUpdate uuid update_user_request
  | UChangePassword string string
  | UAddEmail uuid string "string option"
  | URemoveEmail uuid uuid
  | USetPrimary uuid uuid "string option"
  | UResendEmail uuid uuid
  | UTotpSetup "string option"
  | UTotpConfirm "uuid option" string
  | UTotpDisable uuid
  | UWebauthnBegin string
  | UWebauthnFinish string json
  | UWebauthnRemove uuid
  | URecoveryCodes

datatype auth_request =
    RRegister register_request
  | RLogin string string
  | RVerifyMfa mfa_verify_request
  | RResetRequest string
  | RResetConsume string string
  | RVerifyEmail string
  | RResend string
  | RAs "string option" "string option" user_action

fun user_step :: "auth_env \<Rightarrow> call \<Rightarrow> account \<Rightarrow> user_action \<Rightarrow> auth_state \<Rightarrow> auth_state" where
  "user_step v cx me (UUpdate uid rq) s = snd (update_account v cx me uid rq s)"
| "user_step v cx me (UChangePassword cur new) s = snd (change_own_password v cx me cur new s)"
| "user_step v cx me (UAddEmail uid email cur) s = snd (add_user_email v cx me uid email cur s)"
| "user_step v cx me (URemoveEmail uid eid) s = snd (remove_user_email me uid eid s)"
| "user_step v cx me (USetPrimary uid eid cur) s = snd (set_primary_user_email v me uid eid cur s)"
| "user_step v cx me (UResendEmail uid eid) s = snd (resend_user_email v cx me uid eid s)"
| "user_step v cx me (UTotpSetup label) s = snd (totp_setup v cx me label s)"
| "user_step v cx me (UTotpConfirm wanted code) s = snd (totp_confirm v cx me wanted code s)"
| "user_step v cx me (UTotpDisable tid) s = snd (totp_disable cx me tid s)"
| "user_step v cx me (UWebauthnBegin label) s = snd (webauthn_register_begin v cx me label s)"
| "user_step v cx me (UWebauthnFinish token r) s = snd (webauthn_register_finish v cx me token r s)"
| "user_step v cx me (UWebauthnRemove wid) s = snd (webauthn_remove cx me wid s)"
| "user_step v cx me URecoveryCodes s = snd (recovery_regenerate v cx me s)"

fun auth_step :: "auth_env \<Rightarrow> call \<times> auth_request \<Rightarrow> auth_state \<Rightarrow> auth_state" where
  "auth_step v (cx, RRegister rq) s = snd (register v cx rq s)"
| "auth_step v (cx, RLogin ident pw) s = snd (login v cx ident pw s)"
| "auth_step v (cx, RVerifyMfa rq) s = snd (verify_login v cx rq s)"
| "auth_step v (cx, RResetRequest email) s = snd (password_reset_request v cx email s)"
| "auth_step v (cx, RResetConsume token pw) s = snd (password_reset_consume v cx token pw s)"
| "auth_step v (cx, RVerifyEmail token) s = snd (verify_email v cx token s)"
| "auth_step v (cx, RResend email) s = snd (resend_verification v cx email s)"
| "auth_step v (cx, RAs cookie bearer act) s =
     (case auth_user v cx cookie bearer (ap_db s) of
        Inl _ \<Rightarrow> s
      | Inr me \<Rightarrow> user_step v cx me act s)"

section \<open>What an operation leaves alone\<close>

lemma log_frame [simp]:
  "ap_throttle (log_auth e u a s) = ap_throttle s" "ap_challenges (log_auth e u a s) = ap_challenges s"
  "ap_outbox (log_auth e u a s) = ap_outbox s"
  by (simp_all add: log_auth_def)

lemma note_frame [simp]:
  "ap_db (note_failure cx b k m l s) = ap_db s" "ap_db (note_success b k s) = ap_db s"
  "ap_challenges (note_failure cx b k m l s) = ap_challenges s" "ap_challenges (note_success b k s) = ap_challenges s"
  "ap_outbox (note_failure cx b k m l s) = ap_outbox s" "ap_outbox (note_success b k s) = ap_outbox s"
  by (simp_all add: note_failure_def note_success_def)

lemma may_try_frame:
  assumes "may_try cx b k m l s = (r, s')"
  shows "ap_db s' = ap_db s" "ap_challenges s' = ap_challenges s" "ap_outbox s' = ap_outbox s"
  using assms by (auto simp: may_try_def split: if_splits prod.splits)

lemma mail_throttle [simp]:
  "ap_throttle (send_mail v to t u e s) = ap_throttle s"
  "ap_throttle (issue_verification_mail_for v cx uid eid addr s) = ap_throttle s"
  "ap_throttle (issue_verification_mail v cx me s) = ap_throttle s"
  by (simp_all add: send_mail_def issue_verification_mail_def issue_verification_mail_for_def split: prod.split sum.split)

lemma put_throttle [simp]:
  "ap_throttle (snd (put_login cx c s)) = ap_throttle s"
  "ap_throttle (snd (put_registration cx r s)) = ap_throttle s"
  by (simp_all add: put_login_def put_registration_def)

lemma take_throttle:
  "take_login cx t s = (x, s') \<Longrightarrow> ap_throttle s' = ap_throttle s"
  "take_registration cx t s = (y, s') \<Longrightarrow> ap_throttle s' = ap_throttle s"
  by (auto simp: take_login_def take_registration_def split: prod.splits)

lemma change_primary_throttle [simp]: "ap_throttle (snd (change_primary v cx uid email s)) = ap_throttle s"
  by (simp add: change_primary_def split: prod.split sum.split)

lemma mint_throttle [simp]: "ap_throttle (snd (mint_recovery_codes v cx uid s)) = ap_throttle s"
  by (simp add: mint_recovery_codes_def split: sum.split)

lemma finish_login_throttle [simp]: "ap_throttle (snd (finish_login v cx u s)) = ap_throttle s"
  by (auto simp: finish_login_def build_login_challenge_def put_login_def Let_def split: prod.split sum.split)

lemma update_throttle: "ap_throttle (snd (update_account v cx me uid rq s)) = ap_throttle s"
proof -
  have c: "change_primary v cx uid e t = (r, t') \<Longrightarrow> ap_throttle t' = ap_throttle t" for e t r t'
    using change_primary_throttle [of v cx uid e t] by simp
  show ?thesis
    by (auto simp: update_account_def Let_def split: prod.split sum.split option.split dest: c)
qed

lemma user_step_throttle [simp]: "ap_throttle (user_step v cx me act s) = ap_throttle s"
proof (cases act)
  case (UUpdate uid rq)
  then show ?thesis by (simp add: update_throttle)
next
  case (UTotpConfirm w c)
  have m: "mint_recovery_codes v cx uid t = (r, t') \<Longrightarrow> ap_throttle t' = ap_throttle t" for uid t r t'
    using mint_throttle [of v cx uid t] by simp
  show ?thesis
    by (auto simp: UTotpConfirm totp_confirm_def Let_def split: prod.split sum.split option.split dest: m)
next
  case (UWebauthnFinish t r)
  then show ?thesis
    by (auto simp: webauthn_register_finish_def split: prod.split sum.split option.split dest: take_throttle)
qed (auto simp: change_own_password_def add_user_email_def remove_user_email_def set_primary_user_email_def
      resend_user_email_def totp_setup_def totp_disable_def webauthn_register_begin_def put_registration_def
      webauthn_remove_def recovery_regenerate_def Let_def split: prod.split sum.split option.split)

lemma as_user_throttle [simp]: "ap_throttle (auth_step v (cx, RAs c b act) s) = ap_throttle s"
  by (simp split: sum.split)

lemma unthrottled_steps [simp]:
  "ap_throttle (snd (password_reset_consume v cx token pw s)) = ap_throttle s"
  "ap_throttle (snd (verify_email v cx token s)) = ap_throttle s"
  by (auto simp: password_reset_consume_def verify_email_def Let_def split: prod.split sum.split option.split)

section \<open>A small deployment\<close>

text \<open>The level of a user as the code computes it, by evaluation.\<close>

lemma effective_level_code [code]:
  "effective_level g roles =
     (let ls = (\<lambda>r. the (map_of (level g) r)) ` Set.filter (\<lambda>r. map_of (level g) r \<noteq> None) (closure g roles)
      in if ls = {} then 0 else Max ls)"
proof -
  have "{l. \<exists>r \<in> closure g roles. map_of (level g) r = Some l} =
      (\<lambda>r. the (map_of (level g) r)) ` Set.filter (\<lambda>r. map_of (level g) r \<noteq> None) (closure g roles)"
    by force
  then show ?thesis by (simp add: effective_level_def)
qed


text \<open>
  One account, with toy libraries, for evaluating the theorems on concrete requests: a digest or a hash
  marks its input, a code is the secret followed by the time step, and the two session tokens the
  deployment can mint are the two epochs of the account.
\<close>

definition demo_claims :: "int \<Rightarrow> int \<Rightarrow> claims" where
  "demo_claims iat n = \<lparr>cl_sub = ''u1'', cl_exp = iat + 3600, cl_iat = iat, cl_user_id = 1, cl_username = ''alice'',
     cl_token_version = n\<rparr>"

definition demo_auth :: auth_env where
  "demo_auth =
     \<lparr>ax_config =
        \<lparr>ag_jwt_secret = ''k'', ag_jwt_expiration_hours = 1, ag_allow_registration = True,
         ag_require_email_verification = True, ag_password_min_length = 4, ag_password_reset_enabled = True,
         ag_login_throttle_enabled = True, ag_login_throttle_attempts = 2, ag_login_throttle_seconds = 60,
         ag_cookie_secure = True,
         ag_mfa = \<lparr>mf_enabled = True, mf_enforcement = OptIn, mf_allow_totp = True\<rparr>,
         ag_challenge = \<lparr>rg_enabled = True, rg_phrase = ''open'', rg_throttle_enabled = True,
           rg_throttle_attempts = 2, rg_throttle_seconds = 300, rg_terms_of_service_checkbox = False,
           rg_recaptcha_enabled = False\<rparr>,
         ag_setup_enabled = False, ag_setup_admin_email = [], ag_email_enabled = True\<rparr>,
      ax_mfa_service = \<lparr>mf_enabled = True, mf_enforcement = OptIn, mf_allow_totp = True\<rparr>,
      ax_text = \<lparr>uuid_show = (\<lambda>u. ''u'' @ show_nat u), uuid_parse = (\<lambda>_. None), parse_rfc3339 = (\<lambda>_. None)\<rparr>,
      ax_hash = (\<lambda>salt p. Inr (''h'' @ p)),
      ax_verify = (\<lambda>p h. Inr (h = ''h'' @ p)),
      ax_sha256 = (\<lambda>t. ''d'' @ t),
      ax_encode = (\<lambda>_ c. if cl_iat c = 1000 \<and> cl_token_version c \<in> {0, 1} \<and> c = demo_claims 1000 (cl_token_version c)
                         then Some (if cl_token_version c = 0 then ''t0'' else ''t1'') else None),
      ax_decode = (\<lambda>_ now t. if 4600000000000 < now then None
                            else if t = ''t0'' then Some (demo_claims 1000 0)
                            else if t = ''t1'' then Some (demo_claims 1000 1) else None),
      ax_totp = (\<lambda>secret _. Some (\<lambda>time. secret @ show_nat (time div 30))),
      ax_check_current = (\<lambda>secret _ now code. code = secret @ show_nat (nat (now div 30000000000))),
      ax_recaptcha = (\<lambda>_. Inr True),
      ax_mail_sent = (\<lambda>_. True),
      ax_webauthn = False,
      ax_passkey = (\<lambda>_. None),
      ax_start_auth = (\<lambda>_. None),
      ax_parse_credential = (\<lambda>_. Inl []),
      ax_finish_auth = (\<lambda>_ _. None),
      ax_start_registration = (\<lambda>_ _. None),
      ax_finish_registration = (\<lambda>_ _. Inl [])\<rparr>"

definition demo_call :: "int \<Rightarrow> call" where
  "demo_call t = \<lparr>cx_inst = seconds t, cx_utc = seconds t, cx_id = 90, cx_row_id = 91, cx_token = ''tok'' @ show_int t,
     cx_salt = [], cx_secret = ''s'', cx_codes = []\<rparr>"

definition demo_accounts :: auth_db where
  "demo_accounts =
     \<lparr>ad_members = \<lparr>m_ledger = [], m_users = [\<lparr>mb_id = 1, mb_is_active = True, membership_next_due_at = None\<rparr>],
        m_user_roles = [], m_roles = [],
        m_graph = \<lparr>own_perms = [], inherits = [], level = [], by_name = []\<rparr>\<rparr>,
      ad_accounts = [\<lparr>au_id = 1, au_username = ''alice'', au_password_hash = ''hpass'', au_full_name = ''Alice'',
        au_mfa_enrolled_at = None, au_token_version = 0\<rparr>],
      ad_emails = [\<lparr>ue_id = 11, ue_user_id = 1, ue_email = ''a@x.org'', ue_is_primary = True,
        ue_verified_at = Some 0, ue_created_at = 0\<rparr>],
      ad_resets = [], ad_verifications = [], ad_totp = [], ad_webauthn = [], ad_recovery = [], ad_audit = []\<rparr>"

definition demo_site :: auth_state where
  "demo_site = \<lparr>ap_db = demo_accounts, ap_throttle = (\<lambda>_. None), ap_challenges = (\<lambda>_. None), ap_outbox = []\<rparr>"

lemmas demo_site_defs = demo_site_def demo_accounts_def demo_auth_def demo_call_def demo_claims_def

end
