(* ===== verification/Auth_Throttle.thy ===== *)
theory Auth_Throttle
  imports Auth_Api
begin

text \<open>
  What the throttle guarantees of the authentication endpoints, and what it does not: the passwords and second
  factors that are tried are rationed by an interpretation of \<open>guess_limited\<close> on \<open>auth_step\<close>;
  the counters of one endpoint reach those of another through a shared key and through the sweep.
\<close>

section \<open>Guesses\<close>

datatype guess_kind = Password string | Code uuid

fun guess_key :: "auth_env \<Rightarrow> guess_kind \<Rightarrow> string" where
  "guess_key v (Password ident) = login_key ident"
| "guess_key v (Code uid) = mfa_key v uid"

text \<open>The lockouts in use, at their shortest.\<close>

definition shortest_lockout :: "auth_env \<Rightarrow> duration" where
  "shortest_lockout v =
     min (secs (ag_login_throttle_seconds (ax_config v)))
       (min (secs (rg_throttle_seconds (ag_challenge (ax_config v)))) (secs RESET_THROTTLE_SECONDS))"

text \<open>The account whose second factor a request is about to test, if it gets that far.\<close>

definition challenged :: "auth_env \<Rightarrow> call \<Rightarrow> mfa_verify_request \<Rightarrow> auth_state \<Rightarrow> (account \<times> login_challenge \<times> auth_state) option" where
  "challenged v cx rq s =
     (if require_mfa_enabled v \<noteq> None then None
      else (case take_login cx (vq_challenge_token rq) s of
              (None, s1) \<Rightarrow> None
            | (Some ch, s1) \<Rightarrow>
                (case account_of (ap_db s1) (lc_user_id ch) of
                   None \<Rightarrow> None
                 | Some user \<Rightarrow> if account_active (ap_db s1) (au_id user) then Some (user, ch, s1) else None)))"

text \<open>An answer that refuses the request for its frequency.\<close>

definition throttled :: "(api_error, 'a) result \<Rightarrow> bool" where
  "throttled r \<longleftrightarrow> (case r of Inl (TooManyRequests _) \<Rightarrow> True | _ \<Rightarrow> False)"

text \<open>
  A guess that the endpoint tests: a sign-in for the identity, or a second step for the account of its
  challenge, that is answered by anything else than a refusal for its frequency. And a success that wipes the
  counter: such a guess that is right, or a registration under the same key.
\<close>

fun tested :: "auth_env \<Rightarrow> guess_kind \<Rightarrow> call \<times> auth_request \<Rightarrow> auth_state \<Rightarrow> bool" where
  "tested v (Password p) (cx, RLogin ident pw) s \<longleftrightarrow>
     login_key ident = login_key p \<and> ident \<noteq> [] \<and> pw \<noteq> [] \<and> \<not> throttled (fst (login v cx ident pw s))"
| "tested v (Code uid) (cx, RVerifyMfa rq) s \<longleftrightarrow>
     is_some_and (challenged v cx rq s) (\<lambda>(user, _). au_id user = uid) \<and> \<not> throttled (fst (verify_login v cx rq s))"
| "tested v _ _ s \<longleftrightarrow> False"

fun wipes :: "auth_env \<Rightarrow> guess_kind \<Rightarrow> call \<times> auth_request \<Rightarrow> auth_state \<Rightarrow> bool" where
  "wipes v g (cx, RLogin ident pw) s \<longleftrightarrow>
     login_key ident = guess_key v g \<and> ident \<noteq> [] \<and> pw \<noteq> [] \<and> \<not> throttled (fst (login v cx ident pw s)) \<and>
     \<not> isl (authenticate_user v ident pw (ap_db s))"
| "wipes v g (cx, RVerifyMfa rq) s \<longleftrightarrow>
     is_some_and (challenged v cx rq s) (\<lambda>(user, ch, s1). mfa_key v (au_id user) = guess_key v g \<and>
        \<not> throttled (fst (verify_login v cx rq s)) \<and> \<not> isl (fst (second_factor v cx user ch rq (ap_db s1))))"
| "wipes v g (cx, RRegister rq) s \<longleftrightarrow>
     register_key (rq_email rq) = guess_key v g \<and> \<not> isl (fst (register v cx rq s))"
| "wipes v g _ s \<longleftrightarrow> False"

section \<open>Every request keeps the window\<close>

lemma window_may_try:
  assumes "may_try cx b j a l s = (r, s')" "window k t0 w n (ap_throttle s)" "t0 \<le> cx_inst cx"
    "cx_inst cx < t0 + w" "w \<le> secs l"
  shows "window k t0 w n (ap_throttle s')"
  using assms window_check [OF assms(2-5), of j a] by (auto simp: may_try_def split: if_splits prod.splits)

lemma window_note_failure:
  "window k t0 w n (ap_throttle s) \<Longrightarrow> t0 \<le> cx_inst cx \<Longrightarrow> w \<le> secs l \<Longrightarrow>
   window k t0 w n (ap_throttle (note_failure cx b j a l s))"
  by (simp add: note_failure_def window_failed)

lemma window_note_success:
  "window k t0 w n (ap_throttle s) \<Longrightarrow> (b \<Longrightarrow> j \<noteq> k) \<Longrightarrow> window k t0 w n (ap_throttle (note_success b j s))"
  by (simp add: note_success_def window_success)

lemma shortest:
  "w = shortest_lockout v \<Longrightarrow> w \<le> secs (ag_login_throttle_seconds (ax_config v))"
  "w = shortest_lockout v \<Longrightarrow> w \<le> secs (rg_throttle_seconds (ag_challenge (ax_config v)))"
  "w = shortest_lockout v \<Longrightarrow> w \<le> secs RESET_THROTTLE_SECONDS"
  by (auto simp: shortest_lockout_def)

lemma window_phrase:
  assumes "registration_phrase v cx rq s = (r, s')" "window k t0 w n (ap_throttle s)" "t0 \<le> cx_inst cx"
    "cx_inst cx < t0 + w" "w = shortest_lockout v"
  shows "window k t0 w n (ap_throttle s')"
proof -
  let ?c = "ag_challenge (ax_config v)"
  obtain x s1 where m: "may_try cx (rg_throttle_enabled ?c) (register_key (rq_email rq)) (rg_throttle_attempts ?c)
      (rg_throttle_seconds ?c) s = (x, s1)" by fastforce
  have "window k t0 w n (ap_throttle s1)"
    by (rule window_may_try [OF m assms(2-4) shortest(2) [OF assms(5)]])
  then show ?thesis
    using assms(1,2,3) shortest(2) [OF assms(5)]
    by (auto simp: registration_phrase_def Let_def m split: if_splits sum.splits intro!: window_note_failure)
qed

lemma window_recaptcha:
  assumes "registration_recaptcha v cx rq s = (r, s')" "window k t0 w n (ap_throttle s)" "t0 \<le> cx_inst cx"
    "w = shortest_lockout v"
  shows "window k t0 w n (ap_throttle s')"
  using assms(1,2,3) shortest(2) [OF assms(4)]
  by (auto simp: registration_recaptcha_def Let_def split: if_splits sum.splits bool.splits intro!: window_note_failure)

lemma window_register_account:
  assumes "window k t0 w n (ap_throttle s)"
    "register_key (rq_email rq) = k \<Longrightarrow> isl (fst (register_account v cx rq s))"
  shows "window k t0 w n (ap_throttle (snd (register_account v cx rq s)))"
  using assms by (auto simp: register_account_def Let_def split: sum.splits prod.splits intro!: window_note_success)

lemma window_register:
  assumes W: "window k t0 w n (ap_throttle s)" and t: "t0 \<le> cx_inst cx" "cx_inst cx < t0 + w" "w = shortest_lockout v"
    and c: "register_key (rq_email rq) = k \<Longrightarrow> isl (fst (register v cx rq s))"
  shows "window k t0 w n (ap_throttle (snd (register v cx rq s)))"
proof -
  obtain r1 s1 where p: "registration_phrase v cx rq s = (r1, s1)" by fastforce
  obtain r2 s2 where q: "registration_recaptcha v cx rq s1 = (r2, s2)" by fastforce
  have 1: "window k t0 w n (ap_throttle s1)" by (rule window_phrase [OF p W t])
  have 2: "window k t0 w n (ap_throttle s2)" by (rule window_recaptcha [OF q 1 t(1,3)])
  have 3: "window k t0 w n (ap_throttle (snd (register_account v cx rq s2)))"
    if "register v cx rq s = register_account v cx rq s2"
    by (rule window_register_account [OF 2]) (use c that in simp)
  show ?thesis
    using W 1 2 3 by (auto simp: register_def p q split: sum.splits option.splits)
qed

lemma window_mail_request:
  assumes W: "window k t0 w n (ap_throttle s)" and t: "t0 \<le> cx_inst cx" "cx_inst cx < t0 + w" "w = shortest_lockout v"
  shows "window k t0 w n (ap_throttle (snd (password_reset_request v cx email s)))"
    and "window k t0 w n (ap_throttle (snd (resend_verification v cx email s)))"
proof -
  have m: "window k t0 w n (ap_throttle s1)"
    if "may_try cx True key RESET_THROTTLE_ATTEMPTS RESET_THROTTLE_SECONDS s = (r, s1)" for key r s1
    by (rule window_may_try [OF that W t(1,2) shortest(3) [OF t(3)]])
  have f: "window k t0 w n (ap_throttle (note_failure cx True key RESET_THROTTLE_ATTEMPTS RESET_THROTTLE_SECONDS s1))"
    if "may_try cx True key RESET_THROTTLE_ATTEMPTS RESET_THROTTLE_SECONDS s = (r, s1)" for key r s1
    by (rule window_note_failure [OF m [OF that] t(1) shortest(3) [OF t(3)]])
  show "window k t0 w n (ap_throttle (snd (password_reset_request v cx email s)))"
    using W by (auto simp: password_reset_request_def Let_def generate_token_def
        split: sum.split prod.split option.split dest: m f)
  show "window k t0 w n (ap_throttle (snd (resend_verification v cx email s)))"
    using W by (auto simp: resend_verification_def Let_def
        split: sum.split prod.split option.split dest: m f)
qed

abbreviation login_try :: "auth_env \<Rightarrow> call \<Rightarrow> string \<Rightarrow> auth_state \<Rightarrow> (u32, unit) result \<times> auth_state" where
  "login_try v cx key s \<equiv>
     may_try cx (ag_login_throttle_enabled (ax_config v)) key (ag_login_throttle_attempts (ax_config v))
       (ag_login_throttle_seconds (ax_config v)) s"

abbreviation login_failed :: "auth_env \<Rightarrow> call \<Rightarrow> string \<Rightarrow> auth_state \<Rightarrow> auth_state" where
  "login_failed v cx key s \<equiv>
     note_failure cx (ag_login_throttle_enabled (ax_config v)) key (ag_login_throttle_attempts (ax_config v))
       (ag_login_throttle_seconds (ax_config v)) s"

lemma login_guess_counts:
  assumes W: "window k t0 w n (ap_throttle s)" and t: "t0 \<le> cx_inst cx" "cx_inst cx < t0 + w" "w = shortest_lockout v"
    and m: "login_try v cx k s = (Inr (), s1)" and on: "ag_login_throttle_enabled (ax_config v)"
    and s2: "ap_throttle s2 = ap_throttle s1"
  shows "window k t0 w (Suc n) (ap_throttle (login_failed v cx k s2)) \<and>
         Suc n \<le> max 1 (unat (ag_login_throttle_attempts (ax_config v)))"
proof -
  have c: "check_attempt (cx_inst cx) k (ag_login_throttle_attempts (ax_config v))
      (ag_login_throttle_seconds (ax_config v)) (ap_throttle s) = (Inr (), ap_throttle s1)"
    using m on by (auto simp: may_try_def split: prod.splits)
  from window_guess [OF W t(1,2) shortest(1) [OF t(3)] c] show ?thesis
    using on s2 by (simp add: note_failure_def)
qed

text \<open>Only the throttle answers that there were too many requests.\<close>

lemma throttled_simps [simp]:
  "\<not> throttled (Inr x)" "throttled (Inl (too_many b r a))" "\<not> throttled (Inl (from_auth_error e))"
  "\<not> throttled (Inl (Unauthorized m))" "\<not> throttled (Inl (BadRequest m))" "\<not> throttled (Inl (Forbidden m))"
  "\<not> throttled (Inl (InternalServerError m))"
  by (cases e; simp add: throttled_def too_many_def)+

lemma throttled_database [simp]: "\<not> throttled (Inl (from_database_error e))"
  by (cases e) (simp_all add: throttled_def from_diesel_error_def split: diesel_error.split diesel_kind.split)

lemma finish_not_throttled [simp]: "\<not> throttled (fst (finish_login v cx user s))"
  by (auto simp: finish_login_def build_login_challenge_def Let_def split: sum.split prod.split)

lemma authenticators_not_throttled [simp]: "\<not> throttled (fst (try_authenticators v cx email code rows replayed db))"
  by (induction v cx email code rows replayed db rule: try_authenticators.induct)
    (auto split: option.split sum.split prod.split)

lemma factor_not_throttled: "\<not> throttled (fst (second_factor v cx user ch rq db))"
  by (auto simp: second_factor_def verify_totp_path_def verify_webauthn_path_def verify_recovery_path_def Let_def
      split: option.split sum.split prod.split)

lemma factor_error_not_throttled: "second_factor v cx user ch rq db = (Inl e, db') \<Longrightarrow> \<not> throttled (Inl e)"
  using factor_not_throttled [of v cx user ch rq db] by (simp add: throttled_def)

lemma login_throttled:
  "login_try v cx (login_key ident) s = (r, s1) \<Longrightarrow> ident \<noteq> [] \<Longrightarrow> pw \<noteq> [] \<Longrightarrow>
   throttled (fst (login v cx ident pw s)) \<longleftrightarrow> isl r"
  by (auto simp: login_def Let_def split: sum.split)

lemma code_throttled:
  "login_try v cx (mfa_key v (au_id user)) s = (r, s1) \<Longrightarrow>
   throttled (fst (complete_challenge v cx user ch rq s)) \<longleftrightarrow> isl r"
  by (auto simp: complete_challenge_def Let_def factor_error_not_throttled split: sum.split prod.split)

lemma result_cases: "(r :: (u32, unit) result) = Inr () \<or> (\<exists>x. r = Inl x)"
  by (cases r) auto

lemma login_counts:
  assumes W: "window k t0 w n (ap_throttle s)" and t: "t0 \<le> cx_inst cx" "cx_inst cx < t0 + w" "w = shortest_lockout v"
    and on: "ag_login_throttle_enabled (ax_config v)" and k: "k = guess_key v g"
  shows "tested v g (cx, RLogin ident pw) s \<Longrightarrow> Suc n \<le> max 1 (unat (ag_login_throttle_attempts (ax_config v)))"
    and "\<not> wipes v g (cx, RLogin ident pw) s \<Longrightarrow>
      window k t0 w (if tested v g (cx, RLogin ident pw) s then Suc n else n) (ap_throttle (snd (login v cx ident pw s)))"
proof -
  obtain r s1 where m: "login_try v cx (login_key ident) s = (r, s1)" by fastforce
  have db: "ap_db s1 = ap_db s" using may_try_frame(1) [OF m] .
  have 1: "window k t0 w n (ap_throttle s1)" by (rule window_may_try [OF m W t(1,2) shortest(1) [OF t(3)]])
  have counts: "window k t0 w (Suc n) (ap_throttle (login_failed v cx k s1)) \<and>
      Suc n \<le> max 1 (unat (ag_login_throttle_attempts (ax_config v)))"
    and who: "k = login_key ident" "ident \<noteq> []" "pw \<noteq> []" "\<not> isl r" if T: "tested v g (cx, RLogin ident pw) s"
  proof -
    obtain p where g: "g = Password p" using T by (cases g) auto
    then show "k = login_key ident" "ident \<noteq> []" "pw \<noteq> []" "\<not> isl r" using T k login_throttled [OF m] by auto
    then have "login_try v cx k s = (Inr (), s1)" using m by (cases r) auto
    from login_guess_counts [OF W t this on refl]
    show "window k t0 w (Suc n) (ap_throttle (login_failed v cx k s1)) \<and>
      Suc n \<le> max 1 (unat (ag_login_throttle_attempts (ax_config v)))" .
  qed
  then show "tested v g (cx, RLogin ident pw) s \<Longrightarrow> Suc n \<le> max 1 (unat (ag_login_throttle_attempts (ax_config v)))"
    by blast
  assume c: "\<not> wipes v g (cx, RLogin ident pw) s"
  show "window k t0 w (if tested v g (cx, RLogin ident pw) s then Suc n else n) (ap_throttle (snd (login v cx ident pw s)))"
  proof (cases "ident = [] \<or> pw = [] \<or> isl r")
    case True
    then have "\<not> tested v g (cx, RLogin ident pw) s" using who by blast
    moreover have "ap_throttle (snd (login v cx ident pw s)) \<in> {ap_throttle s, ap_throttle s1}"
      using True m by (auto simp: login_def Let_def split: sum.split)
    ultimately show ?thesis using W 1 by auto
  next
    case False
    then have thr: "\<not> throttled (fst (login v cx ident pw s))" using login_throttled [OF m] by simp
    show ?thesis
    proof (cases "authenticate_user v ident pw (ap_db s)")
      case (Inl e)
      have f: "window k t0 w n (ap_throttle (login_failed v cx (login_key ident) s1))"
        by (rule window_note_failure [OF 1 t(1) shortest(1) [OF t(3)]])
      have "ap_throttle (snd (login v cx ident pw s)) = ap_throttle (login_failed v cx (login_key ident) s1)"
        using False m db Inl by (auto simp: login_def Let_def split: sum.split)
      then show ?thesis using f counts who by auto
    next
      case (Inr user)
      with c False thr have key: "login_key ident \<noteq> k" by (simp add: k)
      have "window k t0 w n (ap_throttle (note_success True (login_key ident) s1))"
        by (rule window_note_success [OF 1 key])
      moreover have "ap_throttle (snd (login v cx ident pw s)) = ap_throttle (note_success True (login_key ident) s1)"
        using False m db Inr on by (auto simp: login_def Let_def split: sum.split)
      ultimately show ?thesis using who key by auto
    qed
  qed
qed

lemma verify_login_challenged:
  "verify_login v cx rq s = (r, s') \<Longrightarrow>
   (case challenged v cx rq s of
      Some (user, ch, s1) \<Rightarrow> (r, s') = complete_challenge v cx user ch rq s1 \<and> ap_throttle s1 = ap_throttle s
    | None \<Rightarrow> ap_throttle s' = ap_throttle s)"
  by (auto simp: verify_login_def challenged_def split: option.splits prod.splits if_splits dest: take_throttle)

lemma code_counts:
  assumes W: "window k t0 w n (ap_throttle s)" and t: "t0 \<le> cx_inst cx" "cx_inst cx < t0 + w" "w = shortest_lockout v"
    and on: "ag_login_throttle_enabled (ax_config v)" and k: "k = guess_key v g"
  shows "tested v g (cx, RVerifyMfa rq) s \<Longrightarrow> Suc n \<le> max 1 (unat (ag_login_throttle_attempts (ax_config v)))"
    and "\<not> wipes v g (cx, RVerifyMfa rq) s \<Longrightarrow>
      window k t0 w (if tested v g (cx, RVerifyMfa rq) s then Suc n else n) (ap_throttle (snd (verify_login v cx rq s)))"
proof -
  have "(tested v g (cx, RVerifyMfa rq) s \<longrightarrow> Suc n \<le> max 1 (unat (ag_login_throttle_attempts (ax_config v)))) \<and>
    (\<not> wipes v g (cx, RVerifyMfa rq) s \<longrightarrow>
      window k t0 w (if tested v g (cx, RVerifyMfa rq) s then Suc n else n) (ap_throttle (snd (verify_login v cx rq s))))"
  proof (cases "challenged v cx rq s")
    case None
    then have "\<not> tested v g (cx, RVerifyMfa rq) s" by (cases g) auto
    moreover have "ap_throttle (snd (verify_login v cx rq s)) = ap_throttle s"
      using verify_login_challenged [of v cx rq s] None by (cases "verify_login v cx rq s") auto
    ultimately show ?thesis using W by simp
  next
    case (Some x)
    then obtain user ch s0 where ch: "challenged v cx rq s = Some (user, ch, s0)" by (cases x) auto
    let ?key = "mfa_key v (au_id user)"
    have vl: "verify_login v cx rq s = complete_challenge v cx user ch rq s0" and s0: "ap_throttle s0 = ap_throttle s"
      using verify_login_challenged [of v cx rq s] ch by (cases "verify_login v cx rq s"; auto)+
    obtain r s1 where m: "login_try v cx ?key s0 = (r, s1)" by fastforce
    obtain q db where sf: "second_factor v cx user ch rq (ap_db s0) = (q, db)" by fastforce
    have db: "ap_db s1 = ap_db s0" using may_try_frame(1) [OF m] .
    have W0: "window k t0 w n (ap_throttle s0)" using W s0 by simp
    have 1: "window k t0 w n (ap_throttle s1)" by (rule window_may_try [OF m W0 t(1,2) shortest(1) [OF t(3)]])
    have thr: "throttled (fst (verify_login v cx rq s)) \<longleftrightarrow> isl r" unfolding vl by (rule code_throttled [OF m])
    have who: "k = ?key \<and> \<not> isl r" if "tested v g (cx, RVerifyMfa rq) s"
      using that k ch thr by (cases g) auto
    have counts: "window k t0 w (Suc n) (ap_throttle (login_failed v cx k (s1\<lparr>ap_db := db\<rparr>))) \<and>
        Suc n \<le> max 1 (unat (ag_login_throttle_attempts (ax_config v)))" if T: "tested v g (cx, RVerifyMfa rq) s"
    proof -
      have "login_try v cx k s0 = (Inr (), s1)" using who [OF T] m by (cases r) auto
      from login_guess_counts [OF W0 t this on, of "s1\<lparr>ap_db := db\<rparr>"] show ?thesis by simp
    qed
    have "window k t0 w (if tested v g (cx, RVerifyMfa rq) s then Suc n else n) (ap_throttle (snd (verify_login v cx rq s)))"
      if c: "\<not> wipes v g (cx, RVerifyMfa rq) s"
    proof (cases "isl r")
      case True
      then have "ap_throttle (snd (verify_login v cx rq s)) = ap_throttle s1"
        using m by (auto simp: vl complete_challenge_def Let_def split: sum.split)
      moreover have "\<not> tested v g (cx, RVerifyMfa rq) s" using who True by blast
      ultimately show ?thesis using 1 by simp
    next
      case False
      show ?thesis
      proof (cases q)
        case (Inl e)
        have f: "window k t0 w n (ap_throttle (login_failed v cx ?key (s1\<lparr>ap_db := db\<rparr>)))"
          by (rule window_note_failure [OF _ t(1) shortest(1) [OF t(3)]]) (simp add: 1)
        have "ap_throttle (snd (verify_login v cx rq s)) = ap_throttle (login_failed v cx ?key (s1\<lparr>ap_db := db\<rparr>))"
          using False m db sf Inl by (auto simp: vl complete_challenge_def Let_def split: sum.split)
        then show ?thesis using f counts who by auto
      next
        case (Inr u)
        with c False thr ch sf have key: "?key \<noteq> k" by (simp add: k)
        have "window k t0 w n (ap_throttle (note_success True ?key (s1\<lparr>ap_db := db\<rparr>)))"
          by (rule window_note_success) (simp_all add: 1 key)
        moreover have "ap_throttle (snd (verify_login v cx rq s)) = ap_throttle (note_success True ?key (s1\<lparr>ap_db := db\<rparr>))"
          using False m db sf Inr on by (auto simp: vl complete_challenge_def Let_def split: sum.split)
        ultimately show ?thesis using who key by auto
      qed
    qed
    then show ?thesis using counts by blast
  qed
  then show "tested v g (cx, RVerifyMfa rq) s \<Longrightarrow> Suc n \<le> max 1 (unat (ag_login_throttle_attempts (ax_config v)))"
    and "\<not> wipes v g (cx, RVerifyMfa rq) s \<Longrightarrow>
      window k t0 w (if tested v g (cx, RVerifyMfa rq) s then Suc n else n) (ap_throttle (snd (verify_login v cx rq s)))"
    by blast+
qed

lemma tested_request: "tested v g (cx, r) s \<Longrightarrow> (\<exists>ident pw. r = RLogin ident pw) \<or> (\<exists>rq. r = RVerifyMfa rq)"
  by (cases g; cases r) auto

lemma request_admitted:
  assumes W: "window k t0 w n (ap_throttle s)" and t: "t0 \<le> cx_inst (fst e)" "cx_inst (fst e) < t0 + w"
    "w = shortest_lockout v" and on: "ag_login_throttle_enabled (ax_config v)" and k: "k = guess_key v g"
    and T: "tested v g e s"
  shows "Suc n \<le> max 1 (unat (ag_login_throttle_attempts (ax_config v)))"
proof -
  obtain cx r where e: "e = (cx, r)" by fastforce
  have t': "t0 \<le> cx_inst cx" "cx_inst cx < t0 + w" using t(1,2) by (simp_all add: e)
  consider ident pw where "r = RLogin ident pw" | rq where "r = RVerifyMfa rq"
    using tested_request T e by blast
  then show ?thesis
  proof cases
    case 1
    with T login_counts(1) [OF W t' t(3) on k] show ?thesis by (simp only: e)
  next
    case 2
    with T code_counts(1) [OF W t' t(3) on k] show ?thesis by (simp only: e)
  qed
qed

lemma request_counts:
  assumes W: "window k t0 w n (ap_throttle s)" and t: "t0 \<le> cx_inst (fst e)" "cx_inst (fst e) < t0 + w"
    "w = shortest_lockout v" and on: "ag_login_throttle_enabled (ax_config v)" and k: "k = guess_key v g"
    and c: "\<not> wipes v g e s"
  shows "window k t0 w (if tested v g e s then Suc n else n) (ap_throttle (auth_step v e s))"
proof -
  obtain cx r where e: "e = (cx, r)" by fastforce
  have t': "t0 \<le> cx_inst cx" "cx_inst cx < t0 + w" using t(1,2) by (simp_all add: e)
  show ?thesis
  proof (cases r)
    case (RLogin ident pw)
    have "\<not> wipes v g (cx, RLogin ident pw) s" using c by (simp only: e RLogin not_False_eq_True)
    from login_counts(2) [OF W t' t(3) on k this] show ?thesis
      unfolding e RLogin auth_step.simps .
  next
    case (RVerifyMfa rq)
    have "\<not> wipes v g (cx, RVerifyMfa rq) s" using c by (simp only: e RVerifyMfa not_False_eq_True)
    from code_counts(2) [OF W t' t(3) on k this] show ?thesis
      unfolding e RVerifyMfa auth_step.simps .
  next
    case (RRegister rq)
    then show ?thesis using window_register [OF W _ _ t(3), of cx rq] t c k
      by (cases g) (auto simp: e)
  qed (use W t c window_mail_request [OF W _ _ t(3)] as_user_throttle in \<open>cases g; simp add: e split: sum.split\<close>)+
qed

lemma request_keeps:
  assumes "window (guess_key v g) t0 (shortest_lockout v) n (ap_throttle s)" "t0 \<le> cx_inst (fst e)"
    "cx_inst (fst e) < t0 + shortest_lockout v" "ag_login_throttle_enabled (ax_config v)" "\<not> wipes v g e s"
  shows "\<not> tested v g e s \<Longrightarrow>
      window (guess_key v g) t0 (shortest_lockout v) n (ap_throttle (auth_step v e s))"
    and "tested v g e s \<Longrightarrow>
      window (guess_key v g) t0 (shortest_lockout v) (Suc n) (ap_throttle (auth_step v e s))"
  using request_counts [OF assms(1-3) refl assms(4) refl assms(5)] by simp_all

text \<open>The contract of \<open>guess_limited\<close>, on the endpoints and the shared throttle.\<close>

interpretation auth_guesses: guess_limited "auth_step v" ap_throttle "\<lambda>e. cx_inst (fst e)"
  "\<lambda>e s. ag_login_throttle_enabled (ax_config v) \<and> tested v g e s"
  "\<lambda>e s. \<not> ag_login_throttle_enabled (ax_config v) \<or> wipes v g e s" "guess_key v g"
  "ag_login_throttle_attempts (ax_config v)" "shortest_lockout v"
  for v g
  by unfold_locales (auto dest: request_keeps request_admitted [OF _ _ _ refl _ refl] simp del: One_nat_def)

lemma never_or: "never step (\<lambda>e s. False \<or> P e s) es s \<longleftrightarrow> never step P es s"
  by simp

section \<open>One key for two endpoints\<close>

text \<open>The counter after \<open>j\<close> refused registrations at one moment, and none before.\<close>

definition counted :: "u32 \<Rightarrow> u32 \<Rightarrow> instant \<Rightarrow> string \<Rightarrow> nat \<Rightarrow> throttle \<Rightarrow> bool" where
  "counted a l t key j m \<longleftrightarrow> m key =
     (if j = 0 then None
      else Some \<lparr>te_attempts = of_nat j, te_last_attempt = t,
                 te_locked_until = (if unat a \<le> j then Some (t + secs l) else None)\<rparr>)"

lemma of_nat_le: "j \<le> unat (a :: u32) \<Longrightarrow> a \<le> of_nat j \<longleftrightarrow> unat a \<le> j"
proof -
  assume "j \<le> unat a"
  moreover have "unat a < 2 ^ 32" using unsigned_less [of a] by simp
  ultimately have "unat (of_nat j :: u32) = j" by (simp add: unat_of_nat)
  then show ?thesis by (simp add: word_le_nat_alt)
qed

lemma counted_check:
  assumes "counted a l t key j m" "j < unat a" "0 < l"
  shows "fst (check_attempt t key a l m) = Inr ()" "counted a l t key j (snd (check_attempt t key a l m))"
proof -
  have "0 < uint l" using assms(3) by (simp add: word_less_def)
  then have "cleanup_old_entries t l m key = m key"
    using assms by (simp add: counted_def cleanup_old_entries_def map_retain_def duration_since_def seconds_def)
  then show "fst (check_attempt t key a l m) = Inr ()" "counted a l t key j (snd (check_attempt t key a l m))"
    using assms of_nat_le [of j a] by (auto simp: check_attempt_def counted_def Let_def)
qed

lemma counted_failed:
  "counted a l t key j m \<Longrightarrow> j < unat a \<Longrightarrow> counted a l t key (Suc j) (record_failed_attempt t key a l m)"
  using of_nat_le [of "Suc j" a] by (auto simp: counted_def record_failed_attempt_def Let_def add.commute)

lemma counted_registration:
  assumes "ag_allow_registration (ax_config v)" "rg_enabled c" "rg_throttle_enabled c" "c = ag_challenge (ax_config v)"
    and "unwrap_or (rq_challenge_phrase rq) [] \<noteq> rg_phrase c" "register_key (rq_email rq) = key"
    and "0 < rg_throttle_seconds c"
    and "counted (rg_throttle_attempts c) (rg_throttle_seconds c) (cx_inst cx) key j (ap_throttle s)"
    and "j + n \<le> unat (rg_throttle_attempts c)"
  shows "counted (rg_throttle_attempts c) (rg_throttle_seconds c) (cx_inst cx) key (j + n)
           (ap_throttle (run_events (auth_step v) (replicate n (cx, RRegister rq)) s))"
  using assms(8,9)
proof (induction n arbitrary: j s)
  case (Suc n)
  let ?a = "rg_throttle_attempts c" and ?l = "rg_throttle_seconds c"
  have j: "j < unat ?a" using Suc.prems by simp
  obtain r m where k: "check_attempt (cx_inst cx) key ?a ?l (ap_throttle s) = (r, m)" by fastforce
  have m: "r = Inr ()" "counted ?a ?l (cx_inst cx) key j m"
    using counted_check [OF Suc.prems(1) j assms(7)] k by auto
  have "ap_throttle (snd (register v cx rq s)) = record_failed_attempt (cx_inst cx) key ?a ?l m"
    using assms(1-6) k m(1) by (simp add: register_def registration_phrase_def may_try_def note_failure_def Let_def)
  then have "counted ?a ?l (cx_inst cx) key (Suc j) (ap_throttle (auth_step v (cx, RRegister rq) s))"
    using counted_failed [OF m(2) j] by simp
  from Suc.IH [OF this] Suc.prems show ?case by simp
qed simp

section \<open>Properties\<close>

text \<open>
  C4. Guesses are rationed. Take one identity at the login form, or one account at the second step, and any
  sequence of requests of every kind that falls in a window shorter than the shortest configured lockout, with
  no success under that key before its last request. The guesses in it that are answered by anything else than
  a refusal for their frequency, so that the password or the code was tested, are at most as many as the
  configured number of attempts, or one when that number is zero. The last one, which may be right, is counted.
\<close>

theorem wrong_guesses_are_rationed:
  assumes "ag_login_throttle_enabled (ax_config v)" "no_wrap (ap_throttle s)"
    and "\<forall>e \<in> set (es @ [x]). t0 \<le> cx_inst (fst e) \<and> cx_inst (fst e) < t0 + shortest_lockout v"
    and "never (auth_step v) (wipes v g) es s"
  shows "guesses (auth_step v) (tested v g) (es @ [x]) s
           \<le> max 1 (unat (ag_login_throttle_attempts (ax_config v)))"
  using auth_guesses.guesses_bounded [where v = v and g = g and es = es and x = x and s = s] assms by simp

definition demo_guesses :: "(call \<times> auth_request) list" where
  "demo_guesses = [(demo_call 1, RLogin ''alice'' ''guess''), (demo_call 2, RLogin ''Alice'' ''again'')]"

lemma wrong_guesses_are_rationed_witness:
  "guesses (auth_step demo_auth) (tested demo_auth (Password ''alice''))
     (demo_guesses @ [(demo_call 3, RLogin ''alice'' ''third'')]) demo_site \<le> 2 \<and>
   guesses (auth_step demo_auth) (tested demo_auth (Password ''alice''))
     (demo_guesses @ [(demo_call 3, RLogin ''alice'' ''third'')]) demo_site = 2"
proof -
  let ?x = "(demo_call 3, RLogin ''alice'' ''third'')"
  have w: "never (auth_step demo_auth) (wipes demo_auth (Password ''alice'')) demo_guesses demo_site" by code_simp
  have "guesses (auth_step demo_auth) (tested demo_auth (Password ''alice'')) (demo_guesses @ [?x]) demo_site = 2"
    by code_simp
  moreover have "\<forall>e \<in> set (demo_guesses @ [?x]). 0 \<le> cx_inst (fst e) \<and> cx_inst (fst e) < 0 + shortest_lockout demo_auth"
    by code_simp
  ultimately show ?thesis
    using wrong_guesses_are_rationed [OF _ _ _ w, where x = ?x and ?t0.0 = 0] by (simp add: demo_site_defs)
qed

text \<open>
  Registration throttles under the bare address it is given, login under \<open>login:\<close> and the
  identity, in the same map. So refused registrations for an address spelled \<open>login:\<close> and a member's
  name count against that member's sign-in: after the configured number of them, anybody can have
  locked the member out for the longer registration lockout, the right password included.
\<close>

lemma registration_locks_out_a_member:
  assumes "ag_allow_registration (ax_config v)" "rg_enabled c" "rg_throttle_enabled c" "c = ag_challenge (ax_config v)"
    and "unwrap_or (rq_challenge_phrase rq) [] \<noteq> rg_phrase c" "register_key (rq_email rq) = login_key ident"
    and "ag_login_throttle_enabled (ax_config v)" "0 < rg_throttle_attempts c"
    and "ap_throttle s (login_key ident) = None" "ident \<noteq> []" "pw \<noteq> []"
    and "cx_inst cx \<le> cx_inst cx'" "cx_inst cx' < cx_inst cx + secs (rg_throttle_seconds c)"
  shows "\<exists>msg s'. login v cx' ident pw
      (run_events (auth_step v) (replicate (unat (rg_throttle_attempts c)) (cx, RRegister rq)) s)
        = (Inl (TooManyRequests msg), s')"
proof -
  let ?s = "run_events (auth_step v) (replicate (unat (rg_throttle_attempts c)) (cx, RRegister rq)) s"
  have "0 < rg_throttle_seconds c"
    using assms(12,13) by (cases "rg_throttle_seconds c = 0") (auto simp: secs_def seconds_def word_neq_0_conv)
  then have "counted (rg_throttle_attempts c) (rg_throttle_seconds c) (cx_inst cx) (login_key ident)
      (unat (rg_throttle_attempts c)) (ap_throttle ?s)"
    using counted_registration [OF assms(1-6), of cx 0 s "unat (rg_throttle_attempts c)"] assms(9)
    by (simp add: counted_def)
  moreover have "unat (rg_throttle_attempts c) \<noteq> 0" using assms(8) by (simp add: unat_eq_zero)
  ultimately obtain e where e: "ap_throttle ?s (login_key ident) = Some e"
      "te_locked_until e = Some (cx_inst cx + secs (rg_throttle_seconds c))"
    by (auto simp: counted_def)
  then have "cleanup_old_entries (cx_inst cx') l (ap_throttle ?s) (login_key ident) = Some e" for l
    using assms(13) by (simp add: cleanup_old_entries_def)
  then obtain r m where "check_attempt (cx_inst cx') (login_key ident) (ag_login_throttle_attempts (ax_config v))
      (ag_login_throttle_seconds (ax_config v)) (ap_throttle ?s) = (Inl r, m)"
    using e(2) assms(13) by (simp add: check_attempt_def Let_def)
  then show ?thesis
    using assms(7,10,11) by (simp add: login_def Let_def may_try_def too_many_def)
qed

definition demo_squatter :: register_request where
  "demo_squatter = \<lparr>rq_username = [], rq_email = ''login:alice'', rq_password = [], rq_full_name = [],
     rq_challenge_phrase = None, rq_terms_of_service_accepted = None, rq_recaptcha_token = None\<rparr>"

text \<open>
  Every check sweeps the whole map by the lockout of its own caller. An unlocked counter of the
  reset form, meant to be kept for twice fifteen minutes, is forgotten by the first sign-in by anybody
  that comes two login lockouts later: the limit of three reset mails in fifteen minutes is in fact
  two in every two login lockouts.
\<close>

lemma login_forgets_reset_requests:
  assumes "ap_throttle s (reset_key email) = Some e" "te_locked_until e = None"
    and "ag_login_throttle_enabled (ax_config v)" "ident \<noteq> []" "pw \<noteq> []"
    and "te_last_attempt e + 2 * secs (ag_login_throttle_seconds (ax_config v)) \<le> cx_inst cx"
  shows "ap_throttle (snd (login v cx ident pw s)) (reset_key email) = None"
proof -
  have k: "reset_key email \<noteq> login_key ident" by (simp add: reset_key_def login_key_def)
  obtain r s1 where m: "login_try v cx (login_key ident) s = (r, s1)" by fastforce
  have "cleanup_old_entries (cx_inst cx) (ag_login_throttle_seconds (ax_config v)) (ap_throttle s) (reset_key email) = None"
    using assms by (simp add: cleanup_old_entries_def map_retain_def duration_since_def secs_def seconds_def)
  then have "ap_throttle s1 (reset_key email) = None"
    using m k assms(3) by (auto simp: may_try_def check_attempt_def Let_def split: prod.splits option.splits if_splits)
  moreover have "ap_throttle (note_failure cx b (login_key ident) a l t) (reset_key email) = ap_throttle t (reset_key email)"
    "ap_throttle (note_success b (login_key ident) t) (reset_key email) = ap_throttle t (reset_key email)" for b a l t
    using k by (simp_all add: note_failure_def note_success_def record_failed_attempt_def record_successful_attempt_def Let_def)
  ultimately show ?thesis
    using assms(4,5) by (auto simp: login_def Let_def m split: sum.split)
qed

end
