(* ===== verification/Auth_Safety.thy ===== *)
theory Auth_Safety
  imports Auth_Throttle
begin

text \<open>
  What holds of credentials over every sequence of requests: a spent link stays spent, a session dies
  with the password it was opened under, an authenticator's steps only grow; and the interleaving in
  which the last one fails. Every request is shown to be a sequence of table operations, the relation
  \<open>tables_step\<close>; a fact that each operation keeps is then kept by every request.
\<close>

section \<open>A request as a sequence of table operations\<close>

inductive tables_step :: "call \<Rightarrow> auth_db \<Rightarrow> auth_db \<Rightarrow> bool" for cx where
  audit: "tables_step cx db (create_audit_log e u a db)"
| new_user: "create_user (cx_id cx) (cx_row_id cx) (cx_utc cx) un em h fn role db = (r1, db') \<Longrightarrow> tables_step cx db db'"
| user_row: "update_user_row uid up db = (r1, db') \<Longrightarrow> tables_step cx db db'"
| user_role: "tables_step cx db (db\<lparr>ad_members := set_user_primary_role uid role (ad_members db)\<rparr>)"
| add_email: "add_user_email_row (cx_row_id cx) (cx_utc cx) uid em st db = (r2, db') \<Longrightarrow> tables_step cx db db'"
| remove_email: "remove_user_email_row uid eid db = (r3, db') \<Longrightarrow> tables_step cx db db'"
| set_primary: "set_primary_user_email_row uid eid db = (r4, db') \<Longrightarrow> tables_step cx db db'"
| replace_primary: "replace_primary_user_email (cx_row_id cx) (cx_utc cx) uid em st db = (r2, db') \<Longrightarrow> tables_step cx db db'"
| new_reset: "create_password_reset_token uid dig ex (cx_utc cx) db = (r3, db') \<Longrightarrow> tables_step cx db db'"
| claim_reset: "claim_password_reset_token dig (cx_utc cx) db = (r5, db') \<Longrightarrow> tables_step cx db db'"
| new_verification: "create_email_verification_token uid eo dig ex (cx_utc cx) db = (r3, db') \<Longrightarrow> tables_step cx db db'"
| claim_verification: "claim_email_verification_token dig (cx_utc cx) db = (r6, db') \<Longrightarrow> tables_step cx db db'"
| mark_verified: "mark_email_verified uid eo (cx_utc cx) db = (r3, db') \<Longrightarrow> tables_step cx db db'"
| begin_totp: "begin_totp_setup (cx_row_id cx) (cx_utc cx) uid secret label db = (t, db') \<Longrightarrow> tables_step cx db db'"
| finalize_totp: "finalize_totp_confirmation uid tid (cx_utc cx) db = (r3, db') \<Longrightarrow>
    \<exists>t \<in> set (ad_totp db). tp_id t = tid \<and> tp_confirmed_at t = None \<Longrightarrow> tables_step cx db db'"
| use_step: "update_totp_last_used_step tid step db = (r3, db') \<Longrightarrow>
    \<exists>t \<in> set (ad_totp db). tp_id t = tid \<and> \<not> is_some_and (tp_last_used_step t) (\<lambda>l. step \<le> l) \<Longrightarrow> tables_step cx db db'"
| delete_totp: "delete_user_totp uid tid db = (r3, db') \<Longrightarrow> tables_step cx db db'"
| add_passkey: "insert_user_webauthn w db = (r7, db') \<Longrightarrow> tables_step cx db db'"
| delete_passkey: "delete_user_webauthn uid wid db = (n, db') \<Longrightarrow> tables_step cx db db'"
| touch_passkey: "tables_step cx db (touch_user_webauthn_last_used uid cred (cx_utc cx) db)"
| replace_codes: "tables_step cx db (replace_user_recovery_codes uid hs db)"
| use_code: "mark_recovery_code_used cid (cx_utc cx) db = (r3, db') \<Longrightarrow> tables_step cx db db'"
| enrolled: "recompute_user_mfa_enrolled uid (cx_utc cx) db = (r8, db') \<Longrightarrow> tables_step cx db db'"

definition tables :: "call \<Rightarrow> auth_db \<Rightarrow> auth_db \<Rightarrow> bool" where
  "tables cx = (tables_step cx)\<^sup>*\<^sup>*"

lemma tables_refl [simp, intro]: "tables cx db db"
  by (simp add: tables_def)

lemma tables_trans: "tables cx a b \<Longrightarrow> tables cx b c \<Longrightarrow> tables cx a c"
  by (auto simp: tables_def)

lemma tables_snoc: "tables_step cx b c \<Longrightarrow> tables cx a b \<Longrightarrow> tables cx a c"
  by (auto simp: tables_def)

lemmas ops = tables_step.intros [THEN tables_snoc]

lemma log_db [simp]: "ap_db (log_auth e u b s) = create_audit_log e u b (ap_db s)"
  by (simp add: log_auth_def)

lemma tables_log [intro]: "tables cx a db \<Longrightarrow> tables cx a (create_audit_log e u b db)"
  by (rule ops(1))

lemma tables_send [intro]: "tables cx a (ap_db s) \<Longrightarrow> tables cx a (ap_db (send_mail v to t u e s))"
  by (auto simp: send_mail_def)

lemma tables_mail [intro]:
  assumes "tables cx a (ap_db s)"
  shows "tables cx a (ap_db (issue_verification_mail_for v cx uid eid addr s))"
  using assms by (auto simp: issue_verification_mail_for_def generate_token_def
      split: prod.split sum.split intro!: tables_send intro: ops(11))

lemma tables_register: "tables cx (ap_db s) (ap_db (snd (register v cx rq s)))"
proof -
  have p: "registration_phrase v cx rq s = (r, s1) \<Longrightarrow> ap_db s1 = ap_db s" for r s1
    by (auto simp: registration_phrase_def Let_def split: if_splits prod.splits sum.splits dest: may_try_frame)
  have q: "registration_recaptcha v cx rq s1 = (r, s2) \<Longrightarrow> ap_db s2 = ap_db s1" for r s1 s2
    by (auto simp: registration_recaptcha_def Let_def split: if_splits sum.splits bool.splits)
  have a: "tables cx (ap_db s2) (ap_db (snd (register_account v cx rq s2)))" for s2
    by (auto simp: register_account_def issue_verification_mail_def Let_def split: sum.split prod.split
        intro!: tables_mail tables_log) (blast intro: ops(2))+
  obtain r1 s1 where 1: "registration_phrase v cx rq s = (r1, s1)" by fastforce
  obtain r2 s2 where 2: "registration_recaptcha v cx rq s1 = (r2, s2)" by fastforce
  show ?thesis
    using a [of s2] by (auto simp: register_def 1 2 p [OF 1] q [OF 2] split: sum.splits option.splits)
qed

lemma tables_login: "tables cx (ap_db s) (ap_db (snd (login v cx ident pw s)))"
proof -
  have "tables cx (ap_db t) (ap_db (snd (finish_login v cx u t)))" for u t
    by (auto simp: finish_login_def build_login_challenge_def put_login_def Let_def split: sum.split prod.split)
  then have "ap_db t = ap_db s \<Longrightarrow> tables cx (ap_db s) (ap_db (snd (finish_login v cx u (note_success b k t))))" for b k t u
    by (metis note_frame(2))
  then show ?thesis
    by (auto simp: login_def Let_def split: sum.split prod.split dest!: may_try_frame(1))
qed

lemma listed_totp: "t \<in> set (list_user_totp db uid) \<longleftrightarrow> t \<in> set (ad_totp db) \<and> tp_user_id t = uid"
  by (auto simp: list_user_totp_def Let_def)

lemma tables_authenticators:
  "set rows \<subseteq> set (ad_totp db) \<Longrightarrow> tables cx db (snd (try_authenticators v cx em code rows b db))"
proof (induction rows arbitrary: b)
  case (Cons r rows)
  then have 1: "tables cx db (snd (try_authenticators v cx em code rows b' db))" for b' by simp
  have 2: "tables cx db db'"
    if "update_totp_last_used_step (tp_id r) (int step) db = (x, db')"
       "\<not> is_some_and (tp_last_used_step r) (\<lambda>l. int step \<le> l)" for step x db'
    by (rule ops(16) [OF that(1)]) (use Cons.prems that(2) in auto)
  show ?case
    by (auto simp: 1 split: option.split sum.split prod.split dest: 2)
qed simp

lemma tables_second_factor: "tables cx db (snd (second_factor v cx user ch rq db))"
proof -
  have "tables cx db (snd (verify_totp_path v cx user c db))" for c
    by (auto simp: verify_totp_path_def Let_def listed_totp split: option.split intro!: tables_authenticators)
  moreover have "tables cx db (snd (verify_webauthn_path v cx user ch c db))" for c
    by (auto simp: verify_webauthn_path_def split: option.split sum.split intro: ops(20))
  moreover have "tables cx db (snd (verify_recovery_path v cx user c db))" for c
    by (auto simp: verify_recovery_path_def split: option.split sum.split prod.split intro: ops(1,22))
  ultimately show ?thesis by (simp add: second_factor_def)
qed

lemma take_db:
  "take_login cx t s = (x, s') \<Longrightarrow> ap_db s' = ap_db s"
  "take_registration cx t s = (y, s') \<Longrightarrow> ap_db s' = ap_db s"
  by (auto simp: take_login_def take_registration_def split: prod.splits)

lemma tables_verify_login: "tables cx (ap_db s) (ap_db (snd (verify_login v cx rq s)))"
proof -
  have f: "second_factor v cx u c q d = (x, d') \<Longrightarrow> tables cx d d'" for u c q d x d'
    using tables_second_factor [of cx d v u c q] by simp
  have "tables cx (ap_db t) (ap_db (snd (complete_challenge v cx u c q t)))" for u c q t
    by (auto simp: complete_challenge_def Let_def split: sum.split prod.split dest!: may_try_frame(1) f
        intro!: tables_log)
  then have "ap_db t = ap_db s \<Longrightarrow> tables cx (ap_db s) (ap_db (snd (complete_challenge v cx u c q t)))" for u c q t
    by metis
  then show ?thesis
    by (auto simp: verify_login_def split: option.split prod.split dest!: take_db(1))
qed

lemma tables_resets:
  "tables cx (ap_db s) (ap_db (snd (password_reset_request v cx em s)))"
  "tables cx (ap_db s) (ap_db (snd (resend_verification v cx em s)))"
  by (auto simp: password_reset_request_def resend_verification_def generate_token_def Let_def
      split: sum.split prod.split option.split dest!: may_try_frame(1) intro!: tables_log tables_mail tables_send intro: ops(9))

lemma tables_links:
  "tables cx (ap_db s) (ap_db (snd (password_reset_consume v cx tok pw s)))"
  "tables cx (ap_db s) (ap_db (snd (verify_email v cx tok s)))"
  by (auto simp: password_reset_consume_def verify_email_def Let_def
      split: sum.split prod.split option.split intro!: tables_log)
    (blast intro: ops(3,10,12,13))+

lemma tables_change_primary: "change_primary v cx uid em s = (r, s') \<Longrightarrow> tables cx (ap_db s) (ap_db s')"
  by (auto simp: change_primary_def split: prod.splits sum.splits intro!: tables_mail intro: ops(8))

lemma tables_update: "tables cx (ap_db s) (ap_db (snd (update_account v cx me uid rq s)))"
proof -
  have c: "tables cx a (ap_db t) \<Longrightarrow> change_primary v cx uid em t = (r, t') \<Longrightarrow> tables cx a (ap_db t')" for a em t r t'
    using tables_change_primary tables_trans by blast
  show ?thesis
    by (auto simp: update_account_def Let_def split: sum.split prod.split option.split
        intro!: tables_log intro: ops(3) ops(4) dest!: c [rotated, of _ _ _ _ "ap_db s"])
qed

lemma tables_password: "tables cx (ap_db s) (ap_db (snd (change_own_password v cx me cur new s)))"
  by (auto simp: change_own_password_def split: sum.split prod.split intro!: tables_log intro: ops(3))

lemma tables_emails:
  "tables cx (ap_db s) (ap_db (snd (add_user_email v cx me uid em cur s)))"
  "tables cx (ap_db s) (ap_db (snd (remove_user_email me uid eid s)))"
  "tables cx (ap_db s) (ap_db (snd (set_primary_user_email v me uid eid cur s)))"
  "tables cx (ap_db s) (ap_db (snd (resend_user_email v cx me uid eid s)))"
  by (auto simp: add_user_email_def remove_user_email_def set_primary_user_email_def resend_user_email_def Let_def
      split: sum.split prod.split option.split intro!: tables_log tables_mail intro: ops(6,7)) (blast intro: ops(5))+

lemma tables_mint: "mint_recovery_codes v cx uid s = (r, s') \<Longrightarrow> tables cx a (ap_db s) \<Longrightarrow> tables cx a (ap_db s')"
  by (auto simp: mint_recovery_codes_def split: sum.splits intro!: tables_log intro: ops(21))

lemma tables_totp:
  "tables cx (ap_db s) (ap_db (snd (totp_setup v cx me label s)))"
  "tables cx (ap_db s) (ap_db (snd (totp_disable cx me tid s)))"
  "tables cx (ap_db s) (ap_db (snd (recovery_regenerate v cx me s)))"
  using tables_mint [of v cx _ s, OF _ tables_refl, where s' = "snd (mint_recovery_codes v cx (au_id me) s)"]
  by (auto simp: totp_setup_def totp_disable_def recovery_regenerate_def Let_def
      split: sum.split prod.split option.split intro!: tables_log)
    (blast intro: ops(14,17,23) | metis prod.collapse)+

lemma in_setup: "totp_in_setup db uid w = Some t \<Longrightarrow> t \<in> set (ad_totp db) \<and> tp_confirmed_at t = None"
  by (auto simp: totp_in_setup_def listed_totp dest!: find_SomeD)

lemma tables_confirm: "tables cx (ap_db s) (ap_db (snd (totp_confirm v cx me w code s)))"
proof -
  have f: "tables cx (ap_db s) db'"
    if "totp_in_setup (ap_db s) (au_id me) w = Some t"
       "finalize_totp_confirmation (au_id me) (tp_id t) (cx_utc cx) (ap_db s) = (x, db')" for t x db'
    by (rule ops(15) [OF that(2)]) (use in_setup [OF that(1)] in auto)
  have r: "tables cx (ap_db s) db''"
    if "tables cx (ap_db s) db'" "recompute_user_mfa_enrolled uid (cx_utc cx) db' = (x, db'')" for uid db' x db''
    by (rule ops(23) [OF that(2,1)])
  have m: "tables cx (ap_db s) (ap_db s')"
    if "tables cx (ap_db s) db'" "mint_recovery_codes v cx uid (s\<lparr>ap_db := db'\<rparr>) = (x, s')" for uid db' x s'
    by (rule tables_mint [OF that(2)]) (simp add: that(1))
  show ?thesis
    by (auto simp: totp_confirm_def Let_def split: sum.split prod.split option.split intro!: tables_log)
      (blast intro: f r m)+
qed

lemma tables_passkeys:
  "tables cx (ap_db s) (ap_db (snd (webauthn_register_begin v cx me label s)))"
  "tables cx (ap_db s) (ap_db (snd (webauthn_register_finish v cx me tok resp s)))"
  "tables cx (ap_db s) (ap_db (snd (webauthn_remove cx me wid s)))"
  by (auto simp: webauthn_register_begin_def webauthn_register_finish_def webauthn_remove_def put_registration_def
      split: sum.split prod.split option.split intro!: tables_log dest!: take_db(2))
    (metis ops(18,19,23) tables_refl)+

lemma tables_user_step: "tables cx (ap_db s) (ap_db (user_step v cx me act s))"
  by (cases act) (simp_all add: tables_update tables_password tables_emails tables_totp tables_confirm tables_passkeys)

lemma requests_are_table_operations: "tables (fst e) (ap_db s) (ap_db (auth_step v e s))"
proof -
  obtain cx r where e: "e = (cx, r)" by fastforce
  show ?thesis
    by (cases r) (simp_all add: e tables_register tables_login tables_verify_login tables_resets tables_links
        tables_user_step split: sum.split)
qed

text \<open>So a fact that every table operation keeps is kept by every request.\<close>

lemma kept_by_request:
  assumes "\<And>a b. tables_step (fst e) a b \<Longrightarrow> F a \<Longrightarrow> F b" "F (ap_db s)"
  shows "F (ap_db (auth_step v e s))"
  using requests_are_table_operations [of e s v, unfolded tables_def] assms(2)
  by (induction rule: rtranclp_induct) (auto intro: assms(1))

section \<open>Facts the table operations keep\<close>

lemmas row_ops = create_user_def update_user_row_def add_user_email_row_def remove_user_email_row_def
  set_primary_user_email_row_def replace_primary_user_email_def create_password_reset_token_def
  claim_password_reset_token_def create_email_verification_token_def claim_email_verification_token_def
  mark_email_verified_def begin_totp_setup_def finalize_totp_confirmation_def update_totp_last_used_step_def
  delete_user_totp_def insert_user_webauthn_def delete_user_webauthn_def touch_user_webauthn_last_used_def
  replace_user_recovery_codes_def mark_recovery_code_used_def recompute_user_mfa_enrolled_def
  set_user_mfa_enrolled_def create_audit_log_def drop_emails_def

lemmas row_splits = if_splits option.splits prod.splits sum.splits

text \<open>The operations that touch a table, one table at a time.\<close>

lemma resets_touched:
  assumes "tables_step cx a b"
  shows "ad_resets b = ad_resets a \<or> (\<exists>uid dig ex r. create_password_reset_token uid dig ex (cx_utc cx) a = (r, b)) \<or>
    (\<exists>dig r. claim_password_reset_token dig (cx_utc cx) a = (r, b))"
  using assms
proof cases
  case new_reset then show ?thesis by blast
next
  case claim_reset then show ?thesis by blast
qed (rule disjI1, (auto simp: row_ops Let_def split: row_splits)[1])+

lemma accounts_touched:
  assumes "tables_step cx a b"
  shows "ad_accounts b = ad_accounts a \<or>
    (\<exists>n. account_of a (au_id n) = None \<and> ad_accounts b = ad_accounts a @ [n]) \<or>
    (\<exists>uid up. ad_accounts b = map (\<lambda>x. if au_id x = uid then updated_account up x else x) (ad_accounts a)) \<or>
    (\<exists>uid w. ad_accounts b = map (\<lambda>x. if au_id x = uid then x\<lparr>au_mfa_enrolled_at := w\<rparr> else x) (ad_accounts a))"
  using assms
proof cases
  case new_user then show ?thesis by (auto simp: create_user_def Let_def split: if_splits)
next
  case (user_row uid up r)
  have "ad_accounts b = ad_accounts a \<or>
      ad_accounts b = map (\<lambda>x. if au_id x = uid then updated_account up x else x) (ad_accounts a)"
    using user_row by (auto simp: update_user_row_def split: row_splits)
  then show ?thesis by blast
next
  case (enrolled uid r)
  have "\<exists>w. ad_accounts b = ad_accounts a \<or>
      ad_accounts b = map (\<lambda>x. if au_id x = uid then x\<lparr>au_mfa_enrolled_at := w\<rparr> else x) (ad_accounts a)"
    using enrolled by (auto simp: recompute_user_mfa_enrolled_def set_user_mfa_enrolled_def Let_def split: row_splits)
  then show ?thesis by blast
qed (rule disjI1, (auto simp: row_ops Let_def split: row_splits)[1])+

lemma totp_touched:
  assumes "tables_step cx a b"
  shows "set (ad_totp b) \<subseteq> set (ad_totp a) \<or>
    (\<forall>x \<in> set (ad_totp b). x \<in> set (ad_totp a) \<or> tp_id x = cx_row_id cx) \<or>
    (\<exists>t \<in> set (ad_totp a). tp_confirmed_at t = None \<and>
       (\<forall>x \<in> set (ad_totp b). x \<in> set (ad_totp a) \<or> tp_id x = tp_id t)) \<or>
    (\<exists>t \<in> set (ad_totp a). \<exists>st. \<not> is_some_and (tp_last_used_step t) (\<lambda>l. st \<le> l) \<and>
       (\<forall>x \<in> set (ad_totp b). x \<in> set (ad_totp a) \<or>
          (tp_id x = tp_id t \<and> (\<exists>y \<in> set (ad_totp a). x = y\<lparr>tp_last_used_step := Some st\<rparr>))))"
  using assms
proof cases
  case begin_totp then show ?thesis by (auto simp: begin_totp_setup_def Let_def)
next
  case (finalize_totp uid tid r)
  then have "\<forall>x \<in> set (ad_totp b). x \<in> set (ad_totp a) \<or> tp_id x = tid"
    by (auto simp: finalize_totp_confirmation_def Let_def split: if_splits)
  then show ?thesis using finalize_totp(2) by blast
next
  case (use_step tid st r)
  then have "\<forall>x \<in> set (ad_totp b). x \<in> set (ad_totp a) \<or>
      (tp_id x = tid \<and> (\<exists>y \<in> set (ad_totp a). x = y\<lparr>tp_last_used_step := Some st\<rparr>))"
    by (auto simp: update_totp_last_used_step_def split: if_splits)
  then show ?thesis using use_step(2) by blast
qed (rule disjI1, (auto simp: row_ops Let_def split: row_splits)[1])+

text \<open>A reset link that was used or replaced.\<close>

definition link_spent :: "string \<Rightarrow> auth_db \<Rightarrow> bool" where
  "link_spent h db \<longleftrightarrow> (\<exists>t \<in> set (ad_resets db). pr_token_hash t = h) \<and>
     (\<forall>t \<in> set (ad_resets db). pr_token_hash t = h \<longrightarrow> pr_used_at t \<noteq> None)"

lemma link_spent_map:
  "(\<And>t. pr_token_hash (f t) = pr_token_hash t \<and> (pr_used_at t \<noteq> None \<longrightarrow> pr_used_at (f t) \<noteq> None)) \<Longrightarrow>
   link_spent h db \<Longrightarrow> ad_resets db' = map f (ad_resets db) \<Longrightarrow> link_spent h db'"
  by (fastforce simp: link_spent_def)

lemma link_spent_step: "tables_step cx a b \<Longrightarrow> link_spent h a \<Longrightarrow> link_spent h b"
proof (elim resets_touched [elim_format] disjE exE)
  fix uid dig ex r
  assume "create_password_reset_token uid dig ex (cx_utc cx) a = (r, b)" "link_spent h a"
  then show "link_spent h b"
    by (fastforce simp: create_password_reset_token_def Let_def link_spent_def list_ex_iff split: if_splits)
next
  fix dig r
  assume "claim_password_reset_token dig (cx_utc cx) a = (r, b)" "link_spent h a"
  then show "link_spent h b"
    by (intro link_spent_map [of "\<lambda>t. if live_reset dig (cx_utc cx) t then t\<lparr>pr_used_at := Some (cx_utc cx)\<rparr> else t" h a b])
      (auto simp: claim_password_reset_token_def)
qed (simp add: link_spent_def)

interpretation spent_links: guarded_fact "auth_step v" "\<lambda>h s. link_spent h (ap_db s)" "\<lambda>_ _. False" for v
  by unfold_locales (blast intro: kept_by_request [where F = "link_spent h" for h] link_spent_step)

lemma same_row: "distinct (map f xs) \<Longrightarrow> x \<in> set xs \<Longrightarrow> y \<in> set xs \<Longrightarrow> f x = f y \<Longrightarrow> x = y"
  by (auto simp: distinct_map dest: inj_onD)

lemma claim_spends:
  assumes "claim_password_reset_token h now db = (Some uid, db')" "distinct (map pr_token_hash (ad_resets db))"
  shows "link_spent h db'"
proof -
  obtain t where t: "t \<in> set (ad_resets db)" "live_reset h now t"
    using assms(1) by (auto simp: claim_password_reset_token_def dest: find_SomeD)
  let ?f = "\<lambda>x. if live_reset h now x then x\<lparr>pr_used_at := Some now\<rparr> else x"
  have f: "pr_token_hash (?f x) = pr_token_hash x" for x by simp
  have h: "pr_token_hash t = h" using t(2) by (simp add: live_reset_def)
  have "ad_resets db' = map ?f (ad_resets db)"
    using assms(1) by (auto simp: claim_password_reset_token_def)
  then have R: "set (ad_resets db') = ?f ` set (ad_resets db)" by simp
  have "pr_used_at x \<noteq> None" if x: "x \<in> set (ad_resets db')" "pr_token_hash x = h" for x
  proof -
    obtain y where y: "y \<in> set (ad_resets db)" "x = ?f y" using x(1) R by blast
    then have "pr_token_hash y = pr_token_hash t" using x(2) f [of y] h by simp
    then have "y = t" by (rule same_row [OF assms(2) y(1) t(1)])
    with y(2) t(2) show ?thesis by simp
  qed
  moreover have "?f t \<in> set (ad_resets db')" unfolding R using t(1) by blast
  ultimately show ?thesis
    using f [of t] h unfolding link_spent_def by blast
qed

lemma spent_is_dead: "link_spent h db \<Longrightarrow> fst (claim_password_reset_token h now db) = None"
  by (auto simp: claim_password_reset_token_def link_spent_def live_reset_def find_None_iff)

text \<open>A later state of an account: the session epoch grows, and strictly so with a new password.\<close>

definition later_account :: "account \<Rightarrow> account \<Rightarrow> bool" where
  "later_account a b \<longleftrightarrow> au_token_version a \<le> au_token_version b \<and>
     (au_password_hash b \<noteq> au_password_hash a \<longrightarrow> au_token_version a < au_token_version b)"

lemma later_refl [simp]: "later_account a a"
  by (simp add: later_account_def)

lemma later_trans: "later_account a b \<Longrightarrow> later_account b c \<Longrightarrow> later_account a c"
  by (auto simp: later_account_def)

definition followed_by :: "uuid \<Rightarrow> account \<Rightarrow> auth_db \<Rightarrow> bool" where
  "followed_by uid a db \<longleftrightarrow> is_some_and (account_of db uid) (later_account a)"

lemma account_of_map:
  "(\<And>x. au_id (f x) = au_id x) \<Longrightarrow> ad_accounts db' = map f (ad_accounts db) \<Longrightarrow>
   account_of db' uid = map_option f (account_of db uid)"
  by (simp add: account_of_def find_map)

lemma followed_map:
  assumes "\<And>x. au_id (f x) = au_id x \<and> later_account x (f x)" "ad_accounts db' = map f (ad_accounts db)"
    "followed_by uid a db"
  shows "followed_by uid a db'"
proof -
  obtain y where "account_of db uid = Some y" "later_account a y"
    using assms(3) by (auto simp: followed_by_def is_some_and_iff)
  moreover have "account_of db' uid = map_option f (account_of db uid)"
    by (rule account_of_map) (use assms in auto)
  moreover have "later_account y (f y)" using assms(1) by simp
  ultimately show ?thesis using later_trans [of a y "f y"] by (simp add: followed_by_def)
qed

lemma later_updated [simp]: "later_account x (updated_account up x)"
  by (cases "up_password_hash up") (auto simp: later_account_def updated_account_def)

lemma updated_id [simp]: "au_id (updated_account up x) = au_id x"
  by (simp add: updated_account_def)

lemma followed_same: "ad_accounts db' = ad_accounts db \<Longrightarrow> followed_by uid a db \<Longrightarrow> followed_by uid a db'"
  by (simp add: followed_by_def account_of_def)

lemma followed_step: "tables_step cx x y \<Longrightarrow> followed_by uid a x \<Longrightarrow> followed_by uid a y"
proof (elim accounts_touched [elim_format] disjE exE)
  fix n
  assume "account_of x (au_id n) = None \<and> ad_accounts y = ad_accounts x @ [n]" "followed_by uid a x"
  then show "followed_by uid a y"
    by (auto simp: followed_by_def account_of_def find_append is_some_and_iff)
next
  fix u up
  assume "ad_accounts y = map (\<lambda>b. if au_id b = u then updated_account up b else b) (ad_accounts x)" "followed_by uid a x"
  then show "followed_by uid a y"
    by (rule followed_map [of "\<lambda>b. if au_id b = u then updated_account up b else b", rotated]) simp
next
  fix u w
  assume "ad_accounts y = map (\<lambda>b. if au_id b = u then b\<lparr>au_mfa_enrolled_at := w\<rparr> else b) (ad_accounts x)"
    "followed_by uid a x"
  then show "followed_by uid a y"
    by (rule followed_map [of "\<lambda>b. if au_id b = u then b\<lparr>au_mfa_enrolled_at := w\<rparr> else b", rotated])
      (simp add: later_account_def)
qed (rule followed_same)

interpretation account_history: guarded_fact "auth_step v" "\<lambda>(uid, a) s. followed_by uid a (ap_db s)" "\<lambda>_ _. False" for v
  by unfold_locales (auto intro: kept_by_request [where F = "followed_by uid a" for uid a] followed_step)

text \<open>An authenticator that has accepted a step: no state of it accepts that step or an earlier one.\<close>

definition past_step :: "uuid \<Rightarrow> int \<Rightarrow> auth_db \<Rightarrow> bool" where
  "past_step tid st db \<longleftrightarrow>
     (\<forall>t \<in> set (ad_totp db). tp_id t = tid \<longrightarrow> tp_confirmed_at t \<noteq> None \<and> is_some_and (tp_last_used_step t) (\<lambda>l. st \<le> l))"

lemma past_step_step:
  assumes "tables_step cx a b" "cx_row_id cx \<noteq> tid" "past_step tid st a"
  shows "past_step tid st b"
  unfolding past_step_def
proof (intro ballI impI)
  fix x
  assume x: "x \<in> set (ad_totp b)" "tp_id x = tid"
  have F: "y \<in> set (ad_totp a) \<Longrightarrow> tp_id y = tid \<Longrightarrow>
      tp_confirmed_at y \<noteq> None \<and> is_some_and (tp_last_used_step y) (\<lambda>l. st \<le> l)" for y
    using assms(3) by (simp add: past_step_def)
  show "tp_confirmed_at x \<noteq> None \<and> is_some_and (tp_last_used_step x) (\<lambda>l. st \<le> l)"
    using totp_touched [OF assms(1)]
  proof (elim disjE bexE exE conjE)
    fix t st'
    assume t: "t \<in> set (ad_totp a)" "\<not> is_some_and (tp_last_used_step t) (\<lambda>l. st' \<le> l)"
      and new: "\<forall>x \<in> set (ad_totp b). x \<in> set (ad_totp a) \<or>
          (tp_id x = tp_id t \<and> (\<exists>y \<in> set (ad_totp a). x = y\<lparr>tp_last_used_step := Some st'\<rparr>))"
    show ?thesis
    proof (cases "x \<in> set (ad_totp a)")
      case False
      then obtain y where y: "tp_id t = tid" "y \<in> set (ad_totp a)" "x = y\<lparr>tp_last_used_step := Some st'\<rparr>"
        using bspec [OF new x(1)] x(2) by metis
      then have "tp_id y = tid" using x by simp
      with F [OF t(1)] F [OF y(2)] t(2) y show ?thesis by (auto simp: is_some_and_iff)
    qed (use F x in auto)
  next
    fix t
    assume t: "t \<in> set (ad_totp a)" "tp_confirmed_at t = None"
      and new: "\<forall>x \<in> set (ad_totp b). x \<in> set (ad_totp a) \<or> tp_id x = tp_id t"
    then have "x \<in> set (ad_totp a)" using F [OF t(1)] bspec [OF new x(1)] x(2) by auto
    then show ?thesis using F x(2) by simp
  qed (use F x assms(2) in auto)
qed

interpretation used_steps: guarded_fact "auth_step v" "\<lambda>(tid, st) s. past_step tid st (ap_db s)"
  "\<lambda>(tid, _) e. cx_row_id (fst e) = tid" for v
  by unfold_locales (auto intro: kept_by_request [where F = "past_step tid st" for tid st] past_step_step)

section \<open>The challenge store\<close>

text \<open>A request puts at most the token it drew into the store.\<close>

lemma take_challenges:
  "take_login cx t s = (x, s') \<Longrightarrow> ap_challenges s' k = Some c \<Longrightarrow> k \<noteq> t \<and> ap_challenges s k = Some c"
  "take_registration cx t s = (y, s') \<Longrightarrow> ap_challenges s' k = Some c \<Longrightarrow> k \<noteq> t \<and> ap_challenges s k = Some c"
  by (auto simp: take_login_def take_registration_def take_challenge_def Let_def prune_expired_def split: prod.splits if_splits)

lemma put_challenges:
  "k \<noteq> cx_token cx \<Longrightarrow> ap_challenges (snd (put_login cx e s)) k = Some c \<Longrightarrow> ap_challenges s k = Some c"
  "k \<noteq> cx_token cx \<Longrightarrow> ap_challenges (snd (put_registration cx r s)) k = Some c \<Longrightarrow> ap_challenges s k = Some c"
  by (auto simp: put_login_def put_registration_def put_challenge_def prune_expired_def)

lemma mail_challenges [simp]:
  "ap_challenges (send_mail v to t u e s) = ap_challenges s"
  "ap_challenges (issue_verification_mail_for v cx uid eid addr s) = ap_challenges s"
  "ap_challenges (issue_verification_mail v cx me s) = ap_challenges s"
  by (simp_all add: send_mail_def issue_verification_mail_def issue_verification_mail_for_def split: prod.split sum.split)

lemma change_primary_challenges: "change_primary v cx uid em s = (r, s') \<Longrightarrow> ap_challenges s' = ap_challenges s"
  by (auto simp: change_primary_def split: prod.splits sum.splits)

lemma mint_challenges: "mint_recovery_codes v cx uid s = (r, s') \<Longrightarrow> ap_challenges s' = ap_challenges s"
  by (auto simp: mint_recovery_codes_def split: sum.splits)

lemma register_challenges: "ap_challenges (snd (register v cx rq s)) = ap_challenges s"
proof -
  have p: "registration_phrase v cx rq s = (r, s1) \<Longrightarrow> ap_challenges s1 = ap_challenges s" for r s1
    by (auto simp: registration_phrase_def Let_def split: if_splits prod.splits sum.splits dest: may_try_frame)
  have q: "registration_recaptcha v cx rq s1 = (r, s2) \<Longrightarrow> ap_challenges s2 = ap_challenges s1" for r s1 s2
    by (auto simp: registration_recaptcha_def Let_def split: if_splits sum.splits bool.splits)
  have a: "ap_challenges (snd (register_account v cx rq s2)) = ap_challenges s2" for s2
    by (simp add: register_account_def Let_def split: sum.split prod.split)
  obtain r1 s1 where 1: "registration_phrase v cx rq s = (r1, s1)" by fastforce
  obtain r2 s2 where 2: "registration_recaptcha v cx rq s1 = (r2, s2)" by fastforce
  show ?thesis
    by (simp add: register_def 1 2 p [OF 1] q [OF 2] a split: sum.split option.split)
qed

lemma login_challenges:
  assumes "k \<noteq> cx_token cx" "ap_challenges (snd (login v cx ident pw s)) k = Some c"
  shows "ap_challenges s k = Some c"
proof -
  have f: "ap_challenges (snd (finish_login v cx u t)) k = Some c \<Longrightarrow> ap_challenges t k = Some c" for u t
    using assms(1) put_challenges(1) [of k cx _ t c]
    by (auto simp: finish_login_def build_login_challenge_def Let_def put_login_def
        split: sum.splits prod.splits if_splits)
  show ?thesis
    using assms(2) by (auto simp: login_def Let_def split: sum.splits prod.splits if_splits dest!: f dest: may_try_frame(2))
qed

lemma verify_challenges:
  assumes "ap_challenges (snd (verify_login v cx rq s)) k = Some c"
  shows "ap_challenges s k = Some c \<and> (require_mfa_enabled v = None \<longrightarrow> k \<noteq> vq_challenge_token rq)"
proof -
  have "ap_challenges (snd (complete_challenge v cx u ch rq t)) = ap_challenges t" for u ch t
    by (auto simp: complete_challenge_def Let_def split: sum.split prod.split dest: may_try_frame(2))
  with assms show ?thesis
    by (auto simp: verify_login_def split: option.splits prod.splits if_splits dest: take_challenges(1))
qed

lemma user_step_challenges:
  assumes "k \<noteq> cx_token cx" "ap_challenges (user_step v cx me act s) k = Some c"
  shows "ap_challenges s k = Some c"
proof (cases act)
  case (UUpdate uid rq)
  with assms(2) show ?thesis
    by (auto simp: update_account_def Let_def split: sum.splits prod.splits option.splits dest!: change_primary_challenges)
next
  case (UTotpConfirm w code)
  with assms(2) show ?thesis
    by (auto simp: totp_confirm_def Let_def split: sum.splits prod.splits option.splits if_splits dest!: mint_challenges)
next
  case URecoveryCodes
  with assms(2) show ?thesis
    by (cases "mint_recovery_codes v cx (au_id me) s")
      (auto simp: recovery_regenerate_def split: option.splits dest!: mint_challenges)
next
  case (UWebauthnFinish t r)
  with assms(2) show ?thesis
    by (auto simp: webauthn_register_finish_def split: sum.splits prod.splits option.splits if_splits
        dest: take_challenges(2))
next
  case (UWebauthnBegin l)
  with assms show ?thesis
    by (auto simp: webauthn_register_begin_def put_registration_def put_challenge_def prune_expired_def
        split: option.splits prod.splits if_splits)
qed (use assms(2) in \<open>auto simp: change_own_password_def add_user_email_def remove_user_email_def
      set_primary_user_email_def resend_user_email_def totp_setup_def totp_disable_def webauthn_remove_def Let_def
      split: sum.splits prod.splits option.splits if_splits\<close>)

lemma no_new_challenge:
  assumes "ap_challenges s k = None" "cx_token (fst e) \<noteq> k"
  shows "ap_challenges (auth_step v e s) k = None"
proof (rule ccontr)
  assume "ap_challenges (auth_step v e s) k \<noteq> None"
  then obtain c where c: "ap_challenges (auth_step v e s) k = Some c" by blast
  obtain cx r where e: "e = (cx, r)" by fastforce
  have m: "ap_challenges (snd (password_reset_request v cx em s)) = ap_challenges s"
    "ap_challenges (snd (resend_verification v cx em s)) = ap_challenges s" for em
    by (auto simp: password_reset_request_def resend_verification_def generate_token_def Let_def
        split: sum.split prod.split option.split dest: may_try_frame(2))
  have l: "ap_challenges (snd (password_reset_consume v cx tok pw s)) = ap_challenges s"
    "ap_challenges (snd (verify_email v cx tok s)) = ap_challenges s" for tok pw
    by (simp_all add: password_reset_consume_def verify_email_def Let_def split: sum.split prod.split option.split)
  show False
    using assms c by (cases r) (auto simp: e m l register_challenges split: sum.splits
        dest: login_challenges [rotated] verify_challenges user_step_challenges [rotated])
qed

interpretation gone_challenges: guarded_fact "auth_step v" "\<lambda>k s. ap_challenges s k = None"
  "\<lambda>k e. cx_token (fst e) = k" for v
  by unfold_locales (rule no_new_challenge)

section \<open>Accepting a code\<close>

text \<open>The authenticator and the step that a code is accepted for, if it is.\<close>

definition takes :: "auth_env \<Rightarrow> call \<Rightarrow> string \<Rightarrow> string \<Rightarrow> user_mfa_totp \<Rightarrow> (uuid \<times> int) option" where
  "takes v cx email code row =
     (case verify_totp_step v cx (tp_secret_base32 row) email code of
        None \<Rightarrow> None
      | Some step \<Rightarrow> if is_some_and (tp_last_used_step row) (\<lambda>last. int step \<le> last) then None
                     else Some (tp_id row, int step))"

definition accepted_step :: "auth_env \<Rightarrow> call \<Rightarrow> account \<Rightarrow> string option \<Rightarrow> auth_db \<Rightarrow> (uuid \<times> int) option" where
  "accepted_step v cx user code db =
     Option.bind (given_code code) (\<lambda>c. find_map (takes v cx (email_of db (au_id user)) c)
       (filter (\<lambda>t. tp_confirmed_at t \<noteq> None) (list_user_totp db (au_id user))))"

lemma find_map_Some: "find_map f xs = Some y \<Longrightarrow> \<exists>x \<in> set xs. f x = Some y"
  by (induction xs) (auto split: option.splits)

lemma taken_row:
  "takes v cx em c row = Some (tid, st) \<Longrightarrow>
   tp_id row = tid \<and> \<not> is_some_and (tp_last_used_step row) (\<lambda>l. st \<le> l)"
  by (auto simp: takes_def split: option.splits if_splits)

lemma try_skips:
  "takes v cx em c r = None \<Longrightarrow> \<exists>b'. try_authenticators v cx em c (r # rows) b db = try_authenticators v cx em c rows b' db"
  by (auto simp: takes_def split: option.splits if_splits)

lemma try_takes:
  "takes v cx em c r = Some (tid, st) \<Longrightarrow> tid \<in> tp_id ` set (ad_totp db) \<Longrightarrow>
   try_authenticators v cx em c (r # rows) b db = (Inr (), snd (update_totp_last_used_step tid st db))"
  by (auto simp: takes_def update_totp_last_used_step_def list_ex_iff split: option.splits if_splits)

lemma try_accepts:
  "find_map (takes v cx em c) rows = Some (tid, st) \<Longrightarrow> tp_id ` set rows \<subseteq> tp_id ` set (ad_totp db) \<Longrightarrow>
   try_authenticators v cx em c rows b db = (Inr (), snd (update_totp_last_used_step tid st db))"
proof (induction rows arbitrary: b)
  case (Cons r rows)
  show ?case
  proof (cases "takes v cx em c r")
    case None
    with Cons.prems have "find_map (takes v cx em c) rows = Some (tid, st)" "tp_id ` set rows \<subseteq> tp_id ` set (ad_totp db)" by auto
    note IH = Cons.IH [OF this]
    obtain b' where "try_authenticators v cx em c (r # rows) b db = try_authenticators v cx em c rows b' db"
      using try_skips [OF None] by blast
    then show ?thesis using IH by simp
  next
    case (Some p)
    with Cons.prems have p: "takes v cx em c r = Some (tid, st)" by simp
    with taken_row [OF p] Cons.prems(2) show ?thesis by (intro try_takes) auto
  qed
qed simp

lemma accepted_iff:
  assumes "accepted_step v cx user code db = Some (tid, st)"
  shows "verify_totp_path v cx user code db = (Inr (), snd (update_totp_last_used_step tid st db))"
    and "\<exists>t \<in> set (ad_totp db). tp_id t = tid \<and> tp_confirmed_at t \<noteq> None \<and>
           \<not> is_some_and (tp_last_used_step t) (\<lambda>l. st \<le> l)"
proof -
  let ?rows = "filter (\<lambda>t. tp_confirmed_at t \<noteq> None) (list_user_totp db (au_id user))"
  obtain c where c: "given_code code = Some c" "find_map (takes v cx (email_of db (au_id user)) c) ?rows = Some (tid, st)"
    using assms by (auto simp: accepted_step_def Option.bind_eq_Some_conv)
  have "tp_id ` set ?rows \<subseteq> tp_id ` set (ad_totp db)" by (auto simp: listed_totp)
  from try_accepts [OF c(2) this]
  have "try_authenticators v cx (email_of db (au_id user)) c ?rows False db =
      (Inr (), snd (update_totp_last_used_step tid st db))" .
  moreover have "?rows \<noteq> []" using c(2) by (cases ?rows) auto
  ultimately show "verify_totp_path v cx user code db = (Inr (), snd (update_totp_last_used_step tid st db))"
    using c(1) by (simp add: verify_totp_path_def Let_def)
  show "\<exists>t \<in> set (ad_totp db). tp_id t = tid \<and> tp_confirmed_at t \<noteq> None \<and>
           \<not> is_some_and (tp_last_used_step t) (\<lambda>l. st \<le> l)"
    using find_map_Some [OF c(2)] taken_row by (fastforce simp: listed_totp)
qed

lemma watermark_ids: "tp_id ` set (ad_totp (snd (update_totp_last_used_step tid st db))) = tp_id ` set (ad_totp db)"
proof -
  have "tp_id ` set (map (\<lambda>t. if tp_id t = tid then t\<lparr>tp_last_used_step := Some st\<rparr> else t) ts) = tp_id ` set ts" for ts
    by (induction ts) auto
  from this [of "ad_totp db"] show ?thesis
    by (simp only: update_totp_last_used_step_def snd_conv if_distrib [of snd] if_distrib [of ad_totp]
        auth_db.select_convs auth_db.update_convs auth_db.simps split: if_split) simp
qed

lemma accepting_passes:
  assumes "accepted_step v cx user code db = Some (tid, st)" "distinct (map tp_id (ad_totp db))"
  shows "past_step tid st (snd (verify_totp_path v cx user code db))"
proof -
  obtain t where t: "t \<in> set (ad_totp db)" "tp_id t = tid" "tp_confirmed_at t \<noteq> None"
    using accepted_iff(2) [OF assms(1)] by blast
  then have "x \<in> set (ad_totp db) \<Longrightarrow> tp_id x = tid \<Longrightarrow> tp_confirmed_at x \<noteq> None" for x
    using same_row [OF assms(2), of x t] by simp
  then show ?thesis
    using t by (auto simp: accepted_iff(1) [OF assms(1)] update_totp_last_used_step_def past_step_def list_ex_iff)
qed

section \<open>Properties\<close>

text \<open>
  A reset link sets one password. Once a link has been consumed, then after any further requests
  (more reset mails included) presenting it again is refused, and no account changes.
\<close>

lemma a_reset_link_sets_one_password:
  assumes "distinct (map pr_token_hash (ad_resets (ap_db s)))"
    and "password_reset_consume v cx tok pw s = (Inr (), s1)"
    and "s2 = run_events (auth_step v) es s1" "hash_token v (trim tok') = hash_token v (trim tok)"
  shows "isl (fst (password_reset_consume v cx' tok' pw' s2)) \<and>
         ad_accounts (ap_db (snd (password_reset_consume v cx' tok' pw' s2))) = ad_accounts (ap_db s2)"
proof -
  let ?h = "hash_token v (trim tok)"
  obtain uid db where c: "claim_password_reset_token ?h (cx_utc cx) (ap_db s) = (Some uid, db)" and
    a: "\<exists>up r. update_user_row uid up db = (r, ap_db s1) \<or>
          (\<exists>d. update_user_row uid up db = (r, d) \<and> ap_db s1 = create_audit_log ''password_reset_completed'' (Some uid) (Some uid) d)"
    using assms(2) by (fastforce simp: password_reset_consume_def Let_def split: if_splits prod.splits option.splits sum.splits)
  have "link_spent ?h db" by (rule claim_spends [OF c assms(1)])
  moreover have "update_user_row uid up db = (r, d) \<Longrightarrow> ad_resets d = ad_resets db" for up r d
    by (auto simp: update_user_row_def split: row_splits)
  ultimately have "link_spent ?h (ap_db s1)" using a by (auto simp: link_spent_def create_audit_log_def)
  then have "link_spent ?h (ap_db s2)" unfolding assms(3) by (rule spent_links.run_guarded) simp
  then show ?thesis
    using spent_is_dead [of ?h "ap_db s2" "cx_utc cx'"]
    by (auto simp: password_reset_consume_def Let_def assms(4) claim_password_reset_token_def create_audit_log_def
        split: prod.split option.split)
qed

definition demo_reset_mailed :: auth_state where
  "demo_reset_mailed = auth_step demo_auth (demo_call 1, RResetRequest ''A@x.org '') demo_site"

text \<open>
  C2. A new password ends every session. If any request leaves an account with another password hash
  (its own change, a manager's, a reset link), then a session token issued for the account before is
  refused from then on, whatever requests follow and whatever the token's expiry.
\<close>

theorem a_new_password_ends_every_session:
  assumes "account_of (ap_db s) uid = Some a" "account_of (ap_db (auth_step v e s)) uid = Some b"
    and "au_password_hash b \<noteq> au_password_hash a"
    and "ax_decode v (ag_jwt_secret (ax_config v)) (cx_utc cx) token = Some c" "cl_user_id c = uid"
    and "cl_token_version c \<le> au_token_version a"
  shows "isl (get_user_from_token v cx token (ap_db (run_events (auth_step v) es (auth_step v e s))))"
proof -
  have "followed_by uid a (ap_db s)" using assms(1) by (simp add: followed_by_def)
  then have "followed_by uid a (ap_db (auth_step v e s))"
    using account_history.step_guarded [where k = "(uid, a)" and s = s and e = e and v = v] by simp
  then have "later_account a b" using assms(2) by (simp add: followed_by_def)
  then have v: "cl_token_version c < au_token_version b" using assms(3,6) by (simp add: later_account_def)
  have "followed_by uid b (ap_db (auth_step v e s))" using assms(2) by (simp add: followed_by_def)
  then have "followed_by uid b (ap_db (run_events (auth_step v) es (auth_step v e s)))"
    using account_history.run_guarded [of "(uid, b)" "auth_step v e s" es v] by simp
  then obtain u where "account_of (ap_db (run_events (auth_step v) es (auth_step v e s))) uid = Some u"
      "au_token_version b \<le> au_token_version u"
    by (auto simp: followed_by_def is_some_and_iff later_account_def)
  with v show ?thesis
    by (simp add: get_user_from_token_def verify_token_def assms(4,5))
qed

lemma a_new_password_ends_every_session_witness:
  "isl (get_user_from_token demo_auth (demo_call 9) ''t0''
     (ap_db (run_events (auth_step demo_auth) [(demo_call 5, RLogin ''alice'' ''fresh'')]
        (auth_step demo_auth (demo_call 2, RResetConsume ''tok1'' ''fresh'') demo_reset_mailed)))) \<and>
   get_user_from_token demo_auth (demo_call 9) ''t0'' (ap_db demo_reset_mailed) =
     Inr (hd (ad_accounts demo_accounts))"
proof -
  let ?e = "(demo_call 2, RResetConsume ''tok1'' ''fresh'')"
  obtain a b where ab: "account_of (ap_db demo_reset_mailed) 1 = Some a" "au_token_version a = 0" "au_password_hash a = ''hpass''"
      "account_of (ap_db (auth_step demo_auth ?e demo_reset_mailed)) 1 = Some b" "au_password_hash b = ''hfresh''"
  proof -
    have "map_option (\<lambda>a. (au_token_version a, au_password_hash a)) (account_of (ap_db demo_reset_mailed) 1) = Some (0, ''hpass'')"
      "map_option au_password_hash (account_of (ap_db (auth_step demo_auth ?e demo_reset_mailed)) 1) = Some ''hfresh''"
      by code_simp+
    then show ?thesis using that by auto
  qed
  have d: "ax_decode demo_auth (ag_jwt_secret (ax_config demo_auth)) (cx_utc (demo_call 9)) ''t0'' = Some (demo_claims 1000 0)"
    "cl_user_id (demo_claims 1000 0) = 1" "cl_token_version (demo_claims 1000 0) \<le> au_token_version a"
    by (simp_all add: demo_site_defs seconds_def ab)
  have n: "au_password_hash b \<noteq> au_password_hash a" using ab by simp
  have "get_user_from_token demo_auth (demo_call 9) ''t0'' (ap_db demo_reset_mailed) =
     Inr (hd (ad_accounts demo_accounts))" by code_simp
  with a_new_password_ends_every_session [OF ab(1,4) n d, of "[(demo_call 5, RLogin ''alice'' ''fresh'')]"]
  show ?thesis by simp
qed

text \<open>
  C28. An authenticator never accepts the same step twice. If a code is accepted for a step of an
  authenticator, then after any requests, a code accepted for that authenticator is for a later step:
  the code just used, and any older one still inside the tolerance, are refused.
\<close>

theorem an_authenticator_step_is_used_once:
  assumes "accepted_step v cx user code (ap_db s) = Some (tid, st)" "distinct (map tp_id (ad_totp (ap_db s)))"
    and "ap_db s1 = snd (verify_totp_path v cx user code (ap_db s))"
    and "\<forall>e \<in> set es. cx_row_id (fst e) \<noteq> tid"
    and "accepted_step v cx' user' code' (ap_db (run_events (auth_step v) es s1)) = Some (tid, st')"
  shows "st < st'"
proof -
  have "past_step tid st (ap_db s1)" unfolding assms(3) by (rule accepting_passes [OF assms(1,2)])
  then have p: "past_step tid st (ap_db (run_events (auth_step v) es s1))"
    using used_steps.run_guarded [of "(tid, st)" s1 es v] assms(4) by auto
  obtain t where "t \<in> set (ad_totp (ap_db (run_events (auth_step v) es s1)))" "tp_id t = tid"
      "\<not> is_some_and (tp_last_used_step t) (\<lambda>l. st' \<le> l)"
    using accepted_iff(2) [OF assms(5)] by blast
  with p show ?thesis by (fastforce simp: past_step_def is_some_and_iff)
qed

definition demo_enrolled :: auth_state where
  "demo_enrolled = demo_site\<lparr>ap_db := demo_accounts\<lparr>ad_totp := [\<lparr>tp_id = 5, tp_user_id = 1, tp_secret_base32 = ''s'',
     tp_confirmed_at = Some 0, tp_created_at = 0, tp_last_used_step = None, tp_label = []\<rparr>]\<rparr>\<rparr>"

lemma an_authenticator_step_is_used_once_witness:
  "(2 :: int) < 3 \<and> accepted_step demo_auth (demo_call 60) (hd (ad_accounts demo_accounts)) (Some ''s2'')
      (snd (verify_totp_path demo_auth (demo_call 60) (hd (ad_accounts demo_accounts)) (Some ''s2'') (ap_db demo_enrolled))) = None"
proof -
  let ?u = "hd (ad_accounts demo_accounts)"
  let ?s = "demo_enrolled\<lparr>ap_db := snd (verify_totp_path demo_auth (demo_call 60) ?u (Some ''s2'') (ap_db demo_enrolled))\<rparr>"
  have 1: "accepted_step demo_auth (demo_call 60) ?u (Some ''s2'') (ap_db demo_enrolled) = Some (5, 2)" by code_simp
  have 2: "distinct (map tp_id (ad_totp (ap_db demo_enrolled)))" by code_simp
  have 3: "accepted_step demo_auth (demo_call 90) ?u (Some ''s3'') (ap_db (run_events (auth_step demo_auth) [(demo_call 70, RLogin ''alice'' ''pass'')] ?s)) = Some (5, 3)"
    by code_simp
  have "(2 :: int) < 3"
    by (rule an_authenticator_step_is_used_once [OF 1 2 _ _ 3]) (simp_all add: demo_call_def)
  moreover have "accepted_step demo_auth (demo_call 60) ?u (Some ''s2'')
      (snd (verify_totp_path demo_auth (demo_call 60) ?u (Some ''s2'') (ap_db demo_enrolled))) = None" by code_simp
  ultimately show ?thesis by simp
qed

text \<open>
  C29. Two concurrent requests replay a code. The step is read with the rows and written by an
  unconditional update. So a second request that read the rows before the first one wrote is accepted
  with the same code, whereas a recovery code is spent by a conditional update, and the second of two
  such requests is refused.
\<close>

theorem concurrent_requests_replay_a_code:
  assumes "accepted_step v cx user (Some code) db = Some (tid, st)"
    and "rows = filter (\<lambda>t. tp_confirmed_at t \<noteq> None) (list_user_totp db (au_id user))"
    and "db1 = snd (verify_totp_path v cx user (Some code) db)"
    and "mark_recovery_code_used cid now dc = (Inr (), dc1)"
  shows "fst (try_authenticators v cx (email_of db (au_id user)) (trim code) rows False db1) = Inr () \<and>
         isl (fst (mark_recovery_code_used cid now' dc1))"
proof
  let ?em = "email_of db (au_id user)"
  have f: "find_map (takes v cx ?em (trim code)) rows = Some (tid, st)"
    using assms(1,2) by (auto simp: accepted_step_def given_code_def split: if_splits)
  have "db1 = snd (update_totp_last_used_step tid st db)" using assms(3) accepted_iff(1) [OF assms(1)] by simp
  then have ids: "tp_id ` set (ad_totp db1) = tp_id ` set (ad_totp db)" by (simp add: watermark_ids)
  have "tp_id ` set rows \<subseteq> tp_id ` set (ad_totp db1)"
    using ids assms(2) by (auto simp: listed_totp)
  from try_accepts [OF f this] show "fst (try_authenticators v cx ?em (trim code) rows False db1) = Inr ()" by simp
  show "isl (fst (mark_recovery_code_used cid now' dc1))"
    using assms(4) by (auto simp: mark_recovery_code_used_def Let_def list_ex_iff split: if_splits)
qed

lemma concurrent_requests_replay_a_code_witness:
  "fst (try_authenticators demo_auth (demo_call 60) ''a@x.org'' ''s2'' (ad_totp (ap_db demo_enrolled)) False
     (snd (verify_totp_path demo_auth (demo_call 60) (hd (ad_accounts demo_accounts)) (Some ''s2'') (ap_db demo_enrolled)))) = Inr ()"
proof -
  let ?u = "hd (ad_accounts demo_accounts)"
  let ?dc = "demo_accounts\<lparr>ad_recovery := [\<lparr>rv_id = 6, rv_user_id = 1, rv_code_hash = ''h'', rv_used_at = None\<rparr>]\<rparr>"
  have 1: "accepted_step demo_auth (demo_call 60) ?u (Some ''s2'') (ap_db demo_enrolled) = Some (5, 2)" by code_simp
  have 2: "ad_totp (ap_db demo_enrolled) =
      filter (\<lambda>t. tp_confirmed_at t \<noteq> None) (list_user_totp (ap_db demo_enrolled) (au_id ?u))" by code_simp
  have "fst (mark_recovery_code_used 6 0 ?dc) = Inr ()" by code_simp
  then have 3: "mark_recovery_code_used 6 0 ?dc = (Inr (), snd (mark_recovery_code_used 6 0 ?dc))" by (simp add: prod_eq_iff)
  have "email_of (ap_db demo_enrolled) (au_id ?u) = ''a@x.org''" "trim ''s2'' = ''s2''" by code_simp+
  with concurrent_requests_replay_a_code [OF 1 2 refl 3] show ?thesis by simp
qed

text \<open>
  A challenge buys one attempt. Whatever comes of the second step, the challenge token it was made
  with is gone: after any requests that do not happen to draw the same token, another attempt with it
  is refused before any factor is looked at.
\<close>

lemma a_challenge_buys_one_attempt:
  assumes "mf_enabled (ag_mfa (ax_config v))" "s1 = snd (verify_login v cx rq s)"
    and "\<forall>e \<in> set es. cx_token (fst e) \<noteq> vq_challenge_token rq"
    and "vq_challenge_token rq' = vq_challenge_token rq"
  shows "fst (verify_login v cx' rq' (run_events (auth_step v) es s1)) =
           Inl (Unauthorized ''Unknown or expired challenge_token'')"
proof -
  have "ap_challenges s1 (vq_challenge_token rq) = None"
    using verify_challenges [of v cx rq s "vq_challenge_token rq"] assms(1,2)
    by (cases "ap_challenges s1 (vq_challenge_token rq)") (auto simp: require_mfa_enabled_def)
  then have "ap_challenges (run_events (auth_step v) es s1) (vq_challenge_token rq) = None"
    using gone_challenges.run_guarded [of s1 "vq_challenge_token rq" es v] assms(3) by simp
  then show ?thesis
    using assms(1,4)
    by (simp add: verify_login_def require_mfa_enabled_def take_login_def take_challenge_def Let_def prune_expired_def
        map_retain_def)
qed

definition demo_second_step :: mfa_verify_request where
  "demo_second_step = \<lparr>vq_challenge_token = ''tok50'', vq_method = ''totp'', vq_code = Some ''s2'', vq_response = None\<rparr>"

definition demo_asked :: auth_state where
  "demo_asked = snd (login demo_auth (demo_call 50) ''alice'' ''pass''
     (demo_enrolled\<lparr>ap_db := (ap_db demo_enrolled)\<lparr>ad_accounts :=
        map (\<lambda>a. a\<lparr>au_mfa_enrolled_at := Some 0\<rparr>) (ad_accounts demo_accounts)\<rparr>\<rparr>))"

lemma cookie_pair:
  assumes "CHR '';'' \<notin> set token" "\<forall>c \<in> set token. \<not> is_blank c"
  shows "token_from_cookie_header (SESSION_COOKIE_NAME @ CHR ''='' # token) = Some token"
proof -
  have "CHR '';'' \<notin> set (SESSION_COOKIE_NAME @ CHR ''='' # token)"
    using assms(1) by (simp add: SESSION_COOKIE_NAME_def)
  then have s: "split_on (CHR '';'') (SESSION_COOKIE_NAME @ CHR ''='' # token) = [SESSION_COOKIE_NAME @ CHR ''='' # token]"
    by (rule split_on_clean)
  have "CHR ''='' \<notin> set SESSION_COOKIE_NAME" by (simp add: SESSION_COOKIE_NAME_def)
  then have o: "split_once (CHR ''='') (SESSION_COOKIE_NAME @ CHR ''='' # token) = Some (SESSION_COOKIE_NAME, token)"
    by (rule split_once_append)
  have t: "trim SESSION_COOKIE_NAME = SESSION_COOKIE_NAME" by code_simp
  show ?thesis
    unfolding token_from_cookie_header_def s by (simp add: o t trim_clean [OF assms(2)])
qed

text \<open>
  The session cookie round trip. When a sign-in hands out a session, the cookie it sets, sent back
  as a browser sends it while the token is still valid, opens the routes for the account that signed
  in, in preference to any bearer header.
\<close>

lemma a_session_cookie_opens_the_account:
  assumes "login v cx ident pw s = (Inr (SignedIn token cookie m), s1)"
    and "distinct (map au_id (ad_accounts (ap_db s)))"
    and "\<forall>c. ax_encode v (ag_jwt_secret (ax_config v)) c = Some token \<longrightarrow>
             ax_decode v (ag_jwt_secret (ax_config v)) (cx_utc cx') token = Some c"
    and "\<forall>c \<in> set token. c \<noteq> CHR '';'' \<and> \<not> is_blank c"
  shows "\<exists>user. authenticate_user v ident pw (ap_db s) = Inr user \<and>
           auth_user v cx' (Some (takeWhile (\<lambda>c. c \<noteq> CHR '';'') cookie)) bearer (ap_db s1) = Inr user"
proof -
  obtain r s0 where t: "may_try cx (ag_login_throttle_enabled (ax_config v)) (login_key ident)
      (ag_login_throttle_attempts (ax_config v)) (ag_login_throttle_seconds (ax_config v)) s = (r, s0)" by fastforce
  note db = may_try_frame(1) [OF t]
  obtain user where u: "authenticate_user v ident pw (ap_db s) = Inr user"
    and f: "finish_login v cx user (note_success (ag_login_throttle_enabled (ax_config v)) (login_key ident) s0) =
              (Inr (SignedIn token cookie m), s1)"
    using assms(1) db by (auto simp: login_def Let_def t split: if_splits sum.splits)
  have enc: "ax_encode v (ag_jwt_secret (ax_config v)) (new_claims v cx user (ag_jwt_expiration_hours (ax_config v))) = Some token"
    and ck: "cookie = session_cookie v token"
    and db1: "ap_db s1 = create_audit_log ''user_login'' (Some (au_id user)) None (ap_db s)"
    using f db by (auto simp: finish_login_def create_token_def build_login_challenge_def Let_def
        split: if_splits sum.splits option.splits prod.splits)
  have "user \<in> set (ad_accounts (ap_db s))" "account_active (ap_db s) (au_id user)"
    using u by (auto simp: authenticate_user_def find_user_by_username_def find_user_by_email_def account_of_def Let_def
        Option.bind_eq_Some_conv split: option.splits sum.splits if_splits dest!: find_SomeD)
  then have acc: "account_of (ap_db s1) (au_id user) = Some user" "account_active (ap_db s1) (au_id user)"
    using find_row_iff [OF assms(2)] by (simp_all add: db1 account_of_def account_active_def create_audit_log_def)
  have "takeWhile (\<lambda>c. c \<noteq> CHR '';'') cookie = ''css_session='' @ token"
    using assms(4) by (simp add: ck session_cookie_def session_set_cookie_def SESSION_COOKIE_NAME_def
        takeWhile_append2)
  moreover have "token_from_cookie_header (''css_session='' @ token) = Some token"
    using cookie_pair [of token] assms(4) by (auto simp: SESSION_COOKIE_NAME_def)
  moreover have "ax_decode v (ag_jwt_secret (ax_config v)) (cx_utc cx') token =
      Some (new_claims v cx user (ag_jwt_expiration_hours (ax_config v)))"
    using assms(3) enc by blast
  ultimately show ?thesis
    using u acc by (simp add: auth_user_def select_request_token_def get_user_from_token_def verify_token_def new_claims_def)
qed

end
