(* ===== verification/Auth_Emails.thy ===== *)
theory Auth_Emails
  imports Auth_Safety
begin

text \<open>
  The change of a primary address, which is two transactions: the new row replaces the old one, then a
  link for it is issued. Issuing spends the live links of the primary address. Between the two, and
  for good when the mailer is off, the link mailed to the old address confirms the new one.
\<close>

section \<open>Presenting a link\<close>

lemma claim_finds:
  assumes "t \<in> set (ad_verifications db)" "live_verification h now t" "distinct (map ev_token_hash (ad_verifications db))"
  shows "fst (claim_email_verification_token h now db) = Some (ev_user_id t, ev_user_email_id t)"
proof -
  have "find (live_verification h now) (ad_verifications db) \<noteq> None"
    using assms(1,2) by (auto simp: find_None_iff)
  then obtain x where x: "find (live_verification h now) (ad_verifications db) = Some x" by blast
  then have "x \<in> set (ad_verifications db)" "live_verification h now x" by (auto simp: find_Some_iff)
  with assms have "x = t" by (auto simp: live_verification_def distinct_map inj_on_def)
  with x show ?thesis by (simp add: claim_email_verification_token_def)
qed

lemma claim_leaves_emails [simp]: "ad_emails (snd (claim_email_verification_token h now db)) = ad_emails db"
  by (simp add: claim_email_verification_token_def)

lemma verify_confirms_primary:
  assumes "claim_email_verification_token (hash_token v (trim tok)) (cx_utc cx) (ap_db s) = (Some (uid, None), db)"
    and "primary_email (ap_db s) uid = Some e"
  shows "fst (verify_email v cx tok s) = Inr ()"
    and "primary_email (ap_db (snd (verify_email v cx tok s))) uid = Some (e\<lparr>ue_verified_at := Some (cx_utc cx)\<rparr>)"
proof -
  have em: "ad_emails db = ad_emails (ap_db s)"
    using claim_leaves_emails [of "hash_token v (trim tok)" "cx_utc cx" "ap_db s"] assms(1) by simp
  have c: "confirms uid None = (\<lambda>e. ue_user_id e = uid \<and> ue_is_primary e)" by (simp add: fun_eq_iff confirms_def)
  have find_upd: "find P (map (\<lambda>e. if P e then f e else e) xs) = map_option f (find P xs)"
    if "\<And>e. P (f e) = P e" for P and f :: "user_email \<Rightarrow> user_email" and xs
    using that by (induction xs) auto
  have f: "find (confirms uid None) (ad_emails (ap_db s)) = Some e"
    using assms(2) by (simp add: primary_email_def c)
  then have "list_ex (confirms uid None) (ad_emails db)" by (auto simp: em list_ex_iff find_Some_iff)
  then have m: "mark_email_verified uid None (cx_utc cx) db = (Inr (), db\<lparr>ad_emails :=
      map (\<lambda>e. if confirms uid None e then e\<lparr>ue_verified_at := Some (cx_utc cx)\<rparr> else e) (ad_emails db)\<rparr>)"
    by (simp add: mark_email_verified_def)
  show "fst (verify_email v cx tok s) = Inr ()" using assms(1) m by (simp add: verify_email_def)
  have "find (confirms uid None) (map (\<lambda>e. if confirms uid None e then e\<lparr>ue_verified_at := Some (cx_utc cx)\<rparr> else e)
      (ad_emails (ap_db s))) = Some (e\<lparr>ue_verified_at := Some (cx_utc cx)\<rparr>)"
    by (subst find_upd) (simp_all add: f confirms_def)
  then show "primary_email (ap_db (snd (verify_email v cx tok s))) uid = Some (e\<lparr>ue_verified_at := Some (cx_utc cx)\<rparr>)"
    using assms(1) m
    by (simp add: verify_email_def log_auth_def create_audit_log_def primary_email_def em flip: c)
qed

section \<open>Replacing the primary address\<close>

lemma drop_keeps_primary_links:
  "t \<in> set (ad_verifications db) \<Longrightarrow> ev_user_email_id t = None \<Longrightarrow> t \<in> set (ad_verifications (drop_emails P db))"
  "distinct (map ev_token_hash (ad_verifications db)) \<Longrightarrow>
     distinct (map ev_token_hash (ad_verifications (drop_emails P db)))"
  by (auto simp: drop_emails_def Let_def distinct_map_filter)

lemma replaced_primary:
  assumes "replace_primary_user_email eid now uid new stale db = (Inr row, db')"
  shows "primary_email db' uid = Some row" "ue_email row = trim new" "ue_verified_at row = None"
    and "t \<in> set (ad_verifications db) \<Longrightarrow> ev_user_email_id t = None \<Longrightarrow> t \<in> set (ad_verifications db')"
    and "distinct (map ev_token_hash (ad_verifications db)) \<Longrightarrow> distinct (map ev_token_hash (ad_verifications db'))"
proof -
  let ?P = "\<lambda>e. ue_user_id e = uid \<and> ue_is_primary e"
  have none: "find ?P (filter (\<lambda>e. \<not> ?P e) xs) = None" for xs :: "user_email list"
    by (auto simp: find_None_iff)
  have "row = \<lparr>ue_id = eid, ue_user_id = uid, ue_email = trim new, ue_is_primary = True, ue_verified_at = None,
      ue_created_at = now\<rparr>" and "\<exists>xs. ad_emails db' = filter (\<lambda>e. \<not> ?P e) xs @ [row]"
    using assms by (auto simp: replace_primary_user_email_def Let_def drop_emails_def simp del: filter_filter split: if_splits)
  then show "primary_email db' uid = Some row" "ue_email row = trim new" "ue_verified_at row = None"
    using none by (auto simp: primary_email_def find_append simp del: filter_filter)
  show "t \<in> set (ad_verifications db) \<Longrightarrow> ev_user_email_id t = None \<Longrightarrow> t \<in> set (ad_verifications db')"
    and "distinct (map ev_token_hash (ad_verifications db)) \<Longrightarrow> distinct (map ev_token_hash (ad_verifications db'))"
    using assms
    by (auto simp: replace_primary_user_email_def Let_def drop_keeps_primary_links split: if_splits)
qed

text \<open>With the mailer on, the change as a whole spends what was live for the primary address.\<close>

lemma issuing_spends_primary_links:
  assumes "ag_email_enabled (ax_config v)" "account_of (ap_db s) uid \<noteq> None"
    and "\<not> list_ex (\<lambda>t. ev_token_hash t = hash_token v (cx_token cx)) (ad_verifications (ap_db s))"
    and "t \<in> set (ad_verifications (ap_db (issue_verification_mail_for v cx uid None addr s)))"
    and "ev_user_id t = uid" "ev_user_email_id t = None" "ev_used_at t = None"
  shows "ev_token_hash t = hash_token v (cx_token cx)"
proof -
  have m: "ad_verifications (ap_db (send_mail v to k u e x)) = ad_verifications (ap_db x)" for to k u e x
    by (simp add: send_mail_def create_audit_log_def)
  have "ad_verifications (ap_db (issue_verification_mail_for v cx uid None addr s)) =
      map (\<lambda>t. if ev_user_id t = uid \<and> ev_user_email_id t = None \<and> ev_used_at t = None
        then t\<lparr>ev_used_at := Some (cx_utc cx)\<rparr> else t) (ad_verifications (ap_db s)) @
      [\<lparr>ev_user_id = uid, ev_user_email_id = None, ev_token_hash = hash_token v (cx_token cx),
        ev_expires_at = cx_utc cx + hours VERIFICATION_TOKEN_TTL_HOURS, ev_used_at = None\<rparr>]"
    using assms(1-3)
    by (simp add: issue_verification_mail_for_def generate_token_def create_email_verification_token_def Let_def m
        hash_token_def is_none_or_iff split: if_splits)
  with assms(4) have t: "t \<in> (\<lambda>t. if ev_user_id t = uid \<and> ev_user_email_id t = None \<and> ev_used_at t = None
        then t\<lparr>ev_used_at := Some (cx_utc cx)\<rparr> else t) ` set (ad_verifications (ap_db s)) \<or>
      ev_token_hash t = hash_token v (cx_token cx)" (is "t \<in> ?f ` _ \<or> _")
    by (simp only: set_append set_map Un_iff list.set(1,2) insert_iff empty_iff) auto
  have key: "\<not> (ev_user_id (?f x) = uid \<and> ev_user_email_id (?f x) = None \<and> ev_used_at (?f x) = None)" for x
    by (cases "ev_user_id x = uid \<and> ev_user_email_id x = None \<and> ev_used_at x = None") auto
  from t show ?thesis
  proof
    assume "t \<in> ?f ` set (ad_verifications (ap_db s))"
    then obtain x where "t = ?f x" by (rule imageE)
    then have "\<not> (ev_user_id t = uid \<and> ev_user_email_id t = None \<and> ev_used_at t = None)"
      using key [of x] by (simp only: not_False_eq_True)
    with assms(5-7) show ?thesis by blast
  qed
qed

text \<open>
  An old link confirms the new address. The links of a primary address do not name its row, and the
  change deletes the old row before it issues a new link. So at any request that runs between the two
  transactions, or at any later time when the mailer is off and no link is issued, the link mailed to
  the old address is accepted, and the new address, to which nothing was ever mailed, is confirmed.
\<close>

lemma old_link_confirms_new_address:
  assumes "replace_primary_user_email eid now uid new stale (ap_db s) = (Inr row, db)"
    and "t \<in> set (ad_verifications (ap_db s))" "ev_user_id t = uid" "ev_user_email_id t = None"
    and "live_verification (hash_token v (trim tok)) (cx_utc cx) t"
    and "distinct (map ev_token_hash (ad_verifications (ap_db s)))"
    and "(r, s') = verify_email v cx tok (s\<lparr>ap_db := db\<rparr>)"
  shows "r = Inr () \<and> (\<exists>e. primary_email (ap_db s') uid = Some e \<and> ue_email e = trim new \<and>
           ue_verified_at e = Some (cx_utc cx)) \<and> ap_outbox s' = ap_outbox s"
proof -
  have "fst (claim_email_verification_token (hash_token v (trim tok)) (cx_utc cx) db) = Some (uid, None)"
    using claim_finds [OF replaced_primary(4) [OF assms(1,2,4)] assms(5) replaced_primary(5) [OF assms(1,6)]]
      assms(3,4) by simp
  then obtain db1 where c: "claim_email_verification_token (hash_token v (trim tok)) (cx_utc cx)
      (ap_db (s\<lparr>ap_db := db\<rparr>)) = (Some (uid, None), db1)" by (auto simp: prod_eq_iff)
  have p: "primary_email (ap_db (s\<lparr>ap_db := db\<rparr>)) uid = Some row" using replaced_primary(1) [OF assms(1)] by simp
  have "ap_outbox s' = ap_outbox s"
    using assms(7) by (auto simp: verify_email_def split: prod.splits option.splits sum.splits)
  then show ?thesis
    using verify_confirms_primary [OF c p] assms(7) replaced_primary(2) [OF assms(1)] by (auto simp: prod_eq_iff)
qed

definition demo_mailed :: auth_state where
  "demo_mailed = demo_site\<lparr>ap_db := demo_accounts\<lparr>ad_verifications := [\<lparr>ev_user_id = 1, ev_user_email_id = None,
     ev_token_hash = ax_sha256 demo_auth ''old'', ev_expires_at = seconds 9000, ev_used_at = None\<rparr>]\<rparr>\<rparr>"

end
