(* ===== verification/Training.thy ===== *)
theory Training
  imports Tool_Access Membership Api_Errors Text
begin

text \<open>
  Training: the steps of a tool, the progress of a member through them, certified instructors and
  waivers (\<^verbatim>\<open>server/src/models/training.rs\<close>, the training methods of \<^verbatim>\<open>server/src/database.rs\<close>), and the
  handlers of \<^verbatim>\<open>server/src/api/training.rs\<close> and \<^verbatim>\<open>api/waivers.rs\<close>. The constraints of the migrations
  (positive step numbers, one step per number, one progress row per member and step, scores of 0 to 100,
  completion not before start) are part of the operations. The time and fresh ids are arguments.
\<close>

section \<open>Tables\<close>

datatype training_status = NotStarted | InProgress | Completed | FailedTraining | Expired

datatype assessment_type = Practical | Written | Both | ObservationOnly

record training_step =
  ts_id :: uuid
  ts_tool_id :: uuid
  ts_step_number :: int
  ts_step_name :: string
  ts_description :: "string option"
  ts_training_materials_url :: "string option"
  ts_requires_assessment :: bool
  ts_assessment_type :: "assessment_type option"
  ts_duration_minutes :: "int option"
  ts_expires_after_days :: "int option"
  ts_created_by :: uuid
  ts_self_attestable :: bool

record update_training_step_fields =
  uts_step_name :: "string option"
  uts_description :: "string option"
  uts_training_materials_url :: "string option"
  uts_requires_assessment :: "bool option"
  uts_assessment_type :: "assessment_type option"
  uts_duration_minutes :: "int option"
  uts_expires_after_days :: "int option"
  uts_self_attestable :: "bool option"

record user_training_progress =
  ut_user_id :: uuid
  ut_step_id :: uuid
  ut_status :: training_status
  ut_instructor_id :: "uuid option"
  ut_started_at :: "instant option"
  ut_completed_at :: "instant option"
  ut_expires_at :: "instant option"
  ut_assessment_score :: "int option"
  ut_notes :: "string option"
  ut_acknowledged_url :: "string option"

record training_instructor =
  ti_id :: uuid
  ti_user_id :: uuid
  ti_step_id :: uuid
  ti_certified_by :: uuid
  ti_expires_at :: "instant option"

record waiver_row =
  wv_id :: uuid
  wv_user_id :: uuid
  wv_tool_id :: uuid
  wv_reason :: string
  wv_waived_by :: "uuid option"
  wv_expires_at :: "instant option"

record training_db =
  td_members :: membership_db
  td_tools :: "uuid list"
  td_steps :: "training_step list"
  td_progress :: "user_training_progress list"
  td_instructors :: "training_instructor list"
  td_prerequisites :: "(uuid \<times> uuid \<times> uuid) list"
  td_waivers :: "waiver_row list"
  td_audit :: "(string \<times> uuid option \<times> uuid option) list"

type_synonym 'a training_result = "(database_error, 'a) result \<times> training_db"

definition no_row :: database_error where
  "no_row = Diesel DieselNotFound ''Record not found''"

definition violates :: "diesel_kind \<Rightarrow> database_error" where
  "violates k = Diesel (DieselDatabase k ''constraint'') ''constraint''"

definition user_exists :: "training_db \<Rightarrow> uuid \<Rightarrow> bool" where
  "user_exists db uid \<longleftrightarrow> Membership.find_user_by_id (td_members db) uid \<noteq> None"

definition get_training_step_by_id :: "training_db \<Rightarrow> uuid \<Rightarrow> training_step option" where
  "get_training_step_by_id db sid = find (\<lambda>s. ts_id s = sid) (td_steps db)"

definition get_user_training_progress_for_step :: "training_db \<Rightarrow> uuid \<Rightarrow> uuid \<Rightarrow> user_training_progress option" where
  "get_user_training_progress_for_step db uid sid =
     find (\<lambda>p. ut_user_id p = uid \<and> ut_step_id p = sid) (td_progress db)"

section \<open>Steps\<close>

text \<open>The columns of the insert: an absent flag takes its default, which is false.\<close>

definition insert_training_step :: "training_step \<Rightarrow> training_db \<Rightarrow> training_step training_result" where
  "insert_training_step s db =
     (if ts_step_number s \<le> 0 then (Inl (violates diesel_kind.CheckViolation), db)
      else if list_ex (\<lambda>t. ts_id t = ts_id s \<or> (ts_tool_id t = ts_tool_id s \<and> ts_step_number t = ts_step_number s)) (td_steps db)
      then (Inl (violates diesel_kind.UniqueViolation), db)
      else if ts_tool_id s \<notin> set (td_tools db) \<or> \<not> user_exists db (ts_created_by s)
      then (Inl (violates diesel_kind.ForeignKeyViolation), db)
      else (Inr s, db\<lparr>td_steps := td_steps db @ [s]\<rparr>))"

definition edited_step :: "update_training_step_fields \<Rightarrow> training_step \<Rightarrow> training_step" where
  "edited_step u s =
     s\<lparr>ts_step_name := unwrap_or (uts_step_name u) (ts_step_name s),
       ts_description := (if uts_description u = None then ts_description s else uts_description u),
       ts_training_materials_url :=
         (if uts_training_materials_url u = None then ts_training_materials_url s else uts_training_materials_url u),
       ts_requires_assessment := unwrap_or (uts_requires_assessment u) (ts_requires_assessment s),
       ts_assessment_type := (if uts_assessment_type u = None then ts_assessment_type s else uts_assessment_type u),
       ts_duration_minutes := (if uts_duration_minutes u = None then ts_duration_minutes s else uts_duration_minutes u),
       ts_expires_after_days :=
         (if uts_expires_after_days u = None then ts_expires_after_days s else uts_expires_after_days u),
       ts_self_attestable := unwrap_or (uts_self_attestable u) (ts_self_attestable s)\<rparr>"

definition update_training_step_row ::
  "uuid \<Rightarrow> update_training_step_fields \<Rightarrow> training_db \<Rightarrow> training_step training_result" where
  "update_training_step_row sid u db =
     (case get_training_step_by_id db sid of
        None \<Rightarrow> (Inl no_row, db)
      | Some s \<Rightarrow> (Inr (edited_step u s),
          db\<lparr>td_steps := map (\<lambda>t. if ts_id t = sid then edited_step u t else t) (td_steps db)\<rparr>))"

definition update_training_step_position_row :: "uuid \<Rightarrow> int \<Rightarrow> training_db \<Rightarrow> unit training_result" where
  "update_training_step_position_row sid n db =
     (case get_training_step_by_id db sid of
        None \<Rightarrow> (Inl no_row, db)
      | Some s \<Rightarrow>
          if n \<le> 0 then (Inl (violates diesel_kind.CheckViolation), db)
          else if list_ex (\<lambda>t. ts_id t \<noteq> sid \<and> ts_tool_id t = ts_tool_id s \<and> ts_step_number t = n) (td_steps db)
          then (Inl (violates diesel_kind.UniqueViolation), db)
          else (Inr (), db\<lparr>td_steps := map (\<lambda>t. if ts_id t = sid then t\<lparr>ts_step_number := n\<rparr> else t) (td_steps db)\<rparr>))"

definition has_user_progress_for_step :: "training_db \<Rightarrow> uuid \<Rightarrow> bool" where
  "has_user_progress_for_step db sid \<longleftrightarrow> list_ex (\<lambda>p. ut_step_id p = sid) (td_progress db)"

text \<open>Deleting a step deletes what refers to it.\<close>

definition delete_training_step_row :: "uuid \<Rightarrow> training_db \<Rightarrow> unit training_result" where
  "delete_training_step_row sid db =
     (if get_training_step_by_id db sid = None then (Inl no_row, db)
      else (Inr (), db\<lparr>td_steps := filter (\<lambda>t. ts_id t \<noteq> sid) (td_steps db),
              td_progress := filter (\<lambda>p. ut_step_id p \<noteq> sid) (td_progress db),
              td_instructors := filter (\<lambda>i. ti_step_id i \<noteq> sid) (td_instructors db),
              td_prerequisites := filter (\<lambda>(_, a, b). a \<noteq> sid \<and> b \<noteq> sid) (td_prerequisites db)\<rparr>))"

definition add_training_prerequisite :: "uuid \<Rightarrow> uuid \<Rightarrow> uuid \<Rightarrow> training_db \<Rightarrow> unit training_result" where
  "add_training_prerequisite rid sid pre db =
     (if sid = pre then (Inl (violates diesel_kind.CheckViolation), db)
      else if list_ex (\<lambda>(i, a, b). i = rid \<or> (a = sid \<and> b = pre)) (td_prerequisites db)
      then (Inl (violates diesel_kind.UniqueViolation), db)
      else if get_training_step_by_id db sid = None \<or> get_training_step_by_id db pre = None
      then (Inl (violates diesel_kind.ForeignKeyViolation), db)
      else (Inr (), db\<lparr>td_prerequisites := td_prerequisites db @ [(rid, sid, pre)]\<rparr>))"

definition remove_training_prerequisite :: "uuid \<Rightarrow> training_db \<Rightarrow> unit training_result" where
  "remove_training_prerequisite rid db =
     (if \<not> list_ex (\<lambda>(i, _). i = rid) (td_prerequisites db) then (Inl no_row, db)
      else (Inr (), db\<lparr>td_prerequisites := filter (\<lambda>(i, _). i \<noteq> rid) (td_prerequisites db)\<rparr>))"

definition calculate_expiry_date :: "instant \<Rightarrow> training_step \<Rightarrow> instant option" where
  "calculate_expiry_date now s = map_option (\<lambda>d. now + days d) (ts_expires_after_days s)"

definition requires_instructor :: "training_step \<Rightarrow> bool" where
  "requires_instructor s \<longleftrightarrow>
     ts_requires_assessment s \<and> ts_assessment_type s \<in> {Some Practical, Some Both}"

section \<open>Progress\<close>

definition progress_ok :: "user_training_progress \<Rightarrow> bool" where
  "progress_ok p \<longleftrightarrow>
     is_none_or (ut_assessment_score p) (\<lambda>n. 0 \<le> n \<and> n \<le> 100) \<and>
     is_none_or (ut_started_at p) (\<lambda>s. is_none_or (ut_completed_at p) (\<lambda>c. s \<le> c))"

text \<open>An update of one progress row, refused when the new row breaks a constraint.\<close>

definition write_progress ::
  "uuid \<Rightarrow> uuid \<Rightarrow> (user_training_progress \<Rightarrow> user_training_progress) \<Rightarrow> training_db \<Rightarrow>
   user_training_progress training_result" where
  "write_progress uid sid f db =
     (case get_user_training_progress_for_step db uid sid of
        None \<Rightarrow> (Inl no_row, db)
      | Some p \<Rightarrow>
          if \<not> progress_ok (f p) then (Inl (violates diesel_kind.CheckViolation), db)
          else if \<not> is_none_or (ut_instructor_id (f p)) (user_exists db)
          then (Inl (violates diesel_kind.ForeignKeyViolation), db)
          else (Inr (f p), db\<lparr>td_progress :=
                  map (\<lambda>q. if ut_user_id q = uid \<and> ut_step_id q = sid then f q else q) (td_progress db)\<rparr>))"

text \<open>An upsert: a new row takes \<open>p\<close>, an existing one is changed by \<open>f\<close>.\<close>

definition upsert_progress ::
  "user_training_progress \<Rightarrow> (user_training_progress \<Rightarrow> user_training_progress) \<Rightarrow> training_db \<Rightarrow>
   user_training_progress training_result" where
  "upsert_progress p f db =
     (if get_user_training_progress_for_step db (ut_user_id p) (ut_step_id p) \<noteq> None
      then write_progress (ut_user_id p) (ut_step_id p) f db
      else if \<not> user_exists db (ut_user_id p) \<or> get_training_step_by_id db (ut_step_id p) = None \<or>
              \<not> is_none_or (ut_instructor_id p) (user_exists db)
      then (Inl (violates diesel_kind.ForeignKeyViolation), db)
      else (Inr p, db\<lparr>td_progress := td_progress db @ [p]\<rparr>))"

definition new_progress ::
  "uuid \<Rightarrow> uuid \<Rightarrow> training_status \<Rightarrow> uuid option \<Rightarrow> instant \<Rightarrow> string option \<Rightarrow> user_training_progress" where
  "new_progress uid sid st instructor now notes =
     \<lparr>ut_user_id = uid, ut_step_id = sid, ut_status = st, ut_instructor_id = instructor, ut_started_at = Some now,
      ut_completed_at = None, ut_expires_at = None, ut_assessment_score = None, ut_notes = notes,
      ut_acknowledged_url = None\<rparr>"

definition status_of_completion :: "string \<Rightarrow> training_status" where
  "status_of_completion c =
     (if c = ''completed'' then Completed else if c = ''failed'' then FailedTraining else InProgress)"

definition record_step_completion ::
  "instant \<Rightarrow> uuid \<Rightarrow> uuid \<Rightarrow> uuid \<Rightarrow> string \<Rightarrow> string option \<Rightarrow> training_db \<Rightarrow> unit training_result" where
  "record_step_completion now trainee sid instructor completion notes db =
     (let st = status_of_completion completion;
          expires = (if st = Completed
                     then Option.bind (get_training_step_by_id db sid) (calculate_expiry_date now) else None);
          completed = (if st = Completed then Some now else None)
      in case upsert_progress (new_progress trainee sid st (Some instructor) now notes)
                (\<lambda>p. p\<lparr>ut_status := st, ut_instructor_id := Some instructor, ut_completed_at := completed,
                       ut_expires_at := expires, ut_notes := notes\<rparr>) db of
           (Inl e, db1) \<Rightarrow> (Inl e, db1)
         | (Inr _, db1) \<Rightarrow> (Inr (), db1))"

definition start_training_session_row ::
  "instant \<Rightarrow> uuid \<Rightarrow> uuid \<Rightarrow> uuid option \<Rightarrow> string option \<Rightarrow> training_db \<Rightarrow> user_training_progress training_result" where
  "start_training_session_row now uid sid instructor notes =
     upsert_progress (new_progress uid sid InProgress instructor now notes)
       (\<lambda>p. p\<lparr>ut_status := InProgress, ut_instructor_id := instructor, ut_started_at := Some now\<rparr>)"

record complete_training_request =
  ct_training_step_id :: uuid
  ct_assessment_score :: "int option"
  ct_passed :: bool
  ct_notes :: "string option"

definition complete_training_session_row ::
  "instant \<Rightarrow> uuid \<Rightarrow> complete_training_request \<Rightarrow> training_db \<Rightarrow> user_training_progress training_result" where
  "complete_training_session_row now uid rq db =
     (let s = get_training_step_by_id db (ct_training_step_id rq);
          expires = (if ct_passed rq then Option.bind s (calculate_expiry_date now) else None);
          url = Option.bind s ts_training_materials_url
      in write_progress uid (ct_training_step_id rq)
           (\<lambda>p. p\<lparr>ut_status := (if ct_passed rq then Completed else FailedTraining), ut_completed_at := Some now,
                  ut_expires_at := expires, ut_assessment_score := ct_assessment_score rq,
                  ut_notes := ct_notes rq, ut_acknowledged_url := url\<rparr>) db)"

text \<open>The three columns the handler sets; an absent one is left alone.\<close>

definition update_user_training_progress ::
  "uuid \<Rightarrow> uuid \<Rightarrow> training_status \<Rightarrow> int option \<Rightarrow> string option \<Rightarrow> training_db \<Rightarrow>
   user_training_progress training_result" where
  "update_user_training_progress uid sid st score notes =
     write_progress uid sid (\<lambda>p. p\<lparr>ut_status := st,
       ut_assessment_score := (if score = None then ut_assessment_score p else score),
       ut_notes := (if notes = None then ut_notes p else notes)\<rparr>)"

section \<open>Instructors and waivers\<close>

definition is_certified_instructor :: "training_db \<Rightarrow> uuid \<Rightarrow> uuid \<Rightarrow> instant \<Rightarrow> bool" where
  "is_certified_instructor db uid sid now \<longleftrightarrow>
     list_ex (\<lambda>i. ti_user_id i = uid \<and> ti_step_id i = sid \<and> is_none_or (ti_expires_at i) (\<lambda>e. now < e))
       (td_instructors db)"

definition insert_instructor :: "training_instructor \<Rightarrow> training_db \<Rightarrow> training_instructor training_result" where
  "insert_instructor i db =
     (if list_ex (\<lambda>j. ti_id j = ti_id i \<or> (ti_user_id j = ti_user_id i \<and> ti_step_id j = ti_step_id i)) (td_instructors db)
      then (Inl (violates diesel_kind.UniqueViolation), db)
      else if \<not> user_exists db (ti_user_id i) \<or> \<not> user_exists db (ti_certified_by i) \<or>
              get_training_step_by_id db (ti_step_id i) = None
      then (Inl (violates diesel_kind.ForeignKeyViolation), db)
      else (Inr i, db\<lparr>td_instructors := td_instructors db @ [i]\<rparr>))"

definition revoke_instructor_row :: "uuid \<Rightarrow> training_db \<Rightarrow> unit training_result" where
  "revoke_instructor_row iid db =
     (if \<not> list_ex (\<lambda>i. ti_id i = iid) (td_instructors db) then (Inl no_row, db)
      else (Inr (), db\<lparr>td_instructors := filter (\<lambda>i. ti_id i \<noteq> iid) (td_instructors db)\<rparr>))"

definition upsert_waiver :: "waiver_row \<Rightarrow> training_db \<Rightarrow> waiver_row training_result" where
  "upsert_waiver w db =
     (case find (\<lambda>x. wv_user_id x = wv_user_id w \<and> wv_tool_id x = wv_tool_id w) (td_waivers db) of
        Some old \<Rightarrow>
          (let new = old\<lparr>wv_reason := wv_reason w, wv_waived_by := wv_waived_by w, wv_expires_at := wv_expires_at w\<rparr>
           in (Inr new, db\<lparr>td_waivers := map (\<lambda>x. if wv_user_id x = wv_user_id w \<and> wv_tool_id x = wv_tool_id w
                  then new else x) (td_waivers db)\<rparr>))
      | None \<Rightarrow>
          if \<not> user_exists db (wv_user_id w) \<or> wv_tool_id w \<notin> set (td_tools db)
          then (Inl (violates diesel_kind.ForeignKeyViolation), db)
          else (Inr w, db\<lparr>td_waivers := td_waivers db @ [w]\<rparr>))"

definition revoke_waiver_row :: "uuid \<Rightarrow> training_db \<Rightarrow> waiver_row training_result" where
  "revoke_waiver_row wid db =
     (case find (\<lambda>w. wv_id w = wid) (td_waivers db) of
        None \<Rightarrow> (Inl no_row, db)
      | Some w \<Rightarrow> (Inr w, db\<lparr>td_waivers := filter (\<lambda>w. wv_id w \<noteq> wid) (td_waivers db)\<rparr>))"

end
