(* ===== verification/Training_Service.thy ===== *)
theory Training_Service
  imports Training
begin

text \<open>
  The training handlers (\<^verbatim>\<open>server/src/api/training.rs\<close>, \<^verbatim>\<open>api/waivers.rs\<close>) over the tables, and all of them
  as one transition system \<open>training_step_by\<close>: a request with its caller, its time and the row id it draws.
  The staff and administrator routes take effect only for callers the extractor lets through.
\<close>

record training_call =
  tc_now :: instant
  tc_row_id :: uuid
  tc_me :: uuid

type_synonym 'a training_answer = "(api_error, 'a) result \<times> training_db"

definition training_log :: "string \<Rightarrow> uuid option \<Rightarrow> uuid option \<Rightarrow> training_db \<Rightarrow> training_db" where
  "training_log e subject actor db = db\<lparr>td_audit := td_audit db @ [(e, subject, actor)]\<rparr>"

text \<open>A database method inside a handler: its error is converted, its result handed on.\<close>

definition after_db :: "'a training_result \<Rightarrow> ('a \<Rightarrow> training_db \<Rightarrow> 'b training_answer) \<Rightarrow> 'b training_answer" where
  "after_db r k = (case r of (Inl e, db) \<Rightarrow> (Inl (from_database_error e), db) | (Inr x, db) \<Rightarrow> k x db)"

definition may_certify :: "training_db \<Rightarrow> uuid \<Rightarrow> bool" where
  "may_certify db uid \<longleftrightarrow> user_has_permission (td_members db) uid ''training.certify''"

section \<open>Steps\<close>

definition reject_self_attestable_assessment :: "bool option \<Rightarrow> bool option \<Rightarrow> (api_error, unit) result" where
  "reject_self_attestable_assessment self_attestable requires_assessment =
     (if self_attestable = Some True \<and> requires_assessment = Some True
      then Inl (BadRequest ''A training step cannot be self-service and require an assessment. Self-service records that the trainee read something; an assessment records that somebody else judged them competent.'')
      else Inr ())"

record create_training_step_request =
  cr_tool_id :: uuid
  cr_step_number :: int
  cr_step_name :: string
  cr_description :: "string option"
  cr_training_materials_url :: "string option"
  cr_requires_assessment :: "bool option"
  cr_assessment_type :: "assessment_type option"
  cr_duration_minutes :: "int option"
  cr_expires_after_days :: "int option"
  cr_self_attestable :: "bool option"

definition create_training_step ::
  "training_call \<Rightarrow> create_training_step_request \<Rightarrow> training_db \<Rightarrow> training_step training_answer" where
  "create_training_step cx rq db =
     (case reject_self_attestable_assessment (cr_self_attestable rq) (cr_requires_assessment rq) of
        Inl e \<Rightarrow> (Inl e, db)
      | Inr _ \<Rightarrow>
          after_db (insert_training_step
              \<lparr>ts_id = tc_row_id cx, ts_tool_id = cr_tool_id rq, ts_step_number = cr_step_number rq,
               ts_step_name = cr_step_name rq, ts_description = cr_description rq,
               ts_training_materials_url = cr_training_materials_url rq,
               ts_requires_assessment = unwrap_or (cr_requires_assessment rq) False,
               ts_assessment_type = cr_assessment_type rq, ts_duration_minutes = cr_duration_minutes rq,
               ts_expires_after_days = cr_expires_after_days rq, ts_created_by = tc_me cx,
               ts_self_attestable = unwrap_or (cr_self_attestable rq) False\<rparr> db)
            (\<lambda>s db. (Inr s, training_log ''training_step_created'' None (Some (tc_me cx)) db)))"

definition update_training_step ::
  "uuid \<Rightarrow> update_training_step_fields \<Rightarrow> training_db \<Rightarrow> training_step training_answer" where
  "update_training_step sid u db =
     (case get_training_step_by_id db sid of
        None \<Rightarrow> (Inl (api_error.NotFound ''Training step not found''), db)
      | Some existing \<Rightarrow>
          (case reject_self_attestable_assessment
                  (Some (unwrap_or (uts_self_attestable u) (ts_self_attestable existing)))
                  (Some (unwrap_or (uts_requires_assessment u) (ts_requires_assessment existing))) of
             Inl e \<Rightarrow> (Inl e, db)
           | Inr _ \<Rightarrow> after_db (update_training_step_row sid u db) (\<lambda>s db. (Inr s, db))))"

definition delete_training_step :: "training_call \<Rightarrow> uuid \<Rightarrow> training_db \<Rightarrow> unit training_answer" where
  "delete_training_step cx sid db =
     (if has_user_progress_for_step db sid
      then (Inl (BadRequest ''Cannot delete training step with existing user progress''), db)
      else
        (case get_training_step_by_id db sid of
           None \<Rightarrow> (Inl (api_error.NotFound ''Training step not found''), db)
         | Some _ \<Rightarrow>
             after_db (delete_training_step_row sid db)
               (\<lambda>_ db. (Inr (), training_log ''training_step_deleted'' None (Some (tc_me cx)) db))))"

definition update_training_step_position :: "uuid \<Rightarrow> int \<Rightarrow> training_db \<Rightarrow> unit training_answer" where
  "update_training_step_position sid n db =
     after_db (update_training_step_position_row sid n db) (\<lambda>_ db. (Inr (), db))"

definition add_prerequisite :: "training_call \<Rightarrow> uuid \<Rightarrow> uuid \<Rightarrow> training_db \<Rightarrow> unit training_answer" where
  "add_prerequisite cx sid pre db =
     after_db (add_training_prerequisite (tc_row_id cx) sid pre db) (\<lambda>_ db. (Inr (), db))"

definition remove_prerequisite :: "uuid \<Rightarrow> training_db \<Rightarrow> unit training_answer" where
  "remove_prerequisite rid db = after_db (remove_training_prerequisite rid db) (\<lambda>_ db. (Inr (), db))"

section \<open>Progress\<close>

definition update_training_progress ::
  "training_call \<Rightarrow> uuid \<Rightarrow> uuid \<Rightarrow> training_status \<Rightarrow> int option \<Rightarrow> string option \<Rightarrow> training_db \<Rightarrow>
   user_training_progress training_answer" where
  "update_training_progress cx target sid st score notes db =
     (if \<not> (may_certify db (tc_me cx) \<or> is_certified_instructor db (tc_me cx) sid (tc_now cx))
      then (Inl (Forbidden ''Cannot update training progress''), db)
      else after_db (update_user_training_progress target sid st score notes db) (\<lambda>p db. (Inr p, db)))"

definition start_training_session ::
  "training_call \<Rightarrow> uuid \<Rightarrow> uuid \<Rightarrow> uuid option \<Rightarrow> string option \<Rightarrow> training_db \<Rightarrow>
   user_training_progress training_answer" where
  "start_training_session cx target sid instructor notes db =
     (if tc_me cx \<noteq> target \<and> \<not> may_certify db (tc_me cx)
      then (Inl (Forbidden ''Cannot start training for another user''), db)
      else after_db (start_training_session_row (tc_now cx) target sid instructor notes db)
             (\<lambda>p db. (Inr p, training_log ''training_session_started'' (Some target) (Some (tc_me cx)) db)))"

definition complete_training_session ::
  "training_call \<Rightarrow> uuid \<Rightarrow> complete_training_request \<Rightarrow> training_db \<Rightarrow> user_training_progress training_answer" where
  "complete_training_session cx target rq db =
     (case get_training_step_by_id db (ct_training_step_id rq) of
        None \<Rightarrow> (Inl (api_error.NotFound ''Training step not found''), db)
      | Some s \<Rightarrow>
          (let me = tc_me cx; is_self_attestation = (ts_self_attestable s \<and> me = target) in
           if \<not> (may_certify db me \<or> is_certified_instructor db me (ct_training_step_id rq) (tc_now cx) \<or>
                   is_self_attestation)
           then (Inl (Forbidden ''Cannot complete training session''), db)
           else if is_self_attestation \<and> ct_assessment_score rq \<noteq> None
           then (Inl (BadRequest ''A self-service confirmation cannot carry an assessment score''), db)
           else if is_self_attestation \<and> \<not> ct_passed rq
           then (Inl (BadRequest ''A self-service confirmation cannot be recorded as not passed''), db)
           else after_db (complete_training_session_row (tc_now cx) target rq db)
                  (\<lambda>p db. (Inr p, training_log
                     (if is_self_attestation then ''training_documentation_acknowledged'' else ''training_session_completed'')
                     (Some target) (Some me) db))))"

section \<open>Instructors and waivers\<close>

definition certify_instructor ::
  "training_call \<Rightarrow> uuid \<Rightarrow> uuid \<Rightarrow> instant option \<Rightarrow> training_db \<Rightarrow> training_instructor training_answer" where
  "certify_instructor cx uid sid expires db =
     after_db (insert_instructor \<lparr>ti_id = tc_row_id cx, ti_user_id = uid, ti_step_id = sid, ti_certified_by = tc_me cx,
                 ti_expires_at = expires\<rparr> db)
       (\<lambda>i db. (Inr i, training_log ''instructor_certified'' (Some uid) (Some (tc_me cx)) db))"

definition revoke_instructor_certification :: "training_call \<Rightarrow> uuid \<Rightarrow> training_db \<Rightarrow> unit training_answer" where
  "revoke_instructor_certification cx iid db =
     after_db (revoke_instructor_row iid db)
       (\<lambda>_ db. (Inr (), training_log ''instructor_revoked'' None (Some (tc_me cx)) db))"

definition grant_waiver ::
  "training_call \<Rightarrow> uuid \<Rightarrow> uuid \<Rightarrow> string \<Rightarrow> instant option \<Rightarrow> training_db \<Rightarrow> waiver_row training_answer" where
  "grant_waiver cx uid tid reason expires db =
     (if trim reason = [] then (Inl (BadRequest ''A waiver reason is required''), db)
      else after_db (upsert_waiver \<lparr>wv_id = tc_row_id cx, wv_user_id = uid, wv_tool_id = tid, wv_reason = trim reason,
                       wv_waived_by = Some (tc_me cx), wv_expires_at = expires\<rparr> db)
             (\<lambda>w db. (Inr w, training_log ''training_waiver_granted'' (Some uid) (Some (tc_me cx)) db)))"

definition revoke_waiver :: "training_call \<Rightarrow> uuid \<Rightarrow> training_db \<Rightarrow> waiver_row training_answer" where
  "revoke_waiver cx wid db =
     after_db (revoke_waiver_row wid db)
       (\<lambda>w db. (Inr w, training_log ''training_waiver_revoked'' (Some (wv_user_id w)) (Some (tc_me cx)) db))"

section \<open>Every request\<close>

datatype training_request =
    CreateStep create_training_step_request
  | UpdateStep uuid update_training_step_fields
  | DeleteStep uuid
  | MoveStep uuid int
  | AddPrerequisite uuid uuid
  | RemovePrerequisite uuid
  | PutProgress uuid uuid training_status "int option" "string option"
  | StartTraining uuid uuid "uuid option" "string option"
  | CompleteTraining uuid complete_training_request
  | CertifyInstructor uuid uuid "instant option"
  | RevokeInstructor uuid
  | GrantWaiver uuid uuid string "instant option"
  | RevokeWaiver uuid

definition let_through :: "string \<Rightarrow> training_call \<Rightarrow> (training_db \<Rightarrow> training_db) \<Rightarrow> training_db \<Rightarrow> training_db" where
  "let_through permission cx k db =
     (if user_has_permission (td_members db) (tc_me cx) permission then k db else db)"

fun training_step_by :: "training_call \<times> training_request \<Rightarrow> training_db \<Rightarrow> training_db" where
  "training_step_by (cx, CreateStep rq) = let_through ''staff.access'' cx (\<lambda>db. snd (create_training_step cx rq db))"
| "training_step_by (cx, UpdateStep sid u) = let_through ''staff.access'' cx (\<lambda>db. snd (update_training_step sid u db))"
| "training_step_by (cx, DeleteStep sid) = let_through ''staff.access'' cx (\<lambda>db. snd (delete_training_step cx sid db))"
| "training_step_by (cx, MoveStep sid n) =
     let_through ''staff.access'' cx (\<lambda>db. snd (update_training_step_position sid n db))"
| "training_step_by (cx, AddPrerequisite sid pre) =
     let_through ''staff.access'' cx (\<lambda>db. snd (add_prerequisite cx sid pre db))"
| "training_step_by (cx, RemovePrerequisite rid) =
     let_through ''staff.access'' cx (\<lambda>db. snd (remove_prerequisite rid db))"
| "training_step_by (cx, PutProgress uid sid st score notes) =
     (\<lambda>db. snd (update_training_progress cx uid sid st score notes db))"
| "training_step_by (cx, StartTraining uid sid i notes) = (\<lambda>db. snd (start_training_session cx uid sid i notes db))"
| "training_step_by (cx, CompleteTraining uid rq) = (\<lambda>db. snd (complete_training_session cx uid rq db))"
| "training_step_by (cx, CertifyInstructor uid sid e) =
     let_through ''staff.access'' cx (\<lambda>db. snd (certify_instructor cx uid sid e db))"
| "training_step_by (cx, RevokeInstructor iid) =
     let_through ''staff.access'' cx (\<lambda>db. snd (revoke_instructor_certification cx iid db))"
| "training_step_by (cx, GrantWaiver uid tid reason e) =
     let_through ''admin.access'' cx (\<lambda>db. snd (grant_waiver cx uid tid reason e db))"
| "training_step_by (cx, RevokeWaiver wid) = let_through ''admin.access'' cx (\<lambda>db. snd (revoke_waiver cx wid db))"

section \<open>What the tool rule reads\<close>

definition shop_progress :: "user_training_progress \<Rightarrow> training_progress" where
  "shop_progress p = \<lparr>tp_user_id = ut_user_id p, tp_step_id = ut_step_id p, tp_completed = (ut_status p = Completed),
     tp_expires_at = ut_expires_at p\<rparr>"

definition with_training :: "training_db \<Rightarrow> shop \<Rightarrow> shop" where
  "with_training db s =
     s\<lparr>sh_steps := map (\<lambda>t. (ts_id t, ts_tool_id t)) (td_steps db),
       sh_progress := map shop_progress (td_progress db),
       sh_waivers := map (\<lambda>w. \<lparr>tw_user_id = wv_user_id w, tw_tool_id = wv_tool_id w, tw_expires_at = wv_expires_at w\<rparr>)
         (td_waivers db)\<rparr>"

end
