(* ===== verification/Training_Safety.thy ===== *)
theory Training_Safety
  imports Training_Service
begin

text \<open>
  What holds of training over every sequence of requests: the tables keep their constraints and no step is
  both self-service and assessed; a completion is recorded only by somebody entitled to record it. And two
  ways in which certifications do not last as long as the step says: a first completion never expires,
  and a member whose certification has expired cannot start again.
\<close>

section \<open>The tables stay well formed\<close>

definition steps_ok :: "training_db \<Rightarrow> bool" where
  "steps_ok db \<longleftrightarrow>
     distinct (map ts_id (td_steps db)) \<and>
     distinct (map (\<lambda>t. (ts_tool_id t, ts_step_number t)) (td_steps db)) \<and>
     (\<forall>t \<in> set (td_steps db). 0 < ts_step_number t \<and> \<not> (ts_self_attestable t \<and> ts_requires_assessment t))"

definition progress_rows_ok :: "training_db \<Rightarrow> bool" where
  "progress_rows_ok db \<longleftrightarrow>
     distinct (map (\<lambda>p. (ut_user_id p, ut_step_id p)) (td_progress db)) \<and>
     (\<forall>p \<in> set (td_progress db). progress_ok p \<and> ut_step_id p \<in> ts_id ` set (td_steps db))"

definition training_tables_ok :: "training_db \<Rightarrow> bool" where
  "training_tables_ok db \<longleftrightarrow> steps_ok db \<and> progress_rows_ok db"

lemmas tables_defs = training_tables_ok_def steps_ok_def progress_rows_ok_def

lemma step_found: "get_training_step_by_id db sid = Some s \<Longrightarrow> s \<in> set (td_steps db) \<and> ts_id s = sid"
  by (auto simp: get_training_step_by_id_def find_Some_iff)

lemma step_missing: "get_training_step_by_id db sid = None \<longleftrightarrow> sid \<notin> ts_id ` set (td_steps db)"
  by (auto simp: get_training_step_by_id_def find_None_iff)

lemma progress_found:
  "get_user_training_progress_for_step db uid sid = Some p \<Longrightarrow>
     p \<in> set (td_progress db) \<and> ut_user_id p = uid \<and> ut_step_id p = sid"
  by (auto simp: get_user_training_progress_for_step_def find_Some_iff)

lemma progress_missing:
  "get_user_training_progress_for_step db uid sid = None \<longleftrightarrow>
     (uid, sid) \<notin> (\<lambda>p. (ut_user_id p, ut_step_id p)) ` set (td_progress db)"
  by (auto simp: get_user_training_progress_for_step_def find_None_iff)

lemma insert_step_ok:
  assumes "training_tables_ok db" "\<not> (ts_self_attestable t \<and> ts_requires_assessment t)"
  shows "training_tables_ok (snd (insert_training_step t db))"
  using assms by (auto simp: tables_defs insert_training_step_def list_ex_iff)

lemma map_step_ok:
  assumes ok: "training_tables_ok db" and i: "\<And>t. ts_id (f t) = ts_id t \<and> ts_tool_id (f t) = ts_tool_id t"
    and n: "\<And>t. t \<in> set (td_steps db) \<Longrightarrow> ts_id t = sid \<Longrightarrow>
       ts_step_number (f t) = ts_step_number t \<or> (0 < ts_step_number (f t) \<and>
         (\<forall>u \<in> set (td_steps db). ts_id u \<noteq> sid \<longrightarrow> ts_tool_id u = ts_tool_id t \<longrightarrow> ts_step_number u \<noteq> ts_step_number (f t)))"
    and a: "\<And>t. t \<in> set (td_steps db) \<Longrightarrow> ts_id t = sid \<Longrightarrow> \<not> (ts_self_attestable (f t) \<and> ts_requires_assessment (f t))"
  shows "training_tables_ok (db\<lparr>td_steps := map (\<lambda>t. if ts_id t = sid then f t else t) (td_steps db)\<rparr>)"
proof -
  let ?g = "\<lambda>t. if ts_id t = sid then f t else t"
  have ids: "ts_id (?g t) = ts_id t" for t using i by simp
  have d: "distinct (map ts_id (td_steps db))" using ok by (simp add: tables_defs)
  have "inj_on (\<lambda>t. (ts_tool_id (?g t), ts_step_number (?g t))) (set (td_steps db))"
  proof (rule inj_onI)
    fix t u assume t: "t \<in> set (td_steps db)" and u: "u \<in> set (td_steps db)"
      and e: "(ts_tool_id (?g t), ts_step_number (?g t)) = (ts_tool_id (?g u), ts_step_number (?g u))"
    have inj: "x \<in> set (td_steps db) \<Longrightarrow> y \<in> set (td_steps db) \<Longrightarrow> ts_id x = ts_id y \<Longrightarrow> x = y" for x y
      using d by (auto simp: distinct_map inj_on_def)
    have inj2: "x \<in> set (td_steps db) \<Longrightarrow> y \<in> set (td_steps db) \<Longrightarrow> ts_tool_id x = ts_tool_id y \<Longrightarrow>
        ts_step_number x = ts_step_number y \<Longrightarrow> x = y" for x y
      using ok by (auto simp: tables_defs distinct_map inj_on_def)
    consider (both) "ts_id t = sid" "ts_id u = sid" | (neither) "ts_id t \<noteq> sid" "ts_id u \<noteq> sid"
      | (left) "ts_id t = sid" "ts_id u \<noteq> sid" | (right) "ts_id t \<noteq> sid" "ts_id u = sid" by blast
    then show "t = u"
    proof cases
      case both then show ?thesis using inj t u by simp
    next
      case neither then show ?thesis using inj2 t u e by simp
    next
      case left
      then have f: "ts_tool_id u = ts_tool_id t" "ts_step_number u = ts_step_number (f t)" using e i by simp_all
      from n [OF t left(1)] show ?thesis
      proof
        assume "ts_step_number (f t) = ts_step_number t"
        then show ?thesis using inj2 [OF u t] f by simp
      qed (use u left(2) f in blast)
    next
      case right
      then have f: "ts_tool_id t = ts_tool_id u" "ts_step_number t = ts_step_number (f u)" using e i by simp_all
      from n [OF u right(2)] show ?thesis
      proof
        assume "ts_step_number (f u) = ts_step_number u"
        then show ?thesis using inj2 [OF t u] f by simp
      qed (use t right(1) f in blast)
    qed
  qed
  moreover have "distinct (td_steps db)" using d by (simp add: distinct_map)
  ultimately have e: "distinct (map (\<lambda>t. (ts_tool_id t, ts_step_number t)) (map ?g (td_steps db)))"
    by (simp only: map_map comp_def distinct_map simp_thms)
  have "0 < ts_step_number (?g t) \<and> \<not> (ts_self_attestable (?g t) \<and> ts_requires_assessment (?g t))"
    if "t \<in> set (td_steps db)" for t
    using that n [OF that] a [OF that] ok by (auto simp: tables_defs)
  then have each: "\<forall>t \<in> ?g ` set (td_steps db). 0 < ts_step_number t \<and> \<not> (ts_self_attestable t \<and> ts_requires_assessment t)"
    by blast
  have same: "map ts_id (map ?g (td_steps db)) = map ts_id (td_steps db)" by (simp only: map_map comp_def ids)
  then have "set (map ts_id (map ?g (td_steps db))) = set (map ts_id (td_steps db))" by (rule arg_cong)
  then have si: "ts_id ` ?g ` set (td_steps db) = ts_id ` set (td_steps db)" by (simp only: set_map)
  have upd: "td_steps (db\<lparr>td_steps := xs\<rparr>) = xs" "td_progress (db\<lparr>td_steps := xs\<rparr>) = td_progress db" for xs by simp_all
  have "steps_ok (db\<lparr>td_steps := map ?g (td_steps db)\<rparr>)"
    unfolding steps_ok_def using e each d by (simp only: set_map upd same)
  moreover have "progress_rows_ok (db\<lparr>td_steps := map ?g (td_steps db)\<rparr>)"
    using ok si by (simp only: tables_defs set_map upd) blast
  ultimately show ?thesis by (simp only: training_tables_ok_def)
qed

lemma filter_steps_ok:
  assumes "training_tables_ok db"
  shows "training_tables_ok (snd (delete_training_step_row sid db))"
  using assms by (auto simp: tables_defs delete_training_step_row_def distinct_map_filter)

lemma write_progress_ok:
  assumes "training_tables_ok db" "\<And>p. ut_user_id (f p) = ut_user_id p \<and> ut_step_id (f p) = ut_step_id p"
  shows "training_tables_ok (snd (write_progress uid sid f db))"
proof (cases "get_user_training_progress_for_step db uid sid")
  case (Some p)
  let ?g = "\<lambda>q. if ut_user_id q = uid \<and> ut_step_id q = sid then f q else q"
  have k: "(ut_user_id (?g q), ut_step_id (?g q)) = (ut_user_id q, ut_step_id q)" for q using assms(2) by simp
  have d: "distinct (map (\<lambda>p. (ut_user_id p, ut_step_id p)) (map ?g (td_progress db)))"
    using assms(1) by (simp only: map_map comp_def k tables_defs)
  have u: "q = p" if "q \<in> set (td_progress db)" "ut_user_id q = uid" "ut_step_id q = sid" for q
    using that progress_found [OF Some] assms(1) by (auto simp: tables_defs distinct_map inj_on_def)
  have each: "progress_ok (?g q) \<and> ut_step_id (?g q) \<in> ts_id ` set (td_steps db)"
    if "q \<in> set (td_progress db)" "progress_ok (f p)" for q
    using that u [OF that(1)] assms by (auto simp: tables_defs)
  show ?thesis
  proof (cases "progress_ok (f p) \<and> is_none_or (ut_instructor_id (f p)) (user_exists db)")
    case True
    then have a: "\<forall>q \<in> ?g ` set (td_progress db). progress_ok q \<and> ut_step_id q \<in> ts_id ` set (td_steps db)"
      using each by blast
    from True have w: "snd (write_progress uid sid f db) = db\<lparr>td_progress := map ?g (td_progress db)\<rparr>"
      using Some by (simp add: write_progress_def)
    show ?thesis
      unfolding w using assms(1) d a
      by (simp only: tables_defs set_map) simp
  next
    case False
    then have "snd (write_progress uid sid f db) = db"
      using Some by (auto simp: write_progress_def)
    then show ?thesis using assms(1) by simp
  qed
qed (simp add: write_progress_def assms)

lemma upsert_progress_ok:
  assumes "training_tables_ok db" "progress_ok p"
    and "\<And>p. ut_user_id (f p) = ut_user_id p \<and> ut_step_id (f p) = ut_step_id p"
  shows "training_tables_ok (snd (upsert_progress p f db))"
proof (cases "get_user_training_progress_for_step db (ut_user_id p) (ut_step_id p)")
  case None
  then show ?thesis
    using assms(1,2) progress_missing [of db "ut_user_id p" "ut_step_id p"] step_missing [of db "ut_step_id p"]
    by (auto simp: upsert_progress_def tables_defs)
qed (use write_progress_ok [OF assms(1,3)] in \<open>simp add: upsert_progress_def\<close>)

lemma new_progress_ok [simp]: "progress_ok (new_progress uid sid st i now notes)"
  by (simp add: progress_ok_def new_progress_def)

lemma record_step_completion_ok:
  "training_tables_ok db \<Longrightarrow> training_tables_ok (snd (record_step_completion now uid sid i c notes db))"
proof -
  assume ok: "training_tables_ok db"
  have "upsert_progress p f db = (r, db1) \<Longrightarrow> progress_ok p \<Longrightarrow>
      (\<And>p. ut_user_id (f p) = ut_user_id p \<and> ut_step_id (f p) = ut_step_id p) \<Longrightarrow> training_tables_ok db1" for p f r db1
    using upsert_progress_ok [OF ok, of p f] by simp
  then show ?thesis
    unfolding record_step_completion_def Let_def by (auto split: prod.split sum.split)
qed

lemma after_db_snd: "snd (after_db r k) = (case r of (Inl _, db) \<Rightarrow> db | (Inr x, db) \<Rightarrow> snd (k x db))"
  by (simp add: after_db_def split: prod.split sum.split)

lemma after_db_keeps:
  assumes "I (snd r)" "\<And>x db. I db \<Longrightarrow> I (snd (k x db))"
  shows "I (snd (after_db r k))"
  using assms by (auto simp: after_db_snd split: prod.split sum.split)

lemmas after_db_ok = after_db_keeps [where I = training_tables_ok]

lemmas either_ok = if_split [where P = "\<lambda>x. training_tables_ok (snd x)", THEN iffD2]

lemma log_tables [simp]:
  "td_steps (training_log e u a db) = td_steps db" "td_progress (training_log e u a db) = td_progress db"
  "training_tables_ok (training_log e u a db) = training_tables_ok db"
  by (simp_all add: training_log_def tables_defs)

lemma untouched_tables:
  "td_steps db' = td_steps db \<Longrightarrow> td_progress db' = td_progress db \<Longrightarrow> training_tables_ok db' = training_tables_ok db"
  by (simp add: tables_defs)

lemma side_tables [simp]:
  "td_steps (snd (add_training_prerequisite rid sid pre db)) = td_steps db"
  "td_progress (snd (add_training_prerequisite rid sid pre db)) = td_progress db"
  "td_steps (snd (remove_training_prerequisite rid db)) = td_steps db"
  "td_progress (snd (remove_training_prerequisite rid db)) = td_progress db"
  "td_steps (snd (insert_instructor i db)) = td_steps db" "td_progress (snd (insert_instructor i db)) = td_progress db"
  "td_steps (snd (revoke_instructor_row iid db)) = td_steps db"
  "td_progress (snd (revoke_instructor_row iid db)) = td_progress db"
  "td_steps (snd (upsert_waiver w db)) = td_steps db" "td_progress (snd (upsert_waiver w db)) = td_progress db"
  "td_steps (snd (revoke_waiver_row wid db)) = td_steps db" "td_progress (snd (revoke_waiver_row wid db)) = td_progress db"
  by (simp_all add: add_training_prerequisite_def remove_training_prerequisite_def insert_instructor_def
      revoke_instructor_row_def upsert_waiver_def revoke_waiver_row_def Let_def split: option.split)

lemma side_tables_ok [simp]:
  "training_tables_ok (snd (add_training_prerequisite rid sid pre db)) = training_tables_ok db"
  "training_tables_ok (snd (remove_training_prerequisite rid db)) = training_tables_ok db"
  "training_tables_ok (snd (insert_instructor i db)) = training_tables_ok db"
  "training_tables_ok (snd (revoke_instructor_row iid db)) = training_tables_ok db"
  "training_tables_ok (snd (upsert_waiver w db)) = training_tables_ok db"
  "training_tables_ok (snd (revoke_waiver_row wid db)) = training_tables_ok db"
  by (rule untouched_tables; simp)+

lemma create_step_ok:
  assumes "training_tables_ok db"
  shows "training_tables_ok (snd (create_training_step cx rq db))"
proof (cases "reject_self_attestable_assessment (cr_self_attestable rq) (cr_requires_assessment rq)")
  case (Inr u)
  then have "\<not> (unwrap_or (cr_self_attestable rq) False \<and> unwrap_or (cr_requires_assessment rq) False)"
    by (cases "cr_self_attestable rq"; cases "cr_requires_assessment rq")
      (auto simp: reject_self_attestable_assessment_def split: if_splits)
  then show ?thesis
    unfolding create_training_step_def Inr sum.case
    by (intro after_db_ok insert_step_ok assms) simp_all
qed (simp add: create_training_step_def assms)

lemma update_step_ok:
  assumes ok: "training_tables_ok db"
  shows "training_tables_ok (snd (update_training_step sid u db))"
proof (cases "get_training_step_by_id db sid")
  case (Some s)
  have one: "t = s" if "t \<in> set (td_steps db)" "ts_id t = sid" for t
    using that step_found [OF Some] ok by (auto simp: tables_defs distinct_map inj_on_def)
  show ?thesis
  proof (cases "unwrap_or (uts_self_attestable u) (ts_self_attestable s) \<and>
      unwrap_or (uts_requires_assessment u) (ts_requires_assessment s)")
    case False
    have "training_tables_ok (db\<lparr>td_steps := map (\<lambda>t. if ts_id t = sid then edited_step u t else t) (td_steps db)\<rparr>)"
      by (rule map_step_ok [OF ok]) (use one False in \<open>auto simp: edited_step_def\<close>)
    with Some False show ?thesis
      by (auto simp: update_training_step_def reject_self_attestable_assessment_def update_training_step_row_def after_db_snd)
  qed (use Some ok in \<open>simp add: update_training_step_def reject_self_attestable_assessment_def\<close>)
qed (simp add: update_training_step_def ok)

lemma move_step_ok:
  assumes ok: "training_tables_ok db"
  shows "training_tables_ok (snd (update_training_step_position sid n db))"
proof (cases "get_training_step_by_id db sid")
  case (Some s)
  have one: "t = s" if "t \<in> set (td_steps db)" "ts_id t = sid" for t
    using that step_found [OF Some] ok by (auto simp: tables_defs distinct_map inj_on_def)
  have a: "t \<in> set (td_steps db) \<Longrightarrow> \<not> (ts_self_attestable t \<and> ts_requires_assessment t)" for t
    using ok by (auto simp: tables_defs)
  show ?thesis
  proof (cases "n \<le> 0 \<or> list_ex (\<lambda>t. ts_id t \<noteq> sid \<and> ts_tool_id t = ts_tool_id s \<and> ts_step_number t = n) (td_steps db)")
    case False
    have "training_tables_ok (db\<lparr>td_steps := map (\<lambda>t. if ts_id t = sid then t\<lparr>ts_step_number := n\<rparr> else t) (td_steps db)\<rparr>)"
      by (rule map_step_ok [OF ok]) (use one False a in \<open>auto simp: list_ex_iff\<close>)
    with Some False show ?thesis
      by (auto simp: update_training_step_position_def update_training_step_position_row_def after_db_snd)
  qed (use Some ok in \<open>auto simp: update_training_step_position_def update_training_step_position_row_def after_db_snd\<close>)
qed (simp add: update_training_step_position_def update_training_step_position_row_def after_db_snd ok)

lemma put_progress_ok:
  "training_tables_ok db \<Longrightarrow> training_tables_ok (snd (update_training_progress cx uid sid st score notes db))"
  unfolding update_training_progress_def update_user_training_progress_def
  by (intro either_ok conjI impI after_db_ok write_progress_ok) simp_all

lemma start_ok:
  "training_tables_ok db \<Longrightarrow> training_tables_ok (snd (start_training_session cx uid sid i notes db))"
  unfolding start_training_session_def start_training_session_row_def
  by (intro either_ok conjI impI after_db_ok upsert_progress_ok) simp_all

lemma complete_row_ok:
  "training_tables_ok db \<Longrightarrow> training_tables_ok (snd (complete_training_session_row now uid rq db))"
  unfolding complete_training_session_row_def Let_def by (intro write_progress_ok) simp_all

lemma complete_ok:
  assumes "training_tables_ok db"
  shows "training_tables_ok (snd (complete_training_session cx uid rq db))"
proof (cases "get_training_step_by_id db (ct_training_step_id rq)")
  case (Some s)
  show ?thesis
    unfolding complete_training_session_def Some option.case Let_def
    by (intro either_ok conjI impI after_db_ok complete_row_ok)
      (simp_all add: assms)
qed (simp add: complete_training_session_def assms)

lemma step_deletion_ok:
  "training_tables_ok db \<Longrightarrow> training_tables_ok (snd (delete_training_step cx sid db))"
  unfolding delete_training_step_def
  by (cases "get_training_step_by_id db sid")
    (simp_all only: option.case, (intro either_ok conjI impI after_db_ok filter_steps_ok; simp)+)

lemma side_handlers_ok:
  assumes "training_tables_ok db"
  shows "training_tables_ok (snd (add_prerequisite cx sid pre db))"
    and "training_tables_ok (snd (remove_prerequisite rid db))"
    and "training_tables_ok (snd (certify_instructor cx uid sid e db))"
    and "training_tables_ok (snd (revoke_instructor_certification cx iid db))"
    and "training_tables_ok (snd (revoke_waiver cx wid db))"
  unfolding add_prerequisite_def remove_prerequisite_def certify_instructor_def
    revoke_instructor_certification_def revoke_waiver_def
  by (rule after_db_ok; simp add: assms)+

lemma waiver_ok: "training_tables_ok db \<Longrightarrow> training_tables_ok (snd (grant_waiver cx uid tid reason e db))"
  unfolding grant_waiver_def by (intro either_ok conjI impI after_db_ok) simp_all

lemma let_through_ok:
  "training_tables_ok db \<Longrightarrow> training_tables_ok (k db) \<Longrightarrow> training_tables_ok (let_through p cx k db)"
  by (simp add: let_through_def)

lemma training_step_keeps: "training_tables_ok db \<Longrightarrow> training_tables_ok (training_step_by e db)"
  by (cases e rule: training_step_by.cases)
    (simp_all add: let_through_ok create_step_ok update_step_ok move_step_ok step_deletion_ok side_handlers_ok
      put_progress_ok start_ok complete_ok waiver_ok)

interpretation training_tables: preserved training_step_by training_tables_ok
  by unfold_locales (rule training_step_keeps)

section \<open>Who completed a step\<close>

definition completed_for :: "uuid \<Rightarrow> uuid \<Rightarrow> training_db \<Rightarrow> bool" where
  "completed_for uid sid db \<longleftrightarrow>
     list_ex (\<lambda>p. ut_user_id p = uid \<and> ut_step_id p = sid \<and> ut_status p = Completed) (td_progress db)"

definition may_complete :: "training_db \<Rightarrow> training_call \<Rightarrow> uuid \<Rightarrow> uuid \<Rightarrow> bool" where
  "may_complete db cx uid sid \<longleftrightarrow>
     may_certify db (tc_me cx) \<or> is_certified_instructor db (tc_me cx) sid (tc_now cx) \<or>
     (tc_me cx = uid \<and> list_ex (\<lambda>s. ts_id s = sid \<and> ts_self_attestable s \<and> \<not> ts_requires_assessment s) (td_steps db))"

lemma completed_untouched: "td_progress db' = td_progress db \<Longrightarrow> completed_for u t db' = completed_for u t db"
  by (simp add: completed_for_def)

lemma completed_log [simp]: "completed_for u t (training_log e a b db) = completed_for u t db"
  by (rule completed_untouched) simp

lemma write_progress_completed:
  assumes "completed_for u t (snd (write_progress uid sid f db))" "\<not> completed_for u t db"
    and "\<And>p. ut_user_id (f p) = ut_user_id p \<and> ut_step_id (f p) = ut_step_id p"
  shows "u = uid \<and> t = sid \<and> (\<exists>p. ut_status (f p) = Completed)"
proof -
  let ?g = "\<lambda>q. if ut_user_id q = uid \<and> ut_step_id q = sid then f q else q"
  have "td_progress (snd (write_progress uid sid f db)) \<in> {td_progress db, map ?g (td_progress db)}"
    by (simp add: write_progress_def split: option.split)
  moreover from assms(1) obtain r where r: "r \<in> set (td_progress (snd (write_progress uid sid f db)))"
    "ut_user_id r = u" "ut_step_id r = t" "ut_status r = Completed"
    unfolding completed_for_def list_ex_iff by blast
  moreover have old: "r' \<in> set (td_progress db) \<Longrightarrow> ut_user_id r' = u \<Longrightarrow> ut_step_id r' = t \<Longrightarrow> ut_status r' \<noteq> Completed" for r'
    using assms(2) by (auto simp: completed_for_def list_ex_iff)
  ultimately have "r \<in> set (map ?g (td_progress db))" by (metis (no_types) insertE singletonD)
  then have "r \<in> ?g ` set (td_progress db)" by (simp only: set_map)
  then obtain q where q: "q \<in> set (td_progress db)" "ut_user_id (?g q) = u" "ut_step_id (?g q) = t" "ut_status (?g q) = Completed"
    using r by blast
  have "ut_user_id q = uid \<and> ut_step_id q = sid"
  proof (rule ccontr)
    assume "\<not> (ut_user_id q = uid \<and> ut_step_id q = sid)"
    then have "?g q = q" by (simp only: if_False)
    with q have "ut_user_id q = u" "ut_step_id q = t" "ut_status q = Completed" by (simp_all only:)
    then show False using q(1) old by blast
  qed
  then have "?g q = f q" by simp
  with q have "ut_user_id (f q) = u" "ut_step_id (f q) = t" "ut_status (f q) = Completed" by (simp_all only:)
  with assms(3) [of q] \<open>ut_user_id q = uid \<and> ut_step_id q = sid\<close> show ?thesis by blast
qed

lemma upsert_progress_completed:
  assumes "completed_for u t (snd (upsert_progress p f db))" "\<not> completed_for u t db"
    and "\<And>p. ut_user_id (f p) = ut_user_id p \<and> ut_step_id (f p) = ut_step_id p"
  shows "ut_status p = Completed \<or> (\<exists>p. ut_status (f p) = Completed)"
proof (cases "get_user_training_progress_for_step db (ut_user_id p) (ut_step_id p)")
  case None
  then show ?thesis
    using assms(1,2) by (auto simp: upsert_progress_def completed_for_def split: if_splits)
next
  case (Some q)
  then show ?thesis
    using write_progress_completed [OF _ assms(2,3)] assms(1) by (auto simp: upsert_progress_def)
qed

lemma after_db_completed:
  "completed_for u t (snd (after_db r k)) \<Longrightarrow> (\<And>x db. completed_for u t (snd (k x db)) = completed_for u t db) \<Longrightarrow>
     completed_for u t (snd r)"
  by (auto simp: after_db_snd split: prod.splits sum.splits)

lemma put_progress_completed:
  assumes "completed_for u t (snd (update_training_progress cx uid sid st score notes db))" "\<not> completed_for u t db"
  shows "may_complete db cx u t"
proof (cases "may_certify db (tc_me cx) \<or> is_certified_instructor db (tc_me cx) sid (tc_now cx)")
  case True
  then have "completed_for u t (snd (update_user_training_progress uid sid st score notes db))"
    using assms(1) by (auto simp: update_training_progress_def after_db_snd split: prod.splits sum.splits)
  from write_progress_completed [OF this [unfolded update_user_training_progress_def] assms(2)]
  show ?thesis using True by (auto simp: may_complete_def)
qed (use assms in \<open>simp add: update_training_progress_def\<close>)

lemma start_completed:
  assumes "completed_for u t (snd (start_training_session cx uid sid i notes db))"
  shows "completed_for u t db"
proof (rule ccontr)
  assume n: "\<not> completed_for u t db"
  then have "completed_for u t (snd (start_training_session_row (tc_now cx) uid sid i notes db))"
    using assms by (auto simp: start_training_session_def after_db_snd split: if_splits prod.splits sum.splits)
  from upsert_progress_completed [OF this [unfolded start_training_session_row_def] n]
  show False by (simp add: new_progress_def)
qed

lemma complete_completed:
  assumes ok: "training_tables_ok db"
    and "completed_for u t (snd (complete_training_session cx uid rq db))" "\<not> completed_for u t db"
  shows "may_complete db cx u t"
proof (cases "get_training_step_by_id db (ct_training_step_id rq)")
  case (Some s)
  let ?self = "ts_self_attestable s \<and> tc_me cx = uid"
  have m: "may_certify db (tc_me cx) \<or> is_certified_instructor db (tc_me cx) (ct_training_step_id rq) (tc_now cx) \<or> ?self"
    using assms(2,3) Some by (auto simp: complete_training_session_def Let_def split: if_splits)
  have "completed_for u t (snd (complete_training_session_row (tc_now cx) uid rq db))"
    using assms(2,3) Some
    by (auto simp: complete_training_session_def Let_def after_db_snd split: if_splits prod.splits sum.splits)
  from write_progress_completed [OF this [unfolded complete_training_session_row_def Let_def] assms(3)]
  have "u = uid \<and> t = ct_training_step_id rq" by simp
  moreover have "s \<in> set (td_steps db) \<and> ts_id s = ct_training_step_id rq \<and> (ts_self_attestable s \<longrightarrow> \<not> ts_requires_assessment s)"
    using step_found [OF Some] ok by (auto simp: tables_defs)
  ultimately show ?thesis using m by (auto simp: may_complete_def list_ex_iff)
qed (use assms in \<open>simp add: complete_training_session_def\<close>)

lemma deletion_completed:
  "completed_for u t (snd (delete_training_step cx sid db)) \<Longrightarrow> completed_for u t db"
  by (auto simp: delete_training_step_def delete_training_step_row_def after_db_snd completed_for_def list_ex_iff
      split: if_splits option.splits)

lemma after_db_progress:
  assumes "td_progress (snd r) = td_progress db" "\<And>x db. td_progress (snd (k x db)) = td_progress db"
  shows "td_progress (snd (after_db r k)) = td_progress db"
  using assms by (auto simp: after_db_snd split: prod.splits sum.splits)

lemma step_rows_progress [simp]:
  "td_progress (snd (insert_training_step s db)) = td_progress db"
  "td_progress (snd (update_training_step_row sid f db)) = td_progress db"
  "td_progress (snd (update_training_step_position_row sid n db)) = td_progress db"
  by (simp_all add: insert_training_step_def update_training_step_row_def update_training_step_position_row_def
      split: option.split)

lemma side_progress [simp]:
  "td_progress (snd (create_training_step cx rq0 db)) = td_progress db"
  "td_progress (snd (update_training_step sid f db)) = td_progress db"
  "td_progress (snd (update_training_step_position sid n db)) = td_progress db"
  "td_progress (snd (add_prerequisite cx sid pre db)) = td_progress db"
  "td_progress (snd (remove_prerequisite rid db)) = td_progress db"
  "td_progress (snd (certify_instructor cx uid sid e db)) = td_progress db"
  "td_progress (snd (revoke_instructor_certification cx iid db)) = td_progress db"
  "td_progress (snd (grant_waiver cx uid tid reason e db)) = td_progress db"
  "td_progress (snd (revoke_waiver cx wid db)) = td_progress db"
  by (simp_all add: create_training_step_def update_training_step_def update_training_step_position_def
      add_prerequisite_def remove_prerequisite_def certify_instructor_def revoke_instructor_certification_def
      grant_waiver_def revoke_waiver_def after_db_progress split: sum.split option.split)

lemma let_through_completed:
  "completed_for u t (let_through p cx k db) \<Longrightarrow> \<not> completed_for u t db \<Longrightarrow> completed_for u t (k db)"
  by (simp add: let_through_def split: if_splits)

lemma step_completed:
  assumes "training_tables_ok db" "completed_for u t (training_step_by (cx, rq) db)" "\<not> completed_for u t db"
  shows "may_complete db cx u t"
proof (cases rq)
  case (DeleteStep sid)
  then have "completed_for u t (snd (delete_training_step cx sid db))"
    using let_through_completed [OF _ assms(3)] assms(2) by simp
  then show ?thesis using deletion_completed assms(3) by blast
next
  case (PutProgress uid sid st score remarks)
  then show ?thesis using assms(2) put_progress_completed [OF _ assms(3)] by simp
next
  case (StartTraining uid sid i remarks)
  then show ?thesis using assms(2) start_completed assms(3) by simp
next
  case (CompleteTraining uid rq')
  then show ?thesis using assms(2) complete_completed [OF assms(1) _ assms(3)] by simp
qed (use assms(2,3) in \<open>simp_all add: let_through_def completed_for_def split: if_splits\<close>)

text \<open>
  A history: the first time a step counts as completed for a member is a request by somebody entitled.
\<close>

lemma first_completion:
  assumes "training_tables_ok db" "\<not> completed_for u t db" "completed_for u t (run_events training_step_by es db)"
  shows "\<exists>as cx rq bs. es = as @ (cx, rq) # bs \<and> may_complete (run_events training_step_by as db) cx u t"
  using assms
proof (induction es arbitrary: db)
  case (Cons e es)
  show ?case
  proof (cases "completed_for u t (training_step_by e db)")
    case True
    obtain cx rq where e: "e = (cx, rq)" by fastforce
    then have "may_complete db cx u t" using step_completed [OF Cons.prems(1)] True Cons.prems(2) by simp
    then have "e # es = [] @ (cx, rq) # es \<and> may_complete (run_events training_step_by [] db) cx u t" using e by simp
    then show ?thesis by blast
  next
    case False
    have "training_tables_ok (training_step_by e db)" using training_step_keeps Cons.prems(1) .
    moreover have "completed_for u t (run_events training_step_by es (training_step_by e db))" using Cons.prems(3) by simp
    ultimately obtain as cx rq bs where
      "es = as @ (cx, rq) # bs" "may_complete (run_events training_step_by as (training_step_by e db)) cx u t"
      using Cons.IH False by blast
    then have "e # es = (e # as) @ (cx, rq) # bs \<and> may_complete (run_events training_step_by (e # as) db) cx u t" by simp
    then show ?thesis by blast
  qed
qed simp

section \<open>Certifications that do not last, and that cannot be renewed\<close>

lemma check_violation_error [simp]:
  "from_database_error (violates diesel_kind.CheckViolation) = BadRequest ''A value was not one this field accepts''"
  by (simp add: violates_def from_diesel_error_def)

lemma restart_refused:
  assumes "get_user_training_progress_for_step db uid sid = Some p" "ut_completed_at p = Some c" "c < now"
  shows "start_training_session_row now uid sid i remarks db = (Inl (violates diesel_kind.CheckViolation), db)"
  using assms by (simp add: start_training_session_row_def upsert_progress_def write_progress_def new_progress_def
      progress_ok_def)

lemma first_row:
  assumes "get_user_training_progress_for_step db uid sid = None" "user_exists db uid" "user_exists db i"
    "get_training_step_by_id db sid \<noteq> None"
  shows "record_step_completion now uid sid i ''completed'' remarks db =
     (Inr (), db\<lparr>td_progress := td_progress db @ [new_progress uid sid Completed (Some i) now remarks]\<rparr>)"
  using assms by (simp add: record_step_completion_def upsert_progress_def new_progress_def status_of_completion_def Let_def)

lemma find_shop_progress:
  "find (\<lambda>p. tp_user_id p = uid \<and> tp_step_id p = sid) (map shop_progress ps) =
     map_option shop_progress (find (\<lambda>p. ut_user_id p = uid \<and> ut_step_id p = sid) ps)"
  by (induction ps) (auto simp: shop_progress_def)

lemma step_counts:
  "steps_completed (sh_progress (with_training db s)) uid later [sid] \<longleftrightarrow>
     (case get_user_training_progress_for_step db uid sid of
        None \<Rightarrow> False
      | Some p \<Rightarrow> ut_status p = Completed \<and> \<not> is_some_and (ut_expires_at p) (\<lambda>e. e < later))"
  by (auto simp: with_training_def find_shop_progress get_user_training_progress_for_step_def shop_progress_def
      split: option.split)

lemma find_rewritten:
  "\<forall>q. P q \<longrightarrow> P (f q) \<Longrightarrow> find P (map (\<lambda>q. if P q then f q else q) ps) = map_option f (find P ps)"
  by (induction ps) auto

lemma progress_written:
  assumes "get_user_training_progress_for_step db uid sid = Some p" "progress_ok (f p)"
    "is_none_or (ut_instructor_id (f p)) (user_exists db)"
    "\<forall>q. ut_user_id q = uid \<and> ut_step_id q = sid \<longrightarrow> ut_user_id (f q) = uid \<and> ut_step_id (f q) = sid"
  shows "get_user_training_progress_for_step (snd (write_progress uid sid f db)) uid sid = Some (f p)"
  using assms find_rewritten [OF assms(4), of "td_progress db"]
  by (simp add: write_progress_def get_user_training_progress_for_step_def)

lemma later_row:
  assumes "get_user_training_progress_for_step db uid sid = Some p" "is_none_or (ut_started_at p) (\<lambda>s. s \<le> now)"
    "is_none_or (ut_assessment_score p) (\<lambda>n. 0 \<le> n \<and> n \<le> 100)"
    "user_exists db i" "get_training_step_by_id db sid = Some s"
  shows "get_user_training_progress_for_step (snd (record_step_completion now uid sid i ''completed'' remarks db)) uid sid =
     Some (p\<lparr>ut_status := Completed, ut_instructor_id := Some i, ut_completed_at := Some now,
             ut_expires_at := calculate_expiry_date now s, ut_notes := remarks\<rparr>)"
proof -
  let ?f = "\<lambda>p. p\<lparr>ut_status := Completed, ut_instructor_id := Some i, ut_completed_at := Some now,
             ut_expires_at := calculate_expiry_date now s, ut_notes := remarks\<rparr>"
  have "snd (record_step_completion now uid sid i ''completed'' remarks db) = snd (write_progress uid sid ?f db)"
    using assms(1,5) by (simp add: record_step_completion_def status_of_completion_def upsert_progress_def new_progress_def
        split: prod.split sum.split)
  moreover have "progress_ok (?f p)"
    using assms(2,3) by (cases "ut_started_at p") (simp_all add: progress_ok_def)
  ultimately show ?thesis
    using progress_written [of db uid sid p ?f] assms(1,4) by simp
qed

section \<open>Properties\<close>

definition reader_shop :: training_db where
  "reader_shop = \<lparr>td_members = \<lparr>m_ledger = [], m_users = [\<lparr>mb_id = 1, mb_is_active = True, membership_next_due_at = None\<rparr>],
       m_user_roles = [], m_roles = [], m_graph = from_rows [] [] []\<rparr>,
     td_tools = [5],
     td_steps = [\<lparr>ts_id = 7, ts_tool_id = 5, ts_step_number = 1, ts_step_name = ''read'', ts_description = None,
       ts_training_materials_url = None, ts_requires_assessment = False, ts_assessment_type = None,
       ts_duration_minutes = None, ts_expires_after_days = Some 30, ts_created_by = 1, ts_self_attestable = True\<rparr>],
     td_progress = [], td_instructors = [], td_prerequisites = [], td_waivers = [], td_audit = []\<rparr>"

definition reader_call :: "instant \<Rightarrow> training_call" where
  "reader_call t = \<lparr>tc_now = t, tc_row_id = 100, tc_me = 1\<rparr>"

definition reader_done :: complete_training_request where
  "reader_done = \<lparr>ct_training_step_id = 7, ct_assessment_score = None, ct_passed = True, ct_notes = None\<rparr>"

lemmas reader_defs = reader_shop_def reader_call_def reader_done_def

lemma reader_shop_ok: "training_tables_ok reader_shop"
  by (simp add: reader_shop_def tables_defs)

lemmas handler_defs = start_training_session_def start_training_session_row_def upsert_progress_def new_progress_def
  complete_training_session_def complete_training_session_row_def write_progress_def progress_ok_def Let_def
  get_user_training_progress_for_step_def get_training_step_by_id_def user_exists_def find_user_by_id_def
  after_db_def training_log_def

text \<open>
  C30. Over any history of requests the step and progress tables keep every constraint the migrations state:
  unique ids, one step per number and tool, positive numbers, no step both self-service and assessed, one
  progress row per member and step, scores of 0 to 100, no completion before its start, and no progress for a
  step that does not exist.
\<close>

theorem training_tables_stay_well_formed:
  assumes "training_tables_ok db"
  shows "training_tables_ok (run_events training_step_by es db)"
  using assms by (rule training_tables.run_keeps)

theorem training_tables_stay_well_formed_witness:
  "training_tables_ok (run_events training_step_by [(reader_call 0, StartTraining 1 7 None None)] reader_shop)"
  by (rule training_tables_stay_well_formed [OF reader_shop_ok])

text \<open>
  C31. Over any sequence of requests to the training routes, a step comes to count as completed for a member only by
  the request of somebody entitled to say so, at the time of that request: a holder of training.certify, an
  instructor certified for the step whose certification has not expired, or the member, for a step that is
  self-service and not assessed. A finished cmi5 course also completes the step bound to it, on terms of its
  own, and is not among these requests.
\<close>

theorem a_completion_is_authorized:
  assumes "training_tables_ok db" "\<not> completed_for uid sid db"
    and "completed_for uid sid (run_events training_step_by es db)"
  shows "\<exists>as cx rq bs. es = as @ (cx, rq) # bs \<and> may_complete (run_events training_step_by as db) cx uid sid"
  using assms by (rule first_completion)

theorem a_completion_is_authorized_witness:
  "\<exists>as cx rq bs.
     [(reader_call 0, StartTraining 1 7 None None), (reader_call 5, CompleteTraining 1 reader_done)] = as @ (cx, rq) # bs \<and>
     may_complete (run_events training_step_by as reader_shop) cx 1 7"
  by (rule a_completion_is_authorized [OF reader_shop_ok])
    (simp_all add: completed_for_def reader_defs handler_defs calculate_expiry_date_def)

text \<open>
  A member whose step was completed cannot start it again, even after the certification expired: the
  upsert moves \<open>started_at\<close> past the old \<open>completed_at\<close>, the constraint on the two dates refuses it, and the
  answer is a bad request that names a field value; nothing is written.
\<close>

lemma a_finished_step_cannot_be_restarted:
  assumes "get_user_training_progress_for_step db uid sid = Some p" "ut_completed_at p = Some c" "c < tc_now cx"
    and "tc_me cx = uid \<or> may_certify db (tc_me cx)"
  shows "start_training_session cx uid sid instructor remarks db =
     (Inl (BadRequest ''A value was not one this field accepts''), db)"
  using assms by (auto simp: start_training_session_def restart_refused after_db_def)

text \<open>
  C32. A completion recorded without a progress row, as a finished course records it, never expires, whatever
  the step says: the row is inserted without \<open>expires_at\<close>. Recorded a second time, it expires after the days of
  the step.
\<close>

theorem first_completion_never_expires:
  assumes "get_user_training_progress_for_step db uid sid = None" "user_exists db uid" "user_exists db instructor"
    and "get_training_step_by_id db sid = Some s" "ts_expires_after_days s = Some d" "now \<le> again"
  shows "\<exists>db1. record_step_completion now uid sid instructor ''completed'' remarks db = (Inr (), db1) \<and>
      (\<forall>later. steps_completed (sh_progress (with_training db1 shop)) uid later [sid]) \<and>
      (\<forall>later. steps_completed (sh_progress (with_training
          (snd (record_step_completion again uid sid instructor ''completed'' remarks db1)) shop)) uid later [sid] \<longleftrightarrow>
        later \<le> again + days d)"
proof -
  let ?row = "new_progress uid sid Completed (Some instructor) now remarks"
  let ?db = "db\<lparr>td_progress := td_progress db @ [?row]\<rparr>"
  have found: "get_user_training_progress_for_step ?db uid sid = Some ?row"
    using assms(1) by (simp add: get_user_training_progress_for_step_def find_append new_progress_def)
  have "record_step_completion now uid sid instructor ''completed'' remarks db = (Inr (), ?db)"
    using assms by (intro first_row) simp_all
  moreover have "steps_completed (sh_progress (with_training ?db shop)) uid later [sid]" for later
    by (simp add: step_counts found del: steps_completed.simps) (simp add: new_progress_def)
  moreover have "steps_completed (sh_progress (with_training
      (snd (record_step_completion again uid sid instructor ''completed'' remarks ?db)) shop)) uid later [sid] \<longleftrightarrow>
      later \<le> again + days d" for later
    using later_row [OF found, of again instructor s remarks] assms
    by (simp add: step_counts new_progress_def calculate_expiry_date_def user_exists_def get_training_step_by_id_def not_less
        del: steps_completed.simps)
  ultimately show ?thesis by blast
qed

theorem first_completion_never_expires_witness:
  "\<forall>shop. \<exists>db1. record_step_completion 0 1 7 1 ''completed'' None reader_shop = (Inr (), db1) \<and>
      (\<forall>later. steps_completed (sh_progress (with_training db1 shop)) 1 later [7]) \<and>
      (\<forall>later. steps_completed (sh_progress (with_training
          (snd (record_step_completion 9 1 7 1 ''completed'' None db1)) shop)) 1 later [7] \<longleftrightarrow> later \<le> 9 + days 30)"
  by (rule allI, rule first_completion_never_expires [where d = 30 and s = "hd (td_steps reader_shop)"])
    (simp_all add: reader_shop_def handler_defs)

end
