(* ===== verification/Cmi5.thy ===== *)
theory Cmi5
  imports Text Complex_Main
begin

text \<open>
  The pure cmi5 crate (\<^verbatim>\<open>cmi5/src/statement.rs\<close>, \<^verbatim>\<open>validation.rs\<close>, \<^verbatim>\<open>launch.rs\<close>, \<^verbatim>\<open>conformance.rs\<close> and the tree
  of \<^verbatim>\<open>manifest.rs\<close>): xAPI statements, the checks on a single statement, the machine over the statements of a
  session, the criterion of a unit, the launch query, and the rules a course structure has to meet. Numbers
  that are \<^verbatim>\<open>f64\<close> in the code are rationals; what serde writes for an agent or a uuid is a parameter.
\<close>

section \<open>Statements\<close>

definition LAUNCHED :: string where "LAUNCHED = ''http://adlnet.gov/expapi/verbs/launched''"
definition INITIALIZED :: string where "INITIALIZED = ''http://adlnet.gov/expapi/verbs/initialized''"
definition COMPLETED :: string where "COMPLETED = ''http://adlnet.gov/expapi/verbs/completed''"
definition PASSED :: string where "PASSED = ''http://adlnet.gov/expapi/verbs/passed''"
definition FAILED :: string where "FAILED = ''http://adlnet.gov/expapi/verbs/failed''"
definition TERMINATED :: string where "TERMINATED = ''http://adlnet.gov/expapi/verbs/terminated''"
definition SATISFIED :: string where "SATISFIED = ''https://w3id.org/xapi/adl/verbs/satisfied''"
definition WAIVED :: string where "WAIVED = ''https://w3id.org/xapi/adl/verbs/waived''"
definition ABANDONED :: string where "ABANDONED = ''https://w3id.org/xapi/adl/verbs/abandoned''"

lemmas verb_defs = LAUNCHED_def INITIALIZED_def COMPLETED_def PASSED_def FAILED_def TERMINATED_def SATISFIED_def
  WAIVED_def ABANDONED_def

definition CMI5 :: string where "CMI5 = ''https://w3id.org/xapi/cmi5/context/categories/cmi5''"
definition MOVEON :: string where "MOVEON = ''https://w3id.org/xapi/cmi5/context/categories/moveon''"

record xaccount =
  ac_home_page :: string
  ac_name :: string

record agent =
  ag_object_type :: "string option"
  ag_name :: "string option"
  ag_mbox :: "string option"
  ag_account :: "xaccount option"

record xactivity =
  xa_object_type :: "string option"
  xa_id :: string
  xa_definition :: "json option"

datatype statement_object = Activity xactivity

record xscore =
  sc_scaled :: "rat option"
  sc_raw :: "rat option"
  sc_min :: "rat option"
  sc_max :: "rat option"

record xresult =
  xr_score :: "xscore option"
  xr_success :: "bool option"
  xr_completion :: "bool option"
  xr_duration :: "string option"

record context_activities =
  ca_category :: "xactivity list option"
  ca_parent :: "xactivity list option"
  ca_grouping :: "xactivity list option"
  ca_other :: "xactivity list option"

record xcontext =
  xc_registration :: "uuid option"
  xc_context_activities :: "context_activities option"
  xc_extensions :: "json option"

record xstatement =
  xs_id :: "uuid option"
  xs_actor :: agent
  xs_verb :: string
  xs_object :: statement_object
  xs_result :: "xresult option"
  xs_context :: "xcontext option"
  xs_timestamp :: "instant option"

fun activity_id :: "statement_object \<Rightarrow> string" where
  "activity_id (Activity a) = xa_id a"

definition object_activity_id :: "xstatement \<Rightarrow> string" where
  "object_activity_id s = activity_id (xs_object s)"

definition registration_of :: "xstatement \<Rightarrow> uuid option" where
  "registration_of s = Option.bind (xs_context s) xc_registration"

definition has_category :: "context_activities \<Rightarrow> string \<Rightarrow> bool" where
  "has_category ca iri = unwrap_or (map_option (list_ex (\<lambda>a. xa_id a = iri)) (ca_category ca)) False"

definition is_moveon :: "xstatement \<Rightarrow> bool" where
  "is_moveon s =
     unwrap_or (map_option (\<lambda>ca. has_category ca MOVEON) (Option.bind (xs_context s) xc_context_activities)) False"

section \<open>One statement against the session\<close>

datatype move_on = MvPassed | MvCompleted | MvCompletedAndPassed | MvCompletedOrPassed | MvNotApplicable

fun move_on_str :: "move_on \<Rightarrow> string" where
  "move_on_str MvPassed = ''Passed''"
| "move_on_str MvCompleted = ''Completed''"
| "move_on_str MvCompletedAndPassed = ''CompletedAndPassed''"
| "move_on_str MvCompletedOrPassed = ''CompletedOrPassed''"
| "move_on_str MvNotApplicable = ''NotApplicable''"

datatype manifest_error =
    BadXml string
  | MissingElement string
  | MissingAttribute string string
  | BadMoveOn string
  | BadLaunchMethod string
  | BadMasteryScore string
  | UnexpectedEof string

fun show_manifest_error :: "manifest_error \<Rightarrow> string" where
  "show_manifest_error (BadXml m) = ''malformed XML: '' @ m"
| "show_manifest_error (MissingElement e) = ''manifest is missing the required <'' @ e @ ''> element''"
| "show_manifest_error (MissingAttribute e a) = ''<'' @ e @ ''> is missing the required '' @ [CHR 0x27] @ a @ [CHR 0x27] @ '' attribute''"
| "show_manifest_error (BadMoveOn s) = [CHR 0x27] @ s @ [CHR 0x27] @ '' is not a valid moveOn value''"
| "show_manifest_error (BadLaunchMethod s) = [CHR 0x27] @ s @ [CHR 0x27] @ '' is not a valid launchMethod value''"
| "show_manifest_error (BadMasteryScore s) =
     ''masteryScore '' @ [CHR 0x27] @ s @ [CHR 0x27] @ '' is not a number in 0.0..=1.0''"
| "show_manifest_error (UnexpectedEof e) = ''unexpected end of document inside <'' @ e @ ''>''"

definition parse_move_on :: "string \<Rightarrow> (manifest_error, move_on) result" where
  "parse_move_on s =
     (if s = ''Passed'' then Inr MvPassed
      else if s = ''Completed'' then Inr MvCompleted
      else if s = ''CompletedAndPassed'' then Inr MvCompletedAndPassed
      else if s = ''CompletedOrPassed'' then Inr MvCompletedOrPassed
      else if s = ''NotApplicable'' then Inr MvNotApplicable
      else Inl (BadMoveOn s))"

lemma parse_move_on_str [simp]: "parse_move_on (move_on_str m) = Inr m"
  by (cases m) (simp_all add: parse_move_on_def)

record session_expectation =
  ex_actor_home_page :: string
  ex_actor_account_name :: string
  ex_registration :: uuid
  ex_activity_id :: string
  ex_mastery_score :: "rat option"

datatype violation =
    NotAnAccountActor
  | ActorMismatch
  | RegistrationMismatch
  | ActivityMismatch
  | MissingCmi5Category
  | UnknownVerb string
  | MissingResult
  | NotPassedSuccess
  | NotFailedSuccess
  | NotCompleted
  | BelowMasteryScore "rat option" rat
  | NotInitialized
  | AlreadyInitialized
  | AfterTerminated
  | BothPassedAndFailed

definition statement_has_category :: "xstatement \<Rightarrow> string \<Rightarrow> bool" where
  "statement_has_category s iri =
     unwrap_or (map_option (\<lambda>ca. has_category ca iri) (Option.bind (xs_context s) xc_context_activities)) False"

definition is_au_verb :: "string \<Rightarrow> bool" where
  "is_au_verb v \<longleftrightarrow> v \<in> {INITIALIZED, COMPLETED, PASSED, FAILED, TERMINATED}"

definition check_result :: "xstatement \<Rightarrow> session_expectation \<Rightarrow> (violation, unit) result" where
  "check_result s x =
     (let v = xs_verb s in
      if v = PASSED then
        (case xs_result s of
           None \<Rightarrow> Inl MissingResult
         | Some r \<Rightarrow>
             if xr_success r \<noteq> Some True then Inl NotPassedSuccess
             else (case ex_mastery_score x of
                     None \<Rightarrow> Inr ()
                   | Some required \<Rightarrow>
                       (let scaled = Option.bind (xr_score r) sc_scaled
                        in if unwrap_or (map_option (\<lambda>v. v < required) scaled) True
                           then Inl (BelowMasteryScore scaled required) else Inr ())))
      else if v = FAILED then
        (case xs_result s of
           None \<Rightarrow> Inl MissingResult
         | Some r \<Rightarrow> if xr_success r \<noteq> Some False then Inl NotFailedSuccess else Inr ())
      else if v = COMPLETED then
        (case xs_result s of
           None \<Rightarrow> Inl MissingResult
         | Some r \<Rightarrow> if xr_completion r \<noteq> Some True then Inl NotCompleted else Inr ())
      else Inr ())"

definition validate_cmi5_statement :: "xstatement \<Rightarrow> session_expectation \<Rightarrow> (violation, unit) result" where
  "validate_cmi5_statement s x =
     (case ag_account (xs_actor s) of
        None \<Rightarrow> Inl NotAnAccountActor
      | Some account \<Rightarrow>
          if ac_home_page account \<noteq> ex_actor_home_page x \<or> ac_name account \<noteq> ex_actor_account_name x
          then Inl ActorMismatch
          else if registration_of s \<noteq> Some (ex_registration x) then Inl RegistrationMismatch
          else if object_activity_id s \<noteq> ex_activity_id x then Inl ActivityMismatch
          else if \<not> statement_has_category s CMI5 then Inl MissingCmi5Category
          else if \<not> is_au_verb (xs_verb s) then Inl (UnknownVerb (xs_verb s))
          else check_result s x)"

section \<open>The statements of a session\<close>

record session_outcome =
  so_passed :: bool
  so_completed :: bool
  so_failed :: bool

record session_machine =
  sm_initialized :: bool
  sm_terminated :: bool
  sm_outcome :: session_outcome

definition new_machine :: session_machine where
  "new_machine = \<lparr>sm_initialized = False, sm_terminated = False,
     sm_outcome = \<lparr>so_passed = False, so_completed = False, so_failed = False\<rparr>\<rparr>"

definition apply_statement :: "xstatement \<Rightarrow> session_machine \<Rightarrow> (violation, session_machine) result" where
  "apply_statement s m =
     (let v = xs_verb s; counts = is_moveon s; o' = sm_outcome m in
      if sm_terminated m then Inl AfterTerminated
      else if v = INITIALIZED then
        (if sm_initialized m then Inl AlreadyInitialized else Inr (m\<lparr>sm_initialized := True\<rparr>))
      else if v = PASSED then
        (if \<not> sm_initialized m then Inl NotInitialized
         else if \<not> counts then Inr m
         else if so_failed o' then Inl BothPassedAndFailed
         else Inr (m\<lparr>sm_outcome := o'\<lparr>so_passed := True\<rparr>\<rparr>))
      else if v = FAILED then
        (if \<not> sm_initialized m then Inl NotInitialized
         else if \<not> counts then Inr m
         else if so_passed o' then Inl BothPassedAndFailed
         else Inr (m\<lparr>sm_outcome := o'\<lparr>so_failed := True\<rparr>\<rparr>))
      else if v = COMPLETED then
        (if \<not> sm_initialized m then Inl NotInitialized
         else if \<not> counts then Inr m
         else Inr (m\<lparr>sm_outcome := o'\<lparr>so_completed := True\<rparr>\<rparr>))
      else if v = TERMINATED then
        (if \<not> sm_initialized m then Inl NotInitialized else Inr (m\<lparr>sm_terminated := True\<rparr>))
      else Inl (UnknownVerb v))"

fun evaluate_move_on :: "move_on \<Rightarrow> session_outcome \<Rightarrow> bool" where
  "evaluate_move_on MvPassed x = so_passed x"
| "evaluate_move_on MvCompleted x = so_completed x"
| "evaluate_move_on MvCompletedAndPassed x = (so_completed x \<and> so_passed x)"
| "evaluate_move_on MvCompletedOrPassed x = (so_completed x \<or> so_passed x)"
| "evaluate_move_on MvNotApplicable x = False"

section \<open>The launch query\<close>

datatype launch_mode = NormalMode | BrowseMode | ReviewMode

fun launch_mode_str :: "launch_mode \<Rightarrow> string" where
  "launch_mode_str NormalMode = ''Normal''"
| "launch_mode_str BrowseMode = ''Browse''"
| "launch_mode_str ReviewMode = ''Review''"

definition is_creditable :: "launch_mode \<Rightarrow> bool" where
  "is_creditable m \<longleftrightarrow> m = NormalMode"

definition hex_digit :: "nat \<Rightarrow> char" where
  "hex_digit n = (if n < 10 then char_of (48 + n) else char_of (65 + (n - 10)))"

definition unreserved :: "char \<Rightarrow> bool" where
  "unreserved c \<longleftrightarrow>
     c \<in> set ''ABCDEFGHIJKLMNOPQRSTUVWXYZabcdefghijklmnopqrstuvwxyz0123456789-._~''"

definition encode_byte :: "char \<Rightarrow> string" where
  "encode_byte b =
     (if unreserved b then [b]
      else [CHR ''%'', hex_digit (of_char b div 16), hex_digit (of_char b mod 16)])"

definition encode_component :: "string \<Rightarrow> string" where
  "encode_component s = concat (map encode_byte s)"

record launch_params =
  lp_endpoint :: string
  lp_fetch :: string
  lp_actor :: agent
  lp_registration :: uuid
  lp_activity_id :: string

definition build_launch_query :: "(agent \<Rightarrow> string) \<Rightarrow> (uuid \<Rightarrow> string) \<Rightarrow> launch_params \<Rightarrow> string" where
  "build_launch_query show_agent show_uuid p =
     ''endpoint='' @ encode_component (lp_endpoint p) @
     ''&fetch='' @ encode_component (lp_fetch p) @
     ''&actor='' @ encode_component (show_agent (lp_actor p)) @
     ''&activityId='' @ encode_component (lp_activity_id p) @
     ''&registration='' @ encode_component (show_uuid (lp_registration p))"

definition append_query :: "string \<Rightarrow> string \<Rightarrow> string" where
  "append_query au_url query =
     au_url @ (if CHR ''?'' \<in> set au_url then CHR ''&'' else CHR ''?'') # query"

record launch_data =
  ld_registration :: uuid
  ld_launch_mode :: launch_mode
  ld_move_on :: move_on
  ld_mastery_score :: "rat option"
  ld_return_url :: "string option"
  ld_entitlement_key :: "string option"

text \<open>The context template is fixed but for the registration, so it is the registration.\<close>

definition new_launch_data :: "uuid \<Rightarrow> launch_mode \<Rightarrow> move_on \<Rightarrow> rat option \<Rightarrow> launch_data" where
  "new_launch_data reg mode mv mastery =
     \<lparr>ld_registration = reg, ld_launch_mode = mode, ld_move_on = mv, ld_mastery_score = mastery,
      ld_return_url = None, ld_entitlement_key = None\<rparr>"

section \<open>Course structures\<close>

datatype launch_method = AnyWindow | OwnWindow

fun launch_method_str :: "launch_method \<Rightarrow> string" where
  "launch_method_str AnyWindow = ''AnyWindow''"
| "launch_method_str OwnWindow = ''OwnWindow''"

definition parse_launch_method :: "string \<Rightarrow> (manifest_error, launch_method) result" where
  "parse_launch_method s =
     (if s = ''AnyWindow'' then Inr AnyWindow else if s = ''OwnWindow'' then Inr OwnWindow else Inl (BadLaunchMethod s))"

record lang_string =
  ls_lang :: string
  ls_value :: string

record course =
  co_id :: string
  co_title :: "lang_string list"
  co_description :: "lang_string list"

record objective =
  ob_id :: string
  ob_title :: "lang_string list"
  ob_description :: "lang_string list"

record assignable_unit =
  un_id :: string
  un_move_on :: move_on
  un_mastery_score :: "rat option"
  un_launch_method :: "launch_method option"
  un_title :: "lang_string list"
  un_description :: "lang_string list"
  un_objective_ids :: "string list"
  un_url :: string
  un_launch_parameters :: "string option"
  un_entitlement_key :: "string option"

datatype block = Block (bl_id: string) (bl_title: "lang_string list") (bl_description: "lang_string list")
    (bl_objective_ids: "string list") (bl_children: "cnode list")
  and cnode = NodeBlock block | NodeAu assignable_unit

record course_structure =
  cs_course :: course
  cs_objectives :: "objective list"
  cs_nodes :: "cnode list"

fun collect_aus :: "cnode list \<Rightarrow> assignable_unit list" where
  "collect_aus [] = []"
| "collect_aus (NodeAu a # ns) = a # collect_aus ns"
| "collect_aus (NodeBlock (Block i t d os cs) # ns) = collect_aus cs @ collect_aus ns"

definition assignable_units :: "course_structure \<Rightarrow> assignable_unit list" where
  "assignable_units cs = collect_aus (cs_nodes cs)"

datatype conformance_error =
    CourseIdNotIri string
  | NoAssignableUnits
  | AuIdNotIri string
  | BlockIdNotIri string
  | DuplicateAuId string
  | DuplicateBlockId string
  | EmptyAuUrl string
  | DanglingObjectiveRef string string

definition is_iri :: "string \<Rightarrow> bool" where
  "is_iri s = (let s = trim s in s \<noteq> [] \<and> CHR '':'' \<in> set s \<and> \<not> list_ex is_blank s)"

definition dangling :: "string set \<Rightarrow> string \<Rightarrow> string list \<Rightarrow> conformance_error list" where
  "dangling declared owner refs = map (DanglingObjectiveRef owner) (filter (\<lambda>r. r \<notin> declared) refs)"

fun check_aus :: "string set \<Rightarrow> string set \<Rightarrow> assignable_unit list \<Rightarrow> conformance_error list" where
  "check_aus declared seen [] = []"
| "check_aus declared seen (a # as) =
     (if \<not> is_iri (un_id a) then [AuIdNotIri (un_id a)]
      else if un_id a \<in> seen then [DuplicateAuId (un_id a)] else []) @
     (if trim (un_url a) = [] then [EmptyAuUrl (un_id a)] else []) @
     dangling declared (un_id a) (un_objective_ids a) @
     check_aus declared (if is_iri (un_id a) then insert (un_id a) seen else seen) as"

definition validate_block ::
  "string set \<Rightarrow> block \<Rightarrow> string set \<times> conformance_error list \<Rightarrow> string set \<times> conformance_error list" where
  "validate_block declared b st =
     (let (seen, errors) = st;
          id_errors = (if \<not> is_iri (bl_id b) then [BlockIdNotIri (bl_id b)]
                       else if bl_id b \<in> seen then [DuplicateBlockId (bl_id b)] else [])
      in (if is_iri (bl_id b) then insert (bl_id b) seen else seen,
          errors @ id_errors @ dangling declared (bl_id b) (bl_objective_ids b)))"

fun check_blocks ::
  "string set \<Rightarrow> cnode list \<Rightarrow> string set \<times> conformance_error list \<Rightarrow> string set \<times> conformance_error list" where
  "check_blocks declared [] st = st"
| "check_blocks declared (NodeAu a # ns) st = check_blocks declared ns st"
| "check_blocks declared (NodeBlock (Block i t d os cs) # ns) st =
     check_blocks declared ns (check_blocks declared cs (validate_block declared (Block i t d os cs) st))"

definition validate_course_structure :: "course_structure \<Rightarrow> conformance_error list" where
  "validate_course_structure cs =
     (let declared = ob_id ` set (cs_objectives cs);
          aus = assignable_units cs;
          errors = (if is_iri (co_id (cs_course cs)) then [] else [CourseIdNotIri (co_id (cs_course cs))]) @
                   (if aus = [] then [NoAssignableUnits] else []) @ check_aus declared {} aus
      in snd (check_blocks declared (cs_nodes cs) ({}, errors)))"

end
