(* ===== verification/Cmi5_Manifest.thy ===== *)
theory Cmi5_Manifest
  imports Cmi5
begin

text \<open>
  The manifest of a course package (\<^verbatim>\<open>cmi5/src/manifest.rs\<close>): the parser over the events the XML reader
  delivers and the serializer to the events the XML writer is given. Names are local names; the end of the
  list is the end of the document; \<open>XBad\<close> is an error of the reader. Reading and writing an \<^verbatim>\<open>f64\<close> are
  parameters.
\<close>

section \<open>Events\<close>

type_synonym xml_attrs = "(string, string \<times> string) result list"

datatype xml_event =
    XStart string xml_attrs
  | XEmpty string xml_attrs
  | XEnd string
  | XText string
  | XCharRef "(string, string) result"
  | XEntity string
  | XOther
  | XBad string

definition and_next :: "('e, 'a) result \<Rightarrow> ('a \<Rightarrow> ('e, 'b) result) \<Rightarrow> ('e, 'b) result" where
  "and_next r k = (case r of Inl e \<Rightarrow> Inl e | Inr x \<Rightarrow> k x)"

lemma and_next_simps [simp]: "and_next (Inl e) k = Inl e" "and_next (Inr x) k = k x"
  by (simp_all add: and_next_def)

lemma and_next_Inr: "and_next r k = Inr y \<longleftrightarrow> (\<exists>x. r = Inr x \<and> k x = Inr y)"
  by (cases r) simp_all

lemma and_next_cong [fundef_cong]:
  "r = r' \<Longrightarrow> (\<And>x. r' = Inr x \<Longrightarrow> k x = k' x) \<Longrightarrow> and_next r k = and_next r' k'"
  by (cases r') simp_all

type_synonym 'a xml_parse = "(manifest_error, 'a \<times> xml_event list) result"

fun attr :: "xml_attrs \<Rightarrow> string \<Rightarrow> (manifest_error, string option) result" where
  "attr [] want = Inr None"
| "attr (Inl m # as) want = Inl (BadXml m)"
| "attr (Inr (k, v) # as) want = (if k = want then Inr (Some v) else attr as want)"

definition required_attr :: "string \<Rightarrow> string \<Rightarrow> xml_attrs \<Rightarrow> (manifest_error, string) result" where
  "required_attr element name as =
     and_next (attr as name) (\<lambda>x. case x of None \<Rightarrow> Inl (MissingAttribute element name) | Some v \<Rightarrow> Inr v)"

section \<open>Leaves\<close>

definition resolve_predefined_entity :: "string \<Rightarrow> string option" where
  "resolve_predefined_entity n =
     map_of [(''lt'', ''<''), (''gt'', ''>''), (''amp'', ''&''), (''apos'', [CHR 0x27]), (''quot'', [CHR 0x22])] n"

fun parse_text :: "string \<Rightarrow> string \<Rightarrow> xml_event list \<Rightarrow> string xml_parse" where
  "parse_text end_tag text [] = Inl (UnexpectedEof ''text'')"
| "parse_text end_tag text (e # es) =
     (case e of
        XBad m \<Rightarrow> Inl (BadXml m)
      | XText t \<Rightarrow> parse_text end_tag (text @ t) es
      | XCharRef (Inl m) \<Rightarrow> Inl (BadXml m)
      | XCharRef (Inr c) \<Rightarrow> parse_text end_tag (text @ c) es
      | XEntity n \<Rightarrow>
          (case resolve_predefined_entity n of
             Some r \<Rightarrow> parse_text end_tag (text @ r) es
           | None \<Rightarrow> Inl (BadXml (''unknown entity &'' @ n @ '';'')))
      | XEnd n \<Rightarrow> if n = end_tag then Inr (text, es) else parse_text end_tag text es
      | _ \<Rightarrow> parse_text end_tag text es)"

fun skip_to_end :: "string \<Rightarrow> nat \<Rightarrow> xml_event list \<Rightarrow> (manifest_error, xml_event list) result" where
  "skip_to_end name depth [] = Inl (UnexpectedEof ''element'')"
| "skip_to_end name depth (e # es) =
     (case e of
        XBad m \<Rightarrow> Inl (BadXml m)
      | XStart n as \<Rightarrow> skip_to_end name (if n = name then depth + 1 else depth) es
      | XEnd n \<Rightarrow>
          if n = name then (if depth - 1 = 0 then Inr es else skip_to_end name (depth - 1) es)
          else skip_to_end name depth es
      | _ \<Rightarrow> skip_to_end name depth es)"

definition objective_reference :: "xml_attrs \<Rightarrow> (manifest_error, string list) result" where
  "objective_reference as =
     and_next (attr as ''idref'') (\<lambda>a. and_next (attr as ''id'') (\<lambda>b.
       Inr (case (if a = None then b else a) of None \<Rightarrow> [] | Some i \<Rightarrow> [i])))"

fun parse_objective_refs :: "string list \<Rightarrow> xml_event list \<Rightarrow> string list xml_parse" where
  "parse_objective_refs refs [] = Inl (UnexpectedEof ''objectives'')"
| "parse_objective_refs refs (e # es) =
     (case e of
        XBad m \<Rightarrow> Inl (BadXml m)
      | XEmpty n as \<Rightarrow>
          if n = ''objective'' then and_next (objective_reference as) (\<lambda>i. parse_objective_refs (refs @ i) es)
          else parse_objective_refs refs es
      | XStart n as \<Rightarrow>
          if n = ''objective'' then and_next (objective_reference as) (\<lambda>i. parse_objective_refs (refs @ i) es)
          else parse_objective_refs refs es
      | XEnd n \<Rightarrow> if n = ''objectives'' then Inr (refs, es) else parse_objective_refs refs es
      | _ \<Rightarrow> parse_objective_refs refs es)"

lemma parse_text_shorter: "parse_text t acc es = Inr (x, es') \<Longrightarrow> length es' < length es"
proof (induction es arbitrary: acc)
  case (Cons e es)
  have "length es' < length es \<or> es' = es"
    using Cons.prems by (auto dest: Cons.IH split: xml_event.splits option.splits sum.splits if_splits)
  then show ?case by auto
qed simp

lemma skip_shorter: "skip_to_end n d es = Inr es' \<Longrightarrow> length es' < length es"
proof (induction es arbitrary: d)
  case (Cons e es)
  have "length es' < length es \<or> es' = es"
    using Cons.prems by (auto dest: Cons.IH split: xml_event.splits if_splits)
  then show ?case by auto
qed simp

lemma refs_shorter: "parse_objective_refs acc es = Inr (x, es') \<Longrightarrow> length es' < length es"
proof (induction es arbitrary: acc)
  case (Cons e es)
  have "length es' < length es \<or> es' = es"
    using Cons.prems by (auto simp: and_next_Inr dest: Cons.IH split: xml_event.splits if_splits)
  then show ?case by auto
qed simp

function (sequential) parse_langstrings :: "string \<Rightarrow> lang_string list \<Rightarrow> xml_event list \<Rightarrow> lang_string list xml_parse" where
  "parse_langstrings end_tag out [] = Inl (UnexpectedEof ''langstring'')"
| "parse_langstrings end_tag out (e # es) =
     (case e of
        XBad m \<Rightarrow> Inl (BadXml m)
      | XStart n as \<Rightarrow>
          if n = ''langstring''
          then and_next (attr as ''lang'') (\<lambda>lang. and_next (parse_text ''langstring'' [] es) (\<lambda>(v, es').
                 parse_langstrings end_tag (out @ [\<lparr>ls_lang = unwrap_or lang [], ls_value = v\<rparr>]) es'))
          else parse_langstrings end_tag out es
      | XEmpty n as \<Rightarrow>
          if n = ''langstring''
          then and_next (attr as ''lang'') (\<lambda>lang.
                 parse_langstrings end_tag (out @ [\<lparr>ls_lang = unwrap_or lang [], ls_value = []\<rparr>]) es)
          else parse_langstrings end_tag out es
      | XEnd n \<Rightarrow> if n = end_tag then Inr (out, es) else parse_langstrings end_tag out es
      | _ \<Rightarrow> parse_langstrings end_tag out es)"
  by pat_completeness auto
termination
  by (relation "measure (\<lambda>(_, _, es). length es)") (auto dest: parse_text_shorter)

lemma langstrings_shorter: "parse_langstrings t acc es = Inr (x, es') \<Longrightarrow> length es' < length es"
proof (induction "length es" arbitrary: acc es rule: less_induct)
  case less
  show ?case
  proof (cases es)
    case Nil
    then show ?thesis using less.prems by simp
  next
    case (Cons e es1)
    have ih: "length es2 \<le> length es1 \<Longrightarrow> parse_langstrings t acc' es2 = Inr (x, es') \<Longrightarrow> length es' < length es2" for acc' es2
      using less.hyps [of es2 acc'] Cons by simp
    have "length es' \<le> length es1"
      using less.prems Cons
      by (auto simp: and_next_Inr split: xml_event.splits if_splits dest!: parse_text_shorter ih [rotated])
    then show ?thesis using Cons by simp
  qed
qed

section \<open>Courses, objectives and units\<close>

text \<open>The loop shared by \<^verbatim>\<open>parse_course\<close> and the objectives: a title, a description, everything else skipped.\<close>

function (sequential) parse_labels ::
  "string \<Rightarrow> lang_string list \<Rightarrow> lang_string list \<Rightarrow> xml_event list \<Rightarrow> (lang_string list \<times> lang_string list) xml_parse" where
  "parse_labels element t d [] = Inl (UnexpectedEof element)"
| "parse_labels element t d (e # es) =
     (case e of
        XBad m \<Rightarrow> Inl (BadXml m)
      | XStart n as \<Rightarrow>
          if n = ''title'' then and_next (parse_langstrings ''title'' [] es) (\<lambda>(t', es'). parse_labels element t' d es')
          else if n = ''description''
          then and_next (parse_langstrings ''description'' [] es) (\<lambda>(d', es'). parse_labels element t d' es')
          else and_next (skip_to_end n 1 es) (\<lambda>es'. parse_labels element t d es')
      | XEnd n \<Rightarrow> if n = element then Inr ((t, d), es) else parse_labels element t d es
      | _ \<Rightarrow> parse_labels element t d es)"
  by pat_completeness auto
termination
  by (relation "measure (\<lambda>(_, _, _, es). length es)") (auto dest: langstrings_shorter skip_shorter)

definition parse_course :: "xml_attrs \<Rightarrow> bool \<Rightarrow> xml_event list \<Rightarrow> course xml_parse" where
  "parse_course as self_closing es =
     and_next (required_attr ''course'' ''id'' as) (\<lambda>i.
       if self_closing then Inr (\<lparr>co_id = i, co_title = [], co_description = []\<rparr>, es)
       else and_next (parse_labels ''course'' [] [] es) (\<lambda>((t, d), es').
              Inr (\<lparr>co_id = i, co_title = t, co_description = d\<rparr>, es')))"

lemma labels_shorter: "parse_labels el t d es = Inr (x, es') \<Longrightarrow> length es' < length es"
proof (induction "length es" arbitrary: t d es rule: less_induct)
  case less
  show ?case
  proof (cases es)
    case (Cons e es1)
    have ih: "parse_labels el t' d' es2 = Inr (x, es') \<Longrightarrow> length es2 \<le> length es1 \<Longrightarrow> length es' < length es2" for t' d' es2
      using less.hyps [of es2 t' d'] Cons by simp
    have "length es' \<le> length es1"
      using less.prems Cons
      by (auto simp: and_next_Inr split: xml_event.splits if_splits dest!: langstrings_shorter skip_shorter ih)
    then show ?thesis using Cons by simp
  qed (use less.prems in simp)
qed

lemma course_shorter: "parse_course as self_closing es = Inr (x, es') \<Longrightarrow> length es' \<le> length es"
  by (auto simp: parse_course_def and_next_Inr dest!: labels_shorter split: if_splits)

function (sequential) parse_objectives :: "objective list \<Rightarrow> xml_event list \<Rightarrow> objective list xml_parse" where
  "parse_objectives out [] = Inl (UnexpectedEof ''objectives'')"
| "parse_objectives out (e # es) =
     (case e of
        XBad m \<Rightarrow> Inl (BadXml m)
      | XStart n as \<Rightarrow>
          if n = ''objective''
          then and_next (required_attr ''objective'' ''id'' as) (\<lambda>i.
                 and_next (parse_labels ''objective'' [] [] es) (\<lambda>(l, es').
                   parse_objectives (out @ [\<lparr>ob_id = i, ob_title = fst l, ob_description = snd l\<rparr>]) es'))
          else parse_objectives out es
      | XEnd n \<Rightarrow> if n = ''objectives'' then Inr (out, es) else parse_objectives out es
      | _ \<Rightarrow> parse_objectives out es)"
  by pat_completeness auto
termination
  by (relation "measure (\<lambda>(_, es). length es)") (auto dest: labels_shorter)

lemma objectives_shorter: "parse_objectives out es = Inr (x, es') \<Longrightarrow> length es' < length es"
proof (induction "length es" arbitrary: out es rule: less_induct)
  case less
  show ?case
  proof (cases es)
    case (Cons e es1)
    have ih: "parse_objectives out' es2 = Inr (x, es') \<Longrightarrow> length es2 \<le> length es1 \<Longrightarrow> length es' < length es2" for out' es2
      using less.hyps [of es2 out'] Cons by simp
    have "length es' \<le> length es1"
      using less.prems Cons
      by (auto simp: and_next_Inr split: xml_event.splits if_splits dest!: labels_shorter ih)
    then show ?thesis using Cons by simp
  qed (use less.prems in simp)
qed

record au_parts =
  ap_title :: "lang_string list"
  ap_description :: "lang_string list"
  ap_objective_ids :: "string list"
  ap_url :: "string option"
  ap_launch_parameters :: "string option"
  ap_entitlement_key :: "string option"

definition no_parts :: au_parts where
  "no_parts = \<lparr>ap_title = [], ap_description = [], ap_objective_ids = [], ap_url = None, ap_launch_parameters = None,
     ap_entitlement_key = None\<rparr>"

function (sequential) au_body :: "au_parts \<Rightarrow> xml_event list \<Rightarrow> au_parts xml_parse" where
  "au_body p [] = Inl (UnexpectedEof ''au'')"
| "au_body p (e # es) =
     (case e of
        XBad m \<Rightarrow> Inl (BadXml m)
      | XStart n as \<Rightarrow>
          if n = ''title'' then and_next (parse_langstrings ''title'' [] es) (\<lambda>(t, es'). au_body (p\<lparr>ap_title := t\<rparr>) es')
          else if n = ''description''
          then and_next (parse_langstrings ''description'' [] es) (\<lambda>(d, es'). au_body (p\<lparr>ap_description := d\<rparr>) es')
          else if n = ''objectives''
          then and_next (parse_objective_refs [] es) (\<lambda>(refs, es'). au_body (p\<lparr>ap_objective_ids := refs\<rparr>) es')
          else if n = ''url'' then and_next (parse_text ''url'' [] es) (\<lambda>(x, es'). au_body (p\<lparr>ap_url := Some x\<rparr>) es')
          else if n = ''launchParameters''
          then and_next (parse_text ''launchParameters'' [] es) (\<lambda>(x, es'). au_body (p\<lparr>ap_launch_parameters := Some x\<rparr>) es')
          else if n = ''entitlementKey''
          then and_next (parse_text ''entitlementKey'' [] es) (\<lambda>(x, es'). au_body (p\<lparr>ap_entitlement_key := Some x\<rparr>) es')
          else and_next (skip_to_end n 1 es) (\<lambda>es'. au_body p es')
      | XEmpty n as \<Rightarrow>
          if n = ''url'' then au_body (p\<lparr>ap_url := Some []\<rparr>) es
          else if n = ''launchParameters'' then au_body (p\<lparr>ap_launch_parameters := Some []\<rparr>) es
          else if n = ''entitlementKey'' then au_body (p\<lparr>ap_entitlement_key := Some []\<rparr>) es
          else au_body p es
      | XEnd n \<Rightarrow> if n = ''au'' then Inr (p, es) else au_body p es
      | _ \<Rightarrow> au_body p es)"
  by pat_completeness auto
termination
  by (relation "measure (\<lambda>(_, es). length es)")
    (auto dest: langstrings_shorter skip_shorter refs_shorter parse_text_shorter)

lemma au_body_shorter: "au_body p es = Inr (x, es') \<Longrightarrow> length es' < length es"
proof (induction "length es" arbitrary: p es rule: less_induct)
  case less
  show ?case
  proof (cases es)
    case (Cons e es1)
    have ih: "au_body p' es2 = Inr (x, es') \<Longrightarrow> length es2 \<le> length es1 \<Longrightarrow> length es' < length es2" for p' es2
      using less.hyps [of es2 p'] Cons by simp
    have "length es' \<le> length es1"
      using less.prems Cons
      by (auto simp: and_next_Inr split: xml_event.splits if_splits
          dest!: langstrings_shorter skip_shorter refs_shorter parse_text_shorter ih)
    then show ?thesis using Cons by simp
  qed (use less.prems in simp)
qed

text \<open>The range check makes the values that are no numbers fail like any other.\<close>

definition read_mastery :: "(string \<Rightarrow> rat option) \<Rightarrow> string \<Rightarrow> (manifest_error, rat) result" where
  "read_mastery read_f64 s =
     (case read_f64 s of
        Some m \<Rightarrow> if 0 \<le> m \<and> m \<le> 1 then Inr m else Inl (BadMasteryScore s)
      | None \<Rightarrow> Inl (BadMasteryScore s))"

definition optional_attr ::
  "xml_attrs \<Rightarrow> string \<Rightarrow> (string \<Rightarrow> (manifest_error, 'a) result) \<Rightarrow> (manifest_error, 'a option) result" where
  "optional_attr as name parse =
     and_next (attr as name) (\<lambda>x. case x of None \<Rightarrow> Inr None | Some s \<Rightarrow> and_next (parse s) (\<lambda>y. Inr (Some y)))"

definition parse_au :: "(string \<Rightarrow> rat option) \<Rightarrow> xml_attrs \<Rightarrow> bool \<Rightarrow> xml_event list \<Rightarrow> assignable_unit xml_parse" where
  "parse_au read_f64 as self_closing es =
     and_next (required_attr ''au'' ''id'' as) (\<lambda>i.
     and_next (optional_attr as ''moveOn'' parse_move_on) (\<lambda>mv.
     and_next (optional_attr as ''masteryScore'' (read_mastery read_f64)) (\<lambda>mastery.
     and_next (optional_attr as ''launchMethod'' parse_launch_method) (\<lambda>lm.
       if self_closing then Inl (MissingElement ''url'')
       else and_next (au_body no_parts es) (\<lambda>(p, es').
         case ap_url p of
           None \<Rightarrow> Inl (MissingElement ''url'')
         | Some url \<Rightarrow>
             Inr (\<lparr>un_id = i, un_move_on = unwrap_or mv MvNotApplicable, un_mastery_score = mastery,
                   un_launch_method = lm, un_title = ap_title p, un_description = ap_description p,
                   un_objective_ids = ap_objective_ids p, un_url = url,
                   un_launch_parameters = ap_launch_parameters p, un_entitlement_key = ap_entitlement_key p\<rparr>, es'))))))"

lemma au_shorter: "parse_au read_f64 as self_closing es = Inr (x, es') \<Longrightarrow> length es' < length es"
  by (auto simp: parse_au_def and_next_Inr dest!: au_body_shorter split: if_splits option.splits)

section \<open>Blocks and the course structure\<close>

text \<open>
  The block read so far is the first argument; a nested block is read by the same function. The recursion
  inside the recursion ends because every parser leaves less than it was given.
\<close>

fun with_title :: "lang_string list \<Rightarrow> block \<Rightarrow> block" where
  "with_title t (Block i _ d os cs) = Block i t d os cs"

fun with_description :: "lang_string list \<Rightarrow> block \<Rightarrow> block" where
  "with_description d (Block i t _ os cs) = Block i t d os cs"

fun with_objective_ids :: "string list \<Rightarrow> block \<Rightarrow> block" where
  "with_objective_ids os (Block i t d _ cs) = Block i t d os cs"

fun add_child :: "cnode \<Rightarrow> block \<Rightarrow> block" where
  "add_child c (Block i t d os cs) = Block i t d os (cs @ [c])"

definition empty_block :: "string \<Rightarrow> block" where
  "empty_block i = Block i [] [] [] []"

function (sequential) block_body :: "(string \<Rightarrow> rat option) \<Rightarrow> block \<Rightarrow> xml_event list \<Rightarrow> block xml_parse" where
  "block_body f b [] = Inl (UnexpectedEof ''block'')"
| "block_body f b (e # es) =
     (case e of
        XBad m \<Rightarrow> Inl (BadXml m)
      | XStart n as \<Rightarrow>
          if n = ''title'' then and_next (parse_langstrings ''title'' [] es) (\<lambda>(t, es'). block_body f (with_title t b) es')
          else if n = ''description''
          then and_next (parse_langstrings ''description'' [] es) (\<lambda>(d, es'). block_body f (with_description d b) es')
          else if n = ''objectives''
          then and_next (parse_objective_refs [] es) (\<lambda>(refs, es'). block_body f (with_objective_ids refs b) es')
          else if n = ''block''
          then and_next (required_attr ''block'' ''id'' as) (\<lambda>i.
                 and_next (block_body f (empty_block i) es) (\<lambda>(c, es').
                   block_body f (add_child (NodeBlock c) b) es'))
          else if n = ''au''
          then and_next (parse_au f as False es) (\<lambda>(a, es'). block_body f (add_child (NodeAu a) b) es')
          else and_next (skip_to_end n 1 es) (\<lambda>es'. block_body f b es')
      | XEmpty n as \<Rightarrow>
          if n = ''block''
          then and_next (required_attr ''block'' ''id'' as) (\<lambda>i. block_body f (add_child (NodeBlock (empty_block i)) b) es)
          else if n = ''au''
          then and_next (parse_au f as True es) (\<lambda>(a, es'). block_body f (add_child (NodeAu a) b) es')
          else block_body f b es
      | XEnd n \<Rightarrow> if n = ''block'' then Inr (b, es) else block_body f b es
      | _ \<Rightarrow> block_body f b es)"
  by pat_completeness auto

lemma block_shorter_partial:
  "block_body_dom (f, b, es) \<Longrightarrow> block_body f b es = Inr (x, es') \<Longrightarrow> length es' < length es"
proof (induction f b es arbitrary: x es' rule: block_body.pinduct)
  case (1 f b)
  then show ?case by (simp add: block_body.psimps)
next
  case (2 f b e es)
  note run = "2.prems" [unfolded block_body.psimps(2) [OF "2.hyps"]]
  have "length es' \<le> length es"
  proof (cases e)
    case (XStart n as)
    consider (title) "n = ''title''" | (description) "n = ''description''" | (objectives) "n = ''objectives''"
      | (block) "n = ''block''" | (au) "n = ''au''"
      | (other) "n \<noteq> ''title''" "n \<noteq> ''description''" "n \<noteq> ''objectives''" "n \<noteq> ''block''" "n \<noteq> ''au''" by blast
    then show ?thesis
    proof cases
      case title
      then obtain t es1 where a: "parse_langstrings ''title'' [] es = Inr (t, es1)" "block_body f (with_title t b) es1 = Inr (x, es')"
        using run XStart by (auto simp: and_next_Inr)
      from "2.IH"(1) [OF XStart title a(1) refl a(2)] langstrings_shorter [OF a(1)] show ?thesis by simp
    next
      case description
      then obtain t es1 where a: "parse_langstrings ''description'' [] es = Inr (t, es1)" "block_body f (with_description t b) es1 = Inr (x, es')"
        using run XStart by (auto simp: and_next_Inr)
      from "2.IH"(2) [OF XStart _ description a(1) refl a(2)] langstrings_shorter [OF a(1)] description show ?thesis by simp
    next
      case objectives
      then obtain t es1 where a: "parse_objective_refs [] es = Inr (t, es1)" "block_body f (with_objective_ids t b) es1 = Inr (x, es')"
        using run XStart by (auto simp: and_next_Inr)
      from "2.IH"(3) [OF XStart _ _ objectives a(1) refl a(2)] refs_shorter [OF a(1)] objectives show ?thesis by simp
    next
      case block
      then obtain i c es1 where a: "required_attr ''block'' ''id'' as = Inr i" "block_body f (empty_block i) es = Inr (c, es1)"
        "block_body f (add_child (NodeBlock c) b) es1 = Inr (x, es')"
        using run XStart by (auto simp: and_next_Inr)
      from "2.IH"(4) [OF XStart _ _ _ block a(1) a(2)] "2.IH"(5) [OF XStart _ _ _ block a(1) a(2) refl a(3)] block
      show ?thesis by simp
    next
      case au
      then obtain u es1 where a: "parse_au f as False es = Inr (u, es1)" "block_body f (add_child (NodeAu u) b) es1 = Inr (x, es')"
        using run XStart by (auto simp: and_next_Inr)
      from "2.IH"(6) [OF XStart _ _ _ _ au a(1) refl a(2)] au_shorter [OF a(1)] au show ?thesis by simp
    next
      case other
      then obtain es1 where a: "skip_to_end n 1 es = Inr es1" "block_body f b es1 = Inr (x, es')"
        using run XStart by (auto simp: and_next_Inr)
      from "2.IH"(7) [OF XStart other a] skip_shorter [OF a(1)] show ?thesis by simp
    qed
  next
    case (XEmpty n as)
    consider (block) "n = ''block''" | (au) "n = ''au''" | (other) "n \<noteq> ''block''" "n \<noteq> ''au''" by blast
    then show ?thesis
    proof cases
      case block
      then obtain i where a: "required_attr ''block'' ''id'' as = Inr i"
        "block_body f (add_child (NodeBlock (empty_block i)) b) es = Inr (x, es')"
        using run XEmpty by (auto simp: and_next_Inr)
      from "2.IH"(8) [OF XEmpty block a] show ?thesis by simp
    next
      case au
      then obtain u es1 where a: "parse_au f as True es = Inr (u, es1)" "block_body f (add_child (NodeAu u) b) es1 = Inr (x, es')"
        using run XEmpty by (auto simp: and_next_Inr)
      from "2.IH"(9) [OF XEmpty _ au a(1) refl a(2)] au_shorter [OF a(1)] au show ?thesis by simp
    next
      case other
      then have "block_body f b es = Inr (x, es')" using run XEmpty by simp
      from "2.IH"(10) [OF XEmpty other this] show ?thesis by simp
    qed
  next
    case (XEnd n)
    then show ?thesis using run "2.IH"(11) [OF XEnd] by (auto split: if_splits dest: less_imp_le)
  qed (use run "2.IH"(12-) in \<open>auto dest: less_imp_le\<close>)
  then show ?case by simp
qed

lemma block_body_total: "All block_body_dom"
  by (rule "block_body.termination" [of "measure (\<lambda>(_, _, es). length es)"])
    (auto dest: langstrings_shorter skip_shorter refs_shorter au_shorter block_shorter_partial)

termination block_body
  by (rule block_body_total)

lemma block_shorter: "block_body f b es = Inr (x, es') \<Longrightarrow> length es' < length es"
  using block_shorter_partial block_body_total by blast

text \<open>\<^verbatim>\<open>parse_block\<close>: the empty element is the block without content.\<close>

definition parse_block :: "(string \<Rightarrow> rat option) \<Rightarrow> xml_attrs \<Rightarrow> bool \<Rightarrow> xml_event list \<Rightarrow> block xml_parse" where
  "parse_block f as self_closing es =
     and_next (required_attr ''block'' ''id'' as) (\<lambda>i.
       if self_closing then Inr (empty_block i, es) else block_body f (empty_block i) es)"

lemma parse_block_shorter: "parse_block f as sc es = Inr (x, es') \<Longrightarrow> length es' \<le> length es"
  by (auto simp: parse_block_def and_next_Inr split: if_splits dest!: block_shorter)

record structure_parts =
  sp_course :: "course option"
  sp_objectives :: "objective list"
  sp_nodes :: "cnode list"

definition add_node :: "cnode \<Rightarrow> structure_parts \<Rightarrow> structure_parts" where
  "add_node c p = p\<lparr>sp_nodes := sp_nodes p @ [c]\<rparr>"

function (sequential) structure_body :: "(string \<Rightarrow> rat option) \<Rightarrow> structure_parts \<Rightarrow> xml_event list \<Rightarrow> structure_parts xml_parse" where
  "structure_body f p [] = Inl (UnexpectedEof ''courseStructure'')"
| "structure_body f p (e # es) =
     (case e of
        XBad m \<Rightarrow> Inl (BadXml m)
      | XStart n as \<Rightarrow>
          if n = ''course''
          then and_next (parse_course as False es) (\<lambda>(c, es'). structure_body f (p\<lparr>sp_course := Some c\<rparr>) es')
          else if n = ''objectives''
          then and_next (parse_objectives [] es) (\<lambda>(os, es'). structure_body f (p\<lparr>sp_objectives := os\<rparr>) es')
          else if n = ''block''
          then and_next (parse_block f as False es) (\<lambda>(b, es'). structure_body f (add_node (NodeBlock b) p) es')
          else if n = ''au''
          then and_next (parse_au f as False es) (\<lambda>(a, es'). structure_body f (add_node (NodeAu a) p) es')
          else and_next (skip_to_end n 1 es) (\<lambda>es'. structure_body f p es')
      | XEmpty n as \<Rightarrow>
          if n = ''course''
          then and_next (parse_course as True es) (\<lambda>(c, es'). structure_body f (p\<lparr>sp_course := Some c\<rparr>) es')
          else if n = ''block''
          then and_next (parse_block f as True es) (\<lambda>(b, es'). structure_body f (add_node (NodeBlock b) p) es')
          else if n = ''au''
          then and_next (parse_au f as True es) (\<lambda>(a, es'). structure_body f (add_node (NodeAu a) p) es')
          else structure_body f p es
      | XEnd n \<Rightarrow> if n = ''courseStructure'' then Inr (p, es) else structure_body f p es
      | _ \<Rightarrow> structure_body f p es)"
  by pat_completeness auto
termination
  by (relation "measure (\<lambda>(_, _, es). length es)")
    (auto dest!: course_shorter skip_shorter objectives_shorter au_shorter parse_block_shorter)

definition parse_course_structure :: "(string \<Rightarrow> rat option) \<Rightarrow> xml_event list \<Rightarrow> (manifest_error, course_structure) result" where
  "parse_course_structure f es =
     and_next (structure_body f \<lparr>sp_course = None, sp_objectives = [], sp_nodes = []\<rparr> es) (\<lambda>(p, _).
       case sp_course p of
         None \<Rightarrow> Inl (MissingElement ''course'')
       | Some c \<Rightarrow> Inr \<lparr>cs_course = c, cs_objectives = sp_objectives p, cs_nodes = sp_nodes p\<rparr>)"

fun parse_manifest :: "(string \<Rightarrow> rat option) \<Rightarrow> xml_event list \<Rightarrow> (manifest_error, course_structure) result" where
  "parse_manifest f [] = Inl (MissingElement ''courseStructure'')"
| "parse_manifest f (e # es) =
     (case e of
        XBad m \<Rightarrow> Inl (BadXml m)
      | XStart n as \<Rightarrow> if n = ''courseStructure'' then parse_course_structure f es else parse_manifest f es
      | _ \<Rightarrow> parse_manifest f es)"

section \<open>Serialization\<close>

definition one_attr :: "string \<Rightarrow> string \<Rightarrow> xml_attrs" where
  "one_attr k v = [Inr (k, v)]"

definition write_langstrings :: "string \<Rightarrow> lang_string list \<Rightarrow> xml_event list" where
  "write_langstrings wrapper strings =
     (if strings = [] then []
      else XStart wrapper [] #
           concat (map (\<lambda>s. [XStart ''langstring'' (one_attr ''lang'' (ls_lang s)), XText (ls_value s), XEnd ''langstring'']) strings) @
           [XEnd wrapper])"

definition write_objective_refs :: "string list \<Rightarrow> xml_event list" where
  "write_objective_refs ids =
     (if ids = [] then []
      else XStart ''objectives'' [] # map (\<lambda>i. XEmpty ''objective'' (one_attr ''idref'' i)) ids @ [XEnd ''objectives''])"

definition write_text_element :: "string \<Rightarrow> string \<Rightarrow> xml_event list" where
  "write_text_element name text = [XStart name [], XText text, XEnd name]"

definition write_course :: "course \<Rightarrow> xml_event list" where
  "write_course c =
     XStart ''course'' (one_attr ''id'' (co_id c)) # write_langstrings ''title'' (co_title c) @
     write_langstrings ''description'' (co_description c) @ [XEnd ''course'']"

definition write_objectives :: "objective list \<Rightarrow> xml_event list" where
  "write_objectives objs =
     XStart ''objectives'' [] #
     concat (map (\<lambda>ob. XStart ''objective'' (one_attr ''id'' (ob_id ob)) # write_langstrings ''title'' (ob_title ob) @
       write_langstrings ''description'' (ob_description ob) @ [XEnd ''objective'']) objs) @ [XEnd ''objectives'']"

definition au_attrs :: "(rat \<Rightarrow> string) \<Rightarrow> assignable_unit \<Rightarrow> xml_attrs" where
  "au_attrs show_f64 a =
     one_attr ''id'' (un_id a) @ one_attr ''moveOn'' (move_on_str (un_move_on a)) @
     (case un_mastery_score a of None \<Rightarrow> [] | Some m \<Rightarrow> one_attr ''masteryScore'' (show_f64 m)) @
     (case un_launch_method a of None \<Rightarrow> [] | Some lm \<Rightarrow> one_attr ''launchMethod'' (launch_method_str lm))"

definition write_au :: "(rat \<Rightarrow> string) \<Rightarrow> assignable_unit \<Rightarrow> xml_event list" where
  "write_au show_f64 a =
     XStart ''au'' (au_attrs show_f64 a) # write_langstrings ''title'' (un_title a) @
     write_langstrings ''description'' (un_description a) @ write_objective_refs (un_objective_ids a) @
     write_text_element ''url'' (un_url a) @
     (case un_launch_parameters a of None \<Rightarrow> [] | Some p \<Rightarrow> write_text_element ''launchParameters'' p) @
     (case un_entitlement_key a of None \<Rightarrow> [] | Some k \<Rightarrow> write_text_element ''entitlementKey'' k) @ [XEnd ''au'']"

fun write_nodes :: "(rat \<Rightarrow> string) \<Rightarrow> cnode list \<Rightarrow> xml_event list" where
  "write_nodes g [] = []"
| "write_nodes g (NodeAu a # ns) = write_au g a @ write_nodes g ns"
| "write_nodes g (NodeBlock (Block i t d os cs) # ns) =
     XStart ''block'' (one_attr ''id'' i) # write_langstrings ''title'' t @ write_langstrings ''description'' d @
     write_objective_refs os @ write_nodes g cs @ [XEnd ''block''] @ write_nodes g ns"

definition COURSE_STRUCTURE_NS :: string where
  "COURSE_STRUCTURE_NS = ''https://w3id.org/xapi/profiles/cmi5/v1/CourseStructure.xsd''"

definition to_manifest_xml :: "(rat \<Rightarrow> string) \<Rightarrow> course_structure \<Rightarrow> xml_event list" where
  "to_manifest_xml g cs =
     XStart ''courseStructure'' (one_attr ''xmlns'' COURSE_STRUCTURE_NS) # write_course (cs_course cs) @
     (if cs_objectives cs = [] then [] else write_objectives (cs_objectives cs)) @
     write_nodes g (cs_nodes cs) @ [XEnd ''courseStructure'']"

end
