(* ===== verification/Cmi5_Properties.thy ===== *)
theory Cmi5_Properties
  imports Cmi5_Manifest
begin

text \<open>
  What holds of the pure crate: a course structure written as a manifest is read back unchanged, the launch
  query carries its parameters unchanged whatever bytes they hold, and the conformance check accepts exactly
  the structures that meet the rules.
\<close>

section \<open>The manifest\<close>

lemma one_attr_found [simp]: "attr (one_attr k v) k = Inr (Some v)"
  by (simp add: one_attr_def)

lemma required_one_attr [simp]: "required_attr el k (one_attr k v) = Inr v"
  by (simp add: required_attr_def)

lemma read_langstrings:
  assumes "w \<noteq> ''langstring''"
  shows "parse_langstrings w out
      (concat (map (\<lambda>s. [XStart ''langstring'' (one_attr ''lang'' (ls_lang s)), XText (ls_value s), XEnd ''langstring'']) strings) @
       XEnd w # es) = Inr (out @ strings, es)"
  by (induction strings arbitrary: out) simp_all

lemma read_refs:
  "parse_objective_refs acc (map (\<lambda>i. XEmpty ''objective'' (one_attr ''idref'' i)) ids @ XEnd ''objectives'' # es) =
     Inr (acc @ ids, es)"
  by (induction ids arbitrary: acc) (simp_all add: objective_reference_def one_attr_def)

lemma labels_title [simp]:
  "parse_labels el t d (write_langstrings ''title'' x @ es) = parse_labels el (if x = [] then t else x) d es"
  by (simp add: write_langstrings_def read_langstrings)

lemma labels_description [simp]:
  "parse_labels el t d (write_langstrings ''description'' x @ es) = parse_labels el t (if x = [] then d else x) es"
  by (simp add: write_langstrings_def read_langstrings)

lemma read_course:
  "parse_course (one_attr ''id'' (co_id c)) False
      (write_langstrings ''title'' (co_title c) @ write_langstrings ''description'' (co_description c) @ XEnd ''course'' # es) =
     Inr (c, es)"
  by (simp add: parse_course_def)

lemma read_objectives:
  "parse_objectives out (concat (map (\<lambda>ob. XStart ''objective'' (one_attr ''id'' (ob_id ob)) #
       write_langstrings ''title'' (ob_title ob) @ write_langstrings ''description'' (ob_description ob) @ [XEnd ''objective'']) objs) @
     XEnd ''objectives'' # es) = Inr (out @ objs, es)"
  by (induction objs arbitrary: out) simp_all

lemma au_body_steps [simp]:
  "au_body p (write_langstrings ''title'' t @ es) = au_body (if t = [] then p else p\<lparr>ap_title := t\<rparr>) es"
  "au_body p (write_langstrings ''description'' d @ es) = au_body (if d = [] then p else p\<lparr>ap_description := d\<rparr>) es"
  "au_body p (write_objective_refs os @ es) = au_body (if os = [] then p else p\<lparr>ap_objective_ids := os\<rparr>) es"
  "au_body p (write_text_element ''url'' x @ es) = au_body (p\<lparr>ap_url := Some x\<rparr>) es"
  "au_body p (write_text_element ''launchParameters'' x @ es) = au_body (p\<lparr>ap_launch_parameters := Some x\<rparr>) es"
  "au_body p (write_text_element ''entitlementKey'' x @ es) = au_body (p\<lparr>ap_entitlement_key := Some x\<rparr>) es"
  by (simp_all add: write_langstrings_def read_langstrings write_objective_refs_def read_refs write_text_element_def)

definition score_readable :: "(string \<Rightarrow> rat option) \<Rightarrow> (rat \<Rightarrow> string) \<Rightarrow> assignable_unit \<Rightarrow> bool" where
  "score_readable f g a \<longleftrightarrow> is_none_or (un_mastery_score a) (\<lambda>m. 0 \<le> m \<and> m \<le> 1 \<and> f (g m) = Some m)"

lemma launch_method_round: "parse_launch_method (launch_method_str m) = Inr m"
  by (cases m) (simp_all add: parse_launch_method_def)

lemma read_au_attrs:
  assumes "score_readable f g a"
  shows "required_attr ''au'' ''id'' (au_attrs g a) = Inr (un_id a)"
    and "optional_attr (au_attrs g a) ''moveOn'' parse_move_on = Inr (Some (un_move_on a))"
    and "optional_attr (au_attrs g a) ''masteryScore'' (read_mastery f) = Inr (un_mastery_score a)"
    and "optional_attr (au_attrs g a) ''launchMethod'' parse_launch_method = Inr (un_launch_method a)"
  using assms
  by (cases "un_mastery_score a"; cases "un_launch_method a";
      simp add: au_attrs_def one_attr_def required_attr_def optional_attr_def score_readable_def read_mastery_def
        launch_method_round)+

lemma read_au:
  assumes "score_readable f g a"
  shows "parse_au f (au_attrs g a) False (tl (write_au g a) @ es) = Inr (a, es)"
proof -
  have "au_body no_parts (tl (write_au g a) @ es) =
      Inr (\<lparr>ap_title = un_title a, ap_description = un_description a, ap_objective_ids = un_objective_ids a,
            ap_url = Some (un_url a), ap_launch_parameters = un_launch_parameters a,
            ap_entitlement_key = un_entitlement_key a\<rparr>, es)"
    by (cases "un_launch_parameters a"; cases "un_entitlement_key a"; simp add: write_au_def no_parts_def)
  then show ?thesis by (simp add: parse_au_def read_au_attrs [OF assms])
qed

lemma write_au_Cons: "write_au g a = XStart ''au'' (au_attrs g a) # tl (write_au g a)"
  by (simp add: write_au_def)

lemma block_body_steps [simp]:
  "block_body f b (write_langstrings ''title'' t @ es) = block_body f (if t = [] then b else with_title t b) es"
  "block_body f b (write_langstrings ''description'' d @ es) = block_body f (if d = [] then b else with_description d b) es"
  "block_body f b (write_objective_refs os @ es) = block_body f (if os = [] then b else with_objective_ids os b) es"
  "score_readable f g a \<Longrightarrow> block_body f b (write_au g a @ es) = block_body f (add_child (NodeAu a) b) es"
  by (simp_all add: write_langstrings_def read_langstrings write_objective_refs_def read_refs)
    (subst write_au_Cons, simp add: read_au)

lemma read_nodes:
  assumes "\<forall>a \<in> set (collect_aus ns). score_readable f g a"
  shows "block_body f (Block i t d os acc) (write_nodes g ns @ es) = block_body f (Block i t d os (acc @ ns)) es"
  using assms
proof (induction g ns arbitrary: i t d os acc es rule: write_nodes.induct)
  case (3 g i' t' d' os' cs ns)
  have "block_body f (empty_block i') (write_langstrings ''title'' t' @ write_langstrings ''description'' d' @
      write_objective_refs os' @ write_nodes g cs @ XEnd ''block'' # write_nodes g ns @ es) =
      Inr (Block i' t' d' os' cs, write_nodes g ns @ es)"
    using "3.IH"(1) "3.prems" by (auto simp: empty_block_def)
  then show ?case using "3.IH"(2) "3.prems" by simp
qed simp_all

lemma structure_body_nodes:
  assumes "\<forall>a \<in> set (collect_aus ns). score_readable f g a"
  shows "structure_body f p (write_nodes g ns @ es) = structure_body f (p\<lparr>sp_nodes := sp_nodes p @ ns\<rparr>) es"
  using assms
proof (induction ns arbitrary: p)
  case (Cons n ns)
  show ?case
  proof (cases n)
    case (NodeAu a)
    then have "structure_body f p (write_au g a @ write_nodes g ns @ es) =
        structure_body f (add_node (NodeAu a) p) (write_nodes g ns @ es)"
      using Cons.prems by (subst write_au_Cons, simp add: read_au)
    then show ?thesis using Cons NodeAu by (simp add: add_node_def)
  next
    case (NodeBlock b)
    obtain i t d os cs where b: "b = Block i t d os cs" by (cases b)
    have "parse_block f (one_attr ''id'' i) False (write_langstrings ''title'' t @ write_langstrings ''description'' d @
        write_objective_refs os @ write_nodes g cs @ XEnd ''block'' # write_nodes g ns @ es) = Inr (b, write_nodes g ns @ es)"
      using read_nodes [of cs f g] Cons.prems NodeBlock b by (auto simp: parse_block_def empty_block_def)
    then show ?thesis using Cons NodeBlock b by (simp add: add_node_def)
  qed
qed simp

text \<open>
  C35. Writing a course structure as a manifest and parsing what was written gives the structure back, blocks
  nested to any depth and in their order, for every structure whose mastery scores lie between 0 and 1 and are
  numbers that read back as they were written.
\<close>

theorem manifest_round_trip:
  assumes "\<forall>a \<in> set (assignable_units cs).
      is_none_or (un_mastery_score a) (\<lambda>m. 0 \<le> m \<and> m \<le> 1 \<and> read_f64 (show_f64 m) = Some m)"
  shows "parse_manifest read_f64 (to_manifest_xml show_f64 cs) = Inr cs"
proof -
  have n: "\<forall>a \<in> set (collect_aus (cs_nodes cs)). score_readable read_f64 show_f64 a"
    using assms by (simp add: assignable_units_def score_readable_def)
  have c: "structure_body read_f64 p (write_course (cs_course cs) @ es) =
      structure_body read_f64 (p\<lparr>sp_course := Some (cs_course cs)\<rparr>) es" for p es
    using read_course [of "cs_course cs" es] by (simp add: write_course_def)
  have obs: "structure_body read_f64 p ((if os = [] then [] else write_objectives os) @ es) =
      structure_body read_f64 (if os = [] then p else p\<lparr>sp_objectives := os\<rparr>) es" for p es os
    using read_objectives [of "[]" os es] by (simp add: write_objectives_def)
  show ?thesis
    unfolding to_manifest_xml_def
    by (simp add: parse_course_structure_def c obs structure_body_nodes [OF n])
qed

definition laser_course :: course_structure where
  "laser_course = \<lparr>cs_course = \<lparr>co_id = ''x:c'', co_title = [\<lparr>ls_lang = ''en'', ls_value = ''Laser''\<rparr>], co_description = []\<rparr>,
     cs_objectives = [\<lparr>ob_id = ''x:o'', ob_title = [], ob_description = []\<rparr>],
     cs_nodes = [NodeBlock (Block ''x:b'' [] [] [''x:o''] [NodeAu \<lparr>un_id = ''x:a'', un_move_on = MvPassed,
       un_mastery_score = Some (4/5), un_launch_method = Some OwnWindow, un_title = [], un_description = [],
       un_objective_ids = [], un_url = ''a.html'', un_launch_parameters = None, un_entitlement_key = None\<rparr>])]\<rparr>"

theorem manifest_round_trip_witness:
  "parse_manifest (\<lambda>s. if s = ''0.8'' then Some (4/5) else None) (to_manifest_xml (\<lambda>m. if m = 4/5 then ''0.8'' else []) laser_course) =
     Inr laser_course"
  by (rule manifest_round_trip) (simp add: laser_course_def assignable_units_def)

section \<open>The launch query\<close>

definition hex_value :: "char \<Rightarrow> nat option" where
  "hex_value c = map_of (zip ''0123456789ABCDEF'' [0..<16]) c"

fun percent_decode :: "string \<Rightarrow> string option" where
  "percent_decode [] = Some []"
| "percent_decode (c # cs) =
     (if c = CHR ''%''
      then (case cs of
              a # b # rest \<Rightarrow>
                (case (hex_value a, hex_value b) of
                   (Some x, Some y) \<Rightarrow> map_option ((#) (char_of (16 * x + y))) (percent_decode rest)
                 | _ \<Rightarrow> None)
            | _ \<Rightarrow> None)
      else map_option ((#) c) (percent_decode cs))"

text \<open>A reader of query strings: pairs at ampersands, a key before the equals sign, the value decoded.\<close>

definition read_query :: "string \<Rightarrow> (string \<times> string option) list" where
  "read_query q =
     map (\<lambda>kv. case split_once CHR ''='' kv of Some (k, v) \<Rightarrow> (k, percent_decode v) | None \<Rightarrow> (kv, None))
       (split_on CHR ''&'' q)"

lemma below_16:
  "n < 16 \<Longrightarrow> n \<in> {0, 1, 2, 3, 4, 5, 6, 7, 8, 9, 10, 11, 12, 13, 14, 15 :: nat}"
  by (simp add: numeral_eq_Suc less_Suc_eq)

lemma high_nibble: "of_char b div 16 < (16 :: nat)"
proof -
  have "of_char b < (256 :: nat)" by (rule nat_of_char_less_256)
  then show ?thesis by (simp add: less_mult_imp_div_less)
qed

lemma hex_value_digit: "n < 16 \<Longrightarrow> hex_value (hex_digit n) = Some n"
  by (drule below_16) (elim insertE emptyE; hypsubst; code_simp)

lemma hex_digit_plain: "n < 16 \<Longrightarrow> unreserved (hex_digit n)"
  by (drule below_16) (elim insertE emptyE; hypsubst; code_simp)

lemma decode_byte: "percent_decode (encode_byte b @ t) = map_option ((#) b) (percent_decode t)"
proof (cases "unreserved b")
  case True
  then have "b \<noteq> CHR ''%''" by (auto simp: unreserved_def)
  with True show ?thesis by (simp add: encode_byte_def)
next
  case False
  have "of_char b div 16 < (16 :: nat)" by (rule high_nibble)
  moreover have "char_of (16 * (of_char b div 16) + of_char b mod 16 :: nat) = b" by simp
  ultimately show ?thesis using False by (simp add: encode_byte_def hex_value_digit)
qed

lemma decode_encode [simp]: "percent_decode (encode_component s) = Some s"
  by (induction s) (simp_all add: encode_component_def decode_byte)

lemma encoded_clean: "c \<in> set (encode_component s) \<Longrightarrow> unreserved c \<or> c = CHR ''%''"
proof (induction s)
  case (Cons b s)
  have "of_char b div 16 < (16 :: nat)" "of_char b mod 16 < (16 :: nat)" by (simp_all add: high_nibble)
  then have "c \<in> set (encode_byte b) \<Longrightarrow> unreserved c \<or> c = CHR ''%''"
    by (auto simp: encode_byte_def hex_digit_plain split: if_splits)
  with Cons show ?case by (auto simp: encode_component_def)
qed (simp add: encode_component_def)

lemma encoded_separators [simp]:
  "CHR ''&'' \<notin> set (encode_component s)" "CHR ''='' \<notin> set (encode_component s)" "CHR ''?'' \<notin> set (encode_component s)"
  using encoded_clean [of _ s] by (auto simp: unreserved_def)

lemma split_pair:
  "CHR ''&'' \<notin> set k \<Longrightarrow> split_on CHR ''&'' (k @ encode_component v @ CHR ''&'' # rest) =
     (k @ encode_component v) # split_on CHR ''&'' rest"
  using split_on_append [of "CHR ''&''" "k @ encode_component v" rest] by simp

lemma split_last: "CHR ''&'' \<notin> set k \<Longrightarrow> split_on CHR ''&'' (k @ encode_component v) = [k @ encode_component v]"
  by simp

lemma read_pair: "CHR ''='' \<notin> set k \<Longrightarrow> split_once CHR ''='' (k @ CHR ''='' # encode_component v) = Some (k, encode_component v)"
  by simp

text \<open>
  C36. The launch query reads back, at the content, as the five parameters of the launch with exactly the bytes
  the server put in: no value, whatever it holds, can end its parameter early or add another one.
\<close>

theorem launch_query_round_trip:
  "read_query (build_launch_query show_agent show_uuid p) =
     [(''endpoint'', Some (lp_endpoint p)), (''fetch'', Some (lp_fetch p)), (''actor'', Some (show_agent (lp_actor p))),
      (''activityId'', Some (lp_activity_id p)), (''registration'', Some (show_uuid (lp_registration p)))]"
  using split_pair [of "''endpoint=''"] split_pair [of "''fetch=''"] split_pair [of "''actor=''"]
    split_pair [of "''activityId=''"] split_last [of "''registration=''"]
    read_pair [of "''endpoint''"] read_pair [of "''fetch''"] read_pair [of "''actor''"]
    read_pair [of "''activityId''"] read_pair [of "''registration''"]
  by (simp add: read_query_def build_launch_query_def)

section \<open>Conformance\<close>

fun collect_blocks :: "cnode list \<Rightarrow> block list" where
  "collect_blocks [] = []"
| "collect_blocks (NodeAu a # ns) = collect_blocks ns"
| "collect_blocks (NodeBlock (Block i t d os cs) # ns) = Block i t d os cs # collect_blocks cs @ collect_blocks ns"

text \<open>
  The rules, stated over the addresses of the tree and the characters of the ids, and not with the functions
  the check is made of. An address is the list of positions that leads from the top to a node.
\<close>

fun node_at :: "cnode list \<Rightarrow> nat list \<Rightarrow> cnode option" where
  "node_at ns [] = None"
| "node_at ns [i] = (if i < length ns then Some (ns ! i) else None)"
| "node_at ns (i # j # p) =
     (if i < length ns
      then (case ns ! i of NodeBlock b \<Rightarrow> node_at (bl_children b) (j # p) | NodeAu _ \<Rightarrow> None) else None)"

definition unit_at :: "course_structure \<Rightarrow> nat list \<Rightarrow> assignable_unit \<Rightarrow> bool" where
  "unit_at cs p a \<longleftrightarrow> node_at (cs_nodes cs) p = Some (NodeAu a)"

definition block_at :: "course_structure \<Rightarrow> nat list \<Rightarrow> block \<Rightarrow> bool" where
  "block_at cs p b \<longleftrightarrow> node_at (cs_nodes cs) p = Some (NodeBlock b)"

definition blank_free :: "string \<Rightarrow> bool" where
  "blank_free s \<longleftrightarrow> (\<forall>c \<in> set s. \<not> is_blank c)"

text \<open>One word with a colon in it, and nothing but blanks around it.\<close>

definition iri_like :: "string \<Rightarrow> bool" where
  "iri_like s \<longleftrightarrow> (\<exists>u w x v. s = u @ w @ CHR '':'' # x @ v \<and> (\<forall>c \<in> set u \<union> set v. is_blank c) \<and>
     blank_free w \<and> blank_free x)"

definition declares :: "course_structure \<Rightarrow> string \<Rightarrow> bool" where
  "declares cs r \<longleftrightarrow> (\<exists>ob \<in> set (cs_objectives cs). ob_id ob = r)"

definition conformant :: "course_structure \<Rightarrow> bool" where
  "conformant cs \<longleftrightarrow>
     iri_like (co_id (cs_course cs)) \<and> (\<exists>p a. unit_at cs p a) \<and>
     (\<forall>p a q a'. unit_at cs p a \<and> unit_at cs q a' \<and> un_id a = un_id a' \<longrightarrow> p = q) \<and>
     (\<forall>p b q b'. block_at cs p b \<and> block_at cs q b' \<and> bl_id b = bl_id b' \<longrightarrow> p = q) \<and>
     (\<forall>p a. unit_at cs p a \<longrightarrow> iri_like (un_id a) \<and> \<not> (\<forall>c \<in> set (un_url a). is_blank c) \<and>
        (\<forall>r \<in> set (un_objective_ids a). declares cs r)) \<and>
     (\<forall>p b. block_at cs p b \<longrightarrow> iri_like (bl_id b) \<and> (\<forall>r \<in> set (bl_objective_ids b). declares cs r))"

text \<open>The nodes in document order, each with its address; the positions of the top level count from \<open>k\<close>.\<close>

fun nodes_from :: "nat \<Rightarrow> cnode list \<Rightarrow> (nat list \<times> cnode) list" where
  "nodes_from k [] = []"
| "nodes_from k (NodeAu a # ns) = ([k], NodeAu a) # nodes_from (Suc k) ns"
| "nodes_from k (NodeBlock (Block i t d os cs) # ns) =
     ([k], NodeBlock (Block i t d os cs)) # map (apfst ((#) k)) (nodes_from 0 cs) @ nodes_from (Suc k) ns"

fun as_unit :: "cnode \<Rightarrow> assignable_unit option" where
  "as_unit (NodeAu a) = Some a"
| "as_unit (NodeBlock b) = None"

fun as_block :: "cnode \<Rightarrow> block option" where
  "as_block (NodeAu a) = None"
| "as_block (NodeBlock b) = Some b"

lemma as_unit_Some: "as_unit n = Some a \<longleftrightarrow> n = NodeAu a"
  by (cases n) auto

lemma as_block_Some: "as_block n = Some b \<longleftrightarrow> n = NodeBlock b"
  by (cases n) auto

lemma picked_append: "List.map_filter f (xs @ ys) = List.map_filter f xs @ List.map_filter f ys"
  by (induction xs) (simp_all add: List.map_filter_simps split: option.split)

lemma picked_below: "List.map_filter (\<lambda>x. f (snd x)) (map (apfst g) xs) = List.map_filter (\<lambda>x. f (snd x)) xs"
  by (induction xs) (simp_all add: List.map_filter_simps split: option.split)

lemma units_listed: "collect_aus ns = List.map_filter (\<lambda>x. as_unit (snd x)) (nodes_from k ns)"
proof (induction k ns rule: nodes_from.induct)
  case (3 k i t d os cs ns)
  then show ?case by (simp add: List.map_filter_simps picked_append picked_below)
qed (simp_all add: List.map_filter_simps)

lemma blocks_listed: "collect_blocks ns = List.map_filter (\<lambda>x. as_block (snd x)) (nodes_from k ns)"
proof (induction k ns rule: nodes_from.induct)
  case (3 k i t d os cs ns)
  then show ?case by (simp add: List.map_filter_simps picked_append picked_below)
qed (simp_all add: List.map_filter_simps)

lemma node_at_first:
  "node_at (n # ns) (0 # p) = (case p of [] \<Rightarrow> Some n
     | _ # _ \<Rightarrow> (case n of NodeBlock b \<Rightarrow> node_at (bl_children b) p | NodeAu _ \<Rightarrow> None))"
  by (cases p) (simp_all split: cnode.split)

lemma node_at_next: "node_at (n # ns) (Suc i # p) = node_at ns (i # p)"
  by (cases p) simp_all

lemma node_at_top:
  "node_at (NodeAu a # ns) (0 # p) = Some n \<longleftrightarrow> p = [] \<and> n = NodeAu a"
  "node_at (NodeBlock (Block i t d os cs) # ns) (0 # p) = Some n \<longleftrightarrow>
     p = [] \<and> n = NodeBlock (Block i t d os cs) \<or> (\<exists>j r. p = j # r \<and> node_at cs (j # r) = Some n)"
  by (cases p; auto simp: node_at_first)+

lemma listed_at: "(q, n) \<in> set (nodes_from k ns) \<longleftrightarrow> (\<exists>i p. q = (k + i) # p \<and> node_at ns (i # p) = Some n)"
proof (induction k ns arbitrary: q n rule: nodes_from.induct)
  case (1 k)
  have "node_at [] (i # p) = None" for i p by (cases p) simp_all
  then show ?case by simp
next
  case (2 k a ns)
  show ?case (is "?l \<longleftrightarrow> (\<exists>i. ?r i)")
  proof -
    have "(\<exists>i. ?r i) \<longleftrightarrow> ?r 0 \<or> (\<exists>i. ?r (Suc i))" by (metis not0_implies_Suc)
    moreover have "?r 0 \<longleftrightarrow> (q, n) = ([k], NodeAu a)" by (auto simp: node_at_top)
    moreover have "(\<exists>i. ?r (Suc i)) \<longleftrightarrow> (q, n) \<in> set (nodes_from (Suc k) ns)"
      by (simp add: "2.IH" node_at_next)
    ultimately show ?thesis by simp
  qed
next
  case (3 k i t d os cs ns)
  have down: "(\<exists>p. (q, n) = apfst ((#) k) p \<and> p \<in> set (nodes_from 0 cs)) \<longleftrightarrow>
      (\<exists>j p. q = k # j # p \<and> node_at cs (j # p) = Some n)"
    by (force simp: "3.IH"(1))
  show ?case (is "?l \<longleftrightarrow> (\<exists>i. ?r i)")
  proof -
    have "(\<exists>i. ?r i) \<longleftrightarrow> ?r 0 \<or> (\<exists>i. ?r (Suc i))" by (metis not0_implies_Suc)
    moreover have "?r 0 \<longleftrightarrow> (q, n) = ([k], NodeBlock (Block i t d os cs)) \<or> (\<exists>j p. q = k # j # p \<and> node_at cs (j # p) = Some n)"
      by (auto simp: node_at_top)
    moreover have "(\<exists>i. ?r (Suc i)) \<longleftrightarrow> (q, n) \<in> set (nodes_from (Suc k) ns)"
      by (simp add: "3.IH"(2) node_at_next)
    moreover have "?l \<longleftrightarrow> (q, n) = ([k], NodeBlock (Block i t d os cs)) \<or>
        (\<exists>p. (q, n) = apfst ((#) k) p \<and> p \<in> set (nodes_from 0 cs)) \<or> (q, n) \<in> set (nodes_from (Suc k) ns)"
      by (auto simp del: apfst_conv)
    ultimately show ?thesis using down by argo
  qed
qed

lemma addresses_distinct: "distinct (map fst (nodes_from k ns))"
proof (induction k ns rule: nodes_from.induct)
  case (2 k a ns)
  then show ?case by (auto simp: listed_at)
next
  case (3 k i t d os cs ns)
  have "map fst (map (apfst ((#) k)) (nodes_from 0 cs)) = map ((#) k) (map fst (nodes_from 0 cs))"
    by simp
  moreover have "distinct (map ((#) k) (map fst (nodes_from 0 cs)))"
    using "3.IH"(1) by (simp add: distinct_map inj_on_def)
  ultimately show ?case using "3.IH"(2) by (auto simp: listed_at)
qed simp

lemma distinct_picked:
  "distinct (map fst L) \<Longrightarrow>
   distinct (map f (List.map_filter (\<lambda>x. g (snd x)) L)) \<longleftrightarrow>
     (\<forall>p m q n a b. (p, m) \<in> set L \<and> (q, n) \<in> set L \<and> g m = Some a \<and> g n = Some b \<and> f a = f b \<longrightarrow> p = q)"
proof (induction L)
  case (Cons x L)
  obtain p m where x: "x = (p, m)" by (cases x)
  have picked: "(\<forall>b \<in> set (List.map_filter (\<lambda>x. g (snd x)) L). f a \<noteq> f b) \<longleftrightarrow>
      (\<forall>q n b. (q, n) \<in> set L \<and> g n = Some b \<longrightarrow> f b \<noteq> f a)" for a L
    by (fastforce simp: List.map_filter_def)
  have IH: "distinct (map f (List.map_filter (\<lambda>x. g (snd x)) L)) \<longleftrightarrow>
     (\<forall>p m q n a b. (p, m) \<in> set L \<and> (q, n) \<in> set L \<and> g m = Some a \<and> g n = Some b \<and> f a = f b \<longrightarrow> p = q)"
    using Cons by simp
  have new: "(p, n) \<notin> set L" for n using Cons.prems x by (force simp: image_iff)
  show ?case
  proof (cases "g m")
    case None
    then show ?thesis using IH x by (simp add: List.map_filter_simps) (metis option.distinct(1))
  next
    case (Some a)
    have "distinct (map f (List.map_filter (\<lambda>x. g (snd x)) (x # L))) \<longleftrightarrow>
        (\<forall>q n b. (q, n) \<in> set L \<and> g n = Some b \<longrightarrow> f b \<noteq> f a) \<and> distinct (map f (List.map_filter (\<lambda>x. g (snd x)) L))"
      using Some x by (simp add: List.map_filter_simps image_iff picked)
    also have "\<dots> \<longleftrightarrow> (\<forall>p m q n a b. (p, m) \<in> set (x # L) \<and> (q, n) \<in> set (x # L) \<and> g m = Some a \<and> g n = Some b \<and> f a = f b
        \<longrightarrow> p = q)" (is "?l \<longleftrightarrow> ?r")
    proof
      assume ?l
      then show ?r unfolding IH using Some x by (auto, metis+)
    next
      assume r: ?r
      have "f b \<noteq> f a" if "(q, n) \<in> set L" "g n = Some b" for q n b
        using r [rule_format, of p m q n a b] that Some x new by auto
      moreover have "distinct (map f (List.map_filter (\<lambda>x. g (snd x)) L))"
        unfolding IH using r by (meson list.set_intros(2))
      ultimately show ?l by blast
    qed
    finally show ?thesis .
  qed
qed (simp add: List.map_filter_simps)

lemma trimmed_parts: "\<exists>u v. s = u @ trim s @ v \<and> (\<forall>c \<in> set u \<union> set v. is_blank c)"
proof (intro exI conjI)
  let ?d = "dropWhile is_blank s"
  have "?d = rev (takeWhile is_blank (rev ?d) @ dropWhile is_blank (rev ?d))" by simp
  then have "?d = trim s @ rev (takeWhile is_blank (rev ?d))" unfolding rev_append trim_def .
  then show "s = takeWhile is_blank s @ trim s @ rev (takeWhile is_blank (rev ?d))"
    by (metis takeWhile_dropWhile_id)
  show "\<forall>c \<in> set (takeWhile is_blank s) \<union> set (rev (takeWhile is_blank (rev ?d))). is_blank c"
    by (auto dest: set_takeWhileD)
qed

lemma trim_core:
  assumes "\<forall>c \<in> set u \<union> set v. is_blank c" "blank_free w" "w \<noteq> []"
  shows "trim (u @ w @ v) = w"
proof -
  have d: "dropWhile is_blank (w @ v) = w @ v"
    using assms(2,3) by (cases w) (auto simp: blank_free_def)
  have e: "dropWhile is_blank (rev w) = rev w"
    using assms(2,3) by (cases w rule: rev_cases) (auto simp: blank_free_def)
  have "dropWhile is_blank (u @ w @ v) = w @ v"
    using assms(1) d by (simp add: dropWhile_append2)
  moreover have "dropWhile is_blank (rev (w @ v)) = rev w"
    using assms(1) dropWhile_append2 [of "rev v" is_blank "rev w"] e by simp
  ultimately show ?thesis by (simp add: trim_def)
qed

lemma is_iri_iff: "is_iri s \<longleftrightarrow> iri_like s"
proof
  assume i: "is_iri s"
  then obtain w x where wx: "trim s = w @ CHR '':'' # x"
    by (auto simp: is_iri_def Let_def dest: split_list)
  moreover have "blank_free (trim s)" using i by (auto simp: is_iri_def Let_def list_ex_iff blank_free_def)
  ultimately have "blank_free w" "blank_free x" by (auto simp: blank_free_def)
  moreover obtain u v where "s = u @ trim s @ v" "\<forall>c \<in> set u \<union> set v. is_blank c"
    using trimmed_parts [of s] by blast
  ultimately have "s = u @ (w @ CHR '':'' # x) @ v \<and> (\<forall>c \<in> set u \<union> set v. is_blank c) \<and> blank_free w \<and> blank_free x"
    unfolding wx by blast
  then show "iri_like s" unfolding iri_like_def append_assoc append_Cons by blast
next
  assume "iri_like s"
  then obtain u w x v where s: "s = u @ (w @ CHR '':'' # x) @ v" and b: "\<forall>c \<in> set u \<union> set v. is_blank c"
    and wx: "blank_free w" "blank_free x"
    unfolding iri_like_def append_assoc append_Cons by blast
  have "\<not> is_blank CHR '':''" by (simp add: is_blank_def)
  with wx have f: "blank_free (w @ CHR '':'' # x)" by (auto simp: blank_free_def)
  have "trim s = w @ CHR '':'' # x" unfolding s by (rule trim_core [OF b f]) simp
  then show "is_iri s" using f by (auto simp: is_iri_def list_ex_iff blank_free_def)
qed

lemma trim_Nil_iff: "trim s = [] \<longleftrightarrow> (\<forall>c \<in> set s. is_blank c)"
proof
  assume "trim s = []"
  with trimmed_parts [of s] show "\<forall>c \<in> set s. is_blank c" by auto
next
  assume "\<forall>c \<in> set s. is_blank c"
  then have "dropWhile is_blank s = []" unfolding dropWhile_eq_Nil_conv .
  then show "trim s = []" unfolding trim_def by (simp only: rev.simps dropWhile.simps)
qed

lemma listed_at_0: "(q, n) \<in> set (nodes_from 0 ns) \<longleftrightarrow> node_at ns q = Some n"
  by (cases q) (simp_all add: listed_at)

lemma set_units: "a \<in> set (assignable_units cs) \<longleftrightarrow> (\<exists>p. unit_at cs p a)"
  unfolding assignable_units_def units_listed [of _ 0] unit_at_def listed_at_0 [symmetric]
  by (force simp: List.map_filter_def as_unit_Some)

lemma set_blocks: "b \<in> set (collect_blocks (cs_nodes cs)) \<longleftrightarrow> (\<exists>p. block_at cs p b)"
  unfolding blocks_listed [of _ 0] block_at_def listed_at_0 [symmetric]
  by (force simp: List.map_filter_def as_block_Some)

lemma distinct_units: "distinct (map un_id (assignable_units cs)) \<longleftrightarrow>
    (\<forall>p a q a'. unit_at cs p a \<and> unit_at cs q a' \<and> un_id a = un_id a' \<longrightarrow> p = q)"
  unfolding assignable_units_def units_listed [of _ 0] distinct_picked [OF addresses_distinct]
    listed_at_0 as_unit_Some unit_at_def by blast

lemma distinct_blocks: "distinct (map bl_id (collect_blocks (cs_nodes cs))) \<longleftrightarrow>
    (\<forall>p b q b'. block_at cs p b \<and> block_at cs q b' \<and> bl_id b = bl_id b' \<longrightarrow> p = q)"
  unfolding blocks_listed [of _ 0] distinct_picked [OF addresses_distinct]
    listed_at_0 as_block_Some block_at_def by blast

lemma some_unit: "assignable_units cs \<noteq> [] \<longleftrightarrow> (\<exists>p a. unit_at cs p a)"
  using set_units [of _ cs] by (metis last_in_set length_greater_0_conv list.set(1) empty_iff set_empty2 ex_in_conv)

lemma declared_refs: "set rs \<subseteq> ob_id ` set (cs_objectives cs) \<longleftrightarrow> (\<forall>r \<in> set rs. declares cs r)"
  by (auto simp: declares_def)

lemma dangling_Nil: "dangling declared owner refs = [] \<longleftrightarrow> set refs \<subseteq> declared"
  by (auto simp: dangling_def filter_empty_conv)

lemma check_aus_Nil:
  "check_aus declared seen as = [] \<longleftrightarrow>
     distinct (map un_id as) \<and> un_id ` set as \<inter> seen = {} \<and>
     (\<forall>a \<in> set as. is_iri (un_id a) \<and> trim (un_url a) \<noteq> [] \<and> set (un_objective_ids a) \<subseteq> declared)"
  by (induction declared seen as rule: check_aus.induct) (auto simp: dangling_Nil)

lemma check_blocks_fold:
  "check_blocks declared ns st = foldl (\<lambda>st b. validate_block declared b st) st (collect_blocks ns)"
  by (induction declared ns st rule: check_blocks.induct) simp_all

lemma fold_blocks_Nil:
  "snd (foldl (\<lambda>st b. validate_block declared b st) (seen, errors) bs) = [] \<longleftrightarrow>
     errors = [] \<and> distinct (map bl_id bs) \<and> bl_id ` set bs \<inter> seen = {} \<and>
     (\<forall>b \<in> set bs. is_iri (bl_id b) \<and> set (bl_objective_ids b) \<subseteq> declared)"
proof (induction bs arbitrary: seen errors)
  case (Cons b bs)
  then show ?case by (auto simp: validate_block_def Let_def dangling_Nil)
qed simp

text \<open>
  C37. The conformance check finds nothing exactly when the structure is conformant: every id is one word with a
  colon in it, blanks around it apart; there is a unit at some address of the tree; no two addresses hold units,
  or blocks, of the same id; every launch url has a character that is not blank; and every reference to an
  objective has an objective. The rules are stated over the addresses of the tree, at any depth.
\<close>

theorem conformance_check_is_complete:
  "validate_course_structure cs = [] \<longleftrightarrow> conformant cs"
proof -
  have "validate_course_structure cs = [] \<longleftrightarrow>
     is_iri (co_id (cs_course cs)) \<and> assignable_units cs \<noteq> [] \<and>
     distinct (map un_id (assignable_units cs)) \<and> distinct (map bl_id (collect_blocks (cs_nodes cs))) \<and>
     (\<forall>a \<in> set (assignable_units cs). is_iri (un_id a) \<and> trim (un_url a) \<noteq> [] \<and>
        set (un_objective_ids a) \<subseteq> ob_id ` set (cs_objectives cs)) \<and>
     (\<forall>b \<in> set (collect_blocks (cs_nodes cs)). is_iri (bl_id b) \<and>
        set (bl_objective_ids b) \<subseteq> ob_id ` set (cs_objectives cs))"
    by (auto simp: validate_course_structure_def Let_def check_blocks_fold fold_blocks_Nil check_aus_Nil)
  also have "\<dots> \<longleftrightarrow> conformant cs"
    unfolding conformant_def distinct_units distinct_blocks some_unit is_iri_iff trim_Nil_iff declared_refs Ball_def
      set_units set_blocks by blast
  finally show ?thesis .
qed

end
