(* ===== verification/Cmi5_Service.thy ===== *)
theory Cmi5_Service
  imports Cmi5_Manifest Training_Service "HOL-Library.Sublist"
begin

text \<open>
  The server's half of cmi5 (\<^verbatim>\<open>server/src/cmi5.rs\<close>, \<^verbatim>\<open>server/src/api/cmi5.rs\<close>, the session extractor of
  \<^verbatim>\<open>server/src/auth.rs\<close>): courses and units, launches, the two credentials of a launch, the statement store
  and the grant of a training step, the state documents. The tables stand beside those of training, which
  the grant writes. What serde and SHA-256 compute is in \<open>cmi5_env\<close>; a row's place in
  \<open>kx_statements\<close> is the order in which it was stored. The content store is the file system below its root:
  the files by the components of their path, with what they hold; \<open>kv_content_dir\<close> is the configured directory.
\<close>

section \<open>Tables\<close>

record cmi5_course =
  kc_id :: uuid
  kc_iri :: string
  kc_title :: "string option"
  kc_description :: "string option"
  kc_content_path :: string
  kc_manifest_xml :: string
  kc_imported_by :: "uuid option"
  kc_deleted_at :: "instant option"

record cmi5_block =
  kb_id :: uuid
  kb_course_id :: uuid
  kb_parent_block_id :: "uuid option"
  kb_iri :: "string option"
  kb_title :: "string option"
  kb_position :: int

record cmi5_unit =
  ka_id :: uuid
  ka_course_id :: uuid
  ka_block_id :: "uuid option"
  ka_iri :: string
  ka_title :: "string option"
  ka_launch_url :: string
  ka_launch_parameters :: "string option"
  ka_launch_method :: "string option"
  ka_move_on :: string
  ka_mastery_score :: "rat option"
  ka_position :: int
  ka_step_id :: "uuid option"

record cmi5_registration =
  kr_id :: uuid
  kr_user_id :: uuid
  kr_au_id :: uuid
  kr_actor_account_name :: string
  kr_launch_mode :: string
  kr_satisfied_at :: "instant option"
  kr_completed_at :: "instant option"
  kr_passed_at :: "instant option"

record launch_token =
  kt_registration_id :: uuid
  kt_fetch_hash :: string
  kt_session_hash :: "string option"
  kt_consumed_at :: "instant option"
  kt_expires_at :: instant
  kt_session_expires_at :: instant

record stored_statement =
  ks_registration_id :: uuid
  ks_statement_id :: uuid
  ks_verb :: string
  ks_statement :: json

record state_document =
  kd_registration_id :: uuid
  kd_activity :: string
  kd_agent :: string
  kd_state_id :: string
  kd_document :: json

record cmi5_db =
  kx_training :: training_db
  kx_courses :: "cmi5_course list"
  kx_blocks :: "cmi5_block list"
  kx_units :: "cmi5_unit list"
  kx_registrations :: "cmi5_registration list"
  kx_tokens :: "launch_token list"
  kx_statements :: "stored_statement list"
  kx_documents :: "state_document list"
  kx_content :: "(string list \<times> string) list"

record cmi5_env =
  kv_enabled :: bool
  kv_content_dir :: "string list"
  kv_site_url :: string
  kv_content_origin :: "string option"
  kv_fetch_ttl :: duration
  kv_session_ttl :: duration
  kv_parse :: "json \<Rightarrow> (string, xstatement) result"
  kv_statement_json :: "xstatement \<Rightarrow> json"
  kv_launch_json :: "launch_data \<Rightarrow> json"
  kv_show_agent :: "agent \<Rightarrow> string"
  kv_show_uuid :: "uuid \<Rightarrow> string"
  kv_read_uuid :: "string \<Rightarrow> uuid option"
  kv_sha256 :: "string \<Rightarrow> string"
  kv_debug_score :: "rat option \<Rightarrow> string"
  kv_show_score :: "rat \<Rightarrow> string"
  kv_debug_string :: "string \<Rightarrow> string"
  kv_tokenize :: "string \<Rightarrow> xml_event list"
  kv_read_f64 :: "string \<Rightarrow> rat option"
  kv_max_package_bytes :: nat

text \<open>What a request draws: the time, fresh uuids and a fresh token.\<close>

record cmi5_call =
  kl_now :: instant
  kl_fresh :: "nat \<Rightarrow> uuid"
  kl_token :: string

datatype cmi5_error =
    Cmi5Disabled
  | PackageTooLarge nat nat
  | BadZip string
  | NoManifest
  | BadManifest manifest_error
  | NonConformant string
  | ZipSlip string
  | ContentIo string
  | Cmi5Pool string
  | Cmi5Db diesel_error string
  | CourseNotFound
  | AuNotFound
  | NoSuchStep
  | StepRequiresAssessment
  | MoveOnNotApplicable
  | FetchTokenInvalid
  | BadJson string
  | BadStatement string
  | RejectedStatement violation

type_synonym 'a cmi5_result = "(cmi5_error, 'a) result \<times> cmi5_db"

fun cmi5_from_database_error :: "database_error \<Rightarrow> cmi5_error" where
  "cmi5_from_database_error (Diesel d shown) = Cmi5Db d shown"
| "cmi5_from_database_error e = Cmi5Pool (show_database_error e)"

definition cmi5_violates :: "diesel_kind \<Rightarrow> cmi5_error" where
  "cmi5_violates k = Cmi5Db (DieselDatabase k ''constraint'') ''constraint''"

section \<open>The content store\<close>

text \<open>
  \<^verbatim>\<open>Path::join\<close>, and what the system makes of the result when it opens it: an absolute path replaces the base,
  an empty component and a dot stay where they are, two dots go up. No component is a symbolic link.
\<close>

type_synonym content_store = "(string list \<times> string) list"

fun resolve_path :: "string list \<Rightarrow> string list \<Rightarrow> string list" where
  "resolve_path here [] = here"
| "resolve_path here (p # ps) =
     resolve_path (if p = [] \<or> p = ''.'' then here else if p = ''..'' then butlast here else here @ [p]) ps"

definition is_absolute :: "string \<Rightarrow> bool" where
  "is_absolute p \<longleftrightarrow> take 1 p = ''/''"

definition path_join :: "string list \<Rightarrow> string \<Rightarrow> string list" where
  "path_join base p = resolve_path (if is_absolute p then [] else base) (split_on CHR ''/'' p)"

definition write_file :: "string list \<Rightarrow> string \<Rightarrow> content_store \<Rightarrow> content_store" where
  "write_file path bytes c = filter (\<lambda>(k, _). k \<noteq> path) c @ [(path, bytes)]"

definition files_below :: "string list \<Rightarrow> content_store \<Rightarrow> content_store" where
  "files_below dir c = filter (\<lambda>(k, _). prefix dir k) c"

definition remove_dir :: "string list \<Rightarrow> content_store \<Rightarrow> content_store" where
  "remove_dir dir c = filter (\<lambda>(k, _). \<not> prefix dir k) c"

definition course_content_dir :: "cmi5_env \<Rightarrow> string \<Rightarrow> string list" where
  "course_content_dir v content_path = path_join (kv_content_dir v) content_path"

section \<open>Courses and units\<close>

definition get_course :: "cmi5_db \<Rightarrow> uuid \<Rightarrow> (cmi5_error, cmi5_course) result" where
  "get_course db cid =
     (case find (\<lambda>c. kc_id c = cid \<and> kc_deleted_at c = None) (kx_courses db) of
        None \<Rightarrow> Inl CourseNotFound
      | Some c \<Rightarrow> Inr c)"

definition list_aus :: "cmi5_db \<Rightarrow> uuid \<Rightarrow> cmi5_unit list" where
  "list_aus db cid = sort_key ka_position (filter (\<lambda>a. ka_course_id a = cid) (kx_units db))"

definition unit_by_id :: "cmi5_db \<Rightarrow> uuid \<Rightarrow> cmi5_unit option" where
  "unit_by_id db aid = find (\<lambda>a. ka_id a = aid) (kx_units db)"

definition delete_course :: "cmi5_env \<Rightarrow> instant \<Rightarrow> uuid \<Rightarrow> cmi5_db \<Rightarrow> unit cmi5_result" where
  "delete_course v now cid db =
     (case get_course db cid of
        Inl e \<Rightarrow> (Inl e, db)
      | Inr course \<Rightarrow>
          (Inr (), db\<lparr>kx_courses := map (\<lambda>c. if kc_id c = cid \<and> kc_deleted_at c = None
                                              then c\<lparr>kc_deleted_at := Some now\<rparr> else c) (kx_courses db),
                       kx_content := remove_dir (course_content_dir v (kc_content_path course)) (kx_content db)\<rparr>))"

definition may_bind :: "cmi5_unit \<Rightarrow> training_step \<Rightarrow> (cmi5_error, unit) result" where
  "may_bind a s =
     (if ts_requires_assessment s then Inl StepRequiresAssessment
      else if ka_move_on a = move_on_str MvNotApplicable then Inl MoveOnNotApplicable
      else Inr ())"

definition bind_unit :: "uuid \<Rightarrow> uuid option \<Rightarrow> cmi5_db \<Rightarrow> cmi5_db" where
  "bind_unit aid step db =
     db\<lparr>kx_units := map (\<lambda>a. if ka_id a = aid then a\<lparr>ka_step_id := step\<rparr> else a) (kx_units db)\<rparr>"

definition assign_au_step :: "uuid \<Rightarrow> uuid option \<Rightarrow> cmi5_db \<Rightarrow> cmi5_unit cmi5_result" where
  "assign_au_step aid step db =
     (case unit_by_id db aid of
        None \<Rightarrow> (Inl AuNotFound, db)
      | Some a \<Rightarrow>
          (case step of
             None \<Rightarrow> (Inr (a\<lparr>ka_step_id := None\<rparr>), bind_unit aid None db)
           | Some sid \<Rightarrow>
               (case get_training_step_by_id (kx_training db) sid of
                  None \<Rightarrow> (Inl NoSuchStep, db)
                | Some s \<Rightarrow>
                    (case may_bind a s of
                       Inl e \<Rightarrow> (Inl e, db)
                     | Inr _ \<Rightarrow> (Inr (a\<lparr>ka_step_id := Some sid\<rparr>), bind_unit aid (Some sid) db)))))"

section \<open>Launch\<close>

definition launch_content_base :: "string option \<Rightarrow> string \<Rightarrow> string \<Rightarrow> string \<Rightarrow> string" where
  "launch_content_base content_origin site_url content_path au_launch_url =
     unwrap_or content_origin site_url @ ''/cmi5-content/'' @ content_path @ ''/'' @
     dropWhile (\<lambda>c. c = CHR ''/'') au_launch_url"

definition learner_agent :: "cmi5_env \<Rightarrow> uuid \<Rightarrow> agent" where
  "learner_agent v uid =
     \<lparr>ag_object_type = Some ''Agent'', ag_name = None, ag_mbox = None,
      ag_account = Some \<lparr>ac_home_page = kv_site_url v, ac_name = kv_show_uuid v uid\<rparr>\<rparr>"

definition launched_statement :: "cmi5_env \<Rightarrow> cmi5_call \<Rightarrow> cmi5_unit \<Rightarrow> uuid \<Rightarrow> xstatement" where
  "launched_statement v cx a uid =
     \<lparr>xs_id = Some (kl_fresh cx 1), xs_actor = learner_agent v uid, xs_verb = LAUNCHED,
      xs_object = Activity \<lparr>xa_object_type = Some ''Activity'', xa_id = ka_iri a, xa_definition = None\<rparr>,
      xs_result = None,
      xs_context = Some \<lparr>xc_registration = Some (kl_fresh cx 0),
        xc_context_activities = Some \<lparr>ca_category = Some [\<lparr>xa_object_type = None, xa_id = CMI5, xa_definition = None\<rparr>],
          ca_parent = None, ca_grouping = None, ca_other = None\<rparr>, xc_extensions = None\<rparr>,
      xs_timestamp = Some (kl_now cx)\<rparr>"

definition launch_url :: "cmi5_env \<Rightarrow> cmi5_call \<Rightarrow> cmi5_course \<Rightarrow> cmi5_unit \<Rightarrow> uuid \<Rightarrow> string" where
  "launch_url v cx c a uid =
     (let query = build_launch_query (kv_show_agent v) (kv_show_uuid v)
            \<lparr>lp_endpoint = kv_site_url v @ ''/api/cmi5/lrs'',
             lp_fetch = kv_site_url v @ ''/api/cmi5/fetch?token='' @ kl_token cx,
             lp_actor = learner_agent v uid, lp_registration = kl_fresh cx 0, lp_activity_id = ka_iri a\<rparr>;
          base = launch_content_base (kv_content_origin v) (kv_site_url v) (kc_content_path c) (ka_launch_url a);
          with_params = (case ka_launch_parameters a of
             Some p \<Rightarrow> if p \<noteq> [] then append_query base p else base | None \<Rightarrow> base)
      in append_query with_params query)"

text \<open>The four inserts are one transaction.\<close>

definition insert_launch ::
  "cmi5_registration \<Rightarrow> launch_token \<Rightarrow> state_document \<Rightarrow> stored_statement \<Rightarrow> cmi5_db \<Rightarrow> unit cmi5_result" where
  "insert_launch r t d s db =
     (if list_ex (\<lambda>x. kr_id x = kr_id r) (kx_registrations db) \<or>
         list_ex (\<lambda>x. kt_fetch_hash x = kt_fetch_hash t) (kx_tokens db) \<or>
         list_ex (\<lambda>x. ks_statement_id x = ks_statement_id s) (kx_statements db)
      then (Inl (cmi5_violates diesel_kind.UniqueViolation), db)
      else if \<not> user_exists (kx_training db) (kr_user_id r)
      then (Inl (cmi5_violates diesel_kind.ForeignKeyViolation), db)
      else (Inr (), db\<lparr>kx_registrations := kx_registrations db @ [r], kx_tokens := kx_tokens db @ [t],
              kx_documents := kx_documents db @ [d], kx_statements := kx_statements db @ [s]\<rparr>))"

definition create_launch :: "cmi5_env \<Rightarrow> cmi5_call \<Rightarrow> uuid \<Rightarrow> uuid \<Rightarrow> cmi5_db \<Rightarrow> (string \<times> uuid) cmi5_result" where
  "create_launch v cx aid uid db =
     (case unit_by_id db aid of
        None \<Rightarrow> (Inl AuNotFound, db)
      | Some a \<Rightarrow>
          (case get_course db (ka_course_id a) of
             Inl e \<Rightarrow> (Inl e, db)
           | Inr c \<Rightarrow>
               (case parse_move_on (ka_move_on a) of
                  Inl e \<Rightarrow> (Inl (BadManifest e), db)
                | Inr mv \<Rightarrow>
                    (let reg = kl_fresh cx 0 in
                     case insert_launch
                       \<lparr>kr_id = reg, kr_user_id = uid, kr_au_id = aid, kr_actor_account_name = kv_show_uuid v uid,
                        kr_launch_mode = launch_mode_str NormalMode, kr_satisfied_at = None, kr_completed_at = None,
                        kr_passed_at = None\<rparr>
                       \<lparr>kt_registration_id = reg, kt_fetch_hash = kv_sha256 v (kl_token cx), kt_session_hash = None,
                        kt_consumed_at = None, kt_expires_at = kl_now cx + kv_fetch_ttl v,
                        kt_session_expires_at = kl_now cx + kv_session_ttl v\<rparr>
                       \<lparr>kd_registration_id = reg, kd_activity = ka_iri a, kd_agent = kv_show_uuid v uid,
                        kd_state_id = ''LMS.LaunchData'',
                        kd_document = kv_launch_json v (new_launch_data reg NormalMode mv (ka_mastery_score a))\<rparr>
                       \<lparr>ks_registration_id = reg, ks_statement_id = kl_fresh cx 1, ks_verb = LAUNCHED,
                        ks_statement = kv_statement_json v (launched_statement v cx a uid)\<rparr> db of
                       (Inl e, db1) \<Rightarrow> (Inl e, db1)
                     | (Inr _, db1) \<Rightarrow> (Inr (launch_url v cx c a uid, reg), db1)))))"

section \<open>Credentials\<close>

definition fetch_open :: "string \<Rightarrow> instant \<Rightarrow> launch_token \<Rightarrow> bool" where
  "fetch_open h now t \<longleftrightarrow> kt_fetch_hash t = h \<and> kt_consumed_at t = None \<and> now < kt_expires_at t"

definition consume_fetch :: "cmi5_env \<Rightarrow> cmi5_call \<Rightarrow> string \<Rightarrow> cmi5_db \<Rightarrow> string cmi5_result" where
  "consume_fetch v cx plaintext db =
     (let h = kv_sha256 v plaintext; now = kl_now cx; session = kv_sha256 v (kl_token cx);
          affected = length (filter (fetch_open h now) (kx_tokens db))
      in if 0 < affected \<and> list_ex (\<lambda>t. kt_session_hash t = Some session) (kx_tokens db)
         then (Inl (cmi5_violates diesel_kind.UniqueViolation), db)
         else if affected = 1
         then (Inr (kl_token cx), db\<lparr>kx_tokens := map (\<lambda>t. if fetch_open h now t
                  then t\<lparr>kt_consumed_at := Some now, kt_session_hash := Some session\<rparr> else t) (kx_tokens db)\<rparr>)
         else (Inl FetchTokenInvalid, db))"

record session_context =
  sx_registration_id :: uuid
  sx_user_id :: uuid
  sx_au_id :: uuid
  sx_activity_id :: string
  sx_launch_mode :: string

definition registration_by_id :: "cmi5_db \<Rightarrow> uuid \<Rightarrow> cmi5_registration option" where
  "registration_by_id db rid = find (\<lambda>r. kr_id r = rid) (kx_registrations db)"

definition session_of_registration :: "cmi5_db \<Rightarrow> uuid \<Rightarrow> session_context option" where
  "session_of_registration db rid =
     Option.bind (registration_by_id db rid) (\<lambda>r.
       map_option (\<lambda>a. \<lparr>sx_registration_id = kr_id r, sx_user_id = kr_user_id r, sx_au_id = kr_au_id r,
                        sx_activity_id = ka_iri a, sx_launch_mode = kr_launch_mode r\<rparr>)
         (unit_by_id db (kr_au_id r)))"

definition resolve_session :: "cmi5_env \<Rightarrow> instant \<Rightarrow> string \<Rightarrow> cmi5_db \<Rightarrow> session_context option" where
  "resolve_session v now plaintext db =
     (case find (\<lambda>t. kt_session_hash t = Some (kv_sha256 v plaintext) \<and> now < kt_session_expires_at t) (kx_tokens db) of
        None \<Rightarrow> None
      | Some t \<Rightarrow> session_of_registration db (kt_registration_id t))"

definition cmi5_session_auth ::
  "cmi5_env \<Rightarrow> instant \<Rightarrow> string option \<Rightarrow> cmi5_db \<Rightarrow> (auth_error, session_context) result" where
  "cmi5_session_auth v now header db =
     (case header of
        None \<Rightarrow> Inl MissingCredentials
      | Some h \<Rightarrow>
          (case strip_prefix ''Bearer '' h of
             None \<Rightarrow> Inl InvalidToken
           | Some token \<Rightarrow>
               (case resolve_session v now token db of
                  Some sx \<Rightarrow> Inr sx
                | None \<Rightarrow> Inl InvalidToken)))"

section \<open>Statements\<close>

record grant_info =
  gi_user_id :: uuid
  gi_au_id :: uuid
  gi_registration_id :: uuid
  gi_step_id :: uuid
  gi_tool_id :: uuid
  gi_score :: "int option"

text \<open>\<^verbatim>\<open>f64::round\<close> rounds halves away from zero.\<close>

definition round_half_away :: "rat \<Rightarrow> int" where
  "round_half_away r = (if 0 \<le> r then \<lfloor>r + 1/2\<rfloor> else \<lceil>r - 1/2\<rceil>)"

definition statement_score :: "xstatement \<Rightarrow> int option" where
  "statement_score s =
     map_option (\<lambda>scaled. max 0 (min 100 (round_half_away (scaled * 100))))
       (Option.bind (Option.bind (xs_result s) xr_score) sc_scaled)"

definition expectation :: "cmi5_env \<Rightarrow> session_context \<Rightarrow> cmi5_unit \<Rightarrow> session_expectation" where
  "expectation v sx a =
     \<lparr>ex_actor_home_page = kv_site_url v, ex_actor_account_name = kv_show_uuid v (sx_user_id sx),
      ex_registration = sx_registration_id sx, ex_activity_id = sx_activity_id sx,
      ex_mastery_score = ka_mastery_score a\<rparr>"

definition replay_one :: "cmi5_env \<Rightarrow> session_machine \<Rightarrow> json \<Rightarrow> session_machine" where
  "replay_one v m raw =
     (case kv_parse v raw of
        Inl _ \<Rightarrow> m
      | Inr s \<Rightarrow> (case apply_statement s m of Inl _ \<Rightarrow> m | Inr m' \<Rightarrow> m'))"

definition replay :: "cmi5_env \<Rightarrow> cmi5_db \<Rightarrow> uuid \<Rightarrow> session_machine" where
  "replay v db rid =
     foldl (replay_one v) new_machine
       (map ks_statement (filter (\<lambda>s. ks_registration_id s = rid) (kx_statements db)))"

definition store_statement :: "stored_statement \<Rightarrow> cmi5_db \<Rightarrow> unit cmi5_result" where
  "store_statement s db =
     (if registration_by_id db (ks_registration_id s) = None
      then (Inl (cmi5_violates diesel_kind.ForeignKeyViolation), db)
      else (Inr (), db\<lparr>kx_statements := kx_statements db @ [s]\<rparr>))"

definition grant_step ::
  "cmi5_call \<Rightarrow> uuid \<Rightarrow> session_context \<Rightarrow> cmi5_unit \<Rightarrow> int option \<Rightarrow> cmi5_db \<Rightarrow> grant_info cmi5_result" where
  "grant_step cx sid sx a score db =
     (case get_training_step_by_id (kx_training db) sid of
        None \<Rightarrow> (Inl NoSuchStep, db)
      | Some step \<Rightarrow>
          (case record_step_completion (kl_now cx) (sx_user_id sx) sid (sx_user_id sx) ''completed''
                  (Some (''Completed via cmi5 module '' @ ka_iri a)) (kx_training db) of
             (Inl e, tdb) \<Rightarrow> (Inl (cmi5_from_database_error e), db\<lparr>kx_training := tdb\<rparr>)
           | (Inr _, tdb) \<Rightarrow>
               (Inr \<lparr>gi_user_id = sx_user_id sx, gi_au_id = ka_id a, gi_registration_id = sx_registration_id sx,
                     gi_step_id = sid, gi_tool_id = ts_tool_id step, gi_score = score\<rparr>,
                db\<lparr>kx_training := tdb\<rparr>)))"

definition mark_satisfied :: "instant \<Rightarrow> uuid \<Rightarrow> session_outcome \<Rightarrow> cmi5_db \<Rightarrow> cmi5_db" where
  "mark_satisfied now rid x db =
     db\<lparr>kx_registrations := map (\<lambda>r. if kr_id r = rid
          then r\<lparr>kr_satisfied_at := Some now, kr_passed_at := (if so_passed x then Some now else None),
                 kr_completed_at := (if so_completed x then Some now else None)\<rparr> else r) (kx_registrations db)\<rparr>"

text \<open>Step 4: the statement is stored; grant the step when the session satisfies the unit.\<close>

definition grant_if_satisfied ::
  "cmi5_call \<Rightarrow> session_context \<Rightarrow> cmi5_unit \<Rightarrow> xstatement \<Rightarrow> session_machine \<Rightarrow> cmi5_db \<Rightarrow> grant_info option cmi5_result" where
  "grant_if_satisfied cx sx a s m db =
     (case parse_move_on (ka_move_on a) of
        Inl e \<Rightarrow> (Inl (BadManifest e), db)
      | Inr mv \<Rightarrow>
          if sx_launch_mode sx \<noteq> launch_mode_str NormalMode \<or> \<not> evaluate_move_on mv (sm_outcome m)
          then (Inr None, db)
          else (case ka_step_id a of
             None \<Rightarrow> (Inr None, db)
           | Some sid \<Rightarrow>
               (case registration_by_id db (sx_registration_id sx) of
                  None \<Rightarrow> (Inl (Cmi5Db DieselNotFound ''Record not found''), db)
                | Some r \<Rightarrow>
                    if kr_satisfied_at r \<noteq> None then (Inr None, db)
                    else (case grant_step cx sid sx a (statement_score s) db of
                            (Inl e, db1) \<Rightarrow> (Inl e, db1)
                          | (Inr g, db1) \<Rightarrow>
                              (Inr (Some g), mark_satisfied (kl_now cx) (sx_registration_id sx) (sm_outcome m) db1)))))"

definition record_statement ::
  "cmi5_env \<Rightarrow> cmi5_call \<Rightarrow> session_context \<Rightarrow> uuid \<Rightarrow> uuid option \<Rightarrow> json \<Rightarrow> cmi5_db \<Rightarrow> grant_info option cmi5_result" where
  "record_statement v cx sx fresh hint raw db =
     (case kv_parse v raw of
        Inl e \<Rightarrow> (Inl (BadStatement e), db)
      | Inr s \<Rightarrow>
          (case unit_by_id db (sx_au_id sx) of
             None \<Rightarrow> (Inl AuNotFound, db)
           | Some a \<Rightarrow>
               (case validate_cmi5_statement s (expectation v sx a) of
                  Inl e \<Rightarrow> (Inl (RejectedStatement e), db)
                | Inr _ \<Rightarrow>
                    (let statement_id = (case hint of Some i \<Rightarrow> i | None \<Rightarrow> unwrap_or (xs_id s) fresh) in
                     if list_ex (\<lambda>t. ks_statement_id t = statement_id) (kx_statements db) then (Inr None, db)
                     else
                       (case apply_statement s (replay v db (sx_registration_id sx)) of
                          Inl e \<Rightarrow> (Inl (RejectedStatement e), db)
                        | Inr m \<Rightarrow>
                            (case store_statement
                                \<lparr>ks_registration_id = sx_registration_id sx, ks_statement_id = statement_id,
                                 ks_verb = xs_verb s, ks_statement = raw\<rparr> db of
                               (Inl e, db1) \<Rightarrow> (Inl e, db1)
                             | (Inr _, db1) \<Rightarrow> grant_if_satisfied cx sx a s m db1))))))"

definition get_statement :: "cmi5_db \<Rightarrow> uuid \<Rightarrow> uuid \<Rightarrow> json option" where
  "get_statement db rid sid =
     map_option ks_statement (find (\<lambda>s. ks_registration_id s = rid \<and> ks_statement_id s = sid) (kx_statements db))"

section \<open>State documents\<close>

definition document_at :: "uuid \<Rightarrow> string \<Rightarrow> string \<Rightarrow> string \<Rightarrow> state_document \<Rightarrow> bool" where
  "document_at rid activity who sid d \<longleftrightarrow>
     kd_registration_id d = rid \<and> kd_activity d = activity \<and> kd_agent d = who \<and> kd_state_id d = sid"

definition get_state_document :: "uuid \<Rightarrow> string \<Rightarrow> string \<Rightarrow> string \<Rightarrow> cmi5_db \<Rightarrow> json option" where
  "get_state_document rid activity who sid db =
     map_option kd_document (find (document_at rid activity who sid) (kx_documents db))"

definition put_state_document :: "uuid \<Rightarrow> string \<Rightarrow> string \<Rightarrow> string \<Rightarrow> json \<Rightarrow> cmi5_db \<Rightarrow> unit cmi5_result" where
  "put_state_document rid activity who sid doc db =
     (if list_ex (document_at rid activity who sid) (kx_documents db)
      then (Inr (), db\<lparr>kx_documents := map (\<lambda>d. if document_at rid activity who sid d then d\<lparr>kd_document := doc\<rparr> else d)
              (kx_documents db)\<rparr>)
      else if registration_by_id db rid = None then (Inl (cmi5_violates diesel_kind.ForeignKeyViolation), db)
      else (Inr (), db\<lparr>kx_documents := kx_documents db @
              [\<lparr>kd_registration_id = rid, kd_activity = activity, kd_agent = who, kd_state_id = sid, kd_document = doc\<rparr>]\<rparr>))"

definition delete_state_document :: "uuid \<Rightarrow> string \<Rightarrow> string \<Rightarrow> string \<Rightarrow> cmi5_db \<Rightarrow> cmi5_db" where
  "delete_state_document rid activity who sid db =
     db\<lparr>kx_documents := filter (\<lambda>d. \<not> document_at rid activity who sid d) (kx_documents db)\<rparr>"

section \<open>What a learner is shown\<close>

record learner_module =
  lo_au_id :: uuid
  lo_au_title :: "string option"
  lo_course_id :: uuid
  lo_course_title :: "string option"
  lo_tool_id :: uuid
  lo_step_id :: uuid
  lo_completed :: bool

definition completed_steps :: "training_db \<Rightarrow> uuid \<Rightarrow> instant \<Rightarrow> uuid list" where
  "completed_steps tdb uid now =
     map ut_step_id (filter (\<lambda>p. ut_user_id p = uid \<and> ut_status p = Completed \<and> is_none_or (ut_expires_at p) (\<lambda>e. now < e))
       (td_progress tdb))"

definition learner_module_of :: "cmi5_db \<Rightarrow> uuid list \<Rightarrow> cmi5_unit \<Rightarrow> learner_module option" where
  "learner_module_of db done a =
     Option.bind (ka_step_id a) (\<lambda>sid.
     Option.bind (find (\<lambda>c. kc_id c = ka_course_id a \<and> kc_deleted_at c = None) (kx_courses db)) (\<lambda>c.
     map_option (\<lambda>s. \<lparr>lo_au_id = ka_id a, lo_au_title = ka_title a, lo_course_id = ka_course_id a,
         lo_course_title = kc_title c, lo_tool_id = ts_tool_id s, lo_step_id = sid, lo_completed = sid \<in> set done\<rparr>)
       (get_training_step_by_id (kx_training db) sid)))"

definition list_learner_modules :: "cmi5_db \<Rightarrow> uuid \<Rightarrow> instant \<Rightarrow> learner_module list" where
  "list_learner_modules db uid now =
     List.map_filter (learner_module_of db (completed_steps (kx_training db) uid now)) (kx_units db)"

end
