(* ===== verification/Cmi5_Import.thy ===== *)
theory Cmi5_Import
  imports Cmi5_Service
begin

text \<open>
  Importing a course package (\<^verbatim>\<open>import_package\<close>, \<^verbatim>\<open>extract_all\<close> and \<^verbatim>\<open>insert_nodes\<close> of \<^verbatim>\<open>server/src/cmi5.rs\<close>).
  What the zip crate reads is data: the entries in order, each with the path it encloses, if any, the bytes
  it inflates to, and the error, if any, that comes after them; the XML reader is \<open>kv_tokenize\<close>. An entry is
  written to its path joined to the directory of the course, wherever that leads. The errors of a file system
  that cannot create a directory or a file are left out. Byte counts are the \<^verbatim>\<open>u64\<close> of the code, which saturate.
\<close>

section \<open>Extraction\<close>

record zip_entry =
  ze_name :: string
  ze_is_dir :: bool
  ze_enclosed :: "string option"
  ze_bytes :: string
  ze_fault :: "string option"

record zip_archive =
  za_manifest :: "(string, string) result option"
  za_entries :: "(string, zip_entry) result list"

record course_package =
  pk_size :: nat
  pk_archive :: "(string, zip_archive) result"

definition MAX_DECOMPRESSION_RATIO :: nat where "MAX_DECOMPRESSION_RATIO = 100"
definition MIN_INFLATED_BUDGET :: nat where "MIN_INFLATED_BUDGET = 10 * 1024 * 1024"
definition MAX_MANIFEST_BYTES :: nat where "MAX_MANIFEST_BYTES = 5 * 1024 * 1024"

definition sat_u64 :: "nat \<Rightarrow> nat" where
  "sat_u64 n = min n (2 ^ 64 - 1)"

fun extract_all ::
  "string list \<Rightarrow> nat \<Rightarrow> nat \<Rightarrow> (string, zip_entry) result list \<Rightarrow> content_store \<Rightarrow> (cmi5_error, unit) result \<times> content_store" where
  "extract_all dest limit used [] c = (Inr (), c)"
| "extract_all dest limit used (Inl m # es) c = (Inl (BadZip m), c)"
| "extract_all dest limit used (Inr e # es) c =
     (if ze_is_dir e then extract_all dest limit used es c
      else (case ze_enclosed e of
         None \<Rightarrow> (Inl (ZipSlip (ze_name e)), c)
       | Some rel \<Rightarrow>
           (let room = sat_u64 (limit - used + 1);
                written = take room (ze_bytes e);
                c1 = write_file (path_join dest rel) written c
            in case (if length (ze_bytes e) < room then ze_fault e else None) of
                 Some m \<Rightarrow> (Inl (ContentIo m), c1)
               | None \<Rightarrow>
                   (let sofar = sat_u64 (used + length written)
                    in if limit < sofar then (Inl (PackageTooLarge sofar limit), c1)
                       else extract_all dest limit sofar es c1))))"

section \<open>The tree\<close>

definition first_lang :: "lang_string list \<Rightarrow> string option" where
  "first_lang strings = (case strings of [] \<Rightarrow> None | s # _ \<Rightarrow> Some (ls_value s))"

definition insert_unit :: "cmi5_unit \<Rightarrow> cmi5_db \<Rightarrow> (cmi5_error, cmi5_db) result" where
  "insert_unit a db =
     (if list_ex (\<lambda>x. ka_id x = ka_id a \<or> (ka_course_id x = ka_course_id a \<and> ka_iri x = ka_iri a)) (kx_units db)
      then Inl (cmi5_violates diesel_kind.UniqueViolation)
      else Inr (db\<lparr>kx_units := kx_units db @ [a]\<rparr>))"

definition insert_block :: "cmi5_block \<Rightarrow> cmi5_db \<Rightarrow> (cmi5_error, cmi5_db) result" where
  "insert_block b db =
     (if list_ex (\<lambda>x. kb_id x = kb_id b) (kx_blocks db) then Inl (cmi5_violates diesel_kind.UniqueViolation)
      else Inr (db\<lparr>kx_blocks := kx_blocks db @ [b]\<rparr>))"

definition new_unit :: "uuid \<Rightarrow> uuid \<Rightarrow> uuid option \<Rightarrow> nat \<Rightarrow> assignable_unit \<Rightarrow> cmi5_unit" where
  "new_unit i cid block pos a =
     \<lparr>ka_id = i, ka_course_id = cid, ka_block_id = block, ka_iri = un_id a, ka_title = first_lang (un_title a),
      ka_launch_url = un_url a, ka_launch_parameters = un_launch_parameters a,
      ka_launch_method = map_option launch_method_str (un_launch_method a), ka_move_on = move_on_str (un_move_on a),
      ka_mastery_score = un_mastery_score a, ka_position = int pos, ka_step_id = None\<rparr>"

text \<open>The ids are those the database draws, the next one numbered \<open>n\<close>; \<open>pos\<close> is the index among siblings.\<close>

fun insert_nodes ::
  "(nat \<Rightarrow> uuid) \<Rightarrow> uuid \<Rightarrow> uuid option \<Rightarrow> nat \<Rightarrow> cnode list \<Rightarrow> nat \<times> cmi5_db \<Rightarrow> (cmi5_error, nat \<times> cmi5_db) result" where
  "insert_nodes ids cid block pos [] st = Inr st"
| "insert_nodes ids cid block pos (NodeAu a # ns) st =
     and_next (insert_unit (new_unit (ids (fst st)) cid block pos a) (snd st)) (\<lambda>db.
       insert_nodes ids cid block (pos + 1) ns (fst st + 1, db))"
| "insert_nodes ids cid block pos (NodeBlock (Block i t d os cs) # ns) st =
     and_next (insert_block \<lparr>kb_id = ids (fst st), kb_course_id = cid, kb_parent_block_id = block, kb_iri = Some i,
         kb_title = first_lang t, kb_position = int pos\<rparr> (snd st)) (\<lambda>db.
     and_next (insert_nodes ids cid (Some (ids (fst st))) 0 cs (fst st + 1, db)) (\<lambda>st'.
       insert_nodes ids cid block (pos + 1) ns st'))"

definition insert_course :: "cmi5_course \<Rightarrow> cmi5_db \<Rightarrow> (cmi5_error, cmi5_db) result" where
  "insert_course c db =
     (if list_ex (\<lambda>x. kc_id x = kc_id c) (kx_courses db) then Inl (cmi5_violates diesel_kind.UniqueViolation)
      else if \<not> is_none_or (kc_imported_by c) (user_exists (kx_training db))
      then Inl (cmi5_violates diesel_kind.ForeignKeyViolation)
      else Inr (db\<lparr>kx_courses := kx_courses db @ [c]\<rparr>))"

section \<open>Import\<close>

fun show_conformance_error :: "(string \<Rightarrow> string) \<Rightarrow> conformance_error \<Rightarrow> string" where
  "show_conformance_error dbg (CourseIdNotIri i) = ''the course id is missing or is not an IRI: '' @ dbg i"
| "show_conformance_error dbg NoAssignableUnits = ''the course has no assignable units''"
| "show_conformance_error dbg (AuIdNotIri i) = ''assignable unit id is missing or is not an IRI: '' @ dbg i"
| "show_conformance_error dbg (BlockIdNotIri i) = ''block id is missing or is not an IRI: '' @ dbg i"
| "show_conformance_error dbg (DuplicateAuId i) = ''duplicate assignable unit id: '' @ i"
| "show_conformance_error dbg (DuplicateBlockId i) = ''duplicate block id: '' @ i"
| "show_conformance_error dbg (EmptyAuUrl i) = ''assignable unit '' @ i @ '' has an empty launch url''"
| "show_conformance_error dbg (DanglingObjectiveRef owner r) =
     ''objective reference '' @ [CHR 0x27] @ r @ [CHR 0x27] @ '' on '' @ owner @ '' resolves to no declared objective''"

fun join_with :: "string \<Rightarrow> string list \<Rightarrow> string" where
  "join_with sep [] = []"
| "join_with sep [x] = x"
| "join_with sep (x # xs) = x @ sep @ join_with sep xs"

definition read_structure :: "cmi5_env \<Rightarrow> zip_archive \<Rightarrow> (cmi5_error, string \<times> course_structure) result" where
  "read_structure v ar =
     (case za_manifest ar of
        None \<Rightarrow> Inl NoManifest
      | Some (Inl m) \<Rightarrow> Inl (ContentIo m)
      | Some (Inr s) \<Rightarrow>
          (let xml = take MAX_MANIFEST_BYTES s in
           case parse_manifest (kv_read_f64 v) (kv_tokenize v xml) of
             Inl e \<Rightarrow> Inl (BadManifest e)
           | Inr cs \<Rightarrow>
               (let issues = validate_course_structure cs in
                if issues \<noteq> []
                then Inl (NonConformant (join_with ''; '' (map (show_conformance_error (kv_debug_string v)) issues)))
                else Inr (xml, cs))))"

definition max_inflated :: "nat \<Rightarrow> nat" where
  "max_inflated size' = max (sat_u64 (size' * MAX_DECOMPRESSION_RATIO)) MIN_INFLATED_BUDGET"

text \<open>One transaction over the tables; when it fails the extracted files are removed.\<close>

definition persist_course ::
  "cmi5_env \<Rightarrow> cmi5_call \<Rightarrow> string list \<Rightarrow> uuid \<Rightarrow> string \<Rightarrow> course_structure \<Rightarrow> content_store \<Rightarrow> cmi5_db \<Rightarrow>
   cmi5_course cmi5_result" where
  "persist_course v cx dest me xml cs c db =
     (let cid = kl_fresh cx 0;
          course = \<lparr>kc_id = cid, kc_iri = co_id (cs_course cs), kc_title = first_lang (co_title (cs_course cs)),
            kc_description = first_lang (co_description (cs_course cs)), kc_content_path = kv_show_uuid v cid,
            kc_manifest_xml = xml, kc_imported_by = Some me, kc_deleted_at = None\<rparr>
      in case and_next (insert_course course (db\<lparr>kx_content := c\<rparr>)) (\<lambda>db1.
                insert_nodes (kl_fresh cx) cid None 0 (cs_nodes cs) (1, db1)) of
           Inl e \<Rightarrow> (Inl e, db\<lparr>kx_content := remove_dir dest c\<rparr>)
         | Inr st \<Rightarrow> (Inr course, snd st))"

definition import_package :: "cmi5_env \<Rightarrow> cmi5_call \<Rightarrow> course_package \<Rightarrow> uuid \<Rightarrow> cmi5_db \<Rightarrow> cmi5_course cmi5_result" where
  "import_package v cx pk me db =
     (if kv_max_package_bytes v < pk_size pk then (Inl (PackageTooLarge (pk_size pk) (kv_max_package_bytes v)), db)
      else (case pk_archive pk of
         Inl m \<Rightarrow> (Inl (BadZip m), db)
       | Inr ar \<Rightarrow>
           (case read_structure v ar of
              Inl e \<Rightarrow> (Inl e, db)
            | Inr (xml, cs) \<Rightarrow>
                (let dest = path_join (kv_content_dir v) (kv_show_uuid v (kl_fresh cx 0)) in
                 case extract_all dest (max_inflated (pk_size pk)) 0 (za_entries ar) (kx_content db) of
                   (Inl e, c) \<Rightarrow> (Inl e, db\<lparr>kx_content := c\<rparr>)
                 | (Inr _, c) \<Rightarrow> persist_course v cx dest me xml cs c db))))"

text \<open>
  \<^verbatim>\<open>export_package\<close> zips what is below the course's directory, each file under its path from there, with
  forward slashes.
\<close>

definition forward_slashes :: "string \<Rightarrow> string" where
  "forward_slashes s = map (\<lambda>c. if c = CHR 0x5C then CHR ''/'' else c) s"

definition export_package :: "cmi5_env \<Rightarrow> cmi5_db \<Rightarrow> uuid \<Rightarrow> (cmi5_error, (string \<times> string) list) result" where
  "export_package v db cid =
     (case get_course db cid of
        Inl e \<Rightarrow> Inl e
      | Inr c \<Rightarrow>
          (let dir = course_content_dir v (kc_content_path c) in
           Inr (map (\<lambda>(k, bytes). (forward_slashes (join_with ''/'' (drop (length dir) k)), bytes))
             (files_below dir (kx_content db)))))"

end
