(* ===== verification/Cmi5_Api.thy ===== *)
theory Cmi5_Api
  imports Cmi5_Import
begin

text \<open>
  The cmi5 handlers (\<^verbatim>\<open>server/src/api/cmi5.rs\<close>): the answers of the errors, the routes of staff and members,
  the exchange of the fetch token, and the routes the launched content calls with its session credential.
  All of them, and the requests of training beside them, are one transition system \<open>cmi5_step\<close>.
\<close>

section \<open>Errors\<close>

fun show_violation :: "cmi5_env \<Rightarrow> violation \<Rightarrow> string" where
  "show_violation v NotAnAccountActor = ''actor is not an account-based agent''"
| "show_violation v ActorMismatch = ''actor does not match the launched learner''"
| "show_violation v RegistrationMismatch = ''statement registration does not match the session''"
| "show_violation v ActivityMismatch = ''statement is about a different activity than the launched AU''"
| "show_violation v MissingCmi5Category = ''statement is missing the cmi5 context category''"
| "show_violation v (UnknownVerb s) = [CHR 0x27] @ s @ [CHR 0x27] @ '' is not a verb an AU may issue''"
| "show_violation v MissingResult = ''statement is missing the result its verb requires''"
| "show_violation v NotPassedSuccess =
     ''a '' @ [CHR 0x27] @ ''passed'' @ [CHR 0x27] @ '' statement must have result.success = true''"
| "show_violation v NotFailedSuccess =
     ''a '' @ [CHR 0x27] @ ''failed'' @ [CHR 0x27] @ '' statement must have result.success = false''"
| "show_violation v NotCompleted =
     ''a '' @ [CHR 0x27] @ ''completed'' @ [CHR 0x27] @ '' statement must have result.completion = true''"
| "show_violation v (BelowMasteryScore scaled required) =
     ''score.scaled '' @ kv_debug_score v scaled @ '' is below the required masteryScore '' @ kv_show_score v required"
| "show_violation v NotInitialized = ''a statement arrived before '' @ [CHR 0x27] @ ''initialized'' @ [CHR 0x27]"
| "show_violation v AlreadyInitialized = [CHR 0x27] @ ''initialized'' @ [CHR 0x27] @ '' arrived more than once''"
| "show_violation v AfterTerminated = ''a statement arrived after '' @ [CHR 0x27] @ ''terminated'' @ [CHR 0x27]"
| "show_violation v BothPassedAndFailed =
     ''the session recorded both '' @ [CHR 0x27] @ ''passed'' @ [CHR 0x27] @ '' and '' @ [CHR 0x27] @ ''failed'' @ [CHR 0x27]"

definition identity_violation :: "violation \<Rightarrow> bool" where
  "identity_violation e \<longleftrightarrow> e \<in> {NotAnAccountActor, ActorMismatch, RegistrationMismatch, ActivityMismatch}"

fun from_cmi5_error :: "cmi5_env \<Rightarrow> cmi5_error \<Rightarrow> api_error" where
  "from_cmi5_error v Cmi5Disabled = api_error.NotFound ''cmi5 support is not enabled on this instance''"
| "from_cmi5_error v (PackageTooLarge n limit) =
     BadRequest (''package is '' @ show_nat n @ '' bytes, over the '' @ show_nat limit @ ''-byte limit'')"
| "from_cmi5_error v (BadZip m) = BadRequest (''not a readable zip archive: '' @ m)"
| "from_cmi5_error v NoManifest = BadRequest ''package has no cmi5.xml at its root''"
| "from_cmi5_error v (BadManifest m) = BadRequest (''invalid cmi5.xml: '' @ show_manifest_error m)"
| "from_cmi5_error v (NonConformant m) = BadRequest (''package is not cmi5-conformant: '' @ m)"
| "from_cmi5_error v (ZipSlip name) =
     BadRequest (''package entry '' @ [CHR 0x27] @ name @ [CHR 0x27] @ '' escapes the content directory'')"
| "from_cmi5_error v (ContentIo m) = InternalServerError (''filesystem error: '' @ m)"
| "from_cmi5_error v (Cmi5Pool m) = InternalServerError (''database pool error: '' @ m)"
| "from_cmi5_error v (Cmi5Db e shown) = from_diesel_error shown e"
| "from_cmi5_error v CourseNotFound = api_error.NotFound ''no such cmi5 course''"
| "from_cmi5_error v AuNotFound = api_error.NotFound ''no such assignable unit''"
| "from_cmi5_error v NoSuchStep = api_error.NotFound ''no such training step''"
| "from_cmi5_error v StepRequiresAssessment =
     BadRequest ''a cmi5 module cannot satisfy a step that requires an assessment''"
| "from_cmi5_error v MoveOnNotApplicable =
     BadRequest ''an AU with moveOn=NotApplicable can never satisfy, so it cannot gate a tool''"
| "from_cmi5_error v FetchTokenInvalid = Unauthorized ''the fetch token is unknown, already used, or expired''"
| "from_cmi5_error v (BadJson m) = InternalServerError (''serialization error: '' @ m)"
| "from_cmi5_error v (BadStatement m) = BadRequest (''malformed xAPI statement: '' @ m)"
| "from_cmi5_error v (RejectedStatement e) =
     (if identity_violation e then Forbidden (show_violation v e) else BadRequest (show_violation v e))"

type_synonym 'a cmi5_answer = "(api_error, 'a) result \<times> cmi5_db"

definition cmi5_log :: "string \<Rightarrow> uuid option \<Rightarrow> uuid option \<Rightarrow> cmi5_db \<Rightarrow> cmi5_db" where
  "cmi5_log e subject actor db = db\<lparr>kx_training := training_log e subject actor (kx_training db)\<rparr>"

text \<open>\<^verbatim>\<open>ensure_enabled\<close> in front of a handler, and a service call inside one.\<close>

definition when_enabled :: "cmi5_env \<Rightarrow> (cmi5_db \<Rightarrow> 'a cmi5_answer) \<Rightarrow> cmi5_db \<Rightarrow> 'a cmi5_answer" where
  "when_enabled v k db =
     (if kv_enabled v then k db
      else (Inl (api_error.NotFound ''cmi5 support is not enabled on this instance''), db))"

definition after_service ::
  "cmi5_env \<Rightarrow> 'a cmi5_result \<Rightarrow> ('a \<Rightarrow> cmi5_db \<Rightarrow> 'b cmi5_answer) \<Rightarrow> 'b cmi5_answer" where
  "after_service v r k = (case r of (Inl e, db) \<Rightarrow> (Inl (from_cmi5_error v e), db) | (Inr x, db) \<Rightarrow> k x db)"

section \<open>Staff and members\<close>

definition import_course :: "cmi5_env \<Rightarrow> cmi5_call \<Rightarrow> uuid \<Rightarrow> course_package option \<Rightarrow> cmi5_db \<Rightarrow>
    (cmi5_course \<times> cmi5_unit list) cmi5_answer" where
  "import_course v cx me upload =
     when_enabled v (\<lambda>db.
       case upload of
         None \<Rightarrow> (Inl (BadRequest ''no file in upload''), db)
       | Some pk \<Rightarrow>
           after_service v (import_package v cx pk me db)
             (\<lambda>c db. (Inr (c, list_aus db (kc_id c)), cmi5_log ''cmi5_course_published'' None (Some me) db)))"

definition delete_course_route :: "cmi5_env \<Rightarrow> cmi5_call \<Rightarrow> uuid \<Rightarrow> uuid \<Rightarrow> cmi5_db \<Rightarrow> uuid cmi5_answer" where
  "delete_course_route v cx me cid =
     when_enabled v (\<lambda>db. after_service v (delete_course v (kl_now cx) cid db)
       (\<lambda>_ db. (Inr cid, cmi5_log ''cmi5_course_deleted'' None (Some me) db)))"

definition assign_au_step_route :: "cmi5_env \<Rightarrow> uuid \<Rightarrow> uuid \<Rightarrow> uuid option \<Rightarrow> cmi5_db \<Rightarrow> cmi5_unit cmi5_answer" where
  "assign_au_step_route v me aid step =
     when_enabled v (\<lambda>db. after_service v (assign_au_step aid step db)
       (\<lambda>a db. (Inr a, cmi5_log ''cmi5_au_assigned_to_tool'' None (Some me) db)))"

definition launch_au :: "cmi5_env \<Rightarrow> cmi5_call \<Rightarrow> uuid \<Rightarrow> uuid \<Rightarrow> cmi5_db \<Rightarrow> (string \<times> uuid) cmi5_answer" where
  "launch_au v cx me aid =
     when_enabled v (\<lambda>db. after_service v (create_launch v cx aid me db)
       (\<lambda>r db. (Inr r, cmi5_log ''cmi5_launched'' (Some me) (Some me) db)))"

definition list_my_modules :: "cmi5_env \<Rightarrow> instant \<Rightarrow> uuid \<Rightarrow> cmi5_db \<Rightarrow> learner_module list cmi5_answer" where
  "list_my_modules v now me = when_enabled v (\<lambda>db. (Inr (list_learner_modules db me now), db))"

section \<open>The content\<close>

datatype fetch_answer = AuthToken string | FetchError nat string

definition fetch_credential :: "cmi5_env \<Rightarrow> cmi5_call \<Rightarrow> string option \<Rightarrow> cmi5_db \<Rightarrow> fetch_answer \<times> cmi5_db" where
  "fetch_credential v cx token db =
     (if \<not> kv_enabled v then (FetchError 404 ''cmi5 support is not enabled'', db)
      else (case token of
         None \<Rightarrow> (FetchError 400 ''missing fetch token'', db)
       | Some t \<Rightarrow>
           if t = [] then (FetchError 400 ''missing fetch token'', db)
           else (case consume_fetch v cx t db of
                   (Inr session, db1) \<Rightarrow> (AuthToken session, db1)
                 | (Inl _, db1) \<Rightarrow> (FetchError 401 ''the fetch token is unknown, already used, or expired'', db1))))"

text \<open>The broadcast to the devices is outside the model; the audit row is written after it.\<close>

definition apply_grant :: "grant_info \<Rightarrow> cmi5_db \<Rightarrow> cmi5_db" where
  "apply_grant g = cmi5_log ''cmi5_au_satisfied'' (Some (gi_user_id g)) (Some (gi_user_id g))"

definition record_and_apply ::
  "cmi5_env \<Rightarrow> cmi5_call \<Rightarrow> session_context \<Rightarrow> uuid \<Rightarrow> uuid option \<Rightarrow> json \<Rightarrow> cmi5_db \<Rightarrow> unit cmi5_answer" where
  "record_and_apply v cx sx fresh hint raw db =
     after_service v (record_statement v cx sx fresh hint raw db)
       (\<lambda>g db. (Inr (), case g of None \<Rightarrow> db | Some g \<Rightarrow> apply_grant g db))"

definition lrs_put_statement ::
  "cmi5_env \<Rightarrow> cmi5_call \<Rightarrow> session_context \<Rightarrow> uuid option \<Rightarrow> json \<Rightarrow> cmi5_db \<Rightarrow> unit cmi5_answer" where
  "lrs_put_statement v cx sx hint body = when_enabled v (record_and_apply v cx sx (kl_fresh cx 0) hint body)"

text \<open>The body is one statement or an array of them; each is recorded before the next is looked at.\<close>

definition batch_of :: "json \<Rightarrow> json list" where
  "batch_of body = (case body of JArr items \<Rightarrow> items | _ \<Rightarrow> [body])"

definition item_id :: "cmi5_env \<Rightarrow> json \<Rightarrow> uuid option" where
  "item_id v item = (case json_get item ''id'' of Some (JStr s) \<Rightarrow> kv_read_uuid v s | _ \<Rightarrow> None)"

fun post_batch ::
  "cmi5_env \<Rightarrow> cmi5_call \<Rightarrow> session_context \<Rightarrow> nat \<Rightarrow> uuid list \<Rightarrow> json list \<Rightarrow> cmi5_db \<Rightarrow> uuid list cmi5_answer" where
  "post_batch v cx sx n ids [] db = (Inr ids, db)"
| "post_batch v cx sx n ids (item # items) db =
     (case record_and_apply v cx sx (kl_fresh cx n) (item_id v item) item db of
        (Inl e, db1) \<Rightarrow> (Inl e, db1)
      | (Inr _, db1) \<Rightarrow>
          post_batch v cx sx (n + 1) (case item_id v item of None \<Rightarrow> ids | Some i \<Rightarrow> ids @ [i]) items db1)"

definition lrs_post_statement ::
  "cmi5_env \<Rightarrow> cmi5_call \<Rightarrow> session_context \<Rightarrow> json \<Rightarrow> cmi5_db \<Rightarrow> uuid list cmi5_answer" where
  "lrs_post_statement v cx sx body = when_enabled v (post_batch v cx sx 0 [] (batch_of body))"

text \<open>\<open>None\<close> stands for the answer 404 with an empty body.\<close>

definition lrs_get_statement ::
  "cmi5_env \<Rightarrow> session_context \<Rightarrow> uuid \<Rightarrow> cmi5_db \<Rightarrow> json option cmi5_answer" where
  "lrs_get_statement v sx sid = when_enabled v (\<lambda>db. (Inr (get_statement db (sx_registration_id sx) sid), db))"

definition with_state_id :: "string option \<Rightarrow> (string \<Rightarrow> 'a cmi5_answer) \<Rightarrow> cmi5_db \<Rightarrow> 'a cmi5_answer" where
  "with_state_id state_id k db =
     (case state_id of None \<Rightarrow> (Inl (BadRequest ''missing stateId''), db) | Some i \<Rightarrow> k i)"

definition lrs_get_state :: "cmi5_env \<Rightarrow> session_context \<Rightarrow> string option \<Rightarrow> cmi5_db \<Rightarrow> json option cmi5_answer" where
  "lrs_get_state v sx state_id =
     when_enabled v (\<lambda>db. with_state_id state_id (\<lambda>i.
       (Inr (get_state_document (sx_registration_id sx) (sx_activity_id sx) (kv_show_uuid v (sx_user_id sx)) i db), db)) db)"

definition lrs_put_state ::
  "cmi5_env \<Rightarrow> session_context \<Rightarrow> string option \<Rightarrow> json \<Rightarrow> cmi5_db \<Rightarrow> unit cmi5_answer" where
  "lrs_put_state v sx state_id body =
     when_enabled v (\<lambda>db. with_state_id state_id (\<lambda>i.
       after_service v (put_state_document (sx_registration_id sx) (sx_activity_id sx)
           (kv_show_uuid v (sx_user_id sx)) i body db) (\<lambda>_ db. (Inr (), db))) db)"

definition lrs_delete_state :: "cmi5_env \<Rightarrow> session_context \<Rightarrow> string option \<Rightarrow> cmi5_db \<Rightarrow> unit cmi5_answer" where
  "lrs_delete_state v sx state_id =
     when_enabled v (\<lambda>db. with_state_id state_id (\<lambda>i.
       (Inr (), delete_state_document (sx_registration_id sx) (sx_activity_id sx) (kv_show_uuid v (sx_user_id sx)) i db)) db)"

section \<open>Every request\<close>

text \<open>
  \<open>TrainingRequest\<close> is any request to the training routes: deleting a step clears the binding of its units
  (\<^verbatim>\<open>ON DELETE SET NULL\<close>).
\<close>

datatype cmi5_request =
    ImportCourse uuid "course_package option"
  | DeleteCourse uuid uuid
  | AssignUnit uuid uuid "uuid option"
  | LaunchUnit uuid uuid
  | FetchSession "string option"
  | PutStatement "string option" "uuid option" json
  | PostStatement "string option" json
  | PutState "string option" "string option" json
  | DeleteState "string option" "string option"
  | TrainingRequest training_call training_request

definition routed :: "uuid \<Rightarrow> string \<Rightarrow> (cmi5_db \<Rightarrow> 'a cmi5_answer) \<Rightarrow> cmi5_db \<Rightarrow> cmi5_db" where
  "routed me permission k db =
     (if user_has_permission (td_members (kx_training db)) me permission then snd (k db) else db)"

definition as_content ::
  "cmi5_env \<Rightarrow> cmi5_call \<Rightarrow> string option \<Rightarrow> (session_context \<Rightarrow> cmi5_db \<Rightarrow> 'a cmi5_answer) \<Rightarrow> cmi5_db \<Rightarrow> cmi5_db" where
  "as_content v cx header k db =
     (case cmi5_session_auth v (kl_now cx) header db of Inl _ \<Rightarrow> db | Inr sx \<Rightarrow> snd (k sx db))"

definition training_event :: "training_call \<Rightarrow> training_request \<Rightarrow> cmi5_db \<Rightarrow> cmi5_db" where
  "training_event tc rq db =
     (let tdb = training_step_by (tc, rq) (kx_training db)
      in db\<lparr>kx_training := tdb,
            kx_units := map (\<lambda>a. if is_some_and (ka_step_id a) (\<lambda>sid. get_training_step_by_id tdb sid = None)
                                 then a\<lparr>ka_step_id := None\<rparr> else a) (kx_units db)\<rparr>)"

fun cmi5_step :: "cmi5_env \<Rightarrow> cmi5_call \<times> cmi5_request \<Rightarrow> cmi5_db \<Rightarrow> cmi5_db" where
  "cmi5_step v (cx, ImportCourse me upload) = routed me ''staff.access'' (import_course v cx me upload)"
| "cmi5_step v (cx, DeleteCourse me cid) = routed me ''staff.access'' (delete_course_route v cx me cid)"
| "cmi5_step v (cx, AssignUnit me aid step) = routed me ''admin.access'' (assign_au_step_route v me aid step)"
| "cmi5_step v (cx, LaunchUnit me aid) = routed me ''member.access'' (launch_au v cx me aid)"
| "cmi5_step v (cx, FetchSession token) = (\<lambda>db. snd (fetch_credential v cx token db))"
| "cmi5_step v (cx, PutStatement h hint body) = as_content v cx h (\<lambda>sx. lrs_put_statement v cx sx hint body)"
| "cmi5_step v (cx, PostStatement h body) = as_content v cx h (\<lambda>sx. lrs_post_statement v cx sx body)"
| "cmi5_step v (cx, PutState h sid body) = as_content v cx h (\<lambda>sx. lrs_put_state v sx sid body)"
| "cmi5_step v (cx, DeleteState h sid) = as_content v cx h (\<lambda>sx. lrs_delete_state v sx sid)"
| "cmi5_step v (cx, TrainingRequest tc rq) = training_event tc rq"

end
