(* ===== verification/Cmi5_Safety.thy ===== *)
theory Cmi5_Safety
  imports Cmi5_Api Training_Safety
begin

text \<open>
  What the operations of the cmi5 service do to its tables. An import writes no more than its budget and into
  its own directory only. Units, registrations and statements are only added, so that a session and what is
  expected of its statements stay what they were (\<open>evolves\<close>). A completion is written by
  \<open>grant_if_satisfied\<close> alone, when the replayed session satisfies the unit.
\<close>

section \<open>Extraction\<close>

definition stored_bytes :: "string list \<Rightarrow> content_store \<Rightarrow> nat" where
  "stored_bytes dir c = (\<Sum>(k, bytes) \<leftarrow> c. if prefix dir k then length bytes else 0)"

lemma stored_bytes_append [simp]: "stored_bytes dir (c @ c') = stored_bytes dir c + stored_bytes dir c'"
  by (simp add: stored_bytes_def)

lemma stored_bytes_filter: "stored_bytes dir (filter P c) \<le> stored_bytes dir c"
  by (induction c) (auto simp: stored_bytes_def)

lemma stored_bytes_write: "stored_bytes dir (write_file path bytes c) \<le> stored_bytes dir c + length bytes"
proof -
  have "stored_bytes dir [(path, bytes)] \<le> length bytes" by (simp add: stored_bytes_def)
  then show ?thesis using stored_bytes_filter [of dir _ c] by (simp add: write_file_def add_mono)
qed

text \<open>
  What the zip crate promises of \<^verbatim>\<open>enclosed_name\<close>: the path is not absolute, and no prefix of it goes up more
  often than down. \<open>d\<close> is how far below the start a path is.
\<close>

fun stays_inside :: "nat \<Rightarrow> string list \<Rightarrow> bool" where
  "stays_inside d [] \<longleftrightarrow> True"
| "stays_inside d (p # ps) \<longleftrightarrow>
     (if p = [] \<or> p = ''.'' then stays_inside d ps
      else if p = ''..'' then 0 < d \<and> stays_inside (d - 1) ps
      else stays_inside (d + 1) ps)"

definition enclosed_path :: "string \<Rightarrow> bool" where
  "enclosed_path p \<longleftrightarrow> \<not> is_absolute p \<and> stays_inside 0 (split_on CHR ''/'' p)"

definition names_enclosed :: "course_package \<Rightarrow> bool" where
  "names_enclosed pk \<longleftrightarrow>
     (\<forall>ar e p. pk_archive pk = Inr ar \<and> Inr e \<in> set (za_entries ar) \<and> ze_enclosed e = Some p \<longrightarrow> enclosed_path p)"

lemma resolve_inside: "stays_inside (length ext) ps \<Longrightarrow> prefix base (resolve_path (base @ ext) ps)"
proof (induction ps arbitrary: ext)
  case (Cons p ps)
  consider "p = [] \<or> p = ''.''" | "p = ''..''" | "p \<noteq> []" "p \<noteq> ''.''" "p \<noteq> ''..''" by blast
  then show ?case
  proof cases
    case 1
    then show ?thesis using Cons by auto
  next
    case 2
    then show ?thesis using Cons.prems Cons.IH [of "butlast ext"] by (simp add: butlast_append)
  next
    case 3
    then show ?thesis using Cons.prems Cons.IH [of "ext @ [p]"] by simp
  qed
qed simp

lemma joined_inside: "enclosed_path p \<Longrightarrow> prefix dest (path_join dest p)"
  using resolve_inside [of "[]" "split_on CHR ''/'' p" dest] by (simp add: enclosed_path_def path_join_def)

lemma write_elsewhere: "k \<noteq> path \<Longrightarrow> map_of (write_file path bytes c) k = map_of c k"
  by (induction c) (auto simp: write_file_def)

lemma removed_elsewhere: "\<not> prefix dir k \<Longrightarrow> map_of (remove_dir dir c) k = map_of c k"
  by (induction c) (auto simp: remove_dir_def)

lemma extract_budget:
  assumes "extract_all dest limit sofar es c = (r, c')" "stored_bytes dest c \<le> sofar" "sofar \<le> limit" "limit < 2 ^ 64 - 1"
  shows "stored_bytes dest c' \<le> limit + 1 \<and> (r = Inr () \<longrightarrow> stored_bytes dest c' \<le> limit)"
  using assms
proof (induction dest limit sofar es c rule: extract_all.induct)
  case (3 dest limit sofar e es c)
  show ?case
  proof (cases "ze_is_dir e \<or> ze_enclosed e = None")
    case True
    then show ?thesis using "3.IH"(1) "3.prems" by (auto split: if_splits option.splits)
  next
    case False
    then obtain rel where f: "\<not> ze_is_dir e" "ze_enclosed e = Some rel" by auto
    let ?w = "take (limit - sofar + 1) (ze_bytes e)"
    let ?c = "write_file (path_join dest rel) ?w c"
    let ?fault = "if length (ze_bytes e) < limit - sofar + 1 then ze_fault e else None"
    have small: "sat_u64 (limit - sofar + 1) = limit - sofar + 1" "sat_u64 (sofar + length ?w) = sofar + length ?w"
      using "3.prems"(3,4) by (auto simp: sat_u64_def min_def)
    have s: "stored_bytes dest ?c \<le> sofar + length ?w"
      using stored_bytes_write [of dest "path_join dest rel" ?w c] "3.prems"(2) by linarith
    have w: "sofar + length ?w \<le> limit + 1" using "3.prems"(3) by simp
    have run: "(r, c') = (case ?fault of Some m \<Rightarrow> (Inl (ContentIo m), ?c)
        | None \<Rightarrow> if limit < sofar + length ?w then (Inl (PackageTooLarge (sofar + length ?w) limit), ?c)
            else extract_all dest limit (sofar + length ?w) es ?c)"
      unfolding "3.prems"(1) [symmetric] extract_all.simps Let_def small using f by (simp split: option.split)
    show ?thesis
    proof (cases "?fault = None \<and> \<not> limit < sofar + length ?w")
      case True
      then have fault: "?fault = None" and room: "\<not> limit < sofar + length ?w" by blast+
      have "extract_all dest limit (sofar + length ?w) es ?c = (r, c')"
        using run unfolding fault by (simp only: option.case room if_False)
      then show ?thesis
        using "3.IH"(2) [OF f refl refl refl, unfolded small, OF fault refl room] s room "3.prems"(4) by simp
    next
      case False
      then have "(\<exists>e. r = Inl e) \<and> c' = ?c" using run by (auto split: option.splits if_splits)
      then show ?thesis using s w by auto
    qed
  qed
qed auto

lemma extract_elsewhere:
  assumes "extract_all dest limit sofar es c = (r, c')" "\<not> prefix dest k"
    and "\<And>e p. Inr e \<in> set es \<Longrightarrow> ze_enclosed e = Some p \<Longrightarrow> enclosed_path p"
  shows "map_of c' k = map_of c k"
  using assms
proof (induction dest limit sofar es c rule: extract_all.induct)
  case (3 dest limit sofar e es c)
  have names: "enclosed_path p" if "Inr x \<in> set es" "ze_enclosed x = Some p" for x p
    using "3.prems"(3) [of x p] that by simp
  show ?case
  proof (cases "ze_is_dir e \<or> ze_enclosed e = None")
    case True
    then show ?thesis using "3.IH"(1) "3.prems"(1,2) names by (auto split: if_splits option.splits)
  next
    case False
    then obtain rel where f: "\<not> ze_is_dir e" "ze_enclosed e = Some rel" by auto
    have "k \<noteq> path_join dest rel" using joined_inside [of rel dest] "3.prems"(2,3) f by auto
    then have w: "map_of (write_file (path_join dest rel) bytes c) k = map_of c k" for bytes
      by (rule write_elsewhere)
    show ?thesis
      using "3.IH"(2) [OF f refl refl refl _ refl] "3.prems"(1,2) names f w
      by (auto simp: Let_def split: if_splits option.splits)
  qed
qed auto

lemma insert_row_content:
  "insert_unit a x = Inr y \<Longrightarrow> kx_content y = kx_content x"
  "insert_block b x = Inr y \<Longrightarrow> kx_content y = kx_content x"
  "insert_course k x = Inr y \<Longrightarrow> kx_content y = kx_content x"
  by (auto simp: insert_unit_def insert_block_def insert_course_def split: if_splits)

lemma insert_nodes_content: "insert_nodes ids cid block pos ns st = Inr st' \<Longrightarrow> kx_content (snd st') = kx_content (snd st)"
proof (induction ids cid block pos ns st arbitrary: st' rule: insert_nodes.induct)
  case (2 ids cid block pos a ns st)
  then obtain db where u: "insert_unit (new_unit (ids (fst st)) cid block pos a) (snd st) = Inr db"
    and r: "insert_nodes ids cid block (pos + 1) ns (fst st + 1, db) = Inr st'" by (auto simp: and_next_Inr)
  from "2.IH" [OF u r] insert_row_content(1) [OF u] show ?case by simp
next
  case (3 ids cid block pos i t d os cs ns st)
  then obtain db st1 where u: "insert_block \<lparr>kb_id = ids (fst st), kb_course_id = cid, kb_parent_block_id = block, kb_iri = Some i,
         kb_title = first_lang t, kb_position = int pos\<rparr> (snd st) = Inr db"
    and c: "insert_nodes ids cid (Some (ids (fst st))) 0 cs (fst st + 1, db) = Inr st1"
    and r: "insert_nodes ids cid block (pos + 1) ns st1 = Inr st'" by (auto simp: and_next_Inr)
  from "3.IH"(2) [OF u c r] "3.IH"(1) [OF u c] insert_row_content(2) [OF u] show ?case by simp
qed simp

lemma persist_content:
  assumes "persist_course v cx dest me xml cs c db = (r, db')"
  shows "kx_content db' = c \<or> (kx_content db' = remove_dir dest c \<and> (\<forall>k. r \<noteq> Inr k))"
  using assms
  by (auto simp: persist_course_def Let_def and_next_Inr split: sum.splits dest!: insert_nodes_content insert_row_content)

lemma import_outcomes:
  assumes "import_package v cx pk me db = (r, db')" "dest = path_join (kv_content_dir v) (kv_show_uuid v (kl_fresh cx 0))"
  obtains (refused) "kx_content db' = kx_content db" "\<And>k. r \<noteq> Inr k"
    | (extracted) r1 c ar where "pk_archive pk = Inr ar"
        "extract_all dest (max_inflated (pk_size pk)) 0 (za_entries ar) (kx_content db) = (r1, c)"
        "kx_content db' = c" "\<And>k. r = Inr k \<Longrightarrow> r1 = Inr ()"
    | (rolled_back) r1 c ar where "pk_archive pk = Inr ar"
        "extract_all dest (max_inflated (pk_size pk)) 0 (za_entries ar) (kx_content db) = (r1, c)"
        "kx_content db' = remove_dir dest c" "\<And>k. r \<noteq> Inr k"
proof (cases "kv_max_package_bytes v < pk_size pk \<or> (\<exists>m. pk_archive pk = Inl m) \<or>
    (\<exists>ar e. pk_archive pk = Inr ar \<and> read_structure v ar = Inl e)")
  case True
  then show thesis using assms by (intro refused) (auto simp: import_package_def split: if_splits)
next
  case False
  then obtain ar xml cs where s: "\<not> kv_max_package_bytes v < pk_size pk" "pk_archive pk = Inr ar" "read_structure v ar = Inr (xml, cs)"
    by (metis obj_sumE surj_pair)
  obtain r1 c where e: "extract_all dest (max_inflated (pk_size pk)) 0 (za_entries ar) (kx_content db) = (r1, c)"
    by fastforce
  show thesis
  proof (cases r1)
    case (Inl m)
    then show thesis using assms s e by (intro extracted [OF s(2) e]) (auto simp: import_package_def)
  next
    case (Inr u)
    then have "persist_course v cx dest me xml cs c db = (r, db')"
      using assms s e by (simp add: import_package_def)
    from persist_content [OF this] show thesis
      using extracted [OF s(2) e] rolled_back [OF s(2) e] Inr by auto
  qed
qed

text \<open>A course about a laser, its one unit bound to the step of \<open>reader_shop\<close>, and a launch of it by member 1.\<close>

definition lesson_says :: "string \<Rightarrow> rat option \<Rightarrow> xstatement" where
  "lesson_says verb score =
     \<lparr>xs_id = None,
      xs_actor = \<lparr>ag_object_type = None, ag_name = None, ag_mbox = None,
        ag_account = Some \<lparr>ac_home_page = ''x:home'', ac_name = ''ada''\<rparr>\<rparr>,
      xs_verb = verb, xs_object = Activity \<lparr>xa_object_type = None, xa_id = ''x:a'', xa_definition = None\<rparr>,
      xs_result = map_option (\<lambda>r. \<lparr>xr_score = Some \<lparr>sc_scaled = Some r, sc_raw = None, sc_min = None, sc_max = None\<rparr>,
        xr_success = Some True, xr_completion = None, xr_duration = None\<rparr>) score,
      xs_context = Some \<lparr>xc_registration = Some 40, xc_context_activities =
          Some \<lparr>ca_category = Some [\<lparr>xa_object_type = None, xa_id = CMI5, xa_definition = None\<rparr>,
                                  \<lparr>xa_object_type = None, xa_id = MOVEON, xa_definition = None\<rparr>],
                ca_parent = None, ca_grouping = None, ca_other = None\<rparr>, xc_extensions = None\<rparr>,
      xs_timestamp = None\<rparr>"

definition lesson_env :: cmi5_env where
  "lesson_env =
     \<lparr>kv_enabled = True, kv_content_dir = [''srv'', ''cmi5''], kv_site_url = ''x:home'', kv_content_origin = None, kv_fetch_ttl = 60, kv_session_ttl = 600,
      kv_parse = (\<lambda>j. if j = JStr ''started'' then Inr (lesson_says INITIALIZED None)
                       else if j = JStr ''passed'' then Inr (lesson_says PASSED (Some (9/10))) else Inl ''no statement''),
      kv_statement_json = (\<lambda>_. JNull), kv_launch_json = (\<lambda>_. JNull), kv_show_agent = (\<lambda>_. []),
      kv_show_uuid = (\<lambda>n. if n = 1 then ''ada'' else ''course''), kv_read_uuid = (\<lambda>_. None), kv_sha256 = (\<lambda>s. s),
      kv_debug_score = (\<lambda>_. []), kv_show_score = (\<lambda>_. []), kv_debug_string = (\<lambda>s. s), kv_tokenize = (\<lambda>_. []),
      kv_read_f64 = (\<lambda>_. None), kv_max_package_bytes = 1000\<rparr>"

definition lesson_call :: "instant \<Rightarrow> string \<Rightarrow> cmi5_call" where
  "lesson_call t token = \<lparr>kl_now = t, kl_fresh = (\<lambda>n. 100 + nat t + n), kl_token = token\<rparr>"

definition lesson_db :: cmi5_db where
  "lesson_db =
     \<lparr>kx_training = reader_shop, kx_courses = [], kx_blocks = [],
      kx_units = [\<lparr>ka_id = 20, ka_course_id = 30, ka_block_id = None, ka_iri = ''x:a'', ka_title = None,
        ka_launch_url = ''a.html'', ka_launch_parameters = None, ka_launch_method = None, ka_move_on = ''Passed'',
        ka_mastery_score = Some (4/5), ka_position = 0, ka_step_id = Some 7\<rparr>],
      kx_registrations = [\<lparr>kr_id = 40, kr_user_id = 1, kr_au_id = 20, kr_actor_account_name = ''ada'',
        kr_launch_mode = ''Normal'', kr_satisfied_at = None, kr_completed_at = None, kr_passed_at = None\<rparr>],
      kx_tokens = [\<lparr>kt_registration_id = 40, kt_fetch_hash = ''fetch'', kt_session_hash = None, kt_consumed_at = None,
        kt_expires_at = 60, kt_session_expires_at = 600\<rparr>],
      kx_statements = [], kx_documents = [], kx_content = []\<rparr>"

lemmas lesson_defs = lesson_says_def lesson_env_def lesson_call_def lesson_db_def

text \<open>
  C34. However a package inflates, an import leaves at most one byte more than its budget below the directory of
  the new course (a hundred times the size of the upload, or ten mebibytes if that is more), at most its
  budget when it succeeds, and no file anywhere else changes, appears or disappears: whatever path an entry
  names, it is written below that directory or not at all. It rests on what the zip crate documents of the
  names it lets through, and on the new directory being empty.
\<close>

theorem imports_stay_within_budget:
  assumes "import_package v cx pk me db = (r, db')" "names_enclosed pk"
    and "dest = path_join (kv_content_dir v) (kv_show_uuid v (kl_fresh cx 0))"
    and "stored_bytes dest (kx_content db) = 0" "pk_size pk * 100 < 2 ^ 64 - 1"
  shows "stored_bytes dest (kx_content db') \<le> max (pk_size pk * 100) (10 * 1024 * 1024) + 1 \<and>
    (\<forall>c. r = Inr c \<longrightarrow> stored_bytes dest (kx_content db') \<le> max (pk_size pk * 100) (10 * 1024 * 1024)) \<and>
    (\<forall>k. \<not> prefix dest k \<longrightarrow> map_of (kx_content db') k = map_of (kx_content db) k)"
proof -
  let ?limit = "max (pk_size pk * 100) (10 * 1024 * 1024)"
  have limit: "max_inflated (pk_size pk) = ?limit" "?limit < 2 ^ 64 - 1"
    using assms(5) by (simp_all add: max_inflated_def MAX_DECOMPRESSION_RATIO_def MIN_INFLATED_BUDGET_def sat_u64_def)
  have names: "enclosed_path p" if "pk_archive pk = Inr ar" "Inr e \<in> set (za_entries ar)" "ze_enclosed e = Some p" for ar e p
    using assms(2) that unfolding names_enclosed_def by blast
  from assms(1,3) show ?thesis
  proof (cases rule: import_outcomes)
    case refused
    then show ?thesis using assms(4) by simp
  next
    case (extracted r1 c ar)
    have "map_of c k = map_of (kx_content db) k" if "\<not> prefix dest k" for k
      using extract_elsewhere [OF extracted(2) that] names [OF extracted(1)] by blast
    then show ?thesis
      using extract_budget [OF extracted(2)] extracted(3,4) assms(4) limit by auto
  next
    case (rolled_back r1 c ar)
    have "map_of c k = map_of (kx_content db) k" if "\<not> prefix dest k" for k
      using extract_elsewhere [OF rolled_back(2) that] names [OF rolled_back(1)] by blast
    then show ?thesis
      using extract_budget [OF rolled_back(2)] rolled_back(3,4) assms(4) limit
        stored_bytes_filter [of dest "\<lambda>(k, _). \<not> prefix dest k" c]
      by (simp add: remove_dir_def [symmetric] removed_elsewhere)
  qed
qed

text \<open>A package that is taken in: a manifest of one unit, a page, and a directory; the store holds another course.\<close>

definition import_structure :: course_structure where
  "import_structure = \<lparr>cs_course = \<lparr>co_id = ''x:c'', co_title = [], co_description = []\<rparr>, cs_objectives = [],
     cs_nodes = [NodeAu \<lparr>un_id = ''x:u'', un_move_on = MvCompleted, un_mastery_score = None, un_launch_method = None,
       un_title = [], un_description = [], un_objective_ids = [], un_url = ''a.html'', un_launch_parameters = None,
       un_entitlement_key = None\<rparr>]\<rparr>"

definition import_env :: cmi5_env where
  "import_env = lesson_env\<lparr>kv_tokenize := (\<lambda>_. to_manifest_xml (\<lambda>_. []) import_structure)\<rparr>"

definition import_package_of :: "string \<Rightarrow> string option \<Rightarrow> course_package" where
  "import_package_of name enclosed = \<lparr>pk_size = 300, pk_archive = Inr \<lparr>za_manifest = Some (Inr ''<courseStructure>''),
     za_entries = [Inr \<lparr>ze_name = ''pages/'', ze_is_dir = True, ze_enclosed = Some ''pages/'', ze_bytes = [], ze_fault = None\<rparr>,
       Inr \<lparr>ze_name = name, ze_is_dir = False, ze_enclosed = enclosed, ze_bytes = ''hello'', ze_fault = None\<rparr>]\<rparr>\<rparr>"

definition import_db :: cmi5_db where
  "import_db = lesson_db\<lparr>kx_content := [([''srv'', ''cmi5'', ''other'', ''b.html''], ''kept'')]\<rparr>"

lemma import_read:
  "read_structure import_env \<lparr>za_manifest = Some (Inr ''<courseStructure>''), za_entries = es\<rparr> =
     Inr (''<courseStructure>'', import_structure)"
proof -
  have "parse_manifest (kv_read_f64 import_env) (to_manifest_xml (\<lambda>_. []) import_structure) = Inr import_structure"
    by code_simp
  moreover have "validate_course_structure import_structure = []" by code_simp
  ultimately show ?thesis by (simp add: read_structure_def import_env_def MAX_MANIFEST_BYTES_def)
qed

lemma import_extracted:
  "extract_all [''srv'', ''cmi5'', ''course''] (10 * 1024 * 1024) 0
      [Inr \<lparr>ze_name = ''pages/'', ze_is_dir = True, ze_enclosed = Some ''pages/'', ze_bytes = [], ze_fault = None\<rparr>,
       Inr \<lparr>ze_name = name, ze_is_dir = False, ze_enclosed = Some ''pages/../a.html'', ze_bytes = ''hello'', ze_fault = None\<rparr>]
      (kx_content import_db) =
    (Inr (), [([''srv'', ''cmi5'', ''other'', ''b.html''], ''kept''), ([''srv'', ''cmi5'', ''course'', ''a.html''], ''hello'')])"
  by (simp add: Let_def sat_u64_def import_db_def path_join_def is_absolute_def write_file_def)

lemma import_persisted:
  "\<exists>c. persist_course import_env (lesson_call 0 []) dest 1 xml import_structure files import_db =
     (Inr c, snd (persist_course import_env (lesson_call 0 []) dest 1 xml import_structure files import_db))"
  "kx_content (snd (persist_course import_env (lesson_call 0 []) dest 1 xml import_structure files import_db)) = files"
  by (simp_all add: persist_course_def Let_def lesson_defs import_env_def import_db_def import_structure_def insert_course_def
      insert_unit_def new_unit_def user_exists_def find_user_by_id_def reader_shop_def and_next_def)

theorem imports_stay_within_budget_witness:
  "\<exists>c db'. import_package import_env (lesson_call 0 []) (import_package_of ''pages/../a.html'' (Some ''pages/../a.html'')) 1
       import_db = (Inr c, db') \<and>
     map_of (kx_content db') [''srv'', ''cmi5'', ''course'', ''a.html''] = Some ''hello'' \<and>
     stored_bytes [''srv'', ''cmi5'', ''course''] (kx_content db') \<le> 10 * 1024 * 1024 \<and>
     map_of (kx_content db') [''srv'', ''cmi5'', ''other'', ''b.html''] = Some ''kept''"
proof -
  let ?pk = "import_package_of ''pages/../a.html'' (Some ''pages/../a.html'')"
  let ?dest = "[''srv'', ''cmi5'', ''course'']"
  have dest: "?dest = path_join (kv_content_dir import_env) (kv_show_uuid import_env (kl_fresh (lesson_call 0 []) 0))"
    by (simp add: import_env_def lesson_defs path_join_def is_absolute_def)
  have enclosed: "names_enclosed ?pk"
    by (auto simp: names_enclosed_def import_package_of_def enclosed_path_def is_absolute_def)
  have bytes: "stored_bytes ?dest (kx_content import_db) = 0" "pk_size ?pk * 100 < 2 ^ 64 - 1"
    "max (pk_size ?pk * 100) (10 * 1024 * 1024) = 10 * 1024 * 1024"
    by (simp_all add: stored_bytes_def import_db_def import_package_of_def)
  have budget: "max_inflated 300 = 10 * 1024 * 1024"
    by (simp add: max_inflated_def MAX_DECOMPRESSION_RATIO_def MIN_INFLATED_BUDGET_def sat_u64_def)
  have small: "\<not> kv_max_package_bytes import_env < 300" by (simp add: import_env_def lesson_defs)
  obtain c db' where run: "import_package import_env (lesson_call 0 []) ?pk 1 import_db = (Inr c, db')"
    and files: "kx_content db' = [([''srv'', ''cmi5'', ''other'', ''b.html''], ''kept''),
      ([''srv'', ''cmi5'', ''course'', ''a.html''], ''hello'')]"
    using import_persisted [of ?dest "''<courseStructure>''"] import_extracted
    by (simp add: import_package_def import_package_of_def import_read budget small dest [symmetric] del: extract_all.simps) blast
  show ?thesis
    using run imports_stay_within_budget [OF run enclosed dest bytes(1,2)] unfolding bytes(3) by (simp add: files import_db_def)
qed

section \<open>What a history keeps\<close>

text \<open>
  Rows of units and registrations are added, and changed only in the step a unit is bound to and in the
  outcome of a registration; statements are only added. So the session an attempt was opened with, and what
  is expected of its statements, stay what they were.
\<close>

definition attempt :: "cmi5_env \<Rightarrow> cmi5_db \<Rightarrow> uuid \<Rightarrow> (session_context \<times> session_expectation \<times> string) option" where
  "attempt v db rid =
     Option.bind (session_of_registration db rid) (\<lambda>sx.
       map_option (\<lambda>a. (sx, expectation v sx a, ka_move_on a)) (unit_by_id db (sx_au_id sx)))"

definition unit_key :: "cmi5_unit \<Rightarrow> uuid \<times> string \<times> string \<times> rat option" where
  "unit_key a = (ka_id a, ka_iri a, ka_move_on a, ka_mastery_score a)"

definition registration_key :: "cmi5_registration \<Rightarrow> uuid \<times> uuid \<times> uuid \<times> string" where
  "registration_key r = (kr_id r, kr_user_id r, kr_au_id r, kr_launch_mode r)"

definition evolves :: "cmi5_db \<Rightarrow> cmi5_db \<Rightarrow> bool" where
  "evolves db db' \<longleftrightarrow>
     prefix (map unit_key (kx_units db)) (map unit_key (kx_units db')) \<and>
     prefix (map registration_key (kx_registrations db)) (map registration_key (kx_registrations db')) \<and>
     prefix (kx_statements db) (kx_statements db')"

lemma find_evolved:
  assumes "find (\<lambda>y. fst (k y) = i) xs = Some x" "prefix (map k xs) (map k ys)"
  shows "\<exists>y. find (\<lambda>y. fst (k y) = i) ys = Some y \<and> k y = k x"
  using assms
proof (induction xs arbitrary: ys)
  case (Cons a xs)
  then obtain b ys' where "ys = b # ys'" "k b = k a" "prefix (map k xs) (map k ys')" by (cases ys) auto
  with Cons show ?case by (auto split: if_splits)
qed simp

lemma unit_evolved:
  assumes "evolves db db'" "unit_by_id db i = Some a"
  obtains b where "unit_by_id db' i = Some b" "unit_key b = unit_key a"
  using find_evolved [of unit_key i "kx_units db" a "kx_units db'"] assms
  by (auto simp: evolves_def unit_by_id_def unit_key_def)

lemma registration_evolved:
  assumes "evolves db db'" "registration_by_id db i = Some r"
  obtains q where "registration_by_id db' i = Some q" "registration_key q = registration_key r"
  using find_evolved [of registration_key i "kx_registrations db" r "kx_registrations db'"] assms
  by (auto simp: evolves_def registration_by_id_def registration_key_def)

lemma session_evolved:
  assumes "evolves db db'" "session_of_registration db rid = Some sx"
  shows "session_of_registration db' rid = Some sx"
proof -
  obtain r a where r: "registration_by_id db rid = Some r" and a: "unit_by_id db (kr_au_id r) = Some a"
    and sx: "sx = \<lparr>sx_registration_id = kr_id r, sx_user_id = kr_user_id r, sx_au_id = kr_au_id r,
                   sx_activity_id = ka_iri a, sx_launch_mode = kr_launch_mode r\<rparr>"
    using assms(2) by (auto simp: session_of_registration_def bind_eq_Some_conv)
  obtain q where q: "registration_by_id db' rid = Some q" "registration_key q = registration_key r"
    using registration_evolved [OF assms(1) r] .
  obtain b where b: "unit_by_id db' (kr_au_id r) = Some b" "unit_key b = unit_key a"
    using unit_evolved [OF assms(1) a] .
  show ?thesis
    using q b by (simp add: session_of_registration_def sx registration_key_def unit_key_def)
qed

lemma attempt_evolved:
  assumes "evolves db db'" "attempt v db rid = Some x"
  shows "attempt v db' rid = Some x"
proof -
  obtain sx a where s: "session_of_registration db rid = Some sx" and a: "unit_by_id db (sx_au_id sx) = Some a"
    and x: "x = (sx, expectation v sx a, ka_move_on a)" using assms(2) by (auto simp: attempt_def bind_eq_Some_conv)
  obtain b where b: "unit_by_id db' (sx_au_id sx) = Some b" "unit_key b = unit_key a"
    using unit_evolved [OF assms(1) a] .
  then show ?thesis by (simp add: attempt_def session_evolved [OF assms(1) s] x expectation_def unit_key_def)
qed

lemma evolves_refl [simp, intro]: "evolves db db"
  by (simp add: evolves_def)

lemma evolves_trans: "evolves a b \<Longrightarrow> evolves b c \<Longrightarrow> evolves a c"
  unfolding evolves_def by (blast intro: prefix_order.trans)

lemma evolves_same:
  "kx_units db' = kx_units db \<Longrightarrow> kx_registrations db' = kx_registrations db \<Longrightarrow> kx_statements db' = kx_statements db \<Longrightarrow>
     evolves db db'"
  by (simp add: evolves_def)

lemma map_keyed: "(\<And>x. k (f x) = k x) \<Longrightarrow> map k (map f xs) = map k xs"
  by simp

section \<open>The operations\<close>

lemma log_parts [simp]:
  "kx_units (cmi5_log e s a db) = kx_units db" "kx_registrations (cmi5_log e s a db) = kx_registrations db"
  "kx_statements (cmi5_log e s a db) = kx_statements db" "kx_tokens (cmi5_log e s a db) = kx_tokens db"
  "completed_for u t (kx_training (cmi5_log e s a db)) = completed_for u t (kx_training db)"
  by (simp_all add: cmi5_log_def)

definition same_sessions :: "cmi5_db \<Rightarrow> cmi5_db \<Rightarrow> bool" where
  "same_sessions db db' \<longleftrightarrow>
     kx_registrations db' = kx_registrations db \<and> kx_statements db' = kx_statements db \<and> kx_tokens db' = kx_tokens db \<and>
     (\<forall>u t. completed_for u t (kx_training db') = completed_for u t (kx_training db)) \<and>
     prefix (map unit_key (kx_units db)) (map unit_key (kx_units db'))"

lemma same_sessions_refl [simp, intro]: "same_sessions db db"
  by (simp add: same_sessions_def)

lemma same_sessions_trans: "same_sessions a b \<Longrightarrow> same_sessions b c \<Longrightarrow> same_sessions a c"
  unfolding same_sessions_def by (elim conjE, intro conjI; (simp only:)?; (blast intro: prefix_order.trans)?)

lemma same_sessions_evolves: "same_sessions db db' \<Longrightarrow> evolves db db'"
  by (simp add: same_sessions_def evolves_def)

lemma same_sessions_log [simp]: "same_sessions db (cmi5_log e s a db') = same_sessions db db'"
  by (simp add: same_sessions_def)

lemma inserted_rows:
  "insert_unit a x = Inr y \<Longrightarrow> same_sessions x y"
  "insert_block b x = Inr y \<Longrightarrow> same_sessions x y"
  "insert_course k x = Inr y \<Longrightarrow> same_sessions x y"
  by (auto simp: insert_unit_def insert_block_def insert_course_def same_sessions_def split: if_splits)

lemma inserted_nodes: "insert_nodes ids cid block pos ns st = Inr st' \<Longrightarrow> same_sessions (snd st) (snd st')"
proof (induction ids cid block pos ns st arbitrary: st' rule: insert_nodes.induct)
  case (2 ids cid block pos a ns st)
  then obtain db where u: "insert_unit (new_unit (ids (fst st)) cid block pos a) (snd st) = Inr db"
    and r: "insert_nodes ids cid block (pos + 1) ns (fst st + 1, db) = Inr st'" by (auto simp: and_next_Inr)
  from inserted_rows(1) [OF u] "2.IH" [OF u r] same_sessions_trans show ?case by auto
next
  case (3 ids cid block pos i t d os cs ns st)
  then obtain db st1 where u: "insert_block \<lparr>kb_id = ids (fst st), kb_course_id = cid, kb_parent_block_id = block, kb_iri = Some i,
         kb_title = first_lang t, kb_position = int pos\<rparr> (snd st) = Inr db"
    and c: "insert_nodes ids cid (Some (ids (fst st))) 0 cs (fst st + 1, db) = Inr st1"
    and r: "insert_nodes ids cid block (pos + 1) ns st1 = Inr st'" by (auto simp: and_next_Inr)
  from inserted_rows(2) [OF u] "3.IH"(1) [OF u c] "3.IH"(2) [OF u c r] same_sessions_trans show ?case by (metis snd_conv)
qed simp

lemma content_sessions [simp]: "same_sessions db (db'\<lparr>kx_content := c\<rparr>) = same_sessions db db'"
  "same_sessions (db\<lparr>kx_content := c\<rparr>) db' = same_sessions db db'"
  by (simp_all add: same_sessions_def)

lemma persisted: "same_sessions db (snd (persist_course v cx dest me xml cs c db))"
proof -
  define course where "course = \<lparr>kc_id = kl_fresh cx 0, kc_iri = co_id (cs_course cs), kc_title = first_lang (co_title (cs_course cs)),
            kc_description = first_lang (co_description (cs_course cs)), kc_content_path = kv_show_uuid v (kl_fresh cx 0),
            kc_manifest_xml = xml, kc_imported_by = Some me, kc_deleted_at = None\<rparr>"
  define r where "r = and_next (insert_course course (db\<lparr>kx_content := c\<rparr>)) (\<lambda>db1.
                insert_nodes (kl_fresh cx) (kl_fresh cx 0) None 0 (cs_nodes cs) (1, db1))"
  have p: "persist_course v cx dest me xml cs c db =
      (case r of Inl e \<Rightarrow> (Inl e, db\<lparr>kx_content := remove_dir dest c\<rparr>) | Inr st \<Rightarrow> (Inr course, snd st))"
    by (simp only: persist_course_def course_def r_def Let_def)
  show ?thesis
  proof (cases r)
    case (Inr st)
    then obtain db1 where "insert_course course (db\<lparr>kx_content := c\<rparr>) = Inr db1"
      "insert_nodes (kl_fresh cx) (kl_fresh cx 0) None 0 (cs_nodes cs) (1, db1) = Inr st"
      by (auto simp: r_def and_next_Inr)
    from inserted_rows(3) [OF this(1)] inserted_nodes [OF this(2)] same_sessions_trans
    have "same_sessions (db\<lparr>kx_content := c\<rparr>) (snd st)" by fastforce
    then show ?thesis by (simp add: p Inr)
  qed (simp add: p)
qed

lemma imported: "same_sessions db (snd (import_package v cx pk me db))"
  using persisted by (auto simp: import_package_def Let_def split: sum.split prod.split)

lemma deleted_course: "same_sessions db (snd (delete_course v now cid db))"
  by (simp add: delete_course_def same_sessions_def split: sum.split)

lemma bound_unit: "same_sessions db (bind_unit aid step db)"
proof -
  have "map unit_key (map (\<lambda>a. if ka_id a = aid then a\<lparr>ka_step_id := step\<rparr> else a) xs) = map unit_key xs" for xs
    by (rule map_keyed) (simp add: unit_key_def)
  from this [of "kx_units db"] show ?thesis unfolding same_sessions_def bind_unit_def by (simp del: map_map)
qed

lemma assigned: "same_sessions db (snd (assign_au_step aid step db))"
  using bound_unit by (simp add: assign_au_step_def split: option.split sum.split)

lemma put_document: "same_sessions db (snd (put_state_document rid x who i doc db))"
  by (simp add: put_state_document_def same_sessions_def)

lemma deleted_document: "same_sessions db (delete_state_document rid x who i db)"
  by (simp add: delete_state_document_def same_sessions_def)

section \<open>Launches, credentials and statements\<close>

lemma launched:
  assumes "create_launch v cx aid uid db = (r, db')"
  shows "same_sessions db db' \<or> (\<exists>a reg t d.
      kx_registrations db' = kx_registrations db @ [reg] \<and> kx_units db' = kx_units db \<and> kx_training db' = kx_training db \<and>
      kx_tokens db' = kx_tokens db @ [t] \<and> \<not> list_ex (\<lambda>x. kt_fetch_hash x = kt_fetch_hash t) (kx_tokens db) \<and>
      kx_statements db' = kx_statements db @ [d] \<and> ks_statement d = kv_statement_json v (launched_statement v cx a uid))"
  using assms
  by (auto simp: create_launch_def insert_launch_def Let_def split: option.splits sum.splits if_splits prod.splits)

lemma launch_evolves: "create_launch v cx aid uid db = (r, db') \<Longrightarrow> evolves db db'"
  using launched [of v cx aid uid db r db'] by (auto simp: evolves_def same_sessions_def)

lemma fetch_frame:
  assumes "consume_fetch v cx h db = (r, db')"
  shows "\<exists>ts. db' = db\<lparr>kx_tokens := ts\<rparr>"
  using assms by (auto simp: consume_fetch_def Let_def split: if_splits intro: exI [of _ "kx_tokens db"])

lemma upsert_at:
  assumes "completed_for u t (snd (upsert_progress p f db))" "\<not> completed_for u t db"
    and "\<And>p. ut_user_id (f p) = ut_user_id p \<and> ut_step_id (f p) = ut_step_id p"
  shows "u = ut_user_id p \<and> t = ut_step_id p"
proof (cases "get_user_training_progress_for_step db (ut_user_id p) (ut_step_id p)")
  case None
  then show ?thesis
    using assms(1,2) by (auto simp: upsert_progress_def completed_for_def split: if_splits)
next
  case (Some q)
  then show ?thesis
    using write_progress_completed [OF _ assms(2,3)] assms(1) by (auto simp: upsert_progress_def)
qed

lemma recorded_for:
  assumes "completed_for u t (snd (record_step_completion now uid sid i c remarks db))" "\<not> completed_for u t db"
  shows "u = uid \<and> t = sid"
proof -
  have g: "u = uid \<and> t = sid"
    if "upsert_progress (new_progress uid sid st i' n rm) f db = (r, db1)" "completed_for u t db1"
      "\<And>p. ut_user_id (f p) = ut_user_id p \<and> ut_step_id (f p) = ut_step_id p" for st i' n rm f r db1
    using upsert_at [of u t "new_progress uid sid st i' n rm" f db] that assms(2) by (simp add: new_progress_def)
  have same: "snd (case r of (Inl e, x) \<Rightarrow> (Inl e, x) | (Inr _, x) \<Rightarrow> (Inr (), x)) = snd r"
    for r :: "user_training_progress training_result"
    by (auto split: prod.split sum.split)
  show ?thesis
    using assms(1) g [OF surjective_pairing] unfolding record_step_completion_def Let_def same by auto
qed

lemma recorded_steps [simp]: "td_steps (snd (record_step_completion now uid sid i c remarks db)) = td_steps db"
  by (auto simp: record_step_completion_def Let_def upsert_progress_def write_progress_def split: prod.split sum.split option.split)

lemma granted:
  assumes "grant_step cx sid sx a score db = (r, db')"
  shows "kx_units db' = kx_units db \<and> kx_registrations db' = kx_registrations db \<and> kx_statements db' = kx_statements db \<and>
     kx_tokens db' = kx_tokens db \<and>
     (completed_for u t (kx_training db') \<longrightarrow> completed_for u t (kx_training db) \<or> (u = sx_user_id sx \<and> t = sid))"
  using assms recorded_for [of u t "kl_now cx" "sx_user_id sx" sid "sx_user_id sx" "''completed''"]
  by (auto simp: grant_step_def split: option.splits prod.splits sum.splits) (metis snd_conv)+

lemma marked:
  "kx_units (mark_satisfied now rid x db) = kx_units db" "kx_statements (mark_satisfied now rid x db) = kx_statements db"
  "kx_tokens (mark_satisfied now rid x db) = kx_tokens db" "kx_training (mark_satisfied now rid x db) = kx_training db"
  "map registration_key (kx_registrations (mark_satisfied now rid x db)) = map registration_key (kx_registrations db)"
proof -
  have "map registration_key (map (\<lambda>r. if kr_id r = rid then r\<lparr>kr_satisfied_at := Some now, kr_passed_at := p, kr_completed_at := c\<rparr>
      else r) rs) = map registration_key rs" for p c rs
    by (rule map_keyed) (simp add: registration_key_def)
  then show "map registration_key (kx_registrations (mark_satisfied now rid x db)) = map registration_key (kx_registrations db)"
    by (simp only: mark_satisfied_def) (simp del: map_map)
qed (simp_all add: mark_satisfied_def)

text \<open>What \<open>grant_if_satisfied\<close> does: nothing to the sessions, and a completion only when the unit is satisfied.\<close>

lemma grant_satisfied:
  assumes "grant_if_satisfied cx sx a s m db = (r, db')"
  shows "kx_units db' = kx_units db" "map registration_key (kx_registrations db') = map registration_key (kx_registrations db)"
    "kx_statements db' = kx_statements db" "kx_tokens db' = kx_tokens db"
    "completed_for u t (kx_training db') \<Longrightarrow> \<not> completed_for u t (kx_training db) \<Longrightarrow>
       u = sx_user_id sx \<and> ka_step_id a = Some t \<and> sx_launch_mode sx = launch_mode_str NormalMode \<and>
       (\<exists>mv. parse_move_on (ka_move_on a) = Inr mv \<and> evaluate_move_on mv (sm_outcome m))"
proof -
  have "db' = db \<or> (\<exists>mv sid r1 db1. parse_move_on (ka_move_on a) = Inr mv \<and> evaluate_move_on mv (sm_outcome m) \<and>
      sx_launch_mode sx = launch_mode_str NormalMode \<and> ka_step_id a = Some sid \<and>
      grant_step cx sid sx a (statement_score s) db = (r1, db1) \<and>
      (db' = db1 \<or> db' = mark_satisfied (kl_now cx) (sx_registration_id sx) (sm_outcome m) db1))"
    using assms by (auto simp: grant_if_satisfied_def split: sum.splits option.splits prod.splits if_splits)
  then consider (none) "db' = db"
    | (grant) mv sid r1 db1 where "parse_move_on (ka_move_on a) = Inr mv" "evaluate_move_on mv (sm_outcome m)"
      "sx_launch_mode sx = launch_mode_str NormalMode" "ka_step_id a = Some sid"
      "grant_step cx sid sx a (statement_score s) db = (r1, db1)"
      "db' = db1 \<or> db' = mark_satisfied (kl_now cx) (sx_registration_id sx) (sm_outcome m) db1" by blast
  note cases = this
  show "kx_units db' = kx_units db" "map registration_key (kx_registrations db') = map registration_key (kx_registrations db)"
    "kx_statements db' = kx_statements db" "kx_tokens db' = kx_tokens db"
    by (cases rule: cases; use granted in \<open>fastforce simp: marked\<close>)+
  show "completed_for u t (kx_training db') \<Longrightarrow> \<not> completed_for u t (kx_training db) \<Longrightarrow>
       u = sx_user_id sx \<and> ka_step_id a = Some t \<and> sx_launch_mode sx = launch_mode_str NormalMode \<and>
       (\<exists>mv. parse_move_on (ka_move_on a) = Inr mv \<and> evaluate_move_on mv (sm_outcome m))"
    by (cases rule: cases; use granted [of cx _ sx a _ db _ _ u t] in \<open>fastforce simp: marked\<close>)
qed

end
