(* ===== verification/Cmi5_Grants.thy ===== *)
theory Cmi5_Grants
  imports Cmi5_Safety
begin

text \<open>
  What holds of the cmi5 service over every history of requests: a step is granted by a course only on
  statements that were checked against the session of that member, and a fetch token buys one session. And
  where the service falls short: a bound step that comes to require an assessment is still completed by the
  course.
\<close>

section \<open>Evidence\<close>

text \<open>
  What it takes for a statement to count for an attempt: it is about this learner, this registration and
  this unit, marked as counting, with the result its verb asks for.
\<close>

definition counts_for :: "session_expectation \<Rightarrow> string \<Rightarrow> xstatement \<Rightarrow> bool" where
  "counts_for x verb s \<longleftrightarrow>
     xs_verb s = verb \<and> is_moveon s \<and>
     ag_account (xs_actor s) = Some \<lparr>ac_home_page = ex_actor_home_page x, ac_name = ex_actor_account_name x\<rparr> \<and>
     registration_of s = Some (ex_registration x) \<and> object_activity_id s = ex_activity_id x \<and>
     (verb = PASSED \<longrightarrow> (\<exists>r. xs_result s = Some r \<and> xr_success r = Some True \<and>
        (\<forall>required. ex_mastery_score x = Some required \<longrightarrow>
           (\<exists>scaled. Option.bind (xr_score r) sc_scaled = Some scaled \<and> required \<le> scaled)))) \<and>
     (verb = COMPLETED \<longrightarrow> (\<exists>r. xs_result s = Some r \<and> xr_completion r = Some True))"

definition proven :: "cmi5_env \<Rightarrow> cmi5_db \<Rightarrow> uuid \<Rightarrow> session_expectation \<Rightarrow> string \<Rightarrow> bool" where
  "proven v db rid x verb \<longleftrightarrow>
     (\<exists>t \<in> set (kx_statements db). ks_registration_id t = rid \<and> (\<exists>s. kv_parse v (ks_statement t) = Inr s \<and> counts_for x verb s))"

definition satisfied_by_evidence :: "cmi5_env \<Rightarrow> cmi5_db \<Rightarrow> uuid \<Rightarrow> session_expectation \<Rightarrow> move_on \<Rightarrow> bool" where
  "satisfied_by_evidence v db rid x mv \<longleftrightarrow>
     evaluate_move_on mv \<lparr>so_passed = proven v db rid x PASSED, so_completed = proven v db rid x COMPLETED,
       so_failed = proven v db rid x FAILED\<rparr>"

lemma verbs_distinct [simp]:
  "INITIALIZED \<noteq> PASSED" "INITIALIZED \<noteq> COMPLETED" "INITIALIZED \<noteq> FAILED" "INITIALIZED \<noteq> TERMINATED" "INITIALIZED \<noteq> LAUNCHED"
  "PASSED \<noteq> INITIALIZED" "PASSED \<noteq> COMPLETED" "PASSED \<noteq> FAILED" "PASSED \<noteq> TERMINATED" "PASSED \<noteq> LAUNCHED"
  "COMPLETED \<noteq> INITIALIZED" "COMPLETED \<noteq> PASSED" "COMPLETED \<noteq> FAILED" "COMPLETED \<noteq> TERMINATED" "COMPLETED \<noteq> LAUNCHED"
  "FAILED \<noteq> INITIALIZED" "FAILED \<noteq> PASSED" "FAILED \<noteq> COMPLETED" "FAILED \<noteq> TERMINATED" "FAILED \<noteq> LAUNCHED"
  "TERMINATED \<noteq> INITIALIZED" "TERMINATED \<noteq> PASSED" "TERMINATED \<noteq> COMPLETED" "TERMINATED \<noteq> FAILED" "TERMINATED \<noteq> LAUNCHED"
  "LAUNCHED \<noteq> INITIALIZED" "LAUNCHED \<noteq> PASSED" "LAUNCHED \<noteq> COMPLETED" "LAUNCHED \<noteq> FAILED" "LAUNCHED \<noteq> TERMINATED"
  by (simp_all add: verb_defs)

lemma reached_score: "\<not> unwrap_or (map_option (\<lambda>v. v < (required :: rat)) score) True \<Longrightarrow> \<exists>scaled. score = Some scaled \<and> required \<le> scaled"
  by (cases score) auto

lemma valid_counts:
  assumes "validate_cmi5_statement s x = Inr ()" "is_moveon s" "xs_verb s = verb"
  shows "counts_for x verb s"
proof -
  obtain acc where a: "ag_account (xs_actor s) = Some acc" "ac_home_page acc = ex_actor_home_page x"
      "ac_name acc = ex_actor_account_name x" "registration_of s = Some (ex_registration x)"
      "object_activity_id s = ex_activity_id x" "check_result s x = Inr ()"
    using assms(1) by (auto simp: validate_cmi5_statement_def split: option.splits if_splits)
  have "verb = PASSED \<Longrightarrow> \<exists>r. xs_result s = Some r \<and> xr_success r = Some True \<and>
        (\<forall>required. ex_mastery_score x = Some required \<longrightarrow>
           (\<exists>scaled. Option.bind (xr_score r) sc_scaled = Some scaled \<and> required \<le> scaled))"
    using a(6) assms(3)
    by (cases "xs_result s"; cases "ex_mastery_score x")
      (auto simp: check_result_def Let_def split: if_splits option.splits dest!: reached_score)
  moreover have "verb = COMPLETED \<Longrightarrow> \<exists>r. xs_result s = Some r \<and> xr_completion r = Some True"
    using a(6) assms(3) by (cases "xs_result s") (auto simp: check_result_def split: if_splits)
  moreover have "acc = \<lparr>ac_home_page = ex_actor_home_page x, ac_name = ex_actor_account_name x\<rparr>"
    using a(2,3) by simp
  ultimately show ?thesis using a assms(2,3) by (simp add: counts_for_def)
qed

text \<open>A flag the machine raises was raised by the statement applied, which carries its verb and counts.\<close>

lemma applied_flags:
  assumes "apply_statement s m = Inr m'"
  shows "so_passed (sm_outcome m') \<Longrightarrow> so_passed (sm_outcome m) \<or> (xs_verb s = PASSED \<and> is_moveon s)"
    and "so_completed (sm_outcome m') \<Longrightarrow> so_completed (sm_outcome m) \<or> (xs_verb s = COMPLETED \<and> is_moveon s)"
  using assms by (auto simp: apply_statement_def Let_def split: if_splits)

lemma launched_changes_nothing: "xs_verb s = LAUNCHED \<Longrightarrow> \<exists>e. apply_statement s m = Inl e"
  by (simp add: apply_statement_def Let_def)

lemma replayed_flag:
  assumes "\<And>s m m'. apply_statement s m = Inr m' \<Longrightarrow> flag (sm_outcome m') \<Longrightarrow> flag (sm_outcome m) \<or> (xs_verb s = verb \<and> is_moveon s)"
    and "flag (sm_outcome (foldl (replay_one v) m raws))"
  shows "flag (sm_outcome m) \<or> (\<exists>raw \<in> set raws. \<exists>s. kv_parse v raw = Inr s \<and> xs_verb s = verb \<and> is_moveon s)"
  using assms(2)
proof (induction raws arbitrary: m)
  case (Cons raw raws)
  have "flag (sm_outcome m) \<or> (\<exists>s. kv_parse v raw = Inr s \<and> xs_verb s = verb \<and> is_moveon s)"
    if "flag (sm_outcome (replay_one v m raw))"
    using that assms(1) by (fastforce simp: replay_one_def split: sum.splits)
  then show ?case using Cons.IH [of "replay_one v m raw"] Cons.prems by (metis foldl_Cons list.set_intros)
qed simp

definition store_ok :: "cmi5_env \<Rightarrow> cmi5_db \<Rightarrow> bool" where
  "store_ok v db \<longleftrightarrow>
     (\<forall>t \<in> set (kx_statements db). \<forall>s. kv_parse v (ks_statement t) = Inr s \<longrightarrow> xs_verb s \<noteq> LAUNCHED \<longrightarrow>
        (\<exists>sx x mv. attempt v db (ks_registration_id t) = Some (sx, x, mv) \<and> validate_cmi5_statement s x = Inr ()))"

lemma replay_proves:
  assumes "store_ok v db" "attempt v db rid = Some (sx, x, mv)"
  shows "so_passed (sm_outcome (replay v db rid)) \<Longrightarrow> proven v db rid x PASSED"
    and "so_completed (sm_outcome (replay v db rid)) \<Longrightarrow> proven v db rid x COMPLETED"
proof -
  have p: "proven v db rid x verb" if h: "raw \<in> set (map ks_statement (filter (\<lambda>s. ks_registration_id s = rid) (kx_statements db)))"
    "kv_parse v raw = Inr s" "xs_verb s = verb" "is_moveon s" "verb \<noteq> LAUNCHED" for raw s verb
  proof -
    obtain t where t: "t \<in> set (kx_statements db)" "ks_registration_id t = rid" "ks_statement t = raw" using h(1) by auto
    then have "validate_cmi5_statement s x = Inr ()"
      using assms h by (fastforce simp: store_ok_def)
    then show ?thesis using t h valid_counts unfolding proven_def by blast
  qed
  have q: "proven v db rid x verb"
    if "\<And>s m m'. apply_statement s m = Inr m' \<Longrightarrow> flag (sm_outcome m') \<Longrightarrow> flag (sm_outcome m) \<or> (xs_verb s = verb \<and> is_moveon s)"
      "flag (sm_outcome (replay v db rid))" "\<not> flag (sm_outcome new_machine)" "verb \<noteq> LAUNCHED" for flag verb
  proof -
    have "flag (sm_outcome new_machine) \<or> (\<exists>raw \<in> set (map ks_statement (filter (\<lambda>s. ks_registration_id s = rid) (kx_statements db))).
        \<exists>s. kv_parse v raw = Inr s \<and> xs_verb s = verb \<and> is_moveon s)"
      by (rule replayed_flag) (use that(1,2) in \<open>auto simp: replay_def\<close>)
    then show ?thesis using that(3,4) p by blast
  qed
  show "so_passed (sm_outcome (replay v db rid)) \<Longrightarrow> proven v db rid x PASSED"
    by (rule q [of so_passed]) (use applied_flags in \<open>auto simp: new_machine_def\<close>)
  show "so_completed (sm_outcome (replay v db rid)) \<Longrightarrow> proven v db rid x COMPLETED"
    by (rule q [of so_completed]) (use applied_flags in \<open>auto simp: new_machine_def\<close>)
qed

lemma proven_mono: "proven v db rid x verb \<Longrightarrow> prefix (kx_statements db) (kx_statements db') \<Longrightarrow> proven v db' rid x verb"
  unfolding proven_def by (meson set_mono_prefix subsetD)

lemma evidence_mono:
  assumes "satisfied_by_evidence v db rid x mv" "prefix (kx_statements db) (kx_statements db')"
  shows "satisfied_by_evidence v db' rid x mv"
  using assms(1) proven_mono [OF _ assms(2)]
  unfolding satisfied_by_evidence_def by (cases mv) auto

section \<open>Recording a statement\<close>

definition recording :: "cmi5_db \<Rightarrow> cmi5_db \<Rightarrow> bool" where
  "recording db db' \<longleftrightarrow>
     kx_units db' = kx_units db \<and> kx_tokens db' = kx_tokens db \<and> prefix (kx_statements db) (kx_statements db') \<and>
     map registration_key (kx_registrations db') = map registration_key (kx_registrations db)"

text \<open>A completion that appears between two states is this member's, of the step the unit is bound to, on evidence.\<close>

definition earned :: "cmi5_env \<Rightarrow> cmi5_db \<Rightarrow> cmi5_db \<Rightarrow> uuid \<Rightarrow> session_context \<Rightarrow> session_expectation \<Rightarrow> bool" where
  "earned v db db' rid sx x \<longleftrightarrow>
     (\<forall>u t. completed_for u t (kx_training db') \<longrightarrow> \<not> completed_for u t (kx_training db) \<longrightarrow>
        u = sx_user_id sx \<and> sx_launch_mode sx = launch_mode_str NormalMode \<and>
        (\<exists>a mv. unit_by_id db (sx_au_id sx) = Some a \<and> ka_step_id a = Some t \<and>
           parse_move_on (ka_move_on a) = Inr mv \<and> satisfied_by_evidence v db' rid x mv))"

lemma recording_refl [simp, intro]: "recording db db"
  by (simp add: recording_def)

lemma recording_trans: "recording a b \<Longrightarrow> recording b c \<Longrightarrow> recording a c"
  unfolding recording_def by (elim conjE, intro conjI; (simp only:)?; (blast intro: prefix_order.trans)?)

lemma recording_evolves: "recording db db' \<Longrightarrow> evolves db db'"
  by (simp add: recording_def evolves_def)

lemma recording_log [simp]: "recording db (cmi5_log e s a db') = recording db db'"
  by (simp add: recording_def)

lemma satisfied_log [simp]: "satisfied_by_evidence v (cmi5_log e s a db) rid x mv = satisfied_by_evidence v db rid x mv"
  by (simp add: satisfied_by_evidence_def proven_def)

lemma earned_log [simp]: "earned v db (cmi5_log e s a db') rid sx x = earned v db db' rid sx x"
  by (simp add: earned_def)

lemma earned_refl [simp, intro]: "earned v db db rid sx x"
  by (simp add: earned_def)

lemma earned_trans:
  assumes "earned v a b rid sx x" "earned v b c rid sx x" "recording a b" "recording b c"
  shows "earned v a c rid sx x"
proof -
  have u: "unit_by_id b i = unit_by_id a i" for i using assms(3) by (simp add: recording_def unit_by_id_def)
  show ?thesis
    using assms(1,2,4) evidence_mono unfolding earned_def u recording_def by meson
qed

definition stored_ok :: "cmi5_env \<Rightarrow> cmi5_db \<Rightarrow> stored_statement \<Rightarrow> bool" where
  "stored_ok v db t \<longleftrightarrow> (\<forall>s. kv_parse v (ks_statement t) = Inr s \<longrightarrow> xs_verb s \<noteq> LAUNCHED \<longrightarrow>
     (\<exists>sx x mv. attempt v db (ks_registration_id t) = Some (sx, x, mv) \<and> validate_cmi5_statement s x = Inr ()))"

lemma store_ok_iff: "store_ok v db \<longleftrightarrow> (\<forall>t \<in> set (kx_statements db). stored_ok v db t)"
  by (simp add: store_ok_def stored_ok_def)

lemma stored_ok_evolves: "stored_ok v db t \<Longrightarrow> evolves db db' \<Longrightarrow> stored_ok v db' t"
  unfolding stored_ok_def using attempt_evolved by blast

lemma store_ok_extended:
  assumes "store_ok v db" "evolves db db'" "kx_statements db' = kx_statements db @ new" "\<forall>t \<in> set new. stored_ok v db' t"
  shows "store_ok v db'"
  using assms stored_ok_evolves [OF _ assms(2)] by (auto simp: store_ok_iff)

lemma store_ok_same: "store_ok v db \<Longrightarrow> evolves db db' \<Longrightarrow> kx_statements db' = kx_statements db \<Longrightarrow> store_ok v db'"
  by (rule store_ok_extended [where new = "[]"]) auto

lemma applied_proven:
  assumes live: "attempt v db rid = Some (sx, x, mvs)" and ok: "store_ok v db" and valid: "validate_cmi5_statement s x = Inr ()"
    and p: "kv_parse v (ks_statement t) = Inr s" "ks_registration_id t = rid" "kx_statements db' = kx_statements db @ [t]"
    and m: "apply_statement s (replay v db rid) = Inr m"
  shows "so_passed (sm_outcome m) \<Longrightarrow> proven v db' rid x PASSED"
    and "so_completed (sm_outcome m) \<Longrightarrow> proven v db' rid x COMPLETED"
proof -
  have pre: "prefix (kx_statements db) (kx_statements db')" using p(3) by simp
  have new: "proven v db' rid x verb" if "xs_verb s = verb" "is_moveon s" for verb
    using valid_counts [OF valid that(2,1)] p unfolding proven_def by auto
  show "so_passed (sm_outcome m) \<Longrightarrow> proven v db' rid x PASSED"
    using applied_flags(1) [OF m] replay_proves(1) [OF ok live] proven_mono [OF _ pre] new by blast
  show "so_completed (sm_outcome m) \<Longrightarrow> proven v db' rid x COMPLETED"
    using applied_flags(2) [OF m] replay_proves(2) [OF ok live] proven_mono [OF _ pre] new by blast
qed

lemma recorded:
  assumes run: "record_statement v cx sx fresh hint raw db = (r, db')"
    and live: "attempt v db rid = Some (sx, x, mvs)" "sx_registration_id sx = rid" and ok: "store_ok v db"
  shows "recording db db' \<and> store_ok v db' \<and> earned v db db' rid sx x"
proof -
  obtain a where a: "unit_by_id db (sx_au_id sx) = Some a" "x = expectation v sx a"
    using live(1) by (auto simp: attempt_def session_of_registration_def bind_eq_Some_conv)
  have "db' = db \<or> (\<exists>s m i db1. kv_parse v raw = Inr s \<and> validate_cmi5_statement s x = Inr () \<and>
      apply_statement s (replay v db rid) = Inr m \<and>
      db1 = db\<lparr>kx_statements := kx_statements db @ [\<lparr>ks_registration_id = rid, ks_statement_id = i, ks_verb = xs_verb s,
        ks_statement = raw\<rparr>]\<rparr> \<and> grant_if_satisfied cx sx a s m db1 = (r, db'))"
    using run a live(2)
    by (auto simp: record_statement_def Let_def store_statement_def split: sum.splits if_splits prod.splits option.splits)
  then show ?thesis
  proof (elim disjE exE conjE)
    assume "db' = db" then show ?thesis using ok by simp
  next
    fix s m i db1
    assume h: "kv_parse v raw = Inr s" "validate_cmi5_statement s x = Inr ()" "apply_statement s (replay v db rid) = Inr m"
      and db1: "db1 = db\<lparr>kx_statements := kx_statements db @ [\<lparr>ks_registration_id = rid, ks_statement_id = i,
        ks_verb = xs_verb s, ks_statement = raw\<rparr>]\<rparr>"
      and g: "grant_if_satisfied cx sx a s m db1 = (r, db')"
    let ?t = "\<lparr>ks_registration_id = rid, ks_statement_id = i, ks_verb = xs_verb s, ks_statement = raw\<rparr>"
    note after = grant_satisfied [OF g]
    have rec: "recording db db'" using after(1-4) by (simp add: recording_def db1)
    have st: "kx_statements db' = kx_statements db @ [?t]" using after(3) by (simp add: db1)
    have "stored_ok v db' ?t"
      using attempt_evolved [OF recording_evolves [OF rec] live(1)] h by (auto simp: stored_ok_def)
    then have ok': "store_ok v db'" using store_ok_extended [OF ok recording_evolves [OF rec] st] by simp
    have "satisfied_by_evidence v db' rid x mv" if "evaluate_move_on mv (sm_outcome m)" for mv
      using applied_proven [OF live(1) ok h(2) _ _ st h(3)] h(1) that
      unfolding satisfied_by_evidence_def by (cases mv) auto
    then have "earned v db db' rid sx x"
      using after(5) a(1) unfolding earned_def by (simp add: db1) blast
    then show ?thesis using rec ok' by simp
  qed
qed

definition recorded_ok :: "cmi5_env \<Rightarrow> cmi5_db \<Rightarrow> cmi5_db \<Rightarrow> session_context \<Rightarrow> session_expectation \<Rightarrow> bool" where
  "recorded_ok v db db' sx x \<longleftrightarrow>
     recording db db' \<and> store_ok v db' \<and> earned v db db' (sx_registration_id sx) sx x"

lemma recorded_applied:
  assumes "attempt v db (sx_registration_id sx) = Some (sx, x, mvs)" "store_ok v db"
  shows "recorded_ok v db (snd (record_and_apply v cx sx fresh hint raw db)) sx x"
proof -
  obtain r db' where r: "record_statement v cx sx fresh hint raw db = (r, db')" by fastforce
  have "store_ok v (cmi5_log e s a db')" if "store_ok v db'" for e s a
    by (rule store_ok_same [OF that]) (auto intro: evolves_same)
  then show ?thesis
    using recorded [OF r assms(1) refl assms(2)]
    by (auto simp: recorded_ok_def record_and_apply_def after_service_def r apply_grant_def split: sum.split option.split)
qed

lemma batch_recorded:
  assumes "attempt v db (sx_registration_id sx) = Some (sx, x, mvs)" "store_ok v db"
  shows "recorded_ok v db (snd (post_batch v cx sx n ids items db)) sx x"
  using assms
proof (induction v cx sx n ids items db rule: post_batch.induct)
  case (1 v cx sx n ids db)
  then show ?case by (simp add: recorded_ok_def)
next
  case (2 v cx sx n ids item items db)
  obtain r db1 where one: "record_and_apply v cx sx (kl_fresh cx n) (item_id v item) item db = (r, db1)" by fastforce
  have ok: "recorded_ok v db db1 sx x" using recorded_applied [OF "2.prems"] one by (metis snd_conv)
  show ?case
  proof (cases r)
    case (Inr u)
    have live: "attempt v db1 (sx_registration_id sx) = Some (sx, x, mvs)"
      using ok "2.prems"(1) attempt_evolved recording_evolves unfolding recorded_ok_def by blast
    let ?db2 = "snd (post_batch v cx sx (n + 1) (case item_id v item of None \<Rightarrow> ids | Some i \<Rightarrow> ids @ [i]) items db1)"
    have "recorded_ok v db1 ?db2 sx x"
      using "2.IH" [OF one [symmetric] Inr live] ok unfolding recorded_ok_def by blast
    then have "recorded_ok v db ?db2 sx x"
      using ok recording_trans earned_trans unfolding recorded_ok_def by blast
    then show ?thesis by (simp add: one Inr)
  qed (use one ok in simp)
qed

section \<open>Every request\<close>

lemma trained:
  shows "kx_registrations (training_event tc rq db) = kx_registrations db" "kx_tokens (training_event tc rq db) = kx_tokens db"
    "kx_statements (training_event tc rq db) = kx_statements db"
    "map unit_key (kx_units (training_event tc rq db)) = map unit_key (kx_units db)"
proof -
  have "map unit_key (map (\<lambda>a. if is_some_and (ka_step_id a) (\<lambda>sid. get_training_step_by_id tdb sid = None)
      then a\<lparr>ka_step_id := None\<rparr> else a) xs) = map unit_key xs" for tdb xs
    by (rule map_keyed) (simp add: unit_key_def)
  from this [of "training_step_by (tc, rq) (kx_training db)" "kx_units db"]
  show "map unit_key (kx_units (training_event tc rq db)) = map unit_key (kx_units db)"
    by (simp add: training_event_def Let_def del: map_map)
qed (simp_all add: training_event_def Let_def)

lemma sessions_live:
  assumes "cmi5_session_auth v now h db = Inr sx"
  obtains x mvs where "attempt v db (sx_registration_id sx) = Some (sx, x, mvs)"
proof -
  have "\<exists>t :: launch_token. session_of_registration db (kt_registration_id t) = Some sx"
    using assms by (auto simp: cmi5_session_auth_def resolve_session_def split: option.splits)
  then obtain t :: launch_token where s: "session_of_registration db (kt_registration_id t) = Some sx" by blast
  then have "sx_registration_id sx = kt_registration_id t"
    by (auto simp: session_of_registration_def registration_by_id_def bind_eq_Some_conv find_Some_iff)
  moreover obtain a where "unit_by_id db (sx_au_id sx) = Some a"
    using s by (auto simp: session_of_registration_def bind_eq_Some_conv)
  ultimately show thesis using that s by (simp add: attempt_def)
qed

text \<open>
  What is assumed of serde: the statement the server writes at launch is not read back under another verb.
\<close>

definition launches_read_back :: "cmi5_env \<Rightarrow> bool" where
  "launches_read_back v \<longleftrightarrow>
     (\<forall>s s'. xs_verb s = LAUNCHED \<longrightarrow> kv_parse v (kv_statement_json v s) = Inr s' \<longrightarrow> xs_verb s' = LAUNCHED)"

text \<open>One step: the history grows, the store stays checked, and a completion that no training request made is earned.\<close>

definition step_ok :: "cmi5_env \<Rightarrow> cmi5_db \<Rightarrow> cmi5_db \<Rightarrow> bool" where
  "step_ok v db db' \<longleftrightarrow> evolves db db' \<and> store_ok v db' \<and>
     (\<forall>u t. completed_for u t (kx_training db') \<longrightarrow> \<not> completed_for u t (kx_training db) \<longrightarrow>
        (\<exists>rid sx x mvs. attempt v db rid = Some (sx, x, mvs) \<and> earned v db db' rid sx x))"

lemma same_sessions_step: "same_sessions db db' \<Longrightarrow> store_ok v db \<Longrightarrow> step_ok v db db'"
  using same_sessions_evolves store_ok_same by (auto simp: step_ok_def same_sessions_def)

lemma recorded_step:
  "attempt v db (sx_registration_id sx) = Some (sx, x, mvs) \<Longrightarrow> recorded_ok v db db' sx x \<Longrightarrow> step_ok v db db'"
  using recording_evolves unfolding recorded_ok_def step_ok_def by blast

lemma serviced: "snd (after_service v (r, db) k) = (case r of Inl e \<Rightarrow> db | Inr x \<Rightarrow> snd (k x db))"
  by (simp add: after_service_def split: sum.split)

lemma serviced_only: "snd (after_service v r (\<lambda>_ db. (Inr (), db))) = snd r"
  by (cases r) (simp add: serviced split: sum.split)

lemma launched_step:
  assumes "launches_read_back v" "store_ok v db"
  shows "step_ok v db (snd (create_launch v cx aid uid db))"
proof -
  obtain r db' where run: "create_launch v cx aid uid db = (r, db')" by fastforce
  note ev = launch_evolves [OF run]
  have "xs_verb (launched_statement v cx a uid) = LAUNCHED" for a by (simp add: launched_statement_def)
  then have new: "stored_ok v db' d" if "ks_statement d = kv_statement_json v (launched_statement v cx a uid)" for d a
    using assms(1) unfolding stored_ok_def launches_read_back_def that by blast
  from launched [OF run] have "step_ok v db db'"
  proof
    assume "\<exists>a reg t d. kx_registrations db' = kx_registrations db @ [reg] \<and> kx_units db' = kx_units db \<and>
      kx_training db' = kx_training db \<and> kx_tokens db' = kx_tokens db @ [t] \<and>
      \<not> list_ex (\<lambda>x. kt_fetch_hash x = kt_fetch_hash t) (kx_tokens db) \<and>
      kx_statements db' = kx_statements db @ [d] \<and> ks_statement d = kv_statement_json v (launched_statement v cx a uid)"
    then obtain a d where h: "kx_training db' = kx_training db" "kx_statements db' = kx_statements db @ [d]"
      "ks_statement d = kv_statement_json v (launched_statement v cx a uid)" by blast
    then have "store_ok v db'" using store_ok_extended [OF assms(2) ev h(2)] new by simp
    then show "step_ok v db db'" using ev h(1) by (simp add: step_ok_def)
  qed (rule same_sessions_step [OF _ assms(2)])
  then show ?thesis by (simp add: run)
qed

lemma step_ok_refl: "store_ok v db \<Longrightarrow> step_ok v db db"
  by (simp add: step_ok_def)

lemma step_ok_log: "step_ok v db db' \<Longrightarrow> step_ok v db (cmi5_log e s a db')"
  using store_ok_same [of v db' "cmi5_log e s a db'"] evolves_same [of "cmi5_log e s a db'" db']
    evolves_trans [of db db' "cmi5_log e s a db'"]
  by (auto simp: step_ok_def)

lemma request_step:
  assumes "launches_read_back v" "store_ok v db" "\<forall>tc tr. rq \<noteq> TrainingRequest tc tr"
  shows "step_ok v db (cmi5_step v (cx, rq) db)"
proof -
  note ok = assms(2)
  have same: "step_ok v db (snd r)" if "same_sessions db (snd r)" for r :: "'x cmi5_result"
    using same_sessions_step [OF that ok] .
  have then_log: "step_ok v db (snd (after_service v r (\<lambda>y db. (Inr (g y db), cmi5_log e s a db))))" if "step_ok v db (snd r)"
    for r :: "'x cmi5_result" and g :: "'x \<Rightarrow> cmi5_db \<Rightarrow> 'y" and e s a
    using that step_ok_log by (cases r) (auto simp: serviced split: sum.split)
  have content: "step_ok v db (as_content v cx h k db)"
    if "\<And>sx x mvs. attempt v db (sx_registration_id sx) = Some (sx, x, mvs) \<Longrightarrow> step_ok v db (snd (k sx db))"
    for h and k :: "session_context \<Rightarrow> cmi5_db \<Rightarrow> 'x cmi5_answer"
    using sessions_live [of v "kl_now cx" h db] that step_ok_refl [OF ok] unfolding as_content_def
    by (auto split: sum.split) blast
  show ?thesis
  proof (cases rq)
    case (ImportCourse me upload)
    show ?thesis
    proof (cases upload)
      case (Some pk)
      then show ?thesis
        using step_ok_refl [OF ok]
        by (simp add: then_log [OF same [OF imported]] ImportCourse routed_def import_course_def when_enabled_def)
    qed (use step_ok_refl [OF ok] in \<open>simp add: ImportCourse routed_def import_course_def when_enabled_def\<close>)
  next
    case (DeleteCourse me cid)
    then show ?thesis
      using step_ok_refl [OF ok]
      by (simp add: then_log [OF same [OF deleted_course]] routed_def delete_course_route_def when_enabled_def)
  next
    case (AssignUnit me aid st)
    then show ?thesis
      using step_ok_refl [OF ok]
      by (simp add: then_log [OF same [OF assigned]] routed_def assign_au_step_route_def when_enabled_def)
  next
    case (LaunchUnit me aid)
    then show ?thesis
      using step_ok_refl [OF ok]
      by (simp add: then_log [OF launched_step [OF assms(1) ok]] routed_def launch_au_def when_enabled_def)
  next
    case (FetchSession token)
    have "step_ok v db db'" if fetch: "consume_fetch v cx t db = (r, db')" for t r db'
    proof -
      obtain ts where "db' = db\<lparr>kx_tokens := ts\<rparr>" using fetch_frame [OF fetch] by blast
      then show ?thesis
        using store_ok_same [OF ok, of db'] evolves_same [of db' db] by (simp add: step_ok_def)
    qed
    then show ?thesis
      using step_ok_refl [OF ok] by (auto simp: FetchSession fetch_credential_def split: option.split prod.split sum.split)
  next
    case (PutStatement h hint body)
    have "step_ok v db (snd (lrs_put_statement v cx sx hint body db))"
      if "attempt v db (sx_registration_id sx) = Some (sx, x, mvs)" for sx x mvs
      using recorded_step [OF that recorded_applied [OF that ok]] step_ok_refl [OF ok]
      by (simp add: lrs_put_statement_def when_enabled_def)
    then show ?thesis unfolding PutStatement cmi5_step.simps by (rule content)
  next
    case (PostStatement h body)
    have "step_ok v db (snd (lrs_post_statement v cx sx body db))"
      if "attempt v db (sx_registration_id sx) = Some (sx, x, mvs)" for sx x mvs
      using recorded_step [OF that batch_recorded [OF that ok]] step_ok_refl [OF ok]
      by (simp add: lrs_post_statement_def when_enabled_def)
    then show ?thesis unfolding PostStatement cmi5_step.simps by (rule content)
  next
    case (PutState h sid body)
    have "step_ok v db (snd (lrs_put_state v sx sid body db))" for sx
      using same [OF put_document] step_ok_refl [OF ok]
      by (simp add: lrs_put_state_def when_enabled_def with_state_id_def serviced_only split: option.split)
    then show ?thesis unfolding PutState cmi5_step.simps by (rule content)
  next
    case (DeleteState h sid)
    have "step_ok v db (snd (lrs_delete_state v sx sid db))" for sx
      using same_sessions_step [OF deleted_document ok] step_ok_refl [OF ok]
      by (simp add: lrs_delete_state_def when_enabled_def with_state_id_def split: option.split)
    then show ?thesis unfolding DeleteState cmi5_step.simps by (rule content)
  next
    case (TrainingRequest tc tr)
    then show ?thesis using assms(3) by blast
  qed
qed

lemma history_step:
  assumes "launches_read_back v" "store_ok v db"
  shows "evolves db (cmi5_step v e db) \<and> store_ok v (cmi5_step v e db)"
proof -
  obtain cx rq where e: "e = (cx, rq)" by (cases e)
  show ?thesis
  proof (cases "\<exists>tc tr. rq = TrainingRequest tc tr")
    case True
    then obtain tc tr where rq: "rq = TrainingRequest tc tr" by blast
    have ev: "evolves db (training_event tc tr db)" by (simp add: evolves_def trained)
    show ?thesis using ev store_ok_same [OF assms(2) ev trained(3)] by (simp add: e rq)
  next
    case False
    then show ?thesis using request_step [OF assms, of rq cx] by (auto simp: e step_ok_def)
  qed
qed

interpretation checked_store: preserved "cmi5_step v" "\<lambda>db. launches_read_back v \<and> store_ok v db" for v
  by unfold_locales (use history_step in blast)

text \<open>The member of \<open>lesson_db\<close> opens the launch, starts and passes.\<close>

lemmas lesson_runs = as_content_def cmi5_session_auth_def resolve_session_def session_of_registration_def
  registration_by_id_def unit_by_id_def lrs_put_statement_def when_enabled_def record_and_apply_def record_statement_def
  validate_cmi5_statement_def is_au_verb_def statement_has_category_def has_category_def registration_of_def object_activity_id_def
  expectation_def replay_def replay_one_def new_machine_def apply_statement_def store_statement_def grant_if_satisfied_def
  grant_step_def mark_satisfied_def check_result_def is_moveon_def after_service_def

definition lesson_opened :: cmi5_db where
  "lesson_opened = lesson_db\<lparr>kx_tokens := [\<lparr>kt_registration_id = 40, kt_fetch_hash = ''fetch'', kt_session_hash = Some ''key'',
     kt_consumed_at = Some 0, kt_expires_at = 60, kt_session_expires_at = 600\<rparr>]\<rparr>"

definition lesson_begun :: cmi5_db where
  "lesson_begun = lesson_opened\<lparr>kx_statements := [\<lparr>ks_registration_id = 40, ks_statement_id = 110, ks_verb = INITIALIZED,
     ks_statement = JStr ''started''\<rparr>]\<rparr>"

lemma lesson_fetch: "cmi5_step lesson_env (lesson_call 0 ''key'', FetchSession (Some ''fetch'')) lesson_db = lesson_opened"
  by (simp add: fetch_credential_def consume_fetch_def lesson_opened_def lesson_defs fetch_open_def Let_def)

definition lesson_session :: session_context where
  "lesson_session = \<lparr>sx_registration_id = 40, sx_user_id = 1, sx_au_id = 20, sx_activity_id = ''x:a'', sx_launch_mode = ''Normal''\<rparr>"

lemma lesson_auth:
  "cmi5_session_auth lesson_env 10 (Some ''Bearer key'') lesson_opened = Inr lesson_session"
  "cmi5_session_auth lesson_env 20 (Some ''Bearer key'') lesson_begun = Inr lesson_session"
  by (simp_all add: cmi5_session_auth_def resolve_session_def session_of_registration_def registration_by_id_def
      unit_by_id_def lesson_opened_def lesson_begun_def lesson_defs lesson_session_def)

lemma lesson_start:
  "cmi5_step lesson_env (lesson_call 10 [], PutStatement (Some ''Bearer key'') None (JStr ''started'')) lesson_opened = lesson_begun"
proof -
  have n: "kl_now (lesson_call 10 []) = 10" by (simp add: lesson_call_def)
  show ?thesis
    by (simp add: as_content_def n lesson_auth) (simp add: lesson_runs lesson_session_def lesson_opened_def lesson_begun_def
      lesson_defs Let_def parse_move_on_def)
qed


lemma lesson_pass:
  "completed_for 1 7 (kx_training
     (cmi5_step lesson_env (lesson_call 20 [], PutStatement (Some ''Bearer key'') None (JStr ''passed'')) lesson_begun))"
proof -
  have n: "kl_now (lesson_call 20 []) = 20" by (simp add: lesson_call_def)
  have i: "completed_for 1 7 (snd (record_step_completion 20 1 7 1 ''completed'' r reader_shop))" for r
    by (subst first_row) (simp_all add: reader_shop_def handler_defs completed_for_def)
  obtain tr where t: "record_step_completion 20 1 7 1 ''completed'' (Some ''Completed via cmi5 module x:a'') reader_shop = (Inr (), tr)"
    using first_row [of reader_shop 1 7 1 20 "Some ''Completed via cmi5 module x:a''"] by (simp add: reader_shop_def handler_defs)
  have s: "get_training_step_by_id reader_shop 7 = Some (hd (td_steps reader_shop))"
    by (simp add: reader_shop_def get_training_step_by_id_def)
  show ?thesis
    using i [of "Some ''Completed via cmi5 module x:a''", unfolded t]
    by (simp add: as_content_def n lesson_auth) (simp add: lesson_runs lesson_session_def lesson_opened_def lesson_begun_def
      lesson_defs Let_def parse_move_on_def t [unfolded One_nat_def] s cmi5_log_def apply_grant_def)
qed

text \<open>
  C7. Whatever requests of the cmi5 and training routes came before, a step that comes to count as completed
  for a member by a request other than those of the training routes is the step the unit of a launch of that same member is bound to, the
  launch is in the mode Normal, and the unit's moveOn criterion holds of statements that are stored for that
  launch: each is about this member, this registration and this unit, is marked as counting, and carries the
  result its verb asks for, a passed one with a score that reaches the mastery score.
\<close>

theorem course_grants_are_earned:
  assumes "launches_read_back v" "kx_statements start = []" "db = run_events (cmi5_step v) es start"
    and "\<not> completed_for uid sid (kx_training db)" "completed_for uid sid (kx_training (cmi5_step v (cx, rq) db))"
    and "\<forall>tc tr. rq \<noteq> TrainingRequest tc tr"
  shows "\<exists>rid sx x mvs a mv.
    attempt v db rid = Some (sx, x, mvs) \<and> sx_user_id sx = uid \<and> sx_launch_mode sx = ''Normal'' \<and>
    unit_by_id db (sx_au_id sx) = Some a \<and> ka_step_id a = Some sid \<and> parse_move_on (ka_move_on a) = Inr mv \<and>
    satisfied_by_evidence v (cmi5_step v (cx, rq) db) rid x mv"
proof -
  have "store_ok v start" using assms(2) by (simp add: store_ok_def)
  then have "store_ok v db"
    using checked_store.run_keeps [of v start es] assms(1,3) by simp
  from request_step [OF assms(1) this assms(6), of cx] assms(4,5)
  obtain rid sx x mvs where "attempt v db rid = Some (sx, x, mvs)" "earned v db (cmi5_step v (cx, rq) db) rid sx x"
    unfolding step_ok_def by blast
  then show ?thesis using assms(4,5) unfolding earned_def by simp blast
qed

theorem course_grants_are_earned_witness:
  "\<exists>rid sx x mvs a mv.
    attempt lesson_env lesson_begun rid = Some (sx, x, mvs) \<and> sx_user_id sx = 1 \<and> sx_launch_mode sx = ''Normal'' \<and>
    unit_by_id lesson_begun (sx_au_id sx) = Some a \<and> ka_step_id a = Some 7 \<and> parse_move_on (ka_move_on a) = Inr mv \<and>
    satisfied_by_evidence lesson_env
      (cmi5_step lesson_env (lesson_call 20 [], PutStatement (Some ''Bearer key'') None (JStr ''passed'')) lesson_begun) rid x mv"
proof (rule course_grants_are_earned [where start = lesson_db and es = "[(lesson_call 0 ''key'', FetchSession (Some ''fetch'')),
    (lesson_call 10 [], PutStatement (Some ''Bearer key'') None (JStr ''started''))]"])
  show "launches_read_back lesson_env" by (simp add: launches_read_back_def lesson_env_def)
  show "kx_statements lesson_db = []" by (simp add: lesson_db_def)
  show "lesson_begun = run_events (cmi5_step lesson_env) [(lesson_call 0 ''key'', FetchSession (Some ''fetch'')),
    (lesson_call 10 [], PutStatement (Some ''Bearer key'') None (JStr ''started''))] lesson_db"
    by (simp only: run_events.simps lesson_fetch lesson_start)
  show "\<not> completed_for 1 7 (kx_training lesson_begun)"
    by (simp add: lesson_begun_def lesson_opened_def lesson_db_def reader_shop_def completed_for_def)
qed (simp_all only: lesson_pass cmi5_request.distinct not_False_eq_True simp_thms)

end
