(* ===== verification/Cmi5_Sessions.thy ===== *)
theory Cmi5_Sessions
  imports Cmi5_Grants
begin

text \<open>
  A fetch token buys one session, whatever happens in between; and a step that comes to require an assessment
  after a unit was bound to it is still completed by the course.
\<close>

section \<open>Fetch tokens\<close>

definition spent :: "string \<Rightarrow> cmi5_db \<Rightarrow> bool" where
  "spent h db \<longleftrightarrow> h \<in> set (map kt_fetch_hash (kx_tokens db)) \<and> (\<forall>t \<in> set (kx_tokens db). kt_fetch_hash t = h \<longrightarrow> kt_consumed_at t \<noteq> None)"

definition one_token_each :: "cmi5_db \<Rightarrow> bool" where
  "one_token_each db \<longleftrightarrow> distinct (map kt_fetch_hash (kx_tokens db))"

lemma after_service_tokens:
  "kx_tokens (snd r) = T \<Longrightarrow> (\<And>x db. kx_tokens (snd (k x db)) = kx_tokens db) \<Longrightarrow> kx_tokens (snd (after_service v r k)) = T"
  by (cases r) (auto simp: serviced split: sum.split)

lemma recorded_tokens: "kx_tokens (snd (record_statement v cx sx fresh hint raw db)) = kx_tokens db"
proof -
  obtain r db' where run: "record_statement v cx sx fresh hint raw db = (r, db')" by fastforce
  then have "db' = db \<or> (\<exists>a s m t. grant_if_satisfied cx sx a s m (db\<lparr>kx_statements := kx_statements db @ [t]\<rparr>) = (r, db'))"
    by (auto simp: record_statement_def Let_def store_statement_def split: sum.splits if_splits prod.splits option.splits)
  then show ?thesis using grant_satisfied(4) by (fastforce simp: run)
qed

lemma applied_tokens: "kx_tokens (snd (record_and_apply v cx sx fresh hint raw db)) = kx_tokens db"
  unfolding record_and_apply_def
  by (rule after_service_tokens [OF recorded_tokens]) (auto simp: apply_grant_def split: option.split)

lemma batch_tokens: "kx_tokens (snd (post_batch v cx sx n ids items db)) = kx_tokens db"
proof (induction v cx sx n ids items db rule: post_batch.induct)
  case (2 v cx sx n ids item items db)
  obtain r db1 where one: "record_and_apply v cx sx (kl_fresh cx n) (item_id v item) item db = (r, db1)" by fastforce
  have "kx_tokens db1 = kx_tokens db" using applied_tokens [of v cx sx "kl_fresh cx n" "item_id v item" item db] one by simp
  then show ?case using "2.IH" [OF one [symmetric]] by (cases r) (simp_all add: one)
qed simp

text \<open>What a request does to the tokens: nothing, one more with a hash of its own, or the claim of one.\<close>

definition tokens_step :: "cmi5_db \<Rightarrow> cmi5_db \<Rightarrow> bool" where
  "tokens_step db db' \<longleftrightarrow> kx_tokens db' = kx_tokens db \<or>
     (\<exists>t. kx_tokens db' = kx_tokens db @ [t] \<and> kt_fetch_hash t \<notin> kt_fetch_hash ` set (kx_tokens db)) \<or>
     (\<exists>h now se. kx_tokens db' = map (\<lambda>t. if fetch_open h now t then t\<lparr>kt_consumed_at := Some now, kt_session_hash := se\<rparr> else t)
        (kx_tokens db))"

lemma tokens_step_same: "kx_tokens db' = kx_tokens db \<Longrightarrow> tokens_step db db'"
  by (simp add: tokens_step_def)

lemma fetch_tokens: "tokens_step db (snd (consume_fetch v cx h db))"
  by (auto simp: consume_fetch_def tokens_step_def Let_def)

lemma launch_tokens: "tokens_step db (snd (create_launch v cx aid uid db))"
proof -
  obtain r db' where run: "create_launch v cx aid uid db = (r, db')" by fastforce
  from launched [OF run] show ?thesis
    by (fastforce simp: run tokens_step_def same_sessions_def list_ex_iff)
qed

lemma request_tokens: "tokens_step db (cmi5_step v (cx, rq) db)"
proof -
  have service: "tokens_step db (snd (after_service v r (\<lambda>y db. (Inr (g y db), cmi5_log e s a db))))"
    if "tokens_step db (snd r)" for r :: "'x cmi5_result" and g :: "'x \<Rightarrow> cmi5_db \<Rightarrow> 'y" and e s a
    using that by (cases r) (auto simp: serviced tokens_step_def split: sum.split)
  have same: "tokens_step db (snd r)" if "same_sessions db (snd r)" for r :: "'x cmi5_result"
    using that by (simp add: tokens_step_def same_sessions_def)
  have content: "tokens_step db (as_content v cx h k db)"
    if "\<And>sx. kx_tokens (snd (k sx db)) = kx_tokens db" for h and k :: "session_context \<Rightarrow> cmi5_db \<Rightarrow> 'x cmi5_answer"
    using that by (simp add: as_content_def tokens_step_def split: sum.split)
  have refl: "tokens_step db db" by (rule tokens_step_same) simp
  show ?thesis
  proof (cases rq)
    case (ImportCourse me upload)
    then show ?thesis
      using refl by (cases upload) (simp_all add: routed_def import_course_def when_enabled_def service [OF same [OF imported]])
  next
    case (DeleteCourse me cid)
    then show ?thesis
      using refl by (simp add: routed_def delete_course_route_def when_enabled_def service [OF same [OF deleted_course]])
  next
    case (AssignUnit me aid st)
    then show ?thesis
      using refl by (simp add: routed_def assign_au_step_route_def when_enabled_def service [OF same [OF assigned]])
  next
    case (LaunchUnit me aid)
    then show ?thesis
      using refl by (simp add: routed_def launch_au_def when_enabled_def service [OF launch_tokens])
  next
    case (FetchSession token)
    have "tokens_step db db'" if "consume_fetch v cx t db = (r, db')" for t r db'
      using fetch_tokens [of db v cx t] that by simp
    then show ?thesis
      using refl by (auto simp: FetchSession fetch_credential_def split: option.split prod.split sum.split)
  next
    case (PutStatement h hint body)
    have "kx_tokens (snd (lrs_put_statement v cx sx hint body db)) = kx_tokens db" for sx
      by (simp add: lrs_put_statement_def when_enabled_def applied_tokens)
    then show ?thesis unfolding PutStatement cmi5_step.simps by (rule content)
  next
    case (PostStatement h body)
    have "kx_tokens (snd (lrs_post_statement v cx sx body db)) = kx_tokens db" for sx
      by (simp add: lrs_post_statement_def when_enabled_def batch_tokens)
    then show ?thesis unfolding PostStatement cmi5_step.simps by (rule content)
  next
    case (PutState h sid body)
    have "kx_tokens (snd (lrs_put_state v sx sid body db)) = kx_tokens db" for sx
      by (simp add: lrs_put_state_def when_enabled_def with_state_id_def serviced_only put_state_document_def split: option.split)
    then show ?thesis unfolding PutState cmi5_step.simps by (rule content)
  next
    case (DeleteState h sid)
    have "kx_tokens (snd (lrs_delete_state v sx sid db)) = kx_tokens db" for sx
      by (simp add: lrs_delete_state_def when_enabled_def with_state_id_def delete_state_document_def split: option.split)
    then show ?thesis unfolding DeleteState cmi5_step.simps by (rule content)
  next
    case (TrainingRequest tc tr)
    then show ?thesis by (simp add: tokens_step_same trained)
  qed
qed

lemma claimed_fields:
  "map kt_fetch_hash (map (\<lambda>t. if fetch_open h now t then t\<lparr>kt_consumed_at := Some now, kt_session_hash := se\<rparr> else t) ts) =
     map kt_fetch_hash ts"
  by simp

lemma spent_step: "tokens_step db db' \<Longrightarrow> spent h db \<Longrightarrow> spent h db'"
  unfolding tokens_step_def
  by (elim disjE exE conjE) (auto simp: spent_def claimed_fields simp del: set_map map_map, auto)

lemma one_token_step: "tokens_step db db' \<Longrightarrow> one_token_each db \<Longrightarrow> one_token_each db'"
  unfolding tokens_step_def one_token_each_def using claimed_fields by (auto simp del: map_map)

interpretation spent_tokens: guarded_fact "cmi5_step v" spent "\<lambda>_ _. False" for v
  by unfold_locales (metis request_tokens spent_step surj_pair)

interpretation token_table: preserved "cmi5_step v" one_token_each for v
  by unfold_locales (metis request_tokens one_token_step surj_pair)

lemma fetch_spends:
  assumes "consume_fetch v cx token db = (Inr session, db')" "one_token_each db"
  shows "spent (kv_sha256 v token) db'"
proof -
  let ?h = "kv_sha256 v token"
  have one: "length (filter (fetch_open ?h (kl_now cx)) (kx_tokens db)) = 1"
    and db': "kx_tokens db' = map (\<lambda>t. if fetch_open ?h (kl_now cx) t
      then t\<lparr>kt_consumed_at := Some (kl_now cx), kt_session_hash := Some (kv_sha256 v (kl_token cx))\<rparr> else t) (kx_tokens db)"
    using assms(1) by (auto simp: consume_fetch_def Let_def split: if_splits)
  obtain t where t: "t \<in> set (kx_tokens db)" "fetch_open ?h (kl_now cx) t"
    using one by (metis filter_False length_0_conv zero_neq_one)
  have same: "u = t" if "u \<in> set (kx_tokens db)" "kt_fetch_hash u = ?h" for u
    using that t assms(2) by (simp add: one_token_each_def distinct_map fetch_open_def) (metis inj_onD)
  have "?h \<in> set (map kt_fetch_hash (kx_tokens db'))"
    unfolding db' claimed_fields using t by (force simp: fetch_open_def)
  moreover have "kt_consumed_at u' \<noteq> None" if u': "u' \<in> set (kx_tokens db')" "kt_fetch_hash u' = ?h" for u'
  proof -
    obtain u where u: "u \<in> set (kx_tokens db)"
      "u' = (if fetch_open ?h (kl_now cx) u
         then u\<lparr>kt_consumed_at := Some (kl_now cx), kt_session_hash := Some (kv_sha256 v (kl_token cx))\<rparr> else u)"
      using u'(1) unfolding db' by auto
    then have "kt_fetch_hash u = ?h" using u'(2) by (simp split: if_splits)
    then have "u = t" by (rule same [OF u(1)])
    then show ?thesis using u(2) t(2) by simp
  qed
  ultimately show ?thesis unfolding spent_def by blast
qed

lemma spent_is_refused: "spent (kv_sha256 v token) db \<Longrightarrow> consume_fetch v cx token db = (Inl FetchTokenInvalid, db)"
  by (auto simp: spent_def consume_fetch_def Let_def fetch_open_def filter_empty_conv)

text \<open>
  C33. Once a fetch token has been exchanged for a session, it never is again: whatever requests follow, and at
  whatever time, the exchange answers that the token is unknown, already used or expired, and changes nothing.
\<close>

theorem a_fetch_token_is_used_once:
  assumes "distinct (map kt_fetch_hash (kx_tokens start))"
    and "consume_fetch v cx token (run_events (cmi5_step v) before start) = (Inr session, db)"
  shows "consume_fetch v cx' token (run_events (cmi5_step v) since db) = (Inl FetchTokenInvalid, run_events (cmi5_step v) since db)"
proof -
  have "one_token_each (run_events (cmi5_step v) before start)"
    using token_table.run_keeps [of start v before] assms(1) by (simp add: one_token_each_def)
  from fetch_spends [OF assms(2) this] show ?thesis
    by (intro spent_is_refused spent_tokens.run_guarded) simp_all
qed

theorem a_fetch_token_is_used_once_witness:
  "consume_fetch lesson_env (lesson_call 30 ''other'') ''fetch''
     (run_events (cmi5_step lesson_env) [(lesson_call 10 [], PutStatement (Some ''Bearer key'') None (JStr ''started''))]
       (snd (consume_fetch lesson_env (lesson_call 0 ''key'') ''fetch'' lesson_db))) =
   (Inl FetchTokenInvalid,
    run_events (cmi5_step lesson_env) [(lesson_call 10 [], PutStatement (Some ''Bearer key'') None (JStr ''started''))]
       (snd (consume_fetch lesson_env (lesson_call 0 ''key'') ''fetch'' lesson_db)))"
  by (rule a_fetch_token_is_used_once [where before = "[]" and start = lesson_db and session = "''key''" and cx = "lesson_call 0 ''key''"])
    (simp_all add: lesson_defs consume_fetch_def fetch_open_def Let_def)

section \<open>A step that comes to require an assessment\<close>

lemma bound_by: "assign_au_step aid (Some sid) db = (Inr a, db1) \<Longrightarrow>
    db1 = bind_unit aid (Some sid) db \<and> unit_by_id db aid \<noteq> None \<and> get_training_step_by_id (kx_training db) sid \<noteq> None"
  by (auto simp: assign_au_step_def split: option.splits sum.splits)

lemma unit_bound:
  assumes "unit_by_id db aid = Some a"
  shows "unit_by_id (bind_unit aid (Some sid) db) aid = Some (a\<lparr>ka_step_id := Some sid\<rparr>)"
proof -
  have "find (\<lambda>x. ka_id x = aid) (map (\<lambda>x. if ka_id x = aid then x\<lparr>ka_step_id := Some sid\<rparr> else x) xs) =
    map_option (\<lambda>x. x\<lparr>ka_step_id := Some sid\<rparr>) (find (\<lambda>x. ka_id x = aid) xs)" for xs :: "cmi5_unit list"
    by (induction xs) auto
  then show ?thesis using assms by (simp add: unit_by_id_def bind_unit_def)
qed

lemma step_edited:
  assumes "update_training_step sid u tdb = (Inr s, tdb')"
  shows "get_training_step_by_id tdb' sid = Some s \<and> td_progress tdb' = td_progress tdb \<and>
    user_exists tdb' = user_exists tdb \<and> (uts_requires_assessment u = Some True \<longrightarrow> ts_requires_assessment s)"
proof -
  obtain e where e: "get_training_step_by_id tdb sid = Some e" "s = edited_step u e"
    and t: "tdb' = tdb\<lparr>td_steps := map (\<lambda>t. if ts_id t = sid then edited_step u t else t) (td_steps tdb)\<rparr>"
    using assms by (auto simp: update_training_step_def update_training_step_row_def after_db_def split: option.splits sum.splits)
  have "find (\<lambda>t. ts_id t = sid) (map (\<lambda>t. if ts_id t = sid then edited_step u t else t) xs) =
    map_option (edited_step u) (find (\<lambda>t. ts_id t = sid) xs)" for xs
    by (induction xs) (auto simp: edited_step_def)
  then show ?thesis
    using e by (auto simp: t get_training_step_by_id_def user_exists_def fun_eq_iff edited_step_def)
qed

definition reader_assessed :: update_training_step_fields where
  "reader_assessed = \<lparr>uts_step_name = None, uts_description = None, uts_training_materials_url = None,
     uts_requires_assessment = Some True, uts_assessment_type = None, uts_duration_minutes = None,
     uts_expires_after_days = None, uts_self_attestable = Some False\<rparr>"

text \<open>
  A unit may not be bound to a step that requires an assessment, but a step may come to require one after a
  unit was bound to it: the binding stays, the same binding would now be refused, and the first member who
  satisfies the unit is still granted the step.
\<close>

lemma assessment_added_after_binding_is_ignored:
  assumes "assign_au_step aid (Some sid) db = (Inr a, db1)"
    and "update_training_step sid u (kx_training db1) = (Inr s, tdb)" "uts_requires_assessment u = Some True"
    and "user_exists tdb (sx_user_id sx)" "get_user_training_progress_for_step tdb (sx_user_id sx) sid = None"
  shows "ts_requires_assessment s \<and> get_training_step_by_id tdb sid = Some s \<and>
    assign_au_step aid (Some sid) (db1\<lparr>kx_training := tdb\<rparr>) = (Inl StepRequiresAssessment, db1\<lparr>kx_training := tdb\<rparr>) \<and>
    (\<exists>b. unit_by_id (db1\<lparr>kx_training := tdb\<rparr>) aid = Some b \<and> ka_step_id b = Some sid \<and>
      completed_for (sx_user_id sx) sid (kx_training (snd (grant_step cx sid sx b score (db1\<lparr>kx_training := tdb\<rparr>)))))"
proof -
  obtain b0 where b0: "unit_by_id db aid = Some b0" and db1: "db1 = bind_unit aid (Some sid) db"
    using bound_by [OF assms(1)] by blast
  let ?b = "b0\<lparr>ka_step_id := Some sid\<rparr>"
  have b: "unit_by_id (db1\<lparr>kx_training := tdb\<rparr>) aid = Some ?b"
    using unit_bound [OF b0, of sid] by (simp add: db1 unit_by_id_def)
  have s: "get_training_step_by_id tdb sid = Some s" "ts_requires_assessment s"
    using step_edited [OF assms(2)] assms(3) by simp_all
  have "completed_for (sx_user_id sx) sid (kx_training (snd (grant_step cx sid sx ?b score (db1\<lparr>kx_training := tdb\<rparr>))))"
    using first_row [OF assms(5,4,4), of "kl_now cx" "Some (''Completed via cmi5 module '' @ ka_iri ?b)"] s
    by (simp add: grant_step_def completed_for_def new_progress_def)
  moreover have "assign_au_step aid (Some sid) (db1\<lparr>kx_training := tdb\<rparr>) = (Inl StepRequiresAssessment, db1\<lparr>kx_training := tdb\<rparr>)"
    using b s by (simp add: assign_au_step_def may_bind_def)
  ultimately show ?thesis using b s by auto
qed

end
