(* ===== verification/Merge.thy ===== *)
theory Merge
  imports Rbac Text Api_Errors Ledger
begin

text \<open>
  Folding one account into another (\<^verbatim>\<open>server/src/user_merge.rs\<close>, the merge routes of \<^verbatim>\<open>server/src/api/admin.rs\<close>).
  The code builds its queries from lists of tables and columns, so the tables are rows of named columns.
  The users table, whose columns it reads by field, is a list of records with the columns a merge reads or
  writes. A statement of SQL is a function of
  the rows; the texts and JSON forms that libraries print, the clock, the id the database gives the record of the merge and
  whether the audit row is stored are in \<open>merge_env\<close>.
\<close>

section \<open>Tables\<close>

datatype sql_value =
    SqlNull
  | SqlUuid uuid
  | SqlText string
  | SqlBool bool
  | SqlTime instant
  | SqlAmount rat
  | SqlJson json

type_synonym sql_row = "string \<Rightarrow> sql_value"
type_synonym sql_tables = "string \<Rightarrow> sql_row list"

text \<open>Two columns are equal in SQL when they hold the same value and it is not null.\<close>

definition sql_eq :: "sql_value \<Rightarrow> sql_value \<Rightarrow> bool" where
  "sql_eq x y \<longleftrightarrow> x = y \<and> x \<noteq> SqlNull"

record merge_user =
  mu_id :: uuid
  mu_username :: string
  mu_email :: string
  mu_full_name :: string
  mu_is_active :: bool
  mu_profile :: json
  mu_mfa_enrolled_at :: "instant option"
  mu_mailing_list_opt_out_at :: "instant option"
  mu_membership_next_due_at :: "instant option"
  mu_token_version :: int
  mu_updated_at :: instant

record merge_db =
  mg_users :: "merge_user list"
  mg_tables :: sql_tables

record merge_env =
  me_now :: instant
  me_fresh :: uuid
  me_audit_stored :: bool
  me_show_uuid :: "uuid \<Rightarrow> string"
  me_time_text :: "instant \<Rightarrow> string"
  me_show_date :: "instant \<Rightarrow> string"
  me_debug :: "string \<Rightarrow> string"
  me_user_json :: "merge_user \<Rightarrow> json"
  me_moves_json :: "(string \<rightharpoonup> nat) \<Rightarrow> json"

definition PLAIN :: "(string \<times> string) list" where
  "PLAIN =
     [(''alert_acknowledgements'', ''user_id''), (''audit_logs'', ''user_id''), (''audit_logs'', ''actor_id''),
      (''cmi5_courses'', ''imported_by''), (''cmi5_registrations'', ''user_id''), (''door_access_events'', ''user_id''),
      (''door_checkins'', ''user_id''), (''doors'', ''created_by''), (''home_links'', ''created_by''),
      (''membership_ledger'', ''user_id''), (''membership_ledger'', ''created_by''), (''power_circuits'', ''locked_out_by''),
      (''profile_config_versions'', ''created_by''), (''schedules'', ''created_by''), (''resource_sessions'', ''user_id''),
      (''space_device_auth_requests'', ''created_by''), (''tool_events'', ''user_id''), (''tool_events'', ''actor_id''),
      (''tool_tier_assignments'', ''assigned_by''), (''tool_training_types'', ''created_by''),
      (''tool_usage_sessions'', ''user_id''), (''tools'', ''created_by''), (''training_instructors'', ''certified_by''),
      (''training_steps'', ''created_by''), (''training_waivers'', ''waived_by''), (''user_cards'', ''user_id''),
      (''user_merges'', ''survivor_id''), (''user_merges'', ''actor_id''), (''user_mfa_recovery_codes'', ''user_id''),
      (''user_mfa_totp'', ''user_id''), (''user_mfa_webauthn'', ''user_id''), (''user_stripe_customers'', ''user_id''),
      (''user_tool_training'', ''trainer_id''), (''user_training_progress'', ''instructor_id''),
      (''webhook_auth_headers'', ''created_by''), (''webhooks'', ''created_by'')]"

definition UNIQUE_PAIRS :: "(string \<times> string) list" where
  "UNIQUE_PAIRS =
     [(''tool_tier_assignments'', ''tool_id''), (''training_instructors'', ''training_step_id''),
      (''training_waivers'', ''tool_id''), (''user_tool_training'', ''training_type_id''),
      (''user_training_progress'', ''training_step_id'')]"

text \<open>The tables and columns of \<^verbatim>\<open>SPECIAL\<close> and \<^verbatim>\<open>DROPPED\<close>; the reasons they carry are text.\<close>

definition SPECIAL :: "(string \<times> string) list" where
  "SPECIAL = [(''user_roles'', ''user_id''), (''user_emails'', ''user_id'')]"

definition DROPPED :: "(string \<times> string) list" where
  "DROPPED = [(''password_reset_tokens'', ''user_id''), (''email_verification_tokens'', ''user_id'')]"

definition TEXT_REFS :: "(string \<times> string) list" where
  "TEXT_REFS = [(''cmi5_registrations'', ''actor_account_name''), (''cmi5_state_documents'', ''agent_account_name'')]"

section \<open>What a merge would do\<close>

record merge_warning =
  mw_code :: string
  mw_detail :: string

record merge_party =
  mp_id :: uuid
  mp_username :: string
  mp_email :: string
  mp_full_name :: string

definition party_of :: "merge_user \<Rightarrow> merge_party" where
  "party_of u = \<lparr>mp_id = mu_id u, mp_username = mu_username u, mp_email = mu_email u, mp_full_name = mu_full_name u\<rparr>"

record merge_plan =
  pl_survivor :: merge_party
  pl_absorbed :: merge_party
  pl_moves :: "string \<rightharpoonup> nat"
  pl_warnings :: "merge_warning list"

definition warning_codes :: "merge_plan \<Rightarrow> string set" where
  "warning_codes p = set (map mw_code (pl_warnings p))"

text \<open>\<^verbatim>\<open>SELECT count(*)\<close> of the rows with a property, and the entry it makes in the moves.\<close>

definition rows_with :: "(sql_row \<Rightarrow> bool) \<Rightarrow> sql_row list \<Rightarrow> nat" where
  "rows_with P rows = length (filter P rows)"

definition note_moves :: "string \<Rightarrow> nat \<Rightarrow> (string \<rightharpoonup> nat) \<Rightarrow> (string \<rightharpoonup> nat)" where
  "note_moves k n moves = (if 0 < n then moves(k \<mapsto> n) else moves)"

definition column_key :: "string \<times> string \<Rightarrow> string" where
  "column_key tc = fst tc @ ''.'' @ snd tc"

definition held_by :: "sql_row list \<Rightarrow> uuid \<Rightarrow> string \<Rightarrow> sql_value \<Rightarrow> bool" where
  "held_by rows s key k \<longleftrightarrow> (\<exists>x \<in> set rows. x ''user_id'' = SqlUuid s \<and> sql_eq (x key) k)"

definition pair_movable :: "string \<Rightarrow> uuid \<Rightarrow> uuid \<Rightarrow> sql_row list \<Rightarrow> sql_row \<Rightarrow> bool" where
  "pair_movable key s a rows r \<longleftrightarrow> r ''user_id'' = SqlUuid a \<and> \<not> held_by rows s key (r key)"

definition pair_colliding :: "string \<Rightarrow> uuid \<Rightarrow> uuid \<Rightarrow> sql_row list \<Rightarrow> sql_row \<Rightarrow> bool" where
  "pair_colliding key s a rows r \<longleftrightarrow> r ''user_id'' = SqlUuid a \<and> held_by rows s key (r key)"

definition warn_if :: "bool \<Rightarrow> string \<Rightarrow> string \<Rightarrow> merge_warning list" where
  "warn_if c code detail = (if c then [\<lparr>mw_code = code, mw_detail = detail\<rparr>] else [])"

abbreviation apostrophe :: string where "apostrophe \<equiv> [CHR 0x27]"

definition pair_warning :: "sql_tables \<Rightarrow> uuid \<Rightarrow> uuid \<Rightarrow> string \<times> string \<Rightarrow> merge_warning list" where
  "pair_warning T s a tk =
     (let n = rows_with (pair_colliding (snd tk) s a (T (fst tk))) (T (fst tk)) in
      warn_if (0 < n) (''duplicate_'' @ fst tk)
        (show_nat n @ '' row(s) in '' @ fst tk @ '' exist for the same '' @ snd tk @ '' on both accounts; '' @
         ''the survivor'' @ apostrophe @ ''s are kept and the absorbed account'' @ apostrophe @ ''s are discarded''))"

definition roles_of :: "sql_tables \<Rightarrow> uuid \<Rightarrow> uuid list" where
  "roles_of T u =
     List.map_filter (\<lambda>r. if r ''user_id'' = SqlUuid u then (case r ''role_id'' of SqlUuid i \<Rightarrow> Some i | _ \<Rightarrow> None) else None)
       (T ''user_roles'')"

definition user_rule :: "string \<Rightarrow> sql_row \<Rightarrow> bool" where
  "user_rule who r \<longleftrightarrow> r ''kind'' = SqlText ''user'' \<and> r ''value'' = SqlText who"

definition conflicting_rules :: "sql_row list \<Rightarrow> string \<Rightarrow> string \<Rightarrow> nat" where
  "conflicting_rules rules s a =
     length (filter (\<lambda>(x, y). user_rule a x \<and> user_rule s y \<and> sql_eq (y ''resource_id'') (x ''resource_id'') \<and>
                              x ''effect'' \<noteq> y ''effect'')
       (List.product rules rules))"

definition profile_fields :: "json \<Rightarrow> (string \<times> json) list option" where
  "profile_fields j = (case j of JObj kvs \<Rightarrow> Some kvs | _ \<Rightarrow> None)"

definition profile_conflicts :: "json \<Rightarrow> json \<Rightarrow> string list" where
  "profile_conflicts survivor absorbed =
     (case (profile_fields survivor, profile_fields absorbed) of
        (Some s, Some a) \<Rightarrow> map fst (filter (\<lambda>(k, v). is_some_and (map_of s k) (\<lambda>sv. sv \<noteq> v)) a)
      | _ \<Rightarrow> [])"

definition merged_profile :: "json \<Rightarrow> json \<Rightarrow> json" where
  "merged_profile survivor absorbed =
     (case (profile_fields survivor, profile_fields absorbed) of
        (Some s, Some a) \<Rightarrow> JObj (s @ filter (\<lambda>(k, _). map_of s k = None) a)
      | _ \<Rightarrow> survivor)"

fun joined :: "string list \<Rightarrow> string" where
  "joined [] = []"
| "joined [x] = x"
| "joined (x # xs) = x @ '', '' @ joined xs"

text \<open>\<^verbatim>\<open>coalesce(max(created_at)::text, '')\<close>; text is compared byte by byte.\<close>

definition last_login :: "merge_env \<Rightarrow> sql_tables \<Rightarrow> uuid \<Rightarrow> string" where
  "last_login v T u =
     (let times = List.map_filter (\<lambda>r. case r ''created_at'' of SqlTime t \<Rightarrow> Some t | _ \<Rightarrow> None)
        (filter (\<lambda>r. r ''event_type'' = SqlText ''user_login'' \<and> r ''user_id'' = SqlUuid u) (T ''audit_logs''))
      in if times = [] then [] else me_time_text v (Max (set times)))"

definition open_sessions :: "sql_tables \<Rightarrow> uuid \<Rightarrow> nat" where
  "open_sessions T u =
     rows_with (\<lambda>r. r ''status'' = SqlText ''open'' \<and> r ''user_id'' = SqlUuid u) (T ''tool_usage_sessions'') +
     rows_with (\<lambda>r. r ''closed_at'' = SqlNull \<and> r ''user_id'' = SqlUuid u) (T ''resource_sessions'')"

definition differing_tiers :: "sql_row list \<Rightarrow> uuid \<Rightarrow> uuid \<Rightarrow> nat" where
  "differing_tiers rows s a =
     length (filter (\<lambda>(x, y). y ''user_id'' = SqlUuid s \<and> sql_eq (y ''tool_id'') (x ''tool_id'') \<and> x ''user_id'' = SqlUuid a \<and>
                              x ''tier_id'' \<noteq> y ''tier_id'')
       (List.product rows rows))"

definition unused_codes :: "sql_tables \<Rightarrow> uuid \<Rightarrow> nat" where
  "unused_codes T u = rows_with (\<lambda>r. r ''used_at'' = SqlNull \<and> r ''user_id'' = SqlUuid u) (T ''user_mfa_recovery_codes'')"

definition role_warning :: "role_graph \<Rightarrow> sql_tables \<Rightarrow> uuid \<Rightarrow> uuid \<Rightarrow> merge_warning list" where
  "role_warning g T s a =
     (let before = effective_level g (roles_of T s); after = effective_level g (roles_of T s @ roles_of T a) in
      warn_if (before < after) ''roles_raise_level''
        (''the absorbed account'' @ apostrophe @ ''s roles raise the survivor'' @ apostrophe @ ''s effective level from '' @
         show_int before @ '' to '' @ show_int after))"

definition rule_warning :: "merge_env \<Rightarrow> sql_tables \<Rightarrow> uuid \<Rightarrow> uuid \<Rightarrow> merge_warning list" where
  "rule_warning v T s a =
     (let n = conflicting_rules (T ''access_rules'') (me_show_uuid v s) (me_show_uuid v a) in
      warn_if (0 < n) ''access_rule_conflict''
        (show_nat n @ '' resource(s) allow one account and deny the other; both rules are kept and deny wins''))"

text \<open>The warnings that are read off the two rows of the users table.\<close>

definition due_warning :: "merge_env \<Rightarrow> merge_user \<Rightarrow> merge_user \<Rightarrow> merge_warning list" where
  "due_warning v s a =
     (case (mu_membership_next_due_at s, mu_membership_next_due_at a) of
        (Some sd, Some ad) \<Rightarrow>
          warn_if (sd \<noteq> ad) ''next_due_mismatch''
            (''both accounts are enrolled with different renewal dates ('' @ me_show_date v sd @ '' vs '' @ me_show_date v ad @
             ''); the survivor'' @ apostrophe @ ''s is kept'')
      | (None, Some ad) \<Rightarrow>
          warn_if True ''next_due_adopted''
            (''only the absorbed account is enrolled in dues; its renewal date ('' @ me_show_date v ad @ '') is adopted'')
      | _ \<Rightarrow> [])"

definition account_warnings :: "merge_env \<Rightarrow> merge_user \<Rightarrow> merge_user \<Rightarrow> merge_warning list" where
  "account_warnings v s a =
     warn_if True ''absorbed_login_lost''
       (''the username '' @ me_debug v (mu_username a) @ '' and its password stop working; the survivor'' @ apostrophe @
        ''s credentials remain'') @
     warn_if (mu_full_name s \<noteq> mu_full_name a) ''full_name_differs''
       (''names differ ('' @ me_debug v (mu_full_name s) @ '' vs '' @ me_debug v (mu_full_name a) @ ''); the survivor'' @ apostrophe @
        ''s is kept'') @
     warn_if (\<not> mu_is_active a \<and> mu_is_active s) ''absorbed_inactive''
       ''the absorbed account is deactivated; its history joins an active account'' @
     warn_if (mu_is_active a \<and> \<not> mu_is_active s) ''survivor_inactive''
       (''the survivor is deactivated; the active account'' @ apostrophe @ ''s history joins an account that cannot sign in'') @
     warn_if (profile_conflicts (mu_profile s) (mu_profile a) \<noteq> []) ''profile_conflicts''
       (''profile fields differ and the survivor'' @ apostrophe @ ''s are kept: '' @
        joined (profile_conflicts (mu_profile s) (mu_profile a))) @
     warn_if ((mu_mailing_list_opt_out_at s = None) \<noteq> (mu_mailing_list_opt_out_at a = None)) ''opt_out_mismatch''
       (''one account opted out of the mailing list and the other did not; the survivor'' @ apostrophe @ ''s choice is kept'') @
     due_warning v s a"

definition activity_warnings :: "merge_env \<Rightarrow> sql_tables \<Rightarrow> uuid \<Rightarrow> uuid \<Rightarrow> merge_warning list" where
  "activity_warnings v T s a =
     (let s_login = last_login v T s; a_login = last_login v T a;
          tiers = differing_tiers (T ''tool_tier_assignments'') s a
      in warn_if (a_login \<noteq> [] \<and> s_login < a_login) ''absorbed_logged_in_more_recently''
           (''the absorbed account signed in more recently ('' @ a_login @ '') than the survivor ('' @
            (if s_login = [] then ''never'' else s_login) @ ''); check the survivor is the right way round'') @
         warn_if (0 < open_sessions T s \<and> 0 < open_sessions T a) ''open_sessions_both''
           ''both accounts have a tool or room session open right now; both move to the survivor'' @
         warn_if (0 < tiers) ''tier_differs''
           (show_nat tiers @ '' tool(s) have a different rate tier on each account; the survivor'' @ apostrophe @ ''s tier is kept'') @
         warn_if (0 < rows_with (\<lambda>r. r ''subscription_id'' \<noteq> SqlNull \<and> r ''user_id'' = SqlUuid a) (T ''user_stripe_customers''))
           ''absorbed_active_subscription''
           ''the absorbed account has a live Stripe subscription; it moves to the survivor, who may then be billed twice'' @
         warn_if (0 < unused_codes T s \<and> 0 < unused_codes T a) ''recovery_codes_union''
           ''both accounts hold unused recovery codes; both sheets will open the survivor until regenerated'')"

definition plain_moves :: "sql_tables \<Rightarrow> uuid \<Rightarrow> string \<rightharpoonup> nat" where
  "plain_moves T a =
     foldl (\<lambda>m tc. note_moves (column_key tc) (rows_with (\<lambda>r. r (snd tc) = SqlUuid a) (T (fst tc))) m) Map.empty PLAIN"

definition planned_moves :: "merge_env \<Rightarrow> sql_tables \<Rightarrow> uuid \<Rightarrow> uuid \<Rightarrow> string \<rightharpoonup> nat" where
  "planned_moves v T s a =
     (let m1 = foldl (\<lambda>m tk. note_moves (fst tk @ ''.user_id'')
             (rows_with (pair_movable (snd tk) s a (T (fst tk))) (T (fst tk))) m) (plain_moves T a) UNIQUE_PAIRS;
          m2 = foldl (\<lambda>m tc. note_moves (column_key tc)
             (rows_with (\<lambda>r. r (snd tc) = SqlText (me_show_uuid v a)) (T (fst tc))) m) m1 TEXT_REFS;
          m3 = note_moves ''user_roles.user_id'' (length (filter (\<lambda>r. r \<notin> set (roles_of T s)) (roles_of T a))) m2;
          m4 = note_moves ''user_emails.user_id'' (rows_with (\<lambda>r. r ''user_id'' = SqlUuid a) (T ''user_emails'')) m3
      in note_moves ''access_rules.value'' (rows_with (user_rule (me_show_uuid v a)) (T ''access_rules'')) m4)"

definition merge_plan_of :: "merge_env \<Rightarrow> role_graph \<Rightarrow> merge_user \<Rightarrow> merge_user \<Rightarrow> sql_tables \<Rightarrow> merge_plan" where
  "merge_plan_of v g survivor absorbed T =
     (let s = mu_id survivor; a = mu_id absorbed in
      \<lparr>pl_survivor = party_of survivor, pl_absorbed = party_of absorbed, pl_moves = planned_moves v T s a,
       pl_warnings = concat (map (pair_warning T s a) UNIQUE_PAIRS) @ role_warning g T s a @ rule_warning v T s a @
         account_warnings v survivor absorbed @ activity_warnings v T s a\<rparr>)"

section \<open>The merge\<close>

text \<open>\<^verbatim>\<open>UPDATE\<close> and \<^verbatim>\<open>DELETE\<close> of one table; an update notes how many rows it touched.\<close>

definition update_rows ::
    "string \<Rightarrow> string \<Rightarrow> (sql_row \<Rightarrow> bool) \<Rightarrow> (sql_row \<Rightarrow> sql_row) \<Rightarrow> sql_tables \<times> (string \<rightharpoonup> nat) \<Rightarrow>
     sql_tables \<times> (string \<rightharpoonup> nat)" where
  "update_rows t key P f Tm =
     ((fst Tm)(t := map (\<lambda>r. if P r then f r else r) (fst Tm t)), note_moves key (rows_with P (fst Tm t)) (snd Tm))"

definition delete_rows :: "string \<Rightarrow> (sql_row \<Rightarrow> bool) \<Rightarrow> sql_tables \<Rightarrow> sql_tables" where
  "delete_rows t P T = T(t := filter (\<lambda>r. \<not> P r) (T t))"

definition role_row :: "uuid \<Rightarrow> sql_row \<Rightarrow> sql_row" where
  "role_row s r = (\<lambda>_. SqlNull)(''user_id'' := SqlUuid s, ''role_id'' := r ''role_id'')"

definition move_roles :: "uuid \<Rightarrow> uuid \<Rightarrow> sql_tables \<times> (string \<rightharpoonup> nat) \<Rightarrow> sql_tables \<times> (string \<rightharpoonup> nat)" where
  "move_roles s a Tm =
     (let rows = fst Tm ''user_roles'';
          fresh = map (role_row s) (filter (pair_movable ''role_id'' s a rows) rows)
      in (delete_rows ''user_roles'' (\<lambda>r. r ''user_id'' = SqlUuid a) ((fst Tm)(''user_roles'' := rows @ fresh)),
          note_moves ''user_roles.user_id'' (length fresh) (snd Tm)))"

definition move_pair ::
    "uuid \<Rightarrow> uuid \<Rightarrow> string \<times> string \<Rightarrow> sql_tables \<times> (string \<rightharpoonup> nat) \<Rightarrow> sql_tables \<times> (string \<rightharpoonup> nat)" where
  "move_pair s a tk Tm =
     (let moved = update_rows (fst tk) (fst tk @ ''.user_id'') (pair_movable (snd tk) s a (fst Tm (fst tk)))
        (\<lambda>r. r(''user_id'' := SqlUuid s)) Tm
      in (delete_rows (fst tk) (\<lambda>r. r ''user_id'' = SqlUuid a) (fst moved), snd moved))"

definition move_plain ::
    "uuid \<Rightarrow> uuid \<Rightarrow> string \<times> string \<Rightarrow> sql_tables \<times> (string \<rightharpoonup> nat) \<Rightarrow> sql_tables \<times> (string \<rightharpoonup> nat)" where
  "move_plain s a tc =
     update_rows (fst tc) (column_key tc) (\<lambda>r. r (snd tc) = SqlUuid a) (\<lambda>r. r(snd tc := SqlUuid s))"

definition move_text ::
    "string \<Rightarrow> string \<Rightarrow> string \<times> string \<Rightarrow> sql_tables \<times> (string \<rightharpoonup> nat) \<Rightarrow> sql_tables \<times> (string \<rightharpoonup> nat)" where
  "move_text s a tc =
     update_rows (fst tc) (column_key tc) (\<lambda>r. r (snd tc) = SqlText a) (\<lambda>r. r(snd tc := SqlText s))"

definition rule_movable :: "string \<Rightarrow> string \<Rightarrow> sql_row list \<Rightarrow> sql_row \<Rightarrow> bool" where
  "rule_movable s a rules r \<longleftrightarrow> user_rule a r \<and>
     \<not> (\<exists>x \<in> set rules. sql_eq (x ''resource_id'') (r ''resource_id'') \<and> user_rule s x \<and> sql_eq (x ''effect'') (r ''effect''))"

definition move_rules ::
    "string \<Rightarrow> string \<Rightarrow> sql_tables \<times> (string \<rightharpoonup> nat) \<Rightarrow> sql_tables \<times> (string \<rightharpoonup> nat)" where
  "move_rules s a Tm =
     (let moved = update_rows ''access_rules'' ''access_rules.value'' (rule_movable s a (fst Tm ''access_rules''))
        (\<lambda>r. r(''value'' := SqlText s)) Tm
      in (delete_rows ''access_rules'' (user_rule a) (fst moved), snd moved))"

definition move_emails :: "uuid \<Rightarrow> uuid \<Rightarrow> sql_tables \<times> (string \<rightharpoonup> nat) \<Rightarrow> sql_tables \<times> (string \<rightharpoonup> nat)" where
  "move_emails s a =
     update_rows ''user_emails'' ''user_emails.user_id'' (\<lambda>r. r ''user_id'' = SqlUuid a)
       (\<lambda>r. r(''user_id'' := SqlUuid s, ''is_primary'' := SqlBool False))"

definition repoint :: "merge_env \<Rightarrow> uuid \<Rightarrow> uuid \<Rightarrow> sql_tables \<Rightarrow> sql_tables \<times> (string \<rightharpoonup> nat)" where
  "repoint v s a T =
     move_emails s a (move_rules (me_show_uuid v s) (me_show_uuid v a)
       (fold (move_text (me_show_uuid v s) (me_show_uuid v a)) TEXT_REFS
         (fold (move_plain s a) PLAIN (fold (move_pair s a) UNIQUE_PAIRS (move_roles s a (T, Map.empty))))))"

definition survivor_row :: "merge_env \<Rightarrow> merge_user \<Rightarrow> merge_user \<Rightarrow> merge_user \<Rightarrow> merge_user" where
  "survivor_row v survivor absorbed u =
     u\<lparr>mu_profile := merged_profile (mu_profile survivor) (mu_profile absorbed),
       mu_membership_next_due_at :=
         (case mu_membership_next_due_at u of Some d \<Rightarrow> Some d | None \<Rightarrow> mu_membership_next_due_at absorbed),
       mu_token_version := mu_token_version u + 1, mu_updated_at := me_now v\<rparr>"

text \<open>
  Deleting the row of the users table takes the rows of the \<^verbatim>\<open>DROPPED\<close> tables with it. Every other table that
  names a user has been pointed elsewhere by then (\<open>repointed_tables_are_clean\<close> in \<open>Merge_Safety\<close>).
\<close>

definition delete_user_rows :: "uuid \<Rightarrow> sql_tables \<Rightarrow> sql_tables" where
  "delete_user_rows a = fold (\<lambda>tc. delete_rows (fst tc) (\<lambda>r. r (snd tc) = SqlUuid a)) DROPPED"

record merge_outcome =
  mo_merge_id :: uuid
  mo_survivor_id :: uuid
  mo_absorbed_id :: uuid
  mo_moved :: "string \<rightharpoonup> nat"
  mo_warnings :: "merge_warning list"

datatype merge_error =
    Unacknowledged merge_plan
  | MergeDb diesel_error string

definition without_password :: "json \<Rightarrow> json" where
  "without_password j =
     (case j of JObj kvs \<Rightarrow> JObj (filter (\<lambda>(k, _). k \<noteq> ''password_hash'') kvs) | _ \<Rightarrow> j)"

definition warnings_json :: "merge_warning list \<Rightarrow> json" where
  "warnings_json ws = JArr (map (\<lambda>w. JObj [(''code'', JStr (mw_code w)), (''detail'', JStr (mw_detail w))]) ws)"

definition merge_record ::
    "merge_env \<Rightarrow> uuid \<Rightarrow> merge_user \<Rightarrow> (string \<rightharpoonup> nat) \<Rightarrow> merge_warning list \<Rightarrow> uuid \<Rightarrow> sql_row" where
  "merge_record v s absorbed moved warnings actor =
     (\<lambda>_. SqlNull)
       (''id'' := SqlUuid (me_fresh v), ''survivor_id'' := SqlUuid s, ''absorbed_id'' := SqlUuid (mu_id absorbed),
        ''absorbed_username'' := SqlText (mu_username absorbed), ''absorbed_email'' := SqlText (mu_email absorbed),
        ''absorbed_snapshot'' := SqlJson (without_password (me_user_json v absorbed)),
        ''moved'' := SqlJson (me_moves_json v moved), ''warnings'' := SqlJson (warnings_json warnings),
        ''actor_id'' := SqlUuid actor, ''created_at'' := SqlTime (me_now v))"

definition execute ::
    "merge_env \<Rightarrow> role_graph \<Rightarrow> merge_user \<Rightarrow> merge_user \<Rightarrow> string set \<Rightarrow> uuid \<Rightarrow> merge_db \<Rightarrow>
     (merge_error, merge_outcome) result \<times> merge_db" where
  "execute v g survivor absorbed acknowledged actor db =
     (let plan = merge_plan_of v g survivor absorbed (mg_tables db); s = mu_id survivor; a = mu_id absorbed in
      if warning_codes plan \<noteq> acknowledged then (Inl (Unacknowledged plan), db)
      else
        let (T, moved) = repoint v s a (mg_tables db);
            users = map (\<lambda>u. if mu_id u = s then survivor_row v survivor absorbed u else u) (mg_users db)
        in if length (filter (\<lambda>u. mu_id u = a) users) \<noteq> 1
           then (Inl (MergeDb DieselNotFound ''Record not found''), db)
           else
             let U = delete_user_rows a T;
                 row = merge_record v s absorbed moved (pl_warnings plan) actor
             in (Inr \<lparr>mo_merge_id = me_fresh v, mo_survivor_id = s, mo_absorbed_id = a, mo_moved = moved,
                      mo_warnings = pl_warnings plan\<rparr>,
                 \<lparr>mg_users = filter (\<lambda>u. mu_id u \<noteq> a) users, mg_tables = U(''user_merges'' := U ''user_merges'' @ [row])\<rparr>))"

text \<open>
  \<^verbatim>\<open>DatabaseManager::merge_users\<close>: an unacknowledged plan is the inner result's error, a database error the
  outer's.
\<close>

definition merge_users_db ::
    "merge_env \<Rightarrow> role_graph \<Rightarrow> merge_user \<Rightarrow> merge_user \<Rightarrow> string set \<Rightarrow> uuid \<Rightarrow> merge_db \<Rightarrow>
     (database_error, (merge_plan, merge_outcome) result) result \<times> merge_db" where
  "merge_users_db v g survivor absorbed acknowledged actor db =
     (case execute v g survivor absorbed acknowledged actor db of
        (Inr outcome, db') \<Rightarrow> (Inr (Inr outcome), db')
      | (Inl (Unacknowledged plan), db') \<Rightarrow> (Inr (Inl plan), db')
      | (Inl (MergeDb e shown), db') \<Rightarrow> (Inl (Diesel e shown), db'))"

section \<open>The routes\<close>

definition find_merge_user :: "merge_db \<Rightarrow> uuid \<Rightarrow> merge_user option" where
  "find_merge_user db u = find (\<lambda>x. mu_id x = u) (mg_users db)"

definition party_level :: "role_graph \<Rightarrow> merge_db \<Rightarrow> uuid \<Rightarrow> int" where
  "party_level g db u = effective_level g (roles_of (mg_tables db) u)"

definition merge_parties ::
    "role_graph \<Rightarrow> merge_db \<Rightarrow> uuid \<Rightarrow> uuid \<Rightarrow> uuid \<Rightarrow> (api_error, merge_user \<times> merge_user) result" where
  "merge_parties g db actor survivor_id absorbed_id =
     (if survivor_id = absorbed_id then Inl (BadRequest ''an account cannot be merged into itself'')
      else if actor = survivor_id \<or> actor = absorbed_id
      then Inl (BadRequest ''you cannot merge your own account; ask another administrator'')
      else case find_merge_user db survivor_id of
        None \<Rightarrow> Inl (NotFound ''survivor not found'')
      | Some survivor \<Rightarrow>
          (case find_merge_user db absorbed_id of
             None \<Rightarrow> Inl (NotFound ''absorbed user not found'')
           | Some absorbed \<Rightarrow>
               let caller_level = party_level g db actor in
               if caller_level \<le> party_level g db survivor_id
               then Inl (Forbidden ''the survivor is at or above your own access level'')
               else if caller_level \<le> party_level g db absorbed_id
               then Inl (Forbidden ''the absorbed user is at or above your own access level'')
               else Inr (survivor, absorbed)))"

definition merge_preview ::
    "merge_env \<Rightarrow> role_graph \<Rightarrow> merge_db \<Rightarrow> uuid \<Rightarrow> uuid \<Rightarrow> uuid \<Rightarrow> (api_error, merge_plan) result" where
  "merge_preview v g db actor user_id absorbed_id =
     (case merge_parties g db actor user_id absorbed_id of
        Inl e \<Rightarrow> Inl e
      | Inr (survivor, absorbed) \<Rightarrow> Inr (merge_plan_of v g survivor absorbed (mg_tables db)))"

definition merge_audit :: "merge_env \<Rightarrow> merge_user \<Rightarrow> merge_user \<Rightarrow> uuid \<Rightarrow> merge_outcome \<Rightarrow> sql_row" where
  "merge_audit v survivor absorbed actor outcome =
     (\<lambda>_. SqlNull)
       (''event_type'' := SqlText ''user_merged'', ''user_id'' := SqlUuid (mu_id survivor), ''actor_id'' := SqlUuid actor,
        ''event_data'' := SqlJson (JObj
          [(''absorbed_email'', JStr (mu_email absorbed)), (''absorbed_id'', JStr (me_show_uuid v (mu_id absorbed))),
           (''absorbed_username'', JStr (mu_username absorbed)),
           (''acknowledged'', JArr (map (\<lambda>w. JStr (mw_code w)) (mo_warnings outcome))),
           (''merge_id'', JStr (me_show_uuid v (mo_merge_id outcome))), (''moved'', me_moves_json v (mo_moved outcome))]),
        ''created_at'' := SqlTime (me_now v))"

text \<open>
  The answer carries the outcome; its message and the broadcast of the coordinators' allow-lists are not part of
  it. The audit row is written after the transaction, and a failure to write it is only logged.
\<close>

definition merge_users ::
    "merge_env \<Rightarrow> role_graph \<Rightarrow> uuid \<Rightarrow> uuid \<Rightarrow> uuid \<Rightarrow> string list \<Rightarrow> merge_db \<Rightarrow>
     (api_error, merge_outcome) result \<times> merge_db" where
  "merge_users v g actor user_id absorbed_id acknowledged db =
     (case merge_parties g db actor user_id absorbed_id of
        Inl e \<Rightarrow> (Inl e, db)
      | Inr (survivor, absorbed) \<Rightarrow>
          (case merge_users_db v g survivor absorbed (set acknowledged) actor db of
             (Inl e, db') \<Rightarrow> (Inl (from_database_error e), db')
           | (Inr (Inl plan), db') \<Rightarrow>
               (Inl (Conflict (''every warning must be acknowledged before merging; the current set is: '' @
                  joined (sorted_list_of_set (warning_codes plan)))), db')
           | (Inr (Inr outcome), db') \<Rightarrow>
               (Inr outcome,
                if me_audit_stored v
                then db'\<lparr>mg_tables := (mg_tables db')
                  (''audit_logs'' := mg_tables db' ''audit_logs'' @ [merge_audit v survivor absorbed actor outcome])\<rparr>
                else db')))"

end
