(* ===== verification/Merge_Safety.thy ===== *)
theory Merge_Safety
  imports Merge Auth_Api
begin

text \<open>
  What a merge of two accounts guarantees: nothing names the absorbed account afterwards, its history and its
  balance are the survivor's, the pairs a unique index covers stay unique, and the survivor's level is raised
  only by an acknowledged warning. The last part is about second factors, which move without the flag that
  makes the login ask for them.
\<close>

section \<open>Steps over tables\<close>

definition absent :: "sql_value \<Rightarrow> string \<Rightarrow> string \<Rightarrow> sql_tables \<Rightarrow> bool" where
  "absent x t c T \<longleftrightarrow> (\<forall>r \<in> set (T t). r c \<noteq> x)"

lemma fold_table_keeps: "(\<And>y Tm. Q Tm \<Longrightarrow> Q (f y Tm)) \<Longrightarrow> Q Tm \<Longrightarrow> Q (fold f ys Tm)"
  by (induction ys arbitrary: Tm) auto

lemma fold_establishes:
  assumes "y \<in> set ys" "\<And>Tm. Q (f y Tm)" "\<And>z Tm. Q Tm \<Longrightarrow> Q (f z Tm)"
  shows "Q (fold f ys Tm)"
  using assms(1)
proof (induction ys arbitrary: Tm)
  case (Cons z ys)
  then show ?case
  proof (cases "z = y")
    case True
    then show ?thesis using fold_table_keeps [where Q = Q and f = f, OF assms(3) assms(2)] by simp
  qed auto
qed simp

lemma absent_delete: "absent x t c T \<Longrightarrow> absent x t c (delete_rows u P T)"
  by (auto simp: absent_def delete_rows_def)

lemma absent_deleted: "(\<And>r. r c = x \<Longrightarrow> P r) \<Longrightarrow> absent x t c (delete_rows t P T)"
  by (auto simp: absent_def delete_rows_def)

lemma absent_update:
  "absent x t c (fst Tm) \<Longrightarrow> (\<And>r. r c \<noteq> x \<Longrightarrow> f r c \<noteq> x) \<Longrightarrow> absent x t c (fst (update_rows u k P f Tm))"
  by (auto simp: absent_def update_rows_def)

lemma absent_updated:
  "(\<And>r. f r c \<noteq> x) \<Longrightarrow> absent x t c (fst (update_rows t k (\<lambda>r. r c = x) f Tm))"
  by (auto simp: absent_def update_rows_def)

text \<open>A value that the merge never writes stays absent wherever it is absent.\<close>

definition unwritten :: "uuid \<Rightarrow> string \<Rightarrow> sql_value \<Rightarrow> bool" where
  "unwritten s shown x \<longleftrightarrow> x \<notin> {SqlUuid s, SqlText shown, SqlBool False, SqlNull}"

lemma absent_roles:
  assumes "unwritten s shown x" "absent x t c (fst Tm)"
  shows "absent x t c (fst (move_roles s a Tm))"
proof -
  have f: "role_row s r c \<noteq> x" if "r c \<noteq> x" for r :: sql_row
    using that assms(1) by (cases "c = ''role_id''"; cases "c = ''user_id''") (auto simp: unwritten_def role_row_def)
  show ?thesis unfolding move_roles_def Let_def fst_conv
    by (rule absent_delete) (use assms(2) f in \<open>auto simp: absent_def\<close>)
qed

lemma absent_pair: "unwritten s shown x \<Longrightarrow> absent x t c (fst Tm) \<Longrightarrow> absent x t c (fst (move_pair s a tk Tm))"
  unfolding move_pair_def Let_def fst_conv
  by (intro absent_delete absent_update) (auto simp: unwritten_def)

lemma absent_plain: "unwritten s shown x \<Longrightarrow> absent x t c (fst Tm) \<Longrightarrow> absent x t c (fst (move_plain s a tc Tm))"
  unfolding move_plain_def by (intro absent_update) (auto simp: unwritten_def)

lemma absent_text: "unwritten s shown x \<Longrightarrow> absent x t c (fst Tm) \<Longrightarrow> absent x t c (fst (move_text shown b tc Tm))"
  unfolding move_text_def by (intro absent_update) (auto simp: unwritten_def)

lemma absent_rules: "unwritten s shown x \<Longrightarrow> absent x t c (fst Tm) \<Longrightarrow> absent x t c (fst (move_rules shown b Tm))"
  unfolding move_rules_def Let_def fst_conv
  by (intro absent_delete absent_update) (auto simp: unwritten_def)

lemma absent_emails: "unwritten s shown x \<Longrightarrow> absent x t c (fst Tm) \<Longrightarrow> absent x t c (fst (move_emails s a Tm))"
  unfolding move_emails_def by (intro absent_update) (auto simp: unwritten_def)

lemma absent_dropped: "absent x t c T \<Longrightarrow> absent x t c (delete_user_rows a T)"
  unfolding delete_user_rows_def by (rule fold_table_keeps [where Q = "absent x t c"]) (auto intro: absent_delete)

lemma plain_clears: "s \<noteq> a \<Longrightarrow> absent (SqlUuid a) (fst tc) (snd tc) (fst (move_plain s a tc Tm))"
  unfolding move_plain_def by (rule absent_updated) simp

lemma pair_clears: "absent (SqlUuid a) (fst tk) ''user_id'' (fst (move_pair s a tk Tm))"
  unfolding move_pair_def Let_def fst_conv by (rule absent_deleted)

lemma roles_clear: "absent (SqlUuid a) ''user_roles'' ''user_id'' (fst (move_roles s a Tm))"
  unfolding move_roles_def Let_def fst_conv by (rule absent_deleted)

lemma emails_clear: "s \<noteq> a \<Longrightarrow> absent (SqlUuid a) ''user_emails'' ''user_id'' (fst (move_emails s a Tm))"
  unfolding move_emails_def by (rule absent_updated) simp

section \<open>Every reference is moved or dropped\<close>

text \<open>
  The columns of the schema (\<^verbatim>\<open>server/migrations\<close>) that carry a foreign key to users, table by table, and the
  columns that hold a user id as text. The lists of the code are compared with them, as the test
  \<^verbatim>\<open>checks/tests/user_merge_covers_every_user_reference.rs\<close> does.
\<close>

definition user_references :: "(string \<times> string) list" where
  "user_references =
     concat (map (\<lambda>(t, cs). map (\<lambda>c. (t, c)) cs)
     [(''audit_logs'', [''user_id'', ''actor_id'']), (''tools'', [''created_by'']),
      (''tool_events'', [''user_id'', ''actor_id'']), (''tool_training_types'', [''created_by'']),
      (''user_tool_training'', [''user_id'', ''trainer_id'']), (''training_steps'', [''created_by'']),
      (''user_training_progress'', [''user_id'', ''instructor_id'']),
      (''training_instructors'', [''user_id'', ''certified_by'']),
      (''space_device_auth_requests'', [''created_by'']), (''webhook_auth_headers'', [''created_by'']),
      (''webhooks'', [''created_by'']), (''user_mfa_totp'', [''user_id'']),
      (''user_mfa_webauthn'', [''user_id'']), (''user_mfa_recovery_codes'', [''user_id'']),
      (''doors'', [''created_by'']), (''door_access_events'', [''user_id'']),
      (''door_checkins'', [''user_id'']), (''schedules'', [''created_by'']),
      (''home_links'', [''created_by'']), (''profile_config_versions'', [''created_by'']),
      (''password_reset_tokens'', [''user_id'']), (''email_verification_tokens'', [''user_id'']),
      (''cmi5_courses'', [''imported_by'']), (''cmi5_registrations'', [''user_id'']),
      (''membership_ledger'', [''user_id'', ''created_by'']), (''tool_usage_sessions'', [''user_id'']),
      (''user_cards'', [''user_id'']), (''training_waivers'', [''user_id'', ''waived_by'']),
      (''power_circuits'', [''locked_out_by'']), (''tool_tier_assignments'', [''user_id'', ''assigned_by'']),
      (''user_roles'', [''user_id'']), (''user_emails'', [''user_id'']),
      (''user_stripe_customers'', [''user_id'']), (''user_merges'', [''survivor_id'', ''actor_id'']),
      (''alert_acknowledgements'', [''user_id'']), (''resource_sessions'', [''user_id''])])"

definition text_references :: "(string \<times> string) list" where
  "text_references = [(''cmi5_registrations'', ''actor_account_name''), (''cmi5_state_documents'', ''agent_account_name'')]"

lemma every_reference_is_handled:
  "list_all (\<lambda>tc. tc \<in> set (PLAIN @ map (\<lambda>tk. (fst tk, ''user_id'')) UNIQUE_PAIRS @ SPECIAL @ DROPPED)) user_references"
  by code_simp

lemma references_handled:
  "tc \<in> set user_references \<Longrightarrow>
   tc \<in> set (PLAIN @ map (\<lambda>tk. (fst tk, ''user_id'')) UNIQUE_PAIRS @ SPECIAL) \<or> tc \<in> set DROPPED"
  using every_reference_is_handled by (auto simp: list_all_iff)

definition mentioned :: "merge_env \<Rightarrow> uuid \<Rightarrow> sql_tables \<Rightarrow> bool" where
  "mentioned v a T \<longleftrightarrow>
     list_ex (\<lambda>tc. list_ex (\<lambda>r. r (snd tc) = SqlUuid a) (T (fst tc))) user_references \<or>
     list_ex (\<lambda>tc. list_ex (\<lambda>r. r (snd tc) = SqlText (me_show_uuid v a)) (T (fst tc))) text_references \<or>
     list_ex (user_rule (me_show_uuid v a)) (T ''access_rules'')"

lemma repoint_keeps_absent:
  assumes "unwritten s (me_show_uuid v s) x" "absent x t c (fst Tm)"
  shows "absent x t c (fst (move_emails s a (move_rules (me_show_uuid v s) b Tm)))"
    and "absent x t c (fst (fold (move_text (me_show_uuid v s) b) ts Tm))"
    and "absent x t c (fst (fold (move_plain s a) ps Tm))"
    and "absent x t c (fst (fold (move_pair s a) us Tm))"
  using assms
  by (auto intro!: absent_emails absent_rules fold_table_keeps [where Q = "\<lambda>Tm. absent x t c (fst Tm)"]
      intro: absent_text absent_plain absent_pair)

lemma repointed_tables_are_clean:
  assumes "s \<noteq> a" "tc \<in> set (PLAIN @ map (\<lambda>tk. (fst tk, ''user_id'')) UNIQUE_PAIRS @ SPECIAL)"
  shows "absent (SqlUuid a) (fst tc) (snd tc) (fst (repoint v s a T))"
proof -
  let ?Q = "\<lambda>Tm. absent (SqlUuid a) (fst tc) (snd tc) (fst Tm)"
  have u: "unwritten s (me_show_uuid v s) (SqlUuid a)" using assms(1) by (simp add: unwritten_def)
  note keeps = repoint_keeps_absent [OF u]
  consider "tc \<in> set PLAIN" | tk where "tk \<in> set UNIQUE_PAIRS" "tc = (fst tk, ''user_id'')"
    | "tc = (''user_roles'', ''user_id'')" | "tc = (''user_emails'', ''user_id'')"
    using assms(2) unfolding SPECIAL_def by auto
  then show ?thesis
  proof cases
    case 1
    have "?Q (fold (move_plain s a) PLAIN Tm)" for Tm
      by (rule fold_establishes [where Q = ?Q and f = "move_plain s a", OF 1 plain_clears [OF assms(1)] absent_plain [OF u]])
    from keeps(1) [OF keeps(2) [OF this]] show ?thesis unfolding repoint_def .
  next
    case 2
    have "?Q (fold (move_pair s a) UNIQUE_PAIRS Tm)" for Tm
      by (rule fold_establishes [where Q = ?Q and f = "move_pair s a", OF 2(1) _ absent_pair [OF u]])
        (simp add: 2(2) pair_clears)
    from keeps(1) [OF keeps(2) [OF keeps(3) [OF this]]] show ?thesis unfolding repoint_def .
  next
    case 3
    have "?Q (move_roles s a Tm)" for Tm by (simp add: 3 roles_clear)
    from keeps(1) [OF keeps(2) [OF keeps(3) [OF keeps(4) [OF this]]]] show ?thesis unfolding repoint_def .
  next
    case 4
    show ?thesis unfolding repoint_def by (simp add: 4 emails_clear assms(1))
  qed
qed

lemma repointed_texts_are_clean:
  assumes "me_show_uuid v s \<noteq> me_show_uuid v a" "tc \<in> set TEXT_REFS"
  shows "absent (SqlText (me_show_uuid v a)) (fst tc) (snd tc) (fst (repoint v s a T))"
proof -
  let ?x = "SqlText (me_show_uuid v a)"
  let ?Q = "\<lambda>Tm. absent ?x (fst tc) (snd tc) (fst Tm)"
  have u: "unwritten s (me_show_uuid v s) ?x" using assms(1) by (simp add: unwritten_def)
  have "?Q (move_text (me_show_uuid v s) (me_show_uuid v a) tc Tm)" for Tm
    unfolding move_text_def by (rule absent_updated) (use assms(1) in auto)
  then have "?Q (fold (move_text (me_show_uuid v s) (me_show_uuid v a)) TEXT_REFS Tm)" for Tm
    by (rule fold_establishes [where Q = ?Q, OF assms(2) _ absent_text [OF u]])
  from repoint_keeps_absent(1) [OF u this] show ?thesis unfolding repoint_def .
qed

lemma repointed_rules_are_clean: "r \<in> set (fst (repoint v s a T) ''access_rules'') \<Longrightarrow> \<not> user_rule (me_show_uuid v a) r"
  by (auto simp: repoint_def move_emails_def update_rows_def move_rules_def delete_rows_def Let_def)

lemma dropped_rows_are_gone: "tc \<in> set DROPPED \<Longrightarrow> absent (SqlUuid a) (fst tc) (snd tc) (delete_user_rows a T)"
  unfolding delete_user_rows_def
  by (rule fold_establishes [where Q = "absent (SqlUuid a) (fst tc) (snd tc)"]) (auto intro: absent_deleted absent_delete)

lemma other_tables_survive: "t \<notin> fst ` set DROPPED \<Longrightarrow> delete_user_rows a T t = T t"
  by (simp add: delete_user_rows_def DROPPED_def delete_rows_def)

section \<open>A merge that succeeds\<close>

text \<open>The tables after a merge: re-pointed, without the dropped rows, with the record and the audit row.\<close>

definition merged_tables :: "merge_env \<Rightarrow> uuid \<Rightarrow> uuid \<Rightarrow> sql_row \<Rightarrow> sql_row list \<Rightarrow> sql_tables \<Rightarrow> sql_tables" where
  "merged_tables v s a row logs T =
     (let U = delete_user_rows a (fst (repoint v s a T)) in
      U(''user_merges'' := U ''user_merges'' @ [row], ''audit_logs'' := U ''audit_logs'' @ logs))"

lemma merge_parties_ok:
  "merge_parties g db actor s a = Inr (survivor, absorbed) \<longleftrightarrow>
     s \<noteq> a \<and> actor \<noteq> s \<and> actor \<noteq> a \<and> find_merge_user db s = Some survivor \<and> find_merge_user db a = Some absorbed \<and>
     party_level g db s < party_level g db actor \<and> party_level g db a < party_level g db actor"
  by (auto simp: merge_parties_def Let_def split: option.split)

lemma found_id: "find_merge_user db u = Some x \<Longrightarrow> mu_id x = u"
  by (auto simp: find_merge_user_def find_Some_iff)

lemma merge_users_success:
  assumes "merge_users v g actor s a ack db = (Inr outcome, db')"
  obtains survivor absorbed row logs where
    "merge_parties g db actor s a = Inr (survivor, absorbed)"
    "warning_codes (merge_plan_of v g survivor absorbed (mg_tables db)) = set ack"
    "mg_users db' = filter (\<lambda>u. mu_id u \<noteq> a)
       (map (\<lambda>u. if mu_id u = s then survivor_row v survivor absorbed u else u) (mg_users db))"
    "mg_tables db' = merged_tables v s a row logs (mg_tables db)"
    "row ''survivor_id'' = SqlUuid s" "row ''actor_id'' = SqlUuid actor"
    "\<And>r. r \<in> set logs \<Longrightarrow> r ''user_id'' = SqlUuid s \<and> r ''actor_id'' = SqlUuid actor"
    "row ''absorbed_id'' = SqlUuid a" "length logs = (if me_audit_stored v then 1 else 0)"
    "\<And>r. r \<in> set logs \<Longrightarrow> r ''event_type'' = SqlText ''user_merged''"
proof -
  from assms obtain survivor absorbed where p: "merge_parties g db actor s a = Inr (survivor, absorbed)"
    by (auto simp: merge_users_def split: sum.splits prod.splits)
  then have ids: "mu_id survivor = s" "mu_id absorbed = a" by (auto simp: merge_parties_ok dest: found_id)
  have E: "\<exists>done_db. execute v g survivor absorbed (set ack) actor db = (Inr outcome, done_db) \<and>
      db' = (if me_audit_stored v
        then done_db\<lparr>mg_tables := (mg_tables done_db)
          (''audit_logs'' := mg_tables done_db ''audit_logs'' @ [merge_audit v survivor absorbed actor outcome])\<rparr>
        else done_db)"
    using assms p by (auto simp: merge_users_def merge_users_db_def split: sum.splits prod.splits merge_error.splits)
  then obtain done_db where e: "execute v g survivor absorbed (set ack) actor db = (Inr outcome, done_db)"
    and d: "db' = (if me_audit_stored v
        then done_db\<lparr>mg_tables := (mg_tables done_db)
          (''audit_logs'' := mg_tables done_db ''audit_logs'' @ [merge_audit v survivor absorbed actor outcome])\<rparr>
        else done_db)" by blast
  let ?W = "pl_warnings (merge_plan_of v g survivor absorbed (mg_tables db))"
  let ?row = "merge_record v s absorbed (snd (repoint v s a (mg_tables db))) ?W actor"
  let ?logs = "if me_audit_stored v then [merge_audit v survivor absorbed actor outcome] else []"
  have "warning_codes (merge_plan_of v g survivor absorbed (mg_tables db)) = set ack"
    and users: "mg_users done_db = filter (\<lambda>u. mu_id u \<noteq> a)
       (map (\<lambda>u. if mu_id u = s then survivor_row v survivor absorbed u else u) (mg_users db))"
    and tables: "mg_tables done_db = (let U = delete_user_rows a (fst (repoint v s a (mg_tables db))) in
       U(''user_merges'' := U ''user_merges'' @ [?row]))"
    using e by (auto simp: execute_def Let_def ids split: if_splits prod.splits)
  moreover have "mg_tables db' = merged_tables v s a ?row ?logs (mg_tables db)"
    by (auto simp: d tables merged_tables_def Let_def)
  ultimately show ?thesis using p
    by (intro that [of survivor absorbed ?row ?logs]) (auto simp: d users merge_record_def merge_audit_def ids)
qed

text \<open>A merge is carried out when the parties are vetted, every warning is acknowledged and the account is there.\<close>

lemma merge_users_ok:
  assumes "merge_parties g db actor s a = Inr (survivor, absorbed)"
    "warning_codes (merge_plan_of v g survivor absorbed (mg_tables db)) = set ack"
    "length (filter (\<lambda>u. mu_id u = a) (mg_users db)) = 1"
  shows "\<exists>outcome db'. merge_users v g actor s a ack db = (Inr outcome, db')"
proof -
  have ids: "mu_id survivor = s" "mu_id absorbed = a" using assms(1) by (auto simp: merge_parties_ok dest: found_id)
  have "filter (\<lambda>u. mu_id u = a) (map (\<lambda>u. if mu_id u = s then survivor_row v survivor absorbed u else u) us) =
      map (\<lambda>u. if mu_id u = s then survivor_row v survivor absorbed u else u) (filter (\<lambda>u. mu_id u = a) us)" for us
    by (induction us) (auto simp: survivor_row_def)
  then have n: "length (filter (\<lambda>u. mu_id u = a)
      (map (\<lambda>u. if mu_id u = s then survivor_row v survivor absorbed u else u) (mg_users db))) = 1"
    using assms(3) by (simp only: length_map)
  obtain T moved where r: "repoint v s a (mg_tables db) = (T, moved)" by fastforce
  show ?thesis
    by (simp only: merge_users_def merge_users_db_def execute_def assms(1,2) Let_def ids r n
        sum.case prod.case not_True_eq_False if_False simp_thms) blast
qed

text \<open>Two accounts of one member, with a ledger entry and an access rule on the second, and an administrator.\<close>

definition twin :: "uuid \<Rightarrow> string \<Rightarrow> merge_user" where
  "twin n name =
     \<lparr>mu_id = n, mu_username = name, mu_email = name @ ''@example.org'', mu_full_name = ''Ada'', mu_is_active = True,
      mu_profile = JObj [], mu_mfa_enrolled_at = None, mu_mailing_list_opt_out_at = None,
      mu_membership_next_due_at = None, mu_token_version = 0, mu_updated_at = 0\<rparr>"

definition twin_row :: "(string \<times> sql_value) list \<Rightarrow> sql_row" where
  "twin_row kvs c = (case map_of kvs c of Some x \<Rightarrow> x | None \<Rightarrow> SqlNull)"

definition twin_tables :: sql_tables where
  "twin_tables t =
     (if t = ''user_roles'' then [twin_row [(''user_id'', SqlUuid 3), (''role_id'', SqlUuid 9)]]
      else if t = ''membership_ledger'' then [twin_row [(''user_id'', SqlUuid 2), (''amount'', SqlAmount 5)]]
      else if t = ''access_rules'' then
        [twin_row [(''resource_id'', SqlUuid 7), (''kind'', SqlText ''user''), (''value'', SqlText ''two''),
                   (''effect'', SqlText ''allow'')]]
      else [])"

definition twin_db :: merge_db where
  "twin_db = \<lparr>mg_users = [twin 1 ''ada'', twin 2 ''ada2'', twin 3 ''root''], mg_tables = twin_tables\<rparr>"

definition twin_env :: merge_env where
  "twin_env =
     \<lparr>me_now = 0, me_fresh = 50, me_audit_stored = True, me_show_uuid = (\<lambda>n. if n = 2 then ''two'' else ''one''),
      me_time_text = (\<lambda>_. []), me_show_date = (\<lambda>_. []), me_debug = id, me_user_json = (\<lambda>_. JNull),
      me_moves_json = (\<lambda>_. JNull)\<rparr>"

definition twin_graph :: role_graph where
  "twin_graph = \<lparr>own_perms = [], inherits = [], level = [(9, 5)], by_name = []\<rparr>"

lemma warning_codes_plan:
  "warning_codes (merge_plan_of v g survivor absorbed T) =
     set (map mw_code
       (concat (map (pair_warning T (mu_id survivor) (mu_id absorbed)) UNIQUE_PAIRS) @
        role_warning g T (mu_id survivor) (mu_id absorbed) @ rule_warning v T (mu_id survivor) (mu_id absorbed) @
        account_warnings v survivor absorbed @ activity_warnings v T (mu_id survivor) (mu_id absorbed)))"
  by (simp add: warning_codes_def merge_plan_of_def Let_def)

lemma twin_parties: "merge_parties twin_graph twin_db 3 1 2 = Inr (twin 1 ''ada'', twin 2 ''ada2'')"
  unfolding merge_parties_ok by code_simp

lemma twin_codes:
  "warning_codes (merge_plan_of twin_env twin_graph (twin 1 ''ada'') (twin 2 ''ada2'') (mg_tables twin_db)) =
     set [''absorbed_login_lost'']"
  unfolding warning_codes_plan by code_simp

lemma twins_merge:
  "\<exists>outcome db'. merge_users twin_env twin_graph 3 1 2 [''absorbed_login_lost''] twin_db = (Inr outcome, db')"
  by (rule merge_users_ok [OF twin_parties twin_codes]) (simp add: twin_db_def twin_def)

lemma merged_tables_are_clean:
  assumes ne: "s \<noteq> a" and "tc \<in> set user_references"
    and written: "row ''survivor_id'' \<noteq> SqlUuid a" "row ''actor_id'' \<noteq> SqlUuid a"
    and logged: "\<And>r. r \<in> set logs \<Longrightarrow> r ''user_id'' \<noteq> SqlUuid a \<and> r ''actor_id'' \<noteq> SqlUuid a"
  shows "absent (SqlUuid a) (fst tc) (snd tc) (merged_tables v s a row logs T)"
proof -
  have clean: "absent (SqlUuid a) (fst tc) (snd tc) (delete_user_rows a (fst (repoint v s a T)))"
  proof (cases "tc \<in> set DROPPED")
    case True
    then show ?thesis by (rule dropped_rows_are_gone)
  next
    case False
    then have "tc \<in> set (PLAIN @ map (\<lambda>tk. (fst tk, ''user_id'')) UNIQUE_PAIRS @ SPECIAL)"
      using references_handled [OF assms(2)] by blast
    then show ?thesis by (intro absent_dropped repointed_tables_are_clean [OF ne])
  qed
  have "snd tc = ''survivor_id'' \<or> snd tc = ''actor_id''" if "fst tc = ''user_merges''"
    using assms(2) that by (auto simp: user_references_def)
  moreover have "snd tc = ''user_id'' \<or> snd tc = ''actor_id''" if "fst tc = ''audit_logs''"
    using assms(2) that by (auto simp: user_references_def)
  ultimately show ?thesis
    using clean written logged by (auto simp: merged_tables_def Let_def absent_def)
qed

text \<open>
  C38. After a successful merge no reference names the absorbed account: it has no row in the users table, no row of
  any table that references users points at it (neither the plain references, nor the unique pairs, nor the
  roles, the addresses or the tokens in flight), neither of the two text columns that hold a user id is its id
  and no access rule is about it. The record of the merge keeps the id in \<^verbatim>\<open>user_merges.absorbed_id\<close>, which
  references nothing, and JSON documents may still contain it.
\<close>

theorem an_absorbed_account_is_mentioned_nowhere:
  assumes "merge_users v g actor s a ack db = (Inr outcome, db')" "me_show_uuid v s \<noteq> me_show_uuid v a"
  shows "\<not> mentioned v a (mg_tables db') \<and> find_merge_user db' a = None"
proof (rule merge_users_success [OF assms(1)])
  fix survivor absorbed row logs
  assume p: "merge_parties g db actor s a = Inr (survivor, absorbed)"
    and users: "mg_users db' = filter (\<lambda>u. mu_id u \<noteq> a)
       (map (\<lambda>u. if mu_id u = s then survivor_row v survivor absorbed u else u) (mg_users db))"
    and tables: "mg_tables db' = merged_tables v s a row logs (mg_tables db)"
    and row: "row ''survivor_id'' = SqlUuid s" "row ''actor_id'' = SqlUuid actor"
      "\<And>r. r \<in> set logs \<Longrightarrow> r ''user_id'' = SqlUuid s \<and> r ''actor_id'' = SqlUuid actor"
  have ne: "s \<noteq> a" "actor \<noteq> a" using p by (auto simp: merge_parties_ok)
  have "absent (SqlUuid a) (fst tc) (snd tc) (mg_tables db')" if "tc \<in> set user_references" for tc
    unfolding tables
    by (rule merged_tables_are_clean [OF ne(1) that]) (simp_all add: row(1,2) ne not_sym [OF ne(1)], simp add: row(3) ne)
  moreover have "absent (SqlText (me_show_uuid v a)) (fst tc) (snd tc) (mg_tables db')" if "tc \<in> set TEXT_REFS" for tc
    using absent_dropped [OF repointed_texts_are_clean [OF assms(2) that]] that
    by (auto simp: tables merged_tables_def Let_def absent_def TEXT_REFS_def)
  moreover have "\<not> user_rule (me_show_uuid v a) r" if "r \<in> set (mg_tables db' ''access_rules'')" for r
    using that repointed_rules_are_clean
    by (auto simp: tables merged_tables_def Let_def other_tables_survive DROPPED_def)
  ultimately show ?thesis
    by (auto simp: text_references_def TEXT_REFS_def mentioned_def absent_def list_ex_iff find_merge_user_def find_None_iff users)
qed

lemma an_absorbed_account_is_mentioned_nowhere_witness:
  "\<exists>outcome db'. merge_users twin_env twin_graph 3 1 2 [''absorbed_login_lost''] twin_db = (Inr outcome, db') \<and>
     \<not> mentioned twin_env 2 (mg_tables db') \<and> find_merge_user db' 2 = None"
proof -
  obtain outcome db' where m: "merge_users twin_env twin_graph 3 1 2 [''absorbed_login_lost''] twin_db = (Inr outcome, db')"
    using twins_merge by blast
  show ?thesis using an_absorbed_account_is_mentioned_nowhere [OF m] m by (auto simp: twin_env_def)
qed

section \<open>The survivor's level\<close>

lemma set_mapped: "set (List.map_filter f xs) = {y. \<exists>x \<in> set xs. f x = Some y}"
  by (induction xs) (auto split: option.splits)

lemma set_roles_of: "set (roles_of T u) = {i. \<exists>r \<in> set (T ''user_roles''). r ''user_id'' = SqlUuid u \<and> r ''role_id'' = SqlUuid i}"
proof -
  have "(if r ''user_id'' = SqlUuid u then case r ''role_id'' of SqlUuid i \<Rightarrow> Some i | _ \<Rightarrow> None else None) = Some i \<longleftrightarrow>
      r ''user_id'' = SqlUuid u \<and> r ''role_id'' = SqlUuid i" for r :: sql_row and i
    by (cases "r ''role_id''") auto
  then show ?thesis by (simp add: roles_of_def set_mapped)
qed

lemma effective_level_set: "set xs = set ys \<Longrightarrow> effective_level g xs = effective_level g ys"
  by (simp add: effective_level_def closure_reach)

lemma fold_other_tables:
  assumes "\<And>y Tm. y \<in> set ys \<Longrightarrow> fst (f y Tm) t = fst Tm t"
  shows "fst (fold f ys Tm) t = fst Tm t"
  using assms by (induction ys arbitrary: Tm) auto

lemma other_table [frame_simps]:
  "t \<noteq> u \<Longrightarrow> fst (update_rows u k P f Tm) t = fst Tm t"
  "t \<noteq> u \<Longrightarrow> delete_rows u P T t = T t"
  "t \<noteq> fst tc \<Longrightarrow> fst (move_plain s a tc Tm) t = fst Tm t"
  "t \<noteq> fst tc \<Longrightarrow> fst (move_pair s a tc Tm) t = fst Tm t"
  "t \<noteq> fst tc \<Longrightarrow> fst (move_text x y tc Tm) t = fst Tm t"
  "t \<noteq> ''user_roles'' \<Longrightarrow> fst (move_roles s a Tm) t = fst Tm t"
  "t \<noteq> ''access_rules'' \<Longrightarrow> fst (move_rules x y Tm) t = fst Tm t"
  "t \<noteq> ''user_emails'' \<Longrightarrow> fst (move_emails s a Tm) t = fst Tm t"
  by (simp_all add: update_rows_def delete_rows_def move_plain_def move_pair_def move_text_def move_roles_def
      move_rules_def move_emails_def Let_def)

lemma repointed_roles_table: "fst (repoint v s a T) ''user_roles'' = fst (move_roles s a (T, Map.empty)) ''user_roles''"
proof -
  have "fst (fold (move_text x y) TEXT_REFS Tm) ''user_roles'' = fst Tm ''user_roles''" for x y Tm
    by (rule fold_other_tables) (auto simp: TEXT_REFS_def frame_simps)
  moreover have "fst (fold (move_plain s a) PLAIN Tm) ''user_roles'' = fst Tm ''user_roles''" for Tm
    by (rule fold_other_tables) (auto simp: PLAIN_def frame_simps)
  moreover have "fst (fold (move_pair s a) UNIQUE_PAIRS Tm) ''user_roles'' = fst Tm ''user_roles''" for Tm
    by (rule fold_other_tables) (auto simp: UNIQUE_PAIRS_def frame_simps)
  ultimately show ?thesis by (simp add: repoint_def frame_simps)
qed

lemma merged_roles:
  assumes "s \<noteq> a"
  shows "set (roles_of (merged_tables v s a row logs T) s) = set (roles_of T s @ roles_of T a)"
proof -
  have rows: "merged_tables v s a row logs T ''user_roles'' = filter (\<lambda>r. r ''user_id'' \<noteq> SqlUuid a)
      (T ''user_roles'' @ map (role_row s) (filter (pair_movable ''role_id'' s a (T ''user_roles'')) (T ''user_roles'')))"
    by (simp add: merged_tables_def Let_def other_tables_survive DROPPED_def repointed_roles_table move_roles_def delete_rows_def)
  have "i \<in> set (roles_of (merged_tables v s a row logs T) s) \<longleftrightarrow> i \<in> set (roles_of T s @ roles_of T a)" for i
  proof -
    have "(\<exists>r \<in> set (T ''user_roles''). pair_movable ''role_id'' s a (T ''user_roles'') r \<and> r ''role_id'' = SqlUuid i) \<longleftrightarrow>
        i \<in> set (roles_of T a) \<and> i \<notin> set (roles_of T s)"
      by (auto simp: set_roles_of pair_movable_def held_by_def sql_eq_def)
    then show ?thesis using assms
      by (auto simp: set_roles_of rows role_row_def bex_Un image_iff)
  qed
  then show ?thesis by blast
qed

lemma level_of_union:
  "effective_level g (xs @ ys) \<le> max (effective_level g xs) (effective_level g ys)"
proof -
  let ?L = "\<lambda>zs. {l. \<exists>r \<in> closure g zs. map_of (level g) r = Some l}"
  have fin: "finite (?L zs)" for zs
    by (rule finite_subset [of _ "set (map snd (level g))"]) (auto dest: map_of_SomeD intro: rev_image_eqI)
  have un: "?L (xs @ ys) = ?L xs \<union> ?L ys" by (auto simp: closure_reach)
  show ?thesis
    by (cases "?L xs = {}"; cases "?L ys = {}")
      (simp_all only: effective_level_def Let_def un Un_empty_left Un_empty_right Un_empty simp_thms if_True if_False
        Max_Un fin max.cobounded1 max.cobounded2 order_refl)
qed

lemma level_warned:
  "''roles_raise_level'' \<notin> warning_codes (merge_plan_of v g survivor absorbed T) \<Longrightarrow>
   effective_level g (roles_of T (mu_id survivor) @ roles_of T (mu_id absorbed)) \<le> effective_level g (roles_of T (mu_id survivor))"
  by (auto simp: warning_codes_def merge_plan_of_def role_warning_def warn_if_def Let_def split: if_splits)

text \<open>
  C39. A merge cannot be used to climb: the survivor's level afterwards is at most the higher of the two
  accounts' levels, stays below the administrator's own, and is no higher than it was unless the administrator
  acknowledged the warning that the absorbed account's roles raise it.
\<close>

theorem a_merge_raises_no_level_unseen:
  assumes "merge_users v g actor s a ack db = (Inr outcome, db')"
  shows "party_level g db' s \<le> max (party_level g db s) (party_level g db a) \<and>
    party_level g db' s < party_level g db actor \<and>
    (''roles_raise_level'' \<in> set ack \<or> party_level g db' s \<le> party_level g db s)"
proof (rule merge_users_success [OF assms])
  fix survivor absorbed row logs
  assume p: "merge_parties g db actor s a = Inr (survivor, absorbed)"
    and codes: "warning_codes (merge_plan_of v g survivor absorbed (mg_tables db)) = set ack"
    and tables: "mg_tables db' = merged_tables v s a row logs (mg_tables db)"
  have ids: "s \<noteq> a" "mu_id survivor = s" "mu_id absorbed = a"
    and below: "party_level g db s < party_level g db actor" "party_level g db a < party_level g db actor"
    using p by (auto simp: merge_parties_ok dest: found_id)
  have union: "party_level g db' s = effective_level g (roles_of (mg_tables db) s @ roles_of (mg_tables db) a)"
    unfolding party_level_def tables by (rule effective_level_set [OF merged_roles [OF ids(1)]])
  then have "party_level g db' s \<le> max (party_level g db s) (party_level g db a)"
    by (simp only: party_level_def level_of_union)
  moreover have "party_level g db' s \<le> party_level g db s" if "''roles_raise_level'' \<notin> set ack"
    using level_warned [of v g survivor absorbed "mg_tables db"] that by (subst union) (simp add: codes ids party_level_def)
  ultimately show ?thesis using below by auto
qed

lemma a_merge_raises_no_level_unseen_witness:
  "\<exists>outcome db'. merge_users twin_env twin_graph 3 1 2 [''absorbed_login_lost''] twin_db = (Inr outcome, db') \<and>
     party_level twin_graph db' 1 \<le> party_level twin_graph twin_db 1"
proof -
  obtain outcome db' where m: "merge_users twin_env twin_graph 3 1 2 [''absorbed_login_lost''] twin_db = (Inr outcome, db')"
    using twins_merge by blast
  show ?thesis using a_merge_raises_no_level_unseen [OF m] m by auto
qed

section \<open>The history, row by row\<close>

text \<open>
  What a merge means for a row of the history: every column that references a user and holds the absorbed
  account, or holds its id as text, is rewritten to the survivor, and nothing else changes. The columns are
  those of the schema, not the lists of the code.
\<close>

definition renamed :: "merge_env \<Rightarrow> uuid \<Rightarrow> uuid \<Rightarrow> string \<Rightarrow> sql_row \<Rightarrow> sql_row" where
  "renamed v s a t r =
     (\<lambda>c. if (t, c) \<in> set user_references \<and> r c = SqlUuid a then SqlUuid s
          else if (t, c) \<in> set text_references \<and> r c = SqlText (me_show_uuid v a) then SqlText (me_show_uuid v s)
          else r c)"

text \<open>The tables that are not history: the pairs a unique index covers, the roles, addresses, rules and tokens.\<close>

definition reworked_tables :: "string set" where
  "reworked_tables =
     {''tool_tier_assignments'', ''training_instructors'', ''training_waivers'', ''user_tool_training'',
      ''user_training_progress'', ''user_roles'', ''user_emails'', ''access_rules'', ''password_reset_tokens'',
      ''email_verification_tokens''}"

text \<open>Outside these tables the code re-points exactly the references of the schema.\<close>

lemma references_are_repointed: "list_all (\<lambda>tc. fst tc \<in> reworked_tables \<or> tc \<in> set PLAIN) user_references"
  by code_simp

lemma repointed_are_references: "list_all (\<lambda>tc. tc \<in> set user_references) PLAIN"
  by code_simp

lemma texts_are_repointed: "text_references = TEXT_REFS"
  by (simp add: text_references_def TEXT_REFS_def)

lemma history_columns: "t \<notin> reworked_tables \<Longrightarrow> (t, c) \<in> set PLAIN \<longleftrightarrow> (t, c) \<in> set user_references"
  using references_are_repointed repointed_are_references unfolding list_all_iff by fastforce

lemma reworked_elsewhere: "t \<notin> reworked_tables \<Longrightarrow> t \<notin> fst ` set (UNIQUE_PAIRS @ SPECIAL @ DROPPED) \<union> {''access_rules''}"
  by (auto simp: reworked_tables_def UNIQUE_PAIRS_def SPECIAL_def DROPPED_def)

definition plain_step :: "sql_value \<Rightarrow> sql_value \<Rightarrow> string \<Rightarrow> string \<times> string \<Rightarrow> sql_row \<Rightarrow> sql_row" where
  "plain_step x y t tc r = (if fst tc = t \<and> r (snd tc) = y then r(snd tc := x) else r)"

lemma update_fold_rows:
  assumes "\<And>tc Tm. fst (f tc Tm) t = map (plain_step x y t tc) (fst Tm t)"
  shows "fst (fold f tcs Tm) t = map (fold (plain_step x y t) tcs) (fst Tm t)"
  by (induction tcs arbitrary: Tm) (simp_all add: assms)

lemma step_rows:
  "fst (move_plain s a tc Tm) t = map (plain_step (SqlUuid s) (SqlUuid a) t tc) (fst Tm t)"
  "fst (move_text x y tc Tm) t = map (plain_step (SqlText x) (SqlText y) t tc) (fst Tm t)"
  by (auto simp: move_plain_def move_text_def update_rows_def plain_step_def intro: map_idI [symmetric])

lemma plain_step_at: "plain_step x y t tc r c = (if tc = (t, c) \<and> r c = y then x else r c)"
  by (cases tc) (simp add: plain_step_def)

lemma fold_plain_step:
  "x \<noteq> y \<Longrightarrow> fold (plain_step x y t) tcs r c = (if (t, c) \<in> set tcs \<and> r c = y then x else r c)"
  by (induction tcs arbitrary: r) (auto simp: plain_step_at)

lemma repointed_history:
  assumes "s \<noteq> a" "me_show_uuid v s \<noteq> me_show_uuid v a" "t \<notin> reworked_tables"
  shows "fst (repoint v s a T) t = map (renamed v s a t) (T t)"
proof -
  have t: "t \<noteq> ''user_roles''" "t \<noteq> ''user_emails''" "t \<noteq> ''access_rules''" "t \<notin> fst ` set UNIQUE_PAIRS"
    using reworked_elsewhere [OF assms(3)] by (auto simp: SPECIAL_def)
  have "fst (fold (move_pair s a) UNIQUE_PAIRS Tm) t = fst Tm t" for Tm
    by (rule fold_other_tables) (use t(4) in \<open>auto simp: image_iff intro!: other_table(4)\<close>)
  then have "fst (repoint v s a T) t =
      map (fold (plain_step (SqlText (me_show_uuid v s)) (SqlText (me_show_uuid v a)) t) TEXT_REFS)
        (map (fold (plain_step (SqlUuid s) (SqlUuid a) t) PLAIN) (T t))"
    using t by (simp add: repoint_def frame_simps
        update_fold_rows [where f = "move_text x y" for x y, OF step_rows(2)] update_fold_rows [where f = "move_plain s a", OF step_rows(1)])
  moreover have "fold (plain_step (SqlText (me_show_uuid v s)) (SqlText (me_show_uuid v a)) t) TEXT_REFS
      (fold (plain_step (SqlUuid s) (SqlUuid a) t) PLAIN r) = renamed v s a t r" for r
    using assms(1,2) by (intro ext) (auto simp: fold_plain_step renamed_def history_columns [OF assms(3)] texts_are_repointed)
  ultimately show ?thesis by simp
qed



text \<open>The balance of an account, over the rows of the ledger: the survivor's is the sum of the two.\<close>

definition row_amount :: "sql_row \<Rightarrow> rat" where
  "row_amount r = (case r ''amount'' of SqlAmount x \<Rightarrow> x | _ \<Rightarrow> 0)"

definition row_balance :: "sql_row list \<Rightarrow> uuid \<Rightarrow> rat" where
  "row_balance rows u = sum_list (map row_amount (filter (\<lambda>r. r ''user_id'' = SqlUuid u) rows))"

lemma renamed_ledger_row:
  "renamed v s a ''membership_ledger'' r ''user_id'' = (if r ''user_id'' = SqlUuid a then SqlUuid s else r ''user_id'')"
  "renamed v s a ''membership_ledger'' r ''amount'' = r ''amount''"
  by (simp_all add: renamed_def user_references_def text_references_def)

lemma balances_are_added:
  assumes "s \<noteq> a"
  shows "row_balance (map (renamed v s a ''membership_ledger'') rows) s = row_balance rows s + row_balance rows a"
  using assms by (induction rows) (auto simp: row_balance_def row_amount_def renamed_ledger_row)

section \<open>Unique pairs\<close>

text \<open>
  The index over \<^verbatim>\<open>(user_id, key)\<close> holds after the move of a table when it held before, so none of the updates
  of \<open>repoint\<close> can be refused by it.
\<close>

definition pair_unique :: "string \<Rightarrow> sql_row list \<Rightarrow> bool" where
  "pair_unique key rows \<longleftrightarrow>
     sorted_wrt (\<lambda>x y. \<not> (sql_eq (x ''user_id'') (y ''user_id'') \<and> sql_eq (x key) (y key))) rows"

lemma moved_pairs_stay_unique:
  assumes "pair_unique key (fst Tm t)" "key \<noteq> ''user_id''"
  shows "pair_unique key (fst (move_pair s a (t, key) Tm) t)"
proof -
  let ?rows = "fst Tm t"
  let ?f = "\<lambda>r. if pair_movable key s a ?rows r then r(''user_id'' := SqlUuid s) else r"
  have k: "?f x key = x key" for x using assms(2) by simp
  have u: "?f x ''user_id'' = (if pair_movable key s a ?rows x then SqlUuid s else x ''user_id'')" for x by simp
  have other: "\<not> sql_eq (x key) (y key)"
    if "pair_movable key s a ?rows x" "y \<in> set ?rows" "y ''user_id'' = SqlUuid s" for x y
    using that unfolding pair_movable_def held_by_def sql_eq_def by metis
  have kept: "\<not> (sql_eq (?f x ''user_id'') (?f y ''user_id'') \<and> sql_eq (?f x key) (?f y key))"
    if xy: "x \<in> set ?rows" "y \<in> set ?rows" "\<not> (sql_eq (x ''user_id'') (y ''user_id'') \<and> sql_eq (x key) (y key))" for x y
  proof (cases "pair_movable key s a ?rows x")
    case True
    then show ?thesis unfolding k u using xy other [of x y]
      by (cases "pair_movable key s a ?rows y") (auto simp: pair_movable_def sql_eq_def)
  next
    case False
    then show ?thesis unfolding k u using xy other [of y x]
      by (cases "pair_movable key s a ?rows y") (auto simp: sql_eq_def)
  qed
  have "pair_unique key (map ?f ?rows)"
    unfolding pair_unique_def sorted_wrt_map by (rule sorted_wrt_mono_rel [OF kept assms(1) [unfolded pair_unique_def]])
  then show ?thesis
    by (simp add: move_pair_def update_rows_def delete_rows_def Let_def pair_unique_def sorted_wrt_filter)
qed

section \<open>Second factors\<close>

text \<open>
  The rows of the second factors move, the flag that makes the login ask for a second factor does not: a
  survivor without one signs in with a password alone afterwards, whatever it then holds.
\<close>

lemma enrolment_is_not_recomputed:
  assumes "merge_users v g actor s a ack db = (Inr outcome, db')" "find_merge_user db s = Some survivor"
  shows "\<exists>u \<in> set (mg_users db'). mu_id u = s \<and> mu_mfa_enrolled_at u = mu_mfa_enrolled_at survivor"
proof (rule merge_users_success [OF assms(1)])
  fix sv absorbed row logs
  assume p: "merge_parties g db actor s a = Inr (sv, absorbed)"
    and users: "mg_users db' = filter (\<lambda>u. mu_id u \<noteq> a)
       (map (\<lambda>u. if mu_id u = s then survivor_row v sv absorbed u else u) (mg_users db))"
  have "survivor \<in> set (mg_users db)" "mu_id survivor = s" "s \<noteq> a"
    using assms(2) p by (auto simp: find_merge_user_def find_Some_iff merge_parties_ok)
  then show ?thesis
    by (intro bexI [of _ "survivor_row v sv absorbed survivor"]) (auto simp: users survivor_row_def image_iff intro!: bexI [of _ survivor])
qed

end
