(* ===== verification/Spec2Isabelle.thy ===== *)
theory Spec2Isabelle
  imports Edge_Safety Door_Safety Membership_Safety Tool_Service_Safety Places Bypass_Safety Stripe_Safety Auth_Throttle Auth_Emails Training_Safety Cmi5_Properties Cmi5_Sessions Merge_Safety
begin

text \<open>
  A verification development for Cooperative Systems Spaces: the access, safety and billing core of
  a makerspace platform. Paths are relative to \<^verbatim>\<open>src/\<close>.

  The program. A \<^emph>\<open>server\<close> (\<^verbatim>\<open>server/\<close>) holds members, roles, schedules, access rules, tools, doors
  and a credit ledger. In each room a \<^emph>\<open>coordinator\<close> (\<^verbatim>\<open>edge/\<close>) mirrors what it needs of that, and
  decides on its own when a card is presented or an interlock fires. \<^emph>\<open>Hardware\<close> (relays, sensors,
  card readers) talks to the coordinator only: a relay stays energized only while it is granted
  leases. The crate \<^verbatim>\<open>css_lib/\<close> holds what both sides must spell alike. The server compiles rules and
  roles into card lists and pushes them, with the allow-list, the wiring and the power state; the
  coordinator applies what it receives, answers scans, runs the lease loop, and reports back.

  What is modelled, theory by theory.
  \<^item> \<^theory_text>\<open>Prelude\<close>: UUIDs as numbers, instants and durations as nanoseconds, JSON, hash maps, options; and
    the locales \<open>preserved\<close> and \<open>guarded_fact\<close>, the contracts of the stateful components: an invariant
    every event keeps, and a fact only named events may clear.
  \<^item> \<^theory_text>\<open>Wire\<close> (\<^verbatim>\<open>css_lib/src/wire.rs\<close>): the payloads, field by field. \<^theory_text>\<open>Secrets\<close> (\<^verbatim>\<open>ct.rs\<close>, \<^verbatim>\<open>sig.rs\<close>):
    constant-time comparison on 8-bit words, and the messages that are signed.
  \<^item> \<^theory_text>\<open>Leases\<close> (\<^verbatim>\<open>edge/src/modules.rs\<close>): the record \<open>inner\<close> is the state behind the lock of
    \<^verbatim>\<open>ModuleState\<close>; \<open>apply_state_at\<close>, \<open>observe\<close>, \<open>evaluate\<close>, \<open>renew\<close>, \<open>tick\<close> and the rest are its methods.
    \<^theory_text>\<open>Lease_Safety\<close> states when power may flow: the exact condition of an allow, soundness of a
    pass of the watchdog, latching, expiry, start sequencing, and the order of syncs and stops.
  \<^item> \<^theory_text>\<open>Power_Lockout\<close> (\<^verbatim>\<open>edge/src/power.rs\<close>): lockout by the server and the local fast-trip.
  \<^item> \<^theory_text>\<open>Toolguard\<close> (\<^verbatim>\<open>edge/src/toolguard.rs\<close>): the allow-list mirror and its bounded notify queue.
  \<^item> \<^theory_text>\<open>Resources\<close> (\<^verbatim>\<open>edge/src/resources.rs\<close>, \<^verbatim>\<open>edge/src/doors.rs\<close>): the policy store, its ingest, the scan
    decision \<open>decide\<close>, sessions and Open Access holds. \<^theory_text>\<open>Resource_Safety\<close>: who is let in, staleness,
    agreement with the mirror, timing of sessions and holds.
  \<^item> \<^theory_text>\<open>Edge\<close> (\<^verbatim>\<open>edge/src/mqtt.rs\<close>, \<^verbatim>\<open>edge/src/edge_inbound.rs\<close>): the message handlers over one state, the
    record \<open>edge_state\<close>. \<^theory_text>\<open>Edge_Safety\<close>: what holds over every sequence of their events.
  \<^item> \<^theory_text>\<open>Schedules\<close> (\<^verbatim>\<open>server/src/schedules.rs\<close>): weekly windows. \<^theory_text>\<open>Rbac\<close> (\<^verbatim>\<open>server/src/rbac.rs\<close>): the role
    graph, inheritance and the cycle test. \<^theory_text>\<open>Access\<close> (\<^verbatim>\<open>server/src/access_engine.rs\<close>): the one access
    decision \<open>may\<close>.
  \<^item> \<^theory_text>\<open>Doors\<close> (\<^verbatim>\<open>server/src/doors.rs\<close>, the builder of \<^verbatim>\<open>server/src/api/resources.rs\<close>): rule expansion,
    compilation, check-in, unlock commands. \<^theory_text>\<open>Door_Safety\<close>: the compiled lists are what the rules
    say, and coordinator and engine agree.
  \<^item> \<^theory_text>\<open>Ledger\<close> (\<^verbatim>\<open>server/src/database.rs\<close>): balances and posting once per reference, the locale
    \<open>reference_ledger\<close>. \<^theory_text>\<open>Billing\<close> and \<^theory_text>\<open>Billing_Safety\<close> (\<^verbatim>\<open>server/src/tool_billing.rs\<close>): holds and
    charges. \<^theory_text>\<open>Membership\<close> and \<^theory_text>\<open>Membership_Safety\<close> (\<^verbatim>\<open>server/src/membership.rs\<close>): dues, lapses, roles.
  \<^item> \<^theory_text>\<open>Api_Errors\<close> (\<^verbatim>\<open>server/src/api/errors.rs\<close>): what every error becomes at the wire. \<^theory_text>\<open>Shop\<close>
    (\<^verbatim>\<open>server/src/api/toolguard.rs\<close>, \<^verbatim>\<open>api/resources.rs\<close>): devices, credentials, bindings, relays and
    pulses, with a database that may fail at each query.
  \<^item> \<^theory_text>\<open>Ancestry\<close>: the bounded walk up a parent link and the locale \<open>parent_tree\<close> of tables guarded by it.
    \<^theory_text>\<open>Power_Server\<close> and \<^theory_text>\<open>Power_Safety\<close> (\<^verbatim>\<open>server/src/database.rs\<close>, \<^verbatim>\<open>api/power.rs\<close>): summing the draw,
    tripping, the snapshot for the coordinators, re-enabling by staff, and the circuit tree.
  \<^item> \<^theory_text>\<open>Tool_Access\<close> and \<^theory_text>\<open>Tool_Access_Safety\<close> (\<^verbatim>\<open>server/src/database.rs\<close>, \<^verbatim>\<open>api/toolguard.rs\<close>): card lookup,
    training, the rule for a tool, the allow-list a device is sent, and that it decides offline as
    the server does online.
  \<^item> \<^theory_text>\<open>Tool_Service\<close>, \<^theory_text>\<open>Resource_Service\<close> and \<^theory_text>\<open>Tool_Service_Safety\<close> (\<^verbatim>\<open>server/src/api/toolguard.rs\<close>,
    \<^verbatim>\<open>api/resources.rs\<close>, \<^verbatim>\<open>session_sweep.rs\<close>): a badge at a tool, stops, usage reports, rooms and the sweep of
    forgotten sessions, over any sequence of requests.
  \<^item> \<^theory_text>\<open>Places\<close> (\<^verbatim>\<open>server/src/api/places.rs\<close>): the place tree. \<^theory_text>\<open>Bypass\<close> and \<^theory_text>\<open>Bypass_Safety\<close>
    (\<^verbatim>\<open>css_lib/src/bypass.rs\<close>, \<^verbatim>\<open>server/src/bypass.rs\<close>): silence, power without a session, and what is logged.
  \<^item> \<^theory_text>\<open>Text\<close>: trimming, splitting and reading numbers. \<^theory_text>\<open>Stripe\<close> and \<^theory_text>\<open>Stripe_Safety\<close> (\<^verbatim>\<open>server/src/stripe.rs\<close>,
    \<^verbatim>\<open>api/stripe.rs\<close>): payments, signed webhooks, the poll of the renewal cycle.
  \<^item> \<^theory_text>\<open>Throttle\<close> (\<^verbatim>\<open>server/src/throttle.rs\<close>), \<^theory_text>\<open>Accounts\<close> (the account tables), \<^theory_text>\<open>Auth\<close> (\<^verbatim>\<open>auth.rs\<close>, \<^verbatim>\<open>mfa.rs\<close>:
    tokens, extractors, challenges), \<^theory_text>\<open>Auth_Service\<close> (\<^verbatim>\<open>api/auth.rs\<close>, \<^verbatim>\<open>api/mfa.rs\<close>: sign-in, the second step,
    recovery), \<^theory_text>\<open>Auth_Accounts\<close> (\<^verbatim>\<open>api/users.rs\<close>: registration, enrolment, changes), and \<^theory_text>\<open>Auth_Api\<close>: all of
    them as one transition system \<open>auth_step\<close>. \<^theory_text>\<open>Auth_Throttle\<close>, \<^theory_text>\<open>Auth_Safety\<close> and \<^theory_text>\<open>Auth_Emails\<close> state what
    holds over every sequence of its requests.
  \<^item> \<^theory_text>\<open>Training\<close>, \<^theory_text>\<open>Training_Service\<close> and \<^theory_text>\<open>Training_Safety\<close> (\<^verbatim>\<open>server/src/database.rs\<close>,
    \<^verbatim>\<open>api/training.rs\<close>): steps, instructors, progress and tool certifications, over any sequence of requests.
  \<^item> \<^theory_text>\<open>Cmi5\<close> and \<^theory_text>\<open>Cmi5_Manifest\<close> (the crate \<^verbatim>\<open>cmi5/\<close>): statements, the session machine, moveOn, course
    structures, the launch query, the manifest read and written; \<^theory_text>\<open>Cmi5_Properties\<close> proves the round trips and the
    conformance check. \<^theory_text>\<open>Cmi5_Service\<close>, \<^theory_text>\<open>Cmi5_Import\<close> and \<^theory_text>\<open>Cmi5_Api\<close> (\<^verbatim>\<open>server/src/cmi5.rs\<close>, \<^verbatim>\<open>api/cmi5.rs\<close>): launches
    and their credentials, the statement store, packages, and the routes as one transition system \<open>cmi5_step\<close>, over
    which \<^theory_text>\<open>Cmi5_Safety\<close>, \<^theory_text>\<open>Cmi5_Grants\<close> and \<^theory_text>\<open>Cmi5_Sessions\<close> state their properties.
  \<^item> \<^theory_text>\<open>Merge\<close> and \<^theory_text>\<open>Merge_Safety\<close> (\<^verbatim>\<open>server/src/user_merge.rs\<close>, the merge routes of \<^verbatim>\<open>api/admin.rs\<close>): folding
    one account into another over the tables as rows of named columns, and that nothing names the absorbed
    account afterwards, no history is lost and no level is raised unseen.
  \<^item> This theory: the properties that span server and coordinator.

  How the code is rendered. A struct is a record with the source's fields (prefixed where two structs
  share a name), an enum a datatype, a method a function from the state to its result and the new
  state; a lock is not modelled, because each method holds it from beginning to end. An error or an
  early return is a branch. A loop is a recursive function over the list it walks. A hash map whose
  order can be observed is an association list, any other a map. A database table is a list of rows or
  a function; a query is a function of it, and a failing database is left out. A service call runs to
  completion before the next one; a unique index is a guard of the insert. Amounts are rationals;
  an \<^verbatim>\<open>i32\<close> or \<^verbatim>\<open>i16\<close> is an integer, with the cast written out where the code casts; the counters of the
  throttle and the age of a webhook are words. The file store of courses is keyed by whole paths, a join is
  followed component by component, and there are no symbolic links.

  Parameters. What is not in the repository is an argument: UUID and timestamp text (\<open>text_ops\<close>, with
  \<open>text_ok\<close>: what is printed parses back), HMAC-SHA256 (no property assumes anything of it), the card
  digester, password hashing, token coding, TOTP and WebAuthn (\<open>auth_env\<close>), the decimal parser, rounding and formatting, zone data and the decoding of stored intervals
  (\<open>sched_env\<close>), serde, SHA-256, the XML tokenizer, the reading of an \<^verbatim>\<open>f64\<close> (a rational) and what the zip reader delivers (\<open>cmi5_env\<close>,
  \<open>course_package\<close>, with \<open>names_enclosed\<close>: a name it calls enclosed is relative and never climbs above its
  start), calendar arithmetic (\<open>calendar\<close>, with \<open>calendar_ok\<close>: over the stretch a renewal walks, a month later
  exists and is at least 28 days later), the hash of a snapshot, and what HTTP peers reply.

  Fuel and bounds. The depth-first search of \<open>has_cycle\<close> carries fuel, and the size of the graph is
  proved enough. The guard of 1200 of a renewal is the code's own and is shown never to be what ends
  the loop within ninety years. Every other recursion has a termination proof.

  Where the code departs from what it says, a property or a lemma states the behaviour. At the
  coordinator: a hazard never observed reads as safe on its first report; a failing start gate hides a
  latching trip; any power snapshot discards a local trip; two pushes have no subscriber; the relay
  rule of a power report is unreachable. In access: the signed form of a door event is ambiguous; a user
  rule in another spelling is ignored by the engine; a window that ends in a skipped hour ends early;
  a disabled card can stay in an allow-list through its owner's profile; an empty card code is a member.
  In billing: a tier's cap bounds the hold and not the charge; dues spend held credit; a lost race for a
  metered tool keeps the billing session; a second partial refund is lost; the age of a webhook wraps for a
  timestamp 2^63 seconds back. In the shop: an unchanged
  snapshot is pushed at every tick; the rating of a trunk circuit is not enforced; a stop sets a tool of
  any status to idle; a place with children can be given a type at or below theirs; a tool that is
  switched off is reported at once. In accounts: the throttle is shared under keys that collide and a
  sweep that forgets; concurrent requests replay one code; a stale link confirms a new address. In training: a first
  completion never expires; a member whose certification expired cannot start again; a course grants a step
  that requires an assessment; a failed extraction leaves its files; a statement id seen in another session
  is dropped. In a merge of accounts: second factors move without the flag that makes the login ask for them.

  What is not modelled. Transport and storage (the brokers, WebSocket, HTTP, TLS, the SQL engine),
  serialization, the cryptographic libraries, content (pages, calendars), webhooks and mailing lists
  as services, configuration files, the front ends, the firmware and the
  command line.
\<close>

section \<open>From the server's policy to the reader\<close>

text \<open>Two entries that a scan is judged alike on: they may differ in kind, profile and strike.\<close>

definition same_rules :: "entry \<Rightarrow> entry \<Rightarrow> bool" where
  "same_rules e f \<longleftrightarrow>
     e_id e = e_id f \<and> e_external_id e = e_external_id f \<and> e_status e = e_status f \<and>
     e_requires_online e = e_requires_online f \<and> e_enabled e = e_enabled f \<and> e_allow e = e_allow f \<and>
     e_deny e = e_deny f \<and> e_hold_until e = e_hold_until f"

definition same_verdict :: "scan_decision \<Rightarrow> scan_decision \<Rightarrow> bool" where
  "same_verdict d d' \<longleftrightarrow> (case (d, d') of (Allow _, Allow _) \<Rightarrow> True | _ \<Rightarrow> d = d')"

lemma find_same_rules:
  "list_all2 same_rules es fs \<Longrightarrow> rel_option same_rules (find (named x n) es) (find (named x n) fs)"
  by (induction rule: list_all2_induct) (auto simp: same_rules_def named_def)

lemma decide_member_same:
  "members w = members w' \<Longrightarrow> rel_option same_rules eo eo' \<Longrightarrow>
   same_verdict (decide_member w eo s token) (decide_member w' eo' s' token)"
  by (cases eo; cases eo')
    (auto simp: decide_member_def same_verdict_def same_rules_def split: option.split)

lemma decide_same:
  assumes "lockouts c = lockouts c'" "members (policy_of c) = members (policy_of c')"
    and "\<And>code. wire_digest_hex (allow_list c) code = wire_digest_hex (allow_list c') code"
    and "rel_option same_rules (policy_find x (policy_of c) n) (policy_find x (policy_of c') n)"
  shows "same_verdict (decide x c n code now) (decide x c' n code now)"
proof (cases "policy_find x (policy_of c) n")
  case None
  then have "policy_find x (policy_of c') n = None" using assms(4) by simp
  with None show ?thesis
    using decide_member_same [OF assms(2), of None None] assms(1,3)
    by (simp add: decide_def Let_def) (simp add: same_verdict_def)
next
  case (Some e)
  then obtain f where f: "policy_find x (policy_of c') n = Some f" "same_rules e f"
    using assms(4) by (auto simp: option_rel_Some1)
  then have r: "e_enabled e = e_enabled f" "e_deny e = e_deny f" "e_hold_until e = e_hold_until f"
      "e_allow e = e_allow f" "e_requires_online e = e_requires_online f"
    by (simp_all add: same_rules_def)
  have refl: "same_verdict d d" "same_verdict (Allow s) (Allow s')" for d s s'
    by (cases d) (simp_all add: same_verdict_def)
  have "same_verdict (decide_member (policy_of c) (Some e) s token) (decide_member (policy_of c') (Some f) s' token)"
    for s s' token
    using decide_member_same [OF assms(2), of "Some e" "Some f"] f(2) by simp
  then show ?thesis
    using Some f(1) r assms(1,3) by (simp add: decide_def Let_def refl)
qed

lemma built_policy_entries:
  assumes "text_ok x" "\<And>t. parse_rfc3339 x (to_rfc3339 t) = Some t"
  shows "list_all2 same_rules
    (List.map_filter (from_policy x) (rpp_resources (build_resource_policy x to_rfc3339 pd dev tools ss now)))
    (map from_sync_tool (sp_tools tools) @ map from_compiled_door (dss_doors ss))"
proof -
  have p: "uuid_parse x (uuid_show x u) = Some u" for u using assms(1) by (simp add: text_ok_def)
  have tool: "\<exists>e. from_policy x (tool_resource_policy x pd t) = Some e \<and> same_rules e (from_sync_tool t)" for t
    by (simp add: from_policy_def tool_resource_policy_def same_rules_def from_sync_tool_def p split_beta Let_def)
  have door: "\<exists>e. from_policy x (door_resource_policy x to_rfc3339 pd d) = Some e \<and> same_rules e (from_compiled_door d)" for d
    by (cases "cd_hold_unlock_until d")
      (simp_all add: from_policy_def door_resource_policy_def same_rules_def from_compiled_door_def p assms(2))
  have part: "list_all2 same_rules (List.map_filter (from_policy x) (map f as)) (map g as)"
    if "\<And>a. \<exists>e. from_policy x (f a) = Some e \<and> same_rules e (g a)" for f :: "'b \<Rightarrow> resource_policy" and g as
  proof (induction as)
    case (Cons a as)
    with that [of a] show ?case by (auto simp: List.map_filter_simps)
  qed (simp add: List.map_filter_simps)
  have "List.map_filter f (as @ bs) = List.map_filter f as @ List.map_filter f bs" for f :: "resource_policy \<Rightarrow> entry option" and as bs
    by (induction as) (simp_all add: List.map_filter_simps split: option.split)
  then show ?thesis
    by (simp add: build_resource_policy_def) (intro list_all2_appendI part tool door)
qed

lemma built_policy_members:
  assumes "text_ok x"
  shows "map (from_principal x) (rpp_principals (build_resource_policy x to_rfc3339 pd dev tools ss now)) =
    map from_sync_user (sp_users tools)"
proof -
  have "List.map_filter (uuid_parse x) (map (uuid_show x) us) = us" for us
    using assms by (induction us) (simp_all add: List.map_filter_simps text_ok_def)
  then show ?thesis
    by (simp add: build_resource_policy_def principal_of_def from_principal_def from_sync_user_def)
qed

text \<open>
  C11. The one policy replaces the two snapshots: a coordinator that applies the resource policy the
  server builds gives the same verdict on every scan, with the same reason, as one that applies
  the allow-list and the door snapshot the policy was built from. Only the strike may differ. It
  needs an RFC 3339 printer that its parser inverts, and payloads that are not stale.
\<close>

theorem built_policy_decides_as_the_snapshots:
  assumes "text_ok x" "\<forall>t. parse_rfc3339 x (to_rfc3339 t) = Some t"
    and "\<not> is_stale (policy_of c) now" "\<not> is_stale (policy_of c) (dss_snapshot_at ss)"
  shows "same_verdict
           (decide x (apply_policy x c (build_resource_policy x to_rfc3339 pd dev tools ss now) r) n code t)
           (decide x (apply_doors_alias (apply_sync_alias c tools r') ss) n code t)"
proof (rule decide_same)
  let ?p = "build_resource_policy x to_rfc3339 pd dev tools ss now"
  let ?c = "apply_policy x c ?p r" and ?c' = "apply_doors_alias (apply_sync_alias c tools r') ss"
  have stamp: "parse_rfc3339 x (rpp_as_of ?p) = Some now" using assms(2) by (simp add: build_resource_policy_def)
  have fresh: "\<not> is_stale (policy_of (apply_sync_alias c tools r')) (dss_snapshot_at ss)"
    using assms(4) by (simp add: apply_sync_alias_def Let_def is_stale_def)
  have es: "entries (policy_of ?c) = List.map_filter (from_policy x) (rpp_resources ?p)"
    using assms(3) stamp by (simp add: apply_policy_def Let_def)
  have es': "entries (policy_of ?c') = map from_sync_tool (sp_tools tools) @ map from_compiled_door (dss_doors ss)"
    using fresh by (simp add: apply_doors_alias_def apply_sync_alias_def Let_def filter_other_kinds comp_def)
  show "lockouts ?c = lockouts ?c'"
    using assms(3) fresh stamp by (simp add: apply_policy_def apply_doors_alias_def apply_sync_alias_def Let_def)
  show "wire_digest_hex (allow_list ?c) cd = wire_digest_hex (allow_list ?c') cd" for cd
    using assms(3) fresh stamp by (simp add: apply_policy_def apply_doors_alias_def apply_sync_alias_def Let_def)
  show "members (policy_of ?c) = members (policy_of ?c')"
    using assms(1,3) fresh stamp built_policy_members
    by (simp add: apply_policy_def apply_doors_alias_def apply_sync_alias_def Let_def)
  have "list_all2 same_rules (entries (policy_of ?c)) (entries (policy_of ?c'))"
    unfolding es es' using assms(1,2) by (intro built_policy_entries) simp_all
  then show "rel_option same_rules (policy_find x (policy_of ?c) n) (policy_find x (policy_of ?c') n)"
    unfolding policy_find_def by (rule find_same_rules)
qed

definition read_int :: "string \<Rightarrow> int" where
  "read_int s = (if CHR ''-'' \<in> set s then - int (read_nat (tl s)) else int (read_nat s))"

lemma read_show_int: "read_int (show_int i) = i"
  by (auto simp: read_int_def show_int_def show_nat_clean)

definition demo_clock :: text_ops where
  "demo_clock = demo_text\<lparr>parse_rfc3339 := (\<lambda>s. Some (read_int s))\<rparr>"

lemma built_policy_decides_as_the_snapshots_witness:
  "same_verdict
     (decide demo_clock (apply_policy demo_clock demo_cache (build_resource_policy demo_clock show_int
        \<lparr>resource_profiles = [3 \<mapsto> (''tool'', ''until_stopped'')], in_use_resources = {}, pd_strike = Map.empty\<rparr>
        1 demo_sync demo_snapshot 5) None) ''saw'' ''A'' 6)
     (decide demo_clock (apply_doors_alias (apply_sync_alias demo_cache demo_sync None) demo_snapshot) ''saw'' ''A'' 6)"
proof (rule built_policy_decides_as_the_snapshots)
  show "text_ok demo_clock" using demo_text_ok by (simp add: text_ok_def demo_clock_def)
qed (simp_all add: demo_clock_def read_show_int is_stale_def demo_cache_def cache_new_def policy_default_def)

text \<open>
  C20. A remote unlock reaches the strike: the command the server publishes, signed with the key the
  coordinator holds, is queued by the coordinator as it was sent, and what is answered to the
  hardware is a yes for that door with that pulse. A coordinator without a key takes any command,
  one with a key drops an unsigned one.
\<close>

theorem published_unlock_reaches_the_strike:
  assumes "command_key s = None \<or> command_key s = key"
  shows "unlock_queue (dispatch x hmac now (InUnlock (publish_unlock x hmac key d ms why)) s) =
           unlock_queue s @ [publish_unlock x hmac key d ms why] \<and>
         publish_doors_unlock_response x (publish_unlock x hmac key d ms why) =
           ScanReply \<lparr>lsr_resource = uuid_show x d, lsr_authorized = True, lsr_reason = why,
             lsr_strike = Some \<lparr>ls_pulse_ms = ms\<rparr>\<rparr> \<and>
         dispatch x hmac now (InUnlock (publish_unlock x hmac None d ms why)) (s\<lparr>command_key := Some k\<rparr>) =
           s\<lparr>command_key := Some k\<rparr>"
  using assms
  by (auto simp: publish_unlock_def Let_def verify_iff sign_def publish_doors_unlock_response_def
      local_scan_reply_new_def split: option.split)

lemma published_unlock_reaches_the_strike_witness:
  "unlock_queue (dispatch demo_text (\<lambda>k m. k @ m) 5
      (InUnlock (publish_unlock demo_text (\<lambda>k m. k @ m) (Some ''k'') 7 3000 ''visitor'')) demo_edge) =
     unlock_queue demo_edge @ [publish_unlock demo_text (\<lambda>k m. k @ m) (Some ''k'') 7 3000 ''visitor'']"
  using published_unlock_reaches_the_strike [of demo_edge "Some ''k''" demo_text "\<lambda>k m. k @ m" 5 7 3000 "''visitor''" "''k''"]
  by (simp add: demo_edge_def)

end
